(* ===== verification/Prelude.thy ===== *)
theory Prelude
  imports Main "HOL-Library.AList"
begin

text \<open>
  Shared material of the development: what the components use of the JavaScript language and its
  standard library, and the generic lemmas and interfaces their proofs rest on.

  \<^item> A JavaScript \<^verbatim>\<open>Map\<close> iterates in insertion order and keeps a key's position when the key is
    set again. That is an association list with distinct keys under \<^verbatim>\<open>AList.update\<close>,
    \<^verbatim>\<open>AList.delete\<close> and \<^verbatim>\<open>map_of\<close>.
  \<^item> A JavaScript string is a \<^typ>\<open>string\<close> holding its UTF-8 encoding. Case mapping and
    \<^verbatim>\<open>trim()\<close> are modelled on ASCII; bytes above 127 are left alone. \<^verbatim>\<open>length\<close> counts bytes, which
    is the source's \<^verbatim>\<open>length\<close> on ASCII text.
  \<^item> A number that the source only ever uses as an integer is an \<^typ>\<open>int\<close> or a \<^typ>\<open>nat\<close>;
    \<^verbatim>\<open>Math.floor(a / b)\<close> is \<^verbatim>\<open>a div b\<close> and \<^verbatim>\<open>Math.ceil(a / b)\<close> is \<^verbatim>\<open>ceil_div a b\<close>.
\<close>

named_theorems jsmap "rewriting of the insertion-ordered map operations"
named_theorems inv_pres "operations that keep their component's invariant"

section \<open>Arithmetic\<close>

definition ceil_div :: "int \<Rightarrow> int \<Rightarrow> int" where
  "ceil_div a b = - ((- a) div b)"

lemma ceil_div_ge:
  assumes "0 < b"
  shows "a \<le> ceil_div a b * b"
proof -
  have "(- a) div b * b \<le> - a"
    using assms div_mult_mod_eq [of "- a" b] pos_mod_sign [of b "- a"] by linarith
  then show ?thesis by (simp add: ceil_div_def)
qed

lemma ceil_div_less:
  assumes "0 < b"
  shows "ceil_div a b * b < a + b"
proof -
  have "- a < (- a) div b * b + b"
    using assms div_mult_mod_eq [of "- a" b] pos_mod_bound [of b "- a"] by linarith
  then show ?thesis by (simp add: ceil_div_def)
qed

lemma ceil_div_pos:
  assumes "0 < b" "0 < a"
  shows "0 < ceil_div a b"
proof (rule ccontr)
  assume "\<not> 0 < ceil_div a b"
  then have "ceil_div a b * b \<le> 0" using assms(1) by (simp add: mult_nonpos_nonneg)
  with ceil_div_ge [OF assms(1), of a] assms(2) show False by linarith
qed

text \<open>Fixed windows: the multiple of the period at or below an instant.\<close>

definition floor_to :: "int \<Rightarrow> int \<Rightarrow> int" where
  "floor_to p t = t div p * p"

lemma floor_to_le: "0 < p \<Longrightarrow> floor_to p t \<le> t"
  using div_mult_mod_eq [of t p] pos_mod_sign [of p t] unfolding floor_to_def by linarith

lemma floor_to_gt: "0 < p \<Longrightarrow> t < floor_to p t + p"
  using div_mult_mod_eq [of t p] pos_mod_bound [of p t] unfolding floor_to_def by linarith

lemma floor_to_mono: "0 < p \<Longrightarrow> s \<le> t \<Longrightarrow> floor_to p s \<le> floor_to p t"
  by (simp add: floor_to_def zdiv_mono1 mult_right_mono)

lemma floor_to_aligned: "0 < p \<Longrightarrow> floor_to p (floor_to p t) = floor_to p t"
  by (simp add: floor_to_def)

lemma floor_to_unique:
  assumes "0 < p" and "floor_to p s \<le> t" and "t < floor_to p s + p"
  shows "floor_to p t = floor_to p s"
proof -
  have "s div p * p \<le> t" "t < (s div p + 1) * p"
    using assms by (auto simp: floor_to_def algebra_simps)
  then have "t div p = s div p"
    using assms(1) by (intro int_div_pos_eq [where r = "t - s div p * p"]) (auto simp: algebra_simps)
  then show ?thesis by (simp add: floor_to_def)
qed

section \<open>Insertion-ordered maps\<close>

declare map_of_eq_Some_iff [simp del] Some_eq_map_of_iff [simp del]

type_synonym ('k, 'v) jsmap = "('k \<times> 'v) list"

abbreviation mkeys :: "('k, 'v) jsmap \<Rightarrow> 'k list" where
  "mkeys m \<equiv> map fst m"

abbreviation mvalues :: "('k, 'v) jsmap \<Rightarrow> 'v list" where
  "mvalues m \<equiv> map snd m"

abbreviation mset_key :: "'k \<Rightarrow> 'v \<Rightarrow> ('k, 'v) jsmap \<Rightarrow> ('k, 'v) jsmap" where
  "mset_key \<equiv> AList.update"

abbreviation mdelete :: "'k \<Rightarrow> ('k, 'v) jsmap \<Rightarrow> ('k, 'v) jsmap" where
  "mdelete \<equiv> AList.delete"

lemma get_set [jsmap]: "map_of (mset_key k v m) k' = (if k' = k then Some v else map_of m k')"
  by (simp add: update_conv')

lemma get_delete [jsmap]: "map_of (mdelete k m) k' = (if k' = k then None else map_of m k')"
  by (simp add: delete_conv')

lemma keys_set [jsmap]:
  "mkeys (mset_key k v m) = (if k \<in> set (mkeys m) then mkeys m else mkeys m @ [k])"
  by (induction m) auto

lemma keys_delete [jsmap]: "mkeys (mdelete k m) = filter (\<lambda>k'. k' \<noteq> k) (mkeys m)"
  by (induction m) auto

lemma distinct_set: "distinct (mkeys m) \<Longrightarrow> distinct (mkeys (mset_key k v m))"
  by (simp add: keys_set)

lemma distinct_delete: "distinct (mkeys m) \<Longrightarrow> distinct (mkeys (mdelete k m))"
  by (simp add: keys_delete)

lemma get_None_iff: "map_of m k = None \<longleftrightarrow> k \<notin> set (mkeys m)"
  by (auto simp: map_of_eq_None_iff image_iff)

lemma set_fresh_append: "k \<notin> set (mkeys m) \<Longrightarrow> mset_key k v m = m @ [(k, v)]"
  by (induction m) auto

lemma delete_fresh: "k \<notin> set (mkeys m) \<Longrightarrow> mdelete k m = m"
  by (induction m) auto

lemma delete_eq_filter: "mdelete k m = filter (\<lambda>(k', _). k \<noteq> k') m"
  by (induction m) auto

lemma get_filter_distinct:
  "distinct (mkeys m) \<Longrightarrow>
   map_of (filter (\<lambda>(k, v). P k v) m) k = (case map_of m k of None \<Rightarrow> None | Some v \<Rightarrow> if P k v then Some v else None)"
  by (induction m) (auto simp: get_None_iff split: option.splits)

text \<open>Weights of a map's values: what a set or a delete does to their sum.\<close>

definition msum :: "('v \<Rightarrow> nat) \<Rightarrow> ('k, 'v) jsmap \<Rightarrow> nat" where
  "msum f m = sum_list (map (f \<circ> snd) m)"

lemma msum_Nil [simp]: "msum f [] = 0"
  by (simp add: msum_def)

lemma msum_Cons [simp]: "msum f (p # m) = f (snd p) + msum f m"
  by (simp add: msum_def)

lemma msum_append [simp]: "msum f (m @ m') = msum f m + msum f m'"
  by (simp add: msum_def)

lemma msum_set:
  "distinct (mkeys m) \<Longrightarrow>
   msum f (mset_key k v m) + (case map_of m k of None \<Rightarrow> 0 | Some u \<Rightarrow> f u) = msum f m + f v"
  by (induction m) (auto split: option.splits if_splits)

lemma msum_delete:
  "distinct (mkeys m) \<Longrightarrow>
   msum f (mdelete k m) + (case map_of m k of None \<Rightarrow> 0 | Some u \<Rightarrow> f u) = msum f m"
proof (induction m)
  case (Cons p m)
  obtain k' v' where p: "p = (k', v')" by fastforce
  show ?case
  proof (cases "k' = k")
    case True
    with Cons.prems p have "mdelete k m = m" by (intro delete_fresh) auto
    with True p show ?thesis by simp
  next
    case False
    with Cons p show ?thesis by simp
  qed
qed simp

lemma msum_one: "msum (\<lambda>_. 1) m = length m"
  by (induction m) auto

lemma msum_member: "map_of m k = Some v \<Longrightarrow> f v \<le> msum f m"
  by (induction m) (auto split: if_splits intro: trans_le_add2)

text \<open>
  A string stored on a plain object with \<^verbatim>\<open>out[name] = value\<close>: the name \<^verbatim>\<open>__proto__\<close> reaches the
  prototype setter, which ignores a string, and creates no own property.
\<close>

definition js_obj_set :: "string \<Rightarrow> string \<Rightarrow> (string, string) jsmap \<Rightarrow> (string, string) jsmap" where
  "js_obj_set name v obj = (if name = ''__proto__'' then obj else mset_key name v obj)"

section \<open>Lists\<close>

lemma foldl_simulate:
  "(\<And>a x. h (f a x) = g (h a) (k x)) \<Longrightarrow> foldl g (h a) (map k xs) = h (foldl f a xs)"
proof (induction xs arbitrary: a)
  case (Cons x xs)
  from Cons.IH [OF Cons.prems, of "f a x"] Cons.prems show ?case by simp
qed simp

lemma filter_append_split:
  "filter P xs = us @ vs \<Longrightarrow> \<exists>as bs. xs = as @ bs \<and> filter P as = us \<and> filter P bs = vs"
proof (induction us arbitrary: xs)
  case Nil
  then show ?case by (metis append_Nil filter.simps(1))
next
  case (Cons u us)
  then obtain cs ds where xs: "xs = cs @ u # ds" and "\<forall>c\<in>set cs. \<not> P c" "P u" "filter P ds = us @ vs"
    by (auto simp: filter_eq_Cons_iff)
  moreover from Cons.IH [OF this(4)] obtain as bs where "ds = as @ bs" "filter P as = us" "filter P bs = vs" by blast
  ultimately show ?case by (intro exI [of _ "cs @ u # as"] exI [of _ bs]) auto
qed

lemma find_append: "find P (xs @ ys) = (case find P xs of Some x \<Rightarrow> Some x | None \<Rightarrow> find P ys)"
  by (induction xs) auto

lemma find_split:
  assumes "find P xs = Some x"
  obtains ys zs where "xs = ys @ x # zs" "P x" "\<forall>y\<in>set ys. \<not> P y"
proof -
  from assms have "dropWhile (\<lambda>y. \<not> P y) xs \<noteq> [] \<and> x = hd (dropWhile (\<lambda>y. \<not> P y) xs)"
    by (induction xs) (auto split: if_splits)
  then obtain zs where zs: "dropWhile (\<lambda>y. \<not> P y) xs = x # zs" by (metis list.exhaust_sel)
  have "xs = takeWhile (\<lambda>y. \<not> P y) xs @ x # zs" using takeWhile_dropWhile_id [of "\<lambda>y. \<not> P y" xs] by (simp add: zs)
  moreover have "P x" using hd_dropWhile [of "\<lambda>y. \<not> P y" xs] zs by simp
  moreover have "\<forall>y\<in>set (takeWhile (\<lambda>y. \<not> P y) xs). \<not> P y" by (auto dest: set_takeWhileD)
  ultimately show ?thesis by (rule that)
qed

section \<open>Strings\<close>

definition starts_with :: "string \<Rightarrow> string \<Rightarrow> bool" where
  "starts_with p s \<longleftrightarrow> take (length p) s = p"

definition ends_with :: "string \<Rightarrow> string \<Rightarrow> bool" where
  "ends_with suffix s \<longleftrightarrow> length suffix \<le> length s \<and> drop (length s - length suffix) s = suffix"

lemma starts_with_append [simp]: "starts_with p (p @ s)"
  by (simp add: starts_with_def)

lemma starts_with_iff: "starts_with p s \<longleftrightarrow> (\<exists>t. s = p @ t)"
  by (metis append_take_drop_id append_eq_conv_conj starts_with_def)

fun js_split :: "'a \<Rightarrow> 'a list \<Rightarrow> 'a list list" where
  "js_split c [] = [[]]"
| "js_split c (x # xs) =
     (if x = c then [] # js_split c xs
      else (case js_split c xs of [] \<Rightarrow> [[x]] | h # t \<Rightarrow> (x # h) # t))"

fun js_join :: "'a list \<Rightarrow> 'a list list \<Rightarrow> 'a list" where
  "js_join sep [] = []"
| "js_join sep [x] = x"
| "js_join sep (x # y # ys) = x @ sep @ js_join sep (y # ys)"

lemma js_split_nonempty [simp]: "js_split c s \<noteq> []"
  by (induction s) (auto split: list.splits)

lemma js_join_split: "js_join [c] (js_split c s) = s"
proof (induction s)
  case (Cons x s)
  obtain h t where ht: "js_split c s = h # t" by (cases "js_split c s") auto
  with Cons show ?case by (cases t) auto
qed simp

lemma js_split_no_sep: "p \<in> set (js_split c s) \<Longrightarrow> c \<notin> set p"
  by (induction s arbitrary: p) (auto split: list.splits if_splits)

lemma js_split_atom: "c \<notin> set p \<Longrightarrow> js_split c p = [p]"
  by (induction p) auto

lemma js_split_append: "c \<notin> set p \<Longrightarrow> js_split c (p @ c # s) = p # js_split c s"
  by (induction p) auto

lemma js_split_join:
  "ps \<noteq> [] \<Longrightarrow> (\<forall>p\<in>set ps. c \<notin> set p) \<Longrightarrow> js_split c (js_join [c] ps) = ps"
  by (induction "[c]" ps rule: js_join.induct) (auto simp: js_split_atom js_split_append)

definition js_space :: "char \<Rightarrow> bool" where
  "js_space c \<longleftrightarrow> of_char c \<in> {9, 10, 11, 12, 13, 32 :: nat}"

definition js_trim :: "string \<Rightarrow> string" where
  "js_trim s = rev (dropWhile js_space (rev (dropWhile js_space s)))"

definition char_in :: "char \<Rightarrow> char \<Rightarrow> char \<Rightarrow> bool" where
  "char_in lo hi c \<longleftrightarrow> (of_char lo :: nat) \<le> of_char c \<and> (of_char c :: nat) \<le> of_char hi"

definition upper_char :: "char \<Rightarrow> char" where
  "upper_char c = (if char_in CHR ''a'' CHR ''z'' c then char_of (of_char c - 32 :: nat) else c)"

definition lower_char :: "char \<Rightarrow> char" where
  "lower_char c = (if char_in CHR ''A'' CHR ''Z'' c then char_of (of_char c + 32 :: nat) else c)"

definition toUpperCase :: "string \<Rightarrow> string" where
  "toUpperCase s = map upper_char s"

definition toLowerCase :: "string \<Rightarrow> string" where
  "toLowerCase s = map lower_char s"

lemma length_toLowerCase [simp]: "length (toLowerCase s) = length s"
  by (simp add: toLowerCase_def)

text \<open>Evaluation of characters through binary integers.\<close>

lemma of_char_nat: "(of_nat (of_char c :: nat) :: integer) = integer_of_char c"
  by (simp add: integer_of_char_def of_nat_of_char)

lemma char_in_code [code]:
  "char_in lo hi c \<longleftrightarrow> integer_of_char lo \<le> integer_of_char c \<and> integer_of_char c \<le> integer_of_char hi"
  by (simp add: char_in_def of_char_nat [symmetric])

lemma char_of_int: "char_of_integer (of_nat n) = char_of n"
  by (simp add: char_of_integer_def)

lemma lower_char_code [code]:
  "lower_char c = (if char_in CHR ''A'' CHR ''Z'' c then char_of_integer (integer_of_char c + 32) else c)"
  unfolding lower_char_def char_of_int [symmetric] by (simp add: integer_of_char_def of_nat_of_char)

lemma upper_char_code [code]:
  "upper_char c = (if char_in CHR ''a'' CHR ''z'' c then char_of_integer (integer_of_char c - 32) else c)"
  unfolding upper_char_def char_of_int [symmetric] by (auto simp: integer_of_char_def char_in_def of_nat_diff of_nat_of_char)

lemma js_space_code [code]: "js_space c \<longleftrightarrow> integer_of_char c \<in> {9, 10, 11, 12, 13, 32}"
proof -
  have "(n = m) = ((of_nat n :: integer) = of_nat m)" for n m :: nat by simp
  then show ?thesis unfolding js_space_def of_char_nat [symmetric] by simp 
qed

fun contains_str :: "string \<Rightarrow> string \<Rightarrow> bool" where
  "contains_str needle [] = (needle = [])"
| "contains_str needle (c # s) = (starts_with needle (c # s) \<or> contains_str needle s)"

text \<open>Decimal rendering of a natural number, as \<^verbatim>\<open>String(n)\<close> prints it.\<close>

definition digit_char :: "nat \<Rightarrow> char" where
  "digit_char d = char_of (48 + d)"

fun show_nat :: "nat \<Rightarrow> string" where
  "show_nat n = (if n < 10 then [digit_char n] else show_nat (n div 10) @ [digit_char (n mod 10)])"

declare show_nat.simps [simp del]

definition char_digit :: "char \<Rightarrow> nat" where
  "char_digit c = of_char c - 48"

definition read_nat :: "string \<Rightarrow> nat" where
  "read_nat s = foldl (\<lambda>n c. 10 * n + char_digit c) 0 s"

lemma of_digit_char: "d < 10 \<Longrightarrow> (of_char (digit_char d) :: nat) = 48 + d"
  by (simp add: digit_char_def of_char_of)

lemma char_digit_char: "d < 10 \<Longrightarrow> char_digit (digit_char d) = d"
  by (simp add: char_digit_def of_digit_char)

lemma read_show_nat: "read_nat (show_nat n) = n"
proof (induction n rule: show_nat.induct)
  case (1 n)
  then show ?case
    by (subst show_nat.simps) (auto simp: read_nat_def char_digit_char)
qed

lemma show_nat_inj: "show_nat m = show_nat n \<Longrightarrow> m = n"
  by (metis read_show_nat)

lemma show_nat_digits: "c \<in> set (show_nat n) \<Longrightarrow> 48 \<le> (of_char c :: nat) \<and> (of_char c :: nat) \<le> 57"
proof (induction n rule: show_nat.induct)
  case (1 n)
  then show ?case
    by (subst (asm) (2) show_nat.simps) (auto simp: of_digit_char split: if_splits)
qed

section \<open>Machines\<close>

text \<open>
  A component that handles a sequence of events: its invariant holds after any of them. Each
  component's operations are interpreted here once, so that an invariant lemma is stated for single
  operations and holds for whole runs.
\<close>

locale machine =
  fixes step :: "'s \<Rightarrow> 'e \<Rightarrow> 's"
    and good :: "'s \<Rightarrow> bool"
  assumes step_good: "good s \<Longrightarrow> good (step s e)"
begin

lemma run_good: "good s \<Longrightarrow> good (foldl step s es)"
  by (induction es arbitrary: s) (auto intro: step_good)

lemma run_prefix_good: "good s \<Longrightarrow> es = xs @ ys \<Longrightarrow> good (foldl step s xs)"
  by (rule run_good)

end

text \<open>The relational form, for components whose next step is not determined by the state alone.\<close>

locale transition_system =
  fixes start :: "'s \<Rightarrow> bool"
    and next_state :: "'s \<Rightarrow> 's \<Rightarrow> bool"
    and inv :: "'s \<Rightarrow> bool"
  assumes start_inv: "start s \<Longrightarrow> inv s"
    and next_inv: "inv s \<Longrightarrow> next_state s t \<Longrightarrow> inv t"
begin

lemma steps_inv: "next_state\<^sup>*\<^sup>* s t \<Longrightarrow> inv s \<Longrightarrow> inv t"
  by (induction rule: rtranclp_induct) (auto intro: next_inv)

lemma reachable_inv: "start s \<Longrightarrow> next_state\<^sup>*\<^sup>* s t \<Longrightarrow> inv t"
  by (blast intro: start_inv steps_inv)

end

text \<open>
  A system that implements a specification: each of its steps from a state of the invariant is some steps of the
  specification, seen through the abstraction, so every run is a run of the specification.
\<close>

locale simulation = transition_system start next_state inv
  for start :: "'s \<Rightarrow> bool" and next_state :: "'s \<Rightarrow> 's \<Rightarrow> bool" and inv :: "'s \<Rightarrow> bool" +
  fixes abs_of :: "'s \<Rightarrow> 'a"
    and spec_step :: "'a \<Rightarrow> 'a \<Rightarrow> bool"
  assumes simulates: "inv s \<Longrightarrow> next_state s t \<Longrightarrow> spec_step\<^sup>*\<^sup>* (abs_of s) (abs_of t)"
begin

lemma runs_simulate: "next_state\<^sup>*\<^sup>* s t \<Longrightarrow> inv s \<Longrightarrow> spec_step\<^sup>*\<^sup>* (abs_of s) (abs_of t)"
proof (induction rule: rtranclp_induct)
  case (step t u)
  then have "spec_step\<^sup>*\<^sup>* (abs_of t) (abs_of u)" by (intro simulates) (auto dest: steps_inv)
  with step show ?case by (auto intro: rtranclp_trans)
qed simp

end

end
