(* ===== verification/Routing.thy ===== *)
theory Routing
  imports Prelude
begin

text \<open>
  \<^verbatim>\<open>shared/routing.ts\<close>: base-path and host normalization, the segment-boundary match, base-path
  stripping and the backend join. Both planes use these functions, so "what does this base path
  match" has one answer.

  An \<^verbatim>\<open>unknown\<close> argument that is not a string is \<^verbatim>\<open>None\<close>. \<^verbatim>\<open>new URL\<close> belongs to the runtime; the
  join takes its \<^verbatim>\<open>origin\<close> and \<^verbatim>\<open>pathname\<close> as arguments.
\<close>

section \<open>Definitions\<close>

definition RESERVED_BASE_PATHS :: "string list" where
  "RESERVED_BASE_PATHS = [''/healthz'', ''/readyz'']"

definition MAX_BASE_PATH_LENGTH :: nat where
  "MAX_BASE_PATH_LENGTH = 128"

datatype base_path_error =
    NotAString            \<comment> \<open>expected a non-empty string\<close>
  | NoLeadingSlash        \<comment> \<open>must start with "/"\<close>
  | QueryOrFragment       \<comment> \<open>must not contain a query string or fragment\<close>
  | Whitespace            \<comment> \<open>must not contain whitespace\<close>
  | DoubleSlash           \<comment> \<open>must not contain "//"\<close>
  | TooLong               \<comment> \<open>longer than MAX_BASE_PATH_LENGTH characters\<close>
  | Reserved              \<comment> \<open>reserved by the data plane\<close>

text \<open>\<^verbatim>\<open>while (value.length > 1 && value.endsWith("/")) value = value.slice(0, -1)\<close>\<close>

function strip_trailing_slashes :: "string \<Rightarrow> string" where
  "strip_trailing_slashes value =
     (if 1 < length value \<and> last value = CHR ''/'' then strip_trailing_slashes (butlast value)
      else value)"
  by pat_completeness auto
termination by (relation "measure length") auto

declare strip_trailing_slashes.simps [simp del]

record NormalizedBasePath =
  nbp_basePath :: string
  nbp_errors :: "base_path_error list"

definition normalizeBasePath :: "string option \<Rightarrow> NormalizedBasePath" where
  "normalizeBasePath input = (case input of
       None \<Rightarrow> \<lparr>nbp_basePath = [], nbp_errors = [NotAString]\<rparr>
     | Some text \<Rightarrow>
        if text = [] then \<lparr>nbp_basePath = [], nbp_errors = [NotAString]\<rparr>
        else
          (let value = js_trim text;
               errors =
                 (if starts_with ''/'' value then [] else [NoLeadingSlash])
                 @ (if CHR ''?'' \<in> set value \<or> CHR ''#'' \<in> set value then [QueryOrFragment] else [])
                 @ (if list_ex js_space value then [Whitespace] else [])
                 @ (if contains_str ''//'' value then [DoubleSlash] else [])
                 @ (if MAX_BASE_PATH_LENGTH < length value then [TooLong] else []);
               stripped = strip_trailing_slashes value
           in \<lparr>nbp_basePath = stripped,
               nbp_errors = errors @ (if stripped \<in> set RESERVED_BASE_PATHS then [Reserved] else [])\<rparr>))"

definition host_char :: "char \<Rightarrow> bool" where
  "host_char c \<longleftrightarrow> char_in CHR ''a'' CHR ''z'' c \<or> char_in CHR ''0'' CHR ''9'' c \<or> c = CHR ''.'' \<or> c = CHR ''-''"

text \<open>The pair is the host and whether the single host error was reported.\<close>

definition normalizeHost :: "string option \<Rightarrow> string \<times> bool" where
  "normalizeHost input = (case input of
       None \<Rightarrow> (''*'', False)
     | Some text \<Rightarrow>
        if js_trim text = [] then (''*'', False)
        else
          (let host = toLowerCase (js_trim text)
           in if host = ''*'' then (host, False)
              else if \<not> list_all host_char host then (host, True)
              else (host, False)))"

text \<open>\<^verbatim>\<open>value.slice(0, value.indexOf("]") + 1)\<close>: an absent bracket makes the slice empty.\<close>

fun through_first :: "char \<Rightarrow> string \<Rightarrow> string option" where
  "through_first c [] = None"
| "through_first c (x # xs) =
     (if x = c then Some [x] else map_option ((#) x) (through_first c xs))"

definition hostKey :: "string option \<Rightarrow> string" where
  "hostKey hostHeader = (case hostHeader of
       None \<Rightarrow> []
     | Some h \<Rightarrow>
        if h = [] then []
        else
          (let value = toLowerCase (js_trim h)
           in if starts_with ''['' value
              then (case through_first CHR '']'' value of None \<Rightarrow> [] | Some s \<Rightarrow> s)
              else if CHR '':'' \<notin> set value then value
              else rev (tl (dropWhile (\<lambda>c. c \<noteq> CHR '':'') (rev value)))))"

definition pathMatchesBase :: "string \<Rightarrow> string \<Rightarrow> bool" where
  "pathMatchesBase path basePath \<longleftrightarrow>
     (if basePath = ''/'' then True
      else path = basePath \<or> starts_with (basePath @ ''/'') path)"

definition stripBasePath :: "string \<Rightarrow> string \<Rightarrow> string" where
  "stripBasePath path basePath =
     (if basePath = ''/'' then path
      else if path = basePath then ''/''
      else if starts_with (basePath @ ''/'') path then drop (length basePath) path
      else path)"

text \<open>\<^verbatim>\<open>base.pathname.replace(/\/+$/, "")\<close>\<close>

definition drop_trailing_slashes :: "string \<Rightarrow> string" where
  "drop_trailing_slashes s = rev (dropWhile (\<lambda>c. c = CHR ''/'') (rev s))"

definition joinBackend :: "(string \<Rightarrow> (string \<times> string) option) \<Rightarrow> string \<Rightarrow> string \<Rightarrow> string \<Rightarrow> string option" where
  "joinBackend parse_url backendUrl path query = (case parse_url backendUrl of
       None \<Rightarrow> None  \<comment> \<open>\<^verbatim>\<open>new URL\<close> throws\<close>
     | Some (origin, pathname) \<Rightarrow>
         let basePath = drop_trailing_slashes pathname;
             suffix = (if starts_with ''/'' path then path else CHR ''/'' # path)
         in Some (origin @ basePath @ suffix @ query))"

section \<open>Lemmas\<close>

lemma strip_trailing_simps:
  "strip_trailing_slashes [] = []"
  "strip_trailing_slashes [c] = [c]"
  by (simp_all add: strip_trailing_slashes.simps)

lemma strip_trailing_done:
  "length (strip_trailing_slashes v) \<le> 1 \<or> last (strip_trailing_slashes v) \<noteq> CHR ''/''"
proof (induction v rule: strip_trailing_slashes.induct)
  case (1 v)
  then show ?case
    by (cases "1 < length v \<and> last v = CHR ''/''") (auto simp: strip_trailing_slashes.simps [of v])
qed

lemma strip_trailing_fixed:
  "length v \<le> 1 \<or> last v \<noteq> CHR ''/'' \<Longrightarrow> strip_trailing_slashes v = v"
  by (subst strip_trailing_slashes.simps) auto

lemma strip_trailing_idem [simp]:
  "strip_trailing_slashes (strip_trailing_slashes v) = strip_trailing_slashes v"
  by (rule strip_trailing_fixed) (rule strip_trailing_done)

lemma strip_trailing_prefix: "\<exists>t. v = strip_trailing_slashes v @ t"
proof (induction v rule: strip_trailing_slashes.induct)
  case (1 v)
  show ?case
  proof (cases "1 < length v \<and> last v = CHR ''/''")
    case True
    with 1 obtain t where t: "butlast v = strip_trailing_slashes (butlast v) @ t" by blast
    have "v = butlast v @ [last v]" using True by (cases v) auto
    also have "\<dots> = strip_trailing_slashes (butlast v) @ t @ [last v]" by (subst t) simp
    finally show ?thesis using True by (simp add: strip_trailing_slashes.simps [of v]) blast
  next
    case False
    then show ?thesis by (subst strip_trailing_slashes.simps) auto
  qed
qed

lemma strip_trailing_nonempty: "v \<noteq> [] \<Longrightarrow> strip_trailing_slashes v \<noteq> []"
proof (induction v rule: strip_trailing_slashes.induct)
  case (1 v)
  show ?case
  proof (cases "1 < length v \<and> last v = CHR ''/''")
    case True
    then have "butlast v \<noteq> []" by (cases v) auto
    with 1 True show ?thesis by (simp add: strip_trailing_slashes.simps [of v])
  qed (use 1 in \<open>auto simp: strip_trailing_slashes.simps [of v]\<close>)
qed

lemma contains_str_append: "contains_str needle s \<Longrightarrow> contains_str needle (s @ t)"
proof (induction s)
  case Nil
  then show ?case by (cases t) (auto simp: starts_with_def)
next
  case (Cons c s)
  then show ?case by (auto simp: starts_with_iff) (metis append_Cons append_assoc)
qed

lemma strip_starts_with_slash:
  assumes "starts_with ''/'' v"
  shows "starts_with ''/'' (strip_trailing_slashes v)"
proof -
  obtain t where t: "v = strip_trailing_slashes v @ t" using strip_trailing_prefix by blast
  have "strip_trailing_slashes v \<noteq> []"
    using assms by (intro strip_trailing_nonempty) (auto simp: starts_with_def)
  with t assms show ?thesis
    by (cases "strip_trailing_slashes v") (auto simp: starts_with_iff)
qed

lemma js_trim_no_space: "\<not> list_ex js_space v \<Longrightarrow> js_trim v = v"
proof -
  assume "\<not> list_ex js_space v"
  then have none: "\<forall>c\<in>set v. \<not> js_space c" by (auto simp: list_ex_iff)
  have keep: "dropWhile js_space u = u" if "\<forall>c\<in>set u. \<not> js_space c" for u
    using that by (cases u) auto
  show ?thesis using none by (simp add: js_trim_def keep)
qed

text \<open>Segments: the base path's segments are a prefix of the path's.\<close>

definition segments :: "string \<Rightarrow> string list" where
  "segments p = js_split CHR ''/'' p"

lemma js_split_app: "js_split c (p @ c # s) = js_split c p @ js_split c s"
proof (induction p)
  case (Cons x p)
  then show ?case by (cases "js_split c p") (auto split: list.splits)
qed simp

lemma js_split_take_eq:
  assumes "take (length (js_split c b)) (js_split c p) = js_split c b"
  shows "p = b \<or> (\<exists>t. p = b @ c # t)"
proof -
  let ?n = "length (js_split c b)"
  have p: "js_join [c] (js_split c b @ drop ?n (js_split c p)) = p"
    using assms by (metis append_take_drop_id js_join_split)
  have app: "ys \<noteq> [] \<Longrightarrow> xs \<noteq> [] \<Longrightarrow> js_join [c] (xs @ ys) = js_join [c] xs @ c # js_join [c] ys" for xs ys
  proof (induction "[c]" xs rule: js_join.induct)
    case (2 x) then show ?case by (cases ys) auto
  qed auto
  show ?thesis
  proof (cases "drop ?n (js_split c p) = []")
    case True
    with p show ?thesis by (simp add: js_join_split)
  next
    case False
    have "js_split c b \<noteq> []" by simp
    with p False have "p = b @ c # js_join [c] (drop ?n (js_split c p))"
      by (metis app js_join_split)
    then show ?thesis by blast
  qed
qed

section \<open>Properties\<close>

definition base_path_ok :: "string \<Rightarrow> bool" where
  "base_path_ok b \<longleftrightarrow>
     starts_with ''/'' b \<and> (b = ''/'' \<or> last b \<noteq> CHR ''/'') \<and>
     CHR ''?'' \<notin> set b \<and> CHR ''#'' \<notin> set b \<and> \<not> list_ex js_space b \<and>
     \<not> contains_str ''//'' b \<and> length b \<le> MAX_BASE_PATH_LENGTH \<and> b \<notin> set RESERVED_BASE_PATHS"

lemma base_path_ok_fixed:
  assumes "base_path_ok b"
  shows "normalizeBasePath (Some b) = \<lparr>nbp_basePath = b, nbp_errors = []\<rparr>"
proof -
  have ne: "b \<noteq> []" using assms by (auto simp: base_path_ok_def starts_with_def)
  have trim: "js_trim b = b" using assms by (simp add: base_path_ok_def js_trim_no_space)
  have strip: "strip_trailing_slashes b = b"
    using assms by (intro strip_trailing_fixed) (auto simp: base_path_ok_def)
  show ?thesis
    using assms ne by (simp add: normalizeBasePath_def trim strip base_path_ok_def Let_def)
qed

lemma normalized_ok:
  assumes "nbp_errors (normalizeBasePath (Some text)) = []"
  shows "base_path_ok (nbp_basePath (normalizeBasePath (Some text)))"
proof -
  let ?v = "js_trim text"
  let ?s = "strip_trailing_slashes ?v"
  have no_err: "text \<noteq> []" "starts_with ''/'' ?v" "CHR ''?'' \<notin> set ?v" "CHR ''#'' \<notin> set ?v"
      "\<not> list_ex js_space ?v" "\<not> contains_str ''//'' ?v" "length ?v \<le> MAX_BASE_PATH_LENGTH"
      "?s \<notin> set RESERVED_BASE_PATHS"
    using assms by (auto simp: normalizeBasePath_def Let_def split: if_splits)
  obtain t where t: "?v = ?s @ t" using strip_trailing_prefix by blast
  have sub: "set ?s \<subseteq> set ?v" by (subst (2) t) simp
  have len: "length ?s \<le> length ?v" by (subst (2) t) simp
  have slash: "starts_with ''/'' ?s" using no_err(2) by (rule strip_starts_with_slash)
  have root: "?s = ''/'' \<or> last ?s \<noteq> CHR ''/''"
  proof (cases "length ?s \<le> 1")
    case True
    with slash show ?thesis by (cases ?s) (auto simp: starts_with_def)
  next
    case False
    with strip_trailing_done [of ?v] show ?thesis by simp
  qed
  have "\<not> contains_str ''//'' ?s"
    using no_err(6) t contains_str_append by metis
  then have "base_path_ok ?s"
    using no_err sub len slash root by (auto simp: base_path_ok_def list_ex_iff)
  moreover have "nbp_basePath (normalizeBasePath (Some text)) = ?s"
    using no_err(1) by (simp add: normalizeBasePath_def Let_def)
  ultimately show ?thesis by simp
qed

text \<open>A base path that \<^verbatim>\<open>normalizeBasePath\<close> accepts starts with a slash, ends with one only when it
  is the root, holds no query, fragment, whitespace or double slash, fits the length ceiling and is
  not reserved; and normalizing what was stored returns it unchanged and without errors.\<close>

lemma normalizeBasePath_accepted:
  assumes "nbp_errors (normalizeBasePath (Some text)) = []"
  shows "base_path_ok (nbp_basePath (normalizeBasePath (Some text))) \<and>
    normalizeBasePath (Some (nbp_basePath (normalizeBasePath (Some text)))) =
      normalizeBasePath (Some text)"
proof -
  have ok: "base_path_ok (nbp_basePath (normalizeBasePath (Some text)))"
    using assms by (rule normalized_ok)
  from ok assms show ?thesis
    using base_path_ok_fixed [OF ok] by (cases "normalizeBasePath (Some text)") auto
qed

lemma normalizeBasePath_accepted_example:
  "nbp_basePath (normalizeBasePath (Some '' /pets/'')) = ''/pets'' \<and> base_path_ok ''/pets''"
proof -
  have e: "nbp_errors (normalizeBasePath (Some '' /pets/'')) = []"
    and b: "nbp_basePath (normalizeBasePath (Some '' /pets/'')) = ''/pets''"
    by (simp_all add: normalizeBasePath_def js_trim_def js_space_def starts_with_def Let_def
        strip_trailing_slashes.simps MAX_BASE_PATH_LENGTH_def RESERVED_BASE_PATHS_def)
  show ?thesis using normalizeBasePath_accepted [OF e] b by simp
qed

text \<open>A non-root base path matches exactly the paths whose segment list starts with the base
  path's segments, so \<^verbatim>\<open>/petstoreXYZ\<close> is not under \<^verbatim>\<open>/petstore\<close>.\<close>

lemma pathMatchesBase_segments:
  assumes "basePath \<noteq> ''/''"
  shows "pathMatchesBase path basePath \<longleftrightarrow>
    take (length (segments basePath)) (segments path) = segments basePath"
proof
  assume "pathMatchesBase path basePath"
  then consider "path = basePath" | t where "path = basePath @ CHR ''/'' # t"
    using assms by (auto simp: pathMatchesBase_def starts_with_iff)
  then show "take (length (segments basePath)) (segments path) = segments basePath"
    by cases (simp_all add: segments_def js_split_app)
next
  assume "take (length (segments basePath)) (segments path) = segments basePath"
  then have "path = basePath \<or> (\<exists>t. path = basePath @ CHR ''/'' # t)"
    unfolding segments_def by (rule js_split_take_eq)
  with assms show "pathMatchesBase path basePath"
    by (auto simp: pathMatchesBase_def starts_with_iff)
qed

lemma pathMatchesBase_segments_example:
  "pathMatchesBase ''/petstore/pet'' ''/petstore'' \<and> \<not> pathMatchesBase ''/petstoreXYZ'' ''/petstore''"
  using pathMatchesBase_segments [of "''/petstore''" "''/petstore/pet''"]
    pathMatchesBase_segments [of "''/petstore''" "''/petstoreXYZ''"]
  by (simp add: segments_def)

text \<open>Stripping a matched base path from a request path loses nothing: what remains starts with a
  slash, and putting the base path back in front gives the request path (with a trailing slash
  where the request was the bare base path).\<close>

lemma stripBasePath_restores:
  assumes "base_path_ok basePath" and "pathMatchesBase path basePath" and "starts_with ''/'' path"
  shows "starts_with ''/'' (stripBasePath path basePath) \<and>
    (if basePath = ''/'' then stripBasePath path basePath = path
     else basePath @ stripBasePath path basePath = (if path = basePath then path @ ''/'' else path))"
  using assms by (auto simp: pathMatchesBase_def stripBasePath_def starts_with_iff split: if_splits)

lemma stripBasePath_restores_example:
  "stripBasePath ''/pets/7'' ''/pets'' = ''/7'' \<and> ''/pets'' @ stripBasePath ''/pets/7'' ''/pets'' = ''/pets/7''"
proof -
  have b: "base_path_ok ''/pets''"
    by (simp add: base_path_ok_def starts_with_def js_space_def MAX_BASE_PATH_LENGTH_def RESERVED_BASE_PATHS_def)
  have m: "pathMatchesBase ''/pets/7'' ''/pets''" and s: "starts_with ''/'' ''/pets/7''"
    by (simp_all add: pathMatchesBase_def starts_with_def)
  show ?thesis using stripBasePath_restores [OF b m s] by simp
qed

end
