(* ===== verification/JsUri.thy ===== *)
theory JsUri
  imports Prelude
begin

text \<open>
  \<^verbatim>\<open>encodeURIComponent\<close> and \<^verbatim>\<open>decodeURIComponent\<close> of the language, on UTF-8 byte strings: encoding
  escapes every byte outside the unreserved set, decoding reads the escapes back and refuses
  (\<^verbatim>\<open>URIError\<close>, here \<^verbatim>\<open>None\<close>) a truncated escape or bytes that are not well-formed UTF-8.
\<close>

definition hex_char :: "nat \<Rightarrow> char" where
  "hex_char d = (if d < 10 then char_of (48 + d) else char_of (55 + d))"

definition hex_value :: "char \<Rightarrow> nat option" where
  "hex_value c =
     (if char_in CHR ''0'' CHR ''9'' c then Some (of_char c - 48)
      else if char_in CHR ''A'' CHR ''F'' c then Some (of_char c - 55)
      else if char_in CHR ''a'' CHR ''f'' c then Some (of_char c - 87)
      else None)"

definition unreserved :: "char \<Rightarrow> bool" where
  "unreserved c \<longleftrightarrow> char_in CHR ''A'' CHR ''Z'' c \<or> char_in CHR ''a'' CHR ''z'' c \<or>
     char_in CHR ''0'' CHR ''9'' c \<or> c \<in> set ''-_.!~*()'' \<or> (of_char c :: nat) = 39"

definition encode_char :: "char \<Rightarrow> string" where
  "encode_char c = (if unreserved c then [c]
     else [CHR ''%'', hex_char (of_char c div 16), hex_char (of_char c mod 16)])"

definition encodeURIComponent :: "string \<Rightarrow> string" where
  "encodeURIComponent s = concat (map encode_char s)"

fun hex_byte :: "char \<Rightarrow> char \<Rightarrow> nat option" where
  "hex_byte h l = (case (hex_value h, hex_value l) of
      (Some a, Some b) \<Rightarrow> Some (16 * a + b) | _ \<Rightarrow> None)"

fun take_escapes :: "nat \<Rightarrow> string \<Rightarrow> (nat list \<times> string) option" where
  "take_escapes 0 s = Some ([], s)"
| "take_escapes (Suc n) (p # h # l # s) =
     (if p = CHR ''%'' then
        (case hex_byte h l of None \<Rightarrow> None
         | Some b \<Rightarrow> map_option (\<lambda>(bs, r). (b # bs, r)) (take_escapes n s))
      else None)"
| "take_escapes (Suc n) _ = None"

definition utf8_length :: "nat \<Rightarrow> nat" where
  "utf8_length b = (if 194 \<le> b \<and> b \<le> 223 then 2 else if 224 \<le> b \<and> b \<le> 239 then 3
     else if 240 \<le> b \<and> b \<le> 244 then 4 else 0)"

fun utf8_tail_ok :: "nat \<Rightarrow> nat list \<Rightarrow> bool" where
  "utf8_tail_ok b [] = False"
| "utf8_tail_ok b (c # cs) =
     ((if b = 224 then 160 \<le> c else if b = 240 then 144 \<le> c else 128 \<le> c) \<and>
      (if b = 237 then c \<le> 159 else if b = 244 then c \<le> 143 else c \<le> 191) \<and>
      list_all (\<lambda>x. 128 \<le> x \<and> x \<le> 191) cs)"

lemma take_escapes_shorter: "take_escapes n s = Some (bs, r) \<Longrightarrow> length r \<le> length s"
proof (induction n s arbitrary: bs r rule: take_escapes.induct)
  case (2 n p h l s)
  then obtain b as where "hex_byte h l = Some b" "p = CHR ''%''" "take_escapes n s = Some (as, r)"
    by (auto split: option.splits if_splits simp del: hex_byte.simps)
  with 2 show ?case by fastforce
qed auto

function decodeURIComponent :: "string \<Rightarrow> string option" where
  "decodeURIComponent [] = Some []"
| "decodeURIComponent (c # s) =
     (if c \<noteq> CHR ''%'' then map_option ((#) c) (decodeURIComponent s)
      else (case s of
          h # l # r \<Rightarrow>
            (case hex_byte h l of
               None \<Rightarrow> None
             | Some b \<Rightarrow>
                 if b < 128 then map_option ((#) (char_of b)) (decodeURIComponent r)
                 else if utf8_length b = 0 then None
                 else (case take_escapes (utf8_length b - 1) r of
                     None \<Rightarrow> None
                   | Some (bs, r') \<Rightarrow>
                       if utf8_tail_ok b bs
                       then map_option ((@) (map char_of (b # bs))) (decodeURIComponent r')
                       else None))
        | _ \<Rightarrow> None))"
  by pat_completeness auto
termination
  by (relation "measure length") (auto dest!: take_escapes_shorter)

lemma of_char_lt256: "(of_char c :: nat) < 256"
  by (metis of_char_mod_256 mod_less_divisor zero_less_numeral)

lemma hex_value_hex_char: "d < 16 \<Longrightarrow> hex_value (hex_char d) = Some d"
  by (auto simp: hex_value_def hex_char_def char_in_def of_char_of)

lemma hex_char_not_slash: "d < 16 \<Longrightarrow> hex_char d \<noteq> CHR ''/''"
  using hex_value_hex_char [of d] by (auto simp: hex_value_def char_in_def)

lemma encode_char_no_slash: "CHR ''/'' \<notin> set (encode_char c)"
proof (cases "unreserved c")
  case True
  then have "c \<noteq> CHR ''/''" by (auto simp: unreserved_def char_in_def)
  with True show ?thesis by (simp add: encode_char_def)
next
  case False
  have "(of_char c :: nat) div 16 < 16" using of_char_lt256 [of c] by linarith
  then have "hex_char (of_char c div 16) \<noteq> CHR ''/''" "hex_char (of_char c mod 16) \<noteq> CHR ''/''"
    by (rule hex_char_not_slash, simp add: hex_char_not_slash)
  with False show ?thesis by (simp add: encode_char_def)
qed

lemma encode_no_slash: "CHR ''/'' \<notin> set (encodeURIComponent s)"
  by (auto simp: encodeURIComponent_def encode_char_no_slash)

lemma decode_plain: "c \<noteq> CHR ''%'' \<Longrightarrow> decodeURIComponent (c # s) = map_option ((#) c) (decodeURIComponent s)"
  by simp

lemma decode_escape:
  assumes "(of_char c :: nat) < 128"
  shows "decodeURIComponent (CHR ''%'' # hex_char (of_char c div 16) # hex_char (of_char c mod 16) # s) =
    map_option ((#) c) (decodeURIComponent s)"
proof -
  have "(of_char c :: nat) div 16 < 16" using assms by linarith
  then have "hex_byte (hex_char (of_char c div 16)) (hex_char (of_char c mod 16)) = Some (of_char c)"
    by (simp add: hex_value_hex_char)
  with assms show ?thesis by (simp del: hex_byte.simps)
qed

lemma decode_encode_ascii:
  "list_all (\<lambda>c. (of_char c :: nat) < 128) s \<Longrightarrow> decodeURIComponent (encodeURIComponent s) = Some s"
proof (induction s)
  case (Cons c s)
  have pct: "unreserved c \<Longrightarrow> c \<noteq> CHR ''%''" by (auto simp: unreserved_def char_in_def)
  have "encodeURIComponent (c # s) = encode_char c @ encodeURIComponent s"
    by (simp add: encodeURIComponent_def)
  with Cons pct show ?case
    by (cases "unreserved c") (simp_all add: encode_char_def decode_escape del: decodeURIComponent.simps(2) add: decode_plain)
qed (simp add: encodeURIComponent_def)

end
