(* ===== verification/OpMatch.thy ===== *)
theory OpMatch
  imports Routing JsUri
begin

text \<open>
  \<^verbatim>\<open>shared/opmatch.ts\<close>: which declared operation a REST request is. \<^verbatim>\<open>compileOperations\<close> splits the
  declared templates once and buckets them by segment count, \<^verbatim>\<open>matchCompiled\<close> scans one bucket with
  the best score so far, and \<^verbatim>\<open>renderPathTemplate\<close> renders a rewrite from the matched parameters.
  The interface \<^verbatim>\<open>T extends OperationRef\<close> is the extensible record \<^verbatim>\<open>OperationRef\<close>.

  The lemmas show that the bucketed, early-exit scan returns the first most specific operation of
  the declaration list, and that a parameter cannot add path structure.
\<close>

section \<open>Definitions\<close>

record OperationRef =
  op_id :: string
  op_method :: string
  op_template :: string

definition segmentsOf :: "string \<Rightarrow> string list" where
  "segmentsOf path = filter (\<lambda>s. 0 < length s) (js_split CHR ''/'' path)"

definition isParam :: "string \<Rightarrow> bool" where
  "isParam segment \<longleftrightarrow> 2 < length segment \<and> hd segment = CHR ''{'' \<and> last segment = CHR ''}''"

record 'op CompiledOperation =
  co_operation :: 'op
  co_method :: string
  co_segments :: "string list"
  co_params :: "string option list"
  co_score :: int

type_synonym 'op CompiledOperations = "(nat, 'op CompiledOperation list) jsmap"

definition param_name :: "string \<Rightarrow> string option" where
  "param_name segment = (if isParam segment then Some (butlast (tl segment)) else None)"

definition compile_one :: "'a OperationRef_scheme \<Rightarrow> 'a OperationRef_scheme CompiledOperation" where
  "compile_one operation =
     (let segs = segmentsOf (op_template operation);
          params = map param_name segs;
          literals = length (filter (\<lambda>p. p = None) params)
      in \<lparr>co_operation = operation, co_method = toUpperCase (op_method operation),
          co_segments = segs, co_params = params, co_score = int literals * 2 + 1\<rparr>)"

definition compile_step ::
  "'a OperationRef_scheme CompiledOperations \<Rightarrow> 'a OperationRef_scheme \<Rightarrow> 'a OperationRef_scheme CompiledOperations" where
  "compile_step byArity operation =
     (let compiled = compile_one operation; n = length (co_segments compiled)
      in case map_of byArity n of
           Some bucket \<Rightarrow> mset_key n (bucket @ [compiled]) byArity
         | None \<Rightarrow> mset_key n [compiled] byArity)"

definition compileOperations :: "'a OperationRef_scheme list \<Rightarrow> 'a OperationRef_scheme CompiledOperations" where
  "compileOperations operations = foldl compile_step [] operations"

definition method_allows :: "string \<Rightarrow> string \<Rightarrow> bool" where
  "method_allows wanted m \<longleftrightarrow> m = wanted \<or> (wanted = ''HEAD'' \<and> m = ''GET'')"

definition segments_agree :: "string option list \<Rightarrow> string list \<Rightarrow> string list \<Rightarrow> bool" where
  "segments_agree params segs parts \<longleftrightarrow>
     list_all (\<lambda>(p, s, x). p \<noteq> None \<or> s = x) (zip params (zip segs parts))"

definition match_score :: "string \<Rightarrow> 'op CompiledOperation \<Rightarrow> int" where
  "match_score wanted c = (if co_method c = wanted then co_score c else co_score c - 1)"

definition match_step :: "string \<Rightarrow> string list \<Rightarrow>
    'op CompiledOperation option \<times> int \<Rightarrow> 'op CompiledOperation \<Rightarrow> 'op CompiledOperation option \<times> int" where
  "match_step wanted parts acc candidate = (case acc of (best, bestScore) \<Rightarrow>
     if \<not> method_allows wanted (co_method candidate) then (best, bestScore)
     else if match_score wanted candidate \<le> bestScore then (best, bestScore)
     else if \<not> segments_agree (co_params candidate) (co_segments candidate) parts then (best, bestScore)
     else (Some candidate, match_score wanted candidate))"

definition safeDecode :: "string \<Rightarrow> string" where
  "safeDecode value = (case decodeURIComponent value of Some v \<Rightarrow> v | None \<Rightarrow> value)"

definition read_params :: "string option list \<Rightarrow> string list \<Rightarrow> (string, string) jsmap" where
  "read_params params parts =
     foldl (\<lambda>obj (name, part). case name of None \<Rightarrow> obj | Some n \<Rightarrow> js_obj_set n (safeDecode part) obj)
       [] (zip params parts)"

definition matchCompiled :: "'op CompiledOperations \<Rightarrow> string \<Rightarrow> string
    \<Rightarrow> ('op \<times> (string, string) jsmap) option" where
  "matchCompiled byArity m relativePath =
     (let wanted = toUpperCase m; parts = segmentsOf relativePath
      in case map_of byArity (length parts) of
           None \<Rightarrow> None
         | Some candidates \<Rightarrow>
             (case fst (foldl (match_step wanted parts) (None, -1) candidates) of
                None \<Rightarrow> None
              | Some best \<Rightarrow> Some (co_operation best, read_params (co_params best) parts)))"

definition matchOperation :: "'a OperationRef_scheme list \<Rightarrow> string \<Rightarrow> string
    \<Rightarrow> ('a OperationRef_scheme \<times> (string, string) jsmap) option" where
  "matchOperation operations m relativePath = matchCompiled (compileOperations operations) m relativePath"

text \<open>The character class of \<^verbatim>\<open>/\{([A-Za-z0-9_.-]+)\}/g\<close>.\<close>

definition name_char :: "char \<Rightarrow> bool" where
  "name_char c \<longleftrightarrow> char_in CHR ''A'' CHR ''Z'' c \<or> char_in CHR ''a'' CHR ''z'' c \<or>
     char_in CHR ''0'' CHR ''9'' c \<or> c \<in> set ''_.-''"

function renderPathTemplate :: "string \<Rightarrow> (string, string) jsmap \<Rightarrow> string" where
  "renderPathTemplate [] params = []"
| "renderPathTemplate (c # s) params =
     (let name = takeWhile name_char s; rest = dropWhile name_char s
      in if c = CHR ''{'' \<and> name \<noteq> [] \<and> rest \<noteq> [] \<and> hd rest = CHR ''}''
         then encodeURIComponent (case map_of params name of Some v \<Rightarrow> v | None \<Rightarrow> [])
              @ renderPathTemplate (tl rest) params
         else c # renderPathTemplate s params)"
  by pat_completeness auto
termination
  by (relation "measure (\<lambda>(t, _). length t)")
     (auto simp: Let_def less_Suc_eq_le intro: le_trans [OF diff_le_self length_dropWhile_le])

section \<open>The bucketed scan against the declaration list\<close>

definition applies :: "string \<Rightarrow> string \<Rightarrow> 'a OperationRef_scheme \<Rightarrow> bool" where
  "applies m path op \<longleftrightarrow>
     length (segmentsOf (op_template op)) = length (segmentsOf path) \<and>
     method_allows (toUpperCase m) (toUpperCase (op_method op)) \<and>
     (\<forall>i < length (segmentsOf path).
        isParam (segmentsOf (op_template op) ! i) \<or> segmentsOf (op_template op) ! i = segmentsOf path ! i)"

definition specificity :: "string \<Rightarrow> 'a OperationRef_scheme \<Rightarrow> nat" where
  "specificity m op =
     2 * length (filter (\<lambda>s. \<not> isParam s) (segmentsOf (op_template op))) +
     (if toUpperCase (op_method op) = toUpperCase m then 1 else 0)"

lemma compile_one_simps [simp]:
  "co_operation (compile_one op) = op"
  "co_method (compile_one op) = toUpperCase (op_method op)"
  "co_segments (compile_one op) = segmentsOf (op_template op)"
  "co_params (compile_one op) = map param_name (segmentsOf (op_template op))"
  by (simp_all add: compile_one_def Let_def)

lemma match_score_compile_one: "match_score (toUpperCase m) (compile_one op) = int (specificity m op)"
  by (simp add: match_score_def compile_one_def Let_def specificity_def filter_map comp_def param_name_def)

lemma byArity_lookup:
  "map_of (compileOperations ops) n =
     (case filter (\<lambda>op. length (segmentsOf (op_template op)) = n) ops of
        [] \<Rightarrow> None | l \<Rightarrow> Some (map compile_one l))"
proof (induction ops rule: rev_induct)
  case Nil
  then show ?case by (simp add: compileOperations_def)
next
  case (snoc op ops)
  let ?n = "length (segmentsOf (op_template op))"
  have step: "compileOperations (ops @ [op]) = compile_step (compileOperations ops) op"
    by (simp add: compileOperations_def)
  have "map_of (compile_step b op) n =
      (if n = ?n then Some ((case map_of b n of None \<Rightarrow> [] | Some l \<Rightarrow> l) @ [compile_one op]) else map_of b n)" for b
    by (auto simp: compile_step_def Let_def jsmap split: option.splits)
  with snoc step show ?case by (auto split: list.splits option.splits)
qed

text \<open>A scan that keeps the best score so far returns the first element of greatest score.\<close>

lemma scan_first_best:
  assumes "\<And>x. 0 \<le> f x"
  shows "case foldl (\<lambda>(b, s) x. if ok x \<and> s < f x then (Some x, f x) else (b, s)) (None, - 1 :: int) xs of
      (None, s) \<Rightarrow> s = - 1 \<and> (\<forall>x\<in>set xs. \<not> ok x)
    | (Some x, s) \<Rightarrow> s = f x \<and> (\<exists>us vs. xs = us @ x # vs \<and> ok x \<and>
         (\<forall>y\<in>set us. ok y \<longrightarrow> f y < f x) \<and> (\<forall>y\<in>set vs. ok y \<longrightarrow> f y \<le> f x))"
proof (induction xs rule: rev_induct)
  case Nil
  then show ?case by simp
next
  case (snoc z xs)
  let ?F = "foldl (\<lambda>(b, s) x. if ok x \<and> s < f x then (Some x, f x) else (b, s)) (None, - 1 :: int) xs"
  obtain b s where F: "?F = (b, s)" by fastforce
  show ?case
  proof (cases b)
    case None
    with snoc F have "s = - 1" and none: "\<forall>x\<in>set xs. \<not> ok x" by auto
    moreover have "- 1 < f z" using assms [of z] by linarith
    moreover have "xs @ [z] = xs @ z # []" by simp
    ultimately show ?thesis using F None by (cases "ok z") fastforce+
  next
    case (Some x)
    with snoc F obtain us vs where s: "s = f x" and xs: "xs = us @ x # vs" and ok: "ok x"
      and us: "\<forall>y\<in>set us. ok y \<longrightarrow> f y < f x" and vs: "\<forall>y\<in>set vs. ok y \<longrightarrow> f y \<le> f x" by auto
    show ?thesis
    proof (cases "ok z \<and> f x < f z")
      case True
      then have "\<forall>y\<in>set xs. ok y \<longrightarrow> f y < f z" using xs us vs by fastforce
      moreover have "xs @ [z] = xs @ z # []" by simp
      ultimately show ?thesis using True F Some s by fastforce
    next
      case False
      then have "\<forall>y\<in>set (vs @ [z]). ok y \<longrightarrow> f y \<le> f x" using vs by auto
      moreover have "xs @ [z] = us @ x # (vs @ [z])" using xs by simp
      ultimately have "\<exists>us vs. xs @ [z] = us @ x # vs \<and> ok x \<and> (\<forall>y\<in>set us. ok y \<longrightarrow> f y < f x)
          \<and> (\<forall>y\<in>set vs. ok y \<longrightarrow> f y \<le> f x)" using ok us by blast
      then show ?thesis using False F Some s by auto
    qed
  qed
qed

lemma match_step_scan:
  "match_step wanted parts = (\<lambda>(b, s) c.
     if (method_allows wanted (co_method c) \<and> segments_agree (co_params c) (co_segments c) parts)
        \<and> s < match_score wanted c
     then (Some c, match_score wanted c) else (b, s))"
  by (auto simp: match_step_def fun_eq_iff)

lemma segments_agree_compile_one:
  assumes "length (segmentsOf (op_template op)) = length parts"
  shows "segments_agree (co_params (compile_one op)) (co_segments (compile_one op)) parts \<longleftrightarrow>
    (\<forall>i < length parts. isParam (segmentsOf (op_template op) ! i) \<or> segmentsOf (op_template op) ! i = parts ! i)"
  using assms by (auto simp: segments_agree_def list_all_length param_name_def split: if_splits)

lemma applies_compile_one:
  "length (segmentsOf (op_template op)) = length (segmentsOf path) \<Longrightarrow>
   (method_allows (toUpperCase m) (co_method (compile_one op)) \<and>
    segments_agree (co_params (compile_one op)) (co_segments (compile_one op)) (segmentsOf path))
   \<longleftrightarrow> applies m path op"
  unfolding applies_def by (subst segments_agree_compile_one) auto

text \<open>Whether and where the first most specific operation stands in a list.\<close>

definition first_best :: "string \<Rightarrow> string \<Rightarrow> 'a OperationRef_scheme list \<Rightarrow> 'a OperationRef_scheme \<Rightarrow> bool" where
  "first_best m path ops op \<longleftrightarrow>
     (\<exists>us vs. ops = us @ op # vs \<and> applies m path op \<and>
        (\<forall>o'\<in>set us. applies m path o' \<longrightarrow> specificity m o' < specificity m op) \<and>
        (\<forall>o'\<in>set vs. applies m path o' \<longrightarrow> specificity m o' \<le> specificity m op))"

lemma first_best_filter:
  assumes "first_best m path (filter P ops) op" and "\<And>o'. applies m path o' \<Longrightarrow> P o'"
  shows "first_best m path ops op"
proof -
  from assms(1) obtain us vs where f: "filter P ops = us @ op # vs" and a: "applies m path op"
    and us: "\<forall>o'\<in>set us. applies m path o' \<longrightarrow> specificity m o' < specificity m op"
    and vs: "\<forall>o'\<in>set vs. applies m path o' \<longrightarrow> specificity m o' \<le> specificity m op"
    unfolding first_best_def by blast
  from f obtain as bs where "ops = as @ bs" and as: "filter P as = us" and bs: "filter P bs = op # vs"
    using filter_append_split by blast
  from bs obtain cs ds where "bs = cs @ op # ds" and cs: "\<forall>c\<in>set cs. \<not> P c" and ds: "filter P ds = vs"
    by (auto simp: filter_eq_Cons_iff)
  have "ops = (as @ cs) @ op # ds" using \<open>ops = as @ bs\<close> \<open>bs = cs @ op # ds\<close> by simp
  moreover have "\<forall>o'\<in>set (as @ cs). applies m path o' \<longrightarrow> specificity m o' < specificity m op"
    using us as cs assms(2) by auto
  moreover have "\<forall>o'\<in>set ds. applies m path o' \<longrightarrow> specificity m o' \<le> specificity m op"
    using vs ds assms(2) by auto
  ultimately show ?thesis using a unfolding first_best_def by blast
qed

lemma scan_operations:
  fixes l :: "'a OperationRef_scheme list"
  assumes "\<forall>op\<in>set l. length (segmentsOf (op_template op)) = length (segmentsOf path)"
  shows "case fst (foldl (match_step (toUpperCase m) (segmentsOf path)) (None, - 1) (map compile_one l)) of
      None \<Rightarrow> \<forall>op\<in>set l. \<not> applies m path op
    | Some c \<Rightarrow> c = compile_one (co_operation c) \<and> first_best m path l (co_operation c)"
proof -
  let ?ok = "\<lambda>op. method_allows (toUpperCase m) (co_method (compile_one op)) \<and>
      segments_agree (co_params (compile_one op)) (co_segments (compile_one op)) (segmentsOf path)"
  let ?f = "\<lambda>op. int (specificity m op)"
  let ?scan = "foldl (\<lambda>(b, s) op. if ?ok op \<and> s < ?f op then (Some op, ?f op) else (b, s)) (None, - 1) l"
  have gen: "foldl (match_step (toUpperCase m) (segmentsOf path)) (map_option compile_one b, s) (map compile_one l)
      = (case foldl (\<lambda>(b, s) op. if ?ok op \<and> s < ?f op then (Some op, ?f op) else (b, s)) (b, s) l of
           (b', s') \<Rightarrow> (map_option compile_one b', s'))" for b s
    by (rule foldl_simulate [where h = "\<lambda>(b, s). (map_option compile_one b, s)" and a = "(b, s)", simplified prod.case])
       (auto simp: match_step_scan match_score_compile_one)
  obtain b s where scan: "?scan = (b, s)" by fastforce
  have fst: "fst (foldl (match_step (toUpperCase m) (segmentsOf path)) (None, - 1) (map compile_one l)) = map_option compile_one b"
    using gen [of None "- 1"] scan by simp
  have best: "case ?scan of (None, s) \<Rightarrow> s = - 1 \<and> (\<forall>x\<in>set l. \<not> ?ok x)
    | (Some x, s) \<Rightarrow> s = ?f x \<and> (\<exists>us vs. l = us @ x # vs \<and> ?ok x \<and>
         (\<forall>y\<in>set us. ?ok y \<longrightarrow> ?f y < ?f x) \<and> (\<forall>y\<in>set vs. ?ok y \<longrightarrow> ?f y \<le> ?f x))"
    by (rule scan_first_best) simp
  have ok: "?ok op \<longleftrightarrow> applies m path op" if "op \<in> set l" for op
    using assms that by (intro applies_compile_one) auto
  show ?thesis
  proof (cases b)
    case None
    with best scan fst ok show ?thesis by auto
  next
    case (Some x)
    with best scan obtain us vs where l: "l = us @ x # vs" and "?ok x"
      and "\<forall>y\<in>set us. ?ok y \<longrightarrow> ?f y < ?f x" and "\<forall>y\<in>set vs. ?ok y \<longrightarrow> ?f y \<le> ?f x" by auto
    then have "first_best m path l x" using ok unfolding first_best_def
      by (intro exI [of _ us] exI [of _ vs]) auto
    with Some fst show ?thesis by simp
  qed
qed

lemma matchOperation_best:
  "case matchOperation ops m path of
     None \<Rightarrow> \<forall>op\<in>set ops. \<not> applies m path op
   | Some (op, params) \<Rightarrow> first_best m path ops op \<and>
       params = read_params (map param_name (segmentsOf (op_template op))) (segmentsOf path)"
proof -
  let ?P = "\<lambda>op. length (segmentsOf (op_template op)) = length (segmentsOf path)"
  let ?l = "filter ?P ops"
  have P: "\<And>op. applies m path op \<Longrightarrow> ?P op" by (simp add: applies_def)
  show ?thesis
  proof (cases "?l = []")
    case True
    then have "matchOperation ops m path = None"
      by (simp add: matchOperation_def matchCompiled_def byArity_lookup Let_def)
    moreover have "\<forall>op\<in>set ops. \<not> applies m path op" using True P by (auto simp: filter_empty_conv)
    ultimately show ?thesis by simp
  next
    case False
    let ?c = "fst (foldl (match_step (toUpperCase m) (segmentsOf path)) (None, - 1) (map compile_one ?l))"
    have res: "matchOperation ops m path = (case ?c of None \<Rightarrow> None
        | Some best \<Rightarrow> Some (co_operation best, read_params (co_params best) (segmentsOf path)))"
      using False by (simp add: matchOperation_def matchCompiled_def byArity_lookup Let_def split: list.splits)
    have scan: "case ?c of None \<Rightarrow> \<forall>op\<in>set ?l. \<not> applies m path op
      | Some c \<Rightarrow> c = compile_one (co_operation c) \<and> first_best m path ?l (co_operation c)"
      by (rule scan_operations) simp
    show ?thesis
    proof (cases ?c)
      case None
      with scan res P show ?thesis by fastforce
    next
      case (Some c)
      with scan have c: "c = compile_one (co_operation c)" and "first_best m path ?l (co_operation c)" by auto
      then have "first_best m path ops (co_operation c)" using P by (blast intro: first_best_filter)
      moreover have "co_params c = map param_name (segmentsOf (op_template (co_operation c)))"
        by (subst c) simp
      ultimately show ?thesis using res Some by simp
    qed
  qed
qed

section \<open>Properties\<close>

text \<open>Matching a request against a declared operation list through the compiled, bucketed index
  returns the first most specific operation of the declaration list, literal segments outranking
  parameters and an exact method outranking the HEAD-to-GET fallback, with that operation's own
  parameters; and it returns nothing only when no declared operation applies.\<close>

lemma matchOperation_first_best:
  "case matchOperation ops m path of
     None \<Rightarrow> \<forall>op\<in>set ops. \<not> applies m path op
   | Some (op, params) \<Rightarrow> first_best m path ops op \<and>
       params = read_params (map param_name (segmentsOf (op_template op))) (segmentsOf path)"
  by (rule matchOperation_best)

definition sample_ops :: "OperationRef list" where
  "sample_ops = [\<lparr>op_id = ''byId'', op_method = ''get'', op_template = ''/pet/{id}''\<rparr>,
                 \<lparr>op_id = ''find'', op_method = ''GET'', op_template = ''/pet/find''\<rparr>]"

lemma matchOperation_first_best_example:
  "first_best ''GET'' ''/pet/find'' sample_ops (sample_ops ! 1)"
proof -
  have "matchOperation sample_ops ''GET'' ''/pet/find'' = Some (sample_ops ! 1, [])"
    by code_simp
  with matchOperation_first_best [of sample_ops "''GET''" "''/pet/find''"] show ?thesis by simp
qed

text \<open>The number of path segments of a rendered rewrite depends only on the template: a parameter's
  value, percent-encoded, holds no slash, so it cannot introduce path structure.\<close>

lemma renderPathTemplate_slashes:
  "length (filter (\<lambda>c. c = CHR ''/'') (renderPathTemplate template params)) =
   length (filter (\<lambda>c. c = CHR ''/'') (renderPathTemplate template []))"
proof (induction template params rule: renderPathTemplate.induct)
  case (2 c s params)
  have none: "filter (\<lambda>c. c = CHR ''/'') (encodeURIComponent v) = []" for v
    using encode_no_slash [of v] by (auto simp: filter_empty_conv)
  from 2 show ?case by (auto simp: Let_def none split: option.splits)
qed simp

end
