(* ===== verification/RateLimit.thy ===== *)
theory RateLimit
  imports Prelude
begin

text \<open>
  \<^verbatim>\<open>data-plane/src/ratelimit.ts\<close>: the per-instance fixed-window rate limiter. The limiter is its
  \<^verbatim>\<open>windows\<close> map; \<^verbatim>\<open>check\<close> counts a request and answers, \<^verbatim>\<open>sweep\<close> drops windows closed for longer than
  the grace. Instants are integer milliseconds, a period is a positive number of seconds (the policy
  vocabulary admits no other), and the clock argument is explicit.

  The lemmas relate the counter to the trace of calls: on a clock that does not go backwards, the
  stored count is the number of checks made of that key in the current window, whatever sweeps ran
  in between.
\<close>

section \<open>Definitions\<close>

record RateVerdict =
  rv_allowed :: bool
  rv_limit :: nat
  rv_remaining :: nat
  rv_reset :: int
  rv_retryAfter :: int

record Window =
  win_start :: int
  win_count :: nat
  win_periodMs :: int

type_synonym RateLimiter = "(string, Window) jsmap"

definition rl_check :: "RateLimiter \<Rightarrow> string \<Rightarrow> nat \<Rightarrow> int \<Rightarrow> int \<Rightarrow> RateVerdict \<times> RateLimiter" where
  "rl_check windows key calls periodSec nowMs =
     (let periodMs = periodSec * 1000;
          start = nowMs div periodMs * periodMs;
          fresh = \<lparr>win_start = start, win_count = 0, win_periodMs = periodMs\<rparr>;
          window = (case map_of windows key of
              Some existing \<Rightarrow> if win_start existing = start then existing else fresh
            | None \<Rightarrow> fresh);
          window = window\<lparr>win_count := win_count window + 1\<rparr>;
          windows = mset_key key window windows;
          end_ms = start + periodMs
      in (\<lparr>rv_allowed = win_count window \<le> calls, rv_limit = calls,
           rv_remaining = calls - win_count window,
           rv_reset = end_ms div 1000,
           rv_retryAfter = max 1 (ceil_div (end_ms - nowMs) 1000)\<rparr>, windows))"

definition rl_sweep :: "RateLimiter \<Rightarrow> int \<Rightarrow> int \<Rightarrow> RateLimiter" where
  "rl_sweep windows nowMs maxAgeMs =
     filter (\<lambda>(key, window). \<not> (maxAgeMs < nowMs - (win_start window + win_periodMs window))) windows"

definition rl_size :: "RateLimiter \<Rightarrow> nat" where
  "rl_size windows = length windows"

text \<open>What an instance does to its limiter, in the order it does it.\<close>

datatype rl_event =
    RlCheck (rl_key: string) (rl_calls: nat) (rl_period: int) (rl_time: int)
  | RlSweep (rl_time: int) (rl_grace: int)

fun rl_step :: "RateLimiter \<Rightarrow> rl_event \<Rightarrow> RateLimiter" where
  "rl_step ws (RlCheck k c p t) = snd (rl_check ws k c p t)"
| "rl_step ws (RlSweep t g) = rl_sweep ws t g"

definition rl_run :: "rl_event list \<Rightarrow> RateLimiter" where
  "rl_run es = foldl rl_step [] es"

section \<open>The count is the number of checks in the window\<close>

lemma rl_check_state:
  "snd (rl_check ws k c p t) =
     mset_key k \<lparr>win_start = floor_to (p * 1000) t,
       win_count = Suc (case map_of ws k of None \<Rightarrow> 0
         | Some w \<Rightarrow> if win_start w = floor_to (p * 1000) t then win_count w else 0),
       win_periodMs = (case map_of ws k of
           Some w \<Rightarrow> if win_start w = floor_to (p * 1000) t then win_periodMs w else p * 1000
         | None \<Rightarrow> p * 1000)\<rparr> ws"
  by (auto simp: rl_check_def Let_def floor_to_def split: option.splits intro!: arg_cong [where f = "\<lambda>w. mset_key k w ws"])

lemma rl_check_allowed:
  "rv_allowed (fst (rl_check ws k c p t)) \<longleftrightarrow>
     (case map_of ws k of None \<Rightarrow> 0
      | Some w \<Rightarrow> if win_start w = floor_to (p * 1000) t then win_count w else 0) < c"
  by (auto simp: rl_check_def Let_def floor_to_def split: option.splits)

definition rl_distinct :: "RateLimiter \<Rightarrow> bool" where
  "rl_distinct ws \<longleftrightarrow> distinct (mkeys ws)"

lemma rl_step_distinct [inv_pres]: "rl_distinct ws \<Longrightarrow> rl_distinct (rl_step ws e)"
  by (cases e)
     (auto simp: rl_distinct_def rl_check_state distinct_set rl_sweep_def distinct_map_filter case_prod_beta'
       intro: distinct_set)

interpretation rate_limiter: machine rl_step rl_distinct
  by unfold_locales (rule rl_step_distinct)

lemma rl_run_distinct: "rl_distinct (rl_run es)"
  unfolding rl_run_def by (rule rate_limiter.run_good) (simp add: rl_distinct_def)

fun hits :: "string \<Rightarrow> int \<Rightarrow> int \<Rightarrow> rl_event list \<Rightarrow> nat" where
  "hits k p w [] = 0"
| "hits k p w (RlCheck k' c' p' t # es) =
     (if k' = k \<and> floor_to (p * 1000) t = w then 1 else 0) + hits k p w es"
| "hits k p w (RlSweep t g # es) = hits k p w es"

lemma hits_append: "hits k p w (xs @ ys) = hits k p w xs + hits k p w ys"
  by (induction k p w xs rule: hits.induct) auto

definition uniform :: "string \<Rightarrow> int \<Rightarrow> rl_event list \<Rightarrow> bool" where
  "uniform k p es \<longleftrightarrow>
     (\<forall>e\<in>set es. case e of RlCheck k' c' p' t \<Rightarrow> k' = k \<longrightarrow> p' = p | RlSweep t g \<Rightarrow> 0 \<le> g)"

definition window_count :: "RateLimiter \<Rightarrow> string \<Rightarrow> int \<Rightarrow> nat" where
  "window_count ws k w = (case map_of ws k of None \<Rightarrow> 0
     | Some win \<Rightarrow> if win_start win = w then win_count win else 0)"

text \<open>
  What a limiter that served the trace \<^verbatim>\<open>es\<close> knows of key \<^verbatim>\<open>k\<close>, read at any instant not before the
  trace's end.
\<close>

definition rl_tracks :: "string \<Rightarrow> int \<Rightarrow> rl_event list \<Rightarrow> RateLimiter \<Rightarrow> int \<Rightarrow> bool" where
  "rl_tracks k p es ws t \<longleftrightarrow>
     window_count ws k (floor_to (p * 1000) t) = hits k p (floor_to (p * 1000) t) es \<and>
     (\<forall>win. map_of ws k = Some win \<longrightarrow>
        win_periodMs win = p * 1000 \<and> win_start win \<le> floor_to (p * 1000) t)"

lemma rl_tracks_check:
  assumes p: "0 < p" and IH: "rl_tracks k p es ws t0" "rl_tracks k p es ws t" and t: "t0 \<le> t"
    and u: "k' = k \<longrightarrow> p' = p"
  shows "rl_tracks k p (es @ [RlCheck k' c p' t0]) (rl_step ws (RlCheck k' c p' t0)) t"
proof (cases "k' = k")
  case False
  with IH(2) show ?thesis
    by (simp add: rl_tracks_def window_count_def hits_append rl_check_state jsmap)
next
  case True
  let ?W = "floor_to (p * 1000)"
  have mono: "?W t0 \<le> ?W t" using p t by (intro floor_to_mono) auto
  have old: "hits k p (?W t) es = 0" if "?W t0 \<noteq> ?W t"
    using IH that mono by (auto simp: rl_tracks_def window_count_def split: option.splits if_splits)
  show ?thesis
    using True u IH(1) mono old
    by (auto simp: rl_tracks_def window_count_def hits_append rl_check_state jsmap split: option.splits if_splits)
qed

lemma rl_tracks_sweep:
  assumes p: "0 < p" and IH: "rl_tracks k p es ws t" and t: "t0 \<le> t" and g: "0 \<le> g" and d: "rl_distinct ws"
  shows "rl_tracks k p (es @ [RlSweep t0 g]) (rl_step ws (RlSweep t0 g)) t"
proof -
  have look: "map_of (rl_sweep ws t0 g) k = (case map_of ws k of None \<Rightarrow> None
      | Some w \<Rightarrow> if \<not> (g < t0 - (win_start w + win_periodMs w)) then Some w else None)"
    using d unfolding rl_sweep_def rl_distinct_def by (subst get_filter_distinct) auto
  have "t < floor_to (p * 1000) t + p * 1000" using p by (intro floor_to_gt) auto
  with look IH t g show ?thesis
    by (auto simp: rl_tracks_def window_count_def hits_append split: option.splits if_splits)
qed

lemma rl_run_tracks:
  assumes p: "0 < p"
  shows "sorted (map rl_time es) \<Longrightarrow> uniform k p es \<Longrightarrow> (\<forall>e\<in>set es. rl_time e \<le> t) \<Longrightarrow>
    rl_tracks k p es (rl_run es) t"
proof (induction es arbitrary: t rule: rev_induct)
  case Nil
  then show ?case by (simp add: rl_run_def rl_tracks_def window_count_def)
next
  case (snoc e es)
  have before: "\<forall>e'\<in>set es. rl_time e' \<le> rl_time e" and s: "sorted (map rl_time es)"
    using snoc.prems(1) by (auto simp: sorted_append)
  have u: "uniform k p es" using snoc.prems(2) by (simp add: uniform_def)
  have IH: "rl_tracks k p es (rl_run es) t'" if "rl_time e \<le> t'" for t'
  proof (rule snoc.IH [OF s u])
    show "\<forall>e\<in>set es. rl_time e \<le> t'" using before that by fastforce
  qed
  have le: "rl_time e \<le> t" using snoc.prems(3) by simp
  have run: "rl_run (es @ [e]) = rl_step (rl_run es) e" by (simp add: rl_run_def)
  show ?case
  proof (cases e)
    case (RlCheck k' c p' t0)
    then show ?thesis
      using rl_tracks_check [OF p, of k es "rl_run es" t0 t k' p' c] IH le snoc.prems(2) run
      by (auto simp: uniform_def)
  next
    case (RlSweep t0 g)
    then show ?thesis
      using rl_tracks_sweep [OF p, of k es "rl_run es" t t0 g] IH le snoc.prems(2) run rl_run_distinct [of es]
      by (auto simp: uniform_def)
  qed
qed

section \<open>Properties\<close>

text \<open>C25: the rate limiter admits exactly the first \<^verbatim>\<open>calls\<close> requests of a key in each window. After any
  trace of checks and sweeps on a clock that does not go backwards, in which the key is always
  checked with the same period and sweeps use a non-negative grace, a check is allowed if and only
  if fewer than \<^verbatim>\<open>calls\<close> checks of that key happened before it in the same window.\<close>

theorem rl_check_exact:
  assumes "0 < p" and "sorted (map rl_time (es @ [RlCheck k c p t]))" and "uniform k p es"
  shows "rv_allowed (fst (rl_check (rl_run es) k c p t)) \<longleftrightarrow> hits k p (floor_to (p * 1000) t) es < c"
proof -
  have "rl_tracks k p es (rl_run es) t"
    using assms by (intro rl_run_tracks) (auto simp: sorted_append)
  then show ?thesis by (simp add: rl_check_allowed rl_tracks_def window_count_def)
qed

theorem rl_check_exact_witness:
  "\<not> rv_allowed (fst (rl_check (rl_run [RlCheck ''s'' 2 60 5, RlSweep 100000 0, RlCheck ''s'' 2 60 100000,
      RlCheck ''s'' 2 60 119999]) ''s'' 2 60 119999))"
proof -
  let ?es = "[RlCheck ''s'' 2 60 5, RlSweep 100000 0, RlCheck ''s'' 2 60 100000, RlCheck ''s'' 2 60 119999]"
  have "rv_allowed (fst (rl_check (rl_run ?es) ''s'' 2 60 119999)) \<longleftrightarrow>
      hits ''s'' 60 (floor_to (60 * 1000) 119999) ?es < 2"
    by (rule rl_check_exact) (simp_all add: uniform_def)
  then show ?thesis by (simp add: floor_to_def)
qed

text \<open>A rejection's \<^verbatim>\<open>Retry-After\<close> is right: a caller that waits that many seconds finds a later window,
  and one second less (where that is a wait at all) would still have been inside this one.\<close>

lemma rl_retryAfter_exact:
  assumes "0 < p" and v_def: "v = fst (rl_check ws k c p t)"
  shows "floor_to (p * 1000) t < floor_to (p * 1000) (t + rv_retryAfter v * 1000) \<and>
    floor_to (p * 1000) (t + (rv_retryAfter v - 1) * 1000) = floor_to (p * 1000) t"
proof -
  let ?W = "floor_to (p * 1000)"
  have P: "0 < p * 1000" using assms(1) by simp
  let ?left = "?W t + p * 1000 - t"
  have left: "0 < ?left" using floor_to_gt [OF P, of t] by simp
  have ra: "rv_retryAfter v = ceil_div ?left 1000"
    using ceil_div_pos [of 1000 ?left] left by (simp add: v_def rl_check_def Let_def floor_to_def)
  have ge: "?W t + p * 1000 \<le> t + rv_retryAfter v * 1000"
    using ceil_div_ge [of 1000 ?left] ra by simp
  have lt: "t + (rv_retryAfter v - 1) * 1000 < ?W t + p * 1000"
    using ceil_div_less [of 1000 ?left] ra by (simp add: algebra_simps)
  have pos: "0 < rv_retryAfter v" using ceil_div_pos [of 1000 ?left] left ra by simp
  have "?W (t + (rv_retryAfter v - 1) * 1000) = ?W t"
    using lt pos floor_to_le [OF P, of t] by (intro floor_to_unique [OF P]) auto
  moreover have "?W t + p * 1000 \<le> ?W (t + rv_retryAfter v * 1000)"
  proof -
    have "?W (?W t + p * 1000) \<le> ?W (t + rv_retryAfter v * 1000)" by (rule floor_to_mono [OF P ge])
    moreover have "?W (?W t + p * 1000) = ?W t + p * 1000"
      using P by (simp add: floor_to_def algebra_simps)
    ultimately show ?thesis by simp
  qed
  ultimately show ?thesis using P by linarith
qed

lemma rl_retryAfter_exact_example:
  "rv_retryAfter (fst (rl_check [] ''s'' 1 60 500)) = 60 \<and> floor_to 60000 (500 :: int) < floor_to 60000 (500 + 60 * 1000)"
  using rl_retryAfter_exact [of 60 _ "[]" "''s''" 1 500, OF _ refl] by (simp add: rl_check_def Let_def ceil_div_def)

end
