(* ===== verification/Concurrency.thy ===== *)
theory Concurrency
  imports Prelude
begin

text \<open>
  \<^verbatim>\<open>data-plane/src/concurrency.ts\<close>: the bulkhead. \<^verbatim>\<open>ConcurrencyGate\<close> keeps one counter per route and one
  for the instance; \<^verbatim>\<open>tryAcquire\<close> takes a slot or says which ceiling refused it, \<^verbatim>\<open>release\<close> gives one
  back, \<^verbatim>\<open>resize\<close> changes the instance ceiling, \<^verbatim>\<open>snapshot\<close> lists the busiest routes.

  The invariant is that the instance counter is the sum of the route counters and no stored route
  counter is zero. The interface \<^verbatim>\<open>slot_pool\<close> is what the request path relies on (slots taken and
  given back against a ceiling); it is interpreted on the gate below and on other bounded resources
  of the data plane in their own theories.
\<close>

section \<open>A bounded pool of slots\<close>

locale slot_pool =
  fixes in_use :: "'s \<Rightarrow> nat"
    and ceiling_of :: "'s \<Rightarrow> nat"
    and take_slot :: "'s \<Rightarrow> 's option"
    and give_slot :: "'s \<Rightarrow> 's"
    and pool_ok :: "'s \<Rightarrow> bool"
  assumes take_some: "pool_ok s \<Longrightarrow> take_slot s = Some t \<Longrightarrow>
      in_use s < ceiling_of s \<and> in_use t = Suc (in_use s) \<and> ceiling_of t = ceiling_of s \<and> pool_ok t"
    and give: "pool_ok s \<Longrightarrow>
      in_use (give_slot s) \<le> in_use s \<and> ceiling_of (give_slot s) = ceiling_of s \<and> pool_ok (give_slot s)"
begin

fun pool_run :: "'s \<Rightarrow> bool list \<Rightarrow> 's" where
  "pool_run s [] = s"
| "pool_run s (True # es) = pool_run (case take_slot s of Some t \<Rightarrow> t | None \<Rightarrow> s) es"
| "pool_run s (False # es) = pool_run (give_slot s) es"

lemma pool_run_bounded:
  "pool_ok s \<Longrightarrow> in_use s \<le> ceiling_of s \<Longrightarrow>
   pool_ok (pool_run s es) \<and> in_use (pool_run s es) \<le> ceiling_of (pool_run s es)"
proof (induction s es rule: pool_run.induct)
  case (2 s es)
  then show ?case using take_some by (cases "take_slot s") fastforce+
next
  case (3 s es)
  then show ?case using give [of s] by fastforce
qed simp

end

section \<open>Definitions\<close>

datatype Admission = AdmOk | RouteSaturated | InstanceSaturated

record ConcurrencyGate =
  perRoute :: "(string, nat) jsmap"
  gate_total :: nat
  shedRoute :: nat
  shedInstance :: nat
  maxTotal :: nat

definition new_gate :: "nat \<Rightarrow> ConcurrencyGate" where
  "new_gate m = \<lparr>perRoute = [], gate_total = 0, shedRoute = 0, shedInstance = 0, maxTotal = m\<rparr>"

definition gate_resize :: "ConcurrencyGate \<Rightarrow> nat \<Rightarrow> ConcurrencyGate" where
  "gate_resize g m = g\<lparr>maxTotal := m\<rparr>"

definition route_in_flight :: "ConcurrencyGate \<Rightarrow> string \<Rightarrow> nat" where
  "route_in_flight g r = (case map_of (perRoute g) r of Some n \<Rightarrow> n | None \<Rightarrow> 0)"

definition tryAcquire :: "ConcurrencyGate \<Rightarrow> string \<Rightarrow> nat option \<Rightarrow> Admission \<times> ConcurrencyGate" where
  "tryAcquire g resourceId routeMax =
     (let current = route_in_flight g resourceId
      in if (case routeMax of Some m \<Rightarrow> m \<le> current | None \<Rightarrow> False)
         then (RouteSaturated, g\<lparr>shedRoute := shedRoute g + 1\<rparr>)
         else if maxTotal g \<le> gate_total g
         then (InstanceSaturated, g\<lparr>shedInstance := shedInstance g + 1\<rparr>)
         else (AdmOk, g\<lparr>perRoute := mset_key resourceId (current + 1) (perRoute g),
                        gate_total := gate_total g + 1\<rparr>))"

definition gate_release :: "ConcurrencyGate \<Rightarrow> string \<Rightarrow> ConcurrencyGate" where
  "gate_release g resourceId = (case map_of (perRoute g) resourceId of
       None \<Rightarrow> g
     | Some current \<Rightarrow>
         g\<lparr>perRoute := (if current \<le> 1 then mdelete resourceId (perRoute g)
                        else mset_key resourceId (current - 1) (perRoute g)),
           gate_total := gate_total g - 1\<rparr>)"

definition gate_inFlight :: "ConcurrencyGate \<Rightarrow> nat" where
  "gate_inFlight g = gate_total g"

record GateSnapshot =
  gs_inFlight :: nat
  gs_max :: nat
  gs_routes :: "(string \<times> nat) list"
  gs_shedRoute :: nat
  gs_shedInstance :: nat

definition gate_snapshot :: "ConcurrencyGate \<Rightarrow> GateSnapshot" where
  "gate_snapshot g =
     \<lparr>gs_inFlight = gate_total g, gs_max = maxTotal g,
      gs_routes = take 10 (sort_key (\<lambda>(r, n). - int n) (perRoute g)),
      gs_shedRoute = shedRoute g, gs_shedInstance = shedInstance g\<rparr>"

section \<open>The invariant\<close>

definition gate_ok :: "ConcurrencyGate \<Rightarrow> bool" where
  "gate_ok g \<longleftrightarrow> distinct (mkeys (perRoute g)) \<and> (\<forall>r n. map_of (perRoute g) r = Some n \<longrightarrow> 0 < n) \<and>
     gate_total g = msum (\<lambda>n. n) (perRoute g)"

lemma gate_ok_new [simp]: "gate_ok (new_gate m)"
  by (simp add: gate_ok_def new_gate_def)

lemma tryAcquire_ok [inv_pres]:
  assumes "gate_ok g"
  shows "gate_ok (snd (tryAcquire g r m))"
proof -
  let ?c = "route_in_flight g r"
  have "msum (\<lambda>n. n) (mset_key r (?c + 1) (perRoute g)) = msum (\<lambda>n. n) (perRoute g) + 1"
    using assms msum_set [of "perRoute g" "\<lambda>n. n" r "?c + 1"]
    by (auto simp: gate_ok_def route_in_flight_def split: option.splits)
  with assms show ?thesis by (auto simp: gate_ok_def tryAcquire_def Let_def distinct_set jsmap)
qed

lemma gate_release_ok [inv_pres]:
  assumes "gate_ok g"
  shows "gate_ok (gate_release g r)"
proof (cases "map_of (perRoute g) r")
  case (Some n)
  have d: "distinct (mkeys (perRoute g))" and pos: "0 < n" using assms Some by (auto simp: gate_ok_def)
  show ?thesis
  proof (cases "n \<le> 1")
    case True
    then have "n = 1" using pos by simp
    with Some assms d msum_delete [of "perRoute g" "\<lambda>n. n" r] show ?thesis
      by (auto simp: gate_ok_def gate_release_def distinct_delete jsmap)
  next
    case False
    with Some assms d msum_set [of "perRoute g" "\<lambda>n. n" r "n - 1"]
    show ?thesis by (auto simp: gate_ok_def gate_release_def distinct_set jsmap)
  qed
qed (use assms in \<open>simp add: gate_release_def\<close>)

lemma gate_resize_ok [inv_pres]: "gate_ok g \<Longrightarrow> gate_ok (gate_resize g m)"
  by (simp add: gate_ok_def gate_resize_def)

datatype gate_event = GAcquire string "nat option" | GRelease string | GResize nat

fun gate_step :: "ConcurrencyGate \<Rightarrow> gate_event \<Rightarrow> ConcurrencyGate" where
  "gate_step g (GAcquire r m) = snd (tryAcquire g r m)"
| "gate_step g (GRelease r) = gate_release g r"
| "gate_step g (GResize m) = gate_resize g m"

lemma gate_step_ok: "gate_ok g \<Longrightarrow> gate_ok (gate_step g e)"
  by (cases e) (auto intro: inv_pres)

interpretation gate: machine gate_step gate_ok
  by unfold_locales (rule gate_step_ok)

lemma release_total: "gate_ok g \<Longrightarrow> gate_total (gate_release g r) \<le> gate_total g"
  by (simp add: gate_release_def split: option.splits)

text \<open>The gate, seen through one route without a ceiling of its own, is a pool of instance slots.\<close>

definition gate_take :: "string \<Rightarrow> ConcurrencyGate \<Rightarrow> ConcurrencyGate option" where
  "gate_take r g = (case tryAcquire g r None of (AdmOk, g') \<Rightarrow> Some g' | _ \<Rightarrow> None)"

interpretation gate_slots: slot_pool gate_total maxTotal "gate_take r" "\<lambda>g. gate_release g r" gate_ok for r
proof unfold_locales
  fix s t assume "gate_ok s" "gate_take r s = Some t"
  then show "gate_total s < maxTotal s \<and> gate_total t = Suc (gate_total s) \<and> maxTotal t = maxTotal s \<and> gate_ok t"
    using tryAcquire_ok [of s r None] by (auto simp: gate_take_def tryAcquire_def Let_def split: if_splits)
next
  fix s assume "gate_ok s"
  then show "gate_total (gate_release s r) \<le> gate_total s \<and> maxTotal (gate_release s r) = maxTotal s \<and>
      gate_ok (gate_release s r)"
    using gate_release_ok [of s r] by (auto simp: gate_release_def split: option.splits)
qed

section \<open>Runs\<close>

lemma route_in_flight_step:
  assumes "gate_ok g"
  shows "route_in_flight (gate_step g e) r = (case e of
      GAcquire r' m \<Rightarrow> if r' = r \<and> fst (tryAcquire g r' m) = AdmOk then Suc (route_in_flight g r) else route_in_flight g r
    | GRelease r' \<Rightarrow> if r' = r then route_in_flight g r - 1 else route_in_flight g r
    | GResize m \<Rightarrow> route_in_flight g r)"
proof (cases e)
  case (GRelease r')
  have "0 < n" if "map_of (perRoute g) r' = Some n" for n
    using assms that by (auto simp: gate_ok_def)
  then show ?thesis using GRelease
    by (auto simp: gate_release_def route_in_flight_def jsmap split: option.splits)
qed (auto simp: tryAcquire_def Let_def route_in_flight_def gate_resize_def jsmap split: option.splits)

lemma tryAcquire_ok_below:
  "fst (tryAcquire g r (Some m)) = AdmOk \<Longrightarrow> route_in_flight g r < m"
  by (auto simp: tryAcquire_def Let_def split: if_splits)

lemma route_bounded_run:
  assumes "gate_ok g" and "route_in_flight g r \<le> m" and "\<forall>e\<in>set es. \<forall>m'. e = GAcquire r m' \<longrightarrow> m' = Some m"
  shows "gate_ok (foldl gate_step g es) \<and> route_in_flight (foldl gate_step g es) r \<le> m"
  using assms
proof (induction es arbitrary: g)
  case (Cons e es)
  have "route_in_flight (gate_step g e) r \<le> m"
    using Cons.prems tryAcquire_ok_below [of g r m]
    by (auto simp: route_in_flight_step [OF Cons.prems(1)] split: gate_event.splits)
  then show ?case using Cons gate_step_ok by simp
qed simp

text \<open>Slots granted and given back along a run.\<close>

fun granted :: "ConcurrencyGate \<Rightarrow> gate_event list \<Rightarrow> nat" where
  "granted g [] = 0"
| "granted g (e # es) =
     (case e of GAcquire r m \<Rightarrow> (if fst (tryAcquire g r m) = AdmOk then 1 else 0) | _ \<Rightarrow> 0) + granted (gate_step g e) es"

fun given_back :: "ConcurrencyGate \<Rightarrow> gate_event list \<Rightarrow> nat" where
  "given_back g [] = 0"
| "given_back g (e # es) =
     (case e of GRelease r \<Rightarrow> (if route_in_flight g r = 0 then 0 else 1) | _ \<Rightarrow> 0) + given_back (gate_step g e) es"

lemma total_pos_if_route: "gate_ok g \<Longrightarrow> map_of (perRoute g) r = Some n \<Longrightarrow> 0 < n \<and> n \<le> gate_total g"
  using msum_member [of "perRoute g" r n "\<lambda>n. n"] by (auto simp: gate_ok_def)

lemma gate_total_step:
  assumes "gate_ok g"
  shows "gate_total (gate_step g e) + (case e of GRelease r \<Rightarrow> (if route_in_flight g r = 0 then 0 else 1) | _ \<Rightarrow> 0) =
    gate_total g + (case e of GAcquire r m \<Rightarrow> (if fst (tryAcquire g r m) = AdmOk then 1 else 0) | _ \<Rightarrow> 0)"
proof (cases e)
  case (GRelease r)
  then show ?thesis using total_pos_if_route [OF assms, of r]
    by (auto simp: gate_release_def route_in_flight_def split: option.splits)
qed (auto simp: tryAcquire_def Let_def gate_resize_def)

lemma gate_conservation:
  "gate_ok g \<Longrightarrow> gate_total (foldl gate_step g es) + given_back g es = gate_total g + granted g es"
proof (induction es arbitrary: g)
  case (Cons e es)
  from gate_total_step [OF Cons.prems, of e] Cons.IH [OF gate_step_ok [OF Cons.prems, of e]]
  show ?case unfolding foldl_Cons granted.simps given_back.simps by linarith
qed simp

section \<open>Properties\<close>

text \<open>The bulkhead loses and invents no slot. After any sequence of admissions, releases (matched or
  not) and resizes, the instance gauge equals the sum of the route gauges and equals the slots
  granted less the slots given back.\<close>

lemma gate_accounts:
  "gate_inFlight (foldl gate_step (new_gate m) es) = msum (\<lambda>n. n) (perRoute (foldl gate_step (new_gate m) es)) \<and>
   gate_inFlight (foldl gate_step (new_gate m) es) + given_back (new_gate m) es = granted (new_gate m) es"
proof -
  have "gate_ok (foldl gate_step (new_gate m) es)" by (rule gate.run_good) simp
  then have "gate_total (foldl gate_step (new_gate m) es) = msum (\<lambda>n. n) (perRoute (foldl gate_step (new_gate m) es))"
    by (simp add: gate_ok_def)
  moreover have "gate_total (foldl gate_step (new_gate m) es) + given_back (new_gate m) es =
      gate_total (new_gate m) + granted (new_gate m) es"
    by (rule gate_conservation) simp
  moreover have "gate_total (new_gate m) = 0" by (simp add: new_gate_def)
  ultimately show ?thesis by (simp add: gate_inFlight_def)
qed

text \<open>A route whose policy sets the ceiling \<^verbatim>\<open>m\<close> never has more than \<^verbatim>\<open>m\<close> requests in flight, whatever
  the other routes do and however the instance ceiling is resized.\<close>

lemma gate_route_ceiling:
  assumes "\<forall>e\<in>set es. \<forall>m'. e = GAcquire r m' \<longrightarrow> m' = Some m"
  shows "route_in_flight (foldl gate_step (new_gate n) es) r \<le> m"
proof -
  have "route_in_flight (new_gate n) r \<le> m" by (simp add: new_gate_def route_in_flight_def)
  with assms route_bounded_run [of "new_gate n" r m es] show ?thesis by simp
qed

lemma gate_route_ceiling_example:
  "route_in_flight (foldl gate_step (new_gate 9) [GAcquire ''a'' (Some 1), GAcquire ''a'' (Some 1), GAcquire ''b'' None]) ''a'' \<le> 1"
  by (rule gate_route_ceiling) simp

text \<open>A refusal names the ceiling that caused it. The answer is \<^verbatim>\<open>route-saturated\<close> exactly when the route
  is at its own ceiling, whatever the instance's load; \<^verbatim>\<open>instance-saturated\<close> exactly when the route has
  room and the instance has none; and an admission raises both gauges by one and keeps the instance
  at or under its ceiling.\<close>

lemma tryAcquire_attribution:
  "(fst (tryAcquire g r m) = RouteSaturated \<longleftrightarrow> (\<exists>c. m = Some c \<and> c \<le> route_in_flight g r)) \<and>
   (fst (tryAcquire g r m) = InstanceSaturated \<longleftrightarrow>
      \<not> (\<exists>c. m = Some c \<and> c \<le> route_in_flight g r) \<and> maxTotal g \<le> gate_total g) \<and>
   (case tryAcquire g r m of (a, g') \<Rightarrow>
      if a = AdmOk
      then route_in_flight g' r = Suc (route_in_flight g r) \<and> gate_total g' = Suc (gate_total g) \<and> gate_total g' \<le> maxTotal g'
      else perRoute g' = perRoute g \<and> gate_total g' = gate_total g)"
  by (auto simp: tryAcquire_def Let_def route_in_flight_def jsmap split: option.splits)

lemma snapshot_worst_first:
  assumes "x \<in> set (perRoute g)" and "x \<notin> set (gs_routes (gate_snapshot g))" and "y \<in> set (gs_routes (gate_snapshot g))"
  shows "snd x \<le> snd y"
proof -
  let ?f = "\<lambda>(r :: string, n). - int n"
  let ?s = "sort_key ?f (perRoute g)"
  have "x \<in> set (drop 10 ?s)"
  proof -
    have "x \<in> set (take 10 ?s @ drop 10 ?s)" using assms(1) by simp
    moreover have "x \<notin> set (take 10 ?s)" using assms(2) by (simp add: gate_snapshot_def)
    ultimately show ?thesis unfolding set_append by blast
  qed
  moreover have "y \<in> set (take 10 ?s)" using assms(3) by (simp add: gate_snapshot_def)
  moreover have "sorted (map ?f (take 10 ?s) @ map ?f (drop 10 ?s))"
    by (metis append_take_drop_id map_append sorted_sort_key)
  ultimately have "?f y \<le> ?f x" by (auto simp: sorted_append)
  then show ?thesis by (auto simp: case_prod_beta)
qed

end
