(* ===== verification/IsoTime.thy ===== *)
theory IsoTime
  imports Prelude "HOL-Library.Char_ord" "HOL-Library.List_Lexorder"
begin

text \<open>
  \<^verbatim>\<open>Date.prototype.toISOString\<close> and \<^verbatim>\<open>Date.parse\<close> on the format it prints, which the program stores,
  sends and compares as strings. An instant is an integer number of milliseconds since the epoch. The
  model covers the years 1970 to 9999 (\<^verbatim>\<open>iso_range\<close>), where the format has a four-digit year;
  \<^verbatim>\<open>Date_parse\<close> reads exactly the 24-character format \<^verbatim>\<open>toISOString\<close> prints and answers \<^const>\<open>None\<close>
  (NaN) on any other text.

  The lemmas give the round trip and that the string order of two such timestamps is the order of
  their instants, which is what every \<^verbatim>\<open>ORDER BY updated_at\<close> and every \<^verbatim>\<open>at < cutoff\<close> on stored
  timestamps relies on.
\<close>

declare map_of_eq_Some_iff [simp del] Some_eq_map_of_iff [simp del]

section \<open>Definitions\<close>

fun pad :: "nat \<Rightarrow> nat \<Rightarrow> string" where
  "pad 0 n = []"
| "pad (Suc w) n = pad w (n div 10) @ [digit_char (n mod 10)]"

definition leap :: "nat \<Rightarrow> bool" where
  "leap y \<longleftrightarrow> y mod 4 = 0 \<and> (y mod 100 \<noteq> 0 \<or> y mod 400 = 0)"

definition year_days :: "nat \<Rightarrow> nat" where
  "year_days y = (if leap y then 366 else 365)"

definition month_lengths :: "nat \<Rightarrow> nat list" where
  "month_lengths y = [31, if leap y then 29 else 28, 31, 30, 31, 30, 31, 31, 30, 31, 30, 31]"

text \<open>The year and the day in it, counting years up from \<^verbatim>\<open>y\<close>.\<close>

function split_year :: "nat \<Rightarrow> nat \<Rightarrow> nat \<times> nat" where
  "split_year y d = (if d < year_days y then (y, d) else split_year (Suc y) (d - year_days y))"
  by pat_completeness auto
termination
  by (relation "measure snd") (auto simp: year_days_def split: if_splits)

declare split_year.simps [simp del]

fun split_month :: "nat \<Rightarrow> nat list \<Rightarrow> nat \<Rightarrow> nat \<times> nat" where
  "split_month m [] d = (m, d)"
| "split_month m (l # ls) d = (if d < l then (m, d) else split_month (Suc m) ls (d - l))"

definition civil :: "nat \<Rightarrow> nat \<times> nat \<times> nat" where
  "civil days = (let (y, d) = split_year 1970 days; (m, d) = split_month 1 (month_lengths y) d in (y, m, Suc d))"

definition toISOString :: "int \<Rightarrow> string" where
  "toISOString t =
     (let ms = nat t; (y, m, d) = civil (ms div 86400000); r = ms mod 86400000
      in pad 4 y @ ''-'' @ pad 2 m @ ''-'' @ pad 2 d @ ''T'' @ pad 2 (r div 3600000) @ '':'' @
         pad 2 (r div 60000 mod 60) @ '':'' @ pad 2 (r div 1000 mod 60) @ ''.'' @ pad 3 (r mod 1000) @ ''Z'')"

definition days_before_year :: "nat \<Rightarrow> nat" where
  "days_before_year y = sum_list (map year_days [1970..<y])"

definition civil_days :: "nat \<Rightarrow> nat \<Rightarrow> nat \<Rightarrow> nat" where
  "civil_days y m d = days_before_year y + sum_list (take (m - 1) (month_lengths y)) + (d - 1)"

definition is_digit :: "char \<Rightarrow> bool" where
  "is_digit c = char_in CHR ''0'' CHR ''9'' c"

definition field :: "nat \<Rightarrow> nat \<Rightarrow> string \<Rightarrow> nat" where
  "field i w s = read_nat (take w (drop i s))"

definition iso_shape :: "string \<Rightarrow> bool" where
  "iso_shape s \<longleftrightarrow> length s = 24 \<and>
     list_all2 (\<lambda>c f. if f = CHR ''0'' then is_digit c else c = f) s ''0000-00-00T00:00:00.000Z''"

definition iso_fields_ok :: "string \<Rightarrow> bool" where
  "iso_fields_ok s \<longleftrightarrow> 1970 \<le> field 0 4 s \<and> 1 \<le> field 5 2 s \<and> field 5 2 s \<le> 12 \<and>
     1 \<le> field 8 2 s \<and> field 8 2 s \<le> month_lengths (field 0 4 s) ! (field 5 2 s - 1) \<and>
     field 11 2 s < 24 \<and> field 14 2 s < 60 \<and> field 17 2 s < 60"

definition Date_parse :: "string \<Rightarrow> int option" where
  "Date_parse s =
     (if iso_shape s \<and> iso_fields_ok s then
        Some (int (civil_days (field 0 4 s) (field 5 2 s) (field 8 2 s) * 86400000 + field 11 2 s * 3600000 +
          field 14 2 s * 60000 + field 17 2 s * 1000 + field 20 3 s))
      else None)"

definition iso_range :: "int \<Rightarrow> bool" where
  "iso_range t \<longleftrightarrow> 0 \<le> t \<and> nat t div 86400000 < days_before_year 10000"

section \<open>Digits\<close>

lemma length_pad [simp]: "length (pad w n) = w"
  by (induction w arbitrary: n) auto

lemma read_nat_snoc: "read_nat (s @ [c]) = 10 * read_nat s + char_digit c"
  by (simp add: read_nat_def)

lemma read_pad: "n < 10 ^ w \<Longrightarrow> read_nat (pad w n) = n"
proof (induction w arbitrary: n)
  case 0
  then show ?case by (simp add: read_nat_def)
next
  case (Suc w)
  then have "n div 10 < 10 ^ w" by (simp add: less_mult_imp_div_less mult.commute)
  with Suc.IH show ?case by (simp add: read_nat_snoc char_digit_char)
qed

lemma div_mod_less: "x < y \<Longrightarrow> x div k < y div k \<or> x div k = y div k \<and> x mod k < y mod (k :: nat)"
  by (metis div_le_mono div_mult_mod_eq le_neq_implies_less less_imp_le nat_add_left_cancel_less)

lemma is_digit_char: "d < 10 \<Longrightarrow> is_digit (digit_char d)"
  by (simp add: is_digit_def char_in_def of_digit_char)

lemma pad_digits: "list_all is_digit (pad w n)"
  by (induction w arbitrary: n) (auto simp: is_digit_char)

lemma list_less_append: "length xs = length ys \<Longrightarrow> xs < (ys :: 'a :: order list) \<Longrightarrow> xs @ s < ys @ t"
proof (induction xs ys rule: list_induct2)
  case (Cons x xs y ys)
  then show ?case by auto
qed simp

lemma list_less_same: "(xs @ s < xs @ (t :: 'a :: order list)) = (s < t)"
  by (induction xs) auto

lemma digit_char_less: "a < b \<Longrightarrow> b < 10 \<Longrightarrow> digit_char a < digit_char b"
  by (simp add: less_char_def of_digit_char)

lemma pad_less: "a < b \<Longrightarrow> b < 10 ^ w \<Longrightarrow> pad w a < pad w b"
proof (induction w arbitrary: a b)
  case (Suc w)
  have b: "b div 10 < 10 ^ w" using Suc.prems by (simp add: less_mult_imp_div_less mult.commute)
  show ?case
  proof (cases "a div 10 < b div 10")
    case True
    from list_less_append [OF _ Suc.IH [OF True b]] show ?thesis by simp
  next
    case False
    with div_mod_less [OF Suc.prems(1), of 10] have "a div 10 = b div 10" "a mod 10 < b mod 10" by auto
    then show ?thesis by (simp add: list_less_same digit_char_less)
  qed
qed simp

lemma pad_lex:
  assumes "a < 10 ^ w" "b < 10 ^ w"
  shows "pad w a @ s < pad w b @ t \<longleftrightarrow> a < b \<or> a = b \<and> s < t"
proof (cases a b rule: linorder_cases)
  case less
  with list_less_append [OF _ pad_less [OF less assms(2)]] show ?thesis by simp
next
  case greater
  with list_less_append [OF _ pad_less [OF greater assms(1)], of t s] show ?thesis by (auto dest: less_asym)
qed (simp add: list_less_same)

lemma pad_lex_widths:
  "a < 100 \<Longrightarrow> b < 100 \<Longrightarrow> pad 2 a @ s < pad 2 b @ t \<longleftrightarrow> a < b \<or> a = b \<and> s < t"
  "a < 1000 \<Longrightarrow> b < 1000 \<Longrightarrow> pad 3 a @ s < pad 3 b @ t \<longleftrightarrow> a < b \<or> a = b \<and> s < t"
  "a < 10000 \<Longrightarrow> b < 10000 \<Longrightarrow> pad 4 a @ s < pad 4 b @ t \<longleftrightarrow> a < b \<or> a = b \<and> s < t"
  by (rule pad_lex; simp)+

section \<open>The calendar\<close>

lemma year_days_pos: "0 < year_days y"
  by (simp add: year_days_def)

lemma days_before_Suc: "1970 \<le> y \<Longrightarrow> days_before_year (Suc y) = days_before_year y + year_days y"
  by (simp add: days_before_year_def)

lemma days_before_mono: "1970 \<le> y \<Longrightarrow> y \<le> z \<Longrightarrow> days_before_year y \<le> days_before_year z"
proof (induction z)
  case (Suc z)
  then show ?case by (cases "y = Suc z") (auto simp: days_before_Suc)
qed simp

lemma split_year_spec:
  "1970 \<le> y \<Longrightarrow> split_year y d = (y', d') \<Longrightarrow>
   y \<le> y' \<and> d' < year_days y' \<and> days_before_year y' + d' = days_before_year y + d"
proof (induction y d rule: split_year.induct)
  case (1 y d)
  show ?case
  proof (cases "d < year_days y")
    case True
    with 1 show ?thesis by (subst (asm) (2) split_year.simps) auto
  next
    case False
    from 1(3) False have "split_year (Suc y) (d - year_days y) = (y', d')" by (subst (asm) split_year.simps) auto
    from 1(1) [OF False _ this] 1(2) False show ?thesis by (auto simp: days_before_Suc)
  qed
qed

lemma split_month_spec:
  "split_month m ls d = (m', d') \<Longrightarrow> d < sum_list ls \<Longrightarrow>
   m \<le> m' \<and> m' - m < length ls \<and> d' < ls ! (m' - m) \<and> d = sum_list (take (m' - m) ls) + d'"
proof (induction m ls d rule: split_month.induct)
  case (2 m l ls d)
  show ?case
  proof (cases "d < l")
    case True
    with 2 show ?thesis by auto
  next
    case False
    with 2 have "Suc m \<le> m'" "m' - Suc m < length ls" "d' < ls ! (m' - Suc m)" "d - l = sum_list (take (m' - Suc m) ls) + d'"
      by (auto simp: less_diff_conv2)
    moreover from this(1) have "m' - m = Suc (m' - Suc m)" by simp
    ultimately show ?thesis using False by simp
  qed
qed simp

lemma year_days_months: "sum_list (month_lengths y) = year_days y"
  by (simp add: month_lengths_def year_days_def)

lemma length_month_lengths: "length (month_lengths y) = 12"
  by (simp add: month_lengths_def)

lemma month_length_le: "i < 12 \<Longrightarrow> month_lengths y ! i \<le> 31"
  by (auto simp: month_lengths_def nth_Cons less_Suc_eq numeral_eq_Suc split: nat.splits)

lemma civil_spec:
  assumes "civil days = (y, m, d)"
  shows "1970 \<le> y \<and> 1 \<le> m \<and> m \<le> 12 \<and> 1 \<le> d \<and> d \<le> month_lengths y ! (m - 1) \<and> civil_days y m d = days"
proof -
  obtain y' r where y: "split_year 1970 days = (y', r)" by fastforce
  obtain m' d' where m: "split_month 1 (month_lengths y') r = (m', d')" by fastforce
  from split_year_spec [OF _ y] have Y: "1970 \<le> y'" "r < year_days y'" "days_before_year y' + r = days"
    by (auto simp: days_before_year_def)
  from split_month_spec [OF m] Y have M: "1 \<le> m'" "m' - 1 < 12" "d' < month_lengths y' ! (m' - 1)"
      "r = sum_list (take (m' - 1) (month_lengths y')) + d'"
    by (auto simp: year_days_months length_month_lengths)
  from assms y m have "y = y'" "m = m'" "d = Suc d'" by (auto simp: civil_def)
  with Y M show ?thesis by (auto simp: civil_days_def)
qed

lemma civil_bounds:
  assumes "civil days = (y, m, d)"
  shows "m < 100" "d < 100" "d \<le> 31"
proof -
  from civil_spec [OF assms] have s: "1 \<le> m" "m \<le> 12" "d \<le> month_lengths y ! (m - 1)" by auto
  moreover from s have "month_lengths y ! (m - 1) \<le> 31" by (intro month_length_le) auto
  ultimately show "m < 100" "d < 100" "d \<le> 31" by linarith+
qed

lemma civil_year_bound:
  assumes "civil days = (y, m, d)" "days < days_before_year 10000"
  shows "y < 10000"
proof (rule ccontr)
  assume "\<not> y < 10000"
  then have "days_before_year 10000 \<le> days_before_year y" by (intro days_before_mono) auto
  with civil_spec [OF assms(1)] assms(2) show False by (simp add: civil_days_def)
qed

lemma days_before_ge: "365 * n \<le> days_before_year (1970 + n)"
proof (induction n)
  case (Suc n)
  have "days_before_year (1970 + Suc n) = days_before_year (1970 + n) + year_days (1970 + n)"
    using days_before_Suc [of "1970 + n"] by simp
  moreover have "365 \<le> year_days (1970 + n)" by (simp add: year_days_def)
  ultimately show ?case using Suc by simp
qed simp

text \<open>More than the next two thousand years.\<close>

lemma iso_range_near: "0 \<le> t \<Longrightarrow> t < 100000000000000 \<Longrightarrow> iso_range t"
  using days_before_ge [of 8030] by (auto simp: iso_range_def)

section \<open>Round trip and order\<close>

lemma civil_days_mono:
  assumes "civil a = (y, m, d)" "civil b = (y', m', d')" "a < b"
  shows "y < y' \<or> y = y' \<and> (m < m' \<or> m = m' \<and> d < d')"
proof -
  note A = civil_spec [OF assms(1)] and B = civil_spec [OF assms(2)]
  have upto: "sum_list (take (n - 1) (month_lengths z)) + (e - 1) < sum_list (take n (month_lengths z))"
    if "1 \<le> n" "n \<le> 12" "1 \<le> e" "e \<le> month_lengths z ! (n - 1)" for n z e
  proof -
    have "take n (month_lengths z) = take (n - 1) (month_lengths z) @ [month_lengths z ! (n - 1)]"
      using that take_Suc_conv_app_nth [of "n - 1" "month_lengths z"] by (simp add: length_month_lengths)
    then show ?thesis using that by simp
  qed
  have take_mono: "sum_list (take n xs) \<le> sum_list (take n' xs)" if "n \<le> n'" for n n' and xs :: "nat list"
    using that by (metis le_add1 le_iff_add sum_list_append take_add)
  have y: "y \<le> y'"
  proof (rule ccontr)
    assume "\<not> y \<le> y'"
    then have "days_before_year (Suc y') \<le> days_before_year y" using B by (intro days_before_mono) auto
    moreover have "civil_days y' m' d' < days_before_year (Suc y')"
      using B upto [of m' d' y'] take_mono [of m' 12 "month_lengths y'"] year_days_months [of y']
      by (auto simp: civil_days_def days_before_Suc length_month_lengths)
    moreover have "days_before_year y \<le> civil_days y m d" by (simp add: civil_days_def)
    ultimately show False using A B assms(3) by linarith
  qed
  have m: "m \<le> m'" if "y = y'"
  proof (rule ccontr)
    assume "\<not> m \<le> m'"
    then have "sum_list (take m' (month_lengths y)) \<le> sum_list (take (m - 1) (month_lengths y))"
      by (intro take_mono) auto
    moreover have "sum_list (take (m' - 1) (month_lengths y)) + (d' - 1) < sum_list (take m' (month_lengths y))"
      using B that by (intro upto) auto
    ultimately have "civil_days y' m' d' \<le> civil_days y m d" using that unfolding civil_days_def by auto
    with A B assms(3) show False by simp
  qed
  have d: "d < d'" if "y = y'" "m = m'"
  proof -
    have "civil_days y m d < civil_days y' m' d'" using A B assms(3) by simp
    with that have "d - 1 < d' - 1" by (simp add: civil_days_def)
    then show ?thesis by linarith
  qed
  show ?thesis using y m d by (metis le_neq_implies_less)
qed

definition time_less :: "nat \<Rightarrow> nat \<Rightarrow> bool" where
  "time_less r q \<longleftrightarrow> r div 3600000 < q div 3600000 \<or> r div 3600000 = q div 3600000 \<and>
      (r div 60000 mod 60 < q div 60000 mod 60 \<or> r div 60000 mod 60 = q div 60000 mod 60 \<and>
       (r div 1000 mod 60 < q div 1000 mod 60 \<or> r div 1000 mod 60 = q div 1000 mod 60 \<and> r mod 1000 < q mod 1000))"

lemma time_less:
  assumes "r < q"
  shows "time_less r q"
proof -
  have d: "x div 60000 = x div 1000 div 60" "x div 3600000 = x div 1000 div 60 div 60" for x :: nat
    by (simp_all add: div_mult2_eq [symmetric])
  show ?thesis unfolding time_less_def d
    using div_mod_less [OF assms, of 1000] div_mod_less [of "r div 1000" "q div 1000" 60]
      div_mod_less [of "r div 1000 div 60" "q div 1000 div 60" 60]
    by metis
qed

lemma time_sum: "r div 3600000 * 3600000 + r div 60000 mod 60 * 60000 + r div 1000 mod 60 * 1000 + r mod 1000 = (r :: nat)"
proof -
  have d: "r div 60000 = r div 1000 div 60" "r div 3600000 = r div 1000 div 60 div 60"
    by (simp_all add: div_mult2_eq [symmetric])
  have "r div 1000 = r div 1000 div 60 div 60 * 3600 + r div 1000 div 60 mod 60 * 60 + r div 1000 mod 60"
    using div_mult_mod_eq [of "r div 1000" 60] div_mult_mod_eq [of "r div 1000 div 60" 60] by linarith
  then show ?thesis unfolding d using div_mult_mod_eq [of r 1000] by linarith
qed

lemma stamp_text_less:
  assumes "m < 100" "d < 100" "y < 10000" "m' < 100" "d' < 100" "y' < 10000" "h < 100" "n < 100" "c < 100" "f < 1000"
    "h' < 100" "n' < 100" "c' < 100" "f' < 1000"
  shows "pad 4 y @ ''-'' @ pad 2 m @ ''-'' @ pad 2 d @ ''T'' @ pad 2 h @ '':'' @ pad 2 n @ '':'' @ pad 2 c @ ''.'' @ pad 3 f @ ''Z''
       < pad 4 y' @ ''-'' @ pad 2 m' @ ''-'' @ pad 2 d' @ ''T'' @ pad 2 h' @ '':'' @ pad 2 n' @ '':'' @ pad 2 c' @ ''.'' @ pad 3 f' @ ''Z'' \<longleftrightarrow>
     y < y' \<or> y = y' \<and> (m < m' \<or> m = m' \<and> (d < d' \<or> d = d' \<and>
       (h < h' \<or> h = h' \<and> (n < n' \<or> n = n' \<and> (c < c' \<or> c = c' \<and> f < f')))))"
  using assms by (simp add: pad_lex_widths)

lemma toISOString_less:
  assumes "iso_range s" "iso_range t" "s < t"
  shows "toISOString s < toISOString t"
proof -
  obtain y m d where a: "civil (nat s div 86400000) = (y, m, d)" by (cases "civil (nat s div 86400000)") auto
  obtain y' m' d' where b: "civil (nat t div 86400000) = (y', m', d')" by (cases "civil (nat t div 86400000)") auto
  have dates: "m < 100" "d < 100" "y < 10000" "m' < 100" "d' < 100" "y' < 10000"
    using civil_bounds [OF a] civil_year_bound [OF a] civil_bounds [OF b] civil_year_bound [OF b] assms(1,2)
    by (auto simp: iso_range_def)
  define r where "r = nat s mod 86400000"
  define q where "q = nat t mod 86400000"
  have bounds: "x div 3600000 < 100" "x div 60000 mod 60 < 100" "x div 1000 mod 60 < 100" "x mod 1000 < 1000"
    if "x < 86400000" for x :: nat
    using that by (auto intro: less_trans [OF mod_less_divisor])
  have "r < 86400000" "q < 86400000" by (simp_all add: r_def q_def)
  note bounds = dates bounds [OF this(1)] bounds [OF this(2)]
  have parts: "toISOString s < toISOString t \<longleftrightarrow>
     y < y' \<or> y = y' \<and> (m < m' \<or> m = m' \<and> (d < d' \<or> d = d' \<and> time_less r q))"
    unfolding toISOString_def a b Let_def prod.case r_def [symmetric] q_def [symmetric] time_less_def
    by (rule stamp_text_less) (rule bounds)+
  show ?thesis
  proof (cases "nat s div 86400000 < nat t div 86400000")
    case True
    from civil_days_mono [OF a b True] show ?thesis by (auto simp: parts)
  next
    case False
    moreover from assms have "nat s < nat t" by (simp add: iso_range_def)
    ultimately have "nat s div 86400000 = nat t div 86400000" "r < q"
      using div_mod_less [of "nat s" "nat t" 86400000] by (auto simp: r_def q_def)
    then show ?thesis using a b by (auto simp: parts time_less)
  qed
qed

lemma toISOString_less_iff: "iso_range s \<Longrightarrow> iso_range t \<Longrightarrow> toISOString s < toISOString t \<longleftrightarrow> s < t"
  using toISOString_less [of s t] toISOString_less [of t s] by (metis less_asym linorder_neqE)

lemma toISOString_inj: "iso_range s \<Longrightarrow> iso_range t \<Longrightarrow> toISOString s = toISOString t \<longleftrightarrow> s = t"
  using toISOString_less [of s t] toISOString_less [of t s] by (metis less_irrefl linorder_neqE)

lemma pad_unfold:
  "pad 2 n = [digit_char (n div 10 mod 10), digit_char (n mod 10)]"
  "pad 3 n = [digit_char (n div 10 div 10 mod 10), digit_char (n div 10 mod 10), digit_char (n mod 10)]"
  "pad 4 n = [digit_char (n div 10 div 10 div 10 mod 10), digit_char (n div 10 div 10 mod 10),
     digit_char (n div 10 mod 10), digit_char (n mod 10)]"
proof -
  have w: "2 = Suc (Suc 0)" "3 = Suc (Suc (Suc 0))" "4 = Suc (Suc (Suc (Suc 0)))" by simp_all
  show "pad 2 n = [digit_char (n div 10 mod 10), digit_char (n mod 10)]"
    by (simp only: w(1) pad.simps append.simps)
  show "pad 3 n = [digit_char (n div 10 div 10 mod 10), digit_char (n div 10 mod 10), digit_char (n mod 10)]"
    by (simp only: w(2) pad.simps append.simps)
  show "pad 4 n = [digit_char (n div 10 div 10 div 10 mod 10), digit_char (n div 10 div 10 mod 10),
     digit_char (n div 10 mod 10), digit_char (n mod 10)]"
    by (simp only: w(3) pad.simps append.simps)
qed

lemma parse_toISOString:
  assumes "iso_range t"
  shows "Date_parse (toISOString t) = Some t"
proof -
  define r where "r = nat t mod 86400000"
  obtain y m d where c: "civil (nat t div 86400000) = (y, m, d)" by (cases "civil (nat t div 86400000)") auto
  note C = civil_spec [OF c]
  have b: "m < 100" "d < 100" "y < 10000" "d \<le> 31"
    using civil_bounds [OF c] civil_year_bound [OF c] assms by (auto simp: iso_range_def)
  have r: "r < 86400000" by (simp add: r_def)
  then have rb: "r div 3600000 < 24" "r div 60000 mod 60 < 60" "r div 1000 mod 60 < 60" "r mod 1000 < 1000" by auto
  define s where "s = toISOString t"
  have s: "s = pad 4 y @ ''-'' @ pad 2 m @ ''-'' @ pad 2 d @ ''T'' @ pad 2 (r div 3600000) @ '':'' @
      pad 2 (r div 60000 mod 60) @ '':'' @ pad 2 (r div 1000 mod 60) @ ''.'' @ pad 3 (r mod 1000) @ ''Z''"
    by (simp add: s_def toISOString_def c r_def Let_def)
  have f: "field 0 4 s = y" "field 5 2 s = m" "field 8 2 s = d" "field 11 2 s = r div 3600000"
    "field 14 2 s = r div 60000 mod 60" "field 17 2 s = r div 1000 mod 60" "field 20 3 s = r mod 1000"
    using b rb by (simp_all add: field_def s read_pad)
  have "iso_shape s"
    by (simp add: iso_shape_def s pad_unfold is_digit_char)
  moreover have "iso_fields_ok s" using C rb by (simp add: iso_fields_ok_def f)
  moreover have "r div 3600000 * 3600000 + r div 60000 mod 60 * 60000 + r div 1000 mod 60 * 1000 + r mod 1000 = r"
    by (rule time_sum)
  ultimately have "Date_parse s = Some (int (nat t div 86400000 * 86400000 + r))"
    using C by (simp add: Date_parse_def f add.assoc)
  then show ?thesis using assms by (simp add: s_def r_def iso_range_def)
qed

end
