(* ===== verification/Quota.thy ===== *)
theory Quota
  imports IsoTime
begin

text \<open>
  \<^verbatim>\<open>shared/quota.ts\<close> and \<^verbatim>\<open>data-plane/src/quota.ts\<close>: fixed quota windows and the counters one gateway
  instance keeps. An instance enforces \<^verbatim>\<open>aggregate + delta >= calls\<close>, where the aggregate is the fleet's
  count at the last poll and the delta what this instance has counted since it last reported.

  The clock is an argument of every operation that reads it. Counts are integers, a period is a
  natural number of seconds. \<^verbatim>\<open>scopeKind\<close> is the string on the wire: the type \<^verbatim>\<open>QuotaScope\<close> is checked
  on arrival by the control plane (\<^verbatim>\<open>isScope\<close> in the theory of the fleet). \<^verbatim>\<open>resetSec\<close> is \<^const>\<open>None\<close>
  where the source's arithmetic gives NaN.
\<close>

section \<open>Definitions: windows and keys\<close>

definition quota_period :: "nat \<Rightarrow> int" where
  "quota_period periodSec = int (max 1 periodSec) * 1000"

definition windowStart :: "nat \<Rightarrow> int \<Rightarrow> string" where
  "windowStart periodSec atMs = (let period = quota_period periodSec in toISOString (atMs div period * period))"

definition windowResetSec :: "nat \<Rightarrow> int \<Rightarrow> int" where
  "windowResetSec periodSec atMs =
     (let period = quota_period periodSec; start = atMs div period * period in ceil_div (start + period - atMs) 1000)"

record QuotaKey =
  qk_subscriptionId :: string
  qk_scopeKind :: string
  qk_scopeId :: string
  qk_periodSec :: nat
  qk_windowStart :: string

definition quotaKeyString :: "'a QuotaKey_scheme \<Rightarrow> string" where
  "quotaKeyString key = qk_subscriptionId key @ ''|'' @ qk_scopeKind key @ ''|'' @ qk_scopeId key @ ''|'' @
     show_nat (qk_periodSec key) @ ''|'' @ qk_windowStart key"

record QuotaDelta = QuotaKey +
  qd_count :: int

record QuotaAggregate = QuotaKey +
  qa_count :: int

definition MAX_QUOTA_ENTRIES :: nat where
  "MAX_QUOTA_ENTRIES = 2000"

text \<open>The five key fields of a record that extends a key.\<close>

definition key_of :: "'a QuotaKey_scheme \<Rightarrow> QuotaKey" where
  "key_of k = \<lparr>qk_subscriptionId = qk_subscriptionId k, qk_scopeKind = qk_scopeKind k, qk_scopeId = qk_scopeId k,
     qk_periodSec = qk_periodSec k, qk_windowStart = qk_windowStart k\<rparr>"

section \<open>Definitions: the instance's counters\<close>

record Counter =
  ctr_delta :: int
  ctr_aggregate :: int
  ctr_key :: QuotaKey
  ctr_touchedAtMs :: int

record QuotaVerdict =
  qv_allowed :: bool
  qv_limit :: int
  qv_used :: int
  qv_remaining :: int
  qv_resetSec :: "int option"

record QuotaCounters =
  qc_counters :: "(string, Counter) jsmap"
  qc_maxKeys :: nat

definition new_counters :: "nat \<Rightarrow> QuotaCounters" where
  "new_counters maxKeys = \<lparr>qc_counters = [], qc_maxKeys = maxKeys\<rparr>"

definition oldest_step :: "(string \<times> int) option \<Rightarrow> string \<times> Counter \<Rightarrow> (string \<times> int) option" where
  "oldest_step acc entry = (case acc of
       None \<Rightarrow> Some (fst entry, ctr_touchedAtMs (snd entry))
     | Some (_, oldestAt) \<Rightarrow>
         if ctr_touchedAtMs (snd entry) < oldestAt then Some (fst entry, ctr_touchedAtMs (snd entry)) else acc)"

definition evictOldest :: "(string, Counter) jsmap \<Rightarrow> (string, Counter) jsmap" where
  "evictOldest counters = (case foldl oldest_step None counters of
       None \<Rightarrow> counters
     | Some (oldestId, _) \<Rightarrow> if oldestId = [] then counters else mdelete oldestId counters)"

definition counter :: "QuotaCounters \<Rightarrow> QuotaKey \<Rightarrow> int \<Rightarrow> Counter \<times> QuotaCounters" where
  "counter qc key now =
     (let cid = quotaKeyString key
      in case map_of (qc_counters qc) cid of
           Some c \<Rightarrow> (let c = c\<lparr>ctr_touchedAtMs := now\<rparr>
                       in (c, qc\<lparr>qc_counters := mset_key cid c (qc_counters qc)\<rparr>))
         | None \<Rightarrow>
             (let kept = (if qc_maxKeys qc \<le> length (qc_counters qc) then evictOldest (qc_counters qc) else qc_counters qc);
                  c = \<lparr>ctr_delta = 0, ctr_aggregate = 0, ctr_key = key, ctr_touchedAtMs = now\<rparr>
              in (c, qc\<lparr>qc_counters := mset_key cid c kept\<rparr>)))"

definition keyFor :: "string \<Rightarrow> string \<Rightarrow> string \<Rightarrow> nat \<Rightarrow> int \<Rightarrow> QuotaKey" where
  "keyFor subscriptionId scopeKind scopeId periodSec now =
     \<lparr>qk_subscriptionId = subscriptionId, qk_scopeKind = scopeKind, qk_scopeId = scopeId, qk_periodSec = periodSec,
      qk_windowStart = windowStart periodSec now\<rparr>"

definition verdict :: "QuotaKey \<Rightarrow> int \<Rightarrow> int \<Rightarrow> bool \<Rightarrow> int \<Rightarrow> QuotaVerdict" where
  "verdict key calls used allowed now =
     \<lparr>qv_allowed = allowed, qv_limit = calls, qv_used = used, qv_remaining = max 0 (calls - used),
      qv_resetSec = (case Date_parse (qk_windowStart key) of
          None \<Rightarrow> None
        | Some start \<Rightarrow> Some (max 0 (ceil_div (start + int (qk_periodSec key) * 1000 - now) 1000)))\<rparr>"

definition peek :: "QuotaCounters \<Rightarrow> QuotaKey \<Rightarrow> int \<Rightarrow> int \<Rightarrow> QuotaVerdict" where
  "peek qc key calls now =
     (let used = (case map_of (qc_counters qc) (quotaKeyString key) of
            None \<Rightarrow> 0 | Some c \<Rightarrow> ctr_aggregate c + ctr_delta c)
      in verdict key calls used (used < calls) now)"

definition check :: "QuotaCounters \<Rightarrow> QuotaKey \<Rightarrow> int \<Rightarrow> int \<Rightarrow> QuotaVerdict \<times> QuotaCounters" where
  "check qc key calls now =
     (let (c, qc) = counter qc key now; used = ctr_aggregate c + ctr_delta c
      in if calls \<le> used then (verdict key calls used False now, qc)
         else (verdict key calls (used + 1) True now,
               qc\<lparr>qc_counters := mset_key (quotaKeyString key) (c\<lparr>ctr_delta := ctr_delta c + 1\<rparr>) (qc_counters qc)\<rparr>))"

definition delta_for :: "Counter \<Rightarrow> QuotaDelta" where
  "delta_for c = QuotaKey.extend (ctr_key c) \<lparr>qd_count = ctr_delta c\<rparr>"

text \<open>The loop of \<^verbatim>\<open>takeDeltas\<close> over the counters, with the number of deltas pushed so far.\<close>

fun take_loop :: "nat \<Rightarrow> (string, Counter) jsmap \<Rightarrow> QuotaDelta list \<times> (string, Counter) jsmap" where
  "take_loop pushed [] = ([], [])"
| "take_loop pushed ((cid, c) # rest) =
     (if ctr_delta c = 0 then (let (ds, rest) = take_loop pushed rest in (ds, (cid, c) # rest))
      else if MAX_QUOTA_ENTRIES \<le> pushed then ([], (cid, c) # rest)
      else (let (ds, rest) = take_loop (Suc pushed) rest in (delta_for c # ds, (cid, c\<lparr>ctr_delta := 0\<rparr>) # rest)))"

definition takeDeltas :: "QuotaCounters \<Rightarrow> QuotaDelta list \<times> QuotaCounters" where
  "takeDeltas qc = (let (ds, m) = take_loop 0 (qc_counters qc) in (ds, qc\<lparr>qc_counters := m\<rparr>))"

definition apply_one :: "int \<Rightarrow> QuotaCounters \<Rightarrow> QuotaAggregate \<Rightarrow> QuotaCounters" where
  "apply_one now qc aggregate =
     (let cid = quotaKeyString aggregate;
          (c, qc) = (case map_of (qc_counters qc) cid of
              Some c \<Rightarrow> (c, qc)
            | None \<Rightarrow> counter qc (key_of aggregate) now)
      in qc\<lparr>qc_counters := mset_key cid (c\<lparr>ctr_aggregate := qa_count aggregate\<rparr>) (qc_counters qc)\<rparr>)"

definition applyAggregates :: "QuotaCounters \<Rightarrow> QuotaAggregate list \<Rightarrow> int \<Rightarrow> QuotaCounters" where
  "applyAggregates qc aggregates now = foldl (apply_one now) qc aggregates"

definition quota_sweep :: "QuotaCounters \<Rightarrow> int \<Rightarrow> QuotaCounters" where
  "quota_sweep qc now = qc\<lparr>qc_counters := filter (\<lambda>(cid, c).
       case Date_parse (qk_windowStart (ctr_key c)) of
         None \<Rightarrow> True
       | Some start \<Rightarrow> \<not> (start + int (qk_periodSec (ctr_key c)) * 1000 < now - 60000)) (qc_counters qc)\<rparr>"

definition quota_size :: "QuotaCounters \<Rightarrow> nat" where
  "quota_size qc = length (qc_counters qc)"

text \<open>What an instance does to its counters.\<close>

datatype quota_event =
    QCheck QuotaKey int int
  | QTake
  | QApply "QuotaAggregate list" int
  | QSweep int

fun quota_step :: "QuotaCounters \<Rightarrow> quota_event \<Rightarrow> QuotaCounters" where
  "quota_step qc (QCheck key calls now) = snd (check qc key calls now)"
| "quota_step qc QTake = snd (takeDeltas qc)"
| "quota_step qc (QApply aggregates now) = applyAggregates qc aggregates now"
| "quota_step qc (QSweep now) = quota_sweep qc now"

definition quota_run :: "nat \<Rightarrow> quota_event list \<Rightarrow> QuotaCounters" where
  "quota_run maxKeys es = foldl quota_step (new_counters maxKeys) es"

section \<open>What the counters know of a key\<close>

definition delta_of :: "QuotaCounters \<Rightarrow> string \<Rightarrow> int" where
  "delta_of qc cid = (case map_of (qc_counters qc) cid of None \<Rightarrow> 0 | Some c \<Rightarrow> ctr_delta c)"

definition aggregate_of :: "QuotaCounters \<Rightarrow> string \<Rightarrow> int" where
  "aggregate_of qc cid = (case map_of (qc_counters qc) cid of None \<Rightarrow> 0 | Some c \<Rightarrow> ctr_aggregate c)"

definition reported_for :: "string \<Rightarrow> QuotaDelta list \<Rightarrow> int" where
  "reported_for cid ds = sum_list (map qd_count (filter (\<lambda>d. quotaKeyString d = cid) ds))"

text \<open>Keys are the strings of the counters' own keys and appear once, deltas are not negative, and the
  size is bounded.\<close>

definition quota_inv :: "QuotaCounters \<Rightarrow> bool" where
  "quota_inv qc \<longleftrightarrow> distinct (mkeys (qc_counters qc)) \<and> length (qc_counters qc) \<le> max 1 (qc_maxKeys qc) \<and>
     (\<forall>cid c. map_of (qc_counters qc) cid = Some c \<longrightarrow> quotaKeyString (ctr_key c) = cid \<and> 0 \<le> ctr_delta c)"

lemma quotaKeyString_nonempty [simp]: "quotaKeyString key \<noteq> []"
  by (simp add: quotaKeyString_def)

lemma quotaKeyString_key_of [simp]: "quotaKeyString (key_of k) = quotaKeyString k"
  by (simp add: quotaKeyString_def key_of_def)

lemma quotaKeyString_extend [simp]: "quotaKeyString (QuotaKey.extend k m) = quotaKeyString k"
  by (cases k) (simp add: quotaKeyString_def QuotaKey.extend_def)

lemma quotaKeyString_delta_for [simp]: "quotaKeyString (delta_for c) = quotaKeyString (ctr_key c)"
  by (simp add: delta_for_def)

lemma qd_count_delta_for [simp]: "qd_count (delta_for c) = ctr_delta c"
  by (cases "ctr_key c") (simp add: delta_for_def QuotaKey.extend_def)

lemma oldest_step_in:
  "foldl oldest_step acc m = Some (cid, a) \<Longrightarrow> acc = Some (cid, a) \<or> cid \<in> set (mkeys m)"
proof (induction m arbitrary: acc)
  case (Cons e m)
  then have "oldest_step acc e = Some (cid, a) \<or> cid \<in> set (mkeys m)" by simp
  then show ?case by (auto simp: oldest_step_def split: option.splits if_splits)
qed simp

lemma oldest_step_some: "acc \<noteq> None \<or> m \<noteq> [] \<Longrightarrow> foldl oldest_step acc m \<noteq> None"
proof (induction m arbitrary: acc)
  case (Cons e m)
  have "oldest_step acc e \<noteq> None" by (auto simp: oldest_step_def split: option.splits)
  with Cons.IH show ?case by auto
qed auto

lemma map_of_evictOldest:
  "map_of (evictOldest m) cid = map_of m cid \<or> map_of (evictOldest m) cid = None"
  by (auto simp: evictOldest_def jsmap split: option.splits)

lemma distinct_evictOldest: "distinct (mkeys m) \<Longrightarrow> distinct (mkeys (evictOldest m))"
  by (auto simp: evictOldest_def distinct_delete split: option.splits)

lemma length_delete: "distinct (mkeys m) \<Longrightarrow> cid \<in> set (mkeys m) \<Longrightarrow> Suc (length (mdelete cid m)) = length m"
  by (induction m) (auto simp: delete_fresh)

lemma length_evictOldest:
  assumes "distinct (mkeys m)" "m \<noteq> []" "[] \<notin> set (mkeys m)"
  shows "Suc (length (evictOldest m)) = length m"
proof -
  from oldest_step_some [of None m] assms(2) obtain cid a where o: "foldl oldest_step None m = Some (cid, a)" by auto
  from oldest_step_in [OF o] have "cid \<in> set (mkeys m)" by simp
  with length_delete [OF assms(1) this] assms(3) o show ?thesis by (auto simp: evictOldest_def)
qed

lemma length_set: "length (mset_key k v m) = (if k \<in> set (mkeys m) then length m else Suc (length m))"
  using arg_cong [OF keys_set [of k v m], of length] by (simp split: if_splits)

lemma counter_get:
  assumes "counter qc key now = (c, qc')"
  shows "map_of (qc_counters qc') (quotaKeyString key) = Some c"
    and "ctr_delta c = delta_of qc (quotaKeyString key)" "ctr_aggregate c = aggregate_of qc (quotaKeyString key)"
    and "quota_inv qc \<Longrightarrow> quotaKeyString (ctr_key c) = quotaKeyString key"
    and "cid \<noteq> quotaKeyString key \<Longrightarrow>
      map_of (qc_counters qc') cid = map_of (qc_counters qc) cid \<or> map_of (qc_counters qc') cid = None"
  using assms map_of_evictOldest [of "qc_counters qc" cid]
  by (auto simp: counter_def Let_def delta_of_def aggregate_of_def quota_inv_def jsmap split: option.splits if_splits)

lemma counter_maxKeys: "counter qc key now = (c, qc') \<Longrightarrow> qc_maxKeys qc' = qc_maxKeys qc"
  by (auto simp: counter_def Let_def split: option.splits)

lemma counter_size:
  assumes "quota_inv qc" "counter qc key now = (c, qc')"
  shows "length (qc_counters qc') \<le> max 1 (qc_maxKeys qc)" "distinct (mkeys (qc_counters qc'))"
proof -
  let ?m = "qc_counters qc" and ?k = "quotaKeyString key"
  have d: "distinct (mkeys ?m)" using assms(1) by (simp add: quota_inv_def)
  have ne: "[] \<notin> set (mkeys ?m)"
    using assms(1) unfolding quota_inv_def get_None_iff [symmetric] by (metis not_None_eq quotaKeyString_nonempty)
  have len: "length (mset_key ?k x (evictOldest ?m)) \<le> max 1 (length ?m)" for x
    using length_evictOldest [OF d _ ne]
    by (cases "?m = []") (auto simp: length_set evictOldest_def)
  have b: "length ?m \<le> max 1 (qc_maxKeys qc)" using assms(1) by (simp add: quota_inv_def)
  have len': "length (mset_key ?k x (evictOldest ?m)) \<le> max 1 (qc_maxKeys qc)" for x
    using len [of x] b by linarith
  show "length (qc_counters qc') \<le> max 1 (qc_maxKeys qc)"
  proof (cases "map_of ?m ?k")
    case None
    with assms(2) len' show ?thesis
      by (cases "qc_maxKeys qc \<le> length ?m") (auto simp: counter_def Let_def length_set)
  next
    case (Some c)
    then have "length (mset_key ?k x ?m) = length ?m" for x using get_None_iff [of ?m ?k] length_set [of ?k x ?m] by auto
    with Some assms(2) b show ?thesis by (auto simp: counter_def Let_def)
  qed
  show "distinct (mkeys (qc_counters qc'))"
    using assms(2) d by (auto simp: counter_def Let_def distinct_set distinct_evictOldest split: option.splits if_splits)
qed

lemma quota_invI:
  assumes "distinct (mkeys m)" "length m \<le> max 1 n"
    and "\<And>cid c. map_of m cid = Some c \<Longrightarrow> quotaKeyString (ctr_key c) = cid \<and> 0 \<le> ctr_delta c"
  shows "quota_inv \<lparr>qc_counters = m, qc_maxKeys = n\<rparr>"
  using assms by (simp add: quota_inv_def)

lemma quota_invD:
  assumes "quota_inv qc"
  shows "distinct (mkeys (qc_counters qc))" "length (qc_counters qc) \<le> max 1 (qc_maxKeys qc)"
    and "map_of (qc_counters qc) cid = Some c \<Longrightarrow> quotaKeyString (ctr_key c) = cid"
    and "map_of (qc_counters qc) cid = Some c \<Longrightarrow> 0 \<le> ctr_delta c"
    and "0 \<le> delta_of qc cid"
  using assms by (auto simp: quota_inv_def delta_of_def split: option.splits)

lemma counter_inv [inv_pres]:
  assumes "quota_inv qc" "counter qc key now = (c, qc')"
  shows "quota_inv qc'"
proof -
  have "quotaKeyString (ctr_key d) = cid \<and> 0 \<le> ctr_delta d" if d: "map_of (qc_counters qc') cid = Some d" for cid d
  proof (cases "cid = quotaKeyString key")
    case True
    then show ?thesis
      using d counter_get(1-4) [OF assms(2)] quota_invD(5) [OF assms(1)] assms(1) by auto
  next
    case False
    with d counter_get(5) [OF assms(2), of cid] quota_invD(3,4) [OF assms(1), of cid d] show ?thesis by auto
  qed
  with counter_size [OF assms] show ?thesis
    by (simp add: quota_inv_def counter_maxKeys [OF assms(2)])
qed

text \<open>Replacing a present counter by one of the same key with a non-negative delta.\<close>

lemma update_present_inv:
  assumes "quota_inv qc" "map_of (qc_counters qc) cid = Some c" "quotaKeyString (ctr_key c') = cid" "0 \<le> ctr_delta c'"
  shows "quota_inv (qc\<lparr>qc_counters := mset_key cid c' (qc_counters qc)\<rparr>)"
proof -
  have "cid \<in> set (mkeys (qc_counters qc))" using assms(2) get_None_iff [of "qc_counters qc" cid] by auto
  then show ?thesis using assms by (auto simp: quota_inv_def length_set distinct_set jsmap)
qed

lemma check_cases:
  assumes "check qc key calls now = (v, qc')"
  obtains c qc1 where "counter qc key now = (c, qc1)"
    "qv_allowed v \<longleftrightarrow> ctr_aggregate c + ctr_delta c < calls"
    "qc' = (if qv_allowed v then qc1\<lparr>qc_counters := mset_key (quotaKeyString key) (c\<lparr>ctr_delta := ctr_delta c + 1\<rparr>) (qc_counters qc1)\<rparr>
            else qc1)"
    "v = verdict key calls (ctr_aggregate c + ctr_delta c + (if qv_allowed v then 1 else 0)) (qv_allowed v) now"
  using assms by (cases "counter qc key now") (auto simp: check_def Let_def verdict_def split: if_splits)

lemma check_inv [inv_pres]:
  assumes "quota_inv qc" "check qc key calls now = (v, qc')"
  shows "quota_inv qc'"
  using assms(2)
proof (cases rule: check_cases)
  case (1 c qc1)
  from counter_inv [OF assms(1) 1(1)] have i: "quota_inv qc1" .
  from quota_invD(5) [OF assms(1)] counter_get(2) [OF 1(1)] have d: "0 \<le> ctr_delta c" by simp
  from update_present_inv [OF i counter_get(1) [OF 1(1)], of "c\<lparr>ctr_delta := ctr_delta c + 1\<rparr>"]
    counter_get(4) [OF 1(1) assms(1)] d i 1(3) show ?thesis by auto
qed

lemma check_other:
  assumes "check qc key calls now = (v, qc')" "cid \<noteq> quotaKeyString key"
  shows "map_of (qc_counters qc') cid = map_of (qc_counters qc) cid \<or> map_of (qc_counters qc') cid = None"
  using assms(1)
proof (cases rule: check_cases)
  case (1 c qc1)
  with counter_get(5) [OF 1(1) assms(2)] assms(2) show ?thesis by (auto simp: jsmap)
qed

lemma check_own:
  assumes "check qc key calls now = (v, qc')"
  shows "delta_of qc' (quotaKeyString key) = delta_of qc (quotaKeyString key) + (if qv_allowed v then 1 else 0)"
    and "aggregate_of qc' (quotaKeyString key) = aggregate_of qc (quotaKeyString key)"
    and "qv_allowed v \<longleftrightarrow> aggregate_of qc (quotaKeyString key) + delta_of qc (quotaKeyString key) < calls"
    and "qv_used v = aggregate_of qc' (quotaKeyString key) + delta_of qc' (quotaKeyString key)"
  using assms
  by (cases rule: check_cases, use counter_get(1-3) in \<open>fastforce simp: delta_of_def aggregate_of_def jsmap verdict_def\<close>)+

lemma take_loop_spec:
  assumes "take_loop n m = (ds, m')" "distinct (mkeys m)"
    and "\<And>cid c. map_of m cid = Some c \<Longrightarrow> quotaKeyString (ctr_key c) = cid"
  shows "mkeys m' = mkeys m \<and> length ds + n \<le> max n MAX_QUOTA_ENTRIES \<and>
    (case map_of m cid of
       None \<Rightarrow> map_of m' cid = None \<and> reported_for cid ds = 0
     | Some c \<Rightarrow> map_of m' cid = Some c \<and> reported_for cid ds = 0 \<or>
                 map_of m' cid = Some (c\<lparr>ctr_delta := 0\<rparr>) \<and> reported_for cid ds = ctr_delta c)"
  using assms
proof (induction n m arbitrary: ds m' rule: take_loop.induct)
  case (1 pushed)
  then show ?case by (simp add: reported_for_def)
next
  case (2 pushed cid' c rest)
  have own: "quotaKeyString (ctr_key c) = cid'" using 2(5) [of cid' c] by simp
  have fresh: "map_of rest cid' = None" using 2(4) by (simp add: get_None_iff)
  have keys: "quotaKeyString (ctr_key d) = k" if "map_of rest k = Some d" for k d
    using 2(5) [of k d] that fresh by (cases "k = cid'") auto
  consider (skip) "ctr_delta c = 0" | (full) "ctr_delta c \<noteq> 0" "MAX_QUOTA_ENTRIES \<le> pushed"
    | (push) "ctr_delta c \<noteq> 0" "\<not> MAX_QUOTA_ENTRIES \<le> pushed" by blast
  then show ?case
  proof cases
    case skip
    obtain ds1 m1 where r: "take_loop pushed rest = (ds1, m1)" by fastforce
    from 2(1) [OF skip r _ keys] 2(4) have IH: "mkeys m1 = mkeys rest" "length ds1 + pushed \<le> max pushed MAX_QUOTA_ENTRIES"
      and "case map_of rest cid of
         None \<Rightarrow> map_of m1 cid = None \<and> reported_for cid ds1 = 0
       | Some c \<Rightarrow> map_of m1 cid = Some c \<and> reported_for cid ds1 = 0 \<or>
                 map_of m1 cid = Some (c\<lparr>ctr_delta := 0\<rparr>) \<and> reported_for cid ds1 = ctr_delta c" by auto
    with 2(3) skip r fresh show ?thesis by (auto split: option.splits)
  next
    case full
    with 2(3) show ?thesis by (auto simp: reported_for_def split: option.splits)
  next
    case push
    obtain ds1 m1 where r: "take_loop (Suc pushed) rest = (ds1, m1)" by fastforce
    from 2(2) [OF push r _ keys] 2(4) have IH: "mkeys m1 = mkeys rest" "length ds1 + Suc pushed \<le> max (Suc pushed) MAX_QUOTA_ENTRIES"
      and look: "case map_of rest cid of
         None \<Rightarrow> map_of m1 cid = None \<and> reported_for cid ds1 = 0
       | Some c \<Rightarrow> map_of m1 cid = Some c \<and> reported_for cid ds1 = 0 \<or>
                 map_of m1 cid = Some (c\<lparr>ctr_delta := 0\<rparr>) \<and> reported_for cid ds1 = ctr_delta c" by auto
    from 2(3) push r have ds: "ds = delta_for c # ds1" "m' = (cid', c\<lparr>ctr_delta := 0\<rparr>) # m1" by auto
    from look fresh own push(2) IH show ?thesis
      by (auto simp: ds reported_for_def split: option.splits)
  qed
qed

lemma takeDeltas_spec:
  assumes "quota_inv qc" "takeDeltas qc = (ds, qc')"
  shows "reported_for cid ds + delta_of qc' cid = delta_of qc cid" "aggregate_of qc' cid = aggregate_of qc cid"
    and "length ds \<le> MAX_QUOTA_ENTRIES" "quota_inv qc'" "0 \<le> reported_for cid ds"
    and "reported_for cid ds = 0 \<or> delta_of qc' cid = 0"
proof -
  obtain m where t: "take_loop 0 (qc_counters qc) = (ds, m)" "qc' = qc\<lparr>qc_counters := m\<rparr>"
    using assms(2) by (auto simp: takeDeltas_def split: prod.splits)
  note spec = take_loop_spec [OF t(1) quota_invD(1,3) [OF assms(1)]]
  have *: "reported_for cid ds + delta_of qc' cid = delta_of qc cid \<and> aggregate_of qc' cid = aggregate_of qc cid \<and>
    (reported_for cid ds = 0 \<or> delta_of qc' cid = 0)" for cid
    using spec [of cid] by (auto simp: t(2) delta_of_def aggregate_of_def split: option.splits)
  then show "reported_for cid ds + delta_of qc' cid = delta_of qc cid" "aggregate_of qc' cid = aggregate_of qc cid"
    "reported_for cid ds = 0 \<or> delta_of qc' cid = 0" by blast+
  show "length ds \<le> MAX_QUOTA_ENTRIES" using spec by simp
  have keys: "mkeys m = mkeys (qc_counters qc)" using spec by simp
  then have "length m = length (qc_counters qc)" by (metis length_map)
  moreover have "quotaKeyString (ctr_key c) = k \<and> 0 \<le> ctr_delta c" if "map_of m k = Some c" for k c
    using that spec [of k] quota_invD(3,4) [OF assms(1), of k] by (auto split: option.splits)
  ultimately show "quota_inv qc'" using quota_invD(1,2) [OF assms(1)] keys by (auto simp: quota_inv_def t(2))
  show "0 \<le> reported_for cid ds"
    using spec [of cid] quota_invD(4) [OF assms(1), of cid] by (auto split: option.splits)
qed

lemma apply_one_spec:
  assumes "quota_inv qc"
  shows "quota_inv (apply_one now qc a)" "delta_of (apply_one now qc a) cid \<le> delta_of qc cid"
    and "aggregate_of (apply_one now qc a) cid = qa_count a \<and> cid = quotaKeyString a \<or>
         aggregate_of (apply_one now qc a) cid = aggregate_of qc cid \<or> aggregate_of (apply_one now qc a) cid = 0"
proof -
  let ?k = "quotaKeyString a"
  obtain c qc1 where c: "(case map_of (qc_counters qc) ?k of Some c \<Rightarrow> (c, qc) | None \<Rightarrow> counter qc (key_of a) now) = (c, qc1)"
    by fastforce
  then have eq: "apply_one now qc a = qc1\<lparr>qc_counters := mset_key ?k (c\<lparr>ctr_aggregate := qa_count a\<rparr>) (qc_counters qc1)\<rparr>"
    by (simp add: apply_one_def Let_def)
  have i: "quota_inv qc1" and g: "map_of (qc_counters qc1) ?k = Some c" and d: "ctr_delta c = delta_of qc ?k"
    and o: "cid \<noteq> ?k \<Longrightarrow> map_of (qc_counters qc1) cid = map_of (qc_counters qc) cid \<or> map_of (qc_counters qc1) cid = None" for cid
    using c counter_inv [OF assms, of "key_of a" now c qc1] counter_get [of qc "key_of a" now c qc1] assms
    by (auto simp: delta_of_def split: option.splits)
  show "quota_inv (apply_one now qc a)"
    unfolding eq by (rule update_present_inv [OF i g]) (use quota_invD(3,4) [OF i g] in simp_all)
  show "delta_of (apply_one now qc a) cid \<le> delta_of qc cid"
    using o [of cid] d quota_invD(5) [OF assms, of cid] by (auto simp: eq delta_of_def jsmap)
  show "aggregate_of (apply_one now qc a) cid = qa_count a \<and> cid = quotaKeyString a \<or>
         aggregate_of (apply_one now qc a) cid = aggregate_of qc cid \<or> aggregate_of (apply_one now qc a) cid = 0"
    using o [of cid] by (auto simp: eq aggregate_of_def jsmap)
qed

lemma applyAggregates_spec:
  assumes "quota_inv qc"
  shows "quota_inv (applyAggregates qc as now) \<and> delta_of (applyAggregates qc as now) cid \<le> delta_of qc cid \<and>
    (aggregate_of (applyAggregates qc as now) cid = aggregate_of qc cid \<or> aggregate_of (applyAggregates qc as now) cid = 0 \<or>
     (\<exists>a\<in>set as. quotaKeyString a = cid \<and> aggregate_of (applyAggregates qc as now) cid = qa_count a))"
  using assms unfolding applyAggregates_def
proof (induction as arbitrary: qc)
  case (Cons a as)
  note one = apply_one_spec [OF Cons.prems, of now a]
  from Cons.IH [OF one(1)] one(2) [of cid] one(3) [of cid] show ?case by fastforce
qed simp

lemma quota_sweep_get:
  assumes "quota_inv qc"
  shows "map_of (qc_counters (quota_sweep qc now)) cid = map_of (qc_counters qc) cid \<or>
         map_of (qc_counters (quota_sweep qc now)) cid = None"
  by (simp add: quota_sweep_def get_filter_distinct [OF quota_invD(1) [OF assms]] split: option.splits)

lemma quota_sweep_inv [inv_pres]:
  assumes "quota_inv qc"
  shows "quota_inv (quota_sweep qc now)"
proof -
  have "length (qc_counters (quota_sweep qc now)) \<le> max 1 (qc_maxKeys qc)"
    unfolding quota_sweep_def using quota_invD(2) [OF assms] by (simp add: le_trans [OF length_filter_le])
  moreover have "distinct (mkeys (qc_counters (quota_sweep qc now)))"
    using quota_invD(1) [OF assms] by (simp add: quota_sweep_def distinct_map_filter)
  ultimately show ?thesis
    using quota_sweep_get [OF assms, of now] quota_invD(3,4) [OF assms] unfolding quota_inv_def
    by (metis (no_types, lifting) QuotaCounters.ext_inject QuotaCounters.surjective QuotaCounters.update_convs(1) option.distinct(1) quota_sweep_def)
qed

lemma quota_step_inv [inv_pres]: "quota_inv qc \<Longrightarrow> quota_inv (quota_step qc e)"
proof (cases e)
  case (QCheck key calls now)
  assume "quota_inv qc"
  from check_inv [OF this prod.collapse [symmetric]] QCheck show ?thesis by simp
next
  case QTake
  assume "quota_inv qc"
  from takeDeltas_spec(4) [OF this prod.collapse [symmetric]] QTake show ?thesis by simp
qed (auto simp: quota_sweep_inv applyAggregates_spec)

interpretation quota_counters: machine quota_step quota_inv
  by unfold_locales (rule quota_step_inv)

lemma quota_run_inv: "quota_inv (quota_run maxKeys es)"
  unfolding quota_run_def by (rule quota_counters.run_good) (simp add: quota_inv_def new_counters_def)

lemma quota_step_maxKeys: "qc_maxKeys (quota_step qc e) = qc_maxKeys qc"
proof -
  have c: "qc_maxKeys (snd (counter qc key now)) = qc_maxKeys qc" for qc key now
    using counter_maxKeys [OF prod.collapse [symmetric]] .
  have a: "qc_maxKeys (apply_one now qc x) = qc_maxKeys qc" for now qc x
    using c by (auto simp: apply_one_def Let_def case_prod_beta split: option.splits)
  have "qc_maxKeys (foldl (apply_one now) qc xs) = qc_maxKeys qc" for now qc xs
    by (induction xs arbitrary: qc) (simp_all add: a)
  then show ?thesis using c
    by (cases e) (auto simp: check_def Let_def takeDeltas_def applyAggregates_def quota_sweep_def case_prod_beta)
qed

lemma quota_run_maxKeys: "qc_maxKeys (quota_run maxKeys es) = maxKeys"
  unfolding quota_run_def
  by (induction es rule: rev_induct) (simp_all add: quota_step_maxKeys new_counters_def)

section \<open>Properties\<close>

text \<open>A quota check allows the call exactly when the fleet's last known count plus this instance's own
  count is below the limit. It counts an allowed call once, never a rejected one, reports the count it
  leaves behind, and touches no other key's count (another key can only be evicted).\<close>

lemma check_counts_allowed:
  "case check qc key calls now of (v, qc') \<Rightarrow>
     (let k = quotaKeyString key in
       (qv_allowed v \<longleftrightarrow> aggregate_of qc k + delta_of qc k < calls) \<and>
       aggregate_of qc' k = aggregate_of qc k \<and>
       delta_of qc' k = delta_of qc k + (if qv_allowed v then 1 else 0) \<and>
       qv_used v = aggregate_of qc' k + delta_of qc' k \<and>
       qv_remaining v = max 0 (calls - qv_used v) \<and>
       list_all (\<lambda>(cid, c). cid = k \<or> map_of (qc_counters qc) cid = map_of (qc_counters qc') cid) (qc_counters qc'))"
proof -
  obtain v qc' where r: "check qc key calls now = (v, qc')" by fastforce
  have "qv_remaining v = max 0 (calls - qv_used v)"
    using r by (cases rule: check_cases) (auto simp: verdict_def)
  moreover have "list_all (\<lambda>(cid, c). cid = quotaKeyString key \<or> map_of (qc_counters qc) cid = map_of (qc_counters qc') cid)
      (qc_counters qc')"
  proof -
    have "map_of (qc_counters qc') cid \<noteq> None" if "(cid, c) \<in> set (qc_counters qc')" for cid c
      using that weak_map_of_SomeI [of cid c] by auto
    with check_other [OF r] show ?thesis by (fastforce simp: list_all_iff)
  qed
  ultimately show ?thesis using check_own [OF r] by (simp add: r Let_def)
qed

text \<open>Taking the deltas for a report moves counts out of the counters without losing or duplicating any:
  for every key what is reported plus what stays is what was counted, the fleet's aggregate is kept, a
  key is reported in full or left for the next poll, and one report has at most 2000 entries. Taking
  again at once reports nothing of a key that was taken.\<close>

lemma takeDeltas_conserves:
  "case takeDeltas (quota_run maxKeys es) of (ds, qc') \<Rightarrow>
     length ds \<le> 2000 \<and>
     (\<forall>cid. reported_for cid ds + delta_of qc' cid = delta_of (quota_run maxKeys es) cid \<and>
        aggregate_of qc' cid = aggregate_of (quota_run maxKeys es) cid \<and>
        (reported_for cid ds = 0 \<or> reported_for cid (fst (takeDeltas qc')) = 0))"
proof -
  obtain ds qc' where r: "takeDeltas (quota_run maxKeys es) = (ds, qc')" by fastforce
  obtain ds2 qc2 where r2: "takeDeltas qc' = (ds2, qc2)" by fastforce
  note A = takeDeltas_spec [OF quota_run_inv r]
  note B = takeDeltas_spec [OF A(4) r2]
  have "reported_for cid ds = 0 \<or> reported_for cid ds2 = 0" for cid
    using A(6) [of cid] B(1,5) [of cid] quota_invD(5) [OF B(4), of cid] by linarith
  with A show ?thesis by (auto simp: r r2 MAX_QUOTA_ENTRIES_def)
qed

text \<open>The number of windows an instance remembers is bounded after any run of checks, reports, answers
  and sweeps: at most \<^verbatim>\<open>maxKeys\<close>, or one where the bound is configured as zero.\<close>

lemma quota_bounded: "quota_size (quota_run maxKeys es) \<le> max 1 maxKeys"
  using quota_invD(2) [OF quota_run_inv, of maxKeys es] by (simp add: quota_size_def quota_run_maxKeys)

text \<open>A window's name is the printed start of the fixed window that holds the instant, reading it back
  gives that start, two instants share a name exactly when they are in one window, and the reset time
  a verdict reports is the least whole number of seconds after which the window has ended.\<close>

lemma windowStart_roundtrip:
  assumes "iso_range t" "iso_range u" and "p = int (max 1 periodSec) * 1000"
  shows "Date_parse (windowStart periodSec t) = Some (floor_to p t) \<and>
    (windowStart periodSec t = windowStart periodSec u \<longleftrightarrow> floor_to p t = floor_to p u) \<and>
    floor_to p t \<le> t \<and> t < floor_to p t + p \<and>
    floor_to p t + p \<le> t + windowResetSec periodSec t * 1000 \<and>
    t + windowResetSec periodSec t * 1000 < floor_to p t + p + 1000"
proof (intro conjI)
  have p: "0 < p" using assms(3) by simp
  have range: "iso_range (floor_to p x)" if "iso_range x" for x
  proof -
    have "0 \<le> floor_to p x" using that p by (simp add: floor_to_def iso_range_def pos_imp_zdiv_nonneg_iff)
    moreover have "floor_to p x \<le> x" by (rule floor_to_le [OF p])
    ultimately show ?thesis using that by (auto simp: iso_range_def intro: le_less_trans [OF div_le_mono])
  qed
  have w: "windowStart periodSec x = toISOString (floor_to p x)" for x
    by (simp add: windowStart_def quota_period_def Let_def assms(3) floor_to_def)
  show "Date_parse (windowStart periodSec t) = Some (floor_to p t)"
    by (simp add: w parse_toISOString range assms(1))
  show "windowStart periodSec t = windowStart periodSec u \<longleftrightarrow> floor_to p t = floor_to p u"
    by (simp add: w toISOString_inj range assms(1,2))
  show "floor_to p t \<le> t" "t < floor_to p t + p" using floor_to_le [OF p] floor_to_gt [OF p] by simp_all
  have reset: "windowResetSec periodSec t = ceil_div (floor_to p t + p - t) 1000"
    by (simp add: windowResetSec_def quota_period_def Let_def assms(3) floor_to_def)
  show "floor_to p t + p \<le> t + windowResetSec periodSec t * 1000"
    using ceil_div_ge [of 1000 "floor_to p t + p - t"] by (simp add: reset)
  show "t + windowResetSec periodSec t * 1000 < floor_to p t + p + 1000"
    using ceil_div_less [of 1000 "floor_to p t + p - t"] by (simp add: reset)
qed

lemma windowStart_roundtrip_example:
  "Date_parse (windowStart 60 1700000012345) = Some 1699999980000 \<and>
   windowStart 60 1700000012345 = windowStart 60 1700000039999 \<and>
   windowResetSec 60 1700000012345 = 28"
proof -
  have r: "iso_range 1700000012345" "iso_range 1700000039999" by (rule iso_range_near; simp)+
  from windowStart_roundtrip [OF r refl, of 60]
  show ?thesis by (auto simp: floor_to_def windowResetSec_def quota_period_def ceil_div_def)
qed

end
