(* ===== verification/QuotaFleet.thy ===== *)
theory QuotaFleet
  imports Quota
begin

text \<open>
  \<^verbatim>\<open>control-plane/src/quota.ts\<close>: the fleet's side of the quota, and the fleet as a whole. The service
  keeps a map of counts that are not written yet and the table \<^verbatim>\<open>usage_counter\<close>, a list of rows here.
  A query that sorts by \<^verbatim>\<open>updated_at\<close> leaves ties in table order.

  The second half composes the service with any number of gateway instances and an asynchronous,
  lossy network: reports and answers are delivered in any order, late or never, instances restart,
  the control plane crashes, writes fail. Two history variables count, per environment and key, the
  calls that were really allowed and the counts that reached the service. The invariant is that no
  count anywhere exceeds the calls really allowed.
\<close>

declare map_of_eq_Some_iff [simp del] Some_eq_map_of_iff [simp del]

section \<open>Definitions: the service\<close>

record Pending = QuotaKey +
  pd_environment :: string
  pd_delta :: int

record UsageRow = QuotaKey +
  ur_environment :: string
  ur_count :: int
  ur_updatedAt :: string

record QuotaService =
  qs_pending :: "(string, Pending) jsmap"
  qs_droppedDeltas :: nat
  qs_rows :: "UsageRow list"
  qs_maxEntries :: nat

definition new_service :: "nat \<Rightarrow> QuotaService" where
  "new_service maxEntries = \<lparr>qs_pending = [], qs_droppedDeltas = 0, qs_rows = [], qs_maxEntries = maxEntries\<rparr>"

definition isScope :: "string \<Rightarrow> bool" where
  "isScope v \<longleftrightarrow> v = ''route'' \<or> v = ''product'' \<or> v = ''operation''"

definition isLive :: "'a QuotaKey_scheme \<Rightarrow> int \<Rightarrow> bool" where
  "isLive key atMs = (case Date_parse (qk_windowStart key) of
       None \<Rightarrow> False | Some start \<Rightarrow> atMs < start + int (qk_periodSec key) * 1000)"

definition pending_id :: "string \<Rightarrow> 'a QuotaKey_scheme \<Rightarrow> string" where
  "pending_id environment key = environment @ ''|'' @ quotaKeyString key"

definition accept_one :: "string \<Rightarrow> QuotaService \<Rightarrow> QuotaDelta \<Rightarrow> QuotaService" where
  "accept_one environment s delta =
     (if qd_count delta \<le> 0 then s
      else if \<not> isScope (qk_scopeKind delta) then s
      else (let pid = pending_id environment delta
            in case map_of (qs_pending s) pid of
                 Some existing \<Rightarrow>
                   s\<lparr>qs_pending := mset_key pid (existing\<lparr>pd_delta := pd_delta existing + qd_count delta\<rparr>) (qs_pending s)\<rparr>
               | None \<Rightarrow>
                   if qs_maxEntries s \<le> length (qs_pending s) then s\<lparr>qs_droppedDeltas := qs_droppedDeltas s + 1\<rparr>
                   else s\<lparr>qs_pending := mset_key pid
                            (QuotaKey.extend (key_of delta) \<lparr>pd_environment = environment, pd_delta = qd_count delta\<rparr>)
                            (qs_pending s)\<rparr>))"

definition accept :: "QuotaService \<Rightarrow> string \<Rightarrow> QuotaDelta list \<Rightarrow> QuotaService" where
  "accept s environment deltas = foldl (accept_one environment) s deltas"

text \<open>\<^verbatim>\<open>WHERE environment = ? ORDER BY updated_at DESC LIMIT ?\<close>\<close>

definition recent_rows :: "QuotaService \<Rightarrow> string \<Rightarrow> UsageRow list" where
  "recent_rows s environment =
     take (qs_maxEntries s) (rev (sort_key ur_updatedAt (rev (filter (\<lambda>r. ur_environment r = environment) (qs_rows s)))))"

definition row_total :: "int \<Rightarrow> (string, QuotaAggregate) jsmap \<Rightarrow> UsageRow \<Rightarrow> (string, QuotaAggregate) jsmap" where
  "row_total now totals row =
     (let aggregate = QuotaKey.extend (key_of row) \<lparr>qa_count = ur_count row\<rparr>
      in if isLive aggregate now then mset_key (quotaKeyString aggregate) aggregate totals else totals)"

definition pending_total ::
  "string \<Rightarrow> nat \<Rightarrow> (string, QuotaAggregate) jsmap \<Rightarrow> Pending \<Rightarrow> (string, QuotaAggregate) jsmap" where
  "pending_total environment maxEntries totals entry =
     (if pd_environment entry \<noteq> environment then totals
      else (let key = quotaKeyString entry
            in case map_of totals key of
                 Some existing \<Rightarrow> mset_key key (existing\<lparr>qa_count := qa_count existing + pd_delta entry\<rparr>) totals
               | None \<Rightarrow> if length totals < maxEntries
                          then mset_key key (QuotaKey.extend (key_of entry) \<lparr>qa_count = pd_delta entry\<rparr>) totals
                          else totals))"

definition aggregatesFor :: "QuotaService \<Rightarrow> string \<Rightarrow> int \<Rightarrow> QuotaAggregate list" where
  "aggregatesFor s environment now =
     (let totals = foldl (row_total now) [] (recent_rows s environment)
      in mvalues (foldl (pending_total environment (qs_maxEntries s)) totals (mvalues (qs_pending s))))"

text \<open>The upsert of one counted entry on the table's primary key.\<close>

definition same_row :: "Pending \<Rightarrow> UsageRow \<Rightarrow> bool" where
  "same_row entry row \<longleftrightarrow> key_of row = key_of entry \<and> ur_environment row = pd_environment entry"

fun upsert :: "string \<Rightarrow> UsageRow list \<Rightarrow> Pending \<Rightarrow> UsageRow list" where
  "upsert now [] entry = [QuotaKey.extend (key_of entry)
     \<lparr>ur_environment = pd_environment entry, ur_count = pd_delta entry, ur_updatedAt = now\<rparr>]"
| "upsert now (row # rows) entry =
     (if same_row entry row then row\<lparr>ur_count := ur_count row + pd_delta entry, ur_updatedAt := now\<rparr> # rows
      else row # upsert now rows entry)"

datatype db_error = DbFailed

text \<open>The transaction either writes the whole batch or, when the database fails, nothing; the pending map
  is empty in both cases.\<close>

definition flush :: "QuotaService \<Rightarrow> bool \<Rightarrow> int \<Rightarrow> (db_error + nat) \<times> QuotaService" where
  "flush s db_ok now =
     (if qs_pending s = [] then (Inr 0, s)
      else (let batch = mvalues (qs_pending s); s = s\<lparr>qs_pending := []\<rparr>; updated = toISOString now
            in if db_ok then (Inr (length batch), s\<lparr>qs_rows := foldl (upsert updated) (qs_rows s) batch\<rparr>)
               else (Inl DbFailed, s)))"

definition row_expired :: "int \<Rightarrow> UsageRow \<Rightarrow> bool" where
  "row_expired now row \<longleftrightarrow> ur_updatedAt row < toISOString (now - 3600000) \<and>
     (case Date_parse (qk_windowStart row) of
        None \<Rightarrow> True | Some start \<Rightarrow> start + int (qk_periodSec row) * 1000 + 3600000 \<le> now)"

definition service_sweep :: "QuotaService \<Rightarrow> int \<Rightarrow> nat \<times> QuotaService" where
  "service_sweep s now =
     (length (filter (row_expired now) (qs_rows s)), s\<lparr>qs_rows := filter (\<lambda>r. \<not> row_expired now r) (qs_rows s)\<rparr>)"

definition service_stats :: "QuotaService \<Rightarrow> nat \<times> nat" where
  "service_stats s = (length (qs_pending s), qs_droppedDeltas s)"

section \<open>Definitions: the fleet\<close>

text \<open>Every gateway instance with its environment, the service, reports on their way up and answers on
  their way down (each with the index of its instance), and the two history variables.\<close>

record fleet =
  fl_instances :: "(string \<times> QuotaCounters) list"
  fl_service :: QuotaService
  fl_reports :: "(nat \<times> QuotaDelta list) list"
  fl_replies :: "(nat \<times> QuotaAggregate list) list"
  fl_admitted :: "string \<Rightarrow> string \<Rightarrow> int"
  fl_accepted :: "string \<Rightarrow> string \<Rightarrow> int"

datatype fleet_event =
    Call nat QuotaKey int int
  | Report nat
  | Arrive nat int
  | LoseReport nat
  | Reply nat int
  | LoseReply nat
  | Restart nat
  | SweepCounters nat int
  | Flush bool int
  | SweepRows int
  | ServiceRestart

abbreviation env_of :: "fleet \<Rightarrow> nat \<Rightarrow> string" where
  "env_of f i \<equiv> fst (fl_instances f ! i)"

abbreviation counters_of :: "fleet \<Rightarrow> nat \<Rightarrow> QuotaCounters" where
  "counters_of f i \<equiv> snd (fl_instances f ! i)"

definition set_counters :: "fleet \<Rightarrow> nat \<Rightarrow> QuotaCounters \<Rightarrow> fleet" where
  "set_counters f i qc = f\<lparr>fl_instances := (fl_instances f)[i := (env_of f i, qc)]\<rparr>"

definition drop_nth :: "nat \<Rightarrow> 'a list \<Rightarrow> 'a list" where
  "drop_nth n xs = take n xs @ drop (Suc n) xs"

text \<open>The positive counts of a report, which is what the service may add.\<close>

definition positive_for :: "string \<Rightarrow> QuotaDelta list \<Rightarrow> int" where
  "positive_for cid ds = reported_for cid (filter (\<lambda>d. 0 < qd_count d) ds)"

fun fleet_step :: "fleet \<Rightarrow> fleet_event \<Rightarrow> fleet" where
  "fleet_step f (Call i key calls now) =
     (if i < length (fl_instances f) then
        (let (v, qc) = check (counters_of f i) key calls now; f' = set_counters f i qc
         in if qv_allowed v then f'\<lparr>fl_admitted := (fl_admitted f)(env_of f i := (fl_admitted f (env_of f i))
               (quotaKeyString key := fl_admitted f (env_of f i) (quotaKeyString key) + 1))\<rparr> else f')
      else f)"
| "fleet_step f (Report i) =
     (if i < length (fl_instances f) then
        (let (ds, qc) = takeDeltas (counters_of f i)
         in (set_counters f i qc)\<lparr>fl_reports := fl_reports f @ [(i, ds)]\<rparr>)
      else f)"
| "fleet_step f (Arrive n now) =
     (if n < length (fl_reports f) then
        (let (i, ds) = fl_reports f ! n; e = env_of f i; s = accept (fl_service f) e ds
         in f\<lparr>fl_service := s, fl_reports := drop_nth n (fl_reports f),
              fl_replies := fl_replies f @ [(i, aggregatesFor s e now)],
              fl_accepted := (fl_accepted f)(e := (\<lambda>cid. fl_accepted f e cid + positive_for cid ds))\<rparr>)
      else f)"
| "fleet_step f (LoseReport n) = f\<lparr>fl_reports := drop_nth n (fl_reports f)\<rparr>"
| "fleet_step f (Reply n now) =
     (if n < length (fl_replies f) then
        (let (i, as) = fl_replies f ! n
         in (set_counters f i (applyAggregates (counters_of f i) as now))\<lparr>fl_replies := drop_nth n (fl_replies f)\<rparr>)
      else f)"
| "fleet_step f (LoseReply n) = f\<lparr>fl_replies := drop_nth n (fl_replies f)\<rparr>"
| "fleet_step f (Restart i) =
     (if i < length (fl_instances f) then set_counters f i (new_counters (qc_maxKeys (counters_of f i))) else f)"
| "fleet_step f (SweepCounters i now) =
     (if i < length (fl_instances f) then set_counters f i (quota_sweep (counters_of f i) now) else f)"
| "fleet_step f (Flush db_ok now) = f\<lparr>fl_service := snd (flush (fl_service f) db_ok now)\<rparr>"
| "fleet_step f (SweepRows now) = f\<lparr>fl_service := snd (service_sweep (fl_service f) now)\<rparr>"
| "fleet_step f ServiceRestart = f\<lparr>fl_service := (fl_service f)\<lparr>qs_pending := [], qs_droppedDeltas := 0\<rparr>\<rparr>"

definition new_fleet :: "string list \<Rightarrow> nat \<Rightarrow> nat \<Rightarrow> fleet" where
  "new_fleet environments maxKeys maxEntries =
     \<lparr>fl_instances = map (\<lambda>e. (e, new_counters maxKeys)) environments, fl_service = new_service maxEntries,
      fl_reports = [], fl_replies = [], fl_admitted = (\<lambda>_ _. 0), fl_accepted = (\<lambda>_ _. 0)\<rparr>"

definition fleet_run :: "fleet \<Rightarrow> fleet_event list \<Rightarrow> fleet" where
  "fleet_run f es = foldl fleet_step f es"

section \<open>What the service knows of a key\<close>

definition row_sum :: "string \<Rightarrow> string \<Rightarrow> UsageRow list \<Rightarrow> int" where
  "row_sum e cid rows = sum_list (map ur_count (filter (\<lambda>r. ur_environment r = e \<and> quotaKeyString r = cid) rows))"

definition pending_sum :: "string \<Rightarrow> string \<Rightarrow> Pending list \<Rightarrow> int" where
  "pending_sum e cid ps = sum_list (map pd_delta (filter (\<lambda>p. pd_environment p = e \<and> quotaKeyString p = cid) ps))"

definition service_sum :: "QuotaService \<Rightarrow> string \<Rightarrow> string \<Rightarrow> int" where
  "service_sum s e cid = row_sum e cid (qs_rows s) + pending_sum e cid (mvalues (qs_pending s))"

text \<open>Counts are positive, and a pending entry stands under its own environment and key.\<close>

definition service_inv :: "QuotaService \<Rightarrow> bool" where
  "service_inv s \<longleftrightarrow> distinct (mkeys (qs_pending s)) \<and> list_all (\<lambda>r. 0 \<le> ur_count r) (qs_rows s) \<and>
     list_all (\<lambda>(pid, p). pid = pending_id (pd_environment p) p \<and> CHR ''|'' \<notin> set (pd_environment p) \<and> 0 \<le> pd_delta p)
       (qs_pending s)"

lemma pending_id_inj:
  assumes "pending_id e k = pending_id e' k'" "CHR ''|'' \<notin> set e" "CHR ''|'' \<notin> set e'"
  shows "e = e' \<and> quotaKeyString k = quotaKeyString k'"
proof -
  have "js_split CHR ''|'' (pending_id e k) = e # js_split CHR ''|'' (quotaKeyString k)"
    "js_split CHR ''|'' (pending_id e' k') = e' # js_split CHR ''|'' (quotaKeyString k')"
    using assms(2,3) by (simp_all add: pending_id_def js_split_append)
  with assms(1) show ?thesis by (simp add: pending_id_def)
qed

lemma quotaKeyString_updates [simp]:
  "quotaKeyString (p\<lparr>pd_delta := x\<rparr>) = quotaKeyString p"
  "quotaKeyString (r\<lparr>ur_count := x\<rparr>) = quotaKeyString r" "quotaKeyString (r\<lparr>ur_updatedAt := y\<rparr>) = quotaKeyString r"
  "quotaKeyString (a\<lparr>qa_count := x\<rparr>) = quotaKeyString a"
  by (simp_all add: quotaKeyString_def)

lemma extend_fields [simp]:
  "pd_environment (QuotaKey.extend k \<lparr>pd_environment = e, pd_delta = d\<rparr>) = e"
  "pd_delta (QuotaKey.extend k \<lparr>pd_environment = e, pd_delta = d\<rparr>) = d"
  "ur_environment (QuotaKey.extend k \<lparr>ur_environment = e, ur_count = d, ur_updatedAt = u\<rparr>) = e"
  "ur_count (QuotaKey.extend k \<lparr>ur_environment = e, ur_count = d, ur_updatedAt = u\<rparr>) = d"
  "qa_count (QuotaKey.extend k \<lparr>qa_count = d\<rparr>) = d"
  by (cases k; simp add: QuotaKey.extend_def)+

lemma same_row_keys: "same_row p r \<Longrightarrow> quotaKeyString r = quotaKeyString p \<and> ur_environment r = pd_environment p"
  by (metis quotaKeyString_key_of same_row_def)

lemma pending_id_key [simp]: "pending_id e (p\<lparr>pd_delta := x\<rparr>) = pending_id e p"
  "pending_id e (QuotaKey.extend (key_of d) m) = pending_id e d"
  by (simp_all add: pending_id_def)

section \<open>The service never counts more than it accepted\<close>

lemma row_sum_upsert:
  "row_sum e cid (upsert now rows p) = row_sum e cid rows +
     (if pd_environment p = e \<and> quotaKeyString p = cid then pd_delta p else 0)"
  by (induction rows) (auto simp: row_sum_def dest: same_row_keys)

lemma row_sum_upserts: "row_sum e cid (foldl (upsert now) rows ps) = row_sum e cid rows + pending_sum e cid ps"
  by (induction ps arbitrary: rows) (auto simp: row_sum_upsert pending_sum_def)

lemma upsert_nonneg:
  "list_all (\<lambda>r. 0 \<le> ur_count r) rows \<Longrightarrow> 0 \<le> pd_delta p \<Longrightarrow> list_all (\<lambda>r. 0 \<le> ur_count r) (upsert now rows p)"
  by (induction rows) auto

lemma upserts_nonneg:
  "list_all (\<lambda>r. 0 \<le> ur_count r) rows \<Longrightarrow> list_all (\<lambda>p. 0 \<le> pd_delta p) ps \<Longrightarrow>
   list_all (\<lambda>r. 0 \<le> ur_count r) (foldl (upsert now) rows ps)"
  by (induction ps arbitrary: rows) (auto simp: upsert_nonneg)

lemma row_sum_nonneg: "list_all (\<lambda>r. 0 \<le> ur_count r) rows \<Longrightarrow> 0 \<le> row_sum e cid rows"
  by (induction rows) (auto simp: row_sum_def)

lemma row_sum_filter: "list_all (\<lambda>r. 0 \<le> ur_count r) rows \<Longrightarrow> row_sum e cid (filter P rows) \<le> row_sum e cid rows"
  by (induction rows) (auto simp: row_sum_def)

lemma row_sum_member:
  "list_all (\<lambda>r. 0 \<le> ur_count r) rows \<Longrightarrow> r \<in> set rows \<Longrightarrow> ur_count r \<le> row_sum (ur_environment r) (quotaKeyString r) rows"
proof (induction rows)
  case (Cons x rows)
  then show ?case using row_sum_nonneg [of rows "ur_environment r" "quotaKeyString r"] by (auto simp: row_sum_def)
qed simp

lemma pending_sum_nonneg: "list_all (\<lambda>p. 0 \<le> pd_delta p) ps \<Longrightarrow> 0 \<le> pending_sum e cid ps"
  by (induction ps) (auto simp: pending_sum_def)

lemma pending_sum_set:
  assumes "distinct (mkeys m)"
  shows "pending_sum e cid (mvalues (mset_key pid p m)) =
    pending_sum e cid (mvalues m)
    - (case map_of m pid of None \<Rightarrow> 0 | Some q \<Rightarrow> if pd_environment q = e \<and> quotaKeyString q = cid then pd_delta q else 0)
    + (if pd_environment p = e \<and> quotaKeyString p = cid then pd_delta p else 0)"
  using assms by (induction m) (auto simp: pending_sum_def split: option.splits)

lemma service_inv_nonneg: "service_inv s \<Longrightarrow> list_all (\<lambda>p. 0 \<le> pd_delta p) (mvalues (qs_pending s))"
  by (auto simp: service_inv_def list_all_iff)

lemma service_inv_get:
  "service_inv s \<Longrightarrow> map_of (qs_pending s) pid = Some p \<Longrightarrow>
   pid = pending_id (pd_environment p) p \<and> CHR ''|'' \<notin> set (pd_environment p) \<and> 0 \<le> pd_delta p"
  by (auto simp: service_inv_def list_all_iff dest!: map_of_SomeD)

lemma list_all_set: "list_all P m \<Longrightarrow> P (k, v) \<Longrightarrow> list_all P (mset_key k v m)"
  by (induction m) auto

lemma accept_one_spec:
  assumes "service_inv s" "CHR ''|'' \<notin> set e"
  shows "service_inv (accept_one e s d) \<and>
    service_sum (accept_one e s d) e' cid \<le> service_sum s e' cid + (if e' = e then positive_for cid [d] else 0)"
proof (cases "qd_count d \<le> 0 \<or> \<not> isScope (qk_scopeKind d)")
  case True
  then show ?thesis using assms by (auto simp: accept_one_def positive_for_def reported_for_def)
next
  case False
  let ?pid = "pending_id e d"
  have d: "distinct (mkeys (qs_pending s))" using assms(1) by (simp add: service_inv_def)
  show ?thesis
  proof (cases "map_of (qs_pending s) ?pid")
    case None
    with False assms d show ?thesis
      by (auto simp: accept_one_def Let_def service_inv_def service_sum_def pending_sum_set distinct_set
          positive_for_def reported_for_def intro!: list_all_set)
  next
    case (Some p)
    from service_inv_get [OF assms(1) Some] have p: "?pid = pending_id (pd_environment p) p"
      "CHR ''|'' \<notin> set (pd_environment p)" "0 \<le> pd_delta p" by auto
    from pending_id_inj [OF p(1) assms(2) p(2)] have "e = pd_environment p" "quotaKeyString d = quotaKeyString p" by auto
    with Some False assms d p show ?thesis
      by (auto simp: accept_one_def Let_def service_inv_def service_sum_def pending_sum_set distinct_set
          positive_for_def reported_for_def intro!: list_all_set)
  qed
qed

lemma positive_for_Cons: "positive_for cid (d # ds) = positive_for cid [d] + positive_for cid ds"
  by (simp add: positive_for_def reported_for_def)

lemma accept_spec:
  assumes "service_inv s" "CHR ''|'' \<notin> set e"
  shows "service_inv (accept s e ds) \<and>
    service_sum (accept s e ds) e' cid \<le> service_sum s e' cid + (if e' = e then positive_for cid ds else 0)"
  using assms(1) unfolding accept_def
proof (induction ds arbitrary: s)
  case Nil
  then show ?case by (simp add: positive_for_def reported_for_def)
next
  case (Cons d ds)
  from accept_one_spec [OF Cons.prems assms(2), of d e' cid] Cons.IH [of "accept_one e s d"]
  show ?case by (auto simp: positive_for_Cons [of cid d ds])
qed

text \<open>Totals that stay below a bound per key.\<close>

definition totals_below :: "(string \<Rightarrow> int) \<Rightarrow> (string, QuotaAggregate) jsmap \<Rightarrow> bool" where
  "totals_below R t \<longleftrightarrow> list_all (\<lambda>(k, a). quotaKeyString a = k \<and> qa_count a \<le> R k) t"

lemma totals_below_mono: "totals_below R t \<Longrightarrow> (\<And>k. R k \<le> R' k) \<Longrightarrow> totals_below R' t"
  unfolding totals_below_def list_all_iff by (force intro: order_trans)

lemma row_totals_below:
  assumes "\<And>r. r \<in> set rows \<Longrightarrow> ur_count r \<le> R (quotaKeyString r)" "totals_below R t"
  shows "totals_below R (foldl (row_total now) t rows)"
  using assms
proof (induction rows arbitrary: t)
  case (Cons r rows)
  have "totals_below R (row_total now t r)"
    using Cons.prems by (auto simp: row_total_def Let_def totals_below_def intro!: list_all_set)
  with Cons show ?case by simp
qed simp

lemma pending_total_below:
  assumes "totals_below R t" "0 \<le> pd_delta p" "\<And>k. 0 \<le> R k"
  shows "totals_below (\<lambda>k. R k + pending_sum e k [p]) (pending_total e n t p)"
proof (cases "pd_environment p = e")
  case False
  with assms(1) show ?thesis by (simp add: pending_total_def pending_sum_def)
next
  case True
  have up: "totals_below (\<lambda>k. R k + pending_sum e k [p]) t"
    using assms(2) by (intro totals_below_mono [OF assms(1)]) (simp add: pending_sum_def)
  show ?thesis
  proof (cases "map_of t (quotaKeyString p)")
    case None
    with True up assms(3) show ?thesis
      by (auto simp: pending_total_def Let_def totals_below_def pending_sum_def intro!: list_all_set)
  next
    case (Some a)
    then have "quotaKeyString a = quotaKeyString p" "qa_count a \<le> R (quotaKeyString p)"
      using assms(1) by (auto simp: totals_below_def list_all_iff dest!: map_of_SomeD)
    with True up Some show ?thesis
      by (auto simp: pending_total_def Let_def totals_below_def pending_sum_def intro!: list_all_set)
  qed
qed

lemma pending_totals_below:
  assumes "totals_below R t" "list_all (\<lambda>p. 0 \<le> pd_delta p) ps" "\<And>k. 0 \<le> R k"
  shows "totals_below (\<lambda>k. R k + pending_sum e k ps) (foldl (pending_total e n) t ps)"
  using assms
proof (induction ps arbitrary: t R)
  case Nil
  then show ?case by (simp add: pending_sum_def)
next
  case (Cons p ps)
  have split: "pending_sum e k (p # ps) = pending_sum e k [p] + pending_sum e k ps" for k by (simp add: pending_sum_def)
  have "totals_below (\<lambda>k. R k + pending_sum e k [p]) (pending_total e n t p)"
    using Cons.prems by (intro pending_total_below) auto
  moreover have "0 \<le> R k + pending_sum e k [p]" for k
    using Cons.prems pending_sum_nonneg [of "[p]" e k] by simp
  ultimately show ?case
    using Cons.IH [of "\<lambda>k. R k + pending_sum e k [p]" "pending_total e n t p"] Cons.prems(2)
    by (simp add: split add.assoc)
qed

lemma aggregatesFor_below:
  assumes "service_inv s" "a \<in> set (aggregatesFor s e now)"
  shows "qa_count a \<le> service_sum s e (quotaKeyString a)"
proof -
  let ?R = "\<lambda>k. row_sum e k (qs_rows s)"
  have nn: "list_all (\<lambda>r. 0 \<le> ur_count r) (qs_rows s)" using assms(1) by (simp add: service_inv_def)
  have "ur_count r \<le> ?R (quotaKeyString r)" if "r \<in> set (recent_rows s e)" for r
    using row_sum_member [OF nn, of r] that by (auto simp: recent_rows_def dest!: in_set_takeD)
  then have "totals_below ?R (foldl (row_total now) [] (recent_rows s e))"
    by (intro row_totals_below) (auto simp: totals_below_def)
  from pending_totals_below [OF this service_inv_nonneg [OF assms(1)] row_sum_nonneg [OF nn], of e "qs_maxEntries s"]
  show ?thesis using assms(2)
    by (auto simp: aggregatesFor_def Let_def totals_below_def service_sum_def list_all_iff)
qed

lemma flush_spec:
  assumes "service_inv s"
  shows "service_inv (snd (flush s db_ok now)) \<and> service_sum (snd (flush s db_ok now)) e cid \<le> service_sum s e cid \<and>
    (db_ok \<longrightarrow> service_sum (snd (flush s db_ok now)) e cid = service_sum s e cid)"
proof -
  have "service_inv (snd (flush s db_ok now))"
    using assms service_inv_nonneg [OF assms]
    by (auto simp: flush_def Let_def service_inv_def upserts_nonneg)
  moreover have "0 \<le> pending_sum e cid (mvalues (qs_pending s))" by (intro pending_sum_nonneg service_inv_nonneg assms)
  ultimately show ?thesis
    by (auto simp: flush_def Let_def service_sum_def row_sum_upserts pending_sum_def)
qed

lemma service_sweep_spec:
  assumes "service_inv s"
  shows "service_inv (snd (service_sweep s now)) \<and> service_sum (snd (service_sweep s now)) e cid \<le> service_sum s e cid"
  using assms row_sum_filter [of "qs_rows s"]
  by (auto simp: service_sweep_def service_inv_def service_sum_def list_all_iff)

section \<open>The fleet never counts more than it allowed\<close>

definition in_flight :: "fleet \<Rightarrow> string \<Rightarrow> string \<Rightarrow> int" where
  "in_flight f e cid = sum_list (map (\<lambda>(i, ds). if env_of f i = e then positive_for cid ds else 0) (fl_reports f))"

definition held :: "fleet \<Rightarrow> string \<Rightarrow> string \<Rightarrow> int" where
  "held f e cid = sum_list (map (\<lambda>(e', qc). if e' = e then delta_of qc cid else 0) (fl_instances f))"

definition fleet_inv :: "fleet \<Rightarrow> bool" where
  "fleet_inv f \<longleftrightarrow>
     list_all (\<lambda>(e, qc). CHR ''|'' \<notin> set e \<and> quota_inv qc) (fl_instances f) \<and>
     list_all (\<lambda>(i, _). i < length (fl_instances f)) (fl_reports f) \<and>
     list_all (\<lambda>(i, _). i < length (fl_instances f)) (fl_replies f) \<and>
     service_inv (fl_service f) \<and>
     (\<forall>e cid. fl_accepted f e cid + in_flight f e cid + held f e cid \<le> fl_admitted f e cid \<and>
        service_sum (fl_service f) e cid \<le> fl_accepted f e cid \<and> 0 \<le> fl_accepted f e cid) \<and>
     (\<forall>i<length (fl_instances f). \<forall>cid. aggregate_of (counters_of f i) cid \<le> fl_accepted f (env_of f i) cid) \<and>
     list_all (\<lambda>(i, as). list_all (\<lambda>a. qa_count a \<le> fl_accepted f (env_of f i) (quotaKeyString a)) as) (fl_replies f)"

lemma sum_list_update_int: "i < length xs \<Longrightarrow> sum_list (xs[i := x]) = sum_list xs - xs ! i + (x :: int)"
  by (induction xs arbitrary: i) (auto simp: nth_Cons split: nat.splits)

lemma sum_list_drop_nth: "n < length xs \<Longrightarrow> sum_list (drop_nth n xs) = sum_list xs - (xs ! n :: int)"
proof -
  assume n: "n < length xs"
  have "sum_list (take n xs @ xs ! n # drop (Suc n) xs) = sum_list xs" by (simp only: id_take_nth_drop [OF n, symmetric])
  then show ?thesis by (simp add: drop_nth_def)
qed

lemma map_drop_nth: "map f (drop_nth n xs) = drop_nth n (map f xs)"
  by (simp add: drop_nth_def take_map drop_map)

lemma set_drop_nth: "x \<in> set (drop_nth n xs) \<Longrightarrow> x \<in> set xs"
  by (auto simp: drop_nth_def dest: in_set_takeD in_set_dropD)

lemma list_all_drop_nth: "list_all P xs \<Longrightarrow> list_all P (drop_nth n xs)"
  by (auto simp: list_all_iff dest: set_drop_nth)

lemma set_counters_env [simp]: "env_of (set_counters f i qc) j = env_of f j"
  by (cases "i < length (fl_instances f)"; cases "i = j"; simp add: set_counters_def list_update_beyond)

lemma set_counters_fields [simp]:
  "length (fl_instances (set_counters f i qc)) = length (fl_instances f)"
  "fl_reports (set_counters f i qc) = fl_reports f" "fl_replies (set_counters f i qc) = fl_replies f"
  "fl_service (set_counters f i qc) = fl_service f" "fl_admitted (set_counters f i qc) = fl_admitted f"
  "fl_accepted (set_counters f i qc) = fl_accepted f"
  by (simp_all add: set_counters_def)

lemma counters_set_counters:
  "i < length (fl_instances f) \<Longrightarrow> counters_of (set_counters f i qc) j = (if j = i then qc else counters_of f j)"
  by (simp add: set_counters_def)

lemma held_set_counters:
  assumes "i < length (fl_instances f)"
  shows "held (set_counters f i qc) e cid =
    held f e cid + (if env_of f i = e then delta_of qc cid - delta_of (counters_of f i) cid else 0)"
  using assms
  by (auto simp: held_def set_counters_def map_update sum_list_update_int nth_map case_prod_beta)

lemma positive_for_nonneg: "0 \<le> positive_for cid ds"
  by (induction ds) (auto simp: positive_for_def reported_for_def)

lemma in_flight_drop: "in_flight (f\<lparr>fl_reports := drop_nth n (fl_reports f)\<rparr>) e cid \<le> in_flight f e cid"
proof (cases "n < length (fl_reports f)")
  case True
  let ?g = "\<lambda>(i, ds). if env_of f i = e then positive_for cid ds else 0"
  have "0 \<le> ?g (fl_reports f ! n)" using positive_for_nonneg by (auto split: prod.splits)
  then show ?thesis
    using True sum_list_drop_nth [of n "map ?g (fl_reports f)"] by (simp add: in_flight_def map_drop_nth)
qed (simp add: drop_nth_def in_flight_def)

lemma fleet_invD:
  assumes "fleet_inv f"
  shows "i < length (fl_instances f) \<Longrightarrow> quota_inv (counters_of f i)"
    and "i < length (fl_instances f) \<Longrightarrow> CHR ''|'' \<notin> set (env_of f i)"
    and "service_inv (fl_service f)"
    and "fl_accepted f e cid + in_flight f e cid + held f e cid \<le> fl_admitted f e cid"
    and "service_sum (fl_service f) e cid \<le> fl_accepted f e cid" "0 \<le> fl_accepted f e cid"
    and "i < length (fl_instances f) \<Longrightarrow> aggregate_of (counters_of f i) cid \<le> fl_accepted f (env_of f i) cid"
    and "(i, as) \<in> set (fl_replies f) \<Longrightarrow> a \<in> set as \<Longrightarrow> qa_count a \<le> fl_accepted f (env_of f i) (quotaKeyString a)"
    and "(i, as) \<in> set (fl_replies f) \<Longrightarrow> i < length (fl_instances f)"
    and "(i, ds) \<in> set (fl_reports f) \<Longrightarrow> i < length (fl_instances f)"
  using assms by (auto simp: fleet_inv_def list_all_iff dest: nth_mem) (fastforce dest: nth_mem)+

lemma instances_set_counters:
  assumes "list_all (\<lambda>(e, qc). CHR ''|'' \<notin> set e \<and> quota_inv qc) (fl_instances f)" "quota_inv qc" "i < length (fl_instances f)"
  shows "list_all (\<lambda>(e, qc). CHR ''|'' \<notin> set e \<and> quota_inv qc) (fl_instances (set_counters f i qc))"
proof -
  have "CHR ''|'' \<notin> set (env_of f i)" using assms(1,3) by (auto simp: list_all_length case_prod_beta)
  then show ?thesis using assms set_update_subset_insert [of "fl_instances f" i "(env_of f i, qc)"]
    by (auto simp: set_counters_def list_all_iff)
qed

lemma in_flight_cong:
  "fl_reports g = fl_reports f \<Longrightarrow> (\<And>i. env_of g i = env_of f i) \<Longrightarrow> in_flight g e cid = in_flight f e cid"
  by (simp add: in_flight_def)

text \<open>New counters for one instance that keep the aggregates justified and hold no more than the counts
  the history allows.\<close>

lemma fleet_inv_counters:
  assumes "fleet_inv f" "i < length (fl_instances f)" "quota_inv qc"
    and "\<And>cid. aggregate_of qc cid \<le> fl_accepted f (env_of f i) cid"
    and "\<And>cid. delta_of qc cid \<le> delta_of (counters_of f i) cid"
  shows "fleet_inv (set_counters f i qc)"
proof -
  let ?f = "set_counters f i qc"
  have fl: "in_flight ?f e cid = in_flight f e cid" for e cid by (rule in_flight_cong) simp_all
  have "fl_accepted f e cid + in_flight f e cid + held ?f e cid \<le> fl_admitted f e cid" for e cid
    using fleet_invD(4) [OF assms(1), of e cid] assms(5) [of cid] by (simp add: held_set_counters [OF assms(2)])
  moreover have "list_all (\<lambda>(e, qc). CHR ''|'' \<notin> set e \<and> quota_inv qc) (fl_instances ?f)"
    using assms by (intro instances_set_counters) (auto simp: fleet_inv_def)
  moreover have "aggregate_of (counters_of ?f j) cid \<le> fl_accepted f (env_of f j) cid" if "j < length (fl_instances f)" for j cid
    using assms(2,4) that fleet_invD(7) [OF assms(1) that] by (simp add: counters_set_counters)
  ultimately show ?thesis using assms(1) by (simp add: fleet_inv_def fl)
qed

lemma fleet_inv_replies:
  assumes "fleet_inv f"
  shows "fleet_inv (f\<lparr>fl_replies := drop_nth n (fl_replies f)\<rparr>)"
proof -
  have "in_flight (f\<lparr>fl_replies := drop_nth n (fl_replies f)\<rparr>) = in_flight f"
    "held (f\<lparr>fl_replies := drop_nth n (fl_replies f)\<rparr>) = held f" by (intro ext; simp add: in_flight_def held_def)+
  with assms show ?thesis by (simp add: fleet_inv_def list_all_drop_nth)
qed

lemma fleet_inv_service:
  assumes "fleet_inv f" "service_inv s" "\<And>e cid. service_sum s e cid \<le> service_sum (fl_service f) e cid"
  shows "fleet_inv (f\<lparr>fl_service := s\<rparr>)"
proof -
  have "in_flight (f\<lparr>fl_service := s\<rparr>) = in_flight f" "held (f\<lparr>fl_service := s\<rparr>) = held f"
    by (intro ext; simp add: in_flight_def held_def)+
  moreover have "service_sum s e cid \<le> fl_accepted f e cid" for e cid
    using assms(3) [of e cid] fleet_invD(5) [OF assms(1), of e cid] by linarith
  ultimately show ?thesis using assms(1,2) by (simp add: fleet_inv_def)
qed

lemma fleet_inv_lose_report:
  assumes "fleet_inv f"
  shows "fleet_inv (f\<lparr>fl_reports := drop_nth n (fl_reports f)\<rparr>)"
proof -
  let ?f = "f\<lparr>fl_reports := drop_nth n (fl_reports f)\<rparr>"
  have "held ?f = held f" by (intro ext) (simp add: held_def)
  moreover have "fl_accepted f e cid + in_flight ?f e cid + held f e cid \<le> fl_admitted f e cid" for e cid
    using fleet_invD(4) [OF assms, of e cid] in_flight_drop [of n f e cid] by linarith
  ultimately show ?thesis using assms by (simp add: fleet_inv_def list_all_drop_nth)
qed

lemma fleet_inv_call:
  assumes "fleet_inv f" "i < length (fl_instances f)"
  shows "fleet_inv (fleet_step f (Call i key calls now))"
proof -
  obtain v qc where r: "check (counters_of f i) key calls now = (v, qc)" by fastforce
  let ?k = "quotaKeyString key" and ?e = "env_of f i" and ?f = "set_counters f i qc"
  define A where "A = (if qv_allowed v then (fl_admitted f)(?e := (fl_admitted f ?e)(?k := fl_admitted f ?e ?k + 1))
    else fl_admitted f)"
  note q = fleet_invD(1) [OF assms]
  have step: "fleet_step f (Call i key calls now) = ?f\<lparr>fl_admitted := A\<rparr>"
    using assms(2) by (simp add: r A_def)
  have delta: "delta_of qc cid \<le> delta_of (counters_of f i) cid + (if qv_allowed v \<and> cid = ?k then 1 else 0)" for cid
    using check_own(1) [OF r] check_other [OF r, of cid] quota_invD(5) [OF q, of cid]
    by (cases "cid = ?k") (auto simp: delta_of_def)
  have agg: "aggregate_of qc cid \<le> fl_accepted f ?e cid" for cid
    using check_own(2) [OF r] check_other [OF r, of cid] fleet_invD(6,7) [OF assms(1)] assms(2)
    by (cases "cid = ?k") (auto simp: aggregate_of_def)
  have held: "held (?f\<lparr>fl_admitted := A\<rparr>) = held ?f" by (intro ext) (simp add: held_def)
  have fl: "in_flight (?f\<lparr>fl_admitted := A\<rparr>) e cid = in_flight f e cid" for e cid by (rule in_flight_cong) simp_all
  have "fl_accepted f e cid + in_flight f e cid + held ?f e cid \<le> A e cid" for e cid
    using fleet_invD(4) [OF assms(1), of e cid] delta [of cid] by (auto simp: held_set_counters [OF assms(2)] A_def)
  moreover have "list_all (\<lambda>(e, qc). CHR ''|'' \<notin> set e \<and> quota_inv qc) (fl_instances ?f)"
    using assms check_inv [OF q r] by (intro instances_set_counters) (auto simp: fleet_inv_def)
  moreover have "aggregate_of (counters_of ?f j) cid \<le> fl_accepted f (env_of f j) cid" if "j < length (fl_instances f)" for j cid
    using assms(2) agg that fleet_invD(7) [OF assms(1) that] by (simp add: counters_set_counters)
  ultimately show ?thesis unfolding step using assms(1) by (simp add: fleet_inv_def held fl)
qed

lemma reported_positive: "(\<And>d. d \<in> set ds \<Longrightarrow> 0 < qd_count d) \<Longrightarrow> positive_for cid ds = reported_for cid ds"
  by (simp add: positive_for_def filter_True)

lemma take_loop_positive:
  "take_loop n m = (ds, m') \<Longrightarrow> (\<And>k c. (k, c) \<in> set m \<Longrightarrow> 0 \<le> ctr_delta c) \<Longrightarrow> d \<in> set ds \<Longrightarrow> 0 < qd_count d"
proof (induction n m arbitrary: ds m' rule: take_loop.induct)
  case (2 pushed cid c rest)
  have c: "0 \<le> ctr_delta c" using 2(4) by auto
  show ?case
    using 2(1) 2(2) 2(3,4,5) c by (cases "ctr_delta c = 0"; cases "MAX_QUOTA_ENTRIES \<le> pushed") (fastforce split: prod.splits)+
qed simp

lemma takeDeltas_positive:
  assumes "quota_inv qc" "takeDeltas qc = (ds, qc')"
  shows "positive_for cid ds = reported_for cid ds"
proof (rule reported_positive)
  obtain m where t: "take_loop 0 (qc_counters qc) = (ds, m)" using assms(2) by (auto simp: takeDeltas_def split: prod.splits)
  fix d assume "d \<in> set ds"
  from t _ this show "0 < qd_count d"
  proof (rule take_loop_positive)
    fix k c assume "(k, c) \<in> set (qc_counters qc)"
    then have "map_of (qc_counters qc) k = Some c" using quota_invD(1) [OF assms(1)] by (simp add: map_of_is_SomeI)
    with quota_invD(4) [OF assms(1)] show "0 \<le> ctr_delta c" by blast
  qed
qed

lemma fleet_inv_report:
  assumes "fleet_inv f" "i < length (fl_instances f)"
  shows "fleet_inv (fleet_step f (Report i))"
proof -
  obtain ds qc where r: "takeDeltas (counters_of f i) = (ds, qc)" by fastforce
  let ?e = "env_of f i" and ?f = "set_counters f i qc"
  define R where "R = fl_reports f @ [(i, ds)]"
  note q = fleet_invD(1) [OF assms]
  note T = takeDeltas_spec [OF q r]
  have step: "fleet_step f (Report i) = ?f\<lparr>fl_reports := R\<rparr>" using assms(2) by (simp add: r R_def)
  have held: "held (?f\<lparr>fl_reports := R\<rparr>) = held ?f" by (intro ext) (simp add: held_def)
  have fl: "in_flight (?f\<lparr>fl_reports := R\<rparr>) e cid = in_flight f e cid + (if ?e = e then reported_for cid ds else 0)" for e cid
    by (simp add: in_flight_def R_def takeDeltas_positive [OF q r])
  have "fl_accepted f e cid + in_flight (?f\<lparr>fl_reports := R\<rparr>) e cid + held ?f e cid \<le> fl_admitted f e cid" for e cid
    using fleet_invD(4) [OF assms(1), of e cid] T(1) [of cid] by (simp add: fl held_set_counters [OF assms(2)])
  moreover have "list_all (\<lambda>(e, qc). CHR ''|'' \<notin> set e \<and> quota_inv qc) (fl_instances ?f)"
    using assms T(4) by (intro instances_set_counters) (auto simp: fleet_inv_def)
  moreover have "aggregate_of (counters_of ?f j) cid \<le> fl_accepted f (env_of f j) cid" if "j < length (fl_instances f)" for j cid
    using assms(2) that fleet_invD(7) [OF assms(1) that] T(2) by (auto simp: counters_set_counters)
  moreover have "list_all (\<lambda>(j, _). j < length (fl_instances f)) R"
    using assms by (simp add: R_def fleet_inv_def)
  ultimately show ?thesis unfolding step using assms by (simp add: fleet_inv_def held)
qed

lemma fleet_inv_arrive:
  assumes "fleet_inv f" "n < length (fl_reports f)"
  shows "fleet_inv (fleet_step f (Arrive n now))"
proof -
  obtain i ds where r: "fl_reports f ! n = (i, ds)" by fastforce
  let ?e = "env_of f i"
  define s where "s = accept (fl_service f) ?e ds"
  define C where "C = (fl_accepted f)(?e := (\<lambda>cid. fl_accepted f ?e cid + positive_for cid ds))"
  define P where "P = fl_replies f @ [(i, aggregatesFor s ?e now)]"
  let ?f = "f\<lparr>fl_service := s, fl_reports := drop_nth n (fl_reports f), fl_replies := P, fl_accepted := C\<rparr>"
  have step: "fleet_step f (Arrive n now) = ?f" using assms(2) by (simp add: r s_def C_def P_def Let_def)
  have i: "i < length (fl_instances f)" using assms(2) r nth_mem [of n "fl_reports f"] fleet_invD(10) [OF assms(1)] by auto
  note A = accept_spec [OF fleet_invD(3) [OF assms(1)] fleet_invD(2) [OF assms(1) i], of ds, folded s_def]
  have grow: "fl_accepted f e cid \<le> C e cid" for e cid using positive_for_nonneg [of cid ds] by (simp add: C_def)
  have held: "held ?f = held f" by (intro ext) (simp add: held_def)
  have fl: "in_flight ?f e cid = in_flight f e cid - (if ?e = e then positive_for cid ds else 0)" for e cid
    using assms(2) r by (simp add: in_flight_def map_drop_nth sum_list_drop_nth)
  have 1: "C e cid + in_flight ?f e cid + held f e cid \<le> fl_admitted f e cid" for e cid
    using fleet_invD(4) [OF assms(1), of e cid] by (simp add: fl) (simp add: C_def)
  have 2: "service_sum s e cid \<le> C e cid" for e cid
    using A [of e cid] fleet_invD(5) [OF assms(1), of e cid] by (auto simp: C_def)
  have 3: "aggregate_of (counters_of f j) cid \<le> C (env_of f j) cid" if "j < length (fl_instances f)" for j cid
    using fleet_invD(7) [OF assms(1) that, of cid] grow [of "env_of f j" cid] by linarith
  have 4: "qa_count a \<le> C (env_of f j) (quotaKeyString a)" if "(j, as) \<in> set P" "a \<in> set as" for j as a
    using that aggregatesFor_below [of s a ?e now] A 2 [of ?e] fleet_invD(8) [OF assms(1), of j as a]
      grow [of "env_of f j" "quotaKeyString a"]
    by (auto simp: P_def intro: order_trans)
  have 5: "0 \<le> C e cid" for e cid using fleet_invD(6) [OF assms(1), of e cid] grow [of e cid] by linarith
  have 6: "list_all (\<lambda>(j, _). j < length (fl_instances f)) P" using assms(1) i by (simp add: P_def fleet_inv_def)
  have 7: "list_all (\<lambda>(j, as). list_all (\<lambda>a. qa_count a \<le> C (env_of f j) (quotaKeyString a)) as) P"
    using 4 by (fastforce simp: list_all_iff)
  show ?thesis unfolding step
    using assms(1) 1 2 3 5 6 7 A by (simp add: fleet_inv_def held list_all_drop_nth)
qed

lemma fleet_step_inv [inv_pres]:
  assumes "fleet_inv f"
  shows "fleet_inv (fleet_step f ev)"
proof (cases ev)
  case (Call i key calls now)
  then show ?thesis using fleet_inv_call [OF assms] assms by (cases "i < length (fl_instances f)") auto
next
  case (Report i)
  then show ?thesis using fleet_inv_report [OF assms] assms by (cases "i < length (fl_instances f)") auto
next
  case (Arrive n now)
  then show ?thesis using fleet_inv_arrive [OF assms] assms by (cases "n < length (fl_reports f)") auto
next
  case (LoseReport n)
  then show ?thesis using fleet_inv_lose_report [OF assms] by simp
next
  case (Reply n now)
  show ?thesis
  proof (cases "n < length (fl_replies f)")
    case True
    obtain i as where r: "fl_replies f ! n = (i, as)" by fastforce
    with True have m: "(i, as) \<in> set (fl_replies f)" by (metis nth_mem)
    note i = fleet_invD(9) [OF assms m]
    let ?qc = "applyAggregates (counters_of f i) as now"
    note A = applyAggregates_spec [OF fleet_invD(1) [OF assms i], of as now]
    have "aggregate_of ?qc cid \<le> fl_accepted f (env_of f i) cid" for cid
      using A [of cid] fleet_invD(6) [OF assms, of "env_of f i" cid] fleet_invD(7) [OF assms i, of cid] fleet_invD(8) [OF assms m]
      by auto
    then have "fleet_inv (set_counters f i ?qc)" using A by (intro fleet_inv_counters [OF assms i]) auto
    from fleet_inv_replies [OF this, of n] show ?thesis using Reply True r by simp
  qed (use Reply assms in simp)
next
  case (LoseReply n)
  then show ?thesis using fleet_inv_replies [OF assms] by simp
next
  case (Restart i)
  have n: "quota_inv (new_counters k)" "delta_of (new_counters k) cid = 0" "aggregate_of (new_counters k) cid = 0" for k cid
    by (simp_all add: quota_inv_def delta_of_def aggregate_of_def new_counters_def)
  show ?thesis
  proof (cases "i < length (fl_instances f)")
    case True
    with n quota_invD(5) [OF fleet_invD(1) [OF assms True]] fleet_invD(6) [OF assms]
    have "fleet_inv (set_counters f i (new_counters (qc_maxKeys (counters_of f i))))"
      by (intro fleet_inv_counters [OF assms True]) auto
    with True Restart show ?thesis by simp
  qed (use Restart assms in simp)
next
  case (SweepCounters i now)
  show ?thesis
  proof (cases "i < length (fl_instances f)")
    case True
    note q = fleet_invD(1) [OF assms True]
    have "delta_of (quota_sweep (counters_of f i) now) cid \<le> delta_of (counters_of f i) cid"
      "aggregate_of (quota_sweep (counters_of f i) now) cid \<le> fl_accepted f (env_of f i) cid" for cid
      using quota_sweep_get [OF q, of now cid] quota_invD(5) [OF q, of cid] fleet_invD(6) [OF assms, of "env_of f i" cid] True
        fleet_invD(7) [OF assms True, of cid]
      by (auto simp: delta_of_def aggregate_of_def)
    then have "fleet_inv (set_counters f i (quota_sweep (counters_of f i) now))"
      by (intro fleet_inv_counters [OF assms True] quota_sweep_inv q) auto
    with True SweepCounters show ?thesis by simp
  qed (use SweepCounters assms in simp)
next
  case (Flush db_ok now)
  then show ?thesis using flush_spec [OF fleet_invD(3) [OF assms]] by (auto intro!: fleet_inv_service [OF assms])
next
  case (SweepRows now)
  then show ?thesis using service_sweep_spec [OF fleet_invD(3) [OF assms]] by (auto intro!: fleet_inv_service [OF assms])
next
  case ServiceRestart
  let ?s = "(fl_service f)\<lparr>qs_pending := [], qs_droppedDeltas := 0\<rparr>"
  have "service_inv ?s" using fleet_invD(3) [OF assms] by (simp add: service_inv_def)
  moreover have "service_sum ?s e cid \<le> service_sum (fl_service f) e cid" for e cid
    using pending_sum_nonneg [OF service_inv_nonneg [OF fleet_invD(3) [OF assms]], of e cid]
    by (simp add: service_sum_def) (simp add: pending_sum_def)
  ultimately show ?thesis using ServiceRestart by (auto intro!: fleet_inv_service [OF assms])
qed

interpretation quota_fleet: machine fleet_step fleet_inv
  by unfold_locales (rule fleet_step_inv)

lemma new_fleet_inv:
  assumes "list_all (\<lambda>e. CHR ''|'' \<notin> set e) environments"
  shows "fleet_inv (new_fleet environments maxKeys maxEntries)"
proof -
  have q: "quota_inv (new_counters maxKeys)" "delta_of (new_counters maxKeys) cid = 0"
    "aggregate_of (new_counters maxKeys) cid = 0" for cid
    by (simp_all add: quota_inv_def delta_of_def aggregate_of_def new_counters_def)
  have "held (new_fleet environments maxKeys maxEntries) e cid = 0"
    "in_flight (new_fleet environments maxKeys maxEntries) e cid = 0" for e cid
    using q(2) by (induction environments) (simp_all add: held_def in_flight_def new_fleet_def)
  then show ?thesis using assms q
    by (simp add: fleet_inv_def) (simp add: new_fleet_def new_service_def service_inv_def service_sum_def row_sum_def pending_sum_def list_all_iff)
qed

lemma held_member:
  assumes "fleet_inv f" "i < length (fl_instances f)"
  shows "delta_of (counters_of f i) cid \<le> held f (env_of f i) cid"
proof -
  let ?xs = "map (\<lambda>(e', qc). if e' = env_of f i then delta_of qc cid else 0) (fl_instances f)"
  have "0 \<le> x" if "x \<in> set ?xs" for x
    using that fleet_invD(1) [OF assms(1)] by (force simp: in_set_conv_nth case_prod_beta intro: quota_invD(5))
  then have "?xs ! i \<le> sum_list ?xs" using assms(2) by (intro member_le_sum_list) auto
  then show ?thesis using assms(2) by (simp add: held_def case_prod_beta)
qed

lemma in_flight_nonneg: "0 \<le> in_flight f e cid"
  unfolding in_flight_def by (rule sum_list_nonneg) (auto simp: positive_for_nonneg split: if_splits)

lemma fleet_used_bound:
  assumes "fleet_inv f" "i < length (fl_instances f)"
  shows "aggregate_of (counters_of f i) cid + delta_of (counters_of f i) cid \<le> fl_admitted f (env_of f i) cid"
  using fleet_invD(4) [OF assms(1), of "env_of f i" cid] fleet_invD(7) [OF assms, of cid] held_member [OF assms, of cid]
    in_flight_nonneg [of f "env_of f i" cid] by linarith

section \<open>Properties\<close>

text \<open>C8: the fleet never over-counts. Whatever the interleaving of calls, reports, answers, losses,
  restarts, failed writes and sweeps, an instance refuses a call under a quota of \<^verbatim>\<open>calls\<close> only when at
  least that many calls of the key were really allowed in its environment. Environment names do not
  contain the separator of the service's map.\<close>

theorem quota_never_overcounts:
  assumes "list_all (\<lambda>e. CHR ''|'' \<notin> set e) environments"
    and "f = fleet_run (new_fleet environments maxKeys maxEntries) es"
    and "i < length (fl_instances f)"
    and "\<not> qv_allowed (fst (check (counters_of f i) key calls now))"
  shows "calls \<le> fl_admitted f (env_of f i) (quotaKeyString key)"
proof -
  have inv: "fleet_inv f" unfolding assms(2) fleet_run_def by (rule quota_fleet.run_good [OF new_fleet_inv [OF assms(1)]])
  have "calls \<le> aggregate_of (counters_of f i) (quotaKeyString key) + delta_of (counters_of f i) (quotaKeyString key)"
    using check_own(3) [OF prod.collapse [symmetric], of "counters_of f i" key calls now] assms(4) by linarith
  with fleet_used_bound [OF inv assms(3), of "quotaKeyString key"] show ?thesis by linarith
qed

definition sample_key :: QuotaKey where
  "sample_key = \<lparr>qk_subscriptionId = ''s'', qk_scopeKind = ''route'', qk_scopeId = ''r'', qk_periodSec = 60,
     qk_windowStart = ''2024-01-01T00:00:00.000Z''\<rparr>"

lemma sample_scope: "qk_scopeKind (delta_for \<lparr>ctr_delta = d, ctr_aggregate = a, ctr_key = sample_key, ctr_touchedAtMs = n\<rparr>) = ''route''"
  by (simp add: delta_for_def sample_key_def QuotaKey.extend_def)

theorem quota_never_overcounts_witness:
  "1 \<le> fl_admitted (fleet_run (new_fleet [''dev'', ''dev''] 10 10) [Call 0 sample_key 1 5, Report 0, Arrive 0 5, Reply 0 6])
     ''dev'' (quotaKeyString sample_key)"
proof -
  let ?f = "fleet_run (new_fleet [''dev'', ''dev''] 10 10) [Call 0 sample_key 1 5, Report 0, Arrive 0 5, Reply 0 6]"
  have "length (fl_instances ?f) = 2 \<and> env_of ?f 0 = ''dev'' \<and> \<not> qv_allowed (fst (check (counters_of ?f 0) sample_key 1 7))"
    by (simp add: fleet_run_def new_fleet_def new_counters_def new_service_def check_def counter_def verdict_def
        takeDeltas_def accept_def accept_one_def aggregatesFor_def recent_rows_def pending_total_def applyAggregates_def
        apply_one_def set_counters_def drop_nth_def isScope_def sample_scope MAX_QUOTA_ENTRIES_def Let_def)
  then show ?thesis
    using quota_never_overcounts [of "[''dev'', ''dev'']" ?f 10 10 "[Call 0 sample_key 1 5, Report 0, Arrive 0 5, Reply 0 6]" 0 sample_key 1 7]
    by simp
qed

text \<open>An answer never tells an instance more than the service has counted: every aggregate sent is at
  most the written rows of its key plus the counts still pending, and flushing moves counts from the
  one to the other without changing that total for any key when the write succeeds.\<close>

lemma aggregates_justified:
  assumes "list_all (\<lambda>e. CHR ''|'' \<notin> set e) environments"
    and "s = fl_service (fleet_run (new_fleet environments maxKeys maxEntries) es)"
  shows "list_all (\<lambda>a. qa_count a \<le> service_sum s e (quotaKeyString a)) (aggregatesFor s e now) \<and>
    service_sum (snd (flush s True now)) e cid = service_sum s e cid"
proof -
  have "fleet_inv (fleet_run (new_fleet environments maxKeys maxEntries) es)"
    unfolding fleet_run_def by (rule quota_fleet.run_good [OF new_fleet_inv [OF assms(1)]])
  from fleet_invD(3) [OF this] have "service_inv s" by (simp add: assms(2))
  with aggregatesFor_below [OF this] flush_spec [OF this] show ?thesis by (auto simp: list_all_iff)
qed

lemma aggregates_justified_example:
  "service_sum (snd (flush (accept (new_service 5) ''dev'' []) True 9)) ''dev'' ''k'' = 0"
proof -
  have "fl_service (fleet_run (new_fleet [''dev''] 10 5) []) = accept (new_service 5) ''dev'' []"
    by (simp add: fleet_run_def new_fleet_def accept_def)
  from aggregates_justified [of "[''dev'']" _ 10 5 "[]" "''dev''" 9 "''k''", OF _ this [symmetric]] show ?thesis
    by (simp add: service_sum_def accept_def new_service_def row_sum_def pending_sum_def)
qed

end
