(* ===== verification/Json.thy ===== *)
theory Json
  imports Complex_Main Prelude
begin

text \<open>
  JSON values. The string and number types are parameters: the bounded reader works on code units
  and keeps a number's lexeme, the other components use \<^typ>\<open>string\<close> and rational numbers (a finite
  JavaScript number is a rational). A member read from something that is not an object, and an
  absent member, are \<^verbatim>\<open>None\<close> (\<^verbatim>\<open>undefined\<close>).
\<close>

datatype ('s, 'n) json =
    JNull
  | JBool bool
  | JNum 'n
  | JStr 's
  | JArr "('s, 'n) json list"
  | JObj "('s \<times> ('s, 'n) json) list"

type_synonym jsval = "(string, rat) json"

fun member :: "('s, 'n) json \<Rightarrow> 's \<Rightarrow> ('s, 'n) json option" where
  "member (JObj kvs) k = map_of kvs k"
| "member _ k = None"

fun as_string :: "('s, 'n) json option \<Rightarrow> 's option" where
  "as_string (Some (JStr s)) = Some s"
| "as_string _ = None"

fun as_number :: "('s, 'n) json option \<Rightarrow> 'n option" where
  "as_number (Some (JNum n)) = Some n"
| "as_number _ = None"

fun as_array :: "('s, 'n) json option \<Rightarrow> ('s, 'n) json list option" where
  "as_array (Some (JArr xs)) = Some xs"
| "as_array _ = None"

definition is_integer :: "rat \<Rightarrow> bool" where
  "is_integer q \<longleftrightarrow> of_int \<lfloor>q\<rfloor> = q"

end
