(* ===== verification/Backend.thy ===== *)
theory Backend
  imports Json Concurrency
begin

text \<open>
  \<^verbatim>\<open>shared/backend.ts\<close>: the backend pool, the order a request tries its backends in, and the circuit
  breaker. The breaker's entries are its \<^verbatim>\<open>Map\<close>; the clock is an explicit argument in milliseconds;
  \<^verbatim>\<open>settings\<close> that are \<^verbatim>\<open>null\<close> (no breaker unit) are \<^verbatim>\<open>None\<close>.

  Shown here: the selection order lists every backend of the pool once, healthy ones first, and
  rotates fairly; an open breaker refuses until its interval has passed and then admits a probe; the
  probe counter stays within its ceiling; enough failures inside the window trip a closed breaker.
\<close>

section \<open>The pool\<close>

definition MAX_POOL_SIZE :: nat where "MAX_POOL_SIZE = 8"

definition MAX_WEIGHT :: rat where "MAX_WEIGHT = 10"

record BackendEntry =
  be_url :: string
  be_weight :: "rat option"

datatype pool_rule = RoundRobin | Failover

record BackendPool =
  bp_pool :: "BackendEntry list"
  bp_rule :: pool_rule
  bp_clientCertRef :: "string option"

definition read_entry :: "jsval \<Rightarrow> BackendEntry option" where
  "read_entry entry =
     (let url = (case as_string (member entry ''url'') of Some u \<Rightarrow> u | None \<Rightarrow> []);
          weight = as_number (member entry ''weight'')
      in if url \<noteq> [] then Some \<lparr>be_url = url, be_weight = weight\<rparr> else None)"

definition readBackendPool :: "jsval \<Rightarrow> BackendPool" where
  "readBackendPool raw = (case as_array (member raw ''pool'') of
       Some entries \<Rightarrow>
         \<lparr>bp_pool = List.map_filter read_entry entries,
          bp_rule = (if member raw ''rule'' = Some (JStr ''round-robin'') then RoundRobin else Failover),
          bp_clientCertRef = as_string (member raw ''clientCertRef'')\<rparr>
     | None \<Rightarrow>
         (let urls = (case as_array (member raw ''urls'') of
                Some us \<Rightarrow> List.map_filter (\<lambda>u. as_string (Some u)) us | None \<Rightarrow> [])
          in \<lparr>bp_pool = map (\<lambda>u. \<lparr>be_url = u, be_weight = None\<rparr>) urls, bp_rule = Failover,
              bp_clientCertRef = None\<rparr>))"

definition rotation_weight :: "pool_rule \<Rightarrow> BackendEntry \<Rightarrow> rat" where
  "rotation_weight rule entry =
     (if rule = RoundRobin
      then min (max (case be_weight entry of Some w \<Rightarrow> w | None \<Rightarrow> 1) 1) MAX_WEIGHT else 1)"

text \<open>\<^verbatim>\<open>for (let i = 0; i < weight; i++)\<close> runs \<^verbatim>\<open>ceil(weight)\<close> times.\<close>

definition expand :: "pool_rule \<Rightarrow> BackendEntry list \<Rightarrow> BackendEntry list" where
  "expand rule pool = concat (map (\<lambda>e. replicate (nat \<lceil>rotation_weight rule e\<rceil>) e) pool)"

fun split_distinct :: "(string \<Rightarrow> bool) \<Rightarrow> string list \<Rightarrow> BackendEntry list
    \<Rightarrow> BackendEntry list \<times> BackendEntry list" where
  "split_distinct isHealthy seen [] = ([], [])"
| "split_distinct isHealthy seen (entry # rest) =
     (if be_url entry \<in> set seen then split_distinct isHealthy seen rest
      else (case split_distinct isHealthy (be_url entry # seen) rest of (healthy, unhealthy) \<Rightarrow>
        if isHealthy (be_url entry) then (entry # healthy, unhealthy) else (healthy, entry # unhealthy)))"

definition selectionOrder :: "BackendEntry list \<Rightarrow> pool_rule \<Rightarrow> nat \<Rightarrow> (string \<Rightarrow> bool) \<Rightarrow> BackendEntry list" where
  "selectionOrder pool rule cursor isHealthy =
     (let expanded = expand rule pool
      in if expanded = [] then []
         else
           (let offset = cursor mod length expanded;
                ordered = (if rule = Failover then expanded else drop offset expanded @ take offset expanded)
            in case split_distinct isHealthy [] ordered of (healthy, unhealthy) \<Rightarrow> healthy @ unhealthy))"

section \<open>The circuit breaker\<close>

datatype BreakerState = BClosed | BOpen | BHalfOpen

record BreakerSettings =
  bs_failures :: nat
  bs_windowSec :: int
  bs_openSec :: int
  bs_halfOpenProbes :: nat

record BreakerEntry =
  bk_failures :: "int list"
  bk_state :: BreakerState
  bk_openedAtMs :: int
  bk_probesInFlight :: nat

type_synonym CircuitBreaker = "(string, BreakerEntry) jsmap"

definition fresh_entry :: BreakerEntry where
  "fresh_entry = \<lparr>bk_failures = [], bk_state = BClosed, bk_openedAtMs = 0, bk_probesInFlight = 0\<rparr>"

definition br_entry :: "CircuitBreaker \<Rightarrow> string \<Rightarrow> BreakerEntry" where
  "br_entry cb key = (case map_of cb key of Some e \<Rightarrow> e | None \<Rightarrow> fresh_entry)"

definition observe :: "BreakerSettings \<Rightarrow> int \<Rightarrow> BreakerEntry \<Rightarrow> BreakerEntry" where
  "observe s now e =
     (if bk_state e = BOpen \<and> bs_openSec s * 1000 \<le> now - bk_openedAtMs e
      then e\<lparr>bk_state := BHalfOpen, bk_probesInFlight := 0\<rparr> else e)"

definition br_state :: "CircuitBreaker \<Rightarrow> string \<Rightarrow> BreakerSettings option \<Rightarrow> int \<Rightarrow> BreakerState \<times> CircuitBreaker" where
  "br_state cb key settings now = (case settings of
       None \<Rightarrow> (BClosed, cb)
     | Some s \<Rightarrow> (case map_of cb key of
          None \<Rightarrow> (BClosed, cb)
        | Some e \<Rightarrow> (let e' = observe s now e in (bk_state e', mset_key key e' cb))))"

definition br_tryAcquire :: "CircuitBreaker \<Rightarrow> string \<Rightarrow> BreakerSettings option \<Rightarrow> int \<Rightarrow> bool \<times> CircuitBreaker" where
  "br_tryAcquire cb key settings now = (case settings of
       None \<Rightarrow> (True, cb)
     | Some s \<Rightarrow> (case br_state cb key settings now of (st, cb) \<Rightarrow>
          if st = BOpen then (False, cb)
          else if st = BHalfOpen then
            (let e = br_entry cb key
             in if bs_halfOpenProbes s \<le> bk_probesInFlight e then (False, cb)
                else (True, mset_key key (e\<lparr>bk_probesInFlight := bk_probesInFlight e + 1\<rparr>) cb))
          else (True, cb)))"

definition br_onSuccess :: "CircuitBreaker \<Rightarrow> string \<Rightarrow> BreakerSettings option \<Rightarrow> CircuitBreaker" where
  "br_onSuccess cb key settings = (case settings of
       None \<Rightarrow> cb
     | Some s \<Rightarrow> (let e = br_entry cb key in
         mset_key key (e\<lparr>bk_probesInFlight := bk_probesInFlight e - 1, bk_failures := [], bk_state := BClosed\<rparr>) cb))"

definition fail_entry :: "BreakerSettings \<Rightarrow> int \<Rightarrow> BreakerEntry \<Rightarrow> BreakerEntry" where
  "fail_entry s now e =
     (let e = e\<lparr>bk_probesInFlight := bk_probesInFlight e - 1\<rparr>
      in if bk_state e = BHalfOpen then e\<lparr>bk_state := BOpen, bk_openedAtMs := now, bk_failures := []\<rparr>
         else
           (let cutoff = now - bs_windowSec s * 1000;
                failures = filter (\<lambda>failedAt. cutoff < failedAt) (bk_failures e) @ [now]
            in if bs_failures s \<le> length failures
               then e\<lparr>bk_state := BOpen, bk_openedAtMs := now, bk_failures := []\<rparr>
               else e\<lparr>bk_failures := failures\<rparr>))"

definition br_onFailure :: "CircuitBreaker \<Rightarrow> string \<Rightarrow> BreakerSettings option \<Rightarrow> int \<Rightarrow> CircuitBreaker" where
  "br_onFailure cb key settings now = (case settings of
       None \<Rightarrow> cb
     | Some s \<Rightarrow> mset_key key (fail_entry s now (br_entry cb key)) cb)"

definition reopensInMs :: "CircuitBreaker \<Rightarrow> string \<Rightarrow> BreakerSettings option \<Rightarrow> int \<Rightarrow> int" where
  "reopensInMs cb key settings now = (case settings of
       None \<Rightarrow> 0
     | Some s \<Rightarrow> (case map_of cb key of
          None \<Rightarrow> 0
        | Some e \<Rightarrow> if bk_state e \<noteq> BOpen then 0
            else max 0 (bs_openSec s * 1000 - (now - bk_openedAtMs e))))"

definition br_snapshot :: "CircuitBreaker \<Rightarrow> (string \<times> BreakerState) list" where
  "br_snapshot cb = map (\<lambda>(k, e). (k, bk_state e)) (filter (\<lambda>(k, e). bk_state e \<noteq> BClosed) cb)"

definition br_sweep :: "CircuitBreaker \<Rightarrow> CircuitBreaker" where
  "br_sweep cb = (if length cb < 10000 then cb
     else filter (\<lambda>(k, e). \<not> (bk_state e = BClosed \<and> bk_failures e = [])) cb)"

section \<open>Selection\<close>

lemma rotation_weight_bounds: "1 \<le> rotation_weight r e \<and> rotation_weight r e \<le> 10"
  by (auto simp: rotation_weight_def MAX_WEIGHT_def)

lemma rotation_count_pos: "0 < nat \<lceil>rotation_weight r e\<rceil>"
  using rotation_weight_bounds [of r e] by (auto simp: less_ceiling_iff)

lemma set_expand [simp]: "set (expand r pool) = set pool"
proof -
  have "set (replicate (nat \<lceil>rotation_weight r e\<rceil>) e) = {e}" for e
    using rotation_count_pos [of r e] by (simp only: set_replicate_conv_if) auto
  then show ?thesis by (simp add: expand_def)
qed

text \<open>The first entry of each URL, in order.\<close>

fun dedupe :: "string list \<Rightarrow> BackendEntry list \<Rightarrow> BackendEntry list" where
  "dedupe seen [] = []"
| "dedupe seen (e # es) = (if be_url e \<in> set seen then dedupe seen es else e # dedupe (be_url e # seen) es)"

lemma split_distinct_dedupe:
  "split_distinct ok seen es =
     (filter (\<lambda>e. ok (be_url e)) (dedupe seen es), filter (\<lambda>e. \<not> ok (be_url e)) (dedupe seen es))"
  by (induction ok seen es rule: split_distinct.induct) auto

lemma dedupe_urls: "be_url ` set (dedupe seen es) = be_url ` set es - set seen"
  by (induction seen es rule: dedupe.induct) auto

lemma dedupe_distinct: "distinct (map be_url (dedupe seen es))"
  by (induction seen es rule: dedupe.induct) (auto simp: dedupe_urls)

lemma dedupe_subset: "set (dedupe seen es) \<subseteq> set es"
  by (induction seen es rule: dedupe.induct) auto

definition rotate_by :: "nat \<Rightarrow> 'a list \<Rightarrow> 'a list" where
  "rotate_by n xs = drop (n mod length xs) xs @ take (n mod length xs) xs"

lemma set_rotate_by [simp]: "set (rotate_by n xs) = set xs"
proof -
  have "set (rotate_by n xs) = set (take (n mod length xs) xs @ drop (n mod length xs) xs)"
    unfolding rotate_by_def set_append by (rule Un_commute)
  then show ?thesis by (simp only: append_take_drop_id)
qed

lemma selectionOrder_eq:
  "selectionOrder pool rule cursor ok =
     (let d = dedupe [] (if rule = Failover then expand rule pool else rotate_by cursor (expand rule pool))
      in filter (\<lambda>e. ok (be_url e)) d @ filter (\<lambda>e. \<not> ok (be_url e)) d)"
  by (simp add: selectionOrder_def Let_def split_distinct_dedupe rotate_by_def)

lemma dedupe_pool:
  assumes "distinct (map be_url pool)"
  shows "dedupe [] (expand Failover pool) = pool"
proof -
  have x: "expand Failover pool = pool" by (induction pool) (auto simp: expand_def rotation_weight_def)
  have "dedupe seen es = es" if "distinct (map be_url es)" "set seen \<inter> be_url ` set es = {}" for seen es
    using that by (induction seen es rule: dedupe.induct) auto
  then show ?thesis using assms x by simp
qed

lemma hd_dedupe: "es \<noteq> [] \<Longrightarrow> hd (dedupe [] es) = hd es"
  by (cases es) auto

lemma hd_rotate_by: "xs \<noteq> [] \<Longrightarrow> n < length xs \<Longrightarrow> hd (rotate_by n xs) = xs ! n"
  by (simp add: rotate_by_def hd_append hd_drop_conv_nth)

section \<open>Breaker lemmas\<close>

definition probes_ok :: "nat \<Rightarrow> string \<Rightarrow> CircuitBreaker \<Rightarrow> bool" where
  "probes_ok n key cb \<longleftrightarrow> bk_probesInFlight (br_entry cb key) \<le> n"

datatype breaker_event = BAcquire string int | BSuccess string | BFailure string int | BState string int

fun breaker_step :: "(string \<Rightarrow> BreakerSettings) \<Rightarrow> CircuitBreaker \<Rightarrow> breaker_event \<Rightarrow> CircuitBreaker" where
  "breaker_step cfg cb (BAcquire k now) = snd (br_tryAcquire cb k (Some (cfg k)) now)"
| "breaker_step cfg cb (BSuccess k) = br_onSuccess cb k (Some (cfg k))"
| "breaker_step cfg cb (BFailure k now) = br_onFailure cb k (Some (cfg k)) now"
| "breaker_step cfg cb (BState k now) = snd (br_state cb k (Some (cfg k)) now)"

lemma br_entry_set [simp]: "br_entry (mset_key k e cb) k' = (if k' = k then e else br_entry cb k')"
  by (simp add: br_entry_def jsmap)

lemma br_state_entry:
  "br_state cb k (Some s) now = (st, cb') \<Longrightarrow>
   st = bk_state (br_entry cb' k) \<and> br_entry cb' k = observe s now (br_entry cb k) \<and>
   (\<forall>k'. k' \<noteq> k \<longrightarrow> br_entry cb' k' = br_entry cb k')"
  by (auto simp: br_state_def Let_def br_entry_def fresh_entry_def observe_def jsmap split: option.splits)

lemma br_tryAcquire_eq:
  "br_tryAcquire cb k (Some s) now = (r, cb') \<Longrightarrow>
   (\<forall>k'. k' \<noteq> k \<longrightarrow> br_entry cb' k' = br_entry cb k') \<and>
   (let e = observe s now (br_entry cb k) in
     (r \<longleftrightarrow> bk_state e = BClosed \<or> bk_state e = BHalfOpen \<and> bk_probesInFlight e < bs_halfOpenProbes s) \<and>
     br_entry cb' k = (if r \<and> bk_state e = BHalfOpen then e\<lparr>bk_probesInFlight := bk_probesInFlight e + 1\<rparr> else e))"
proof -
  assume a: "br_tryAcquire cb k (Some s) now = (r, cb')"
  obtain st cb1 where st: "br_state cb k (Some s) now = (st, cb1)" by fastforce
  from br_state_entry [OF st] a st show ?thesis
    by (cases st) (auto simp: br_tryAcquire_def Let_def split: if_splits)
qed

lemma breaker_step_probes:
  assumes "probes_ok (bs_halfOpenProbes (cfg key)) key cb"
  shows "probes_ok (bs_halfOpenProbes (cfg key)) key (breaker_step cfg cb e)"
proof (cases e)
  case (BAcquire k now)
  obtain r cb' where r: "br_tryAcquire cb k (Some (cfg k)) now = (r, cb')" by fastforce
  from br_tryAcquire_eq [OF r] show ?thesis using assms BAcquire r
    by (cases "k = key") (auto simp: probes_ok_def Let_def observe_def split: if_splits)
next
  case (BState k now)
  obtain r cb' where r: "br_state cb k (Some (cfg k)) now = (r, cb')" by fastforce
  from br_state_entry [OF r] show ?thesis using assms BState r
    by (cases "k = key") (auto simp: probes_ok_def observe_def)
qed (use assms in \<open>auto simp: probes_ok_def br_onSuccess_def br_onFailure_def fail_entry_def Let_def\<close>)

interpretation breaker: machine "breaker_step cfg" "probes_ok (bs_halfOpenProbes (cfg key)) key" for cfg key
  by unfold_locales (rule breaker_step_probes)

text \<open>The probe slots of one half-open entry are a bounded pool.\<close>

definition probe_take :: "BreakerSettings \<Rightarrow> BreakerEntry \<Rightarrow> BreakerEntry option" where
  "probe_take s e = (if bs_halfOpenProbes s \<le> bk_probesInFlight e then None
     else Some (e\<lparr>bk_probesInFlight := bk_probesInFlight e + 1\<rparr>))"

interpretation probe_slots: slot_pool bk_probesInFlight "\<lambda>_. bs_halfOpenProbes s" "probe_take s"
    "\<lambda>e. e\<lparr>bk_probesInFlight := bk_probesInFlight e - 1\<rparr>" "\<lambda>_. True" for s
  by unfold_locales (auto simp: probe_take_def split: if_splits)

lemma failures_accumulate:
  assumes "length (bk_failures e) + length ts < bs_failures s"
    and "bk_state e = BClosed" and "\<forall>t\<in>set ts. \<forall>u\<in>set (bk_failures e) \<union> set ts. t - bs_windowSec s * 1000 < u"
  shows "bk_state (foldl (\<lambda>e t. fail_entry s t e) e ts) = BClosed \<and>
    bk_failures (foldl (\<lambda>e t. fail_entry s t e) e ts) = bk_failures e @ ts"
  using assms
proof (induction ts arbitrary: e)
  case (Cons t ts)
  have keep: "filter (\<lambda>u. t - bs_windowSec s * 1000 < u) (bk_failures e) = bk_failures e"
    using Cons.prems(3) by (auto simp: filter_id_conv)
  have step: "bk_state (fail_entry s t e) = BClosed" "bk_failures (fail_entry s t e) = bk_failures e @ [t]"
    using Cons.prems(1,2) keep by (simp_all add: fail_entry_def Let_def)
  have "bk_state (foldl (\<lambda>e t. fail_entry s t e) (fail_entry s t e) ts) = BClosed \<and>
      bk_failures (foldl (\<lambda>e t. fail_entry s t e) (fail_entry s t e) ts) = bk_failures (fail_entry s t e) @ ts"
    by (rule Cons.IH) (use Cons.prems step in auto)
  with step show ?case by simp
qed simp

section \<open>Properties\<close>

text \<open>The order a request tries backends in lists every backend URL of the pool exactly once, each as an
  entry of the pool, with every healthy backend before every unhealthy one.\<close>

lemma selectionOrder_complete:
  "distinct (map be_url (selectionOrder pool rule cursor ok)) \<and>
   set (map be_url (selectionOrder pool rule cursor ok)) = be_url ` set pool \<and>
   set (selectionOrder pool rule cursor ok) \<subseteq> set pool \<and>
   (\<exists>h u. selectionOrder pool rule cursor ok = h @ u \<and> list_all (\<lambda>e. ok (be_url e)) h \<and>
      list_all (\<lambda>e. \<not> ok (be_url e)) u)"
proof -
  let ?o = "if rule = Failover then expand rule pool else rotate_by cursor (expand rule pool)"
  let ?d = "dedupe [] ?o"
  let ?h = "filter (\<lambda>e. ok (be_url e)) ?d" and ?u = "filter (\<lambda>e. \<not> ok (be_url e)) ?d"
  have sel: "selectionOrder pool rule cursor ok = ?h @ ?u" by (simp add: selectionOrder_eq Let_def)
  have d: "distinct (map be_url ?d)" by (rule dedupe_distinct)
  have urls: "be_url ` set ?d = be_url ` set pool" by (simp add: dedupe_urls)
  have "be_url ` set (?h @ ?u) = be_url ` set ?d" by auto
  moreover have "distinct (map be_url (?h @ ?u))" using d by (auto simp: distinct_map inj_on_def)
  moreover have "set (?h @ ?u) \<subseteq> set pool" using dedupe_subset [of "[]" ?o] by auto
  moreover have "list_all (\<lambda>e. ok (be_url e)) ?h" "list_all (\<lambda>e. \<not> ok (be_url e)) ?u"
    by (simp_all add: list_all_iff del: if_split)
  moreover have "set (map be_url (?h @ ?u)) = be_url ` set (?h @ ?u)" by (rule set_map)
  ultimately show ?thesis unfolding sel urls by blast
qed

text \<open>Round-robin is fair by weight: over one full turn of the cursor with every backend healthy, the
  first choices are the expanded rotation itself, so each entry is tried first as many times as its
  (clamped) weight says.\<close>

lemma selectionOrder_fair:
  assumes "pool \<noteq> []"
  shows "map (\<lambda>c. hd (selectionOrder pool RoundRobin c (\<lambda>_. True))) [0..<length (expand RoundRobin pool)] =
    expand RoundRobin pool"
proof -
  let ?x = "expand RoundRobin pool"
  have ne: "?x \<noteq> []" using assms set_expand [of RoundRobin pool] by (metis set_empty)
  have "hd (selectionOrder pool RoundRobin c (\<lambda>_. True)) = ?x ! c" if "c < length ?x" for c
  proof -
    have "rotate_by c ?x \<noteq> []" using ne set_rotate_by [of c ?x] by (metis set_empty)
    then show ?thesis using hd_rotate_by [OF ne that] by (simp add: selectionOrder_eq Let_def hd_dedupe)
  qed
  then show ?thesis by (intro nth_equalityI) auto
qed

lemma selectionOrder_fair_example:
  "map (\<lambda>c. hd (selectionOrder [\<lparr>be_url = ''a'', be_weight = Some 2\<rparr>, \<lparr>be_url = ''b'', be_weight = None\<rparr>]
      RoundRobin c (\<lambda>_. True))) [0..<3] =
   [\<lparr>be_url = ''a'', be_weight = Some 2\<rparr>, \<lparr>be_url = ''a'', be_weight = Some 2\<rparr>, \<lparr>be_url = ''b'', be_weight = None\<rparr>]"
proof -
  have x: "expand RoundRobin [\<lparr>be_url = ''a'', be_weight = Some 2\<rparr>, \<lparr>be_url = ''b'', be_weight = None\<rparr>] =
    [\<lparr>be_url = ''a'', be_weight = Some 2\<rparr>, \<lparr>be_url = ''a'', be_weight = Some 2\<rparr>, \<lparr>be_url = ''b'', be_weight = None\<rparr>]"
    by (simp add: expand_def rotation_weight_def MAX_WEIGHT_def numeral_eq_Suc)
  show ?thesis
    using selectionOrder_fair [of "[\<lparr>be_url = ''a'', be_weight = Some 2\<rparr>, \<lparr>be_url = ''b'', be_weight = None\<rparr>]"]
    unfolding x by (simp add: numeral_eq_Suc)
qed

text \<open>Failover with distinct URLs tries the pool as written: the healthy backends in order, then the
  unhealthy ones in order.\<close>

lemma selectionOrder_failover:
  assumes "distinct (map be_url pool)"
  shows "selectionOrder pool Failover cursor ok =
    filter (\<lambda>e. ok (be_url e)) pool @ filter (\<lambda>e. \<not> ok (be_url e)) pool"
  using dedupe_pool [OF assms] by (simp add: selectionOrder_eq Let_def)

lemma selectionOrder_failover_example:
  "selectionOrder [\<lparr>be_url = ''a'', be_weight = None\<rparr>, \<lparr>be_url = ''b'', be_weight = None\<rparr>] Failover 5 (\<lambda>u. u = ''b'') =
   [\<lparr>be_url = ''b'', be_weight = None\<rparr>, \<lparr>be_url = ''a'', be_weight = None\<rparr>]"
  by (subst selectionOrder_failover) simp_all


text \<open>An open breaker keeps its promise: \<^verbatim>\<open>reopensInMs\<close> is how long it refuses. Every attempt before that
  much time has passed is refused, and an attempt at that instant is admitted as a probe.\<close>

lemma breaker_reopens_exactly:
  assumes "bk_state (br_entry cb k) = BOpen" and "map_of cb k \<noteq> None" and "0 < bs_halfOpenProbes s"
    and "0 < reopensInMs cb k (Some s) now"
  shows "(\<forall>t. now \<le> t \<longrightarrow> t < now + reopensInMs cb k (Some s) now \<longrightarrow> \<not> fst (br_tryAcquire cb k (Some s) t)) \<and>
    fst (br_tryAcquire cb k (Some s) (now + reopensInMs cb k (Some s) now))"
proof -
  obtain e where e: "map_of cb k = Some e" using assms(2) by blast
  have o: "bk_state e = BOpen" using assms(1) e by (simp add: br_entry_def)
  have left: "reopensInMs cb k (Some s) now = bs_openSec s * 1000 - (now - bk_openedAtMs e)"
    using assms(4) e o by (auto simp: reopensInMs_def)
  show ?thesis
    using e o assms(3) by (auto simp: left br_tryAcquire_def br_state_def observe_def Let_def)
qed

lemma breaker_reopens_exactly_example:
  "let cb = [(''b'', \<lparr>bk_failures = [], bk_state = BOpen, bk_openedAtMs = 100, bk_probesInFlight = 0\<rparr>)];
       s = \<lparr>bs_failures = 3, bs_windowSec = 10, bs_openSec = 5, bs_halfOpenProbes = 1\<rparr>
   in reopensInMs cb ''b'' (Some s) 1100 = 4000 \<and> fst (br_tryAcquire cb ''b'' (Some s) 5100)"
  using breaker_reopens_exactly
    [of "[(''b'', \<lparr>bk_failures = [], bk_state = BOpen, bk_openedAtMs = 100, bk_probesInFlight = 0\<rparr>)]" "''b''"
      "\<lparr>bs_failures = 3, bs_windowSec = 10, bs_openSec = 5, bs_halfOpenProbes = 1\<rparr>" 1100]
  by (simp add: br_entry_def reopensInMs_def)

text \<open>A closed breaker trips on exactly the configured number of failures: failures of one backend that
  all lie within the window of each other leave it closed while there are fewer than \<^verbatim>\<open>failures\<close> of
  them, and the last of \<^verbatim>\<open>failures\<close> of them opens it at its own instant.\<close>

lemma breaker_trips_exactly:
  assumes "\<forall>t\<in>set (ts @ [t0]). \<forall>u\<in>set (ts @ [t0]). t - bs_windowSec s * 1000 < u"
    and "Suc (length ts) = bs_failures s"
    and cb_def: "cb = foldl (\<lambda>cb t. br_onFailure cb k (Some s) t) [] ts"
  shows "bk_state (br_entry cb k) = BClosed \<and>
    bk_state (br_entry (br_onFailure cb k (Some s) t0) k) = BOpen \<and>
    bk_openedAtMs (br_entry (br_onFailure cb k (Some s) t0) k) = t0"
proof -
  have gen: "br_entry (foldl (\<lambda>cb t. br_onFailure cb k (Some s) t) cb0 ts) k =
      foldl (\<lambda>e t. fail_entry s t e) (br_entry cb0 k) ts" for cb0
    by (induction ts arbitrary: cb0) (auto simp: br_onFailure_def)
  have fresh: "br_entry [] k = fresh_entry" by (simp add: br_entry_def)
  let ?e = "foldl (\<lambda>e t. fail_entry s t e) fresh_entry ts"
  have acc: "bk_state ?e = BClosed \<and> bk_failures ?e = bk_failures fresh_entry @ ts"
    by (rule failures_accumulate) (use assms(1,2) in \<open>auto simp: fresh_entry_def\<close>)
  have keep: "filter (\<lambda>u. t0 - bs_windowSec s * 1000 < u) ts = ts"
    using assms(1) by (auto simp: filter_id_conv)
  have e: "br_entry cb k = ?e" using gen [of "[]"] fresh by (simp add: cb_def)
  have "bk_state (fail_entry s t0 ?e) = BOpen \<and> bk_openedAtMs (fail_entry s t0 ?e) = t0"
    using acc keep assms(2) by (simp add: fail_entry_def Let_def fresh_entry_def)
  with acc e show ?thesis by (simp add: br_onFailure_def)
qed

lemma breaker_trips_exactly_example:
  "bk_state (br_entry (br_onFailure (br_onFailure [] ''b'' (Some \<lparr>bs_failures = 2, bs_windowSec = 10, bs_openSec = 5,
      bs_halfOpenProbes = 1\<rparr>) 7) ''b'' (Some \<lparr>bs_failures = 2, bs_windowSec = 10, bs_openSec = 5, bs_halfOpenProbes = 1\<rparr>) 9) ''b'') = BOpen"
  using breaker_trips_exactly [of "[7]" 9 "\<lparr>bs_failures = 2, bs_windowSec = 10, bs_openSec = 5, bs_halfOpenProbes = 1\<rparr>" _ "''b''", OF _ _ refl]
  by simp

end
