(* ===== verification/Cache.thy ===== *)
theory Cache
  imports Prelude
begin

text \<open>
  \<^verbatim>\<open>data-plane/src/cache.ts\<close>: the bounded in-memory response cache. \<^verbatim>\<open>entries\<close> is the \<^verbatim>\<open>Map\<close> in insertion
  order, oldest first; \<^verbatim>\<open>get\<close> re-inserts a hit at the end, \<^verbatim>\<open>set\<close> and \<^verbatim>\<open>resize\<close> drop entries from the front
  until both bounds hold. The clock is an explicit argument. \<^verbatim>\<open>Headers\<close> is the runtime's lookup
  function, an argument of the key.

  Shown here: the byte count is the sum of the stored bodies, both bounds hold after every
  operation, eviction removes exactly the shortest front segment that restores the bounds, a hit is
  the last response stored under its key and is not expired, and when cache keys are distinct.
\<close>

section \<open>Definitions\<close>

record CachedResponse =
  cr_status :: nat
  cr_headers :: "(string \<times> string) list"
  cr_body :: string
  cr_storedAtMs :: int
  cr_expiresAtMs :: int

datatype Downstream = DPublic | DPrivate | DNone

record CacheUnit =
  cu_ttlSec :: nat
  cu_vary :: "string list"
  cu_varyBySubscription :: bool
  cu_mustRevalidate :: bool
  cu_downstream :: "Downstream option"
  cu_maxBodyBytes :: "nat option"

record CacheKeyInput =
  ck_configDigest :: string
  ck_routeId :: string
  ck_method :: string
  ck_pathAndQuery :: string
  ck_subscriptionId :: "string option"
  ck_vary :: "string list"
  ck_headers :: "string \<Rightarrow> string option"
  ck_unit :: CacheUnit

definition or_else :: "'a option \<Rightarrow> 'a \<Rightarrow> 'a" where
  "or_else x d = (case x of Some v \<Rightarrow> v | None \<Rightarrow> d)"

definition cacheKeyParts :: "CacheKeyInput \<Rightarrow> string list" where
  "cacheKeyParts i =
     [ck_configDigest i, ck_routeId i, toUpperCase (ck_method i), ck_pathAndQuery i]
     @ (if cu_varyBySubscription (ck_unit i) then [''sub='' @ or_else (ck_subscriptionId i) ''-''] else [])
     @ map (\<lambda>name. toLowerCase name @ ''='' @ or_else (ck_headers i name) []) (ck_vary i)"

definition cacheKeyFor :: "CacheKeyInput \<Rightarrow> string" where
  "cacheKeyFor i = js_join ''|'' (cacheKeyParts i)"

record ResponseCache =
  rc_entries :: "(string, CachedResponse) jsmap"
  rc_bytes :: int
  rc_hits :: nat
  rc_misses :: nat
  rc_maxEntries :: nat
  rc_maxBytes :: int

definition new_cache :: "nat \<Rightarrow> int \<Rightarrow> ResponseCache" where
  "new_cache maxEntries maxBytes =
     \<lparr>rc_entries = [], rc_bytes = 0, rc_hits = 0, rc_misses = 0, rc_maxEntries = maxEntries, rc_maxBytes = maxBytes\<rparr>"

definition byteLength :: "CachedResponse \<Rightarrow> nat" where
  "byteLength e = length (cr_body e)"

definition cache_drop :: "ResponseCache \<Rightarrow> string \<Rightarrow> ResponseCache" where
  "cache_drop c key = (case map_of (rc_entries c) key of
       None \<Rightarrow> c
     | Some e \<Rightarrow> c\<lparr>rc_bytes := rc_bytes c - int (byteLength e), rc_entries := mdelete key (rc_entries c)\<rparr>)"

definition over_bounds :: "ResponseCache \<Rightarrow> bool" where
  "over_bounds c \<longleftrightarrow> rc_maxEntries c < length (rc_entries c) \<or> rc_maxBytes c < rc_bytes c"

text \<open>The loop of \<^verbatim>\<open>set\<close> and \<^verbatim>\<open>resize\<close>: while a bound is exceeded, drop the oldest key.\<close>

function cache_evict :: "ResponseCache \<Rightarrow> ResponseCache" where
  "cache_evict c =
     (if over_bounds c then
        (case rc_entries c of [] \<Rightarrow> c | (oldest, _) # _ \<Rightarrow> cache_evict (cache_drop c oldest))
      else c)"
  by pat_completeness auto
termination
  by (relation "measure (\<lambda>c. length (rc_entries c))")
     (auto simp: cache_drop_def less_Suc_eq_le length_delete_le)

declare cache_evict.simps [simp del]

definition cache_resize :: "ResponseCache \<Rightarrow> nat \<Rightarrow> int \<Rightarrow> ResponseCache" where
  "cache_resize c maxEntries maxBytes = cache_evict (c\<lparr>rc_maxEntries := maxEntries, rc_maxBytes := maxBytes\<rparr>)"

definition cache_get :: "ResponseCache \<Rightarrow> string \<Rightarrow> int \<Rightarrow> CachedResponse option \<times> ResponseCache" where
  "cache_get c key now = (case map_of (rc_entries c) key of
       None \<Rightarrow> (None, c\<lparr>rc_misses := rc_misses c + 1\<rparr>)
     | Some e \<Rightarrow>
         if cr_expiresAtMs e \<le> now
         then (None, (cache_drop c key)\<lparr>rc_misses := rc_misses c + 1\<rparr>)
         else (Some e, c\<lparr>rc_entries := mset_key key e (mdelete key (rc_entries c)), rc_hits := rc_hits c + 1\<rparr>))"

definition cache_set :: "ResponseCache \<Rightarrow> string \<Rightarrow> CachedResponse \<Rightarrow> ResponseCache" where
  "cache_set c key e =
     (let bytes = (case map_of (rc_entries c) key of
            Some existing \<Rightarrow> rc_bytes c - int (byteLength existing) | None \<Rightarrow> rc_bytes c)
      in cache_evict (c\<lparr>rc_entries := mset_key key e (rc_entries c), rc_bytes := bytes + int (byteLength e)\<rparr>))"

definition cache_clear :: "ResponseCache \<Rightarrow> ResponseCache" where
  "cache_clear c = c\<lparr>rc_entries := [], rc_bytes := 0\<rparr>"

definition cache_stats :: "ResponseCache \<Rightarrow> nat \<times> int \<times> nat \<times> nat" where
  "cache_stats c = (length (rc_entries c), rc_bytes c, rc_hits c, rc_misses c)"

definition show_downstream :: "Downstream \<Rightarrow> string" where
  "show_downstream d = (case d of DPublic \<Rightarrow> ''public'' | DPrivate \<Rightarrow> ''private'' | DNone \<Rightarrow> ''none'')"

definition downstreamCacheControl :: "CacheUnit \<Rightarrow> string option" where
  "downstreamCacheControl u = (case cu_downstream u of
       None \<Rightarrow> None
     | Some DNone \<Rightarrow> None
     | Some d \<Rightarrow> Some (js_join '', '' ([show_downstream d, ''max-age='' @ show_nat (cu_ttlSec u)]
         @ (if cu_mustRevalidate u then [''must-revalidate''] else []))))"

definition isCacheable :: "string \<Rightarrow> bool" where
  "isCacheable m \<longleftrightarrow> toUpperCase m = ''GET'' \<or> toUpperCase m = ''HEAD''"

section \<open>The invariant\<close>

definition cache_ok :: "ResponseCache \<Rightarrow> bool" where
  "cache_ok c \<longleftrightarrow> distinct (mkeys (rc_entries c)) \<and> rc_bytes c = int (msum byteLength (rc_entries c))"

lemma cache_drop_ok: "cache_ok c \<Longrightarrow> cache_ok (cache_drop c k)"
  using msum_delete [of "rc_entries c" byteLength k]
  by (auto simp: cache_ok_def cache_drop_def distinct_delete split: option.splits)

lemma cache_drop_frame [simp]:
  "rc_maxEntries (cache_drop c k) = rc_maxEntries c" "rc_maxBytes (cache_drop c k) = rc_maxBytes c"
  "rc_hits (cache_drop c k) = rc_hits c" "rc_misses (cache_drop c k) = rc_misses c"
  by (simp_all add: cache_drop_def split: option.splits)

lemma cache_drop_front:
  assumes "cache_ok c" and "rc_entries c = (k, e) # rest"
  shows "rc_entries (cache_drop c k) = rest"
proof -
  have "k \<notin> set (mkeys rest)" using assms by (simp add: cache_ok_def)
  then show ?thesis using assms(2) by (simp add: cache_drop_def delete_fresh)
qed

text \<open>Eviction removes the shortest front segment that restores both bounds.\<close>

definition evicts :: "ResponseCache \<Rightarrow> nat \<Rightarrow> ResponseCache \<Rightarrow> bool" where
  "evicts c n d \<longleftrightarrow> rc_entries d = drop n (rc_entries c) \<and> n \<le> length (rc_entries c) \<and>
     (\<forall>m<n. rc_maxEntries c < length (drop m (rc_entries c)) \<or>
            rc_maxBytes c < int (msum byteLength (drop m (rc_entries c))))"

lemma cache_evict_spec:
  assumes "cache_ok c" and "0 \<le> rc_maxBytes c"
  shows "cache_ok (cache_evict c) \<and> \<not> over_bounds (cache_evict c) \<and>
    rc_maxEntries (cache_evict c) = rc_maxEntries c \<and> rc_maxBytes (cache_evict c) = rc_maxBytes c \<and>
    (\<exists>n. evicts c n (cache_evict c))"
  using assms
proof (induction c rule: cache_evict.induct)
  case (1 c)
  show ?case
  proof (cases "over_bounds c")
    case False
    then have "cache_evict c = c" by (simp add: cache_evict.simps [of c])
    with 1 False show ?thesis by (auto simp: evicts_def intro: exI [of _ 0])
  next
    case True
    show ?thesis
    proof (cases "rc_entries c")
      case Nil
      with True 1 show ?thesis by (simp add: over_bounds_def cache_ok_def)
    next
      case (Cons p rest)
      obtain k e where p: "p = (k, e)" by fastforce
      let ?d = "cache_drop c k"
      have ev: "cache_evict c = cache_evict ?d" using True Cons p by (simp add: cache_evict.simps [of c])
      have rest: "rc_entries ?d = rest" using cache_drop_front [OF "1.prems"(1)] Cons p by simp
      have IH: "cache_ok (cache_evict ?d) \<and> \<not> over_bounds (cache_evict ?d) \<and>
          rc_maxEntries (cache_evict ?d) = rc_maxEntries c \<and> rc_maxBytes (cache_evict ?d) = rc_maxBytes c \<and>
          (\<exists>n. evicts ?d n (cache_evict ?d))"
        using "1.IH" [OF True Cons, of k e] p cache_drop_ok [OF "1.prems"(1)] "1.prems"(2) by simp
      then obtain n where n: "evicts ?d n (cache_evict ?d)" by blast
      have "evicts c (Suc n) (cache_evict ?d)"
        using n rest Cons True "1.prems"(1)
        by (auto simp: evicts_def over_bounds_def cache_ok_def less_Suc_eq_0_disj)
      with IH ev show ?thesis by auto
    qed
  qed
qed

lemmas cache_evict_ok = cache_evict_spec [THEN conjunct1]

lemma cache_evict_subset:
  assumes "cache_ok c" and "0 \<le> rc_maxBytes c" and "map_of (rc_entries (cache_evict c)) k = Some e"
  shows "map_of (rc_entries c) k = Some e"
proof -
  obtain n where n: "rc_entries (cache_evict c) = drop n (rc_entries c)"
    using cache_evict_spec [OF assms(1,2)] by (auto simp: evicts_def)
  have "(k, e) \<in> set (rc_entries c)" using map_of_SomeD [OF assms(3)] n by (metis in_set_dropD)
  then show ?thesis using assms(1) by (simp add: cache_ok_def map_of_is_SomeI)
qed

definition cache_good :: "ResponseCache \<Rightarrow> bool" where
  "cache_good c \<longleftrightarrow> cache_ok c \<and> \<not> over_bounds c \<and> 0 \<le> rc_maxBytes c"

lemma cache_get_entries:
  assumes "cache_ok c"
  shows "cache_ok (snd (cache_get c k now)) \<and>
    length (rc_entries (snd (cache_get c k now))) \<le> length (rc_entries c) \<and>
    rc_bytes (snd (cache_get c k now)) \<le> rc_bytes c"
proof (cases "map_of (rc_entries c) k")
  case (Some e)
  have d: "distinct (mkeys (rc_entries c))" using assms by (simp add: cache_ok_def)
  let ?r = "mset_key k e (mdelete k (rc_entries c))"
  have fresh: "k \<notin> set (mkeys (mdelete k (rc_entries c)))" by (simp add: keys_delete)
  then have app: "?r = mdelete k (rc_entries c) @ [(k, e)]" by (rule set_fresh_append)
  have sum: "msum byteLength ?r = msum byteLength (rc_entries c)"
    using msum_delete [OF d, of byteLength k] Some app by simp
  have len: "length ?r = length (rc_entries c)"
    using msum_delete [OF d, of "\<lambda>_. 1" k] Some app unfolding msum_one by simp
  have "distinct (mkeys ?r)" using d by (simp add: distinct_set distinct_delete)
  with Some assms sum len cache_drop_ok [OF assms, of k] show ?thesis
    by (auto simp: cache_get_def cache_ok_def cache_drop_def length_delete_le)
qed (use assms in \<open>simp add: cache_get_def cache_ok_def\<close>)

lemma cache_set_pre_ok:
  assumes "cache_ok c"
  shows "cache_ok (c\<lparr>rc_entries := mset_key k e (rc_entries c),
    rc_bytes := (case map_of (rc_entries c) k of Some x \<Rightarrow> rc_bytes c - int (byteLength x) | None \<Rightarrow> rc_bytes c)
      + int (byteLength e)\<rparr>)"
  using assms msum_set [of "rc_entries c" byteLength k e]
  by (auto simp: cache_ok_def distinct_set split: option.splits)

datatype cache_event = CGet string int | CSet string CachedResponse | CResize nat nat | CClear

fun cache_step :: "ResponseCache \<Rightarrow> cache_event \<Rightarrow> ResponseCache" where
  "cache_step c (CGet k now) = snd (cache_get c k now)"
| "cache_step c (CSet k e) = cache_set c k e"
| "cache_step c (CResize n b) = cache_resize c n (int b)"
| "cache_step c CClear = cache_clear c"

lemma cache_step_good: "cache_good c \<Longrightarrow> cache_good (cache_step c e)"
proof (cases e)
  case (CGet k now)
  assume g: "cache_good c"
  have "rc_maxEntries (snd (cache_get c k now)) = rc_maxEntries c" "rc_maxBytes (snd (cache_get c k now)) = rc_maxBytes c"
    by (auto simp: cache_get_def split: option.splits)
  with g CGet cache_get_entries [of c k now] show ?thesis by (auto simp: cache_good_def over_bounds_def)
next
  case (CSet k r)
  assume g: "cache_good c"
  with CSet cache_evict_spec [OF cache_set_pre_ok [of c k r]] show ?thesis
    by (auto simp: cache_good_def cache_set_def Let_def)
next
  case (CResize n b)
  assume g: "cache_good c"
  then have "cache_ok (c\<lparr>rc_maxEntries := n, rc_maxBytes := int b\<rparr>)" by (simp add: cache_good_def cache_ok_def)
  from cache_evict_spec [OF this] CResize show ?thesis by (auto simp: cache_good_def cache_resize_def)
next
  case CClear
  assume "cache_good c"
  with CClear show ?thesis by (auto simp: cache_good_def cache_clear_def cache_ok_def over_bounds_def)
qed

interpretation cache: machine cache_step cache_good
  by unfold_locales (rule cache_step_good)

lemma new_cache_good: "cache_good (new_cache n (int b))"
  by (simp add: cache_good_def new_cache_def cache_ok_def over_bounds_def)

section \<open>What a hit returns\<close>

fun last_set :: "string \<Rightarrow> cache_event list \<Rightarrow> CachedResponse option" where
  "last_set k [] = None"
| "last_set k (CSet k' e # es) =
     (case last_set k es of Some x \<Rightarrow> Some x | None \<Rightarrow> if k' = k \<and> CClear \<notin> set es then Some e else None)"
| "last_set k (_ # es) = last_set k es"

lemma last_set_snoc:
  "last_set k (es @ [e]) = (case e of CSet k' r \<Rightarrow> if k' = k then Some r else last_set k es
     | CClear \<Rightarrow> None | _ \<Rightarrow> last_set k es)"
  by (induction k es rule: last_set.induct) (auto split: cache_event.splits option.splits)

lemma cache_holds_last_set:
  assumes "cache_good c0" and "rc_entries c0 = []"
  shows "map_of (rc_entries (foldl cache_step c0 es)) k = Some e \<Longrightarrow> last_set k es = Some e"
proof (induction es arbitrary: e rule: rev_induct)
  case Nil
  with assms show ?case by simp
next
  case (snoc ev es)
  let ?c = "foldl cache_step c0 es"
  have good: "cache_good ?c" using assms(1) by (rule cache.run_good)
  then have ok: "cache_ok ?c" and mb: "0 \<le> rc_maxBytes ?c" by (auto simp: cache_good_def)
  show ?case
  proof (cases ev)
    case (CGet k' now)
    then have "map_of (rc_entries ?c) k = Some e"
      using snoc.prems by (auto simp: cache_get_def cache_drop_def jsmap split: option.splits if_splits)
    with CGet snoc.IH show ?thesis by (simp add: last_set_snoc)
  next
    case (CSet k' r)
    have "map_of (mset_key k' r (rc_entries ?c)) k = Some e"
      using snoc.prems CSet cache_evict_subset [OF cache_set_pre_ok [OF ok, of k' r]] mb
      by (auto simp: cache_set_def Let_def)
    with CSet snoc.IH show ?thesis by (auto simp: last_set_snoc jsmap split: if_splits)
  next
    case (CResize n b)
    have "cache_ok (?c\<lparr>rc_maxEntries := n, rc_maxBytes := int b\<rparr>)" using ok by (simp add: cache_ok_def)
    from cache_evict_subset [OF this] snoc.prems CResize have "map_of (rc_entries ?c) k = Some e"
      by (auto simp: cache_resize_def)
    with CResize snoc.IH show ?thesis by (simp add: last_set_snoc)
  next
    case CClear
    with snoc.prems show ?thesis by (simp add: cache_clear_def)
  qed
qed

section \<open>Properties\<close>

text \<open>After any sequence of gets, sets, resizes and clears the cache holds at most \<^verbatim>\<open>maxEntries\<close> entries and
  \<^verbatim>\<open>maxBytes\<close> bytes under the bounds then in force, its byte counter is the sum of the bodies it holds,
  and no key is stored twice.\<close>

lemma cache_bounded:
  "let c = foldl cache_step (new_cache n (int b)) es
   in length (rc_entries c) \<le> rc_maxEntries c \<and> rc_bytes c \<le> rc_maxBytes c \<and>
      rc_bytes c = int (msum byteLength (rc_entries c)) \<and> distinct (mkeys (rc_entries c))"
proof -
  have "cache_good (foldl cache_step (new_cache n (int b)) es)"
    using new_cache_good by (rule cache.run_good)
  then show ?thesis by (simp add: cache_good_def over_bounds_def cache_ok_def Let_def not_less)
qed

text \<open>C29: a hit is never stale: what \<^verbatim>\<open>get\<close> returns is the last response stored under that key since the
  cache was last cleared, and its expiry lies after the instant of the lookup.\<close>

theorem cache_hit_is_last_set:
  assumes "fst (cache_get (foldl cache_step (new_cache n (int b)) es) k now) = Some e"
  shows "last_set k es = Some e \<and> now < cr_expiresAtMs e"
proof -
  have "map_of (rc_entries (foldl cache_step (new_cache n (int b)) es)) k = Some e" and "now < cr_expiresAtMs e"
    using assms by (auto simp: cache_get_def split: option.splits if_splits)
  then show ?thesis
    using cache_holds_last_set [OF new_cache_good] by (auto simp: new_cache_def)
qed

definition sample_response :: CachedResponse where
  "sample_response = \<lparr>cr_status = 200, cr_headers = [], cr_body = ''ok'', cr_storedAtMs = 0, cr_expiresAtMs = 10\<rparr>"

theorem cache_hit_is_last_set_witness:
  "fst (cache_get (foldl cache_step (new_cache 4 (int 64)) [CSet ''k'' sample_response]) ''k'' 3) = Some sample_response
   \<and> last_set ''k'' [CSet ''k'' sample_response] = Some sample_response"
proof -
  have h: "fst (cache_get (foldl cache_step (new_cache 4 (int 64)) [CSet ''k'' sample_response]) ''k'' 3) = Some sample_response"
    by (simp add: cache_get_def cache_set_def new_cache_def sample_response_def byteLength_def
        cache_evict.simps over_bounds_def)
  from cache_hit_is_last_set [OF h] h show ?thesis by simp
qed

text \<open>Storing a response evicts from the old end only and no more than needed: the entries left are the
  entries after the store with their shortest front segment removed that restores both bounds, and
  a store that fits evicts nothing.\<close>

lemma cache_set_evicts_oldest:
  assumes "cache_good c"
  shows "\<exists>d. rc_entries (cache_set c k e) = drop d (mset_key k e (rc_entries c)) \<and>
    (\<forall>m<d. rc_maxEntries c < length (drop m (mset_key k e (rc_entries c))) \<or>
           rc_maxBytes c < int (msum byteLength (drop m (mset_key k e (rc_entries c)))))"
proof -
  let ?pre = "c\<lparr>rc_entries := mset_key k e (rc_entries c),
    rc_bytes := (case map_of (rc_entries c) k of Some x \<Rightarrow> rc_bytes c - int (byteLength x) | None \<Rightarrow> rc_bytes c)
      + int (byteLength e)\<rparr>"
  have "cache_ok ?pre" using assms by (auto simp: cache_good_def intro: cache_set_pre_ok)
  moreover have "0 \<le> rc_maxBytes ?pre" using assms by (simp add: cache_good_def)
  ultimately obtain d where "evicts ?pre d (cache_evict ?pre)" using cache_evict_spec by blast
  then show ?thesis by (auto simp: evicts_def cache_set_def Let_def)
qed

lemma cache_set_evicts_oldest_example:
  "\<exists>d. rc_entries (cache_set (new_cache 4 (int 64)) ''k'' sample_response) = drop d [(''k'', sample_response)]"
  using cache_set_evicts_oldest [OF new_cache_good, of 4 64 "''k''" sample_response] by (auto simp: new_cache_def)

text \<open>On one route (same cache unit and vary list) two requests whose key parts hold no separator share
  a cache key only if they agree on the configuration digest, the route, the method, the path and
  query, every vary header and, when the unit varies by subscription, the subscription.\<close>

lemma cacheKeyFor_injective:
  assumes same: "ck_unit i = ck_unit j" "ck_vary i = ck_vary j"
    and clean: "\<forall>p\<in>set (cacheKeyParts i @ cacheKeyParts j). CHR ''|'' \<notin> set p"
    and key: "cacheKeyFor i = cacheKeyFor j"
  shows "ck_configDigest i = ck_configDigest j \<and> ck_routeId i = ck_routeId j \<and>
    toUpperCase (ck_method i) = toUpperCase (ck_method j) \<and> ck_pathAndQuery i = ck_pathAndQuery j \<and>
    (cu_varyBySubscription (ck_unit i) \<longrightarrow>
       or_else (ck_subscriptionId i) ''-'' = or_else (ck_subscriptionId j) ''-'') \<and>
    (\<forall>name\<in>set (ck_vary i). or_else (ck_headers i name) [] = or_else (ck_headers j name) [])"
proof -
  have ne: "cacheKeyParts x \<noteq> []" for x by (simp add: cacheKeyParts_def)
  have "cacheKeyParts i = js_split CHR ''|'' (cacheKeyFor i)" "cacheKeyParts j = js_split CHR ''|'' (cacheKeyFor j)"
    using clean ne unfolding cacheKeyFor_def by (auto intro!: js_split_join [symmetric])
  with key have "cacheKeyParts i = cacheKeyParts j" by simp
  with same show ?thesis by (auto simp: cacheKeyParts_def split: if_splits)
qed

definition sample_unit :: CacheUnit where
  "sample_unit = \<lparr>cu_ttlSec = 60, cu_vary = [''x''], cu_varyBySubscription = True, cu_mustRevalidate = False,
     cu_downstream = None, cu_maxBodyBytes = None\<rparr>"

definition sample_input :: "string \<Rightarrow> string \<Rightarrow> string \<Rightarrow> CacheKeyInput" where
  "sample_input path sub header =
     \<lparr>ck_configDigest = ''d'', ck_routeId = ''r'', ck_method = ''GET'', ck_pathAndQuery = path,
      ck_subscriptionId = Some sub, ck_vary = [''x''], ck_headers = (\<lambda>_. Some header), ck_unit = sample_unit\<rparr>"

lemma cacheKeyFor_injective_example:
  "cacheKeyFor (sample_input ''/p'' ''A'' ''1'') = cacheKeyFor (sample_input ''/p'' ''A'' ''1'') \<and>
   ck_pathAndQuery (sample_input ''/p'' ''A'' ''1'') = ck_pathAndQuery (sample_input ''/p'' ''A'' ''1'')"
  using cacheKeyFor_injective [of "sample_input ''/p'' ''A'' ''1''" "sample_input ''/p'' ''A'' ''1''"]
  by (simp add: sample_input_def sample_unit_def cacheKeyParts_def or_else_def toLowerCase_def lower_char_def
      toUpperCase_def upper_char_def char_in_def)

text \<open>The separator is not escaped. On a route that varies by subscription and by a header, two different
  subscriptions can present requests (paths with the separator in the query, a header value that
  spells out the other key's tail) whose cache keys are the same string.\<close>

lemma cacheKeyFor_collision:
  "\<exists>p q h g. cacheKeyFor (sample_input p ''A'' h) = cacheKeyFor (sample_input q ''B'' g)"
proof -
  have "cacheKeyFor (sample_input ''/p'' ''A'' ''y|sub=B|x=z'') = cacheKeyFor (sample_input ''/p|sub=A|x=y'' ''B'' ''z'')"
    by (simp add: cacheKeyFor_def cacheKeyParts_def sample_input_def sample_unit_def or_else_def)
       (simp add: toLowerCase_def lower_char_def char_in_def)
  then show ?thesis by blast
qed

end
