(* ===== verification/Settings.thy ===== *)
theory Settings
  imports Json
begin

text \<open>
  \<^verbatim>\<open>shared/gateway-settings.ts\<close> and \<^verbatim>\<open>control-plane/src/settings.ts\<close>: the gateway's operational settings,
  resolved from sparse overrides in three scopes, and the store behind them.

  A setting is named by its key, a string, and the table of definitions is an association list in
  declaration order (the screen's label and purpose texts are left out). A scope is the string the
  database row carries. The column \<^verbatim>\<open>value_json\<close> is modelled by what \<^verbatim>\<open>JSON.parse\<close> makes of it: \<^const>\<open>None\<close>
  for text that does not parse; a number or a boolean is read back as it was written. Errors carry
  what their messages name.
\<close>

declare map_of_eq_Some_iff [simp del] Some_eq_map_of_iff [simp del]

section \<open>Definitions: the table\<close>

datatype SettingValue = SNum rat | SBool bool

datatype SettingKind = KCount | KBytes | KSeconds | KFlag

record SettingDef =
  sd_env :: string
  sd_kind :: SettingKind
  sd_default :: SettingValue
  sd_min :: "rat option"
  sd_max :: "rat option"
  sd_sensitive :: bool

definition SETTING_SCOPES :: "string list" where
  "SETTING_SCOPES = [''fleet'', ''environment'', ''gateway'']"

definition setting_def ::
  "string \<Rightarrow> SettingKind \<Rightarrow> SettingValue \<Rightarrow> rat option \<Rightarrow> rat option \<Rightarrow> bool \<Rightarrow> SettingDef" where
  "setting_def env kind dflt mn mx sensitive =
     \<lparr>sd_env = env, sd_kind = kind, sd_default = dflt, sd_min = mn, sd_max = mx, sd_sensitive = sensitive\<rparr>"

definition GATEWAY_SETTING_DEFS :: "(string, SettingDef) jsmap" where
  "GATEWAY_SETTING_DEFS =
     [(''maxConcurrentRequests'', setting_def ''MAX_CONCURRENT_REQUESTS'' KCount (SNum 2048) (Some 1) (Some 1000000) False),
      (''maxConcurrentUpgrades'', setting_def ''MAX_CONCURRENT_UPGRADES'' KCount (SNum 1024) (Some 1) (Some 1000000) False),
      (''maxBodyBytes'', setting_def ''MAX_BODY_BYTES'' KBytes (SNum 8388608) (Some 1024) (Some 1073741824) False),
      (''blockingBufferBudgetBytes'', setting_def ''BLOCKING_BUFFER_BUDGET_BYTES'' KBytes (SNum 268435456) (Some 1048576) (Some 8589934592) False),
      (''validatePoolSize'', setting_def ''VALIDATE_POOL_SIZE'' KCount (SNum 4) (Some 1) (Some 256) False),
      (''validateQueueDepth'', setting_def ''VALIDATE_QUEUE_DEPTH'' KCount (SNum 256) (Some 1) (Some 100000) False),
      (''responseCacheMaxEntries'', setting_def ''RESPONSE_CACHE_MAX_ENTRIES'' KCount (SNum 10000) (Some 0) (Some 10000000) False),
      (''responseCacheMaxBytes'', setting_def ''RESPONSE_CACHE_MAX_BYTES'' KBytes (SNum 67108864) (Some 0) (Some 8589934592) False),
      (''artifactCacheMaxBytes'', setting_def ''ARTIFACT_CACHE_MAX_BYTES'' KBytes (SNum 536870912) (Some 1048576) (Some 8589934592) False),
      (''jwksMinRefetchSec'', setting_def ''JWKS_MIN_REFETCH_SEC'' KSeconds (SNum 60) (Some 1) (Some 86400) False),
      (''telemetry'', setting_def ''DP_TELEMETRY'' KFlag (SBool True) None None False),
      (''telemetryMaxSeries'', setting_def ''TELEMETRY_MAX_SERIES'' KCount (SNum 2000) (Some 1) (Some 1000000) False),
      (''telemetryMaxWindowsPerReport'', setting_def ''TELEMETRY_MAX_WINDOWS_PER_REPORT'' KCount (SNum 15) (Some 1) (Some 1440) False),
      (''accessLog'', setting_def ''DP_ACCESS_LOG'' KFlag (SBool True) None None True),
      (''accessLogMaxBytes'', setting_def ''DP_ACCESS_LOG_MAX_BYTES'' KBytes (SNum 134217728) (Some 1048576) (Some 8589934592) False),
      (''accessLogKeep'', setting_def ''DP_ACCESS_LOG_KEEP'' KCount (SNum 5) (Some 0) (Some 1000) False),
      (''serverTiming'', setting_def ''DP_SERVER_TIMING'' KFlag (SBool False) None None False)]"

definition GATEWAY_SETTING_KEYS :: "string list" where
  "GATEWAY_SETTING_KEYS = mkeys GATEWAY_SETTING_DEFS"

definition isSettingKey :: "string \<Rightarrow> bool" where
  "isSettingKey key \<longleftrightarrow> map_of GATEWAY_SETTING_DEFS key \<noteq> None"

type_synonym GatewaySettings = "(string, SettingValue) jsmap"

definition defaultGatewaySettings :: GatewaySettings where
  "defaultGatewaySettings = map (\<lambda>(key, d). (key, sd_default d)) GATEWAY_SETTING_DEFS"

section \<open>Definitions: resolution\<close>

record SettingOverride =
  so_scope :: string
  so_scopeId :: string
  so_key :: string
  so_value :: SettingValue

record SettingSubject =
  ss_environment :: string
  ss_targetId :: string

record SettingSource =
  src_value :: SettingValue
  src_scope :: "string option"

definition scopeIdFor :: "string \<Rightarrow> SettingSubject \<Rightarrow> string" where
  "scopeIdFor scope subject =
     (if scope = ''fleet'' then [] else if scope = ''environment'' then ss_environment subject else ss_targetId subject)"

definition MAX_SAFE_INTEGER :: rat where
  "MAX_SAFE_INTEGER = 9007199254740991"

definition lower_bound :: "SettingDef \<Rightarrow> rat" where
  "lower_bound d = (case sd_min d of Some m \<Rightarrow> m | None \<Rightarrow> 0)"

definition upper_bound :: "SettingDef \<Rightarrow> rat" where
  "upper_bound d = (case sd_max d of Some m \<Rightarrow> m | None \<Rightarrow> MAX_SAFE_INTEGER)"

definition clampSetting :: "SettingDef \<Rightarrow> SettingValue \<Rightarrow> SettingValue" where
  "clampSetting d v =
     (if sd_kind d = KFlag then (case v of SBool b \<Rightarrow> SBool b | SNum _ \<Rightarrow> sd_default d)
      else (case v of
          SBool _ \<Rightarrow> sd_default d
        | SNum n \<Rightarrow> if \<not> is_integer n then sd_default d else SNum (min (max n (lower_bound d)) (upper_bound d))))"

text \<open>One override of one scope, applied when it is for the subject and names a setting.\<close>

definition apply_override ::
  "SettingSubject \<Rightarrow> string \<Rightarrow> (string, SettingSource) jsmap \<Rightarrow> SettingOverride \<Rightarrow> (string, SettingSource) jsmap" where
  "apply_override subject scope out override =
     (if so_scope override \<noteq> scope \<or> so_scopeId override \<noteq> scopeIdFor scope subject then out
      else (case map_of GATEWAY_SETTING_DEFS (so_key override) of
          None \<Rightarrow> out
        | Some d \<Rightarrow> mset_key (so_key override)
            \<lparr>src_value = clampSetting d (so_value override), src_scope = Some scope\<rparr> out))"

definition resolveGatewaySettingSources ::
  "SettingOverride list \<Rightarrow> SettingSubject \<Rightarrow> (string, SettingSource) jsmap" where
  "resolveGatewaySettingSources overrides subject =
     foldl (\<lambda>out scope. foldl (apply_override subject scope) out overrides)
       (map (\<lambda>(key, d). (key, \<lparr>src_value = sd_default d, src_scope = None\<rparr>)) GATEWAY_SETTING_DEFS) SETTING_SCOPES"

definition resolveGatewaySettings :: "SettingOverride list \<Rightarrow> SettingSubject \<Rightarrow> GatewaySettings" where
  "resolveGatewaySettings overrides subject =
     (let sources = resolveGatewaySettingSources overrides subject
      in map (\<lambda>key. (key, src_value (the (map_of sources key)))) GATEWAY_SETTING_KEYS)"

section \<open>Definitions: the write path\<close>

datatype setting_error =
    ExpectedFlag string string
  | ExpectedInteger string string jsval
  | OutOfRange string string rat rat rat
  | NotASetting string
  | FleetTakesNoId
  | NotAnEnvironment string
  | NotAGateway string

definition parseSetting :: "string \<Rightarrow> SettingDef \<Rightarrow> jsval \<Rightarrow> setting_error + SettingValue" where
  "parseSetting key d raw =
     (if sd_kind d = KFlag then (case raw of JBool b \<Rightarrow> Inr (SBool b) | _ \<Rightarrow> Inl (ExpectedFlag key (sd_env d)))
      else (case raw of
          JNum n \<Rightarrow>
            if \<not> is_integer n then Inl (ExpectedInteger key (sd_env d) raw)
            else if n < lower_bound d \<or> upper_bound d < n
              then Inl (OutOfRange key (sd_env d) (lower_bound d) (upper_bound d) n)
            else Inr (SNum n)
        | _ \<Rightarrow> Inl (ExpectedInteger key (sd_env d) raw)))"

record SettingRow =
  sr_scope :: string
  sr_scopeId :: string
  sr_key :: string
  sr_value :: "jsval option"
  sr_setAt :: string
  sr_setBy :: string

record audit_entry =
  ae_actor :: string
  ae_action :: string
  ae_subject :: string
  ae_set :: "(string \<times> SettingValue) list"
  ae_cleared :: "string list"
  ae_sensitive :: "string list"

record settings_db =
  sdb_rows :: "SettingRow list"
  sdb_targets :: "string list"
  sdb_audit :: "audit_entry list"

fun setting_value_of :: "jsval option \<Rightarrow> SettingValue option" where
  "setting_value_of (Some (JNum n)) = Some (SNum n)"
| "setting_value_of (Some (JBool b)) = Some (SBool b)"
| "setting_value_of _ = None"

fun json_of_setting :: "SettingValue \<Rightarrow> jsval" where
  "json_of_setting (SNum n) = JNum n"
| "json_of_setting (SBool b) = JBool b"

definition read_row :: "SettingRow \<Rightarrow> SettingOverride option" where
  "read_row row =
     (if \<not> isSettingKey (sr_key row) then None
      else map_option (\<lambda>v. \<lparr>so_scope = sr_scope row, so_scopeId = sr_scopeId row, so_key = sr_key row, so_value = v\<rparr>)
             (setting_value_of (sr_value row)))"

definition readSettingOverrides :: "settings_db \<Rightarrow> SettingOverride list" where
  "readSettingOverrides db = List.map_filter read_row (sdb_rows db)"

definition settingsFor :: "settings_db \<Rightarrow> SettingSubject \<Rightarrow> GatewaySettings" where
  "settingsFor db subject = resolveGatewaySettings (readSettingOverrides db) subject"

definition settingSourcesFor :: "settings_db \<Rightarrow> SettingSubject \<Rightarrow> (string, SettingSource) jsmap" where
  "settingSourcesFor db subject = resolveGatewaySettingSources (readSettingOverrides db) subject"

record SettingWrite =
  sw_scope :: string
  sw_scopeId :: string
  sw_values :: "(string, jsval) jsmap"

definition assertScope :: "settings_db \<Rightarrow> string \<Rightarrow> string \<Rightarrow> string list \<Rightarrow> setting_error + unit" where
  "assertScope db scope scopeId environments =
     (if scope = ''fleet'' then (if scopeId \<noteq> [] then Inl FleetTakesNoId else Inr ())
      else if scope = ''environment''
        then (if scopeId \<notin> set environments then Inl (NotAnEnvironment scopeId) else Inr ())
      else if scopeId \<notin> set (sdb_targets db) then Inl (NotAGateway scopeId) else Inr ())"

text \<open>The validation loop: \<^const>\<open>None\<close> clears, and the first refusal stops it.\<close>

fun parse_values :: "(string \<times> jsval) list \<Rightarrow> setting_error + (string \<times> SettingValue option) list" where
  "parse_values [] = Inr []"
| "parse_values ((key, raw) # rest) =
     (case map_of GATEWAY_SETTING_DEFS key of
        None \<Rightarrow> Inl (NotASetting key)
      | Some d \<Rightarrow>
          (case (if raw = JNull then Inr None else map_sum id Some (parseSetting key d raw)) of
             Inl e \<Rightarrow> Inl e
           | Inr v \<Rightarrow> (case parse_values rest of Inl e \<Rightarrow> Inl e | Inr vs \<Rightarrow> Inr ((key, v) # vs))))"

definition row_is :: "string \<Rightarrow> string \<Rightarrow> string \<Rightarrow> SettingRow \<Rightarrow> bool" where
  "row_is scope scopeId key row \<longleftrightarrow> sr_scope row = scope \<and> sr_scopeId row = scopeId \<and> sr_key row = key"

fun upsert_row :: "SettingRow \<Rightarrow> SettingRow list \<Rightarrow> SettingRow list" where
  "upsert_row new [] = [new]"
| "upsert_row new (row # rows) =
     (if row_is (sr_scope new) (sr_scopeId new) (sr_key new) row
      then row\<lparr>sr_value := sr_value new, sr_setAt := sr_setAt new, sr_setBy := sr_setBy new\<rparr> # rows
      else row # upsert_row new rows)"

definition write_one :: "SettingWrite \<Rightarrow> string \<Rightarrow> string \<Rightarrow> SettingRow list \<Rightarrow> string \<times> SettingValue option \<Rightarrow> SettingRow list" where
  "write_one w actor now rows kv = (case kv of
       (key, None) \<Rightarrow> filter (\<lambda>r. \<not> row_is (sw_scope w) (sw_scopeId w) key r) rows
     | (key, Some v) \<Rightarrow> upsert_row \<lparr>sr_scope = sw_scope w, sr_scopeId = sw_scopeId w, sr_key = key,
         sr_value = Some (json_of_setting v), sr_setAt = now, sr_setBy = actor\<rparr> rows)"

definition is_sensitive :: "string \<Rightarrow> bool" where
  "is_sensitive key = (case map_of GATEWAY_SETTING_DEFS key of None \<Rightarrow> False | Some d \<Rightarrow> sd_sensitive d)"

definition writeSettingOverrides ::
  "settings_db \<Rightarrow> SettingWrite \<Rightarrow> string \<Rightarrow> string list \<Rightarrow> string \<Rightarrow>
   setting_error + (string list \<times> string list) \<times> settings_db" where
  "writeSettingOverrides db w actor environments now =
     (case assertScope db (sw_scope w) (sw_scopeId w) environments of
        Inl e \<Rightarrow> Inl e
      | Inr _ \<Rightarrow>
          (case parse_values (sw_values w) of
             Inl e \<Rightarrow> Inl e
           | Inr parsed \<Rightarrow>
               (let changed = map fst (filter (\<lambda>(_, v). v \<noteq> None) parsed);
                    cleared = map fst (filter (\<lambda>(_, v). v = None) parsed)
                in Inr ((changed, cleared),
                     db\<lparr>sdb_rows := foldl (write_one w actor now) (sdb_rows db) parsed,
                        sdb_audit := sdb_audit db @
                          [\<lparr>ae_actor = actor, ae_action = ''gateway-settings.write'',
                            ae_subject = sw_scope w @ '':'' @ (if sw_scopeId w = [] then ''*'' else sw_scopeId w),
                            ae_set = List.map_filter (\<lambda>(k, v). map_option (Pair k) v) parsed, ae_cleared = cleared,
                            ae_sensitive = filter is_sensitive (changed @ cleared)\<rparr>]\<rparr>))))"

section \<open>Lemmas\<close>

lemma defs_distinct: "distinct (mkeys GATEWAY_SETTING_DEFS)"
  by (simp add: GATEWAY_SETTING_DEFS_def)

lemma keys_distinct: "distinct GATEWAY_SETTING_KEYS"
  by (simp add: GATEWAY_SETTING_KEYS_def defs_distinct)

text \<open>A value of a setting's kind and within its bounds.\<close>

definition setting_ok :: "SettingDef \<Rightarrow> SettingValue \<Rightarrow> bool" where
  "setting_ok d v = (case v of
       SBool _ \<Rightarrow> sd_kind d = KFlag
     | SNum n \<Rightarrow> sd_kind d \<noteq> KFlag \<and> is_integer n \<and> lower_bound d \<le> n \<and> n \<le> upper_bound d)"

lemma is_integer_numeral [simp]: "is_integer (numeral n)" "is_integer 0" "is_integer 1"
  by (simp_all add: is_integer_def)

lemma defs_sound:
  "list_all (\<lambda>(_, d). setting_ok d (sd_default d) \<and> is_integer (lower_bound d) \<and> is_integer (upper_bound d) \<and>
     lower_bound d \<le> upper_bound d) GATEWAY_SETTING_DEFS"
  by (simp add: GATEWAY_SETTING_DEFS_def setting_def_def setting_ok_def lower_bound_def upper_bound_def MAX_SAFE_INTEGER_def)

lemma defs_soundD:
  assumes "map_of GATEWAY_SETTING_DEFS k = Some d"
  shows "setting_ok d (sd_default d)" "is_integer (lower_bound d)" "is_integer (upper_bound d)" "lower_bound d \<le> upper_bound d"
  using defs_sound map_of_SomeD [OF assms] by (auto simp: list_all_iff)

lemma clamp_ok: "map_of GATEWAY_SETTING_DEFS k = Some d \<Longrightarrow> setting_ok d (clampSetting d v)"
  using defs_soundD [of k d] by (auto simp: clampSetting_def setting_ok_def min_def max_def split: SettingValue.splits)

lemma clamp_id: "setting_ok d v \<Longrightarrow> clampSetting d v = v"
  by (auto simp: clampSetting_def setting_ok_def split: SettingValue.splits)

lemma parseSetting_ok: "parseSetting key d raw = Inr v \<longleftrightarrow> raw = json_of_setting v \<and> setting_ok d v"
  by (cases v; cases raw) (auto simp: parseSetting_def setting_ok_def)

text \<open>The override that decides a key: the last one for the subject in the scope.\<close>

definition scope_override :: "SettingOverride list \<Rightarrow> SettingSubject \<Rightarrow> string \<Rightarrow> string \<Rightarrow> SettingOverride option" where
  "scope_override overrides subject key scope =
     find (\<lambda>x. so_scope x = scope \<and> so_scopeId x = scopeIdFor scope subject \<and> so_key x = key) (rev overrides)"

definition source_of :: "SettingDef \<Rightarrow> string \<Rightarrow> SettingOverride \<Rightarrow> SettingSource" where
  "source_of d scope override = \<lparr>src_value = clampSetting d (so_value override), src_scope = Some scope\<rparr>"

lemma apply_override_get:
  "map_of (apply_override subject scope out override) key =
     (if so_scope override = scope \<and> so_scopeId override = scopeIdFor scope subject \<and> so_key override = key \<and> isSettingKey key
      then Some (source_of (the (map_of GATEWAY_SETTING_DEFS key)) scope override) else map_of out key)"
  by (auto simp: apply_override_def isSettingKey_def source_of_def jsmap split: option.splits)

lemma scope_fold_get:
  "map_of (foldl (apply_override subject scope) out overrides) key =
     (case scope_override overrides subject key scope of
        Some override \<Rightarrow> if isSettingKey key then Some (source_of (the (map_of GATEWAY_SETTING_DEFS key)) scope override)
                         else map_of out key
      | None \<Rightarrow> map_of out key)"
proof (induction overrides rule: rev_induct)
  case Nil
  then show ?case by (simp add: scope_override_def)
next
  case (snoc x xs)
  then show ?case by (auto simp: apply_override_get scope_override_def split: option.splits)
qed

lemma defaults_get:
  "map_of (map (\<lambda>(key, d). (key, f d)) m) key = map_option f (map_of m key)"
  by (induction m) auto

lemma resolve_get:
  "map_of (resolveGatewaySettingSources overrides subject) key =
     (case map_of GATEWAY_SETTING_DEFS key of
        None \<Rightarrow> None
      | Some d \<Rightarrow> Some (case scope_override overrides subject key ''gateway'' of
            Some o1 \<Rightarrow> source_of d ''gateway'' o1
          | None \<Rightarrow> (case scope_override overrides subject key ''environment'' of
                Some o2 \<Rightarrow> source_of d ''environment'' o2
              | None \<Rightarrow> (case scope_override overrides subject key ''fleet'' of
                    Some o3 \<Rightarrow> source_of d ''fleet'' o3
                  | None \<Rightarrow> \<lparr>src_value = sd_default d, src_scope = None\<rparr>))))"
  by (auto simp: resolveGatewaySettingSources_def SETTING_SCOPES_def scope_fold_get isSettingKey_def defaults_get
      split: option.splits)

lemma map_of_map_key: "distinct ks \<Longrightarrow> map_of (map (\<lambda>k. (k, f k)) ks) key = (if key \<in> set ks then Some (f key) else None)"
  by (induction ks) auto

lemma resolveGatewaySettings_get:
  "map_of (resolveGatewaySettings overrides subject) key =
     map_option src_value (map_of (resolveGatewaySettingSources overrides subject) key)"
proof (cases "map_of GATEWAY_SETTING_DEFS key")
  case None
  then have "key \<notin> set GATEWAY_SETTING_KEYS" by (simp add: GATEWAY_SETTING_KEYS_def get_None_iff)
  with None show ?thesis
    by (simp add: resolveGatewaySettings_def Let_def map_of_map_key keys_distinct resolve_get)
next
  case (Some d)
  then have "key \<in> set GATEWAY_SETTING_KEYS" using get_None_iff [of GATEWAY_SETTING_DEFS key] by (auto simp: GATEWAY_SETTING_KEYS_def)
  with Some show ?thesis
    by (simp add: resolveGatewaySettings_def Let_def map_of_map_key keys_distinct resolve_get)
qed

lemma parse_values_Cons:
  assumes "parse_values ((key, raw) # rest) = Inr parsed"
  obtains d v vs where "map_of GATEWAY_SETTING_DEFS key = Some d" "parse_values rest = Inr vs" "parsed = (key, v) # vs"
    "case v of None \<Rightarrow> raw = JNull | Some sv \<Rightarrow> raw = json_of_setting sv \<and> setting_ok d sv"
proof -
  obtain d where d: "map_of GATEWAY_SETTING_DEFS key = Some d" using assms by (auto split: option.splits)
  show ?thesis
  proof (cases "raw = JNull")
    case True
    with assms d that show ?thesis by (auto split: sum.splits)
  next
    case False
    with assms d obtain v vs where "parseSetting key d raw = Inr v" "parse_values rest = Inr vs" "parsed = (key, Some v) # vs"
      by (cases "parseSetting key d raw") (auto split: sum.splits)
    with d that [of d vs "Some v"] show ?thesis by (simp add: parseSetting_ok)
  qed
qed

lemma parse_values_keys: "parse_values kvs = Inr parsed \<Longrightarrow> map fst parsed = map fst kvs"
  by (induction kvs arbitrary: parsed) (auto elim!: parse_values_Cons)

lemma json_of_setting_inj: "json_of_setting v = json_of_setting u \<longleftrightarrow> v = u" "json_of_setting v \<noteq> JNull" "JNull \<noteq> json_of_setting v"
  by (cases v; cases u; simp)+

lemma parse_values_member:
  assumes "parse_values kvs = Inr parsed" "(key, json_of_setting v) \<in> set kvs" "distinct (map fst kvs)"
  shows "map_of parsed key = Some (Some v) \<and> (\<exists>d. map_of GATEWAY_SETTING_DEFS key = Some d \<and> setting_ok d v)"
  using assms
proof (induction kvs arbitrary: parsed)
  case (Cons kv rest)
  obtain k raw where kv: "kv = (k, raw)" by fastforce
  from Cons.prems(1) kv obtain d u vs where d: "map_of GATEWAY_SETTING_DEFS k = Some d" "parse_values rest = Inr vs"
    "parsed = (k, u) # vs" "case u of None \<Rightarrow> raw = JNull | Some sv \<Rightarrow> raw = json_of_setting sv \<and> setting_ok d sv"
    using parse_values_Cons [of k raw rest parsed] by blast
  show ?case
  proof (cases "key = k")
    case True
    with Cons.prems(2,3) kv have "raw = json_of_setting v" by (auto simp: image_iff)
    with d True show ?thesis by (auto simp: json_of_setting_inj split: option.splits)
  next
    case False
    with Cons kv d show ?thesis by auto
  qed
qed simp

text \<open>What the rows hold for one layer's key.\<close>

definition stored :: "SettingRow list \<Rightarrow> string \<Rightarrow> string \<Rightarrow> string \<Rightarrow> SettingRow option" where
  "stored rows scope scopeId key = find (row_is scope scopeId key) rows"

definition rows_unique :: "SettingRow list \<Rightarrow> bool" where
  "rows_unique rows \<longleftrightarrow> distinct (map (\<lambda>r. (sr_scope r, sr_scopeId r, sr_key r)) rows)"

lemma upsert_keys:
  "map (\<lambda>r. (sr_scope r, sr_scopeId r, sr_key r)) (upsert_row new rows) =
     (let ks = map (\<lambda>r. (sr_scope r, sr_scopeId r, sr_key r)) rows; k = (sr_scope new, sr_scopeId new, sr_key new)
      in if k \<in> set ks then ks else ks @ [k])"
  by (induction rows) (auto simp: row_is_def Let_def)

lemma write_one_unique: "rows_unique rows \<Longrightarrow> rows_unique (write_one w actor now rows kv)"
  by (auto simp: write_one_def rows_unique_def upsert_keys Let_def distinct_map_filter split: prod.splits option.splits)

lemma stored_filter:
  "stored (filter (\<lambda>r. \<not> row_is s i k r) rows) scope scopeId key =
     (if scope = s \<and> scopeId = i \<and> key = k then None else stored rows scope scopeId key)"
  by (induction rows) (auto simp: stored_def row_is_def)

lemma stored_upsert:
  "map_option sr_value (stored (upsert_row new rows) scope scopeId key) =
     (if row_is scope scopeId key new then Some (sr_value new) else map_option sr_value (stored rows scope scopeId key))"
  by (induction rows) (auto simp: stored_def row_is_def)

lemma row_is_new: "row_is s i k \<lparr>sr_scope = a, sr_scopeId = b, sr_key = c, sr_value = v, sr_setAt = u, sr_setBy = y\<rparr> \<longleftrightarrow>
    a = s \<and> b = i \<and> c = k"
  by (simp add: row_is_def)

lemma write_one_stored:
  "map_option sr_value (stored (write_one w actor now rows (k, v)) scope scopeId key) =
     (if scope = sw_scope w \<and> scopeId = sw_scopeId w \<and> key = k then map_option (\<lambda>x. Some (json_of_setting x)) v
      else map_option sr_value (stored rows scope scopeId key))"
  by (cases v) (auto simp: write_one_def stored_filter stored_upsert row_is_new)

lemma write_all_stored:
  "distinct (map fst parsed) \<Longrightarrow>
   map_option sr_value (stored (foldl (write_one w actor now) rows parsed) scope scopeId key) =
     (if scope = sw_scope w \<and> scopeId = sw_scopeId w \<and> key \<in> set (map fst parsed)
      then map_option (\<lambda>x. Some (json_of_setting x)) (the (map_of parsed key))
      else map_option sr_value (stored rows scope scopeId key))"
proof (induction parsed arbitrary: rows)
  case (Cons kv parsed)
  obtain k v where kv: "kv = (k, v)" by fastforce
  with Cons show ?case by (auto simp: write_one_stored)
qed simp

lemma write_all_unique: "rows_unique rows \<Longrightarrow> rows_unique (foldl (write_one w actor now) rows parsed)"
  by (induction parsed arbitrary: rows) (auto simp: write_one_unique)

text \<open>With one row per layer and key, the deciding override is the stored row's value.\<close>

lemma find_unique_rev:
  "distinct (map f xs) \<Longrightarrow> find (\<lambda>x. f x = k) (rev xs) = find (\<lambda>x. f x = k) xs"
proof (induction xs)
  case (Cons x xs)
  have "f x \<noteq> k \<or> find (\<lambda>x. f x = k) xs = None" using Cons.prems by (auto simp: find_None_iff image_iff)
  with Cons show ?case by (auto simp: find_append split: option.splits)
qed simp

lemma read_row_fields:
  "read_row r = Some x \<Longrightarrow> so_scope x = sr_scope r \<and> so_scopeId x = sr_scopeId r \<and> so_key x = sr_key r \<and>
     setting_value_of (sr_value r) = Some (so_value x) \<and> isSettingKey (sr_key r)"
  by (auto simp: read_row_def split: if_splits)

lemma read_rows_keys:
  "rows_unique rows \<Longrightarrow> distinct (map (\<lambda>x. (so_scope x, so_scopeId x, so_key x)) (List.map_filter read_row rows))"
proof (induction rows)
  case (Cons r rows)
  show ?case
  proof (cases "read_row r")
    case None
    with Cons show ?thesis by (simp add: map_filter_simps rows_unique_def)
  next
    case (Some x)
    have "(so_scope x, so_scopeId x, so_key x) \<notin> (\<lambda>x. (so_scope x, so_scopeId x, so_key x)) ` set (List.map_filter read_row rows)"
    proof
      assume "(so_scope x, so_scopeId x, so_key x) \<in> (\<lambda>x. (so_scope x, so_scopeId x, so_key x)) ` set (List.map_filter read_row rows)"
      then obtain r' y where "r' \<in> set rows" "read_row r' = Some y"
        "(so_scope x, so_scopeId x, so_key x) = (so_scope y, so_scopeId y, so_key y)"
        by (auto simp: List.map_filter_def)
      with read_row_fields [OF Some] read_row_fields [of r' y] Cons.prems show False by (auto simp: rows_unique_def image_iff)
    qed
    with Cons Some show ?thesis by (simp add: map_filter_simps rows_unique_def)
  qed
qed (simp add: map_filter_simps)

lemma find_read_rows:
  assumes "isSettingKey key"
  shows "map_option so_value (find (\<lambda>x. (so_scope x, so_scopeId x, so_key x) = (scope, scopeId, key)) (List.map_filter read_row rows)) =
    Option.bind (find (\<lambda>r. row_is scope scopeId key r \<and> read_row r \<noteq> None) rows) (setting_value_of \<circ> sr_value)"
proof (induction rows)
  case (Cons r rows)
  show ?case
  proof (cases "read_row r")
    case None
    with Cons show ?thesis by (simp add: map_filter_simps)
  next
    case (Some x)
    with Cons read_row_fields [OF Some] show ?thesis by (auto simp: map_filter_simps row_is_def)
  qed
qed (simp add: map_filter_simps)

lemma find_unique_filter:
  assumes "rows_unique rows"
  shows "find (\<lambda>r. row_is scope scopeId key r \<and> P r) rows =
    (case stored rows scope scopeId key of Some r \<Rightarrow> if P r then Some r else None | None \<Rightarrow> None)"
  using assms unfolding stored_def
proof (induction rows)
  case (Cons r rows)
  have "\<not> row_is scope scopeId key r \<or> find (row_is scope scopeId key) rows = None"
    using Cons.prems by (auto simp: rows_unique_def row_is_def find_None_iff image_iff)
  moreover have "rows_unique rows" using Cons.prems by (simp add: rows_unique_def)
  ultimately show ?case using Cons.IH by (auto split: option.splits)
qed simp

lemma scope_override_stored:
  assumes "rows_unique (sdb_rows db)" "isSettingKey key"
  shows "map_option so_value (scope_override (readSettingOverrides db) subject key scope) =
    Option.bind (map_option sr_value (stored (sdb_rows db) scope (scopeIdFor scope subject) key)) setting_value_of"
proof -
  let ?i = "scopeIdFor scope subject"
  have eq: "(\<lambda>x. so_scope x = scope \<and> so_scopeId x = ?i \<and> so_key x = key) =
      (\<lambda>x. (so_scope x, so_scopeId x, so_key x) = (scope, ?i, key))" by auto
  have "map_option so_value (scope_override (readSettingOverrides db) subject key scope) =
      Option.bind (find (\<lambda>r. row_is scope ?i key r \<and> read_row r \<noteq> None) (sdb_rows db)) (setting_value_of \<circ> sr_value)"
    unfolding scope_override_def readSettingOverrides_def eq
    by (subst find_unique_rev [OF read_rows_keys [OF assms(1)]]) (rule find_read_rows [OF assms(2)])
  moreover have "stored (sdb_rows db) scope ?i key = Some r \<Longrightarrow> sr_key r = key" for r
    by (auto simp: stored_def find_Some_iff row_is_def)
  ultimately show ?thesis using assms(2)
    by (auto simp: find_unique_filter [OF assms(1)] read_row_def split: option.splits)
qed

section \<open>Properties\<close>

text \<open>C31: whatever rows are stored, the settings a gateway is handed are complete and sound: exactly the
  table's keys, each a boolean for a flag and otherwise an integer within the setting's bounds. A row
  of an older build with wider bounds, of the wrong type, or naming nothing cannot strand a fleet.\<close>

theorem settings_always_in_bounds:
  "map fst (settingsFor db subject) = GATEWAY_SETTING_KEYS \<and>
   list_all (\<lambda>(key, d). case map_of (settingsFor db subject) key of None \<Rightarrow> False | Some v \<Rightarrow> setting_ok d v) GATEWAY_SETTING_DEFS"
proof -
  have "map fst (settingsFor db subject) = GATEWAY_SETTING_KEYS"
    by (simp add: settingsFor_def resolveGatewaySettings_def Let_def comp_def)
  moreover have "case map_of (settingsFor db subject) key of None \<Rightarrow> False | Some v \<Rightarrow> setting_ok d v"
    if "(key, d) \<in> set GATEWAY_SETTING_DEFS" for key d
  proof -
    have d: "map_of GATEWAY_SETTING_DEFS key = Some d" using that defs_distinct by (simp add: map_of_is_SomeI)
    with clamp_ok [OF d] defs_soundD(1) [OF d] show ?thesis
      by (simp add: settingsFor_def resolveGatewaySettings_get resolve_get source_of_def split: option.splits)
  qed
  ultimately show ?thesis by (auto simp: list_all_iff)
qed

text \<open>Precedence. A setting resolves to the gateway's own override, else the environment's, else the
  fleet's, else the default, each clamped; a name outside the table resolves to nothing; and the
  reported source is the layer that decided.\<close>

lemma resolve_precedence:
  "map_of (resolveGatewaySettingSources overrides subject) key =
     (case map_of GATEWAY_SETTING_DEFS key of
        None \<Rightarrow> None
      | Some d \<Rightarrow> Some (case scope_override overrides subject key ''gateway'' of
            Some o1 \<Rightarrow> \<lparr>src_value = clampSetting d (so_value o1), src_scope = Some ''gateway''\<rparr>
          | None \<Rightarrow> (case scope_override overrides subject key ''environment'' of
                Some o2 \<Rightarrow> \<lparr>src_value = clampSetting d (so_value o2), src_scope = Some ''environment''\<rparr>
              | None \<Rightarrow> (case scope_override overrides subject key ''fleet'' of
                    Some o3 \<Rightarrow> \<lparr>src_value = clampSetting d (so_value o3), src_scope = Some ''fleet''\<rparr>
                  | None \<Rightarrow> \<lparr>src_value = sd_default d, src_scope = None\<rparr>))))"
  by (unfold resolve_get source_of_def) (rule refl)

text \<open>What an administrator writes is what a gateway is handed. After an accepted write, every gateway the
  written layer applies to and that has no more specific override of the key resolves it to exactly
  the value written, unclamped.\<close>

lemma write_then_resolve:
  assumes "rows_unique (sdb_rows db)" "distinct (map fst (sw_values w))"
    and "writeSettingOverrides db w actor environments now = Inr (result, db')"
    and "(key, json_of_setting v) \<in> set (sw_values w)"
    and "sw_scope w = ''fleet'' \<or> sw_scope w = ''environment'' \<or> sw_scope w = ''gateway''"
    and "sw_scopeId w = scopeIdFor (sw_scope w) subject"
    and "sw_scope w = ''gateway'' \<or> stored (sdb_rows db) ''gateway'' (ss_targetId subject) key = None"
    and "sw_scope w = ''gateway'' \<or> sw_scope w = ''environment'' \<or>
         stored (sdb_rows db) ''environment'' (ss_environment subject) key = None"
  shows "map_of (settingsFor db' subject) key = Some v"
proof -
  from assms(3) obtain parsed where p: "parse_values (sw_values w) = Inr parsed"
    and rows: "sdb_rows db' = foldl (write_one w actor now) (sdb_rows db) parsed"
    by (auto simp: writeSettingOverrides_def Let_def split: sum.splits)
  have dist: "distinct (map fst parsed)" using assms(2) parse_values_keys [OF p] by simp
  from parse_values_member [OF p assms(4,2)] obtain d where in_parsed: "map_of parsed key = Some (Some v)"
    and d: "map_of GATEWAY_SETTING_DEFS key = Some d" and ok: "setting_ok d v" by blast
  have is_key: "isSettingKey key" using d by (simp add: isSettingKey_def)
  have key_in: "key \<in> set (map fst parsed)" using in_parsed by (metis get_None_iff option.distinct(1))
  have uniq: "rows_unique (sdb_rows db')" unfolding rows by (rule write_all_unique [OF assms(1)])
  have st: "map_option sr_value (stored (sdb_rows db') scope (scopeIdFor scope subject) key) =
      (if scope = sw_scope w then Some (Some (json_of_setting v))
       else map_option sr_value (stored (sdb_rows db) scope (scopeIdFor scope subject) key))" for scope
    unfolding rows write_all_stored [OF dist] using assms(6) key_in in_parsed by auto
  have own: "map_option so_value (scope_override (readSettingOverrides db') subject key scope) =
      (if scope = sw_scope w then Some v
       else Option.bind (map_option sr_value (stored (sdb_rows db) scope (scopeIdFor scope subject) key)) setting_value_of)" for scope
    unfolding scope_override_stored [OF uniq is_key] st by (cases v) auto
  have ids: "scopeIdFor ''gateway'' subject = ss_targetId subject" "scopeIdFor ''environment'' subject = ss_environment subject"
    by (simp_all add: scopeIdFor_def)
  from own [of "''gateway''"] own [of "''environment''"] own [of "''fleet''"] assms(5,7,8) clamp_id [OF ok] d
  show ?thesis
    unfolding settingsFor_def resolveGatewaySettings_get resolve_get source_of_def
    by (auto simp: ids split: option.splits)
qed

definition sample_settings_db :: settings_db where
  "sample_settings_db = \<lparr>sdb_rows = [\<lparr>sr_scope = ''fleet'', sr_scopeId = [], sr_key = ''accessLogKeep'',
     sr_value = Some (JNum 9), sr_setAt = ''t'', sr_setBy = ''a''\<rparr>], sdb_targets = [''gw1''], sdb_audit = []\<rparr>"

definition sample_setting_write :: SettingWrite where
  "sample_setting_write = \<lparr>sw_scope = ''environment'', sw_scopeId = ''dev'', sw_values = [(''accessLogKeep'', JNum 7)]\<rparr>"

lemma write_then_resolve_example:
  "map_of (settingsFor (snd (projr (writeSettingOverrides sample_settings_db sample_setting_write ''u'' [''dev''] ''t2'')))
     \<lparr>ss_environment = ''dev'', ss_targetId = ''gw1''\<rparr>) ''accessLogKeep'' = Some (SNum 7)"
proof -
  obtain result db' where w: "writeSettingOverrides sample_settings_db sample_setting_write ''u'' [''dev''] ''t2'' = Inr (result, db')"
    by (simp add: writeSettingOverrides_def sample_setting_write_def assertScope_def parse_values.simps GATEWAY_SETTING_DEFS_def
        setting_def_def parseSetting_def lower_bound_def upper_bound_def Let_def)
  have "map_of (settingsFor db' \<lparr>ss_environment = ''dev'', ss_targetId = ''gw1''\<rparr>) ''accessLogKeep'' = Some (SNum 7)"
    by (rule write_then_resolve [OF _ _ w])
       (simp_all add: sample_settings_db_def sample_setting_write_def rows_unique_def scopeIdFor_def stored_def row_is_def)
  with w show ?thesis by simp
qed

text \<open>A write is refused as a whole: it is accepted exactly when its layer exists and every value is a
  clearing null or a value of its setting's kind within its bounds; a refusal changes nothing, since
  it returns no new store.\<close>

lemma write_accepted_iff:
  "(\<exists>r. writeSettingOverrides db w actor environments now = Inr r) \<longleftrightarrow>
     assertScope db (sw_scope w) (sw_scopeId w) environments = Inr () \<and>
     list_all (\<lambda>(key, raw). case map_of GATEWAY_SETTING_DEFS key of
         None \<Rightarrow> False
       | Some d \<Rightarrow> raw = JNull \<or> (\<exists>v. raw = json_of_setting v \<and> setting_ok d v)) (sw_values w)"
proof -
  have "(\<exists>p. parse_values kvs = Inr p) \<longleftrightarrow>
     list_all (\<lambda>(key, raw). case map_of GATEWAY_SETTING_DEFS key of
         None \<Rightarrow> False
       | Some d \<Rightarrow> raw = JNull \<or> (\<exists>v. raw = json_of_setting v \<and> setting_ok d v)) kvs" for kvs
  proof (induction kvs rule: parse_values.induct)
    case (2 key raw rest)
    have ex: "(\<exists>v. raw = json_of_setting v \<and> setting_ok d v) \<longleftrightarrow> (\<exists>v. parseSetting key d raw = Inr v)" for d
      by (simp add: parseSetting_ok)
    show ?case
    proof (cases "map_of GATEWAY_SETTING_DEFS key")
      case (Some d)
      show ?thesis
      proof (cases "raw = JNull")
        case True
        with 2 [OF Some, of None] Some show ?thesis by (auto split: sum.splits)
      next
        case False
        with 2 [OF Some] Some ex [of d] show ?thesis by (cases "parseSetting key d raw") (auto split: sum.splits)
      qed
    qed simp
  qed simp
  from this [of "sw_values w"] show ?thesis
    by (auto simp: writeSettingOverrides_def Let_def split: sum.splits)
qed

end
