(* ===== verification/ConfigDoc.thy ===== *)
theory ConfigDoc
  imports Backend OpMatch Cache Settings
begin

text \<open>
  The data of the two documents the planes exchange: the policy units of \<^verbatim>\<open>shared/policy.ts\<close> and the
  gateway configuration document of \<^verbatim>\<open>shared/config-doc.ts\<close>. A field the source marks optional is an
  \<^verbatim>\<open>option\<close>; an optional flag whose absence the code reads as false is a \<^typ>\<open>bool\<close>. Free-form JSON is a
  \<^typ>\<open>jsval\<close>. No operations here: the components that read the documents have theirs.
\<close>

section \<open>Policy units\<close>

datatype key_place = InHeader | InQuery

record SubscriptionKeyUnit =
  sk_in :: key_place
  sk_name :: string
  sk_forwardCredentials :: bool

record BasicAuthUnit =
  ba_credentialRef :: string
  ba_realm :: "string option"
  ba_forwardCredentials :: bool

record JwtAuthUnit =
  jw_issuerRef :: string
  jw_headerName :: "string option"
  jw_scheme :: "string option"
  jw_audience :: "string list option"
  jw_requiredScopes :: "string list option"
  jw_scopeMap :: "(string, string list) jsmap option"
  jw_clockSkewSec :: "nat option"
  jw_forwardCredentials :: bool

record IntrospectionAuthUnit =
  in_issuerRef :: string
  in_cacheTtlSec :: "nat option"
  in_requiredScopes :: "string list option"
  in_forwardCredentials :: bool

record MtlsAuthUnit =
  mt_allowedIssuers :: "string list option"
  mt_allowedSubjectCns :: "string list option"
  mt_allowedSans :: "string list option"
  mt_acknowledgeCnOnly :: bool

record CorsUnit =
  co_origins :: "string list"
  co_methods :: "string list option"
  co_headers :: "string list option"
  co_exposeHeaders :: "string list option"
  co_credentials :: bool
  co_maxAgeSec :: "nat option"

record RequireHeaderCheck =
  rh_name :: string
  rh_present :: bool
  rh_equals :: "string option"
  rh_pattern :: "string option"
  rh_credentialRef :: "string option"

record RequireQueryCheck =
  rq_name :: string
  rq_present :: bool
  rq_equals :: "string option"
  rq_pattern :: "string option"

record RequireClientCertCheck =
  rcc_issuers :: "string list option"
  rcc_subjectCns :: "string list option"
  rcc_sans :: "string list option"

record PreconditionRule =
  pr_requireHeader :: "RequireHeaderCheck option"
  pr_requireQuery :: "RequireQueryCheck option"
  pr_requireClientCert :: "RequireClientCertCheck option"
  pr_requireOperation :: "string list option"
  pr_status :: nat
  pr_reason :: string
  pr_headers :: "(string, string) jsmap option"
  pr_body :: "jsval option"

datatype ValidationState = VBlocking | VWarning | VDisabled

record ValidateAlways =
  va_contentType :: "string list option"
  va_maxBodyBytes :: "nat option"
  va_maxDepth :: "nat option"
  va_maxArrayLength :: "nat option"
  va_duplicatesLastWin :: bool
  va_maxElements :: "nat option"

record ValidateSample =
  vs_alwaysUnderBytes :: "nat option"
  vs_rate :: rat
  vs_coldStart :: "nat option"
  vs_onFailureEscalateSec :: "nat option"
  vs_byOperation :: bool
  vs_bySubscription :: bool

record ValidateUnit =
  vu_request :: "ValidationState option"
  vu_response :: "ValidationState option"
  vu_downgradeReason :: "string option"
  vu_headers :: "bool option"
  vu_body :: "bool option"
  vu_always :: "ValidateAlways option"
  vu_sample :: "ValidateSample option"
  vu_maxConcurrent :: "nat option"
  vu_onSaturatedSkip :: bool
  vu_includeBodyExcerptBytes :: "nat option"

record RewriteUnit =
  rw_stripBasePath :: "bool option"
  rw_path :: "string option"
  rw_copyUnmatchedParams :: "bool option"
  rw_querySet :: "(string, string) jsmap option"
  rw_queryRemove :: "string list option"

record HeaderRulesUnit =
  hr_remove :: "string list option"
  hr_set :: "(string, string) jsmap option"
  hr_append :: "(string, string) jsmap option"
  hr_skip :: "(string, string) jsmap option"

record TransformUnit =
  tr_soapToJson :: bool

record KafkaProduceUnit =
  kp_clusterId :: string

datatype limit_scope = ScopeRoute | ScopeProduct

record RateLimitUnit =
  rlu_calls :: nat
  rlu_periodSec :: int
  rlu_scope :: limit_scope
  rlu_emitHeaders :: bool

record QuotaUnit =
  qu_calls :: nat
  qu_periodSec :: int
  qu_scope :: limit_scope
  qu_emitHeaders :: bool

datatype retry_on = On502 | On503 | On504 | OnTimeout | OnConnect

record RetriesUnit =
  ru_attempts :: nat
  ru_on :: "retry_on list"
  ru_idempotentOnly :: "bool option"

record CircuitBreakerUnit =
  cb_failures :: nat
  cb_windowSec :: int
  cb_openSec :: int
  cb_halfOpenProbes :: "nat option"

datatype error_shape = ProblemJson | SoapFault | JsonRpc

record ErrorFormatUnit =
  ef_shape :: error_shape
  ef_soap12 :: bool

record ConcurrencyUnit =
  cn_maxInFlight :: nat
  cn_retryAfterSec :: "nat option"

datatype BackendAuthUnit =
    AuthNone
  | AuthBasic (bau_credentialRef: string)
  | AuthApiKey (bau_credentialRef: string) (bau_in: key_place) (bau_name: string)
  | AuthOauth2 (bau_tokenProviderRef: string) (bau_scope: "string option") (bau_invalidateOnStatus: "nat list option")
  | AuthHmac (bau_schemeRef: string) (bau_dateHeader: "string option") (bau_serviceShortcut: string)
  | AuthMtls

record PassthroughUnit =
  pt_websocket :: bool
  pt_sse :: bool
  pt_streamIdleTimeoutSec :: "nat option"
  pt_maxConnectionSec :: "nat option"
  pt_maxConcurrentConnections :: "nat option"
  pt_maxBytesPerConnection :: "nat option"

text \<open>The units an operation may override, and the document's named units. The keys \<^verbatim>\<open>operations["<id>"].<unit>\<close> of the
  source's flat object are grouped by operation id.\<close>

record OperationUnits =
  ou_validate :: "ValidateUnit option"
  ou_rateLimit :: "RateLimitUnit option"
  ou_quota :: "QuotaUnit option"
  ou_timeoutMs :: "nat option"
  ou_cache :: "CacheUnit option"

record PolicyDocument =
  auth_subscriptionKey :: "SubscriptionKeyUnit option"
  auth_basic :: "BasicAuthUnit option"
  auth_jwt :: "JwtAuthUnit option"
  auth_introspection :: "IntrospectionAuthUnit option"
  auth_mtls :: "MtlsAuthUnit option"
  pd_ipAllow :: "string list option"
  pd_cors :: "CorsUnit option"
  pd_preconditions :: "PreconditionRule list option"
  pd_validate :: "ValidateUnit option"
  pd_rewrite :: "RewriteUnit option"
  headers_request :: "HeaderRulesUnit option"
  headers_response :: "HeaderRulesUnit option"
  pd_transform :: "TransformUnit option"
  pd_kafkaProduce :: "KafkaProduceUnit option"
  pd_cache :: "CacheUnit option"
  pd_rateLimit :: "RateLimitUnit option"
  pd_quota :: "QuotaUnit option"
  pd_timeoutMs :: "nat option"
  pd_retries :: "RetriesUnit option"
  pd_circuitBreaker :: "CircuitBreakerUnit option"
  pd_concurrency :: "ConcurrencyUnit option"
  pd_backendAuth :: "BackendAuthUnit option"
  pd_passthrough :: "PassthroughUnit option"
  pd_errorFormat :: "ErrorFormatUnit option"
  pd_operations :: "(string, OperationUnits) jsmap"

definition empty_policy :: PolicyDocument where
  "empty_policy = \<lparr>auth_subscriptionKey = None, auth_basic = None, auth_jwt = None, auth_introspection = None,
     auth_mtls = None, pd_ipAllow = None, pd_cors = None, pd_preconditions = None, pd_validate = None,
     pd_rewrite = None, headers_request = None, headers_response = None, pd_transform = None, pd_kafkaProduce = None,
     pd_cache = None, pd_rateLimit = None, pd_quota = None, pd_timeoutMs = None, pd_retries = None,
     pd_circuitBreaker = None, pd_concurrency = None, pd_backendAuth = None, pd_passthrough = None,
     pd_errorFormat = None, pd_operations = []\<rparr>"

section \<open>The configuration document\<close>

datatype ResourceKind = Rest | Soap | Mcp | A2a

datatype Lifecycle = Active | Deprecated | Retired

datatype schema_state = SchemaOk | NoSchema | UnsupportedSchema

record ConfigOperation = OperationRef +
  cfo_element :: "string option"
  cfo_soapAction :: "string option"
  cfo_selector :: "string option"
  cfo_summary :: "string option"
  cfo_schemaState :: schema_state

datatype tls_mode = TlsVerify | TlsPin | TlsSkipHostname | TlsInsecure

record ConfigBackendTls =
  tls_mode_of :: tls_mode
  tls_pinThumbprint :: "string option"
  tls_expiresAt :: "string option"
  tls_exceptionId :: "string option"
  tls_reason :: "string option"

record ConfigBackend =
  cbk_pool :: "BackendEntry list"
  cbk_rule :: pool_rule
  cbk_clientCertRef :: "string option"
  cbk_tls :: ConfigBackendTls

record ConfigSoapOperation =
  so_soapAction :: string
  so_element :: string
  so_operationId :: string

datatype artifact_kind = JsonSchemaArtifact | XsdSetArtifact

record ArtifactRef =
  ar_digest :: string
  ar_kind :: artifact_kind
  ar_sizeBytes :: nat

text \<open>The agent card is carried as the JSON document it is; the request path reads its path and visibility.\<close>

record A2aRoute =
  a2a_cardPath :: string
  a2a_cardPublic :: bool
  a2a_card :: jsval

record ConfigRoute =
  cr_resourceId :: string
  cr_resourceName :: string
  cr_apiVersion :: string
  cr_kind :: ResourceKind
  cr_revisionId :: string
  cr_rev :: nat
  cr_host :: string
  cr_basePath :: string
  cr_lifecycle :: Lifecycle
  cr_sunsetAt :: "string option"
  cr_productIds :: "string list"
  cr_backend :: ConfigBackend
  cr_policy :: PolicyDocument
  cr_operations :: "ConfigOperation list"
  cr_artifacts :: "ArtifactRef list"
  cr_logBodiesUntil :: "string option"
  cr_soap :: "(bool \<times> ConfigSoapOperation list) option"
  cr_mcp :: "string option"
  cr_a2a :: "A2aRoute option"

record ConfigSubscription =
  sub_id :: string
  sub_keyHashes :: "string list"
  sub_productId :: string
  sub_productName :: string
  sub_applicationId :: string
  sub_applicationName :: string
  sub_subscriptionName :: string

record ConfigCertificate =
  cert_id :: string
  cert_name :: string
  cert_thumbprint :: string
  cert_notAfter :: string

record XmlLimits =
  xl_maxPrefixBytes :: nat
  xl_maxDepth :: nat
  xl_maxElements :: nat
  xl_maxBytes :: nat
  xl_contentTypes :: "string list"

record ValidationLimits =
  vl_maxBodyBytes :: nat
  vl_minSampleRate :: rat
  vl_maxConcurrent :: nat
  vl_maxIncludeBodyExcerptBytes :: nat

record ConfigLimits =
  cl_xml :: XmlLimits
  cl_validation :: ValidationLimits

record ConfigTrustAnchor =
  ta_id :: string
  ta_name :: string
  ta_thumbprint :: string
  ta_notAfter :: string
  ta_pem :: string

record ConfigIssuer =
  is_issuer :: string
  is_jwksUrl :: "string option"
  is_algorithms :: "string list"
  is_audienceDefault :: "string list option"
  is_introspectionUrl :: "string option"
  is_introspectionCredential :: "string option"

record ConfigTokenProvider =
  tp_tokenUrl :: string
  tp_scope :: "string option"
  tp_skewSec :: "nat option"
  tp_credential :: string

record ConfigReferences =
  rf_issuers :: "(string, ConfigIssuer) jsmap"
  rf_tokenProviders :: "(string, ConfigTokenProvider) jsmap"
  rf_hmacSchemes :: "(string, string \<times> string) jsmap"
  rf_secretHashes :: "(string, string) jsmap"
  rf_secrets :: "(string, string) jsmap"

definition CONFIG_VERSION :: int where
  "CONFIG_VERSION = 6"

definition MAX_LOGGED_BODY_BYTES :: nat where
  "MAX_LOGGED_BODY_BYTES = 8 * 1024"

text \<open>A block a cache file of an older build may lack is an \<^verbatim>\<open>option\<close>.\<close>

record GatewayConfig =
  gc_configVersion :: int
  gc_environment :: string
  gc_digest :: string
  gc_generatedAt :: string
  gc_limits :: "ConfigLimits option"
  gc_settings :: "GatewaySettings option"
  gc_routes :: "ConfigRoute list"
  gc_subscriptions :: "ConfigSubscription list"
  gc_certificates :: "ConfigCertificate list option"
  gc_trustAnchors :: "ConfigTrustAnchor list option"
  gc_references :: "ConfigReferences option"
  gc_errors :: "(string \<times> string \<times> string) list"

end
