(* ===== verification/RouteTable.thy ===== *)
theory RouteTable
  imports ConfigDoc
begin

text \<open>
  \<^verbatim>\<open>data-plane/src/route-table.ts\<close>: the immutable projection of one configuration document that a
  gateway serves from. The table is built once per activation: routes sorted by base-path length,
  subscriptions indexed by key hash, certificates by id, operations compiled per route. Only the
  round-robin cursors change afterwards.

  The trust set is represented by the anchors it is composed from. \<^verbatim>\<open>operationIndexes\<close> is keyed by the route object; a route's index is recomputed from its
  operations here, which is the same value.
\<close>

section \<open>Definitions\<close>

definition NO_REFERENCES :: ConfigReferences where
  "NO_REFERENCES = \<lparr>rf_issuers = [], rf_tokenProviders = [], rf_hmacSchemes = [], rf_secretHashes = [], rf_secrets = []\<rparr>"

definition FALLBACK_LIMITS :: ConfigLimits where
  "FALLBACK_LIMITS =
     \<lparr>cl_xml = \<lparr>xl_maxPrefixBytes = 8192, xl_maxDepth = 32, xl_maxElements = 100000, xl_maxBytes = 8 * 1024 * 1024,
        xl_contentTypes = [''text/xml'', ''application/soap+xml'']\<rparr>,
      cl_validation = \<lparr>vl_maxBodyBytes = 8 * 1024 * 1024, vl_minSampleRate = 1 / 100, vl_maxConcurrent = 8,
        vl_maxIncludeBodyExcerptBytes = 0\<rparr>\<rparr>"

record RouteTable =
  rt_routes :: "ConfigRoute list"
  rt_digest :: string
  rt_environment :: string
  rt_limits :: ConfigLimits
  rt_references :: ConfigReferences
  rt_trustAnchors :: "ConfigTrustAnchor list"
  rt_byKeyHash :: "(string, ConfigSubscription) jsmap"
  rt_certificatesById :: "(string, ConfigCertificate) jsmap"
  rt_cursors :: "(string, nat) jsmap"

definition index_key_hashes :: "ConfigSubscription list \<Rightarrow> (string, ConfigSubscription) jsmap" where
  "index_key_hashes subs =
     foldl (\<lambda>m s. foldl (\<lambda>m hash. mset_key hash s m) m (sub_keyHashes s)) [] subs"

definition new_table :: "GatewayConfig \<Rightarrow> RouteTable" where
  "new_table config =
     \<lparr>rt_routes = sort_key (\<lambda>r. - int (length (cr_basePath r))) (gc_routes config),
      rt_digest = gc_digest config,
      rt_environment = gc_environment config,
      rt_limits = (case gc_limits config of Some l \<Rightarrow> l | None \<Rightarrow> FALLBACK_LIMITS),
      rt_references = (case gc_references config of Some r \<Rightarrow> r | None \<Rightarrow> NO_REFERENCES),
      rt_trustAnchors = (case gc_trustAnchors config of Some a \<Rightarrow> a | None \<Rightarrow> []),
      rt_byKeyHash = index_key_hashes (gc_subscriptions config),
      rt_certificatesById = foldl (\<lambda>m c. mset_key (cert_id c) c m) []
        (case gc_certificates config of Some cs \<Rightarrow> cs | None \<Rightarrow> []),
      rt_cursors = []\<rparr>"

definition operationsFor :: "RouteTable \<Rightarrow> ConfigRoute \<Rightarrow> ConfigOperation CompiledOperations" where
  "operationsFor t route =
     (if route \<in> set (rt_routes t) \<and> 0 < length (cr_operations route)
      then compileOperations (cr_operations route) else compileOperations [])"

definition nextCursor :: "RouteTable \<Rightarrow> string \<Rightarrow> nat \<times> RouteTable" where
  "nextCursor t resourceId =
     (let cur = (case map_of (rt_cursors t) resourceId of Some n \<Rightarrow> n | None \<Rightarrow> 0);
          nxt = (cur + 1) mod 1000000
      in (nxt, t\<lparr>rt_cursors := mset_key resourceId nxt (rt_cursors t)\<rparr>))"

text \<open>The artifact cache is asked for the declared id and thumbprint.\<close>

definition certificateFor :: "RouteTable \<Rightarrow> string \<Rightarrow> (string \<Rightarrow> string \<Rightarrow> 'cert option) \<Rightarrow> 'cert option" where
  "certificateFor t cid cache = (case map_of (rt_certificatesById t) cid of
       None \<Rightarrow> None | Some declared \<Rightarrow> cache (cert_id declared) (cert_thumbprint declared))"

definition table_certificates :: "RouteTable \<Rightarrow> ConfigCertificate list" where
  "table_certificates t = mvalues (rt_certificatesById t)"

fun match_routes :: "string \<Rightarrow> string \<Rightarrow> ConfigRoute option \<Rightarrow> ConfigRoute list \<Rightarrow> ConfigRoute option" where
  "match_routes host path wildcard [] = wildcard"
| "match_routes host path wildcard (route # rest) =
     (if \<not> pathMatchesBase path (cr_basePath route) then match_routes host path wildcard rest
      else if cr_host route = host then Some route
      else match_routes host path
             (if cr_host route = ''*'' \<and> wildcard = None then Some route else wildcard) rest)"

definition match :: "RouteTable \<Rightarrow> string option \<Rightarrow> string \<Rightarrow> ConfigRoute option" where
  "match t hostHeader path = match_routes (hostKey hostHeader) path None (rt_routes t)"

definition subscriptionByKeyHash :: "RouteTable \<Rightarrow> string \<Rightarrow> ConfigSubscription option" where
  "subscriptionByKeyHash t hash = map_of (rt_byKeyHash t) hash"

definition subscriptionCount :: "RouteTable \<Rightarrow> nat" where
  "subscriptionCount t = length (rt_byKeyHash t)"

text \<open>Sample data for the witnesses.\<close>

definition sample_route :: "string \<Rightarrow> string \<Rightarrow> ConfigRoute" where
  "sample_route host basePath = \<lparr>cr_resourceId = basePath, cr_resourceName = ''api'', cr_apiVersion = ''v1'',
     cr_kind = Rest, cr_revisionId = ''r'', cr_rev = 1, cr_host = host, cr_basePath = basePath,
     cr_lifecycle = Active, cr_sunsetAt = None, cr_productIds = [''p''],
     cr_backend = \<lparr>cbk_pool = [], cbk_rule = Failover, cbk_clientCertRef = None,
       cbk_tls = \<lparr>tls_mode_of = TlsVerify, tls_pinThumbprint = None, tls_expiresAt = None, tls_exceptionId = None,
         tls_reason = None\<rparr>\<rparr>,
     cr_policy = empty_policy, cr_operations = [], cr_artifacts = [], cr_logBodiesUntil = None,
     cr_soap = None, cr_mcp = None, cr_a2a = None\<rparr>"

definition sample_config :: "ConfigRoute list \<Rightarrow> ConfigSubscription list \<Rightarrow> GatewayConfig" where
  "sample_config routes subs = \<lparr>gc_configVersion = 6, gc_environment = ''dev'', gc_digest = ''d'',
     gc_generatedAt = ''t'', gc_limits = None, gc_settings = None, gc_routes = routes, gc_subscriptions = subs,
     gc_certificates = None, gc_trustAnchors = None, gc_references = None, gc_errors = []\<rparr>"

section \<open>Lemmas\<close>

lemma match_routes_scan:
  "match_routes host path w rs =
     (case find (\<lambda>r. pathMatchesBase path (cr_basePath r) \<and> cr_host r = host) rs of
        Some r \<Rightarrow> Some r
      | None \<Rightarrow> (case w of Some r \<Rightarrow> Some r
          | None \<Rightarrow> find (\<lambda>r. pathMatchesBase path (cr_basePath r) \<and> cr_host r = ''*'') rs))"
  by (induction host path w rs rule: match_routes.induct) (auto split: option.splits)

lemma find_sorted_longest:
  assumes "sorted (map (\<lambda>r. - int (length (cr_basePath r))) rs)" and "find P rs = Some r"
  shows "r \<in> set rs \<and> P r \<and> (\<forall>r'\<in>set rs. P r' \<longrightarrow> length (cr_basePath r') \<le> length (cr_basePath r))"
  using assms
proof (induction rs)
  case (Cons x rs)
  then show ?case by (cases "P x") auto
qed simp

lemma pathMatches_same_length:
  assumes "pathMatchesBase path b" "pathMatchesBase path c" "length b = length c"
    and "starts_with ''/'' b" "starts_with ''/'' c"
  shows "b = c"
  using assms by (auto simp: pathMatchesBase_def starts_with_iff split: if_splits)

lemma index_inner: "map_of (foldl (\<lambda>m h. mset_key h s m) m hs) k = (if k \<in> set hs then Some s else map_of m k)"
  by (induction hs arbitrary: m) (auto simp: jsmap)

lemma index_key_hashes_Some:
  "map_of (foldl (\<lambda>m s. foldl (\<lambda>m hash. mset_key hash s m) m (sub_keyHashes s)) m subs) k = Some s \<Longrightarrow>
   (s \<in> set subs \<and> k \<in> set (sub_keyHashes s)) \<or> map_of m k = Some s"
  by (induction subs arbitrary: m) (fastforce simp: index_inner split: if_splits)+

lemma index_key_hashes_hit:
  "s \<in> set subs \<Longrightarrow> k \<in> set (sub_keyHashes s) \<Longrightarrow>
   \<exists>s'. map_of (foldl (\<lambda>m s. foldl (\<lambda>m hash. mset_key hash s m) m (sub_keyHashes s)) m subs) k = Some s'"
proof (induction subs arbitrary: m)
  case (Cons x subs)
  have keep: "map_of m' k \<noteq> None \<Longrightarrow>
    map_of (foldl (\<lambda>m s. foldl (\<lambda>m hash. mset_key hash s m) m (sub_keyHashes s)) m' subs) k \<noteq> None" for m'
    by (induction subs arbitrary: m') (auto simp: index_inner)
  show ?case
  proof (cases "k \<in> set (sub_keyHashes x)")
    case True
    then have "map_of (foldl (\<lambda>m hash. mset_key hash x m) m (sub_keyHashes x)) k \<noteq> None"
      by (simp add: index_inner)
    from keep [OF this] show ?thesis by simp
  next
    case False
    with Cons show ?thesis by auto
  qed
qed simp

lemma match_spec:
  "case match (new_table config) hostHeader path of
     None \<Rightarrow> (\<forall>r\<in>set (gc_routes config). pathMatchesBase path (cr_basePath r) \<longrightarrow>
               cr_host r \<noteq> hostKey hostHeader \<and> cr_host r \<noteq> ''*'')
   | Some r \<Rightarrow> r \<in> set (gc_routes config) \<and> pathMatchesBase path (cr_basePath r) \<and>
       (cr_host r = hostKey hostHeader \<or> cr_host r = ''*'' \<and>
         (\<forall>r'\<in>set (gc_routes config). pathMatchesBase path (cr_basePath r') \<longrightarrow> cr_host r' \<noteq> hostKey hostHeader)) \<and>
       (\<forall>r'\<in>set (gc_routes config). pathMatchesBase path (cr_basePath r') \<longrightarrow> cr_host r' = cr_host r \<longrightarrow>
          length (cr_basePath r') \<le> length (cr_basePath r))"
proof -
  let ?rs = "sort_key (\<lambda>r. - int (length (cr_basePath r))) (gc_routes config)"
  let ?P = "\<lambda>h r. pathMatchesBase path (cr_basePath r) \<and> cr_host r = h"
  have sorted: "sorted (map (\<lambda>r. - int (length (cr_basePath r))) ?rs)" by simp
  have m: "match (new_table config) hostHeader path =
      (case find (?P (hostKey hostHeader)) ?rs of Some r \<Rightarrow> Some r | None \<Rightarrow> find (?P ''*'') ?rs)"
    unfolding match_def new_table_def match_routes_scan by (simp cong: option.case_cong)
  show ?thesis
  proof (cases "find (?P (hostKey hostHeader)) ?rs")
    case (Some r)
    from find_sorted_longest [OF sorted Some] m Some show ?thesis by auto
  next
    case None
    then have none: "\<forall>r\<in>set (gc_routes config). pathMatchesBase path (cr_basePath r) \<longrightarrow> cr_host r \<noteq> hostKey hostHeader"
      by (auto simp: find_None_iff)
    show ?thesis
    proof (cases "find (?P ''*'') ?rs")
      case (Some r)
      from find_sorted_longest [OF sorted Some] m None Some none show ?thesis by auto
    next
      case None': None
      with m None none show ?thesis by (auto simp: find_None_iff)
    qed
  qed
qed

section \<open>Properties\<close>

text \<open>C30: route matching answers with the longest matching base path of the request's own host, falling back
  to the longest matching base path of the wildcard host only when the request's host has none, and
  finds nothing only when no route of either host matches.\<close>

theorem match_longest:
  "case match (new_table config) hostHeader path of
     None \<Rightarrow> (\<forall>r\<in>set (gc_routes config). pathMatchesBase path (cr_basePath r) \<longrightarrow>
               cr_host r \<noteq> hostKey hostHeader \<and> cr_host r \<noteq> ''*'')
   | Some r \<Rightarrow> r \<in> set (gc_routes config) \<and> pathMatchesBase path (cr_basePath r) \<and>
       (cr_host r = hostKey hostHeader \<or> cr_host r = ''*'' \<and>
         (\<forall>r'\<in>set (gc_routes config). pathMatchesBase path (cr_basePath r') \<longrightarrow> cr_host r' \<noteq> hostKey hostHeader)) \<and>
       (\<forall>r'\<in>set (gc_routes config). pathMatchesBase path (cr_basePath r') \<longrightarrow> cr_host r' = cr_host r \<longrightarrow>
          length (cr_basePath r') \<le> length (cr_basePath r))"
  by (rule match_spec)

theorem match_longest_witness:
  "match (new_table (sample_config [sample_route ''*'' ''/petstore'', sample_route ''*'' ''/petstore/admin''] []))
     (Some ''h:80'') ''/petstore/admin/x'' = Some (sample_route ''*'' ''/petstore/admin'') \<and>
   length (cr_basePath (sample_route ''*'' ''/petstore'')) \<le> length (cr_basePath (sample_route ''*'' ''/petstore/admin''))"
proof -
  let ?c = "sample_config [sample_route ''*'' ''/petstore'', sample_route ''*'' ''/petstore/admin''] []"
  have m: "match (new_table ?c) (Some ''h:80'') ''/petstore/admin/x'' = Some (sample_route ''*'' ''/petstore/admin'')"
    by (simp add: match_def new_table_def sample_config_def sample_route_def hostKey_def Let_def
        toLowerCase_def lower_char_def char_in_def js_trim_def js_space_def starts_with_def pathMatchesBase_def)
  show ?thesis using match_longest [where config = ?c and hostHeader = "Some ''h:80''" and path = "''/petstore/admin/x''"] m
    by (simp add: sample_config_def sample_route_def pathMatchesBase_def starts_with_def)
qed

text \<open>Where the store's uniqueness of (host, base path) holds and base paths start with a slash, the
  matched route does not depend on the order of the configuration document: permuting the routes
  changes no answer.\<close>

lemma match_order_independent:
  assumes "set (gc_routes c) = set (gc_routes c')"
    and "\<forall>r\<in>set (gc_routes c). \<forall>r'\<in>set (gc_routes c).
           cr_host r = cr_host r' \<and> cr_basePath r = cr_basePath r' \<longrightarrow> r = r'"
    and "\<forall>r\<in>set (gc_routes c). starts_with ''/'' (cr_basePath r)"
  shows "match (new_table c) h path = match (new_table c') h path"
proof -
  let ?m = "\<lambda>c. match (new_table c) h path"
  have same: "r = r'" if a: "?m c = Some r" and b: "?m c' = Some r'" for r r'
  proof -
    note A = match_spec [where config = c and hostHeader = h and path = path, unfolded a option.case]
    note B = match_spec [where config = c' and hostHeader = h and path = path, unfolded b option.case]
    have host: "cr_host r = cr_host r'" using A B assms(1) by auto
    then have "length (cr_basePath r) = length (cr_basePath r')"
      using A B assms(1) by (auto intro!: antisym)
    then have "cr_basePath r = cr_basePath r'"
      using A B assms(1,3) by (intro pathMatches_same_length [of path]) auto
    with host A B assms(1,2) show ?thesis by auto
  qed
  have none: "?m c = None \<longleftrightarrow> ?m c' = None"
    using match_spec [where config = c and hostHeader = h and path = path]
      match_spec [where config = c' and hostHeader = h and path = path] assms(1)
    by (cases "?m c"; cases "?m c'") auto
  show ?thesis
    using same none by (cases "?m c"; cases "?m c'") auto
qed

lemma match_order_independent_example:
  "match (new_table (sample_config [sample_route ''*'' ''/a'', sample_route ''*'' ''/b''] [])) None ''/b'' =
   match (new_table (sample_config [sample_route ''*'' ''/b'', sample_route ''*'' ''/a''] [])) None ''/b''"
  by (rule match_order_independent) (auto simp: sample_config_def sample_route_def starts_with_def)

text \<open>A key hash resolves to a subscription exactly when some subscription of the document lists it, and
  then to one that lists it: a key that left the document is unknown at once.\<close>

lemma subscriptionByKeyHash_listed:
  "case subscriptionByKeyHash (new_table config) hash of
     None \<Rightarrow> \<not> (\<exists>s. s \<in> set (gc_subscriptions config) \<and> hash \<in> set (sub_keyHashes s))
   | Some s \<Rightarrow> s \<in> set (gc_subscriptions config) \<and> hash \<in> set (sub_keyHashes s)"
  using index_key_hashes_Some [of "[]" "gc_subscriptions config" hash]
    index_key_hashes_hit [of _ "gc_subscriptions config" hash "[]"]
  by (auto simp: subscriptionByKeyHash_def new_table_def index_key_hashes_def split: option.splits)

end
