(* ===== verification/Streams.thy ===== *)
theory Streams
  imports ConfigDoc Concurrency
begin

text \<open>
  \<^verbatim>\<open>data-plane/src/stream.ts\<close>, the registry of open streams: the enforcer of both connection ceilings,
  and what lets a poll close the streams of a subscription that has gone. A handle's \<^verbatim>\<open>close\<close> callback
  ends, for a WebSocket bridge and for a supervised SSE body alike, in the registry's \<^verbatim>\<open>close\<close> of its id;
  that is what calling it does here.
\<close>

section \<open>Definitions\<close>

datatype StreamKind = WebSocketStream | SseStream

datatype StreamCloseReason =
    CloseClient | CloseBackend | CloseIdle | CloseMaxConnection | CloseByteBudget | CloseRevoked | CloseShutdown

record StreamHandle =
  sh_id :: nat
  sh_kind :: StreamKind
  sh_resourceId :: string
  sh_subscriptionId :: "string option"
  sh_openedAtMs :: int
  sh_bytesIn :: nat
  sh_bytesOut :: nat

record StreamRegistry =
  reg_streams :: "(nat, StreamHandle) jsmap"
  reg_nextId :: nat
  reg_peak :: nat
  reg_closed :: "(StreamCloseReason, nat) jsmap"
  reg_maxTotal :: nat

datatype stream_admission = StreamOk | RouteFull | InstanceFull

definition new_registry :: "nat \<Rightarrow> StreamRegistry" where
  "new_registry m = \<lparr>reg_streams = [], reg_nextId = 1, reg_peak = 0, reg_closed = [], reg_maxTotal = m\<rparr>"

definition reg_resize :: "StreamRegistry \<Rightarrow> nat \<Rightarrow> StreamRegistry" where
  "reg_resize r m = r\<lparr>reg_maxTotal := m\<rparr>"

definition reg_size :: "StreamRegistry \<Rightarrow> nat" where
  "reg_size r = length (reg_streams r)"

definition countFor :: "StreamRegistry \<Rightarrow> string \<Rightarrow> nat" where
  "countFor r resourceId = length (filter (\<lambda>s. sh_resourceId s = resourceId) (mvalues (reg_streams r)))"

definition admit :: "StreamRegistry \<Rightarrow> string \<Rightarrow> PassthroughUnit option \<Rightarrow> stream_admission" where
  "admit r resourceId unit =
     (if reg_maxTotal r \<le> reg_size r then InstanceFull
      else (case Option.bind unit pt_maxConcurrentConnections of
          Some routeCeiling \<Rightarrow> if routeCeiling \<le> countFor r resourceId then RouteFull else StreamOk
        | None \<Rightarrow> StreamOk))"

definition reg_open :: "StreamRegistry \<Rightarrow> StreamHandle \<Rightarrow> StreamHandle \<times> StreamRegistry" where
  "reg_open r handle =
     (let stream = handle\<lparr>sh_id := reg_nextId r\<rparr>; streams = mset_key (sh_id stream) stream (reg_streams r)
      in (stream, r\<lparr>reg_streams := streams, reg_nextId := reg_nextId r + 1, reg_peak := max (reg_peak r) (length streams)\<rparr>))"

definition reg_close :: "StreamRegistry \<Rightarrow> nat \<Rightarrow> StreamCloseReason \<Rightarrow> StreamRegistry" where
  "reg_close r sid reason =
     (if map_of (reg_streams r) sid = None then r
      else r\<lparr>reg_streams := mdelete sid (reg_streams r),
             reg_closed := mset_key reason ((case map_of (reg_closed r) reason of Some n \<Rightarrow> n | None \<Rightarrow> 0) + 1) (reg_closed r)\<rparr>)"

definition to_revoke :: "string set \<Rightarrow> StreamHandle \<Rightarrow> bool" where
  "to_revoke active s = (case sh_subscriptionId s of
       None \<Rightarrow> False | Some sub \<Rightarrow> sub \<noteq> [] \<and> sub \<notin> active)"

definition closeRevoked :: "StreamRegistry \<Rightarrow> string set \<Rightarrow> nat \<times> StreamRegistry" where
  "closeRevoked r active =
     (let gone = filter (to_revoke active) (mvalues (reg_streams r))
      in (length gone, foldl (\<lambda>r s. reg_close r (sh_id s) CloseRevoked) r gone))"

definition closeAll :: "StreamRegistry \<Rightarrow> StreamCloseReason \<Rightarrow> StreamRegistry" where
  "closeAll r reason = foldl (\<lambda>r s. reg_close r (sh_id s) reason) r (mvalues (reg_streams r))"

definition reg_snapshot :: "StreamRegistry \<Rightarrow> nat \<times> nat \<times> nat \<times> (StreamCloseReason, nat) jsmap" where
  "reg_snapshot r = (length (reg_streams r), reg_peak r, reg_maxTotal r, reg_closed r)"

section \<open>Lemmas\<close>

text \<open>Handles stand under their own ids, which are below the next id; the peak covers what is open; and
  every stream ever opened is open or counted as closed.\<close>

definition closed_total :: "StreamRegistry \<Rightarrow> nat" where
  "closed_total r = msum id (reg_closed r)"

definition registry_ok :: "StreamRegistry \<Rightarrow> bool" where
  "registry_ok r \<longleftrightarrow> distinct (mkeys (reg_streams r)) \<and> distinct (mkeys (reg_closed r)) \<and>
     list_all (\<lambda>(sid, s). sh_id s = sid \<and> sid < reg_nextId r) (reg_streams r) \<and>
     length (reg_streams r) \<le> reg_peak r \<and> reg_nextId r = Suc (length (reg_streams r) + closed_total r)"

lemma registry_fresh: "registry_ok r \<Longrightarrow> reg_nextId r \<notin> set (mkeys (reg_streams r))"
  by (auto simp: registry_ok_def list_all_iff)

lemma reg_open_ok [inv_pres]: "registry_ok r \<Longrightarrow> registry_ok (snd (reg_open r h))"
  using registry_fresh [of r]
  by (auto simp: registry_ok_def reg_open_def Let_def set_fresh_append closed_total_def list_all_iff less_Suc_eq)

lemma length_mdelete: "distinct (mkeys m) \<Longrightarrow> map_of m k \<noteq> None \<Longrightarrow> Suc (length (mdelete k m)) = length m"
  using msum_delete [of m "\<lambda>_. 1" k] by (auto simp: msum_one [unfolded One_nat_def] split: option.splits)

lemma reg_close_ok [inv_pres]:
  assumes "registry_ok r"
  shows "registry_ok (reg_close r sid reason)"
proof (cases "map_of (reg_streams r) sid")
  case None
  with assms show ?thesis by (simp add: reg_close_def)
next
  case (Some s)
  let ?c = "reg_closed r" and ?s = "mdelete sid (reg_streams r)"
  have d: "distinct (mkeys (reg_streams r))" "distinct (mkeys ?c)" using assms by (auto simp: registry_ok_def)
  have len: "Suc (length ?s) = length (reg_streams r)" using length_mdelete [OF d(1)] Some by simp
  have sum: "msum id (mset_key reason ((case map_of ?c reason of Some n \<Rightarrow> n | None \<Rightarrow> 0) + 1) ?c) = Suc (msum id ?c)"
    using msum_set [OF d(2), of id reason "(case map_of ?c reason of Some n \<Rightarrow> n | None \<Rightarrow> 0) + 1"]
    by (cases "map_of ?c reason") auto
  have sub: "set ?s \<subseteq> set (reg_streams r)" by (auto simp: delete_eq_filter)
  have all: "list_all (\<lambda>(sid', s). sh_id s = sid' \<and> sid' < reg_nextId r) ?s"
    using assms sub unfolding registry_ok_def list_all_iff by blast
  have n: "reg_nextId r = Suc (length (reg_streams r) + closed_total r)" "length (reg_streams r) \<le> reg_peak r"
    using assms by (auto simp: registry_ok_def)
  show ?thesis
    using all n len sum Some d unfolding registry_ok_def
    by (simp add: reg_close_def closed_total_def distinct_delete distinct_set)
qed

lemma reg_close_streams: "reg_streams (reg_close r sid reason) = mdelete sid (reg_streams r)"
  by (auto simp: reg_close_def get_None_iff delete_fresh)

lemma close_many_streams:
  "reg_streams (foldl (\<lambda>r s. reg_close r (sh_id s) reason) r ss) =
     filter (\<lambda>(sid, s). sid \<notin> sh_id ` set ss) (reg_streams r)"
proof (induction ss arbitrary: r)
  case (Cons s ss)
  then show ?case by (auto simp: reg_close_streams delete_eq_filter intro!: filter_cong)
qed (simp add: case_prod_beta)

lemma close_many_ok: "registry_ok r \<Longrightarrow> registry_ok (foldl (\<lambda>r s. reg_close r (sh_id s) reason) r ss)"
  by (induction ss arbitrary: r) (auto simp: reg_close_ok)

lemma handle_id: "registry_ok r \<Longrightarrow> (sid, s) \<in> set (reg_streams r) \<Longrightarrow> sh_id s = sid"
  by (auto simp: registry_ok_def list_all_iff)

lemma close_selected:
  assumes "registry_ok r"
  shows "filter (\<lambda>(sid, s). sid \<notin> sh_id ` set (filter P (mvalues (reg_streams r)))) (reg_streams r) =
    filter (\<lambda>(sid, s). \<not> P s) (reg_streams r)"
proof (rule filter_cong [OF refl])
  fix e assume e: "e \<in> set (reg_streams r)"
  obtain sid s where es: "e = (sid, s)" by fastforce
  have uniq: "s' = s" if "(sid, s') \<in> set (reg_streams r)" for s'
    using that e es assms by (auto simp: registry_ok_def dest: eq_key_imp_eq_value)
  have "sid \<in> sh_id ` set (filter P (mvalues (reg_streams r))) \<longleftrightarrow> P s"
  proof
    assume "sid \<in> sh_id ` set (filter P (mvalues (reg_streams r)))"
    then obtain k s' where s': "(k, s') \<in> set (reg_streams r)" "P s'" "sid = sh_id s'" by auto
    with handle_id [OF assms s'(1)] uniq show "P s" by auto
  next
    assume "P s"
    with e es handle_id [OF assms, of sid s] show "sid \<in> sh_id ` set (filter P (mvalues (reg_streams r)))" by force
  qed
  with es show "(case e of (sid, s) \<Rightarrow> sid \<notin> sh_id ` set (filter P (mvalues (reg_streams r)))) = (case e of (sid, s) \<Rightarrow> \<not> P s)"
    by simp
qed

lemma closeRevoked_spec:
  assumes "registry_ok r"
  shows "registry_ok (snd (closeRevoked r active)) \<and>
    reg_streams (snd (closeRevoked r active)) = filter (\<lambda>(sid, s). \<not> to_revoke active s) (reg_streams r) \<and>
    fst (closeRevoked r active) + reg_size (snd (closeRevoked r active)) = reg_size r"
proof -
  have s: "reg_streams (snd (closeRevoked r active)) = filter (\<lambda>(sid, s). \<not> to_revoke active s) (reg_streams r)"
    unfolding closeRevoked_def Let_def snd_conv close_many_streams close_selected [OF assms] ..
  have "length (filter (to_revoke active) (mvalues m)) + length (filter (\<lambda>(sid, s). \<not> to_revoke active s) m) = length m" for m :: "(nat \<times> StreamHandle) list"
    by (induction m) auto
  with s close_many_ok [OF assms] show ?thesis by (simp add: closeRevoked_def Let_def reg_size_def)
qed

lemma closeAll_spec:
  assumes "registry_ok r"
  shows "registry_ok (closeAll r reason) \<and> reg_streams (closeAll r reason) = []"
proof -
  have "reg_streams (closeAll r reason) = []"
    using close_selected [OF assms, of "\<lambda>_. True"] by (simp add: closeAll_def close_many_streams)
  with close_many_ok [OF assms] show ?thesis by (simp add: closeAll_def)
qed

text \<open>What the server does to the registry: a stream is opened only after it was admitted.\<close>

datatype stream_event =
    StreamRequest StreamHandle "PassthroughUnit option"
  | StreamClose nat StreamCloseReason
  | StreamsRevoked "string list"
  | StreamsAll StreamCloseReason
  | StreamResize nat

fun stream_step :: "StreamRegistry \<Rightarrow> stream_event \<Rightarrow> StreamRegistry" where
  "stream_step r (StreamRequest h unit) = (if admit r (sh_resourceId h) unit = StreamOk then snd (reg_open r h) else r)"
| "stream_step r (StreamClose sid reason) = reg_close r sid reason"
| "stream_step r (StreamsRevoked active) = snd (closeRevoked r (set active))"
| "stream_step r (StreamsAll reason) = closeAll r reason"
| "stream_step r (StreamResize m) = reg_resize r m"

lemma reg_resize_ok [inv_pres]: "registry_ok r \<Longrightarrow> registry_ok (reg_resize r m)"
  by (auto simp: registry_ok_def reg_resize_def closed_total_def)

lemma stream_step_ok [inv_pres]: "registry_ok r \<Longrightarrow> registry_ok (stream_step r e)"
  by (cases e) (auto simp: reg_open_ok reg_close_ok reg_resize_ok closeRevoked_spec closeAll_spec)

interpretation stream_registry: machine stream_step registry_ok
  by unfold_locales (rule stream_step_ok)

lemma new_registry_ok: "registry_ok (new_registry m)"
  by (simp add: registry_ok_def new_registry_def closed_total_def)

definition stream_take :: "StreamHandle \<Rightarrow> StreamRegistry \<Rightarrow> StreamRegistry option" where
  "stream_take h r = (if admit r (sh_resourceId h) None = StreamOk then Some (snd (reg_open r h)) else None)"

interpretation stream_slots: slot_pool reg_size reg_maxTotal "stream_take h" "\<lambda>r. reg_close r sid reason" registry_ok
  for h sid reason
proof unfold_locales
  fix s t assume ok: "registry_ok s" and t: "stream_take h s = Some t"
  then have "reg_size s < reg_maxTotal s" "t = snd (reg_open s h)"
    by (auto simp: stream_take_def admit_def split: if_splits)
  with ok registry_fresh [OF ok] reg_open_ok [OF ok, of h]
  show "reg_size s < reg_maxTotal s \<and> reg_size t = Suc (reg_size s) \<and> reg_maxTotal t = reg_maxTotal s \<and> registry_ok t"
    by (simp add: reg_open_def Let_def reg_size_def set_fresh_append)
next
  fix s assume ok: "registry_ok s"
  have "reg_size (reg_close s sid reason) \<le> reg_size s"
    by (simp add: reg_size_def reg_close_streams delete_eq_filter)
  with reg_close_ok [OF ok] show "reg_size (reg_close s sid reason) \<le> reg_size s \<and>
      reg_maxTotal (reg_close s sid reason) = reg_maxTotal s \<and> registry_ok (reg_close s sid reason)"
    by (simp add: reg_close_def)
qed

section \<open>Properties\<close>

text \<open>After any run of the registry the ids are accounted for: the streams ever opened are the ones open
  and the ones counted as closed, the peak covers what is open, and a poll that closes the streams of
  subscriptions outside the active set closes exactly those, leaving every other stream open.\<close>

lemma streams_accounted:
  "case foldl stream_step (new_registry m) es of r \<Rightarrow>
     reg_nextId r = Suc (reg_size r + closed_total r) \<and> reg_size r \<le> reg_peak r \<and>
     reg_streams (snd (closeRevoked r active)) = filter (\<lambda>(_, s). \<not> to_revoke active s) (reg_streams r) \<and>
     reg_size (closeAll r reason) = 0"
proof -
  have ok: "registry_ok (foldl stream_step (new_registry m) es)"
    by (rule stream_registry.run_good [OF new_registry_ok])
  with closeRevoked_spec [OF ok] closeAll_spec [OF ok] show ?thesis
    by (simp add: registry_ok_def reg_size_def)
qed

end
