(* ===== verification/Telemetry.thy ===== *)
theory Telemetry
  imports Complex_Main IsoTime
begin

text \<open>
  \<^verbatim>\<open>shared/telemetry.ts\<close> and \<^verbatim>\<open>data-plane/src/telemetry.ts\<close>: latency histograms and the counters one
  instance keeps per minute and series. A duration is a rational number of milliseconds: the
  arithmetic is exact here, where the source's is a double's. An outcome is the string the wire
  carries. The handle \<^verbatim>\<open>record\<close> returns for the response's bytes is the window and series of the cell it
  points at; a cell whose window is gone receives nothing.
\<close>

declare map_of_eq_Some_iff [simp del] Some_eq_map_of_iff [simp del]

section \<open>Definitions: histograms\<close>

definition OUTCOMES :: "string list" where
  "OUTCOMES = [''ok'', ''upstream-error'', ''no-route'', ''no-config'', ''decommissioned'', ''no-key'', ''bad-key'',
     ''not-in-product'', ''rate-limited'', ''precondition'', ''content-type'', ''soap-mismatch'', ''body-too-large'',
     ''backend-timeout'', ''backend-unreachable'', ''route-saturated'', ''instance-saturated'', ''client-gone'',
     ''validation-rejected'', ''validation-unavailable'', ''validate-budget'', ''quota-exceeded'', ''pool-open'',
     ''ip-denied'', ''bad-credential'', ''rpc-unknown-method'', ''no-operation'', ''rpc-error'', ''cache-hit'',
     ''upgrade-rejected'', ''upgrade-saturated'', ''stream-closed'', ''route-misconfigured'']"

definition SERVED_OUTCOMES :: "string list" where
  "SERVED_OUTCOMES = [''ok'', ''cache-hit'', ''stream-closed'', ''rpc-error'']"

definition GATEWAY_REJECTIONS :: "string list" where
  "GATEWAY_REJECTIONS = filter (\<lambda>outcome. outcome \<noteq> ''upstream-error'' \<and> outcome \<notin> set SERVED_OUTCOMES) OUTCOMES"

definition BUCKET_BOUNDS_MS :: "rat list" where
  "BUCKET_BOUNDS_MS = [1 / 4, 1 / 2, 1, 2, 5, 10, 25, 50, 100, 250, 500, 1000, 2500, 5000, 10000, 30000]"

definition BUCKET_COUNT :: nat where
  "BUCKET_COUNT = length BUCKET_BOUNDS_MS + 1"

definition LEGACY_BUCKET_COUNT :: nat where
  "LEGACY_BUCKET_COUNT = 15"

definition widenBuckets :: "nat list \<Rightarrow> nat list" where
  "widenBuckets from = (if length from \<noteq> LEGACY_BUCKET_COUNT then from else 0 # 0 # from)"

fun bucket_scan :: "rat list \<Rightarrow> rat \<Rightarrow> nat" where
  "bucket_scan [] durationMs = 0"
| "bucket_scan (b # bs) durationMs = (if durationMs \<le> b then 0 else Suc (bucket_scan bs durationMs))"

definition bucketIndex :: "rat \<Rightarrow> nat" where
  "bucketIndex durationMs = bucket_scan BUCKET_BOUNDS_MS durationMs"

definition emptyBuckets :: "nat list" where
  "emptyBuckets = replicate BUCKET_COUNT 0"

text \<open>\<^verbatim>\<open>xs[i] ?? 0\<close>\<close>

definition at_or_0 :: "nat list \<Rightarrow> nat \<Rightarrow> nat" where
  "at_or_0 xs i = (if i < length xs then xs ! i else 0)"

definition addBuckets :: "nat list \<Rightarrow> nat list \<Rightarrow> nat list" where
  "addBuckets into from =
     (let source = widenBuckets from
      in map (\<lambda>i. at_or_0 into i + at_or_0 source i) [0..<BUCKET_COUNT] @ drop BUCKET_COUNT into)"

definition roundMs :: "rat \<Rightarrow> rat" where
  "roundMs ms = of_int \<lfloor>ms * 1000 + 1 / 2\<rfloor> / 1000"

definition bucket_low :: "nat \<Rightarrow> rat" where
  "bucket_low i = (if i = 0 then 0 else BUCKET_BOUNDS_MS ! (i - 1))"

definition bucket_high :: "nat \<Rightarrow> rat" where
  "bucket_high i = (if i = length BUCKET_BOUNDS_MS then BUCKET_BOUNDS_MS ! (i - 1) * 2 else BUCKET_BOUNDS_MS ! i)"

fun percentile_scan :: "nat list \<Rightarrow> rat \<Rightarrow> nat \<Rightarrow> nat list \<Rightarrow> rat" where
  "percentile_scan buckets target cumulative [] = last BUCKET_BOUNDS_MS"
| "percentile_scan buckets target cumulative (i # is) =
     (let count = at_or_0 buckets i
      in if target \<le> of_nat (cumulative + count) then
           (if count = 0 then bucket_high i
            else roundMs (bucket_low i + (bucket_high i - bucket_low i) * ((target - of_nat cumulative) / of_nat count)))
         else percentile_scan buckets target (cumulative + count) is)"

definition percentile :: "nat list \<Rightarrow> rat \<Rightarrow> rat option" where
  "percentile buckets q =
     (let total = sum_list buckets
      in if total = 0 then None else Some (percentile_scan buckets (q * of_nat total) 0 [0..<BUCKET_COUNT]))"

definition windowStartOf :: "int \<Rightarrow> string" where
  "windowStartOf atMs = toISOString (atMs div 60000 * 60000)"

section \<open>Definitions: the instance's counters\<close>

record Cell =
  cell_count :: nat
  cell_durationMsSum :: rat
  cell_durationMsMax :: rat
  cell_bytesIn :: nat
  cell_bytesOut :: nat
  cell_buckets :: "nat list"
  cell_gatewayBuckets :: "nat list"
  cell_backendMsSum :: rat
  cell_backendCount :: nat

record RecordInput =
  ri_resourceId :: "string option"
  ri_subscriptionId :: "string option"
  ri_outcome :: string
  ri_status :: nat
  ri_durationMs :: rat
  ri_backendMs :: "rat option"
  ri_bytesIn :: nat
  ri_bytesOut :: nat
  ri_completedAtMs :: int

record InstanceTelemetry =
  tel_windows :: "(string, (string, Cell) jsmap) jsmap"
  tel_requestsTotal :: nat
  tel_droppedSeries :: nat
  tel_droppedWindows :: nat
  tel_batchSize :: nat
  tel_maxSeries :: nat
  tel_maxWindowsPerReport :: nat

definition new_telemetry :: "nat \<Rightarrow> nat \<Rightarrow> InstanceTelemetry" where
  "new_telemetry maxSeries maxWindows = \<lparr>tel_windows = [], tel_requestsTotal = 0, tel_droppedSeries = 0,
     tel_droppedWindows = 0, tel_batchSize = maxWindows, tel_maxSeries = maxSeries, tel_maxWindowsPerReport = maxWindows\<rparr>"

definition tel_resize :: "InstanceTelemetry \<Rightarrow> nat \<Rightarrow> nat \<Rightarrow> InstanceTelemetry" where
  "tel_resize t maxSeries maxWindows =
     (let wasBackedOff = tel_batchSize t < tel_maxWindowsPerReport t
      in t\<lparr>tel_maxSeries := maxSeries, tel_maxWindowsPerReport := maxWindows,
           tel_batchSize := (if \<not> wasBackedOff then maxWindows else min (tel_batchSize t) maxWindows)\<rparr>)"

definition seriesCount :: "(string, (string, Cell) jsmap) jsmap \<Rightarrow> nat" where
  "seriesCount windows = msum length windows"

definition series_key :: "RecordInput \<Rightarrow> string" where
  "series_key i = js_join ''|'' [case ri_resourceId i of Some r \<Rightarrow> r | None \<Rightarrow> [],
     case ri_subscriptionId i of Some s \<Rightarrow> s | None \<Rightarrow> [], ri_outcome i, show_nat (ri_status i)]"

definition overflow_key :: string where
  "overflow_key = ''||overflow|0''"

definition empty_cell :: Cell where
  "empty_cell = \<lparr>cell_count = 0, cell_durationMsSum = 0, cell_durationMsMax = 0, cell_bytesIn = 0, cell_bytesOut = 0,
     cell_buckets = emptyBuckets, cell_gatewayBuckets = emptyBuckets, cell_backendMsSum = 0, cell_backendCount = 0\<rparr>"

definition bump :: "nat \<Rightarrow> nat list \<Rightarrow> nat list" where
  "bump i bs = bs[i := bs ! i + 1]"

definition cell_add :: "RecordInput \<Rightarrow> Cell \<Rightarrow> Cell" where
  "cell_add i c =
     (let c = c\<lparr>cell_count := cell_count c + 1,
                cell_durationMsSum := cell_durationMsSum c + ri_durationMs i,
                cell_durationMsMax := max (cell_durationMsMax c) (ri_durationMs i),
                cell_bytesIn := cell_bytesIn c + ri_bytesIn i,
                cell_bytesOut := cell_bytesOut c + ri_bytesOut i,
                cell_buckets := bump (bucketIndex (ri_durationMs i)) (cell_buckets c)\<rparr>
      in if ri_outcome i = ''stream-closed'' then c
         else (let c = (case ri_backendMs i of
                   None \<Rightarrow> c
                 | Some b \<Rightarrow> c\<lparr>cell_backendMsSum := cell_backendMsSum c + b, cell_backendCount := cell_backendCount c + 1\<rparr>)
               in c\<lparr>cell_gatewayBuckets :=
                      bump (bucketIndex (max 0 (ri_durationMs i - (case ri_backendMs i of Some b \<Rightarrow> b | None \<Rightarrow> 0))))
                        (cell_gatewayBuckets c)\<rparr>))"

text \<open>The counters with the request in them, and the cell the bytes' handle points at.\<close>

definition tel_record :: "InstanceTelemetry \<Rightarrow> RecordInput \<Rightarrow> (string \<times> string) \<times> InstanceTelemetry" where
  "tel_record t i =
     (let w = windowStartOf (ri_completedAtMs i);
          window = (case map_of (tel_windows t) w of Some x \<Rightarrow> x | None \<Rightarrow> []);
          folded = (map_of window (series_key i) = None \<and> tel_maxSeries t \<le> seriesCount (mset_key w window (tel_windows t)));
          key = (if folded then overflow_key else series_key i);
          cell = (case map_of window key of Some c \<Rightarrow> c | None \<Rightarrow> empty_cell)
      in ((w, key),
          t\<lparr>tel_requestsTotal := tel_requestsTotal t + 1,
            tel_droppedSeries := tel_droppedSeries t + (if folded then 1 else 0),
            tel_windows := mset_key w (mset_key key (cell_add i cell) window) (tel_windows t)\<rparr>))"

definition addBytesOut :: "InstanceTelemetry \<Rightarrow> string \<times> string \<Rightarrow> nat \<Rightarrow> InstanceTelemetry" where
  "addBytesOut t handle bytes = (case handle of (w, key) \<Rightarrow>
     (case map_of (tel_windows t) w of
        None \<Rightarrow> t
      | Some window \<Rightarrow> (case map_of window key of
            None \<Rightarrow> t
          | Some c \<Rightarrow> t\<lparr>tel_windows := mset_key w
              (mset_key key (c\<lparr>cell_bytesOut := cell_bytesOut c + bytes\<rparr>) window) (tel_windows t)\<rparr>)))"

record TelemetrySeries =
  ts_resourceId :: string
  ts_subscriptionId :: string
  ts_outcome :: string
  ts_status :: nat
  ts_cell :: Cell

definition series_of :: "string \<times> Cell \<Rightarrow> TelemetrySeries" where
  "series_of kc = (case kc of (key, c) \<Rightarrow>
     (case js_split CHR ''|'' key of
        resourceId # subscriptionId # outcome # status # _ \<Rightarrow>
          \<lparr>ts_resourceId = resourceId, ts_subscriptionId = subscriptionId, ts_outcome = outcome,
           ts_status = read_nat status,
           ts_cell = c\<lparr>cell_buckets := addBuckets emptyBuckets (cell_buckets c),
                       cell_gatewayBuckets := addBuckets emptyBuckets (cell_gatewayBuckets c)\<rparr>\<rparr>
      | _ \<Rightarrow> \<lparr>ts_resourceId = key, ts_subscriptionId = [], ts_outcome = [], ts_status = 0, ts_cell = c\<rparr>))"

record TelemetryReport =
  tr_droppedSeries :: nat
  tr_droppedWindows :: nat
  tr_windows :: "(string \<times> TelemetrySeries list) list"

definition delete_windows :: "string list \<Rightarrow> (string, 'c) jsmap \<Rightarrow> (string, 'c) jsmap" where
  "delete_windows ws windows = foldl (\<lambda>m w. mdelete w m) windows ws"

definition excess_windows :: "InstanceTelemetry \<Rightarrow> string list" where
  "excess_windows t = (let ordered = sort (mkeys (tel_windows t)) in take (length ordered - tel_batchSize t) ordered)"

definition tel_snapshot :: "InstanceTelemetry \<Rightarrow> TelemetryReport \<times> InstanceTelemetry" where
  "tel_snapshot t =
     (let excess = excess_windows t;
          ordered = drop (length excess) (sort (mkeys (tel_windows t)));
          t = t\<lparr>tel_windows := delete_windows excess (tel_windows t),
                tel_droppedWindows := tel_droppedWindows t + length excess\<rparr>
      in (\<lparr>tr_droppedSeries = tel_droppedSeries t, tr_droppedWindows = tel_droppedWindows t,
           tr_windows = map (\<lambda>w. (w, map series_of (the (map_of (tel_windows t) w)))) ordered\<rparr>, t))"

definition clearAccepted :: "InstanceTelemetry \<Rightarrow> string list \<Rightarrow> InstanceTelemetry" where
  "clearAccepted t windowStarts =
     t\<lparr>tel_windows := delete_windows windowStarts (tel_windows t), tel_batchSize := tel_maxWindowsPerReport t\<rparr>"

definition halveBatch :: "InstanceTelemetry \<Rightarrow> nat \<times> InstanceTelemetry" where
  "halveBatch t = (let b = max 1 (tel_batchSize t div 2) in (b, t\<lparr>tel_batchSize := b\<rparr>))"

definition tel_stats :: "InstanceTelemetry \<Rightarrow> nat list" where
  "tel_stats t = [seriesCount (tel_windows t), length (tel_windows t), tel_droppedSeries t, tel_droppedWindows t, tel_batchSize t]"

section \<open>Histograms\<close>

lemma bounds_len: "length BUCKET_BOUNDS_MS = 16"
  by (simp add: BUCKET_BOUNDS_MS_def)

lemma BUCKET_COUNT_eq: "BUCKET_COUNT = 17"
  by (simp add: BUCKET_COUNT_def bounds_len)

lemma bucketIndex_less: "bucketIndex d < BUCKET_COUNT"
proof -
  have "bucket_scan bs d \<le> length bs" for bs by (induction bs) auto
  then show ?thesis by (simp add: bucketIndex_def BUCKET_COUNT_def le_imp_less_Suc)
qed

lemma sum_bump: "i < length bs \<Longrightarrow> sum_list (bump i bs) = Suc (sum_list bs)"
  by (induction bs arbitrary: i) (auto simp: bump_def nth_Cons split: nat.splits)

lemma length_bump [simp]: "length (bump i bs) = length bs"
  by (simp add: bump_def)

lemma addBuckets_empty: "length bs = BUCKET_COUNT \<Longrightarrow> addBuckets emptyBuckets bs = bs"
  by (intro nth_equalityI)
     (auto simp: addBuckets_def widenBuckets_def emptyBuckets_def at_or_0_def BUCKET_COUNT_eq LEGACY_BUCKET_COUNT_def Let_def nth_append)

lemma round_within:
  assumes "a * 1000 \<in> \<int>" "b * 1000 \<in> \<int>" "a \<le> x" "x \<le> b"
  shows "a \<le> roundMs x \<and> roundMs x \<le> b"
proof -
  from assms(1,2) obtain m n :: int where m: "a * 1000 = of_int m" and n: "b * 1000 = of_int n" by (auto elim!: Ints_cases)
  have "of_int m \<le> x * 1000" "x * 1000 \<le> of_int n" using assms(3,4) m n by auto
  then have "m \<le> \<lfloor>x * 1000 + 1 / 2\<rfloor>" "\<lfloor>x * 1000 + 1 / 2\<rfloor> \<le> n"
    by (auto simp: le_floor_iff floor_le_iff)
  then have "a * 1000 \<le> of_int \<lfloor>x * 1000 + 1 / 2\<rfloor>" "of_int \<lfloor>x * 1000 + 1 / 2\<rfloor> \<le> b * 1000" by (auto simp: m n)
  then show ?thesis by (simp add: roundMs_def field_simps)
qed

lemma bounds_milli: "i < 17 \<Longrightarrow> bucket_low i * 1000 \<in> \<int> \<and> bucket_high i * 1000 \<in> \<int> \<and> bucket_low i \<le> bucket_high i"
  by (auto simp: less_Suc_eq numeral_eq_Suc bucket_low_def bucket_high_def BUCKET_BOUNDS_MS_def)

lemma percentile_scan_brackets:
  assumes "length buckets = BUCKET_COUNT" "target \<le> of_nat (sum_list buckets)" "n \<le> BUCKET_COUNT" "0 \<le> target"
    and "n = 0 \<or> of_nat (sum_list (take n buckets)) < target" "n < BUCKET_COUNT"
  shows "\<exists>i<BUCKET_COUNT. bucket_low i \<le> percentile_scan buckets target (sum_list (take n buckets)) [n..<BUCKET_COUNT] \<and>
     percentile_scan buckets target (sum_list (take n buckets)) [n..<BUCKET_COUNT] \<le> bucket_high i \<and>
     (i = 0 \<or> of_nat (sum_list (take i buckets)) < target) \<and> target \<le> of_nat (sum_list (take (Suc i) buckets))"
  using assms
proof (induction "BUCKET_COUNT - n" arbitrary: n)
  case 0
  then show ?case by simp
next
  case (Suc k)
  let ?c = "sum_list (take n buckets)"
  have up: "[n..<BUCKET_COUNT] = n # [Suc n..<BUCKET_COUNT]" using Suc.prems(6) by (rule upt_conv_Cons)
  have step: "sum_list (take (Suc n) buckets) = ?c + buckets ! n"
    using Suc.prems(1,6) by (simp add: take_Suc_conv_app_nth)
  have at: "at_or_0 buckets n = buckets ! n" using Suc.prems(1,6) by (simp add: at_or_0_def)
  show ?case
  proof (cases "target \<le> of_nat (?c + buckets ! n)")
    case True
    note b = bounds_milli [of n] Suc.prems(6) [unfolded BUCKET_COUNT_eq]
    show ?thesis
    proof (intro exI conjI)
      show "n < BUCKET_COUNT" by (rule Suc.prems(6))
      show "n = 0 \<or> of_nat ?c < target" by (rule Suc.prems(5))
      show "target \<le> of_nat (sum_list (take (Suc n) buckets))" using True by (simp add: step)
      let ?r = "percentile_scan buckets target ?c [n..<BUCKET_COUNT]"
      have "bucket_low n \<le> ?r \<and> ?r \<le> bucket_high n"
      proof (cases "buckets ! n = 0")
        case True': True
        then show ?thesis using True b by (simp add: up at Let_def)
      next
        case False
        let ?w = "(target - of_nat ?c) / of_nat (buckets ! n) :: rat"
        have low: "of_nat ?c \<le> target" using Suc.prems(4,5) by auto
        have w: "0 \<le> ?w" "?w \<le> 1" using low True False by (auto simp: field_simps)
        let ?x = "bucket_low n + (bucket_high n - bucket_low n) * ?w"
        have "0 \<le> (bucket_high n - bucket_low n) * ?w" using w(1) b by (intro mult_nonneg_nonneg) auto
        then have "bucket_low n \<le> ?x" by simp
        moreover have "?x \<le> bucket_high n"
          using mult_left_mono [OF w(2), of "bucket_high n - bucket_low n"] b by simp
        ultimately have "bucket_low n \<le> roundMs ?x \<and> roundMs ?x \<le> bucket_high n"
          using b by (intro round_within) auto
        then show ?thesis using True False by (simp add: up at Let_def)
      qed
      then show "bucket_low n \<le> ?r" "?r \<le> bucket_high n" by auto
    qed
  next
    case False
    have more: "Suc n < BUCKET_COUNT"
    proof (rule ccontr)
      assume "\<not> Suc n < BUCKET_COUNT"
      then have "take (Suc n) buckets = buckets" using Suc.prems(1) by simp
      with False step Suc.prems(2) show False by simp
    qed
    have "\<exists>i<BUCKET_COUNT. bucket_low i \<le> percentile_scan buckets target (sum_list (take (Suc n) buckets)) [Suc n..<BUCKET_COUNT] \<and>
     percentile_scan buckets target (sum_list (take (Suc n) buckets)) [Suc n..<BUCKET_COUNT] \<le> bucket_high i \<and>
     (i = 0 \<or> of_nat (sum_list (take i buckets)) < target) \<and> target \<le> of_nat (sum_list (take (Suc i) buckets))"
      using Suc(2) more Suc.prems False by (intro Suc(1)) (auto simp: step)
    then show ?thesis using False by (simp add: up at step Let_def)
  qed
qed

section \<open>The counters\<close>

definition held_requests :: "InstanceTelemetry \<Rightarrow> nat" where
  "held_requests t = msum (msum cell_count) (tel_windows t)"

definition window_requests :: "InstanceTelemetry \<Rightarrow> string \<Rightarrow> nat" where
  "window_requests t w = (case map_of (tel_windows t) w of None \<Rightarrow> 0 | Some window \<Rightarrow> msum cell_count window)"

definition cell_ok :: "Cell \<Rightarrow> bool" where
  "cell_ok c \<longleftrightarrow> length (cell_buckets c) = BUCKET_COUNT \<and> length (cell_gatewayBuckets c) = BUCKET_COUNT \<and>
     sum_list (cell_buckets c) = cell_count c \<and> sum_list (cell_gatewayBuckets c) \<le> cell_count c \<and>
     cell_backendCount c \<le> cell_count c"

definition window_ok :: "(string, Cell) jsmap \<Rightarrow> bool" where
  "window_ok window \<longleftrightarrow> distinct (mkeys window) \<and> list_all (\<lambda>(_, c). cell_ok c) window"

definition tel_ok :: "InstanceTelemetry \<Rightarrow> bool" where
  "tel_ok t \<longleftrightarrow> distinct (mkeys (tel_windows t)) \<and> list_all (\<lambda>(_, window). window_ok window) (tel_windows t)"

lemma list_all_mset: "list_all P m \<Longrightarrow> P (k, v) \<Longrightarrow> list_all P (mset_key k v m)"
  by (induction m) auto

lemma list_all_get: "list_all P m \<Longrightarrow> map_of m k = Some v \<Longrightarrow> P (k, v)"
  by (auto simp: list_all_iff dest: map_of_SomeD)

lemma cell_add_count: "cell_count (cell_add i c) = Suc (cell_count c)"
  by (simp add: cell_add_def Let_def split: option.splits)

lemma cell_add_ok: "cell_ok c \<Longrightarrow> cell_ok (cell_add i c)"
  by (auto simp: cell_ok_def cell_add_def Let_def sum_bump bucketIndex_less split: option.splits)

lemma empty_cell_ok: "cell_ok empty_cell" "cell_count empty_cell = 0"
  by (simp_all add: cell_ok_def empty_cell_def emptyBuckets_def)

lemma add_to_window:
  assumes "window_ok window" "cell = (case map_of window key of Some c \<Rightarrow> c | None \<Rightarrow> empty_cell)"
  shows "window_ok (mset_key key (cell_add i cell) window) \<and>
    msum cell_count (mset_key key (cell_add i cell) window) = Suc (msum cell_count window)"
proof -
  have d: "distinct (mkeys window)" using assms(1) by (simp add: window_ok_def)
  have "cell_ok cell" using assms list_all_get [of "\<lambda>(_, c). cell_ok c" window key]
    by (auto simp: window_ok_def empty_cell_ok split: option.splits)
  then have "window_ok (mset_key key (cell_add i cell) window)"
    using assms(1) d by (simp add: window_ok_def distinct_set list_all_mset cell_add_ok)
  moreover have "msum cell_count (mset_key key (cell_add i cell) window) = Suc (msum cell_count window)"
    using msum_set [OF d, of cell_count key "cell_add i cell"] assms(2) empty_cell_ok
    by (auto simp: cell_add_count split: option.splits)
  ultimately show ?thesis by simp
qed

lemma window_get_ok: "tel_ok t \<Longrightarrow> window_ok (case map_of (tel_windows t) w of Some x \<Rightarrow> x | None \<Rightarrow> [])"
  using list_all_get [of "\<lambda>(_, window). window_ok window" "tel_windows t" w]
  by (auto simp: tel_ok_def window_ok_def split: option.splits)

lemma tel_record_ok:
  assumes "tel_ok t"
  shows "tel_ok (snd (tel_record t i)) \<and> held_requests (snd (tel_record t i)) = Suc (held_requests t) \<and>
    tel_requestsTotal (snd (tel_record t i)) = Suc (tel_requestsTotal t)"
proof -
  define w where "w = windowStartOf (ri_completedAtMs i)"
  define window where "window = (case map_of (tel_windows t) w of Some x \<Rightarrow> x | None \<Rightarrow> [])"
  obtain key c where r: "tel_windows (snd (tel_record t i)) = mset_key w (mset_key key (cell_add i c) window) (tel_windows t)"
    "c = (case map_of window key of Some c \<Rightarrow> c | None \<Rightarrow> empty_cell)"
    by (simp add: tel_record_def Let_def w_def window_def)
  have ok: "window_ok window" unfolding window_def by (rule window_get_ok [OF assms])
  note A = add_to_window [OF ok r(2), of i]
  have d: "distinct (mkeys (tel_windows t))" using assms by (simp add: tel_ok_def)
  have "tel_ok (snd (tel_record t i))"
    using A assms d by (simp add: tel_ok_def r(1) distinct_set list_all_mset)
  moreover have "held_requests (snd (tel_record t i)) = Suc (held_requests t)"
    using msum_set [OF d, of "msum cell_count" w "mset_key key (cell_add i c) window"] A
    by (auto simp: held_requests_def r(1) window_def split: option.splits)
  ultimately show ?thesis by (simp add: tel_record_def Let_def)
qed

lemma addBytesOut_ok:
  assumes "tel_ok t"
  shows "tel_ok (addBytesOut t h n) \<and> held_requests (addBytesOut t h n) = held_requests t"
proof (cases "case h of (w, key) \<Rightarrow> (case map_of (tel_windows t) w of None \<Rightarrow> None | Some x \<Rightarrow> map_of x key)")
  case None
  then have "addBytesOut t h n = t" by (auto simp: addBytesOut_def split: prod.splits option.splits)
  with assms show ?thesis by simp
next
  case (Some c)
  then obtain w key x where h: "h = (w, key)" "map_of (tel_windows t) w = Some x" "map_of x key = Some c"
    by (auto split: prod.splits option.splits)
  let ?c = "c\<lparr>cell_bytesOut := cell_bytesOut c + n\<rparr>"
  have d: "distinct (mkeys (tel_windows t))" using assms by (simp add: tel_ok_def)
  have x: "window_ok x" using window_get_ok [OF assms, of w] h by simp
  have c: "cell_ok ?c" using x h(3) list_all_get [of "\<lambda>(_, c). cell_ok c" x key] by (auto simp: window_ok_def cell_ok_def)
  have wx: "window_ok (mset_key key ?c x)" using x c by (simp add: window_ok_def distinct_set list_all_mset)
  have "msum cell_count (mset_key key ?c x) = msum cell_count x"
    using msum_set [of x cell_count key ?c] x h(3) by (simp add: window_ok_def)
  with msum_set [OF d, of "msum cell_count" w "mset_key key ?c x"] h(2)
  have "held_requests (addBytesOut t h n) = held_requests t" by (simp add: held_requests_def addBytesOut_def h)
  moreover have "tel_ok (addBytesOut t h n)" using assms wx by (simp add: tel_ok_def addBytesOut_def h distinct_set list_all_mset)
  ultimately show ?thesis by simp
qed

lemma delete_windows_ok:
  assumes "distinct (mkeys m)" "list_all P m"
  shows "distinct (mkeys (delete_windows ws m)) \<and> list_all P (delete_windows ws m) \<and>
    msum f m = msum f (delete_windows ws m) +
      sum_list (map (\<lambda>w. case map_of m w of None \<Rightarrow> 0 | Some x \<Rightarrow> f x) (remdups ws))"
  using assms unfolding delete_windows_def
proof (induction ws arbitrary: m)
  case (Cons w ws)
  have sub: "list_all P (mdelete w m)" using Cons.prems(2) by (auto simp: delete_eq_filter list_all_iff)
  have IH: "distinct (mkeys (foldl (\<lambda>m w. mdelete w m) (mdelete w m) ws)) \<and> list_all P (foldl (\<lambda>m w. mdelete w m) (mdelete w m) ws) \<and>
    msum f (mdelete w m) = msum f (foldl (\<lambda>m w. mdelete w m) (mdelete w m) ws) +
      sum_list (map (\<lambda>v. case map_of (mdelete w m) v of None \<Rightarrow> 0 | Some x \<Rightarrow> f x) (remdups ws))"
    by (rule Cons.IH [OF distinct_delete [OF Cons.prems(1)] sub])
  let ?g = "\<lambda>m v. case map_of m v of None \<Rightarrow> 0 | Some x \<Rightarrow> f x"
  have del: "msum f (mdelete w m) + ?g m w = msum f m" by (rule msum_delete [OF Cons.prems(1)])
  have sums: "sum_list (map (?g (mdelete w m)) (remdups ws)) + ?g m w = sum_list (map (?g m) (remdups (w # ws)))"
  proof (cases "w \<in> set ws")
    case False
    then have "map (?g (mdelete w m)) (remdups ws) = map (?g m) (remdups ws)" by (intro map_cong) (auto simp: jsmap)
    then have "sum_list (map (?g (mdelete w m)) (remdups ws)) = sum_list (map (?g m) (remdups ws))" by (rule arg_cong)
    with False show ?thesis by simp
  next
    case True
    have "sum_list (map (?g (mdelete w m)) vs) + (if w \<in> set vs then ?g m w else 0) = sum_list (map (?g m) vs)" if "distinct vs" for vs
      using that by (induction vs) (auto simp: jsmap)
    from this [of "remdups ws"] True show ?thesis by simp
  qed
  from IH del sums show ?case by simp
qed simp

text \<open>What happens to the counters, and the requests in the windows each event lets go of.\<close>

datatype tel_event =
    TRecord RecordInput
  | TBytes "string \<times> string" nat
  | TSnapshot
  | TClear "string list"
  | THalve
  | TResize nat nat

fun tel_step :: "InstanceTelemetry \<times> nat \<Rightarrow> tel_event \<Rightarrow> InstanceTelemetry \<times> nat" where
  "tel_step (t, gone) (TRecord i) = (snd (tel_record t i), gone)"
| "tel_step (t, gone) (TBytes h n) = (addBytesOut t h n, gone)"
| "tel_step (t, gone) TSnapshot = (snd (tel_snapshot t), gone + sum_list (map (window_requests t) (remdups (excess_windows t))))"
| "tel_step (t, gone) (TClear ws) = (clearAccepted t ws, gone + sum_list (map (window_requests t) (remdups ws)))"
| "tel_step (t, gone) THalve = (snd (halveBatch t), gone)"
| "tel_step (t, gone) (TResize s w) = (tel_resize t s w, gone)"

definition tel_good :: "InstanceTelemetry \<times> nat \<Rightarrow> bool" where
  "tel_good s \<longleftrightarrow> tel_ok (fst s) \<and> tel_requestsTotal (fst s) = held_requests (fst s) + snd s"

lemma tel_step_good [inv_pres]: "tel_good s \<Longrightarrow> tel_good (tel_step s e)"
proof (cases s)
  case (Pair t gone)
  assume "tel_good s"
  with Pair have ok: "tel_ok t" and tot: "tel_requestsTotal t = held_requests t + gone" by (simp_all add: tel_good_def)
  note del = delete_windows_ok [of "tel_windows t" "\<lambda>(_, window). window_ok window" _ "msum cell_count"]
  have req: "window_requests t = (\<lambda>w. case map_of (tel_windows t) w of None \<Rightarrow> 0 | Some x \<Rightarrow> msum cell_count x)"
    by (rule ext) (simp add: window_requests_def)
  show ?thesis
  proof (cases e)
    case (TRecord i)
    with tel_record_ok [OF ok, of i] tot Pair show ?thesis by (simp add: tel_good_def)
  next
    case (TBytes h n)
    have "tel_requestsTotal (addBytesOut t h n) = tel_requestsTotal t"
      by (auto simp: addBytesOut_def split: prod.splits option.splits)
    with TBytes addBytesOut_ok [OF ok, of h n] tot Pair show ?thesis by (simp add: tel_good_def)
  next
    case TSnapshot
    with del [of "excess_windows t"] ok tot Pair show ?thesis
      by (simp add: tel_good_def tel_ok_def tel_snapshot_def Let_def held_requests_def req)
  next
    case (TClear ws)
    with del [of ws] ok tot Pair show ?thesis
      by (simp add: tel_good_def tel_ok_def clearAccepted_def held_requests_def req)
  next
    case THalve
    with ok tot Pair show ?thesis by (simp add: tel_good_def tel_ok_def halveBatch_def Let_def held_requests_def)
  next
    case (TResize m n)
    with ok tot Pair show ?thesis by (simp add: tel_good_def tel_ok_def tel_resize_def Let_def held_requests_def)
  qed
qed

interpretation telemetry: machine tel_step tel_good
  by unfold_locales (rule tel_step_good)

section \<open>Properties\<close>

text \<open>Every request is counted exactly once. After any run, the instance's total equals the requests in the
  windows it holds plus those in the windows it has let go of, and in every held series each histogram
  is of full width, the latency buckets add up to the request count, and neither the attributed nor
  the backend-served requests exceed it.\<close>

lemma telemetry_conserved:
  "case foldl tel_step (new_telemetry maxSeries maxWindows, 0) es of (t, gone) \<Rightarrow>
     tel_requestsTotal t = held_requests t + gone \<and>
     list_all (\<lambda>(_, window). list_all (\<lambda>(_, c).
        length (cell_buckets c) = 17 \<and> sum_list (cell_buckets c) = cell_count c \<and>
        sum_list (cell_gatewayBuckets c) \<le> cell_count c \<and> cell_backendCount c \<le> cell_count c) window) (tel_windows t)"
proof -
  have "tel_good (new_telemetry maxSeries maxWindows, 0)"
    by (simp add: tel_good_def tel_ok_def new_telemetry_def held_requests_def)
  from telemetry.run_good [OF this, of es] show ?thesis
    by (auto simp: tel_good_def tel_ok_def window_ok_def cell_ok_def list_all_iff BUCKET_COUNT_eq split: prod.splits)
qed

text \<open>A percentile is bracketed by the bucket that holds its rank: fewer requests than the target lie in
  the buckets before it, at least the target lie in the buckets through it, and the interpolated and
  rounded value does not leave the bucket's bounds.\<close>

lemma percentile_brackets:
  assumes "length buckets = BUCKET_COUNT" "0 \<le> q" "q \<le> 1" "percentile buckets q = Some p"
  shows "\<exists>i<BUCKET_COUNT. bucket_low i \<le> p \<and> p \<le> bucket_high i \<and>
     (i = 0 \<or> of_nat (sum_list (take i buckets)) < q * of_nat (sum_list buckets)) \<and>
     q * of_nat (sum_list buckets) \<le> of_nat (sum_list (take (Suc i) buckets))"
proof -
  let ?t = "q * of_nat (sum_list buckets) :: rat"
  have "0 \<le> ?t" using assms(2) by simp
  moreover have "?t \<le> of_nat (sum_list buckets)" using assms(3) mult_right_mono [of q 1 "of_nat (sum_list buckets)"] by simp
  moreover have "p = percentile_scan buckets ?t (sum_list (take 0 buckets)) [0..<BUCKET_COUNT]"
    using assms(4) by (auto simp: percentile_def Let_def split: if_splits)
  ultimately show ?thesis
    using percentile_scan_brackets [OF assms(1), of ?t 0] by (simp add: BUCKET_COUNT_eq)
qed

lemma percentile_brackets_example:
  "\<exists>i p. percentile (2 # 2 # replicate 15 0) (1 / 2) = Some p \<and> bucket_low i \<le> p \<and> p \<le> bucket_high i"
proof -
  have p: "percentile (2 # 2 # replicate 15 0) (1 / 2) = Some (percentile_scan (2 # 2 # replicate 15 0) 2 0 [0..<BUCKET_COUNT])"
    by (simp add: percentile_def sum_list_replicate)
  from percentile_brackets [OF _ _ _ p] show ?thesis using p by (auto simp: BUCKET_COUNT_eq)
qed

end
