(* ===== verification/ConfigClient.thy ===== *)
theory ConfigClient
  imports RouteTable Quota Streams Telemetry
begin

text \<open>
  \<^verbatim>\<open>data-plane/src/config-client.ts\<close>: the poll that brings an instance its configuration and carries its
  report. \<^verbatim>\<open>pollOnce\<close> is an asynchronous function with two suspension points, the fetch and the prefetch of
  artifacts, and the timer may call it again while it is suspended. A suspended call is a continuation
  in the list \<^verbatim>\<open>sys_polls\<close>; any continuation may be resumed next. The flag \<^verbatim>\<open>inFlight\<close> is what keeps that list
  at one element, and is proved to.

  The components the data plane attaches (quota, streams, telemetry, response cache) are their own
  models; the sampler and the validation counters are a reset counter and a list of counts. The
  settings hook, the trusted-proxy flag and the artifact cache are optional as in the source: the hook's
  refusal is a function in the options, what a prefetch leaves missing is an input, and so are the
  answers of the control plane. A policy's serialised text is the argument \<^verbatim>\<open>serialise\<close>. An error text is a
  value that carries what the text names. Warming the resolver after an activation changes no state of
  the instance and is left out.
\<close>

section \<open>Definitions: state\<close>

datatype client_reason =
    PollFailed
  | TokenRejected nat
  | ReportTooLarge nat
  | WireRefused int rat
  | HttpStatus nat
  | InvalidJson
  | WireUnsupported "int option"
  | ConfigUnsupported "int option"
  | SettingsRefused string
  | NoTrustBoundary string
  | MissingArtifacts "string list"

record client_options =
  opt_wireVersion :: int
  opt_settingsBlocker :: "(GatewaySettings \<Rightarrow> string option) option"
  opt_trustedProxyConfigured :: "bool option"
  opt_artifacts :: bool

datatype cache_file = NoFile | Unreadable | Stored GatewayConfig

record ConfigClient =
  cc_table :: "RouteTable option"
  cc_decommissioned :: bool
  cc_lastPollAt :: "string option"
  cc_lastError :: "client_reason option"
  cc_fromCache :: bool
  cc_activationBlocked :: "client_reason option"
  cc_servingRefusal :: "client_reason option"
  cc_inFlight :: bool
  cc_applied :: "GatewaySettings option"
  cc_cacheFile :: cache_file
  cc_quota :: QuotaCounters
  cc_streams :: StreamRegistry
  cc_telemetry :: InstanceTelemetry
  cc_responseCache :: ResponseCache
  cc_samplerResets :: nat
  cc_validation :: "nat list"

datatype poll_result = Updated | Unchanged | Revoked | Blocked | PollError | Skipped | Threw client_reason

record wire_body =
  wb_wireVersion :: "int option"
  wb_unchanged :: bool
  wb_acceptedWindows :: "string list option"
  wb_config :: "GatewayConfig option"
  wb_quotaAggregates :: "QuotaAggregate list option"
  wb_expected :: "rat option"
  wb_received :: "rat option"

record http_answer =
  ans_status :: nat
  ans_json :: bool
  ans_body :: "wire_body option"

record PollRequest =
  req_wireVersion :: int
  req_activeDigest :: "string option"
  req_activationBlocked :: "client_reason option"
  req_requestsTotal :: nat
  req_telemetry :: TelemetryReport
  req_validation :: "nat list"
  req_deltas :: "QuotaDelta list"

section \<open>Definitions: operations\<close>

definition spread :: "('k, 'v) jsmap \<Rightarrow> ('k, 'v) jsmap \<Rightarrow> ('k, 'v) jsmap" where
  "spread base over = foldl (\<lambda>m (k, v). mset_key k v m) base over"

definition settings_of :: "GatewayConfig \<Rightarrow> GatewaySettings" where
  "settings_of config = (case gc_settings config of Some s \<Rightarrow> s | None \<Rightarrow> [])"

definition settings_refusal :: "client_options \<Rightarrow> GatewaySettings \<Rightarrow> string option" where
  "settings_refusal opts s = (case opt_settingsBlocker opts of None \<Rightarrow> None | Some f \<Rightarrow> f s)"

definition apply_settings :: "client_options \<Rightarrow> GatewaySettings \<Rightarrow> ConfigClient \<Rightarrow> ConfigClient" where
  "apply_settings opts s c = (if opt_settingsBlocker opts = None then c else c\<lparr>cc_applied := Some s\<rparr>)"

definition loadFromCache :: "client_options \<Rightarrow> ConfigClient \<Rightarrow> bool \<times> ConfigClient" where
  "loadFromCache opts c = (case cc_cacheFile c of
       NoFile \<Rightarrow> (False, c)
     | Unreadable \<Rightarrow> (False, c)
     | Stored cfg \<Rightarrow>
         if gc_configVersion cfg \<noteq> opt_wireVersion opts then (False, c)
         else (let config = cfg\<lparr>gc_settings := Some (spread defaultGatewaySettings (settings_of cfg))\<rparr>;
                   refused = settings_refusal opts (settings_of config);
                   c = c\<lparr>cc_table := Some (new_table config), cc_servingRefusal := map_option SettingsRefused refused\<rparr>;
                   c = (case refused of
                       Some r \<Rightarrow> c\<lparr>cc_activationBlocked := Some (SettingsRefused r)\<rparr>
                     | None \<Rightarrow> apply_settings opts (settings_of config) c)
               in (True, c\<lparr>cc_fromCache := True\<rparr>)))"

definition poll_body :: "client_options \<Rightarrow> ConfigClient \<Rightarrow> PollRequest \<times> ConfigClient" where
  "poll_body opts c =
     (let (report, tel) = tel_snapshot (cc_telemetry c); (deltas, quota) = takeDeltas (cc_quota c)
      in (\<lparr>req_wireVersion = opt_wireVersion opts, req_activeDigest = map_option rt_digest (cc_table c),
           req_activationBlocked = cc_activationBlocked c, req_requestsTotal = tel_requestsTotal tel,
           req_telemetry = report, req_validation = cc_validation c, req_deltas = deltas\<rparr>,
          c\<lparr>cc_telemetry := tel, cc_quota := quota\<rparr>))"

definition wireMismatchFrom :: "http_answer \<Rightarrow> int \<Rightarrow> client_reason option" where
  "wireMismatchFrom r speaks =
     (if ans_status r \<noteq> 400 \<or> \<not> ans_json r then None
      else (case ans_body r of
          None \<Rightarrow> None
        | Some problem \<Rightarrow> (case (wb_expected problem, wb_received problem) of
              (Some expected, Some _) \<Rightarrow> Some (WireRefused speaks expected)
            | _ \<Rightarrow> None)))"

definition needsClientCertificate :: "string \<Rightarrow> bool" where
  "needsClientCertificate serialised \<longleftrightarrow>
     contains_str (CHR 0x22 # ''auth.mtls'' @ [CHR 0x22]) serialised \<or>
     contains_str (CHR 0x22 # ''requireClientCert'' @ [CHR 0x22]) serialised \<or>
     contains_str ''${cert.'' serialised"

text \<open>What can be decided before anything is fetched: the reason and whether it is fatal without a configuration.\<close>

definition blocker_before_fetch ::
  "(PolicyDocument \<Rightarrow> string) \<Rightarrow> client_options \<Rightarrow> GatewayConfig \<Rightarrow> (client_reason \<times> bool) option" where
  "blocker_before_fetch serialise opts config =
     (case settings_refusal opts (settings_of config) of
        Some refused \<Rightarrow> Some (SettingsRefused refused, False)
      | None \<Rightarrow>
          if opt_trustedProxyConfigured opts = Some False then
            (case find (\<lambda>route. needsClientCertificate (serialise (cr_policy route))) (gc_routes config) of
               Some route \<Rightarrow> Some (NoTrustBoundary (cr_resourceName route), True)
             | None \<Rightarrow> None)
          else None)"

definition artifact_refs :: "GatewayConfig \<Rightarrow> (string, ArtifactRef) jsmap" where
  "artifact_refs config =
     foldl (\<lambda>m route. foldl (\<lambda>m ref. mset_key (ar_digest ref) ref m) m (cr_artifacts route)) [] (gc_routes config)"

definition afterActivation :: "client_options \<Rightarrow> GatewayConfig \<Rightarrow> ConfigClient \<Rightarrow> ConfigClient" where
  "afterActivation opts config c =
     (let c = apply_settings opts (settings_of config) c;
          active = set (map sub_id (gc_subscriptions config))
      in c\<lparr>cc_streams := snd (closeRevoked (cc_streams c) active),
           cc_samplerResets := cc_samplerResets c + 1,
           cc_responseCache := cache_clear (cc_responseCache c)\<rparr>)"

definition activate :: "client_options \<Rightarrow> GatewayConfig \<Rightarrow> bool \<Rightarrow> ConfigClient \<Rightarrow> ConfigClient" where
  "activate opts config persist_ok c =
     (let c = c\<lparr>cc_activationBlocked := None, cc_servingRefusal := None, cc_fromCache := False,
                cc_table := Some (new_table config)\<rparr>;
          c = (if persist_ok then c\<lparr>cc_cacheFile := Stored config\<rparr> else c)
      in afterActivation opts config c)"

definition not_activated :: "client_reason \<times> bool \<Rightarrow> ConfigClient \<Rightarrow> poll_result \<times> ConfigClient" where
  "not_activated blocker c = (case blocker of (reason, fatalWithoutConfig) \<Rightarrow>
     (let c = c\<lparr>cc_activationBlocked := Some reason\<rparr>
      in if cc_table c \<noteq> None \<or> \<not> fatalWithoutConfig then (Blocked, c) else (Threw reason, c)))"

text \<open>The poll up to the prefetch: a result, or the configuration whose artifacts are being fetched.\<close>

datatype poll_progress = Done poll_result | Gating GatewayConfig

definition handle_payload ::
  "(PolicyDocument \<Rightarrow> string) \<Rightarrow> client_options \<Rightarrow> wire_body \<Rightarrow> int \<Rightarrow> ConfigClient \<Rightarrow> poll_progress \<times> ConfigClient" where
  "handle_payload serialise opts payload now c =
     (if wb_wireVersion payload \<noteq> Some (opt_wireVersion opts) then
        (Done Blocked, c\<lparr>cc_lastError := Some (WireUnsupported (wb_wireVersion payload)),
                         cc_activationBlocked := Some (WireUnsupported (wb_wireVersion payload))\<rparr>)
      else
        (let c = c\<lparr>cc_telemetry := clearAccepted (cc_telemetry c) (case wb_acceptedWindows payload of Some w \<Rightarrow> w | None \<Rightarrow> []),
                   cc_validation := replicate 5 0,
                   cc_quota := applyAggregates (cc_quota c) (case wb_quotaAggregates payload of Some a \<Rightarrow> a | None \<Rightarrow> []) now,
                   cc_decommissioned := False, cc_lastError := None\<rparr>
         in if wb_unchanged payload then (Done Unchanged, c\<lparr>cc_activationBlocked := cc_servingRefusal c\<rparr>)
            else (case wb_config payload of
                None \<Rightarrow> (Done Blocked, c\<lparr>cc_lastError := Some (ConfigUnsupported None),
                                          cc_activationBlocked := Some (ConfigUnsupported None)\<rparr>)
              | Some config \<Rightarrow>
                  if gc_configVersion config \<noteq> opt_wireVersion opts then
                    (Done Blocked, c\<lparr>cc_lastError := Some (ConfigUnsupported (Some (gc_configVersion config))),
                                     cc_activationBlocked := Some (ConfigUnsupported (Some (gc_configVersion config)))\<rparr>)
                  else (case blocker_before_fetch serialise opts config of
                      Some blocker \<Rightarrow> (case not_activated blocker c of (r, c) \<Rightarrow> (Done r, c))
                    | None \<Rightarrow> (Gating config, c)))))"

definition handle_answer ::
  "(PolicyDocument \<Rightarrow> string) \<Rightarrow> client_options \<Rightarrow> http_answer option \<Rightarrow> int \<Rightarrow> ConfigClient \<Rightarrow> poll_progress \<times> ConfigClient" where
  "handle_answer serialise opts answer now c = (case answer of
       None \<Rightarrow> (Done PollError, c\<lparr>cc_lastError := Some PollFailed\<rparr>)
     | Some r \<Rightarrow>
         (let c = c\<lparr>cc_lastPollAt := Some (toISOString now)\<rparr>
          in if ans_status r = 401 \<or> ans_status r = 403 then
               (Done Revoked, c\<lparr>cc_decommissioned := True, cc_table := None,
                  cc_lastError := Some (TokenRejected (ans_status r)),
                  cc_streams := closeAll (cc_streams c) CloseRevoked\<rparr>)
             else if ans_status r = 413 then
               (let (batch, tel) = halveBatch (cc_telemetry c)
                in (Done PollError, c\<lparr>cc_telemetry := tel, cc_lastError := Some (ReportTooLarge batch)\<rparr>))
             else if \<not> (200 \<le> ans_status r \<and> ans_status r \<le> 299) then
               (case wireMismatchFrom r (opt_wireVersion opts) of
                  Some mismatch \<Rightarrow> (Done Blocked, c\<lparr>cc_activationBlocked := Some mismatch, cc_lastError := Some mismatch\<rparr>)
                | None \<Rightarrow> (Done PollError, c\<lparr>cc_lastError := Some (HttpStatus (ans_status r))\<rparr>))
             else (case ans_body r of
                 None \<Rightarrow> (Done PollError, c\<lparr>cc_lastError := Some InvalidJson\<rparr>)
               | Some payload \<Rightarrow> handle_payload serialise opts payload now c)))"

definition finish_gate ::
  "client_options \<Rightarrow> GatewayConfig \<Rightarrow> string list \<Rightarrow> bool \<Rightarrow> ConfigClient \<Rightarrow> poll_result \<times> ConfigClient" where
  "finish_gate opts config missing persist_ok c =
     (if opt_artifacts opts \<and> missing \<noteq> [] then not_activated (MissingArtifacts missing, False) c
      else (Updated, activate opts config persist_ok c))"

section \<open>Definitions: the event loop\<close>

text \<open>A suspended poll, with the number of its send.\<close>

datatype poll_at = AwaitAnswer nat | AwaitPrefetch nat GatewayConfig

fun poll_number :: "poll_at \<Rightarrow> nat" where
  "poll_number (AwaitAnswer k) = k"
| "poll_number (AwaitPrefetch k config) = k"

record poll_system =
  sys_client :: ConfigClient
  sys_polls :: "poll_at list"
  sys_sent :: nat
  sys_done :: "(nat \<times> poll_result) list"

text \<open>The timer's tick, the resumption of a suspended poll by its answer or its prefetch, and the request path
  opening a stream on the table it serves.\<close>

datatype poll_event =
    Tick
  | Answered nat "http_answer option" int
  | Prefetched nat "string list" bool
  | OpenStream StreamHandle "PassthroughUnit option"

definition pollOnce :: "client_options \<Rightarrow> poll_system \<Rightarrow> poll_system" where
  "pollOnce opts s =
     (if cc_inFlight (sys_client s) then s
      else (let c = (sys_client s)\<lparr>cc_inFlight := True\<rparr>; (_, c) = poll_body opts c
            in s\<lparr>sys_client := c, sys_polls := AwaitAnswer (sys_sent s) # sys_polls s, sys_sent := sys_sent s + 1\<rparr>))"

definition finish_poll :: "nat \<Rightarrow> nat \<Rightarrow> poll_result \<Rightarrow> ConfigClient \<Rightarrow> poll_system \<Rightarrow> poll_system" where
  "finish_poll n k r c s = s\<lparr>sys_client := c\<lparr>cc_inFlight := False\<rparr>,
     sys_polls := take n (sys_polls s) @ drop (Suc n) (sys_polls s), sys_done := sys_done s @ [(k, r)]\<rparr>"

fun poll_step :: "(PolicyDocument \<Rightarrow> string) \<Rightarrow> client_options \<Rightarrow> poll_system \<Rightarrow> poll_event \<Rightarrow> poll_system" where
  "poll_step ser opts s Tick = pollOnce opts s"
| "poll_step ser opts s (Answered n answer now) =
     (if n < length (sys_polls s) then
        (case sys_polls s ! n of
           AwaitAnswer k \<Rightarrow>
             (case handle_answer ser opts answer now (sys_client s) of
                (Done r, c) \<Rightarrow> finish_poll n k r c s
              | (Gating config, c) \<Rightarrow> s\<lparr>sys_client := c, sys_polls := (sys_polls s)[n := AwaitPrefetch k config]\<rparr>)
         | AwaitPrefetch k config \<Rightarrow> s)
      else s)"
| "poll_step ser opts s (Prefetched n missing persist_ok) =
     (if n < length (sys_polls s) then
        (case sys_polls s ! n of
           AwaitAnswer k \<Rightarrow> s
         | AwaitPrefetch k config \<Rightarrow>
             (case finish_gate opts config missing persist_ok (sys_client s) of (r, c) \<Rightarrow> finish_poll n k r c s))
      else s)"
| "poll_step ser opts s (OpenStream h unit) =
     (let c = sys_client s
      in if cc_table c \<noteq> None \<and> admit (cc_streams c) (sh_resourceId h) unit = StreamOk
         then s\<lparr>sys_client := c\<lparr>cc_streams := snd (reg_open (cc_streams c) h)\<rparr>\<rparr> else s)"

text \<open>A process that has just started: nothing is suspended, and its table, if any, came from the cache.\<close>

definition booted :: "client_options \<Rightarrow> ConfigClient \<Rightarrow> poll_system" where
  "booted opts c = \<lparr>sys_client = snd (loadFromCache opts c), sys_polls = [], sys_sent = 0, sys_done = []\<rparr>"

definition fresh_client :: "cache_file \<Rightarrow> QuotaCounters \<Rightarrow> StreamRegistry \<Rightarrow> InstanceTelemetry \<Rightarrow> ResponseCache \<Rightarrow> ConfigClient" where
  "fresh_client disk quota streams tel rcache = \<lparr>cc_table = None, cc_decommissioned = False, cc_lastPollAt = None,
     cc_lastError = None, cc_fromCache = False, cc_activationBlocked = None, cc_servingRefusal = None, cc_inFlight = False,
     cc_applied = None, cc_cacheFile = disk, cc_quota = quota, cc_streams = streams, cc_telemetry = tel,
     cc_responseCache = rcache, cc_samplerResets = 0, cc_validation = replicate 5 0\<rparr>"

text \<open>Sample data for the witnesses: a build that speaks version 6, and an answer with a document.\<close>

definition sample_opts :: client_options where
  "sample_opts = \<lparr>opt_wireVersion = 6, opt_settingsBlocker = None, opt_trustedProxyConfigured = Some True, opt_artifacts = True\<rparr>"

definition sample_boot :: poll_system where
  "sample_boot = booted sample_opts (fresh_client NoFile (new_counters 5) (new_registry 5) (new_telemetry 5 5) (new_cache 5 5))"

definition sample_answer :: http_answer where
  "sample_answer = \<lparr>ans_status = 200, ans_json = True, ans_body = Some \<lparr>wb_wireVersion = Some 6, wb_unchanged = False,
     wb_acceptedWindows = None, wb_config = Some (sample_config [sample_route ''*'' ''/a''] []), wb_quotaAggregates = None,
     wb_expected = None, wb_received = None\<rparr>\<rparr>"

section \<open>Lemmas\<close>

text \<open>A document that may be activated, but for what has to be fetched.\<close>

definition activatable :: "(PolicyDocument \<Rightarrow> string) \<Rightarrow> client_options \<Rightarrow> GatewayConfig \<Rightarrow> bool" where
  "activatable ser opts config \<longleftrightarrow> gc_configVersion config = opt_wireVersion opts \<and>
     settings_refusal opts (settings_of config) = None \<and>
     (opt_trustedProxyConfigured opts = Some False \<longrightarrow>
        list_all (\<lambda>route. \<not> needsClientCertificate (ser (cr_policy route))) (gc_routes config))"

lemma blocker_None_activatable:
  "blocker_before_fetch ser opts config = None \<Longrightarrow> gc_configVersion config = opt_wireVersion opts \<Longrightarrow> activatable ser opts config"
  by (auto simp: blocker_before_fetch_def activatable_def find_None_iff list_all_iff split: option.splits if_splits)

lemma not_activated_keeps:
  assumes "not_activated b c = (r, c')"
  shows "cc_table c' = cc_table c" "cc_applied c' = cc_applied c" "cc_cacheFile c' = cc_cacheFile c"
    "cc_streams c' = cc_streams c" "cc_decommissioned c' = cc_decommissioned c" "cc_inFlight c' = cc_inFlight c"
    "cc_fromCache c' = cc_fromCache c" "r \<noteq> Updated" "r \<noteq> Revoked" "cc_activationBlocked c' = Some (fst b)"
  using assms by (auto simp: not_activated_def Let_def split: prod.splits if_splits)

lemma handle_payload_spec:
  assumes "handle_payload ser opts p now c = (g, c')"
  shows "cc_table c' = cc_table c \<and> cc_applied c' = cc_applied c \<and> cc_cacheFile c' = cc_cacheFile c \<and>
    cc_streams c' = cc_streams c \<and> cc_inFlight c' = cc_inFlight c \<and> cc_fromCache c' = cc_fromCache c \<and>
    (cc_decommissioned c' \<longrightarrow> cc_decommissioned c) \<and>
    (case g of Done r \<Rightarrow> r \<noteq> Updated \<and> r \<noteq> Revoked
     | Gating config \<Rightarrow> activatable ser opts config \<and> \<not> cc_decommissioned c' \<and> wb_config p = Some config)"
proof -
  note eq = assms [unfolded handle_payload_def Let_def]
  consider "wb_wireVersion p \<noteq> Some (opt_wireVersion opts) \<or> wb_unchanged p \<or> wb_config p = None"
    | config where "wb_wireVersion p = Some (opt_wireVersion opts)" "\<not> wb_unchanged p" "wb_config p = Some config"
    by auto
  then show ?thesis
  proof cases
    case 1
    with eq show ?thesis by (auto split: if_split_asm)
  next
    case 2
    show ?thesis
    proof (cases "gc_configVersion config = opt_wireVersion opts")
      case True
      show ?thesis
      proof (cases "blocker_before_fetch ser opts config")
        case None
        from blocker_None_activatable [OF None True] eq 2 True None show ?thesis by auto
      next
        case (Some b)
        let ?c = "c\<lparr>cc_telemetry := clearAccepted (cc_telemetry c) (case wb_acceptedWindows p of Some w \<Rightarrow> w | None \<Rightarrow> []),
            cc_validation := replicate 5 0,
            cc_quota := applyAggregates (cc_quota c) (case wb_quotaAggregates p of Some a \<Rightarrow> a | None \<Rightarrow> []) now,
            cc_decommissioned := False, cc_lastError := None\<rparr>"
        obtain r0 c0 where na: "not_activated b ?c = (r0, c0)" by (cases "not_activated b ?c") auto
        with eq 2 True Some have "g = Done r0" "c' = c0" by auto
        with not_activated_keeps [OF na] show ?thesis by simp
      qed
    qed (use eq 2 in auto)
  qed
qed

lemma handle_answer_spec:
  assumes "handle_answer ser opts a now c = (g, c')"
  shows "cc_inFlight c' = cc_inFlight c \<and> cc_applied c' = cc_applied c \<and> cc_cacheFile c' = cc_cacheFile c \<and>
    cc_fromCache c' = cc_fromCache c \<and>
    (case g of
       Done r \<Rightarrow> r \<noteq> Updated \<and>
         (if r = Revoked then cc_table c' = None \<and> cc_decommissioned c' \<and> cc_streams c' = closeAll (cc_streams c) CloseRevoked
          else cc_table c' = cc_table c \<and> cc_streams c' = cc_streams c \<and> (cc_decommissioned c' \<longrightarrow> cc_decommissioned c))
     | Gating config \<Rightarrow> activatable ser opts config \<and> \<not> cc_decommissioned c' \<and>
         cc_table c' = cc_table c \<and> cc_streams c' = cc_streams c)"
proof (cases a)
  case None
  with assms show ?thesis by (auto simp: handle_answer_def)
next
  case (Some r)
  let ?c = "c\<lparr>cc_lastPollAt := Some (toISOString now)\<rparr>"
  show ?thesis
  proof (cases "(200 \<le> ans_status r \<and> ans_status r \<le> 299) \<and> ans_body r \<noteq> None")
    case True
    then obtain p where p: "ans_body r = Some p" by blast
    with True assms Some have "handle_payload ser opts p now ?c = (g, c')" by (simp add: handle_answer_def Let_def)
    from handle_payload_spec [OF this] show ?thesis by (auto split: poll_progress.splits)
  next
    case False
    note eq = assms [unfolded handle_answer_def Some Let_def option.case]
    consider "ans_status r = 401 \<or> ans_status r = 403" | "ans_status r = 413" | "200 \<le> ans_status r \<and> ans_status r \<le> 299" "ans_body r = None"
      | "ans_status r \<notin> {401, 403, 413}" "\<not> (200 \<le> ans_status r \<and> ans_status r \<le> 299)" using False by blast
    then show ?thesis
    proof cases
      case 1
      with eq show ?thesis by auto
    next
      case 2
      with eq show ?thesis by (auto split: prod.splits)
    next
      case 3
      with eq show ?thesis by auto
    next
      case 4
      with eq show ?thesis by (cases "wireMismatchFrom r (opt_wireVersion opts)") auto
    qed
  qed
qed

lemma apply_settings_fields [simp]:
  "cc_table (apply_settings opts s c) = cc_table c" "cc_streams (apply_settings opts s c) = cc_streams c"
  "cc_decommissioned (apply_settings opts s c) = cc_decommissioned c" "cc_inFlight (apply_settings opts s c) = cc_inFlight c"
  "cc_fromCache (apply_settings opts s c) = cc_fromCache c" "cc_cacheFile (apply_settings opts s c) = cc_cacheFile c"
  by (simp_all add: apply_settings_def)

lemma activate_fields:
  "cc_table (activate opts config ok c) = Some (new_table config)"
  "cc_streams (activate opts config ok c) = snd (closeRevoked (cc_streams c) (set (map sub_id (gc_subscriptions config))))"
  "cc_decommissioned (activate opts config ok c) = cc_decommissioned c"
  "cc_inFlight (activate opts config ok c) = cc_inFlight c" "\<not> cc_fromCache (activate opts config ok c)"
  "ok \<Longrightarrow> cc_cacheFile (activate opts config ok c) = Stored config"
  by (simp_all add: activate_def afterActivation_def Let_def)

lemma finish_gate_spec:
  assumes "finish_gate opts config missing ok c = (r, c')"
  shows "cc_inFlight c' = cc_inFlight c \<and> cc_decommissioned c' = cc_decommissioned c \<and>
    (if r = Updated then cc_table c' = Some (new_table config) \<and> \<not> cc_fromCache c' \<and> (opt_artifacts opts \<longrightarrow> missing = []) \<and>
       cc_streams c' = snd (closeRevoked (cc_streams c) (set (map sub_id (gc_subscriptions config))))
     else r \<noteq> Revoked \<and> cc_table c' = cc_table c \<and> cc_streams c' = cc_streams c \<and> cc_fromCache c' = cc_fromCache c)"
  using assms not_activated_keeps [of "(MissingArtifacts missing, False)" c r c']
  by (auto simp: finish_gate_def activate_fields split: if_splits)

lemma poll_body_fields:
  assumes "poll_body opts c = (q, c')"
  shows "cc_table c' = cc_table c" "cc_streams c' = cc_streams c" "cc_decommissioned c' = cc_decommissioned c"
    "cc_inFlight c' = cc_inFlight c" "cc_fromCache c' = cc_fromCache c"
  using assms by (auto simp: poll_body_def Let_def split: prod.splits)

text \<open>The guard keeps at most one poll suspended, polls finish in the order they were sent, a document being
  gated has passed the checks before the fetch, a decommissioned instance serves nothing, and a table
  that did not come from the cache was activatable.\<close>

definition poll_inv :: "(PolicyDocument \<Rightarrow> string) \<Rightarrow> client_options \<Rightarrow> poll_system \<Rightarrow> bool" where
  "poll_inv ser opts s \<longleftrightarrow>
     (case sys_polls s of
        [] \<Rightarrow> \<not> cc_inFlight (sys_client s) \<and> map fst (sys_done s) = [0..<sys_sent s]
      | [p] \<Rightarrow> cc_inFlight (sys_client s) \<and> sys_sent s = Suc (poll_number p) \<and> map fst (sys_done s) = [0..<poll_number p] \<and>
          (case p of AwaitAnswer k \<Rightarrow> True
           | AwaitPrefetch k config \<Rightarrow> activatable ser opts config \<and> \<not> cc_decommissioned (sys_client s))
      | _ \<Rightarrow> False) \<and>
     registry_ok (cc_streams (sys_client s)) \<and>
     (cc_decommissioned (sys_client s) \<longrightarrow> cc_table (sys_client s) = None \<and> reg_streams (cc_streams (sys_client s)) = []) \<and>
     (cc_fromCache (sys_client s) \<or> (case cc_table (sys_client s) of None \<Rightarrow> True
        | Some t \<Rightarrow> \<exists>config. t = new_table config \<and> activatable ser opts config))"

lemma pollOnce_inv: "poll_inv ser opts s \<Longrightarrow> poll_inv ser opts (pollOnce opts s)"
proof (cases "cc_inFlight (sys_client s)")
  case False
  assume i: "poll_inv ser opts s"
  then have n: "sys_polls s = []" using False by (auto simp: poll_inv_def split: list.splits)
  obtain q c where b: "poll_body opts ((sys_client s)\<lparr>cc_inFlight := True\<rparr>) = (q, c)" by fastforce
  show ?thesis using i n False poll_body_fields [OF b] by (simp add: poll_inv_def pollOnce_def b Let_def)
qed (simp add: pollOnce_def)

lemma poll_inv_single:
  assumes "poll_inv ser opts s" "n < length (sys_polls s)"
  obtains p where "n = 0" "sys_polls s = [p]" "cc_inFlight (sys_client s)" "sys_sent s = Suc (poll_number p)"
    "map fst (sys_done s) = [0..<poll_number p]"
    "case p of AwaitAnswer k \<Rightarrow> True | AwaitPrefetch k config \<Rightarrow> activatable ser opts config \<and> \<not> cc_decommissioned (sys_client s)"
  using assms by (auto simp: poll_inv_def split: list.splits)

lemma answered_inv:
  assumes "poll_inv ser opts s"
  shows "poll_inv ser opts (poll_step ser opts s (Answered n a now))"
proof (cases "n < length (sys_polls s)")
  case True
  with assms obtain p where p: "n = 0" "sys_polls s = [p]" "cc_inFlight (sys_client s)" "sys_sent s = Suc (poll_number p)"
    "map fst (sys_done s) = [0..<poll_number p]" by (rule poll_inv_single)
  obtain g c where h: "handle_answer ser opts a now (sys_client s) = (g, c)" by fastforce
  note H = handle_answer_spec [OF h]
  show ?thesis
  proof (cases p)
    case (AwaitPrefetch k config)
    with assms p show ?thesis by simp
  next
    case (AwaitAnswer k)
    show ?thesis
    proof (cases g)
      case (Done r)
      with AwaitAnswer p h H assms closeAll_spec [of "cc_streams (sys_client s)" CloseRevoked] show ?thesis
        by (cases "r = Revoked") (auto simp: poll_inv_def finish_poll_def)
    next
      case (Gating config)
      with AwaitAnswer p h H assms show ?thesis by (simp add: poll_inv_def)
    qed
  qed
qed (use assms in simp)

lemma prefetched_inv:
  assumes "poll_inv ser opts s"
  shows "poll_inv ser opts (poll_step ser opts s (Prefetched n missing ok))"
proof (cases "n < length (sys_polls s)")
  case True
  with assms obtain p where p: "n = 0" "sys_polls s = [p]" "cc_inFlight (sys_client s)" "sys_sent s = Suc (poll_number p)"
    "map fst (sys_done s) = [0..<poll_number p]"
    "case p of AwaitAnswer k \<Rightarrow> True | AwaitPrefetch k config \<Rightarrow> activatable ser opts config \<and> \<not> cc_decommissioned (sys_client s)"
    by (rule poll_inv_single)
  show ?thesis
  proof (cases p)
    case (AwaitAnswer k)
    with assms p show ?thesis by simp
  next
    case (AwaitPrefetch k config)
    obtain r c where h: "finish_gate opts config missing ok (sys_client s) = (r, c)" by fastforce
    note H = finish_gate_spec [OF h]
    have "registry_ok (cc_streams (sys_client s))" using assms by (simp add: poll_inv_def)
    with closeRevoked_spec [OF this] AwaitPrefetch p h H assms show ?thesis
      by (cases "r = Updated") (auto simp: poll_inv_def finish_poll_def)
  qed
qed (use assms in simp)

lemma poll_step_inv [inv_pres]:
  assumes "poll_inv ser opts s"
  shows "poll_inv ser opts (poll_step ser opts s e)"
proof (cases e)
  case Tick
  with assms pollOnce_inv show ?thesis by simp
next
  case (OpenStream h unit)
  then show ?thesis using assms reg_open_ok [of "cc_streams (sys_client s)" h]
    by (auto simp: poll_inv_def Let_def split: list.splits poll_at.splits)
qed (use assms answered_inv prefetched_inv in auto)

interpretation config_poll: machine "poll_step ser opts" "poll_inv ser opts" for ser opts
  by unfold_locales (rule poll_step_inv)

lemma booted_inv: "poll_inv ser opts (booted opts (fresh_client disk quota (new_registry m) tel rcache))"
  using new_registry_ok [of m]
  by (auto simp: poll_inv_def booted_def loadFromCache_def fresh_client_def apply_settings_def Let_def
      split: cache_file.splits option.splits)

lemma run_inv: "poll_inv ser opts (foldl (poll_step ser opts) (booted opts (fresh_client disk quota (new_registry m) tel rcache)) es)"
  by (rule config_poll.run_good [OF booted_inv])

lemma poll_inv_order:
  assumes inv: "poll_inv ser opts s"
  shows "map fst (sys_done s) = [0..<length (sys_done s)] \<and>
    (sys_polls s = [] \<and> sys_sent s = length (sys_done s) \<or>
     (\<exists>p. sys_polls s = [p] \<and> poll_number p = length (sys_done s) \<and> sys_sent s = Suc (length (sys_done s))))"
proof -
  show ?thesis
  proof (cases "sys_polls s")
    case Nil
    with inv have d: "map fst (sys_done s) = [0..<sys_sent s]" by (simp add: poll_inv_def)
    then have "length (sys_done s) = sys_sent s" by (metis diff_zero length_map length_upt)
    with d Nil show ?thesis by simp
  next
    case (Cons p ps)
    with inv have d: "ps = []" "sys_sent s = Suc (poll_number p)" "map fst (sys_done s) = [0..<poll_number p]"
      by (auto simp: poll_inv_def split: list.splits)
    from d(3) have "length (sys_done s) = poll_number p" by (metis diff_zero length_map length_upt)
    with d Cons show ?thesis by simp
  qed
qed

section \<open>Properties\<close>

text \<open>C24: answers are applied in the order they were asked for. However ticks, answers and prefetches interleave,
  the finished polls are the sends 0, 1, 2, ... in order, and at most one poll, the latest send, is
  suspended.\<close>

theorem polls_in_order:
  "case foldl (poll_step ser opts) (booted opts (fresh_client disk quota (new_registry m) tel rcache)) es of s \<Rightarrow>
     map fst (sys_done s) = [0..<length (sys_done s)] \<and>
     (sys_polls s = [] \<and> sys_sent s = length (sys_done s) \<or>
      (\<exists>p. sys_polls s = [p] \<and> poll_number p = length (sys_done s) \<and> sys_sent s = Suc (length (sys_done s))))"
  by (rule poll_inv_order [OF run_inv])

text \<open>Revocation fails closed. In every reachable state an instance whose token was rejected, and that has
  not since been accepted again, serves no route and holds no stream open.\<close>

lemma revoked_serves_nothing:
  "case foldl (poll_step ser opts) (booted opts (fresh_client disk quota (new_registry m) tel rcache)) es of s \<Rightarrow>
     (if cc_decommissioned (sys_client s)
      then cc_table (sys_client s) = None \<and> reg_size (cc_streams (sys_client s)) = 0 else True)"
  using run_inv [of ser opts disk quota m tel rcache es] by (auto simp: poll_inv_def reg_size_def)

text \<open>C26: fail-static and gated activation. From any reachable state one step either leaves the served table
  alone, or finishes a poll as revoked and drops it, or finishes a poll as updated with the table of a
  document of this build's version, whose settings this container can honour, with nothing missing
  from the artifact cache, and, without a trusted proxy, with no route that reads a client certificate.
  A blocked, failed, unchanged or skipped poll changes nothing that is served.\<close>

theorem activation_gated:
  assumes "s = foldl (poll_step ser opts) (booted opts (fresh_client disk quota (new_registry m) tel rcache)) es"
    and "s' = poll_step ser opts s e"
  shows "cc_table (sys_client s') = cc_table (sys_client s) \<or>
    (\<exists>k. sys_done s' = sys_done s @ [(k, Revoked)] \<and> cc_table (sys_client s') = None) \<or>
    (\<exists>k config. sys_done s' = sys_done s @ [(k, Updated)] \<and> cc_table (sys_client s') = Some (new_table config) \<and>
       gc_configVersion config = opt_wireVersion opts \<and> settings_refusal opts (settings_of config) = None \<and>
       (\<exists>n missing ok. e = Prefetched n missing ok \<and> (missing = [] \<or> \<not> opt_artifacts opts)) \<and>
       (opt_trustedProxyConfigured opts = Some False \<longrightarrow>
          list_all (\<lambda>route. \<not> needsClientCertificate (ser (cr_policy route))) (gc_routes config)))"
proof -
  have inv: "poll_inv ser opts s" unfolding assms(1) by (rule run_inv)
  show ?thesis
  proof (cases e)
    case Tick
    then show ?thesis unfolding assms(2) using poll_body_fields(1)
      by (cases "poll_body opts ((sys_client s)\<lparr>cc_inFlight := True\<rparr>)") (auto simp: pollOnce_def Let_def)
  next
    case (Answered n a now)
    obtain g c where h: "handle_answer ser opts a now (sys_client s) = (g, c)" by fastforce
    from handle_answer_spec [OF h] h Answered show ?thesis unfolding assms(2)
      by (cases g) (auto simp: finish_poll_def split: poll_at.splits if_splits)
  next
    case (Prefetched n missing ok)
    show ?thesis
    proof (cases "n < length (sys_polls s)")
      case True
      with inv obtain p where p: "n = 0" "sys_polls s = [p]"
        "case p of AwaitAnswer k \<Rightarrow> True | AwaitPrefetch k config \<Rightarrow> activatable ser opts config \<and> \<not> cc_decommissioned (sys_client s)"
        by (rule poll_inv_single)
      show ?thesis
      proof (cases p)
        case (AwaitAnswer k)
        with p Prefetched show ?thesis unfolding assms(2) by simp
      next
        case (AwaitPrefetch k config)
        obtain r c where h: "finish_gate opts config missing ok (sys_client s) = (r, c)" by fastforce
        from finish_gate_spec [OF h] h Prefetched AwaitPrefetch p show ?thesis unfolding assms(2)
          by (cases "r = Updated") (auto simp: finish_poll_def activatable_def)
      qed
    qed (use Prefetched assms(2) in simp)
  next
    case (OpenStream h unit)
    then show ?thesis unfolding assms(2) by (simp add: Let_def)
  qed
qed

theorem activation_gated_witness:
  "(case cc_table (sys_client (poll_step (\<lambda>_. []) sample_opts
     (foldl (poll_step (\<lambda>_. []) sample_opts) sample_boot [Tick, Answered 0 (Some sample_answer) 0]) (Prefetched 0 [] True))) of
      None \<Rightarrow> True | Some t \<Rightarrow> \<exists>config. t = new_table config \<and> gc_configVersion config = 6) \<and>
   sys_done (poll_step (\<lambda>_. []) sample_opts
     (foldl (poll_step (\<lambda>_. []) sample_opts) sample_boot [Tick, Answered 0 (Some sample_answer) 0]) (Prefetched 0 [] True)) = [(0, Updated)]"
proof -
  let ?s = "foldl (poll_step (\<lambda>_. []) sample_opts) sample_boot [Tick, Answered 0 (Some sample_answer) 0]"
  let ?s' = "poll_step (\<lambda>_. []) sample_opts ?s (Prefetched 0 [] True)"
  have p: "sys_polls ?s = [AwaitPrefetch 0 (sample_config [sample_route ''*'' ''/a''] [])] \<and> sys_done ?s = [] \<and> cc_table (sys_client ?s) = None"
    by (simp add: sample_boot_def booted_def fresh_client_def loadFromCache_def pollOnce_def poll_body_def tel_snapshot_def
        excess_windows_def new_telemetry_def delete_windows_def takeDeltas_def new_counters_def sample_answer_def handle_answer_def
        handle_payload_def sample_opts_def sample_config_def blocker_before_fetch_def settings_refusal_def Let_def)
  then have d: "sys_done ?s' = [(0, Updated)]"
    by (simp add: finish_gate_def finish_poll_def sample_opts_def)
  have "cc_table (sys_client ?s') = cc_table (sys_client ?s) \<or> cc_table (sys_client ?s') = None \<or>
    (\<exists>config. cc_table (sys_client ?s') = Some (new_table config) \<and> gc_configVersion config = opt_wireVersion sample_opts)"
    using activation_gated [where ser = "\<lambda>_. []" and opts = sample_opts and disk = NoFile and quota = "new_counters 5" and m = 5
        and tel = "new_telemetry 5 5" and rcache = "new_cache 5 5" and es = "[Tick, Answered 0 (Some sample_answer) 0]"
        and e = "Prefetched 0 [] True", folded sample_boot_def, OF refl refl] by blast
  moreover have "opt_wireVersion sample_opts = 6" by (simp add: sample_opts_def)
  ultimately have "case cc_table (sys_client ?s') of None \<Rightarrow> True | Some t \<Rightarrow> \<exists>config. t = new_table config \<and> gc_configVersion config = 6"
    using p by (auto simp del: poll_step.simps foldl.simps)
  with d show ?thesis by blast
qed

text \<open>The last good configuration survives a restart. A process that starts from the file an activation
  persisted serves the same table at once, and runs with that document's settings over this build's
  defaults unless this container refuses them, in which case the routes are still served and the
  refusal is reported.\<close>

lemma restart_serves_last_activated:
  assumes "gc_configVersion config = opt_wireVersion opts"
    and "c = snd (loadFromCache opts (fresh_client (cc_cacheFile (activate opts config True c0)) quota streams tel rcache))"
  shows "cc_table c = cc_table (activate opts config True c0) \<and>
    (case settings_refusal opts (spread defaultGatewaySettings (settings_of config)) of
       Some r \<Rightarrow> cc_activationBlocked c = Some (SettingsRefused r) \<and> cc_applied c = None
     | None \<Rightarrow> opt_settingsBlocker opts = None \<or> cc_applied c = Some (spread defaultGatewaySettings (settings_of config)))"
proof -
  have t: "new_table (config\<lparr>gc_settings := x\<rparr>) = new_table config" for x by (simp add: new_table_def)
  show ?thesis using assms(1)
    by (auto simp: assms(2) loadFromCache_def fresh_client_def activate_fields apply_settings_def settings_of_def t Let_def
        split: option.splits)
qed

lemma restart_serves_last_activated_example:
  "cc_table (snd (loadFromCache sample_opts (fresh_client (cc_cacheFile (activate sample_opts (sample_config [] []) True
      (sys_client sample_boot))) (new_counters 5) (new_registry 5) (new_telemetry 5 5) (new_cache 5 5)))) =
   Some (new_table (sample_config [] []))"
  using restart_serves_last_activated [of "sample_config [] []" sample_opts _ "sys_client sample_boot" "new_counters 5"
      "new_registry 5" "new_telemetry 5 5" "new_cache 5 5", OF _ refl]
  by (simp add: sample_config_def sample_opts_def activate_fields)

end
