(* ===== verification/JsonReader.thy ===== *)
theory JsonReader
  imports Json
begin

text \<open>
  \<^verbatim>\<open>shared/json-reader.ts\<close>: the bounded JSON reader that enforces the always-on limits on request bodies.
  The text is a list of UTF-16 code units and the scanner's position is the suffix still to be read;
  an error carries its message, how much was left (the offset is the text's length less that), and the
  JSON pointer. A number is kept as its lexeme; \<^verbatim>\<open>Number(...)\<close> of it is left to the reader of the value.
  An object is its own properties in the order they were first assigned.

  The recursion takes fuel, one unit per call; twice the length of the text, plus one, is enough for
  any text (\<^verbatim>\<open>readJsonBounded_total\<close>).
\<close>

declare map_of_eq_Some_iff [simp del] Some_eq_map_of_iff [simp del]

section \<open>Definitions\<close>

type_synonym code_units = "nat list"
type_synonym jdoc = "(code_units, code_units) json"

datatype json_message =
    TooDeep nat | UnexpectedEnd | UnexpectedCharacter nat
  | UnterminatedString | UnterminatedEscape | InvalidUnicodeEscape | InvalidEscape nat | ControlCharacter nat
  | TruncatedNumber | ExpectedDigit | ExpectedFraction | ExpectedExponent
  | ArrayTooLong nat | UnterminatedArray | ExpectedCommaBracket
  | ExpectedKey | TooManyKeys nat | DuplicateKey code_units | ExpectedColon code_units | UnterminatedObject | ExpectedCommaBrace
  | TrailingContent

record JsonError =
  je_message :: json_message
  je_offset :: nat
  je_path :: code_units

record JsonLimits =
  jl_maxDepth :: nat
  jl_maxArrayLength :: nat
  jl_maxObjectKeys :: nat
  jl_rejectDuplicates :: bool

definition JSON_DEFAULT_LIMITS :: JsonLimits where
  "JSON_DEFAULT_LIMITS = \<lparr>jl_maxDepth = 32, jl_maxArrayLength = 10000, jl_maxObjectKeys = 5000, jl_rejectDuplicates = True\<rparr>"

text \<open>A step of the scanner: a value and the suffix after it, or an error with what was left and the path.\<close>

datatype 'a reading = ReadOk 'a code_units | ReadFail json_message nat code_units | ReadFuel

fun map_reading :: "('a \<Rightarrow> 'b) \<Rightarrow> 'a reading \<Rightarrow> 'b reading" where
  "map_reading f (ReadOk v s) = ReadOk (f v) s"
| "map_reading f (ReadFail e n p) = ReadFail e n p"
| "map_reading f ReadFuel = ReadFuel"

definition codes :: "string \<Rightarrow> code_units" where
  "codes s = map of_char s"

definition is_ws :: "nat \<Rightarrow> bool" where
  "is_ws c \<longleftrightarrow> c = 32 \<or> c = 9 \<or> c = 10 \<or> c = 13"

definition ws :: "code_units \<Rightarrow> code_units" where
  "ws s = dropWhile is_ws s"

definition digit_code :: "nat \<Rightarrow> bool" where
  "digit_code c \<longleftrightarrow> 48 \<le> c \<and> c \<le> 57"

definition literal :: "code_units \<Rightarrow> jdoc \<Rightarrow> code_units \<Rightarrow> jdoc reading" where
  "literal word v s =
     (if take (length word) s = word then ReadOk v (drop (length word) s)
      else ReadFail (UnexpectedCharacter (hd s)) (length s) [])"

definition simple_escape :: "nat \<Rightarrow> nat option" where
  "simple_escape e = map_of [(34, 34), (92, 92), (47, 47), (98, 8), (102, 12), (110, 10), (114, 13), (116, 9)] e"

definition hex_value :: "nat \<Rightarrow> nat option" where
  "hex_value c =
     (if 48 \<le> c \<and> c \<le> 57 then Some (c - 48)
      else if 97 \<le> c \<and> c \<le> 102 then Some (c - 87)
      else if 65 \<le> c \<and> c \<le> 70 then Some (c - 55) else None)"

definition parse_hex :: "code_units \<Rightarrow> nat" where
  "parse_hex hex = foldl (\<lambda>n c. 16 * n + (case hex_value c of Some d \<Rightarrow> d | None \<Rightarrow> 0)) 0 hex"

text \<open>The body of a string, after its opening quote.\<close>

function read_chars :: "code_units \<Rightarrow> code_units reading" where
  "read_chars [] = ReadFail UnterminatedString 0 []"
| "read_chars (c # s) =
     (if c = 34 then ReadOk [] s
      else if c = 92 then
        (case s of
           [] \<Rightarrow> ReadFail UnterminatedEscape 0 []
         | esc # t \<Rightarrow>
             (case simple_escape esc of
                Some v \<Rightarrow> map_reading (Cons v) (read_chars t)
              | None \<Rightarrow>
                  if esc = 117 then
                    (if length (take 4 t) < 4 \<or> \<not> list_all (\<lambda>h. hex_value h \<noteq> None) (take 4 t)
                     then ReadFail InvalidUnicodeEscape (length s) []
                     else map_reading (Cons (parse_hex (take 4 t))) (read_chars (drop 4 t)))
                  else ReadFail (InvalidEscape esc) (length s) []))
      else if c < 32 then ReadFail (ControlCharacter c) (Suc (length s)) []
      else map_reading (Cons c) (read_chars s))"
  by pat_completeness auto
termination
  by (relation "measure length") auto

definition read_integer :: "code_units \<Rightarrow> unit reading" where
  "read_integer s =
     (case s of
        [] \<Rightarrow> ReadFail TruncatedNumber 0 []
      | c # t \<Rightarrow>
          if c = 48 then ReadOk () t
          else if \<not> digit_code c then ReadFail ExpectedDigit (length s) []
          else ReadOk () (dropWhile digit_code s))"

definition read_fraction :: "code_units \<Rightarrow> unit reading" where
  "read_fraction s =
     (case s of
        [] \<Rightarrow> ReadOk () s
      | c # t \<Rightarrow>
          if c \<noteq> 46 then ReadOk () s
          else (let u = dropWhile digit_code t
                in if length u = length t then ReadFail ExpectedFraction (length t) [] else ReadOk () u))"

definition read_exponent :: "code_units \<Rightarrow> unit reading" where
  "read_exponent s =
     (case s of
        [] \<Rightarrow> ReadOk () s
      | c # t \<Rightarrow>
          if c \<noteq> 101 \<and> c \<noteq> 69 then ReadOk () s
          else (let t = (case t of [] \<Rightarrow> t | g # t' \<Rightarrow> if g = 43 \<or> g = 45 then t' else t);
                    u = dropWhile digit_code t
                in if length u = length t then ReadFail ExpectedExponent (length t) [] else ReadOk () u))"

definition readNumber :: "code_units \<Rightarrow> code_units reading" where
  "readNumber s =
     (case read_integer (case s of c # t \<Rightarrow> if c = 45 then t else s | [] \<Rightarrow> s) of
        ReadFail e n p \<Rightarrow> ReadFail e n p
      | ReadFuel \<Rightarrow> ReadFuel
      | ReadOk _ s1 \<Rightarrow> (case read_fraction s1 of
            ReadFail e n p \<Rightarrow> ReadFail e n p
          | ReadFuel \<Rightarrow> ReadFuel
          | ReadOk _ s2 \<Rightarrow> (case read_exponent s2 of
                ReadFail e n p \<Rightarrow> ReadFail e n p
              | ReadFuel \<Rightarrow> ReadFuel
              | ReadOk _ s3 \<Rightarrow> ReadOk (take (length s - length s3) s) s3)))"

definition pointer_escape :: "code_units \<Rightarrow> code_units" where
  "pointer_escape key = concat (map (\<lambda>c. if c = 126 then [126, 48] else if c = 47 then [126, 49] else [c]) key)"

text \<open>\<^verbatim>\<open>out[key] = value\<close> on a plain object: the name \<^verbatim>\<open>__proto__\<close> reaches the prototype setter and creates no own
  property.\<close>

definition proto_name :: code_units where
  "proto_name = codes ''__proto__''"

definition obj_assign :: "code_units \<Rightarrow> jdoc \<Rightarrow> (code_units \<times> jdoc) list \<Rightarrow> (code_units \<times> jdoc) list" where
  "obj_assign key v out = (if key = proto_name then out else mset_key key v out)"

text \<open>The three mutually recursive loops of \<^verbatim>\<open>readValue\<close>, with their recursive calls open: where the scanner is
  and what it is to read there.\<close>

datatype read_task =
    ValueAt nat code_units code_units
  | ElementsAt nat code_units "jdoc list" code_units
  | MembersAt nat code_units "(code_units \<times> jdoc) list" nat code_units

definition value_body :: "(read_task \<Rightarrow> jdoc reading) \<Rightarrow> JsonLimits \<Rightarrow> nat \<Rightarrow> code_units \<Rightarrow> code_units \<Rightarrow> jdoc reading" where
  "value_body rec l depth path s =
     (if jl_maxDepth l < depth then ReadFail (TooDeep (jl_maxDepth l)) (length s) path
      else (case ws s of
          [] \<Rightarrow> ReadFail UnexpectedEnd 0 path
        | c # t \<Rightarrow>
            if c = 34 then map_reading JStr (read_chars t)
            else if c = 45 \<or> digit_code c then map_reading JNum (readNumber (c # t))
            else if c = 116 then literal (codes ''true'') (JBool True) (c # t)
            else if c = 102 then literal (codes ''false'') (JBool False) (c # t)
            else if c = 110 then literal (codes ''null'') JNull (c # t)
            else if c = 91 then
              (case ws t of
                 [] \<Rightarrow> rec (ElementsAt depth path [] [])
               | d # u \<Rightarrow> if d = 93 then ReadOk (JArr []) u else rec (ElementsAt depth path [] (d # u)))
            else if c = 123 then
              (case ws t of
                 [] \<Rightarrow> rec (MembersAt depth path [] 0 [])
               | d # u \<Rightarrow> if d = 125 then ReadOk (JObj []) u else rec (MembersAt depth path [] 0 (d # u)))
            else ReadFail (UnexpectedCharacter c) (Suc (length t)) []))"

definition elements_body ::
  "(read_task \<Rightarrow> jdoc reading) \<Rightarrow> JsonLimits \<Rightarrow> nat \<Rightarrow> code_units \<Rightarrow> jdoc list \<Rightarrow> code_units \<Rightarrow> jdoc reading" where
  "elements_body rec l depth path out s =
     (if jl_maxArrayLength l \<le> length out then ReadFail (ArrayTooLong (jl_maxArrayLength l)) (length s) path
      else (case rec (ValueAt (Suc depth) (path @ 47 # codes (show_nat (length out))) s) of
          ReadFail e n p \<Rightarrow> ReadFail e n p
        | ReadFuel \<Rightarrow> ReadFuel
        | ReadOk v t \<Rightarrow>
            (case ws t of
               [] \<Rightarrow> ReadFail UnterminatedArray 0 path
             | c # u \<Rightarrow>
                 if c = 44 then rec (ElementsAt depth path (out @ [v]) u)
                 else if c = 93 then ReadOk (JArr (out @ [v])) u
                 else ReadFail ExpectedCommaBracket (Suc (length u)) path)))"

text \<open>One key with its colon: the key and the suffix after it.\<close>

definition read_key :: "JsonLimits \<Rightarrow> code_units \<Rightarrow> (code_units \<times> jdoc) list \<Rightarrow> nat \<Rightarrow> code_units \<Rightarrow> code_units reading" where
  "read_key l path out keys s =
     (case ws s of
        [] \<Rightarrow> ReadFail ExpectedKey 0 path
      | q # t \<Rightarrow>
          if q \<noteq> 34 then ReadFail ExpectedKey (Suc (length t)) path
          else (case read_chars t of
              ReadFail e n p \<Rightarrow> ReadFail e n p
            | ReadFuel \<Rightarrow> ReadFuel
            | ReadOk key u \<Rightarrow>
                if jl_maxObjectKeys l < Suc keys then ReadFail (TooManyKeys (jl_maxObjectKeys l)) (length u) path
                else if map_of out key \<noteq> None \<and> jl_rejectDuplicates l then ReadFail (DuplicateKey key) (Suc (length t)) path
                else (case ws u of
                    [] \<Rightarrow> ReadFail (ExpectedColon key) 0 path
                  | c # x \<Rightarrow> if c \<noteq> 58 then ReadFail (ExpectedColon key) (Suc (length x)) path else ReadOk key x)))"

definition members_body ::
  "(read_task \<Rightarrow> jdoc reading) \<Rightarrow> JsonLimits \<Rightarrow> nat \<Rightarrow> code_units \<Rightarrow> (code_units \<times> jdoc) list \<Rightarrow> nat \<Rightarrow> code_units \<Rightarrow> jdoc reading" where
  "members_body rec l depth path out keys s =
     (case read_key l path out keys s of
        ReadFail e n p \<Rightarrow> ReadFail e n p
      | ReadFuel \<Rightarrow> ReadFuel
      | ReadOk key x \<Rightarrow>
          (case rec (ValueAt (Suc depth) (path @ 47 # pointer_escape key) x) of
             ReadFail e n p \<Rightarrow> ReadFail e n p
           | ReadFuel \<Rightarrow> ReadFuel
           | ReadOk v y \<Rightarrow>
               (case ws y of
                  [] \<Rightarrow> ReadFail UnterminatedObject 0 path
                | d # z \<Rightarrow>
                    if d = 44 then rec (MembersAt depth path (obj_assign key v out) (Suc keys) z)
                    else if d = 125 then ReadOk (JObj (obj_assign key v out)) z
                    else ReadFail ExpectedCommaBrace (Suc (length z)) path)))"

definition task_body :: "(read_task \<Rightarrow> jdoc reading) \<Rightarrow> JsonLimits \<Rightarrow> read_task \<Rightarrow> jdoc reading" where
  "task_body rec l task = (case task of
       ValueAt depth path s \<Rightarrow> value_body rec l depth path s
     | ElementsAt depth path out s \<Rightarrow> elements_body rec l depth path out s
     | MembersAt depth path out keys s \<Rightarrow> members_body rec l depth path out keys s)"

primrec run_task :: "nat \<Rightarrow> JsonLimits \<Rightarrow> read_task \<Rightarrow> jdoc reading" where
  "run_task 0 l task = ReadFuel"
| "run_task (Suc fuel) l task = task_body (run_task fuel l) l task"

definition readValue :: "nat \<Rightarrow> JsonLimits \<Rightarrow> nat \<Rightarrow> code_units \<Rightarrow> code_units \<Rightarrow> jdoc reading" where
  "readValue fuel l depth path s = run_task fuel l (ValueAt depth path s)"

definition readJsonBounded :: "code_units \<Rightarrow> JsonLimits \<Rightarrow> JsonError option + jdoc" where
  "readJsonBounded text l =
     (case readValue (2 * length text + 1) l 1 [] text of
        ReadFuel \<Rightarrow> Inl None
      | ReadFail e left path \<Rightarrow> Inl (Some \<lparr>je_message = e, je_offset = length text - left, je_path = path\<rparr>)
      | ReadOk v s \<Rightarrow>
          (case ws s of
             [] \<Rightarrow> Inr v
           | c # t \<Rightarrow> Inl (Some \<lparr>je_message = TrailingContent, je_offset = length text - Suc (length t), je_path = []\<rparr>)))"

section \<open>The reader consumes what it reads\<close>

lemma length_ws: "length (ws s) \<le> length s"
  by (simp add: ws_def length_dropWhile_le)

lemma ws_Cons: "ws s = c # t \<Longrightarrow> Suc (length t) \<le> length s"
  using length_ws [of s] by simp

lemma map_reading_Ok: "map_reading f r = ReadOk v s \<longleftrightarrow> (\<exists>u. r = ReadOk u s \<and> v = f u)"
  by (cases r) auto

lemma read_chars_spec: "(case read_chars s of ReadOk v t \<Rightarrow> length t < length s | ReadFail e n p \<Rightarrow> n \<le> length s | ReadFuel \<Rightarrow> False)"
proof (induction s rule: read_chars.induct)
  case (2 c s)
  show ?case
  proof (cases "c = 92 \<and> c \<noteq> 34")
    case True
    show ?thesis
    proof (cases s)
      case Nil
      with True show ?thesis by simp
    next
      case (Cons esc t)
      show ?thesis
      proof (cases "simple_escape esc")
        case (Some v)
        from 2(2) [OF _ _ Cons Some] True have "case read_chars t of ReadOk v u \<Rightarrow> length u < length t
            | ReadFail e n p \<Rightarrow> n \<le> length t | ReadFuel \<Rightarrow> False" by simp
        with True Cons Some show ?thesis by (cases "read_chars t") auto
      next
        case None
        show ?thesis
        proof (cases "length (take 4 t) < 4 \<or> \<not> list_all (\<lambda>h. hex_value h \<noteq> None) (take 4 t)")
          case bad: False
          show ?thesis
          proof (cases "esc = 117")
            case u: True
            from 2(1) [OF _ _ Cons None u bad] True have "case read_chars (drop 4 t) of ReadOk v u \<Rightarrow> length u < length (drop 4 t)
              | ReadFail e n p \<Rightarrow> n \<le> length (drop 4 t) | ReadFuel \<Rightarrow> False" by simp
            with True Cons None bad u show ?thesis by (cases "read_chars (drop 4 t)") auto
          qed (use True Cons None in auto)
        qed (use True Cons None in auto)
      qed
    qed
  next
    case False
    show ?thesis
    proof (cases "c = 34 \<or> c < 32")
      case True
      with False show ?thesis by auto
    next
      case norm: False
      with False 2(3) show ?thesis by (cases "read_chars s") auto
    qed
  qed
qed simp

lemma length_dropWhile_digit: "length (dropWhile digit_code s) \<le> length s"
  by (rule length_dropWhile_le)

lemma read_integer_spec: "(case read_integer s of ReadOk _ t \<Rightarrow> length t < length s | ReadFail e n p \<Rightarrow> n \<le> length s | ReadFuel \<Rightarrow> False)"
proof (cases s)
  case (Cons c t)
  then show ?thesis using length_dropWhile_digit [of t] by (auto simp: read_integer_def)
qed (simp add: read_integer_def)

lemma read_fraction_spec: "(case read_fraction s of ReadOk _ t \<Rightarrow> length t \<le> length s | ReadFail e n p \<Rightarrow> n \<le> length s | ReadFuel \<Rightarrow> False)"
proof (cases s)
  case (Cons c t)
  then show ?thesis using length_dropWhile_digit [of t] by (auto simp: read_fraction_def Let_def)
qed (simp add: read_fraction_def)

lemma read_exponent_spec: "(case read_exponent s of ReadOk _ t \<Rightarrow> length t \<le> length s | ReadFail e n p \<Rightarrow> n \<le> length s | ReadFuel \<Rightarrow> False)"
proof (cases s)
  case (Cons c t)
  then show ?thesis using length_dropWhile_digit [of t] length_dropWhile_digit [of "tl t"]
    by (auto simp: read_exponent_def Let_def split: list.splits)
qed (simp add: read_exponent_def)

lemma readNumber_spec: "(case readNumber s of ReadOk _ t \<Rightarrow> length t < length s | ReadFail e n p \<Rightarrow> n \<le> length s | ReadFuel \<Rightarrow> False)"
proof -
  define s0 where "s0 = (case s of c # t \<Rightarrow> if c = 45 then t else s | [] \<Rightarrow> s)"
  have s0: "length s0 \<le> length s" by (auto simp: s0_def split: list.splits)
  note 1 = read_integer_spec [of s0]
  show ?thesis
  proof (cases "read_integer s0")
    case (ReadOk u s1)
    note 2 = read_fraction_spec [of s1]
    show ?thesis
    proof (cases "read_fraction s1")
      case ok2: (ReadOk u2 s2)
      note 3 = read_exponent_spec [of s2]
      show ?thesis using ReadOk ok2 s0 1 2 3 by (cases "read_exponent s2") (auto simp: readNumber_def s0_def [symmetric])
    qed (use ReadOk s0 1 2 in \<open>auto simp: readNumber_def s0_def [symmetric]\<close>)
  qed (use s0 1 in \<open>auto simp: readNumber_def s0_def [symmetric]\<close>)
qed

fun task_suffix :: "read_task \<Rightarrow> code_units" where
  "task_suffix (ValueAt d p s) = s"
| "task_suffix (ElementsAt d p out s) = s"
| "task_suffix (MembersAt d p out k s) = s"

fun task_fuel :: "read_task \<Rightarrow> nat" where
  "task_fuel (ValueAt d p s) = 2 * length s + 1"
| "task_fuel (ElementsAt d p out s) = 2 * length s + 2"
| "task_fuel (MembersAt d p out k s) = 2 * length s + 2"

text \<open>A result that consumes its input and does not run out of fuel.\<close>

definition progress :: "nat \<Rightarrow> 'a reading \<Rightarrow> bool" where
  "progress n r = (case r of ReadOk _ t \<Rightarrow> length t < n | ReadFail e m p \<Rightarrow> True | ReadFuel \<Rightarrow> False)"

lemma progress_mono: "progress m r \<Longrightarrow> m \<le> n \<Longrightarrow> progress n r"
  by (auto simp: progress_def split: reading.splits)

lemma progress_map: "progress n (map_reading f r) = progress n r"
  by (cases r) (auto simp: progress_def)

lemma progress_chars: "progress (length s) (read_chars s)"
  using read_chars_spec [of s] by (auto simp: progress_def split: reading.splits)

lemma progress_number: "progress (length s) (readNumber s)"
  using readNumber_spec [of s] by (auto simp: progress_def split: reading.splits)

lemma progress_literal: "s \<noteq> [] \<Longrightarrow> word \<noteq> [] \<Longrightarrow> progress (length s) (literal word v s)"
  by (auto simp: progress_def literal_def diff_less)

lemma value_body_progress:
  assumes rec: "\<And>task. length (task_suffix task) < length s \<Longrightarrow> progress (length (task_suffix task)) (rec task)"
    and emp: "\<And>task. task_suffix task = [] \<Longrightarrow> progress 0 (rec task)"
  shows "progress (length s) (value_body rec l depth path s)"
proof (cases "ws s")
  case Nil
  then show ?thesis by (simp add: value_body_def progress_def)
next
  case (Cons c t)
  have len: "Suc (length t) \<le> length s" by (rule ws_Cons [OF Cons])
  have lit: "progress (length s) (literal w v (c # t))" if "w \<noteq> []" for w v
    using progress_mono [OF progress_literal [of "c # t" w v]] that len by simp
  have num: "progress (length s) (readNumber (c # t))"
    using progress_mono [OF progress_number [of "c # t"]] len by simp
  have chars: "progress (length s) (read_chars t)"
    using progress_mono [OF progress_chars [of t]] len by simp
  have open_: "progress (length s) (case ws t of [] \<Rightarrow> rec (f []) | d # u \<Rightarrow> if d = k then ReadOk v u else rec (f (d # u)))"
    if f: "\<And>x. task_suffix (f x) = x" for f k and v :: jdoc
  proof (cases "ws t")
    case Nil
    with emp [of "f []"] f progress_mono [of 0 "rec (f [])" "length s"] show ?thesis by simp
  next
    case (Cons d u)
    from ws_Cons [OF Cons] len have less: "length (d # u) < length s" by simp
    with rec [of "f (d # u)"] f progress_mono [of "length (d # u)" "rec (f (d # u))" "length s"] Cons show ?thesis
      by (auto simp: progress_def)
  qed
  show ?thesis
    using Cons lit num chars open_ [of "ElementsAt depth path []"] open_ [of "MembersAt depth path [] 0"]
    by (auto simp: value_body_def progress_map codes_def progress_def [of _ "ReadFail _ _ _"])
qed

lemma elements_body_progress:
  assumes val: "progress (length s) (rec (ValueAt (Suc depth) (path @ 47 # codes (show_nat (length out))) s))"
    and rec: "\<And>task. length (task_suffix task) < length s \<Longrightarrow> progress (length (task_suffix task)) (rec task)"
  shows "progress (length s) (elements_body rec l depth path out s)"
proof (cases "rec (ValueAt (Suc depth) (path @ 47 # codes (show_nat (length out))) s)")
  case (ReadOk v t)
  with val have t: "length t < length s" by (simp add: progress_def)
  show ?thesis
  proof (cases "ws t")
    case Nil
    with ReadOk show ?thesis by (simp add: elements_body_def progress_def)
  next
    case (Cons c u)
    from ws_Cons [OF Cons] t have "length u < length s" by simp
    with rec [of "ElementsAt depth path (out @ [v]) u"] progress_mono [of "length u" _ "length s"] ReadOk Cons
    show ?thesis by (auto simp: elements_body_def progress_def [of _ "ReadFail _ _ _"] progress_def [of _ "ReadOk _ _"])
  qed
qed (use val in \<open>auto simp: elements_body_def progress_def\<close>)

lemma read_key_progress: "progress (length s) (read_key l path out keys s)"
proof (cases "ws s")
  case (Cons q t)
  note len = ws_Cons [OF Cons] and chars = read_chars_spec [of t]
  show ?thesis
  proof (cases "read_chars t")
    case (ReadOk key u)
    with chars len ws_Cons [of u] Cons show ?thesis
      by (cases "ws u") (auto simp: read_key_def progress_def)
  qed (use Cons chars in \<open>auto simp: read_key_def progress_def\<close>)
qed (simp add: read_key_def progress_def)

lemma members_body_progress:
  assumes rec: "\<And>task. length (task_suffix task) < length s \<Longrightarrow> progress (length (task_suffix task)) (rec task)"
  shows "progress (length s) (members_body rec l depth path out keys s)"
proof (cases "read_key l path out keys s")
  case (ReadOk key x)
  with read_key_progress [of s l path out keys] have x: "length x < length s" by (simp add: progress_def)
  note val = rec [of "ValueAt (Suc depth) (path @ 47 # pointer_escape key) x"]
  show ?thesis
  proof (cases "rec (ValueAt (Suc depth) (path @ 47 # pointer_escape key) x)")
    case ok: (ReadOk v y)
    with val x have y: "length y < length x" by (simp add: progress_def)
    show ?thesis
    proof (cases "ws y")
      case Nil
      with ReadOk ok show ?thesis by (simp add: members_body_def progress_def)
    next
      case (Cons d z)
      from ws_Cons [OF Cons] x y have "length z < length s" by simp
      with rec [of "MembersAt depth path (obj_assign key v out) (Suc keys) z"] progress_mono [of "length z" _ "length s"] ReadOk ok Cons
      show ?thesis by (auto simp: members_body_def progress_def [of _ "ReadFail _ _ _"] progress_def [of _ "ReadOk _ _"])
    qed
  qed (use ReadOk val x in \<open>auto simp: members_body_def progress_def\<close>)
qed (use read_key_progress [of s l path out keys] in \<open>auto simp: members_body_def progress_def\<close>)

lemma run_task_progress: "task_fuel task \<le> fuel \<Longrightarrow> progress (length (task_suffix task)) (run_task fuel l task)"
proof (induction fuel arbitrary: task)
  case 0
  then show ?case by (cases task) auto
next
  case (Suc fuel)
  have shorter: "progress (length (task_suffix t)) (run_task fuel l t)" if "length (task_suffix t) < length (task_suffix task)" for t
    using that Suc.prems by (intro Suc.IH) (cases t; cases task; auto)
  show ?case
  proof (cases task)
    case (ValueAt d p s)
    have emp: "progress 0 (run_task fuel l t)" if "task_suffix t = []" "s \<noteq> []" for t
      using Suc.IH [of t] that Suc.prems ValueAt by (cases t; cases s) auto
    show ?thesis
    proof (cases "ws s = []")
      case True
      with ValueAt show ?thesis by (simp add: task_body_def value_body_def progress_def)
    next
      case False
      then have "s \<noteq> []" by (auto simp: ws_def)
      with value_body_progress [of s "run_task fuel l"] shorter emp ValueAt show ?thesis by (simp add: task_body_def)
    qed
  next
    case (ElementsAt d p out s)
    have "progress (length s) (run_task fuel l (ValueAt (Suc d) (p @ 47 # codes (show_nat (length out))) s))"
      using Suc.IH [of "ValueAt (Suc d) (p @ 47 # codes (show_nat (length out))) s"] Suc.prems ElementsAt by simp
    with elements_body_progress [of s "run_task fuel l"] shorter ElementsAt show ?thesis by (simp add: task_body_def)
  next
    case (MembersAt d p out k s)
    with members_body_progress [of s "run_task fuel l"] shorter show ?thesis by (simp add: task_body_def)
  qed
qed

section \<open>Bounds\<close>

fun doc_within :: "JsonLimits \<Rightarrow> nat \<Rightarrow> jdoc \<Rightarrow> bool" where
  "doc_within l d (JArr xs) \<longleftrightarrow> d \<le> jl_maxDepth l \<and> length xs \<le> jl_maxArrayLength l \<and> list_all (doc_within l (Suc d)) xs"
| "doc_within l d (JObj kvs) \<longleftrightarrow> d \<le> jl_maxDepth l \<and> length kvs \<le> jl_maxObjectKeys l \<and> distinct (map fst kvs) \<and>
     list_all (\<lambda>(k, v). doc_within l (Suc d) v) kvs"
| "doc_within l d v \<longleftrightarrow> d \<le> jl_maxDepth l"

fun task_within :: "JsonLimits \<Rightarrow> read_task \<Rightarrow> bool" where
  "task_within l (ValueAt d p s) \<longleftrightarrow> True"
| "task_within l (ElementsAt d p out s) \<longleftrightarrow> d \<le> jl_maxDepth l \<and> length out \<le> jl_maxArrayLength l \<and> list_all (doc_within l (Suc d)) out"
| "task_within l (MembersAt d p out k s) \<longleftrightarrow> d \<le> jl_maxDepth l \<and> length out \<le> k \<and> k \<le> jl_maxObjectKeys l \<and>
     distinct (map fst out) \<and> list_all (\<lambda>(k, v). doc_within l (Suc d) v) out"

fun task_depth :: "read_task \<Rightarrow> nat" where
  "task_depth (ValueAt d p s) = d"
| "task_depth (ElementsAt d p out s) = d"
| "task_depth (MembersAt d p out k s) = d"

lemma list_all_obj_assign:
  "list_all P out \<Longrightarrow> P (k, v) \<Longrightarrow> list_all P (obj_assign k v out)"
proof -
  have "list_all P m \<Longrightarrow> P (k, v) \<Longrightarrow> list_all P (mset_key k v m)" for m by (induction m) auto
  then show "list_all P out \<Longrightarrow> P (k, v) \<Longrightarrow> list_all P (obj_assign k v out)" by (simp add: obj_assign_def)
qed

lemma obj_assign_keys:
  "length (obj_assign k v out) \<le> Suc (length out)" "distinct (map fst out) \<Longrightarrow> distinct (map fst (obj_assign k v out))"
proof -
  have "length (mset_key k v m) \<le> Suc (length m)" for m by (induction m) auto
  then show "length (obj_assign k v out) \<le> Suc (length out)" by (simp add: obj_assign_def le_SucI)
  show "distinct (map fst out) \<Longrightarrow> distinct (map fst (obj_assign k v out))" by (simp add: obj_assign_def distinct_set)
qed

lemma literal_within: "literal w v s = ReadOk u t \<Longrightarrow> u = v"
  by (auto simp: literal_def split: if_splits)

lemma read_key_bound: "read_key l path out keys s = ReadOk key x \<Longrightarrow> Suc keys \<le> jl_maxObjectKeys l"
  by (auto simp: read_key_def split: list.splits reading.splits if_splits)

lemma run_task_within:
  "run_task fuel l task = ReadOk v t \<Longrightarrow> task_within l task \<Longrightarrow> doc_within l (task_depth task) v"
proof (induction fuel arbitrary: task v t)
  case (Suc fuel)
  show ?case
  proof (cases task)
    case (ValueAt d p s)
    with Suc.prems have r: "value_body (run_task fuel l) l d p s = ReadOk v t" by (simp add: task_body_def)
    then have d: "d \<le> jl_maxDepth l" by (auto simp: value_body_def split: if_splits)
    have sub: "doc_within l d v" if "run_task fuel l u = ReadOk v t" "u = ElementsAt d p [] x \<or> u = MembersAt d p [] 0 x" for u x
      using Suc.IH [OF that(1)] that(2) d by auto
    from r d sub ValueAt show ?thesis
      by (auto simp: value_body_def map_reading_Ok dest!: literal_within split: if_splits list.splits)
  next
    case (ElementsAt d p out s)
    with Suc.prems have r: "elements_body (run_task fuel l) l d p out s = ReadOk v t" by (simp add: task_body_def)
    then obtain w y where w: "run_task fuel l (ValueAt (Suc d) (p @ 47 # codes (show_nat (length out))) s) = ReadOk w y"
      and len: "length out < jl_maxArrayLength l"
      by (auto simp: elements_body_def split: if_splits reading.splits)
    from Suc.IH [OF w] have "doc_within l (Suc d) w" by simp
    with Suc.prems(2) ElementsAt len have ok: "task_within l (ElementsAt d p (out @ [w]) u)" for u by auto
    from r w len Suc.IH [OF _ ok] ok ElementsAt show ?thesis
      by (auto simp: elements_body_def split: if_splits list.splits)
  next
    case (MembersAt d p out k s)
    with Suc.prems have r: "members_body (run_task fuel l) l d p out k s = ReadOk v t" by (simp add: task_body_def)
    then obtain key x w y where key: "read_key l p out k s = ReadOk key x"
      and w: "run_task fuel l (ValueAt (Suc d) (p @ 47 # pointer_escape key) x) = ReadOk w y"
      by (auto simp: members_body_def split: reading.splits)
    from Suc.IH [OF w] have "doc_within l (Suc d) w" by simp
    with Suc.prems(2) MembersAt read_key_bound [OF key] obj_assign_keys [where k = key and v = w and out = out]
    have ok: "task_within l (MembersAt d p (obj_assign key w out) (Suc k) u)" for u
      by (auto intro!: list_all_obj_assign)
    from r key w Suc.IH [OF _ ok] ok MembersAt show ?thesis
      by (auto simp: members_body_def split: if_splits list.splits)
  qed
qed simp

section \<open>Printing\<close>

definition hex_digit :: "nat \<Rightarrow> nat" where
  "hex_digit d = (if d < 10 then 48 + d else 87 + d)"

definition print_char :: "nat \<Rightarrow> code_units" where
  "print_char c =
     (if c = 34 then [92, 34] else if c = 92 then [92, 92]
      else if c < 32 then [92, 117, 48, 48, hex_digit (c div 16), hex_digit (c mod 16)] else [c])"

definition print_string :: "code_units \<Rightarrow> code_units" where
  "print_string s = 34 # concat (map print_char s) @ [34]"

fun print_json :: "jdoc \<Rightarrow> code_units" where
  "print_json JNull = codes ''null''"
| "print_json (JBool b) = (if b then codes ''true'' else codes ''false'')"
| "print_json (JNum n) = n"
| "print_json (JStr s) = print_string s"
| "print_json (JArr xs) = 91 # js_join [44] (map print_json xs) @ [93]"
| "print_json (JObj kvs) = 123 # js_join [44] (map (\<lambda>(k, v). print_string k @ 58 # print_json v) kvs) @ [125]"

text \<open>A document a printer may be given: numbers are lexemes, and no key is the name of the prototype.\<close>

fun printable :: "jdoc \<Rightarrow> bool" where
  "printable (JNum n) \<longleftrightarrow> (case n of [] \<Rightarrow> False | c # t \<Rightarrow> c = 45 \<or> digit_code c) \<and> readNumber n = ReadOk n []"
| "printable (JArr xs) \<longleftrightarrow> list_all printable xs"
| "printable (JObj kvs) \<longleftrightarrow> list_all (\<lambda>(k, v). k \<noteq> proto_name \<and> printable v) kvs"
| "printable v \<longleftrightarrow> True"

definition delimited :: "code_units \<Rightarrow> bool" where
  "delimited rest \<longleftrightarrow> (case rest of [] \<Rightarrow> True | c # _ \<Rightarrow> c = 44 \<or> c = 93 \<or> c = 125)"

lemma hex_digit_value: "d < 16 \<Longrightarrow> hex_value (hex_digit d) = Some d"
  by (auto simp: hex_value_def hex_digit_def)

lemma read_print_char: "read_chars (print_char c @ s) = map_reading (Cons c) (read_chars s)"
proof (cases "c = 34 \<or> c = 92 \<or> \<not> c < 32")
  case True
  then show ?thesis by (auto simp: print_char_def simple_escape_def)
next
  case False
  then have "hex_value (hex_digit (c div 16)) = Some (c div 16)" by (intro hex_digit_value) (simp add: less_mult_imp_div_less)
  moreover have "hex_value (hex_digit (c mod 16)) = Some (c mod 16)" by (intro hex_digit_value) simp
  moreover have "hex_value 48 = Some 0" by (simp add: hex_value_def)
  ultimately show ?thesis using False by (simp add: print_char_def simple_escape_def parse_hex_def)
qed

lemma read_print_chars: "read_chars (concat (map print_char s) @ 34 # rest) = ReadOk s rest"
  by (induction s) (simp_all add: read_print_char)

lemma dropWhile_append_stop:
  "rest = [] \<or> \<not> P (hd rest) \<Longrightarrow> dropWhile P (a @ rest) = dropWhile P a @ rest"
  by (induction a) (auto simp: dropWhile_eq_self_iff)

lemma delimited_stop: "delimited rest \<Longrightarrow> rest = [] \<or> \<not> digit_code (hd rest)"
  by (auto simp: delimited_def digit_code_def split: list.splits)

lemma read_integer_append:
  "read_integer s = ReadOk () t \<Longrightarrow> delimited rest \<Longrightarrow> read_integer (s @ rest) = ReadOk () (t @ rest)"
  using dropWhile_append_stop [of rest digit_code s] delimited_stop [of rest]
  by (cases s) (auto simp: read_integer_def split: if_splits)

lemma read_fraction_append:
  assumes "read_fraction s = ReadOk () t" "delimited rest"
  shows "read_fraction (s @ rest) = ReadOk () (t @ rest)"
proof (cases s)
  case Nil
  with assms show ?thesis by (auto simp: read_fraction_def delimited_def split: list.splits)
next
  case (Cons c u)
  with assms dropWhile_append_stop [of rest digit_code u] delimited_stop [of rest] show ?thesis
    by (auto simp: read_fraction_def Let_def split: if_splits)
qed

lemma read_exponent_append:
  assumes "read_exponent s = ReadOk () t" "delimited rest"
  shows "read_exponent (s @ rest) = ReadOk () (t @ rest)"
proof (cases s)
  case Nil
  with assms show ?thesis by (auto simp: read_exponent_def delimited_def split: list.splits)
next
  case (Cons c u)
  show ?thesis
  proof (cases u)
    case Nil
    with assms Cons show ?thesis by (auto simp: read_exponent_def Let_def split: if_splits)
  next
    case u: (Cons g v)
    from assms Cons u dropWhile_append_stop [of rest digit_code v] dropWhile_append_stop [of rest digit_code u] delimited_stop [of rest]
    show ?thesis by (auto simp: read_exponent_def Let_def split: if_splits)
  qed
qed

lemma readNumber_append:
  assumes "readNumber n = ReadOk n []" "n \<noteq> []" "delimited rest"
  shows "readNumber (n @ rest) = ReadOk n rest"
proof -
  define s0 where "s0 = (case n of c # t \<Rightarrow> if c = 45 then t else n | [] \<Rightarrow> n)"
  have s0': "(case n @ rest of c # t \<Rightarrow> if c = 45 then t else n @ rest | [] \<Rightarrow> n @ rest) = s0 @ rest"
    using assms(2) by (cases n) (auto simp: s0_def)
  from assms(1) obtain s1 s2 where 1: "read_integer s0 = ReadOk () s1" "read_fraction s1 = ReadOk () s2" "read_exponent s2 = ReadOk () []"
    by (auto simp: readNumber_def s0_def [symmetric] split: reading.splits)
  show ?thesis
    unfolding readNumber_def s0'
    by (simp add: read_integer_append [OF 1(1) assms(3)] read_fraction_append [OF 1(2) assms(3)] read_exponent_append [OF 1(3) assms(3)])
qed

lemma print_head:
  assumes "printable v"
  obtains c t where "print_json v = c # t" "\<not> is_ws c" "c \<noteq> 93" "c \<noteq> 125"
  using assms
proof (cases v)
  case (JBool b)
  with that show ?thesis by (cases b) (auto simp: codes_def is_ws_def)
qed (auto simp: codes_def print_string_def is_ws_def digit_code_def split: list.splits)

lemma ws_print: "printable v \<Longrightarrow> ws (print_json v @ s) = print_json v @ s"
  by (rule print_head) (auto simp: ws_def)

lemma ws_delim: "delimited s \<Longrightarrow> ws s = s"
  by (auto simp: delimited_def ws_def is_ws_def split: list.splits)

lemma delimited_Cons [simp]: "delimited (44 # s)" "delimited (93 # s)" "delimited (125 # s)" "delimited []"
  by (simp_all add: delimited_def)

text \<open>A value is read back from its printed form in front of a delimiter.\<close>

definition reads_back :: "JsonLimits \<Rightarrow> jdoc \<Rightarrow> bool" where
  "reads_back l v \<longleftrightarrow> (\<forall>d path rest fuel. doc_within l d v \<longrightarrow> printable v \<longrightarrow> delimited rest \<longrightarrow>
     2 * length (print_json v @ rest) + 1 \<le> fuel \<longrightarrow> run_task fuel l (ValueAt d path (print_json v @ rest)) = ReadOk v rest)"

lemma elements_read_back:
  assumes "\<And>x. x \<in> set xs \<Longrightarrow> reads_back l x \<and> printable x \<and> doc_within l (Suc d) x"
    and "xs \<noteq> []" "length out + length xs \<le> jl_maxArrayLength l"
    and "2 * length (js_join [44] (map print_json xs) @ 93 # rest) + 2 \<le> fuel"
  shows "run_task fuel l (ElementsAt d p out (js_join [44] (map print_json xs) @ 93 # rest)) = ReadOk (JArr (out @ xs)) rest"
  using assms
proof (induction xs arbitrary: out fuel)
  case (Cons x xs)
  let ?tail = "if xs = [] then 93 # rest else 44 # js_join [44] (map print_json xs) @ 93 # rest"
  have s: "js_join [44] (map print_json (x # xs)) @ 93 # rest = print_json x @ ?tail" by (cases xs) auto
  obtain f where f: "fuel = Suc f" using Cons.prems(4) by (cases fuel) auto
  have x: "reads_back l x" "printable x" "doc_within l (Suc d) x" using Cons.prems(1) [of x] by auto
  have "run_task f l (ValueAt (Suc d) (p @ 47 # codes (show_nat (length out))) (print_json x @ ?tail)) = ReadOk x ?tail"
    using x Cons.prems(4) f s unfolding reads_back_def by auto
  then have step: "run_task fuel l (ElementsAt d p out (print_json x @ ?tail)) =
      (if xs = [] then ReadOk (JArr (out @ [x])) rest
       else run_task f l (ElementsAt d p (out @ [x]) (js_join [44] (map print_json xs) @ 93 # rest)))"
    using Cons.prems(3) by (simp add: f task_body_def elements_body_def ws_delim)
  show ?case
  proof (cases "xs = []")
    case True
    with step s show ?thesis by simp
  next
    case False
    have "run_task f l (ElementsAt d p (out @ [x]) (js_join [44] (map print_json xs) @ 93 # rest)) = ReadOk (JArr ((out @ [x]) @ xs)) rest"
      using Cons.prems False f s by (intro Cons.IH) auto
    with step s False show ?thesis by simp
  qed
qed simp

lemma obj_assign_fresh: "k \<notin> set (map fst out) \<Longrightarrow> k \<noteq> proto_name \<Longrightarrow> obj_assign k v out = out @ [(k, v)]"
  by (simp add: obj_assign_def set_fresh_append)

lemma read_key_print:
  assumes "Suc keys \<le> jl_maxObjectKeys l" "k \<notin> set (map fst out)"
  shows "read_key l p out keys (print_string k @ 58 # s) = ReadOk k s"
proof -
  have "map_of out k = None" using assms(2) by (simp add: get_None_iff)
  with assms(1) show ?thesis
    by (simp add: read_key_def print_string_def read_print_chars ws_def is_ws_def)
qed

lemma members_read_back:
  assumes "\<And>k v. (k, v) \<in> set kvs \<Longrightarrow> reads_back l v \<and> printable v \<and> doc_within l (Suc d) v \<and> k \<noteq> proto_name"
    and "kvs \<noteq> []" "keys + length kvs \<le> jl_maxObjectKeys l" "distinct (map fst (out @ kvs))"
    and "2 * length (js_join [44] (map (\<lambda>(k, v). print_string k @ 58 # print_json v) kvs) @ 125 # rest) + 2 \<le> fuel"
  shows "run_task fuel l (MembersAt d p out keys (js_join [44] (map (\<lambda>(k, v). print_string k @ 58 # print_json v) kvs) @ 125 # rest)) =
    ReadOk (JObj (out @ kvs)) rest"
  using assms
proof (induction kvs arbitrary: out keys fuel)
  case (Cons kv kvs)
  obtain k v where kv: "kv = (k, v)" by fastforce
  let ?pr = "js_join [44] (map (\<lambda>(k, v). print_string k @ 58 # print_json v) kvs)"
  let ?tail = "if kvs = [] then 125 # rest else 44 # ?pr @ 125 # rest"
  have s: "js_join [44] (map (\<lambda>(k, v). print_string k @ 58 # print_json v) (kv # kvs)) @ 125 # rest = print_string k @ 58 # print_json v @ ?tail"
    by (cases kvs) (auto simp: kv)
  obtain f where f: "fuel = Suc f" using Cons.prems(5) by (cases fuel) auto
  have x: "reads_back l v" "printable v" "doc_within l (Suc d) v" "k \<noteq> proto_name" using Cons.prems(1) [of k v] kv by auto
  have fresh: "k \<notin> set (map fst out)" using Cons.prems(4) kv by auto
  have "run_task f l (ValueAt (Suc d) (p @ 47 # pointer_escape k) (print_json v @ ?tail)) = ReadOk v ?tail"
    using x Cons.prems(5) f s unfolding reads_back_def by (auto simp: print_string_def)
  moreover have "read_key l p out keys (print_string k @ 58 # print_json v @ ?tail) = ReadOk k (print_json v @ ?tail)"
    using Cons.prems(3) fresh by (intro read_key_print) auto
  ultimately have step: "run_task fuel l (MembersAt d p out keys (print_string k @ 58 # print_json v @ ?tail)) =
      (if kvs = [] then ReadOk (JObj (out @ [(k, v)])) rest else run_task f l (MembersAt d p (out @ [(k, v)]) (Suc keys) (?pr @ 125 # rest)))"
    using obj_assign_fresh [OF fresh x(4)] by (simp add: f task_body_def members_body_def ws_delim)
  show ?case
  proof (cases "kvs = []")
    case True
    with step s kv show ?thesis by simp
  next
    case False
    have "run_task f l (MembersAt d p (out @ [(k, v)]) (Suc keys) (?pr @ 125 # rest)) = ReadOk (JObj ((out @ [(k, v)]) @ kvs)) rest"
      using Cons.prems False f s kv by (intro Cons.IH) auto
    with step s False kv show ?thesis by simp
  qed
qed simp

lemmas literal_values = task_body_def value_body_def codes_def ws_def is_ws_def literal_def digit_code_def

lemma all_read_back: "reads_back l v"
proof (induction v)
  case (JNum n)
  show ?case unfolding reads_back_def
  proof (intro allI impI)
    fix d path rest fuel
    assume a: "doc_within l d (JNum n)" "printable (JNum n)" "delimited rest" "2 * length (print_json (JNum n) @ rest) + 1 \<le> fuel"
    then obtain f where f: "fuel = Suc f" by (cases fuel) auto
    from a(2) obtain c t where n: "n = c # t" "c = 45 \<or> digit_code c" "readNumber n = ReadOk n []" by (auto split: list.splits)
    have "ws (n @ rest) = n @ rest" using ws_print [OF a(2)] by simp
    moreover have "c \<noteq> 34" using n(2) by (auto simp: digit_code_def)
    ultimately show "run_task fuel l (ValueAt d path (print_json (JNum n) @ rest)) = ReadOk (JNum n) rest"
      using a(1) readNumber_append [OF n(3) _ a(3)] n(1,2) by (simp add: f task_body_def value_body_def)
  qed
next
  case (JStr s)
  show ?case unfolding reads_back_def
  proof (intro allI impI)
    fix d path rest fuel
    assume a: "doc_within l d (JStr s)" "2 * length (print_json (JStr s) @ rest) + 1 \<le> fuel"
    then obtain f where f: "fuel = Suc f" by (cases fuel) auto
    have "ws (34 # x) = 34 # x" for x by (simp add: ws_def is_ws_def)
    with a(1) show "run_task fuel l (ValueAt d path (print_json (JStr s) @ rest)) = ReadOk (JStr s) rest"
      by (simp add: f task_body_def value_body_def print_string_def read_print_chars)
  qed
next
  case (JArr xs)
  show ?case unfolding reads_back_def
  proof (intro allI impI)
    fix d path rest fuel
    assume a: "doc_within l d (JArr xs)" "printable (JArr xs)" "2 * length (print_json (JArr xs) @ rest) + 1 \<le> fuel"
    then obtain f where f: "fuel = Suc f" by (cases fuel) auto
    have ws0: "ws (91 # x) = 91 # x" "ws (93 # x) = 93 # x" for x by (simp_all add: ws_def is_ws_def)
    show "run_task fuel l (ValueAt d path (print_json (JArr xs) @ rest)) = ReadOk (JArr xs) rest"
    proof (cases xs)
      case Nil
      with a(1) show ?thesis by (simp add: f task_body_def value_body_def ws0 digit_code_def)
    next
      case (Cons x ys)
      let ?s = "js_join [44] (map print_json xs) @ 93 # rest"
      have "printable x" using a(2) Cons by simp
      then obtain c t where c: "print_json x = c # t" "\<not> is_ws c" "c \<noteq> 93" "c \<noteq> 125" by (rule print_head)
      then obtain u where u: "?s = c # u" using Cons by (cases ys) auto
      have "run_task f l (ElementsAt d path [] ?s) = ReadOk (JArr ([] @ xs)) rest"
        using a JArr f Cons by (intro elements_read_back) (auto simp: list_all_iff)
      moreover have "ws ?s = c # u" using u c(2) by (simp add: ws_def)
      ultimately show ?thesis using a(1) c(3) u by (simp add: f task_body_def value_body_def ws0 digit_code_def)
    qed
  qed
next
  case (JObj kvs)
  show ?case unfolding reads_back_def
  proof (intro allI impI)
    fix d path rest fuel
    assume a: "doc_within l d (JObj kvs)" "printable (JObj kvs)" "2 * length (print_json (JObj kvs) @ rest) + 1 \<le> fuel"
    then obtain f where f: "fuel = Suc f" by (cases fuel) auto
    have ws0: "ws (123 # x) = 123 # x" "ws (125 # x) = 125 # x" "ws (34 # x) = 34 # x" for x by (simp_all add: ws_def is_ws_def)
    show "run_task fuel l (ValueAt d path (print_json (JObj kvs) @ rest)) = ReadOk (JObj kvs) rest"
    proof (cases kvs)
      case Nil
      with a(1) show ?thesis by (simp add: f task_body_def value_body_def ws0 digit_code_def)
    next
      case (Cons kv rest')
      let ?s = "js_join [44] (map (\<lambda>(k, v). print_string k @ 58 # print_json v) kvs) @ 125 # rest"
      obtain u where u: "?s = 34 # u" using Cons by (cases kv; cases rest') (auto simp: print_string_def)
      have all: "reads_back l v" if "(k, v) \<in> set kvs" for k v using JObj [OF that] by (simp add: snds.simps)
      have "run_task f l (MembersAt d path [] 0 ?s) = ReadOk (JObj ([] @ kvs)) rest"
        using a all f Cons by (intro members_read_back) (auto simp: list_all_iff)
      with u show ?thesis using a(1) by (simp add: f task_body_def value_body_def ws0 digit_code_def)
    qed
  qed
next
  case JNull
  show ?case unfolding reads_back_def
  proof (intro allI impI)
    fix d path rest fuel
    assume a: "doc_within l d JNull" "2 * length (print_json JNull @ rest) + 1 \<le> fuel"
    then obtain f where "fuel = Suc f" by (cases fuel) auto
    with a(1) show "run_task fuel l (ValueAt d path (print_json JNull @ rest)) = ReadOk JNull rest"
      by (simp add: literal_values)
  qed
next
  case (JBool b)
  show ?case unfolding reads_back_def
  proof (intro allI impI)
    fix d path rest fuel
    assume a: "doc_within l d (JBool b)" "2 * length (print_json (JBool b) @ rest) + 1 \<le> fuel"
    then obtain f where "fuel = Suc f" by (cases fuel) auto
    with a(1) show "run_task fuel l (ValueAt d path (print_json (JBool b) @ rest)) = ReadOk (JBool b) rest"
      by (cases b) (simp_all add: literal_values)
  qed
qed

section \<open>Properties\<close>

text \<open>C28: the reader always answers: on every text and under every limits it returns a value or an error, never
  running out of the fuel its entry point supplies.\<close>

theorem readJsonBounded_total: "readJsonBounded text l \<noteq> Inl None"
  using run_task_progress [of "ValueAt 1 [] text" "2 * length text + 1" l]
  by (auto simp: readJsonBounded_def readValue_def progress_def split: reading.splits list.splits)

text \<open>What the reader accepts is bounded everywhere: nesting is at most the maximum depth, every array and every
  object at every level is within its limit, and no object has a key twice.\<close>

lemma readJsonBounded_bounded:
  assumes "readJsonBounded text l = Inr v"
  shows "doc_within l 1 v"
proof -
  from assms obtain s where "run_task (2 * length text + 1) l (ValueAt 1 [] text) = ReadOk v s"
    by (auto simp: readJsonBounded_def readValue_def split: reading.splits list.splits)
  from run_task_within [OF this] show ?thesis by simp
qed




text \<open>The duplicate-key rule has one hole. A text that gives the key \<^verbatim>\<open>__proto__\<close> twice is accepted under the
  rule that rejects duplicates, and the value read has no such member at all, where every other
  repeated key is refused.\<close>

lemma proto_key_not_seen:
  "readJsonBounded (codes [CHR ''{'', CHR 0x22] @ proto_name @ codes [CHR 0x22, CHR '':'', CHR ''1'', CHR '','', CHR 0x22] @
     proto_name @ codes [CHR 0x22, CHR '':'', CHR ''2'', CHR ''}'']) JSON_DEFAULT_LIMITS = Inr (JObj []) \<and>
   (\<exists>e. readJsonBounded (codes [CHR ''{'', CHR 0x22, CHR ''a'', CHR 0x22, CHR '':'', CHR ''1'', CHR '','', CHR 0x22, CHR ''a'', CHR 0x22,
     CHR '':'', CHR ''2'', CHR ''}'']) JSON_DEFAULT_LIMITS = Inl (Some e) \<and> je_message e = DuplicateKey (codes ''a'') \<and> je_offset e = 7)"
proof
  show "readJsonBounded (codes [CHR ''{'', CHR 0x22] @ proto_name @ codes [CHR 0x22, CHR '':'', CHR ''1'', CHR '','', CHR 0x22] @
     proto_name @ codes [CHR 0x22, CHR '':'', CHR ''2'', CHR ''}'']) JSON_DEFAULT_LIMITS = Inr (JObj [])" by code_simp
  have "readJsonBounded (codes [CHR ''{'', CHR 0x22, CHR ''a'', CHR 0x22, CHR '':'', CHR ''1'', CHR '','', CHR 0x22, CHR ''a'', CHR 0x22,
     CHR '':'', CHR ''2'', CHR ''}'']) JSON_DEFAULT_LIMITS = Inl (Some \<lparr>je_message = DuplicateKey (codes ''a''), je_offset = 7, je_path = []\<rparr>)"
    by code_simp
  then show "\<exists>e. readJsonBounded (codes [CHR ''{'', CHR 0x22, CHR ''a'', CHR 0x22, CHR '':'', CHR ''1'', CHR '','', CHR 0x22, CHR ''a'', CHR 0x22,
     CHR '':'', CHR ''2'', CHR ''}'']) JSON_DEFAULT_LIMITS = Inl (Some e) \<and> je_message e = DuplicateKey (codes ''a'') \<and> je_offset e = 7"
    by simp
qed

end
