(* ===== verification/Store.thy ===== *)
theory Store
  imports ConfigDoc IsoTime
begin

declare map_of_eq_Some_iff [simp del] Some_eq_map_of_iff [simp del]

text \<open>
  The control plane's database: the tables the release, promotion and configuration code reads and
  writes, each a list of rows in \<^verbatim>\<open>rowid\<close> order, so \<^verbatim>\<open>ORDER BY rowid\<close> is the order of the list and an
  \<^verbatim>\<open>INSERT\<close> appends. A nullable column is an \<^verbatim>\<open>option\<close>, an instant is the ISO text the column holds, and a
  JSON column is the value it parses to. Columns that no modelled code reads are left out. \<^verbatim>\<open>db_product\<close> and
  \<^verbatim>\<open>db_product_owner\<close> are two groups of columns of one table (name; owner and whether it is active), as are
  \<^verbatim>\<open>db_certificate\<close> and \<^verbatim>\<open>db_certificate_owner\<close>.
  \<^verbatim>\<open>newId\<close> draws random identifiers; wherever the code calls it, the identifier is an argument. The
  clock is an argument too, read once per operation.
\<close>

section \<open>Rows\<close>

datatype ReleaseState = Pending | Converging | Converged | Superseded | Withdrawn | Failed | Stale

definition REACHED_FLEET_STATES :: "ReleaseState list" where
  "REACHED_FLEET_STATES = [Converged, Superseded, Withdrawn]"

record ReleaseRow =
  rel_id :: string
  rel_resource :: string
  rel_revision :: string
  rel_env :: string
  rel_state :: ReleaseState
  rel_reason :: "string option"
  rel_version_digest :: string
  rel_released_by :: string
  rel_released_at :: string
  rel_plan :: "string option"

record TargetRow =
  tgt_id :: string
  tgt_env :: string
  tgt_name :: string
  tgt_paused :: bool
  tgt_lease_holder :: "string option"
  tgt_lease_expires_at :: "string option"

record AppliedRow =
  app_target :: string
  app_resource :: string
  app_revision :: string
  app_digest :: string
  app_compiler :: string
  app_at :: string

record ResourceRow =
  res_id :: string
  res_name :: string
  res_api_version :: string
  res_kind :: ResourceKind
  res_application :: string
  res_lifecycle :: Lifecycle
  res_sunset_at :: "string option"
  res_listed :: bool
  res_domain :: "string option"
  res_subdomain :: "string option"
  res_kafka_topic :: "string option"
  res_platform_role :: "string option"
  res_updated_at :: string

text \<open>What \<^verbatim>\<open>rev.model\<close> holds of the parts the configuration reads.\<close>

record ModelOperation =
  mo_operationId :: string
  mo_soapAction :: "string option"
  mo_inputElement :: "string option"

record ApiModel =
  am_operations :: "ModelOperation list"
  am_soap12 :: "bool option"
  am_mcpProtocolVersion :: "string option"
  am_a2aCard :: "jsval option"

record RevisionRow =
  rev_id :: string
  rev_resource :: string
  rev_rev :: nat
  rev_version_digest :: string
  rev_frozen_at :: "string option"
  rev_pruned_at :: "string option"
  rev_artifact_digest :: "string option"
  rev_index :: "ConfigOperation list"
  rev_model :: ApiModel

record PolicyEntryRow =
  pe_resource :: string
  pe_env :: string
  pe_unit :: string
  pe_value :: jsval
  pe_seeded :: bool
  pe_seeded_from :: "string option"
  pe_seeded_at :: "string option"
  pe_updated_by :: string
  pe_updated_at :: string

datatype SubscriptionState = SPending | SActivating | SActive | SRevoking | SRevoked | SRejected | SCancelled

record SubscriptionRow =
  sbr_id :: string
  sbr_product :: string
  sbr_application :: string
  sbr_env :: string
  sbr_state :: SubscriptionState
  sbr_primary_enc :: string
  sbr_secondary_enc :: "string option"
  sbr_primary_at :: "string option"
  sbr_secondary_at :: "string option"
  sbr_primary_expired_at :: "string option"
  sbr_secondary_expired_at :: "string option"
  sbr_created_at :: string

record InstanceRow =
  ins_target :: string
  ins_config_digest :: "string option"
  ins_last_seen_at :: "string option"
  ins_revoked_at :: "string option"

record TlsExceptionRow =
  tex_id :: string
  tex_resource :: string
  tex_env :: string
  tex_backend_url :: "string option"
  tex_mode :: tls_mode
  tex_pin :: "string option"
  tex_reason :: string
  tex_expires_at :: string
  tex_revoked_at :: "string option"

record BodyCaptureRow =
  bc_resource :: string
  bc_env :: string
  bc_expires_at :: string
  bc_revoked_at :: "string option"

record DenyRule =
  dr_id :: string
  dr_environment :: "string option"
  dr_scheme :: "string option"
  dr_hostPattern :: string
  dr_reason :: string
  dr_ports :: "nat list option"
  dr_portRange :: "(nat \<times> nat) option"

record DenyRuleRow =
  drr_rule :: DenyRule
  drr_created_at :: string
  drr_removed_at :: "string option"

datatype credential_kind = CredBasic | CredSecret | CredHmac

record AppCredentialRow =
  acr_application :: string
  acr_env :: string
  acr_name :: string
  acr_kind :: credential_kind
  acr_principal :: "string option"
  acr_secret_enc :: string

record AuditRow =
  aud_actor :: string
  aud_action :: string
  aud_subject :: string
  aud_ok :: bool

section \<open>Plans, jobs and operations\<close>

record PolicyPlanEntry =
  ppe_unit :: string
  ppe_value :: jsval
  ppe_from :: "string option"

datatype blocker_code = NoRoute | NoBinding | NoTarget | ChainBlocked | InvalidMerge

record ReleasePlan =
  plan_resourceId :: string
  plan_resourceName :: string
  plan_apiVersion :: string
  plan_revisionId :: string
  plan_rev :: nat
  plan_from :: "string option"
  plan_to :: string
  plan_isRollback :: bool
  plan_skipChain :: bool
  plan_blockers :: "blocker_code list"
  plan_create :: "PolicyPlanEntry list"
  plan_keep :: "PolicyPlanEntry list"
  plan_localOnly :: "PolicyPlanEntry list"
  plan_openRoute :: bool
  plan_rollbackSeeds :: bool

record ReleasePlanRow =
  rpl_id :: string
  rpl_resource :: string
  rpl_revision :: string
  rpl_env :: string
  rpl_plan :: ReleasePlan
  rpl_computed_by :: string
  rpl_computed_at :: string

datatype intent = Apply | Remove

record ReconcilePayload =
  rp_targetId :: string
  rp_resourceId :: string
  rp_releaseId :: "string option"
  rp_planId :: "string option"
  rp_intent :: intent
  rp_environment :: "string option"

datatype job_payload = ReconcileJob ReconcilePayload | OtherJob jsval

datatype JobState = JQueued | JRunning | JDone | JFailed

record JobRow =
  job_id :: string
  job_kind :: string
  job_state :: JobState
  job_payload :: job_payload
  job_key :: "string option"
  job_attempts :: nat
  job_result :: "string option"
  job_next_attempt_at :: "string option"
  job_created_at :: string
  job_updated_at :: string

datatype OperationState = OQueued | OApplying | ORetrying | OBlocked | OWaiting | OComplete | OSuperseded

record Snapshot =
  snap_revisionId :: string
  snap_host :: string
  snap_basePath :: string
  snap_backend :: jsval
  snap_policy :: "(string, jsval) jsmap"
  snap_gateways :: "string list option"
  snap_sourceOperationId :: "string option"
  snap_sourceEnvironment :: "string option"
  snap_requestDigest :: "string option"

record OperationRow =
  opn_id :: string
  opn_application :: string
  opn_actor :: string
  opn_kind :: string
  opn_resource :: string
  opn_env :: string
  opn_state :: OperationState
  opn_input :: Snapshot
  opn_result :: "(string \<times> string) option"
  opn_error :: "string option"
  opn_attempts :: nat
  opn_next_attempt_at :: "string option"
  opn_created_at :: string
  opn_updated_at :: string
  opn_key :: string

section \<open>The database\<close>

type_synonym scope_key = "string \<times> string"

record DB =
  db_release :: "ReleaseRow list"
  db_target :: "TargetRow list"
  db_route :: "(scope_key, string \<times> string) jsmap"
  db_binding :: "(scope_key, jsval) jsmap"
  db_route_gateway :: "(string \<times> string \<times> string) list"
  db_applied :: "AppliedRow list"
  db_resource :: "ResourceRow list"
  db_revision :: "RevisionRow list"
  db_policy :: "PolicyEntryRow list"
  db_global_policy :: "(string \<times> string \<times> jsval) list"
  db_plan :: "ReleasePlanRow list"
  db_job :: "JobRow list"
  db_operation :: "OperationRow list"
  db_subscription :: "SubscriptionRow list"
  db_instance :: "InstanceRow list"
  db_tls_exception :: "TlsExceptionRow list"
  db_body_capture :: "BodyCaptureRow list"
  db_deny_rule :: "DenyRuleRow list"
  db_artifact :: "(string, artifact_kind \<times> nat) jsmap"
  db_product_member :: "(string \<times> string) list"
  db_application :: "(string, string) jsmap"
  db_product :: "(string, string) jsmap"
  db_product_owner :: "(string, string \<times> bool) jsmap"
  db_certificate :: "(string \<times> ConfigCertificate) list"
  db_certificate_owner :: "(string, string) jsmap"
  db_environment_override :: "(scope_key, (string, jsval) jsmap) jsmap"
  db_trust_anchor :: "(string \<times> ConfigTrustAnchor \<times> string option) list"
  db_app_credential :: "AppCredentialRow list"
  db_settings :: "SettingRow list"
  db_audit :: "AuditRow list"

text \<open>The database of a fresh installation, which the concrete examples start from.\<close>

definition empty_db :: DB where
  "empty_db = \<lparr>db_release = [], db_target = [], db_route = [], db_binding = [], db_route_gateway = [], db_applied = [],
     db_resource = [], db_revision = [], db_policy = [], db_global_policy = [], db_plan = [], db_job = [], db_operation = [],
     db_subscription = [], db_instance = [], db_tls_exception = [], db_body_capture = [], db_deny_rule = [], db_artifact = [],
     db_product_member = [], db_application = [], db_product = [], db_product_owner = [], db_certificate = [], db_certificate_owner = [], db_environment_override = [], db_trust_anchor = [], db_app_credential = [],
     db_settings = [], db_audit = []\<rparr>"

definition writeAudit :: "string \<Rightarrow> string \<Rightarrow> string \<Rightarrow> bool \<Rightarrow> DB \<Rightarrow> DB" where
  "writeAudit actor action subject ok db =
     db\<lparr>db_audit := db_audit db @ [\<lparr>aud_actor = actor, aud_action = action, aud_subject = subject, aud_ok = ok\<rparr>]\<rparr>"

lemma writeAudit_fields [simp]:
  "db_release (writeAudit a b c ok db) = db_release db"
  "db_target (writeAudit a b c ok db) = db_target db"
  "db_route (writeAudit a b c ok db) = db_route db"
  "db_binding (writeAudit a b c ok db) = db_binding db"
  "db_route_gateway (writeAudit a b c ok db) = db_route_gateway db"
  "db_applied (writeAudit a b c ok db) = db_applied db"
  "db_policy (writeAudit a b c ok db) = db_policy db"
  "db_job (writeAudit a b c ok db) = db_job db"
  "db_operation (writeAudit a b c ok db) = db_operation db"
  "db_subscription (writeAudit a b c ok db) = db_subscription db"
  "db_revision (writeAudit a b c ok db) = db_revision db"
  "db_resource (writeAudit a b c ok db) = db_resource db"
  by (simp_all add: writeAudit_def)

section \<open>Queries the components share\<close>

definition reached :: "ReleaseState \<Rightarrow> bool" where
  "reached s \<longleftrightarrow> s \<in> set REACHED_FLEET_STATES"

definition release_by_id :: "DB \<Rightarrow> string \<Rightarrow> ReleaseRow option" where
  "release_by_id db rid = find (\<lambda>r. rel_id r = rid) (db_release db)"

text \<open>\<^verbatim>\<open>SELECT \<dots> FROM target WHERE environment = ? ORDER BY name\<close>; names are unique in an environment.\<close>

definition gatewaysIn :: "DB \<Rightarrow> string \<Rightarrow> TargetRow list" where
  "gatewaysIn db environment = sort_key tgt_name (filter (\<lambda>t. tgt_env t = environment) (db_target db))"

definition resolve_names :: "(string \<times> string) list \<Rightarrow> string list \<Rightarrow> string list \<times> string list" where
  "resolve_names known names =
     (List.map_filter (\<lambda>n. map_of known n) names, filter (\<lambda>n. map_of known n = None) names)"

definition resolveGateways :: "DB \<Rightarrow> string \<Rightarrow> string list \<Rightarrow> string list \<times> string list" where
  "resolveGateways db environment names =
     resolve_names (map (\<lambda>t. (tgt_name t, tgt_id t)) (gatewaysIn db environment)) names"

definition bound_targets :: "DB \<Rightarrow> string \<Rightarrow> string \<Rightarrow> string list" where
  "bound_targets db resource environment =
     map (\<lambda>(_, _, t). t) (filter (\<lambda>(r, e, _). r = resource \<and> e = environment) (db_route_gateway db))"

definition boundGatewayNames :: "DB \<Rightarrow> string \<Rightarrow> string \<Rightarrow> string list" where
  "boundGatewayNames db resource environment =
     sort (List.map_filter (\<lambda>i. map_option tgt_name (find (\<lambda>t. tgt_id t = i) (db_target db)))
       (bound_targets db resource environment))"

text \<open>\<^verbatim>\<open>INSERT \<dots> ON CONFLICT (target_id, resource_id) DO UPDATE\<close>\<close>

definition upsert_applied :: "AppliedRow \<Rightarrow> AppliedRow list \<Rightarrow> AppliedRow list" where
  "upsert_applied row rows =
     (if \<exists>r\<in>set rows. app_target r = app_target row \<and> app_resource r = app_resource row
      then map (\<lambda>r. if app_target r = app_target row \<and> app_resource r = app_resource row then row else r) rows
      else rows @ [row])"

end
