(* ===== verification/GlobalPolicy.thy ===== *)
theory GlobalPolicy
  imports Store
begin

declare map_of_eq_Some_iff [simp del] Some_eq_map_of_iff [simp del]

text \<open>
  The stored form of a policy document, a map from unit keys to JSON values, and the two tiers it is
  assembled from: \<^verbatim>\<open>shared/policy.ts\<close> (unit keys, \<^verbatim>\<open>disabled\<close>) and \<^verbatim>\<open>control-plane/src/globals.ts\<close> (the
  environment's global tier and who may depart from it). \<^verbatim>\<open>JSON.stringify\<close> is injective on the values a
  column holds, so where the code compares two stringified values the model compares the values. The
  alphabetical order the lists are shown in is left out.
\<close>

type_synonym document = "(string, jsval) jsmap"

section \<open>Unit keys\<close>

definition POLICY_UNITS :: "string list" where
  "POLICY_UNITS = [''auth.subscriptionKey'', ''auth.basic'', ''auth.jwt'', ''auth.introspection'', ''auth.mtls'',
     ''ipAllow'', ''cors'', ''preconditions'', ''validate'', ''rewrite'', ''headers.request'', ''headers.response'',
     ''transform'', ''kafkaProduce'', ''cache'', ''rateLimit'', ''quota'', ''timeoutMs'', ''retries'', ''circuitBreaker'',
     ''concurrency'', ''backendAuth'', ''passthrough'', ''errorFormat'']"

definition GLOBAL_UNITS :: "string list" where
  "GLOBAL_UNITS = [''auth.subscriptionKey'', ''auth.basic'', ''auth.jwt'', ''auth.introspection'', ''auth.mtls'',
     ''ipAllow'', ''cors'', ''preconditions'', ''validate'', ''headers.request'', ''headers.response'', ''rateLimit'',
     ''quota'', ''timeoutMs'', ''retries'', ''circuitBreaker'', ''concurrency'']"

definition OPERATION_OVERRIDABLE :: "string list" where
  "OPERATION_OVERRIDABLE = [''validate'', ''rateLimit'', ''quota'', ''timeoutMs'', ''cache'']"

definition DISABLED_KEY :: string where
  "DISABLED_KEY = ''disabled''"

text \<open>The class \<^verbatim>\<open>[A-Za-z0-9._:/{}-]\<close>, and \<^verbatim>\<open>.\<close>, which matches no line terminator.\<close>

definition op_id_char :: "char \<Rightarrow> bool" where
  "op_id_char c \<longleftrightarrow> char_in CHR ''A'' CHR ''Z'' c \<or> char_in CHR ''a'' CHR ''z'' c \<or> char_in CHR ''0'' CHR ''9'' c \<or>
     c \<in> set ''._:/{}-''"

definition no_newline :: "string \<Rightarrow> bool" where
  "no_newline s \<longleftrightarrow> CHR 0x0A \<notin> set s \<and> CHR 0x0D \<notin> set s"

definition op_key_open :: string where
  "op_key_open = ''operations['' @ [CHR 0x22]"

definition op_key_close :: string where
  "op_key_close = CHR 0x22 # ''].''"

definition parseOperationUnitKey :: "string \<Rightarrow> (string \<times> string) option" where
  "parseOperationUnitKey unitKey =
     (if \<not> starts_with op_key_open unitKey then None
      else (let s = drop (length op_key_open) unitKey; oid = takeWhile op_id_char s; rest = dropWhile op_id_char s
            in if 1 \<le> length oid \<and> length oid \<le> 120 \<and> starts_with op_key_close rest \<and>
                  drop (length op_key_close) rest \<noteq> [] \<and> no_newline (drop (length op_key_close) rest)
               then Some (oid, drop (length op_key_close) rest) else None))"

definition operationUnitKey :: "string \<Rightarrow> string \<Rightarrow> string" where
  "operationUnitKey operationId unit = op_key_open @ operationId @ op_key_close @ unit"

definition isGloballyAttachable :: "string \<Rightarrow> bool" where
  "isGloballyAttachable unitKey =
     (if parseOperationUnitKey unitKey \<noteq> None then False
      else unitKey \<in> set GLOBAL_UNITS \<or> unitKey = DISABLED_KEY)"

section \<open>Documents\<close>

text \<open>\<^verbatim>\<open>doc[key] = value\<close> on a plain object.\<close>

definition doc_set :: "string \<Rightarrow> jsval \<Rightarrow> document \<Rightarrow> document" where
  "doc_set key v doc = (if key = ''__proto__'' then doc else mset_key key v doc)"

definition assembleDocument :: "(string \<times> jsval) list \<Rightarrow> document" where
  "assembleDocument entries = foldl (\<lambda>doc (key, v). doc_set key v doc) [] entries"

definition disabledUnits :: "document \<Rightarrow> string list" where
  "disabledUnits doc = (case as_array (map_of doc DISABLED_KEY) of
       None \<Rightarrow> []
     | Some raw \<Rightarrow> List.map_filter (\<lambda>k. case as_string (Some k) of
          Some key \<Rightarrow> if map_of doc key \<noteq> None then Some key else None | None \<Rightarrow> None) raw)"

definition activeDocument :: "document \<Rightarrow> document" where
  "activeDocument doc =
     (if disabledUnits doc = [] \<and> map_of doc DISABLED_KEY = None then doc
      else foldl (\<lambda>out key. mdelete key out) (mdelete DISABLED_KEY doc) (disabledUnits doc))"

section \<open>The global tier\<close>

definition globalUnits :: "DB \<Rightarrow> string \<Rightarrow> document" where
  "globalUnits db environment =
     map (\<lambda>(_, u, v). (u, v)) (sort_key (\<lambda>(_, u, _). u) (filter (\<lambda>(e, _, _). e = environment) (db_global_policy db)))"

definition inheritedUnits :: "DB \<Rightarrow> string \<Rightarrow> document" where
  "inheritedUnits db environment = filter (\<lambda>(u, _). isGloballyAttachable u) (globalUnits db environment)"

definition globalDocument :: "DB \<Rightarrow> string \<Rightarrow> document" where
  "globalDocument db environment = assembleDocument (globalUnits db environment)"

definition resourceUnits :: "DB \<Rightarrow> string \<Rightarrow> string \<Rightarrow> document" where
  "resourceUnits db resource environment =
     map (\<lambda>r. (pe_unit r, pe_value r))
       (sort_key pe_unit (filter (\<lambda>r. pe_resource r = resource \<and> pe_env r = environment) (db_policy db)))"

definition merge_units :: "document \<Rightarrow> document \<Rightarrow> document" where
  "merge_units wide own = foldl (\<lambda>doc (u, v). doc_set u v doc)
     (foldl (\<lambda>doc (u, v). if isGloballyAttachable u then doc_set u v doc else doc) [] wide) own"

definition effectiveDocument :: "DB \<Rightarrow> string \<Rightarrow> string \<Rightarrow> document" where
  "effectiveDocument db resource environment =
     merge_units (globalUnits db environment) (resourceUnits db resource environment)"

datatype override_how = Changed | Disabled

definition globalUnitState ::
  "document \<Rightarrow> document \<Rightarrow> string \<Rightarrow> override_how option \<times> (bool \<times> jsval option)" where
  "globalUnitState wide doc unitKey =
     (let off = (unitKey \<noteq> DISABLED_KEY \<and> unitKey \<in> set (disabledUnits doc));
          own = map_of doc unitKey;
          v = (if own = None then map_of wide unitKey else own);
          how = (if off then Some Disabled
                 else if own \<noteq> None \<and> own \<noteq> map_of wide unitKey then Some Changed else None)
      in (how, (off, v)))"

definition globalOverrides :: "document \<Rightarrow> document \<Rightarrow> (string \<times> override_how) list" where
  "globalOverrides wide doc =
     List.map_filter (\<lambda>u. map_option (Pair u) (fst (globalUnitState wide doc u))) (mkeys wide)"

definition globalUnitChanges :: "document \<Rightarrow> document \<Rightarrow> document \<Rightarrow> (string \<times> override_how) list" where
  "globalUnitChanges wide before after =
     List.map_filter (\<lambda>u. let was = globalUnitState wide before u; now = globalUnitState wide after u
        in if snd was = snd now then None
           else Some (u, case fst now of Some h \<Rightarrow> h | None \<Rightarrow> (case fst was of Some h \<Rightarrow> h | None \<Rightarrow> Changed)))
       (mkeys wide)"

section \<open>Lemmas\<close>

lemma parse_operation_unit_key:
  assumes "list_all op_id_char oid" "1 \<le> length oid" "length oid \<le> 120" "unit \<noteq> []" "no_newline unit"
  shows "parseOperationUnitKey (operationUnitKey oid unit) = Some (oid, unit)"
proof -
  have q: "\<not> op_id_char CHR 0x22" by (simp add: op_id_char_def char_in_def)
  have "takeWhile op_id_char (oid @ op_key_close @ unit) = oid"
    using assms(1) q by (subst takeWhile_append2) (auto simp: list_all_iff op_key_close_def)
  moreover have "dropWhile op_id_char (oid @ op_key_close @ unit) = op_key_close @ unit"
    using assms(1) q by (subst dropWhile_append2) (auto simp: list_all_iff op_key_close_def)
  ultimately show ?thesis using assms(2-5) by (simp add: parseOperationUnitKey_def operationUnitKey_def)
qed

lemma global_unit_not_scoped: "isGloballyAttachable u \<longleftrightarrow> u \<in> set GLOBAL_UNITS \<or> u = DISABLED_KEY"
proof -
  have "\<not> starts_with op_key_open u" if "u \<in> set GLOBAL_UNITS \<or> u = DISABLED_KEY"
    using that by (auto simp: GLOBAL_UNITS_def DISABLED_KEY_def starts_with_def op_key_open_def)
  then show ?thesis by (auto simp: isGloballyAttachable_def parseOperationUnitKey_def)
qed

lemma doc_set_get: "map_of (doc_set k v doc) u = (if u = k \<and> k \<noteq> ''__proto__'' then Some v else map_of doc u)"
  by (simp add: doc_set_def get_set)

text \<open>The lookups of a document built by assignments are those of the last assignment of each key.\<close>

lemma foldl_doc_set:
  "map_of (foldl (\<lambda>doc (u, v). if P u then doc_set u v doc else doc) d es) u =
     (if P u \<and> u \<noteq> ''__proto__'' \<and> u \<in> fst ` set es then map_of (rev es) u else map_of d u)"
proof (induction es arbitrary: d)
  case (Cons e es)
  obtain k v where e: "e = (k, v)" by fastforce
  show ?case
    by (auto simp: Cons.IH e doc_set_get map_add_def map_of_eq_None_iff split: option.splits)
      (metis map_of_eq_None_iff option.distinct(1) fst_conv imageI set_rev)+
qed simp

lemma map_of_rev_distinct: "distinct (map fst es) \<Longrightarrow> map_of (rev es) = map_of es"
  by (rule map_of_inject_set [THEN iffD2]) (simp_all add: rev_map [symmetric])

definition wellformed_doc :: "document \<Rightarrow> bool" where
  "wellformed_doc doc \<longleftrightarrow> distinct (mkeys doc) \<and> ''__proto__'' \<notin> set (mkeys doc)"

lemma merge_units_get:
  assumes "wellformed_doc wide" "wellformed_doc own"
  shows "map_of (merge_units wide own) u =
    (case map_of own u of Some v \<Rightarrow> Some v | None \<Rightarrow> if isGloballyAttachable u then map_of wide u else None)"
proof -
  have wide: "u \<in> fst ` set wide \<longleftrightarrow> map_of wide u \<noteq> None" and own: "u \<in> fst ` set own \<longleftrightarrow> map_of own u \<noteq> None"
    by (simp_all add: map_of_eq_None_iff)
  have p: "map_of own u \<noteq> None \<Longrightarrow> u \<noteq> ''__proto__''" "map_of wide u \<noteq> None \<Longrightarrow> u \<noteq> ''__proto__''"
    using assms by (metis wellformed_doc_def get_None_iff)+
  have r: "map_of (rev own) = map_of own" "map_of (rev wide) = map_of wide"
    using assms by (auto simp: wellformed_doc_def intro: map_of_rev_distinct)
  have 1: "map_of (foldl (\<lambda>doc (u, v). doc_set u v doc) d own) u = (case map_of own u of Some v \<Rightarrow> Some v | None \<Rightarrow> map_of d u)" for d
    using foldl_doc_set [where P = "\<lambda>_. True" and es = own and d = d and u = u] p(1)
    by (cases "map_of own u") (simp_all add: own r)
  have 2: "map_of (foldl (\<lambda>doc (u, v). if isGloballyAttachable u then doc_set u v doc else doc) [] wide) u =
      (if isGloballyAttachable u then map_of wide u else None)"
    using foldl_doc_set [where P = isGloballyAttachable and es = wide and d = "[]" and u = u] p(2)
    by (cases "map_of wide u") (simp_all add: wide r)
  show ?thesis unfolding merge_units_def 1 2 ..
qed

lemma disabledUnits_mem: "u \<in> set (disabledUnits doc) \<longleftrightarrow>
    map_of doc u \<noteq> None \<and> (\<exists>raw. map_of doc DISABLED_KEY = Some (JArr raw) \<and> JStr u \<in> set raw)"
proof -
  have s: "as_string (Some k) = Some x \<longleftrightarrow> k = JStr x" for k :: jsval and x by (cases k) auto
  have a: "as_array v = Some raw \<longleftrightarrow> v = Some (JArr raw)" for v :: "jsval option" and raw
    by (cases v; cases "the v") auto
  show ?thesis
  proof (cases "as_array (map_of doc DISABLED_KEY)")
    case None
    then show ?thesis using a by (auto simp: disabledUnits_def)
  next
    case (Some raw)
    then have "map_of doc DISABLED_KEY = Some (JArr raw)" using a by simp
    with Some show ?thesis
      by (auto simp: disabledUnits_def List.map_filter_def s split: option.splits if_splits) (force simp: s)+
  qed
qed

lemma foldl_mdelete_get: "map_of (foldl (\<lambda>out key. mdelete key out) doc ks) u = (if u \<in> set ks then None else map_of doc u)"
  by (induction ks arbitrary: doc) (auto simp: get_delete)

lemma activeDocument_get:
  "map_of (activeDocument doc) u =
     (if u = DISABLED_KEY \<or> u \<in> set (disabledUnits doc) then None else map_of doc u)"
  by (auto simp: activeDocument_def foldl_mdelete_get get_delete)

lemma globalUnitChanges_Nil:
  "globalUnitChanges wide before after = [] \<longleftrightarrow>
     (\<forall>u\<in>set (mkeys wide). snd (globalUnitState wide before u) = snd (globalUnitState wide after u))"
  by (auto simp: globalUnitChanges_def List.map_filter_def filter_empty_conv Let_def)

end
