(* ===== verification/Template.thy ===== *)
theory Template
  imports Json IsoTime
begin

declare map_of_eq_Some_iff [simp del] Some_eq_map_of_iff [simp del]

text \<open>
  \<^verbatim>\<open>shared/template.ts\<close>: the closed set of template variables, their check at write time and their
  substitution at request time. The regular expression \<^verbatim>\<open>/\$\{([^}]*)\}/g\<close> is the scanner \<^verbatim>\<open>scan\<close>, which
  splits a text into literal characters and placeholders. The lemmas show that the scanner loses nothing,
  that rendering is one pass (a substituted value is never read as a template) and that a text that
  passed the check renders every placeholder.
\<close>

definition TEMPLATE_VARS :: "string list" where
  "TEMPLATE_VARS = [''subscription.id'', ''subscription.name'', ''application.id'', ''application.name'', ''product.id'',
     ''product.name'', ''resource.name'', ''revision.rev'', ''environment'', ''route.basePath'', ''operation.id'',
     ''operation.method'', ''operation.template'', ''request.id'', ''trace.id'', ''client.ip'', ''jwt.sub'',
     ''cert.subject.cn'', ''cert.issuer'', ''cert.thumbprint'', ''now.iso8601'', ''now.rfc1123'', ''now.epoch'']"

definition TEMPLATE_PREFIXES :: "string list" where
  "TEMPLATE_PREFIXES = [''path.'', ''query.'', ''jwt.claim.'']"

type_synonym TemplateContext = "(string, string) jsmap"

datatype segment = Lit char | Placeholder string

function scan :: "string \<Rightarrow> segment list" where
  "scan [] = []"
| "scan (c # s) =
     (if c = CHR ''$'' \<and> s \<noteq> [] \<and> hd s = CHR ''{'' \<and> CHR ''}'' \<in> set (tl s)
      then Placeholder (takeWhile (\<lambda>x. x \<noteq> CHR ''}'') (tl s)) # scan (tl (dropWhile (\<lambda>x. x \<noteq> CHR ''}'') (tl s)))
      else Lit c # scan s)"
  by pat_completeness auto

termination scan
proof (relation "measure length")
  show "wf (measure (length :: string \<Rightarrow> nat))" by simp
next
  fix c s
  have "length (dropWhile (\<lambda>x. x \<noteq> CHR ''}'') (tl s)) \<le> length s"
    using length_dropWhile_le [of "\<lambda>x. x \<noteq> CHR ''}''" "tl s"] by simp
  then show "(tl (dropWhile (\<lambda>x. x \<noteq> CHR ''}'') (tl s)), c # s) \<in> measure length" by simp
next
  fix c s
  show "(s, c # s) \<in> measure (length :: string \<Rightarrow> nat)" by simp
qed

definition isKnown :: "string \<Rightarrow> bool" where
  "isKnown name \<longleftrightarrow> name \<in> set TEMPLATE_VARS \<or>
     list_ex (\<lambda>p. starts_with p name \<and> length p < length name) TEMPLATE_PREFIXES"

definition referencedVars :: "string \<Rightarrow> string list" where
  "referencedVars input = List.map_filter (\<lambda>seg. case seg of Lit _ \<Rightarrow> None | Placeholder raw \<Rightarrow> Some (js_trim raw)) (scan input)"

text \<open>An error is the place and the variable it names.\<close>

definition templateErrors :: "string \<Rightarrow> string \<Rightarrow> (string \<times> string) list" where
  "templateErrors input loc = map (\<lambda>name. (loc, name)) (filter (\<lambda>name. \<not> isKnown name) (referencedVars input))"

lemma zip_element_size [termination_simp]: "(a, b) \<in> set (zip xs vs) \<Longrightarrow> f b < Suc (size_list f vs)"
  using size_list_estimation' [of b vs "f b" f] by (auto dest: set_zip_rightD)

fun templateErrorsDeep :: "jsval \<Rightarrow> string \<Rightarrow> (string \<times> string) list" where
  "templateErrorsDeep (JStr s) loc = templateErrors s loc"
| "templateErrorsDeep (JArr vs) loc =
     concat (map (\<lambda>(i, v). templateErrorsDeep v (loc @ ''['' @ show_nat i @ '']'')) (zip [0..<length vs] vs))"
| "templateErrorsDeep (JObj kvs) loc = concat (map (\<lambda>(k, v). templateErrorsDeep v (loc @ ''.'' @ k)) kvs)"
| "templateErrorsDeep _ loc = []"

definition render_segment :: "TemplateContext \<Rightarrow> segment \<Rightarrow> string" where
  "render_segment ctx seg = (case seg of
       Lit c \<Rightarrow> [c]
     | Placeholder raw \<Rightarrow>
         (let name = js_trim raw in
          if \<not> isKnown name then ''${'' @ raw @ ''}''
          else (case map_of ctx name of None \<Rightarrow> [] | Some v \<Rightarrow> v)))"

definition render :: "string \<Rightarrow> TemplateContext \<Rightarrow> string" where
  "render input ctx = concat (map (render_segment ctx) (scan input))"

definition obj_set :: "string \<Rightarrow> jsval \<Rightarrow> (string \<times> jsval) list \<Rightarrow> (string \<times> jsval) list" where
  "obj_set key v obj = (if key = ''__proto__'' then obj else mset_key key v obj)"

fun renderDeep :: "jsval \<Rightarrow> TemplateContext \<Rightarrow> jsval" where
  "renderDeep (JStr s) ctx = JStr (render s ctx)"
| "renderDeep (JArr vs) ctx = JArr (map (\<lambda>v. renderDeep v ctx) vs)"
| "renderDeep (JObj kvs) ctx =
     JObj (foldl (\<lambda>out (k, v). obj_set k v out) [] (map (\<lambda>(k, v). (render k ctx, renderDeep v ctx)) kvs))"
| "renderDeep v ctx = v"

text \<open>\<^verbatim>\<open>toUTCString\<close> is an argument: the model of dates covers the ISO format only.\<close>

definition baseContext :: "(int \<Rightarrow> string) \<Rightarrow> int \<Rightarrow> TemplateContext" where
  "baseContext toUTCString now = [(''now.iso8601'', toISOString now), (''now.rfc1123'', toUTCString now),
     (''now.epoch'', show_nat (nat (now div 1000)))]"

section \<open>Lemmas\<close>

fun unscan :: "segment \<Rightarrow> string" where
  "unscan (Lit c) = [c]"
| "unscan (Placeholder raw) = ''${'' @ raw @ ''}''"

lemma unscan_scan: "concat (map unscan (scan s)) = s"
proof (induction s rule: scan.induct)
  case (2 c s)
  show ?case
  proof (cases "c = CHR ''$'' \<and> s \<noteq> [] \<and> hd s = CHR ''{'' \<and> CHR ''}'' \<in> set (tl s)")
    case True
    let ?P = "\<lambda>x. x \<noteq> CHR ''}''"
    from True obtain t where s: "s = CHR ''{'' # t" by (cases s) auto
    from True s have "dropWhile ?P t \<noteq> []" by (auto simp: dropWhile_eq_Nil_conv)
    then obtain x r where xr: "dropWhile ?P t = x # r" by (cases "dropWhile ?P t") auto
    then have x: "x = CHR ''}''" by (simp add: dropWhile_eq_Cons_conv)
    have t: "takeWhile ?P t @ CHR ''}'' # r = t" using takeWhile_dropWhile_id [of ?P t] xr x by simp
    have "concat (map unscan (scan r)) = r" using 2(1) [OF True] xr s by simp
    with True s xr t show ?thesis by simp
  next
    case False
    then have "scan (c # s) = Lit c # scan s" by (subst scan.simps) (rule if_not_P)
    with 2(2) [OF False] show ?thesis by (simp del: scan.simps)
  qed
qed simp

lemma placeholders_known: "templateErrors s w = [] \<Longrightarrow> Placeholder raw \<in> set (scan s) \<Longrightarrow> isKnown (js_trim raw)"
  by (force simp: templateErrors_def referencedVars_def List.map_filter_def filter_empty_conv)

section \<open>Properties\<close>

text \<open>A text that passed the write-time check renders completely and in one pass: the output is its literal
  characters in place, with the context's value (empty when there is none) at every placeholder, and no
  placeholder is left as it was written. What a substituted value contains is copied, never expanded.\<close>

lemma checked_template_renders:
  assumes "templateErrors input place = []"
  shows "render input ctx = concat (map (\<lambda>seg. case seg of Lit c \<Rightarrow> [c]
      | Placeholder raw \<Rightarrow> (case map_of ctx (js_trim raw) of None \<Rightarrow> [] | Some v \<Rightarrow> v)) (scan input)) \<and>
    concat (map unscan (scan input)) = input"
proof -
  have "render_segment ctx seg = (case seg of Lit c \<Rightarrow> [c]
      | Placeholder raw \<Rightarrow> (case map_of ctx (js_trim raw) of None \<Rightarrow> [] | Some v \<Rightarrow> v))" if "seg \<in> set (scan input)" for seg
    using that placeholders_known [OF assms] by (auto simp: render_segment_def Let_def split: segment.splits)
  then show ?thesis by (simp add: render_def unscan_scan cong: map_cong)
qed

lemma checked_template_renders_example:
  "render ''id=${ request.id }!'' [(''request.id'', ''${jwt.sub}'')] = ''id=${jwt.sub}!''"
proof -
  have "templateErrors ''id=${ request.id }!'' ''h'' = []" by code_simp
  from checked_template_renders [OF this, of "[(''request.id'', ''${jwt.sub}'')]"] show ?thesis
    by (auto) code_simp
qed

end
