(* ===== verification/Net.thy ===== *)
theory Net
  imports Json IsoTime "HOL-Library.Word"
begin

unbundle bit_operations_syntax

declare map_of_eq_Some_iff [simp del] Some_eq_map_of_iff [simp del]

text \<open>
  \<^verbatim>\<open>shared/net.ts\<close>: IPv4 addresses and ranges, the IPv6 ranges nothing may reach, and the address a
  request is attributed to behind reverse proxies. An IPv4 address is a 32-bit word, as the source's
  \<^verbatim>\<open>>>> 0\<close> keeps it. \<^verbatim>\<open>Number(text)\<close> is \<^verbatim>\<open>js_Number\<close>, exact where the source rounds to a double; \<^verbatim>\<open>None\<close> is NaN or an
  infinity. The lemmas give the range test as equality of networks and that nothing a client writes to the left of
  the first hop a trusted proxy saw changes the address used.
\<close>

section \<open>Number(text)\<close>

definition js_unsigned_decimal :: "string \<Rightarrow> (rat \<times> string) option" where
  "js_unsigned_decimal s =
     (let whole = takeWhile is_digit s; r = dropWhile is_digit s;
          fraction = (case r of [] \<Rightarrow> [] | c # q \<Rightarrow> if c = CHR ''.'' then takeWhile is_digit q else []);
          rest = (case r of [] \<Rightarrow> [] | c # q \<Rightarrow> if c = CHR ''.'' then dropWhile is_digit q else r)
      in if whole = [] \<and> fraction = [] then None
         else Some (of_nat (read_nat (whole @ fraction)) / 10 ^ length fraction, rest))"

definition js_signed :: "string \<Rightarrow> bool \<times> string" where
  "js_signed s = (case s of [] \<Rightarrow> (False, [])
     | c # q \<Rightarrow> if c = CHR ''-'' then (True, q) else if c = CHR ''+'' then (False, q) else (False, s))"

definition js_decimal :: "string \<Rightarrow> rat option" where
  "js_decimal s =
     (let (neg, u) = js_signed s in
      case js_unsigned_decimal u of None \<Rightarrow> None
      | Some (m, rest) \<Rightarrow>
          (let v = (if neg then - m else m) in
           case rest of [] \<Rightarrow> Some v
           | c # q \<Rightarrow>
               if c \<noteq> CHR ''e'' \<and> c \<noteq> CHR ''E'' then None
               else (let (eneg, e) = js_signed q in
                     if e = [] \<or> \<not> list_all is_digit e then None
                     else Some (if eneg then v / 10 ^ read_nat e else v * 10 ^ read_nat e))))"

definition radix_digit :: "nat \<Rightarrow> char \<Rightarrow> nat option" where
  "radix_digit base c =
     (let d = (if is_digit c then of_char c - 48
               else if char_in CHR ''a'' CHR ''z'' c then of_char c - 87
               else if char_in CHR ''A'' CHR ''Z'' c then of_char c - 55 else 36)
      in if d < base then Some d else None)"

definition read_radix :: "nat \<Rightarrow> string \<Rightarrow> nat option" where
  "read_radix base s =
     (if s = [] then None
      else foldl (\<lambda>acc c. case (acc, radix_digit base c) of (Some n, Some d) \<Rightarrow> Some (base * n + d) | _ \<Rightarrow> None) (Some 0) s)"

definition js_Number :: "string \<Rightarrow> rat option" where
  "js_Number text =
     (let s = js_trim text; prefix = toLowerCase (take 2 s) in
      if s = [] then Some 0
      else if prefix = ''0x'' then map_option of_nat (read_radix 16 (drop 2 s))
      else if prefix = ''0o'' then map_option of_nat (read_radix 8 (drop 2 s))
      else if prefix = ''0b'' then map_option of_nat (read_radix 2 (drop 2 s))
      else js_decimal s)"

text \<open>\<^verbatim>\<open>Number.isInteger(n) && lo <= n && n <= hi\<close>\<close>

definition js_int_between :: "int \<Rightarrow> int \<Rightarrow> rat option \<Rightarrow> nat option" where
  "js_int_between lo hi q = (case q of None \<Rightarrow> None
     | Some r \<Rightarrow> if is_integer r \<and> of_int lo \<le> r \<and> r \<le> of_int hi then Some (nat \<lfloor>r\<rfloor>) else None)"

section \<open>IPv4\<close>

type_synonym ipv4 = "32 word"

definition mapped_prefix :: string where
  "mapped_prefix = ''::ffff:''"

definition dotted_digits :: "string \<Rightarrow> bool" where
  "dotted_digits s \<longleftrightarrow> (let parts = js_split CHR ''.'' s in length parts = 4 \<and>
     list_all (\<lambda>p. 1 \<le> length p \<and> length p \<le> 3 \<and> list_all is_digit p) parts)"

definition canonicalIp :: "string \<Rightarrow> string" where
  "canonicalIp ip =
     (let dotted = drop (length mapped_prefix) ip in
      if toLowerCase (take (length mapped_prefix) ip) = mapped_prefix \<and> dotted_digits dotted \<and>
         list_all (\<lambda>octet. read_nat octet \<le> 255) (js_split CHR ''.'' dotted)
      then dotted else ip)"

definition octet_of :: "string \<Rightarrow> nat option" where
  "octet_of part = (if part = [] then None else js_int_between 0 255 (js_Number part))"

definition ipv4ToInt :: "string \<Rightarrow> ipv4 option" where
  "ipv4ToInt ip =
     (let parts = js_split CHR ''.'' ip in
      if length parts \<noteq> 4 then None
      else foldl (\<lambda>acc part. case (acc, octet_of part) of (Some v, Some n) \<Rightarrow> Some (v * 256 + of_nat n) | _ \<Rightarrow> None)
        (Some 0) parts)"

text \<open>\<^verbatim>\<open>cidr.split("/")\<close>: the first two pieces, the second absent when there is no slash.\<close>

definition cidr_parts :: "string \<Rightarrow> string \<times> string option" where
  "cidr_parts cidr = (case js_split CHR ''/'' cidr of [] \<Rightarrow> ([], None) | [n] \<Rightarrow> (n, None) | n # b # _ \<Rightarrow> (n, Some b))"

definition cidr_mask :: "nat \<Rightarrow> ipv4" where
  "cidr_mask bits = push_bit (32 - bits) 0xffffffff"

definition in_network :: "nat \<Rightarrow> ipv4 \<Rightarrow> ipv4 \<Rightarrow> bool" where
  "in_network bits ip net \<longleftrightarrow> (if bits = 0 then True else ip AND cidr_mask bits = net AND cidr_mask bits)"

definition ipInCidr :: "string \<Rightarrow> string \<Rightarrow> bool" where
  "ipInCidr ip cidr =
     (let (network, bitsRaw) = cidr_parts cidr in
      case (ipv4ToInt (canonicalIp ip), ipv4ToInt network,
            js_int_between 0 32 (js_Number (case bitsRaw of None \<Rightarrow> ''32'' | Some b \<Rightarrow> b))) of
        (Some i, Some n, Some bits) \<Rightarrow> in_network bits i n
      | _ \<Rightarrow> False)"

section \<open>IPv6\<close>

text \<open>\<^verbatim>\<open>head.split("::")\<close>\<close>

fun split_double :: "string \<Rightarrow> string list" where
  "split_double [] = [[]]"
| "split_double (c # s) =
     (if c = CHR '':'' \<and> s \<noteq> [] \<and> hd s = CHR '':'' then [] # split_double (tl s)
      else (case split_double s of [] \<Rightarrow> [[c]] | h # t \<Rightarrow> (c # h) # t))"

definition group_of :: "string \<Rightarrow> nat option" where
  "group_of g = (if 1 \<le> length g \<and> length g \<le> 4 then read_radix 16 g else None)"

definition groupsOf :: "string \<Rightarrow> nat list option" where
  "groupsOf part = (if part = [] then Some []
     else (let gs = map group_of (js_split CHR '':'' part) in if list_all (\<lambda>g. g \<noteq> None) gs then Some (map the gs) else None))"

definition group_bytes :: "nat \<Rightarrow> nat list" where
  "group_bytes g = [g div 256 mod 256, g mod 256]"

definition word_bytes :: "ipv4 \<Rightarrow> nat list" where
  "word_bytes w = map (\<lambda>n. unat (drop_bit n w AND 0xff)) [24, 16, 8, 0]"

text \<open>The text up to and including the last colon, and the text after it.\<close>

definition after_last_colon :: "string \<Rightarrow> string" where
  "after_last_colon s = rev (takeWhile (\<lambda>c. c \<noteq> CHR '':'') (rev s))"

definition ipv6_groups :: "string \<Rightarrow> nat list option" where
  "ipv6_groups head =
     (let halves = split_double head in
      if 2 < length halves then None
      else (case (groupsOf (halves ! 0), if length halves = 2 then groupsOf (halves ! 1) else Some []) of
          (Some left, Some right) \<Rightarrow>
            (let total = length left + length right in
             if (if length halves = 1 then total \<noteq> 8 else 7 < total) then None
             else Some (left @ replicate (8 - total) 0 @ right))
        | _ \<Rightarrow> None))"

definition ipv6ToBytes :: "string \<Rightarrow> nat list option" where
  "ipv6ToBytes ip =
     (let text = toLowerCase (js_trim ip); maybeV4 = after_last_colon text in
      if text = [] \<or> CHR ''%'' \<in> set text \<or> CHR '':'' \<notin> set text then None
      else if CHR ''.'' \<in> set maybeV4 then
        (case ipv4ToInt maybeV4 of None \<Rightarrow> None
         | Some v4 \<Rightarrow> map_option (\<lambda>gs. take 12 (concat (map group_bytes gs)) @ word_bytes v4)
             (ipv6_groups (take (length text - length maybeV4) text @ ''0:0'')))
      else map_option (\<lambda>gs. concat (map group_bytes gs)) (ipv6_groups text))"

definition mappedIpv4 :: "nat list \<Rightarrow> string option" where
  "mappedIpv4 bytes =
     (if \<not> list_all (\<lambda>b. b = 0) (take 10 bytes) then None
      else if bytes ! 10 \<noteq> 255 \<or> bytes ! 11 \<noteq> 255 then None
      else Some (js_join ''.'' (map show_nat (drop 12 bytes))))"

definition internalIpv6Range :: "nat list \<Rightarrow> string option" where
  "internalIpv6Range bytes =
     (if list_all (\<lambda>b. b = 0) bytes then Some ''::/128 (unspecified)''
      else if list_all (\<lambda>b. b = 0) (take 15 bytes) \<and> bytes ! 15 = 1 then Some ''::1/128 (loopback)''
      else if bytes ! 0 AND 0xfe = 0xfc then Some ''fc00::/7 (unique local)''
      else if bytes ! 0 = 0xfe \<and> bytes ! 1 AND 0xc0 = 0x80 then Some ''fe80::/10 (link local)''
      else if bytes ! 0 = 0xfe \<and> bytes ! 1 AND 0xc0 = 0xc0 then Some ''fec0::/10 (site local)''
      else None)"

section \<open>The caller's address\<close>

definition forwarded_chain :: "string option \<Rightarrow> string list" where
  "forwarded_chain forwardedFor = filter (\<lambda>e. e \<noteq> [])
     (map (\<lambda>entry. canonicalIp (js_trim entry)) (js_split CHR '','' (case forwardedFor of None \<Rightarrow> [] | Some f \<Rightarrow> f)))"

definition untrusted_hop :: "string list \<Rightarrow> string \<Rightarrow> bool" where
  "untrusted_hop trusted candidate \<longleftrightarrow> ipv4ToInt candidate \<noteq> None \<and> \<not> list_ex (ipInCidr candidate) trusted"

definition effectiveClientIp :: "string option \<Rightarrow> string \<Rightarrow> string list \<Rightarrow> string" where
  "effectiveClientIp forwardedFor peerIp trustedProxyCidrs =
     (let peer = canonicalIp peerIp in
      if trustedProxyCidrs = [] then peer
      else if \<not> list_ex (ipInCidr peer) trustedProxyCidrs then peer
      else (case find (untrusted_hop trustedProxyCidrs) (rev (forwarded_chain forwardedFor)) of
          Some candidate \<Rightarrow> candidate | None \<Rightarrow> peer))"

section \<open>Lemmas\<close>

lemma and_mask_drop:
  assumes "bits \<le> 32"
  shows "a AND cidr_mask bits = b AND cidr_mask bits \<longleftrightarrow> drop_bit (32 - bits) a = drop_bit (32 - bits) b"
proof -
  have ones: "(0xffffffff :: ipv4) = - 1" by simp
  have m: "w AND cidr_mask bits = push_bit (32 - bits) (drop_bit (32 - bits) w)" for w
    unfolding cidr_mask_def ones
    by (rule bit_eqI) (auto simp: bit_simps)
  show ?thesis
  proof
    assume "a AND cidr_mask bits = b AND cidr_mask bits"
    then have e: "bit (push_bit (32 - bits) (drop_bit (32 - bits) a)) i = bit (push_bit (32 - bits) (drop_bit (32 - bits) b)) i" for i
      by (simp add: m)
    show "drop_bit (32 - bits) a = drop_bit (32 - bits) b"
    proof (rule bit_eqI)
      fix i
      show "bit (drop_bit (32 - bits) a) i = bit (drop_bit (32 - bits) b) i"
        using e [of "i + (32 - bits)"] by (auto simp: bit_simps dest: bit_imp_le_length)
    qed
  qed (simp add: m)
qed

lemma in_network_iff:
  assumes "bits \<le> 32"
  shows "in_network bits a b \<longleftrightarrow> unat a div 2 ^ (32 - bits) = unat b div 2 ^ (32 - bits)"
proof -
  have d: "drop_bit (32 - bits) a = drop_bit (32 - bits) b \<longleftrightarrow> unat a div 2 ^ (32 - bits) = unat b div 2 ^ (32 - bits)"
    unfolding word_unat_eq_iff unat_drop_bit_eq by (simp only: drop_bit_eq_div)
  have lt: "unat w < 2 ^ 32" for w :: ipv4 
  proof -
    have "unat w < 2 ^ len_of TYPE(32)" by (rule unsigned_less)
    then show ?thesis by simp
  qed
  show ?thesis
  proof (cases "bits = 0")
    case True
    with lt [of a] lt [of b] show ?thesis by (simp add: in_network_def)
  next
    case False
    with assms d show ?thesis by (simp add: in_network_def and_mask_drop)
  qed
qed

lemma js_int_between_range: "js_int_between lo hi q = Some n \<Longrightarrow> 0 \<le> lo \<Longrightarrow> lo \<le> int n \<and> int n \<le> hi"
  by (auto simp: js_int_between_def le_floor_iff floor_le_iff split: option.splits if_splits)

lemma forwarded_chain_append:
  "forwarded_chain (Some (g @ CHR '','' # h)) = forwarded_chain (Some g) @ forwarded_chain (Some h)"
proof -
  have "js_split c (xs @ c # ys) = js_split c xs @ js_split c ys" for c :: char and xs ys
    by (induction xs) (auto split: list.splits)
  then show ?thesis by (simp add: forwarded_chain_def)
qed

section \<open>Properties\<close>

text \<open>The range test is equality of networks: an address is inside \<^verbatim>\<open>network/bits\<close> exactly when both parse, the
  prefix length is between 0 and 32, and the two addresses agree above the low \<^verbatim>\<open>32 - bits\<close> bits. The masks of
  the source, taken on 32-bit integers with a shift that wraps at 32, compute that for every length.\<close>

lemma ipInCidr_same_network:
  "ipInCidr ip cidr \<longleftrightarrow>
     (\<exists>a n bits. ipv4ToInt (canonicalIp ip) = Some a \<and> ipv4ToInt (fst (cidr_parts cidr)) = Some n \<and>
        js_int_between 0 32 (js_Number (case snd (cidr_parts cidr) of None \<Rightarrow> ''32'' | Some b \<Rightarrow> b)) = Some bits \<and>
        unat a div 2 ^ (32 - bits) = unat n div 2 ^ (32 - bits))"
proof -
  let ?bits = "js_int_between 0 32 (js_Number (case snd (cidr_parts cidr) of None \<Rightarrow> ''32'' | Some b \<Rightarrow> b))"
  have "in_network bits a n \<longleftrightarrow> unat a div 2 ^ (32 - bits) = unat n div 2 ^ (32 - bits)" if "?bits = Some bits" for bits a n
    using js_int_between_range [OF that] by (intro in_network_iff) simp
  then show ?thesis
    by (auto simp: ipInCidr_def Let_def case_prod_beta split: option.splits)
qed

text \<open>Behind trusted proxies, nothing a client puts in \<^verbatim>\<open>X-Forwarded-For\<close> to the left of an address that is not a
  trusted proxy changes the address the request is attributed to: two headers that end in the same hops,
  one of which is such an address, give the same caller.\<close>

lemma forwarded_prefix_ignored:
  assumes "list_ex (untrusted_hop trusted) (forwarded_chain (Some hops))"
  shows "effectiveClientIp (Some (spoof @ CHR '','' # hops)) peer trusted =
    effectiveClientIp (Some (spoof' @ CHR '','' # hops)) peer trusted"
proof -
  have "find (untrusted_hop trusted) (rev (forwarded_chain (Some hops))) \<noteq> None"
    using assms by (simp add: find_None_iff list_ex_iff) blast
  then have "find (untrusted_hop trusted) (rev (forwarded_chain (Some (s @ CHR '','' # hops)))) =
      find (untrusted_hop trusted) (rev (forwarded_chain (Some hops)))" for s
    by (auto simp: forwarded_chain_append find_append split: option.splits)
  from this [of spoof] this [of spoof'] show ?thesis unfolding effectiveClientIp_def by (simp only: Let_def)
qed

lemma forwarded_prefix_ignored_example:
  "effectiveClientIp (Some (''10.9.9.9'' @ CHR '','' # ''203.0.113.7, 10.0.0.2'')) ''10.0.0.1'' [''10.0.0.0/8''] =
   effectiveClientIp (Some (''1.2.3.4'' @ CHR '','' # ''203.0.113.7, 10.0.0.2'')) ''10.0.0.1'' [''10.0.0.0/8'']"
proof (rule forwarded_prefix_ignored)
  show "list_ex (untrusted_hop [''10.0.0.0/8'']) (forwarded_chain (Some ''203.0.113.7, 10.0.0.2''))"
    by code_simp
qed

end
