(* ===== verification/PolicyChecks.thy ===== *)
theory PolicyChecks
  imports GlobalPolicy Template Net
begin

declare map_of_eq_Some_iff [simp del] Some_eq_map_of_iff [simp del]

text \<open>
  The helpers of \<^verbatim>\<open>shared/policy.ts\<close> that every unit validator is made of: field checks, the shapes of names and
  references, the linter for regular expressions and the check of an IPv4 range. An error is the path the
  source's message starts with; its prose is left out. \<^verbatim>\<open>undefined\<close> is \<^verbatim>\<open>None\<close>. Two constructors of the host are
  arguments: whether \<^verbatim>\<open>new RegExp(p)\<close> succeeds, and the origin of \<^verbatim>\<open>new URL(s)\<close> when it does.
\<close>

record js_host =
  host_regexOk :: "string \<Rightarrow> bool"
  host_urlOrigin :: "string \<Rightarrow> string option"

type_synonym errors = "string list"

section \<open>Definitions: names and references\<close>

definition lower_alnum :: "char \<Rightarrow> bool" where
  "lower_alnum c \<longleftrightarrow> char_in CHR ''a'' CHR ''z'' c \<or> is_digit c"

definition alnum :: "char \<Rightarrow> bool" where
  "alnum c \<longleftrightarrow> char_in CHR ''A'' CHR ''Z'' c \<or> lower_alnum c"

definition header_char :: "char \<Rightarrow> bool" where
  "header_char c \<longleftrightarrow> alnum c \<or> c \<in> set ''!#$%&*+.^_|~-'' \<or> c = CHR 0x27 \<or> c = CHR 0x60"

definition HEADER_NAME :: "string \<Rightarrow> bool" where
  "HEADER_NAME s \<longleftrightarrow> s \<noteq> [] \<and> list_all header_char s"

text \<open>\<^verbatim>\<open>[first][rest]{lo,hi}\<close>, anchored.\<close>

definition bounded_name :: "(char \<Rightarrow> bool) \<Rightarrow> (char \<Rightarrow> bool) \<Rightarrow> nat \<Rightarrow> nat \<Rightarrow> string \<Rightarrow> bool" where
  "bounded_name first rest lo hi s = (case s of [] \<Rightarrow> False
     | c # t \<Rightarrow> first c \<and> list_all rest t \<and> lo \<le> length t \<and> length t \<le> hi)"

definition REF_NAME :: "string \<Rightarrow> bool" where
  "REF_NAME s \<longleftrightarrow> bounded_name alnum (\<lambda>c. alnum c \<or> c \<in> set ''._-'') 0 63 s"

definition parseAppCredentialRef :: "string \<Rightarrow> (string \<times> string) option" where
  "parseAppCredentialRef ref = (case js_split CHR '':'' ref of
       [scheme, application, name] \<Rightarrow>
         if scheme = ''app'' \<and> bounded_name lower_alnum (\<lambda>c. lower_alnum c \<or> c \<in> set ''_-'') 0 63 application \<and>
            bounded_name lower_alnum (\<lambda>c. lower_alnum c \<or> c = CHR ''-'') 1 60 name
         then Some (application, name) else None
     | _ \<Rightarrow> None)"

definition appCredentialRef :: "string \<Rightarrow> string \<Rightarrow> string" where
  "appCredentialRef applicationId name = ''app:'' @ applicationId @ '':'' @ name"

definition PLATFORM_REF :: "string \<Rightarrow> bool" where
  "PLATFORM_REF s \<longleftrightarrow> starts_with ''platform:'' s \<and>
     bounded_name lower_alnum (\<lambda>c. lower_alnum c \<or> c = CHR ''-'') 0 40 (drop 9 s)"

definition HTTP_METHODS :: "string list" where
  "HTTP_METHODS = [''GET'', ''HEAD'', ''POST'', ''PUT'', ''PATCH'', ''DELETE'', ''OPTIONS'', ''TRACE'']"

definition isIdempotent :: "string \<Rightarrow> bool" where
  "isIdempotent verb \<longleftrightarrow> toUpperCase verb \<in> set [''GET'', ''HEAD'', ''PUT'', ''DELETE'', ''OPTIONS'', ''TRACE'']"

section \<open>Definitions: fields\<close>

definition isPlainObject :: "jsval option \<Rightarrow> bool" where
  "isPlainObject v = (case v of Some (JObj _) \<Rightarrow> True | _ \<Rightarrow> False)"

definition object_keys :: "jsval \<Rightarrow> string list" where
  "object_keys v = (case v of JObj kvs \<Rightarrow> mkeys kvs | _ \<Rightarrow> [])"

definition object_entries :: "jsval \<Rightarrow> (string \<times> jsval) list" where
  "object_entries v = (case v of JObj kvs \<Rightarrow> kvs | _ \<Rightarrow> [])"

definition err :: "bool \<Rightarrow> string \<Rightarrow> errors" where
  "err bad loc = (if bad then [loc] else [])"

definition unknownKeys :: "jsval \<Rightarrow> string list \<Rightarrow> string \<Rightarrow> errors" where
  "unknownKeys v allowed loc = map (\<lambda>_. loc) (filter (\<lambda>k. k \<notin> set allowed) (object_keys v))"

definition isInt :: "jsval option \<Rightarrow> bool" where
  "isInt v = (case as_number v of Some n \<Rightarrow> is_integer n | None \<Rightarrow> False)"

definition int_within :: "jsval option \<Rightarrow> int \<Rightarrow> int \<Rightarrow> bool" where
  "int_within v lo hi = (case as_number v of Some n \<Rightarrow> is_integer n \<and> of_int lo \<le> n \<and> n \<le> of_int hi | None \<Rightarrow> False)"

definition int_at_least :: "jsval option \<Rightarrow> int \<Rightarrow> bool" where
  "int_at_least v lo = (case as_number v of Some n \<Rightarrow> is_integer n \<and> of_int lo \<le> n | None \<Rightarrow> False)"

definition intField :: "jsval option \<Rightarrow> string \<Rightarrow> int \<Rightarrow> int \<Rightarrow> errors" where
  "intField v loc lo hi = err (v \<noteq> None \<and> \<not> int_within v lo hi) loc"

definition is_bool :: "jsval option \<Rightarrow> bool" where
  "is_bool v = (case v of Some (JBool _) \<Rightarrow> True | _ \<Rightarrow> False)"

definition boolField :: "jsval option \<Rightarrow> string \<Rightarrow> errors" where
  "boolField v loc = err (v \<noteq> None \<and> \<not> is_bool v) loc"

definition string_that :: "(string \<Rightarrow> bool) \<Rightarrow> jsval option \<Rightarrow> bool" where
  "string_that P v = (case as_string v of Some s \<Rightarrow> P s | None \<Rightarrow> False)"

definition refField :: "jsval option \<Rightarrow> string \<Rightarrow> errors" where
  "refField v loc = err (\<not> string_that REF_NAME v) loc"

definition credentialRefField :: "jsval option \<Rightarrow> string \<Rightarrow> errors" where
  "credentialRefField v loc =
     err (\<not> string_that (\<lambda>s. REF_NAME s \<or> parseAppCredentialRef s \<noteq> None \<or> PLATFORM_REF s) v) loc"

definition item_loc :: "string \<Rightarrow> nat \<Rightarrow> string" where
  "item_loc loc i = loc @ ''['' @ show_nat i @ '']''"

definition array_items :: "jsval option \<Rightarrow> (nat \<times> jsval) list" where
  "array_items v = (case as_array v of Some xs \<Rightarrow> zip [0..<length xs] xs | None \<Rightarrow> [])"

definition stringArrayField :: "jsval option \<Rightarrow> string \<Rightarrow> (string \<Rightarrow> bool) \<Rightarrow> errors" where
  "stringArrayField v loc each =
     (if v = None then []
      else if as_array v = None then [loc]
      else concat (map (\<lambda>(i, item). err (\<not> string_that each (Some item)) (item_loc loc i)) (array_items v)))"

definition any_string :: "string \<Rightarrow> bool" where
  "any_string s = True"

definition stringMap :: "jsval option \<Rightarrow> string \<Rightarrow> errors" where
  "stringMap v loc = (case v of
       Some (JObj kvs) \<Rightarrow>
         concat (map (\<lambda>(name, x). err (\<not> HEADER_NAME name) loc @ err (as_string (Some x) = None) (loc @ ''.'' @ name)) kvs) @
         map fst (templateErrorsDeep (JObj kvs) loc)
     | _ \<Rightarrow> [loc])"

section \<open>Definitions: patterns\<close>

fun hasQuantifierOrAlternation :: "bool \<Rightarrow> string \<Rightarrow> bool" where
  "hasQuantifierOrAlternation inClass [] = False"
| "hasQuantifierOrAlternation inClass (ch # s) =
     (if ch = CHR 0x5C then hasQuantifierOrAlternation inClass (drop 1 s)
      else if inClass then hasQuantifierOrAlternation (ch \<noteq> CHR '']'') s
      else if ch = CHR ''['' then hasQuantifierOrAlternation True s
      else if ch \<in> set ''*+{|'' then True
      else hasQuantifierOrAlternation False s)"

text \<open>The loop of the source at index \<^verbatim>\<open>i\<close>, with the rest of the pattern from there.\<close>

fun nested_from :: "string \<Rightarrow> nat \<Rightarrow> bool \<Rightarrow> nat list \<Rightarrow> string \<Rightarrow> bool" where
  "nested_from pattern i inClass stack [] = False"
| "nested_from pattern i inClass stack (ch # s) =
     (if ch = CHR 0x5C then nested_from pattern (i + 2) inClass stack (drop 1 s)
      else if inClass then nested_from pattern (i + 1) (ch \<noteq> CHR '']'') stack s
      else if ch = CHR ''['' then nested_from pattern (i + 1) True stack s
      else if ch = CHR ''('' then nested_from pattern (i + 1) False (i # stack) s
      else if ch = CHR '')'' then
        (case stack of [] \<Rightarrow> nested_from pattern (i + 1) False [] s
         | start # below \<Rightarrow>
             if s \<noteq> [] \<and> hd s \<in> set ''*+{'' \<and>
                hasQuantifierOrAlternation False (take (i - (start + 1)) (drop (start + 1) pattern)) then True
             else nested_from pattern (i + 1) False below s)
      else nested_from pattern (i + 1) False stack s)"

definition hasNestedQuantifier :: "string \<Rightarrow> bool" where
  "hasNestedQuantifier pattern = nested_from pattern 0 False [] pattern"

fun tails :: "'a list \<Rightarrow> 'a list list" where
  "tails [] = [[]]"
| "tails (x # xs) = (x # xs) # tails xs"

definition backreference_at :: "string \<Rightarrow> bool" where
  "backreference_at t \<longleftrightarrow> t \<noteq> [] \<and> hd t = CHR 0x5C \<and>
     ((tl t \<noteq> [] \<and> char_in CHR ''1'' CHR ''9'' (hd (tl t))) \<or> starts_with ''k<'' (tl t))"

definition lookaround_at :: "string \<Rightarrow> bool" where
  "lookaround_at t \<longleftrightarrow> list_ex (\<lambda>p. starts_with p t) [''(?='', ''(?!'', ''(?<='', ''(?<!'']"

text \<open>The bounds of \<^verbatim>\<open>{lo}\<close>, \<^verbatim>\<open>{lo,}\<close> or \<^verbatim>\<open>{lo,hi}\<close> at the start of a text.\<close>

definition repetition_at :: "string \<Rightarrow> (nat \<times> nat) option" where
  "repetition_at t =
     (if t = [] \<or> hd t \<noteq> CHR ''{'' then None
      else (let lo = takeWhile is_digit (tl t); r = dropWhile is_digit (tl t) in
            if lo = [] \<or> r = [] then None
            else if hd r = CHR ''}'' then Some (read_nat lo, read_nat lo)
            else if hd r = CHR '','' then
              (let hi = takeWhile is_digit (tl r) in
               if starts_with ''}'' (dropWhile is_digit (tl r))
               then Some (read_nat lo, if hi = [] then read_nat lo else read_nat hi) else None)
            else None))"

definition MAX_PATTERN_LENGTH :: nat where
  "MAX_PATTERN_LENGTH = 200"

definition lintPattern :: "js_host \<Rightarrow> string \<Rightarrow> string \<Rightarrow> errors" where
  "lintPattern host pattern loc =
     err (MAX_PATTERN_LENGTH < length pattern) loc @
     err (list_ex backreference_at (tails pattern)) loc @
     err (list_ex lookaround_at (tails pattern)) loc @
     err (hasNestedQuantifier pattern) loc @
     concat (map (\<lambda>t. case repetition_at t of None \<Rightarrow> [] | Some (lo, hi) \<Rightarrow> err (1000 < lo \<or> 1000 < hi) loc) (tails pattern)) @
     err (\<not> host_regexOk host pattern) loc"

section \<open>Definitions: ranges\<close>

definition octet_ok :: "string \<Rightarrow> bool" where
  "octet_ok octet \<longleftrightarrow> octet \<noteq> [] \<and> list_all is_digit octet \<and> js_int_between 0 255 (js_Number octet) \<noteq> None"

definition cidrOk :: "string \<Rightarrow> bool" where
  "cidrOk v \<longleftrightarrow> (case cidr_parts v of
       (ip, Some bitsRaw) \<Rightarrow> ip \<noteq> [] \<and> length (js_split CHR ''.'' ip) = 4 \<and> list_all octet_ok (js_split CHR ''.'' ip) \<and>
         js_int_between 0 32 (js_Number bitsRaw) \<noteq> None
     | _ \<Rightarrow> False)"

section \<open>Lemmas\<close>

lemma err_Nil [simp]: "err b loc = [] \<longleftrightarrow> \<not> b"
  by (simp add: err_def)

lemma bounded_name_chars: "bounded_name f r lo hi s \<Longrightarrow> c \<in> set s \<Longrightarrow> f c \<or> r c"
  by (auto simp: bounded_name_def list_all_iff split: list.splits)

lemma app_ref_roundtrip:
  "parseAppCredentialRef ref = Some (a, n) \<longleftrightarrow>
     ref = appCredentialRef a n \<and> bounded_name lower_alnum (\<lambda>c. lower_alnum c \<or> c \<in> set ''_-'') 0 63 a \<and>
     bounded_name lower_alnum (\<lambda>c. lower_alnum c \<or> c = CHR ''-'') 1 60 n"
    (is "?L \<longleftrightarrow> ?R")
proof
  assume l: ?L
  then have "js_split CHR '':'' ref = [''app'', a, n]"
    by (auto simp: parseAppCredentialRef_def split: list.splits if_splits)
  then have "ref = js_join '':'' [''app'', a, n]" by (metis js_join_split)
  with l show ?R by (auto simp: parseAppCredentialRef_def appCredentialRef_def split: list.splits if_splits)
next
  assume r: ?R
  have nc: "\<not> lower_alnum CHR '':''" by (simp add: lower_alnum_def char_in_def is_digit_def)
  from r nc have "CHR '':'' \<notin> set a" "CHR '':'' \<notin> set n" by (auto dest!: bounded_name_chars)
  then have "js_split CHR '':'' (appCredentialRef a n) = [''app'', a, n]"
    by (simp add: appCredentialRef_def js_split_append js_split_atom)
  with r show ?L by (simp add: parseAppCredentialRef_def)
qed

section \<open>Properties\<close>

text \<open>A range with the prefix length left out after the slash passes the write-time check, because
  \<^verbatim>\<open>Number("")\<close> is 0, and at the gateway it is the range of every IPv4 address: an \<^verbatim>\<open>ipAllow\<close> list holding
  \<^verbatim>\<open>10.0.0.0/\<close> admits every caller whose address parses.\<close>

lemma empty_prefix_admits_everyone:
  "cidrOk ''10.0.0.0/'' = True \<and> ipInCidr ip ''10.0.0.0/'' = (ipv4ToInt (canonicalIp ip) \<noteq> None)"
proof
  show "cidrOk ''10.0.0.0/'' = True" by code_simp
  have p: "cidr_parts ''10.0.0.0/'' = (''10.0.0.0'', Some [])" by code_simp
  have "ipv4ToInt ''10.0.0.0'' \<noteq> None" by code_simp
  moreover have "js_int_between 0 32 (js_Number []) = Some 0" by code_simp
  ultimately show "ipInCidr ip ''10.0.0.0/'' = (ipv4ToInt (canonicalIp ip) \<noteq> None)"
    by (auto simp: ipInCidr_def p in_network_def split: option.splits)
qed

text \<open>A reference to an application's own credential names its owner unambiguously: the parser accepts exactly the
  references the printer makes from a well-formed application id and credential name, and returns those two, so two
  applications' credentials of the same name are never one entry.\<close>

lemma app_credential_ref_exact:
  "parseAppCredentialRef ref = Some (a, n) \<longleftrightarrow>
     ref = appCredentialRef a n \<and> bounded_name lower_alnum (\<lambda>c. lower_alnum c \<or> c \<in> set ''_-'') 0 63 a \<and>
     bounded_name lower_alnum (\<lambda>c. lower_alnum c \<or> c = CHR ''-'') 1 60 n"
  by (rule app_ref_roundtrip)

end
