(* ===== verification/PolicyUnits.thy ===== *)
theory PolicyUnits
  imports PolicyChecks
begin

declare map_of_eq_Some_iff [simp del] Some_eq_map_of_iff [simp del]

text \<open>
  The validators of the policy units and of the assembled document (\<^verbatim>\<open>shared/policy.ts\<close>), one definition per
  function, and the advice \<^verbatim>\<open>lintDocument\<close> gives on a valid document. A validator returns the paths of its
  errors in the source's order; the empty list means the value is accepted. The lemmas show what an accepted
  value guarantees to the gateway's components, which read the stored JSON with no further check.
\<close>

section \<open>Definitions: identity units\<close>

definition object_unit :: "string \<Rightarrow> (jsval \<Rightarrow> errors) \<Rightarrow> jsval \<Rightarrow> errors" where
  "object_unit loc check v = (if isPlainObject (Some v) then check v else [loc])"

definition place_errors :: "jsval \<Rightarrow> string \<Rightarrow> errors" where
  "place_errors v loc =
     err (\<not> string_that (\<lambda>s. s = ''header'' \<or> s = ''query'') (member v ''in'')) (loc @ ''.in'') @
     (if \<not> string_that (\<lambda>s. s \<noteq> []) (member v ''name'') then [loc @ ''.name'']
      else err (member v ''in'' = Some (JStr ''header'') \<and> \<not> string_that HEADER_NAME (member v ''name'')) (loc @ ''.name''))"

definition validateSubscriptionKey :: "jsval \<Rightarrow> errors" where
  "validateSubscriptionKey = object_unit ''auth.subscriptionKey'' (\<lambda>v.
     unknownKeys v [''in'', ''name'', ''forwardCredentials''] ''auth.subscriptionKey'' @
     place_errors v ''auth.subscriptionKey'' @
     boolField (member v ''forwardCredentials'') ''auth.subscriptionKey.forwardCredentials'')"

definition optional_string :: "jsval option \<Rightarrow> string \<Rightarrow> errors" where
  "optional_string v loc = err (v \<noteq> None \<and> as_string v = None) loc"

definition optional_header :: "jsval option \<Rightarrow> string \<Rightarrow> errors" where
  "optional_header v loc = err (v \<noteq> None \<and> \<not> string_that HEADER_NAME v) loc"

definition validateBasic :: "jsval \<Rightarrow> errors" where
  "validateBasic = object_unit ''auth.basic'' (\<lambda>v.
     unknownKeys v [''credentialRef'', ''realm'', ''forwardCredentials''] ''auth.basic'' @
     credentialRefField (member v ''credentialRef'') ''auth.basic.credentialRef'' @
     optional_string (member v ''realm'') ''auth.basic.realm'' @
     boolField (member v ''forwardCredentials'') ''auth.basic.forwardCredentials'')"

definition validateJwt :: "jsval \<Rightarrow> errors" where
  "validateJwt = object_unit ''auth.jwt'' (\<lambda>v.
     unknownKeys v [''issuerRef'', ''headerName'', ''scheme'', ''audience'', ''requiredScopes'', ''scopeMap'', ''clockSkewSec'',
       ''forwardCredentials''] ''auth.jwt'' @
     refField (member v ''issuerRef'') ''auth.jwt.issuerRef'' @
     optional_header (member v ''headerName'') ''auth.jwt.headerName'' @
     optional_string (member v ''scheme'') ''auth.jwt.scheme'' @
     stringArrayField (member v ''audience'') ''auth.jwt.audience'' any_string @
     stringArrayField (member v ''requiredScopes'') ''auth.jwt.requiredScopes'' any_string @
     (case member v ''scopeMap'' of None \<Rightarrow> []
      | Some m \<Rightarrow> if \<not> isPlainObject (Some m) then [''auth.jwt.scopeMap'']
          else concat (map (\<lambda>(key, scopes). stringArrayField (Some scopes) (''auth.jwt.scopeMap.'' @ key) any_string) (object_entries m))) @
     intField (member v ''clockSkewSec'') ''auth.jwt.clockSkewSec'' 0 300 @
     boolField (member v ''forwardCredentials'') ''auth.jwt.forwardCredentials'')"

definition validateIntrospection :: "jsval \<Rightarrow> errors" where
  "validateIntrospection = object_unit ''auth.introspection'' (\<lambda>v.
     unknownKeys v [''issuerRef'', ''cacheTtlSec'', ''requiredScopes'', ''forwardCredentials''] ''auth.introspection'' @
     refField (member v ''issuerRef'') ''auth.introspection.issuerRef'' @
     intField (member v ''cacheTtlSec'') ''auth.introspection.cacheTtlSec'' 0 3600 @
     stringArrayField (member v ''requiredScopes'') ''auth.introspection.requiredScopes'' any_string @
     boolField (member v ''forwardCredentials'') ''auth.introspection.forwardCredentials'')"

definition nonempty_array :: "jsval option \<Rightarrow> bool" where
  "nonempty_array v = (case as_array v of Some (_ # _) \<Rightarrow> True | _ \<Rightarrow> False)"

definition validateMtls :: "jsval \<Rightarrow> errors" where
  "validateMtls = object_unit ''auth.mtls'' (\<lambda>v.
     let hasIssuer = nonempty_array (member v ''allowedIssuers''); hasCn = nonempty_array (member v ''allowedSubjectCns'');
         hasSan = nonempty_array (member v ''allowedSans'')
     in unknownKeys v [''allowedIssuers'', ''allowedSubjectCns'', ''allowedSans'', ''acknowledgeCnOnly''] ''auth.mtls'' @
        stringArrayField (member v ''allowedIssuers'') ''auth.mtls.allowedIssuers'' any_string @
        stringArrayField (member v ''allowedSubjectCns'') ''auth.mtls.allowedSubjectCns'' any_string @
        stringArrayField (member v ''allowedSans'') ''auth.mtls.allowedSans'' any_string @
        boolField (member v ''acknowledgeCnOnly'') ''auth.mtls.acknowledgeCnOnly'' @
        err (\<not> hasIssuer \<and> \<not> hasCn \<and> \<not> hasSan) ''auth.mtls'' @
        err (hasCn \<and> \<not> hasIssuer \<and> member v ''acknowledgeCnOnly'' \<noteq> Some (JBool True)) ''auth.mtls'')"

definition validateIpAllow :: "jsval \<Rightarrow> errors" where
  "validateIpAllow v =
     (if \<not> nonempty_array (Some v) then [''ipAllow'']
      else err (64 < length (array_items (Some v))) ''ipAllow'' @ stringArrayField (Some v) ''ipAllow'' cidrOk)"

section \<open>Definitions: traffic units\<close>

definition is_http_method :: "string \<Rightarrow> bool" where
  "is_http_method s \<longleftrightarrow> toUpperCase s \<in> set HTTP_METHODS"

definition origin_ok :: "js_host \<Rightarrow> string \<Rightarrow> bool" where
  "origin_ok host s \<longleftrightarrow> s = ''*'' \<or> host_urlOrigin host s = Some s"

definition validateCors :: "js_host \<Rightarrow> jsval \<Rightarrow> errors" where
  "validateCors host = object_unit ''cors'' (\<lambda>v.
     unknownKeys v [''origins'', ''methods'', ''headers'', ''exposeHeaders'', ''credentials'', ''maxAgeSec''] ''cors'' @
     (if \<not> nonempty_array (member v ''origins'') then [''cors.origins'']
      else stringArrayField (member v ''origins'') ''cors.origins'' (origin_ok host)) @
     stringArrayField (member v ''methods'') ''cors.methods'' is_http_method @
     stringArrayField (member v ''headers'') ''cors.headers'' HEADER_NAME @
     stringArrayField (member v ''exposeHeaders'') ''cors.exposeHeaders'' HEADER_NAME @
     boolField (member v ''credentials'') ''cors.credentials'' @
     intField (member v ''maxAgeSec'') ''cors.maxAgeSec'' 0 86400 @
     err (member v ''credentials'' = Some (JBool True) \<and>
          (case as_array (member v ''origins'') of Some os \<Rightarrow> JStr ''*'' \<in> set os | None \<Rightarrow> False)) ''cors'')"

definition validate_name_check :: "js_host \<Rightarrow> bool \<Rightarrow> jsval \<Rightarrow> string \<Rightarrow> errors" where
  "validate_name_check host isHeader check loc =
     (let allowed = (if isHeader then [''name'', ''present'', ''equals'', ''pattern'', ''credentialRef'']
                     else [''name'', ''present'', ''equals'', ''pattern'']);
          modes = filter (\<lambda>k. member check k \<noteq> None) (tl allowed)
      in if \<not> isPlainObject (Some check) then [loc]
         else unknownKeys check allowed loc @
           err (\<not> string_that (\<lambda>s. isHeader \<longrightarrow> HEADER_NAME s) (member check ''name'')) (loc @ ''.name'') @
           err (length modes \<noteq> 1) loc @
           err (member check ''present'' \<noteq> None \<and> member check ''present'' \<noteq> Some (JBool True)) (loc @ ''.present'') @
           optional_string (member check ''equals'') (loc @ ''.equals'') @
           (if member check ''credentialRef'' \<noteq> None
            then credentialRefField (member check ''credentialRef'') (loc @ ''.credentialRef'') else []) @
           (case member check ''pattern'' of None \<Rightarrow> []
            | Some (JStr p) \<Rightarrow> lintPattern host p (loc @ ''.pattern'')
            | Some _ \<Rightarrow> [loc @ ''.pattern'']))"

definition validate_cert_check :: "jsval \<Rightarrow> string \<Rightarrow> errors" where
  "validate_cert_check check loc =
     (if \<not> isPlainObject (Some check) then [loc]
      else unknownKeys check [''issuers'', ''subjectCns'', ''sans''] loc @
        stringArrayField (member check ''issuers'') (loc @ ''.issuers'') any_string @
        stringArrayField (member check ''subjectCns'') (loc @ ''.subjectCns'') any_string @
        stringArrayField (member check ''sans'') (loc @ ''.sans'') any_string @
        err (as_array (member check ''issuers'') = None \<and> as_array (member check ''subjectCns'') = None \<and>
             as_array (member check ''sans'') = None) loc)"

definition validate_operation_check :: "jsval \<Rightarrow> string \<Rightarrow> errors" where
  "validate_operation_check check loc =
     (if \<not> isPlainObject (Some check) then [loc]
      else unknownKeys check [''methods''] loc @
        (if \<not> nonempty_array (member check ''methods'') then [loc @ ''.methods'']
         else stringArrayField (member check ''methods'') (loc @ ''.methods'') is_http_method))"

definition validateCheck :: "js_host \<Rightarrow> jsval \<Rightarrow> string \<Rightarrow> errors" where
  "validateCheck host rule loc =
     (case filter (\<lambda>k. member rule k \<noteq> None) [''requireHeader'', ''requireQuery'', ''requireClientCert'', ''requireOperation''] of
        [k] \<Rightarrow> (let check = the (member rule k); at_k = loc @ ''.'' @ k in
          if k = ''requireHeader'' \<or> k = ''requireQuery'' then validate_name_check host (k = ''requireHeader'') check at_k
          else if k = ''requireClientCert'' then validate_cert_check check at_k
          else validate_operation_check check at_k)
      | _ \<Rightarrow> [loc])"

definition validate_deny :: "jsval option \<Rightarrow> string \<Rightarrow> errors" where
  "validate_deny deny loc = (case deny of
       Some (JObj kvs) \<Rightarrow>
         (let d = JObj kvs in
          unknownKeys d [''status'', ''reason'', ''headers'', ''body''] loc @
          err (\<not> int_within (member d ''status'') 400 599) (loc @ ''.status'') @
          err (\<not> string_that (\<lambda>s. s \<noteq> []) (member d ''reason'')) (loc @ ''.reason'') @
          (if member d ''headers'' \<noteq> None then stringMap (member d ''headers'') (loc @ ''.headers'') else []) @
          (case member d ''body'' of None \<Rightarrow> []
           | Some b \<Rightarrow> err (as_string (Some b) = None \<and> \<not> isPlainObject (Some b) \<and> as_array (Some b) = None) (loc @ ''.body'') @
               map fst (templateErrorsDeep b (loc @ ''.body''))) @
          (case member d ''reason'' of None \<Rightarrow> [] | Some r \<Rightarrow> map fst (templateErrorsDeep r (loc @ ''.reason''))))
     | _ \<Rightarrow> [loc])"

definition validatePreconditions :: "js_host \<Rightarrow> jsval \<Rightarrow> errors" where
  "validatePreconditions host v =
     (case as_array (Some v) of None \<Rightarrow> [''preconditions'']
      | Some rules \<Rightarrow>
          err (rules = []) ''preconditions'' @ err (20 < length rules) ''preconditions'' @
          concat (map (\<lambda>(i, rule). let loc = item_loc ''preconditions'' i in
            if \<not> isPlainObject (Some rule) then [loc]
            else unknownKeys rule [''requireHeader'', ''requireQuery'', ''requireClientCert'', ''requireOperation'', ''deny''] loc @
              validateCheck host rule loc @ validate_deny (member rule ''deny'') (loc @ ''.deny'')) (array_items (Some v))))"

definition nullish_string :: "jsval option \<Rightarrow> string \<Rightarrow> jsval" where
  "nullish_string v dflt = (case v of None \<Rightarrow> JStr dflt | Some JNull \<Rightarrow> JStr dflt | Some x \<Rightarrow> x)"

definition is_one_of :: "string list \<Rightarrow> jsval option \<Rightarrow> bool" where
  "is_one_of xs v = string_that (\<lambda>s. s \<in> set xs) v"

definition media_char :: "bool \<Rightarrow> char \<Rightarrow> bool" where
  "media_char star c \<longleftrightarrow> alnum c \<or> c \<in> set ''.+-'' \<or> (star \<and> c = CHR ''*'')"

definition media_type_ok :: "string \<Rightarrow> bool" where
  "media_type_ok s \<longleftrightarrow> (let t = takeWhile (\<lambda>c. c \<noteq> CHR ''/'') s; r = dropWhile (\<lambda>c. c \<noteq> CHR ''/'') s in
     t \<noteq> [] \<and> list_all (media_char False) t \<and> tl r \<noteq> [] \<and> list_all (media_char True) (tl r))"

definition validate_always :: "jsval \<Rightarrow> errors" where
  "validate_always always =
     (if \<not> isPlainObject (Some always) then [''validate.always'']
      else unknownKeys always [''contentType'', ''maxBodyBytes'', ''maxDepth'', ''json'', ''xml''] ''validate.always'' @
        stringArrayField (member always ''contentType'') ''validate.always.contentType'' media_type_ok @
        intField (member always ''maxBodyBytes'') ''validate.always.maxBodyBytes'' 1 (1024 * 1024 * 1024) @
        intField (member always ''maxDepth'') ''validate.always.maxDepth'' 1 512 @
        (case member always ''json'' of None \<Rightarrow> []
         | Some j \<Rightarrow> if \<not> isPlainObject (Some j) then [''validate.always.json'']
             else unknownKeys j [''maxArrayLength'', ''duplicateKeys''] ''validate.always.json'' @
               intField (member j ''maxArrayLength'') ''validate.always.json.maxArrayLength'' 1 10000000 @
               err (member j ''duplicateKeys'' \<noteq> None \<and> \<not> is_one_of [''reject'', ''last-wins''] (member j ''duplicateKeys''))
                 ''validate.always.json.duplicateKeys'') @
        (case member always ''xml'' of None \<Rightarrow> []
         | Some x \<Rightarrow> if \<not> isPlainObject (Some x) then [''validate.always.xml'']
             else unknownKeys x [''maxElements''] ''validate.always.xml'' @
               intField (member x ''maxElements'') ''validate.always.xml.maxElements'' 1 10000000))"

definition rate_ok :: "jsval option \<Rightarrow> bool" where
  "rate_ok v = (case as_number v of Some r \<Rightarrow> 0 < r \<and> r \<le> 1 | None \<Rightarrow> False)"

definition validate_sample :: "jsval \<Rightarrow> errors" where
  "validate_sample sample =
     (if \<not> isPlainObject (Some sample) then [''validate.sample'']
      else unknownKeys sample [''alwaysUnderBytes'', ''rate'', ''coldStart'', ''onFailureEscalateSec'', ''key''] ''validate.sample'' @
        err (\<not> rate_ok (member sample ''rate'')) ''validate.sample.rate'' @
        intField (member sample ''alwaysUnderBytes'') ''validate.sample.alwaysUnderBytes'' 0 (16 * 1024 * 1024) @
        intField (member sample ''coldStart'') ''validate.sample.coldStart'' 0 10000 @
        intField (member sample ''onFailureEscalateSec'') ''validate.sample.onFailureEscalateSec'' 0 86400 @
        stringArrayField (member sample ''key'') ''validate.sample.key'' (\<lambda>s. s = ''operation'' \<or> s = ''subscription''))"

definition validateValidate :: "bool \<Rightarrow> jsval \<Rightarrow> errors" where
  "validateValidate operationScoped = object_unit ''validate'' (\<lambda>v.
     let request = nullish_string (member v ''request'') ''blocking''; response = nullish_string (member v ''response'') ''disabled'';
         states = [''blocking'', ''warning'', ''disabled'']
     in unknownKeys v [''request'', ''response'', ''downgradeReason'', ''headers'', ''body'', ''always'', ''sample'', ''maxConcurrent'',
          ''onSaturated'', ''logEvents''] ''validate'' @
        err (member v ''request'' \<noteq> None \<and> \<not> is_one_of states (member v ''request'')) ''validate.request'' @
        err (member v ''response'' \<noteq> None \<and> \<not> is_one_of states (member v ''response'')) ''validate.response'' @
        boolField (member v ''headers'') ''validate.headers'' @
        boolField (member v ''body'') ''validate.body'' @
        (if request \<noteq> JStr ''blocking''
         then err (\<not> string_that (\<lambda>s. 8 \<le> length (js_trim s)) (member v ''downgradeReason'')) ''validate.downgradeReason''
         else err (member v ''downgradeReason'' \<noteq> None) ''validate.downgradeReason'') @
        (case member v ''always'' of None \<Rightarrow> []
         | Some always \<Rightarrow> err operationScoped ''validate.always'' @ validate_always always) @
        (case member v ''sample'' of None \<Rightarrow> []
         | Some sample \<Rightarrow> err (request = JStr ''blocking'' \<and> response = JStr ''blocking'') ''validate.sample'' @ validate_sample sample) @
        intField (member v ''maxConcurrent'') ''validate.maxConcurrent'' 1 64 @
        err (member v ''onSaturated'' \<noteq> None \<and> member v ''onSaturated'' \<noteq> Some (JStr ''skip'')) ''validate.onSaturated'' @
        (case member v ''logEvents'' of None \<Rightarrow> []
         | Some l \<Rightarrow> if \<not> isPlainObject (Some l) then [''validate.logEvents'']
             else unknownKeys l [''includeBodyExcerptBytes''] ''validate.logEvents'' @
               intField (member l ''includeBodyExcerptBytes'') ''validate.logEvents.includeBodyExcerptBytes'' 0 4096))"

section \<open>Definitions: shaping units\<close>

definition validateRewrite :: "jsval \<Rightarrow> errors" where
  "validateRewrite = object_unit ''rewrite'' (\<lambda>v.
     unknownKeys v [''stripBasePath'', ''path'', ''copyUnmatchedParams'', ''query''] ''rewrite'' @
     boolField (member v ''stripBasePath'') ''rewrite.stripBasePath'' @
     boolField (member v ''copyUnmatchedParams'') ''rewrite.copyUnmatchedParams'' @
     (if member v ''path'' = None then []
      else if \<not> string_that (starts_with ''/'') (member v ''path'') then [''rewrite.path'']
      else err (string_that (\<lambda>p. CHR ''?'' \<in> set p \<or> CHR ''#'' \<in> set p) (member v ''path'')) ''rewrite.path'') @
     (case member v ''query'' of None \<Rightarrow> []
      | Some q \<Rightarrow> if \<not> isPlainObject (Some q) then [''rewrite.query'']
          else unknownKeys q [''set'', ''remove''] ''rewrite.query'' @
            (case member q ''set'' of None \<Rightarrow> []
             | Some s \<Rightarrow> if \<not> isPlainObject (Some s) then [''rewrite.query.set'']
                 else concat (map (\<lambda>(name, x). err (as_string (Some x) = None) (''rewrite.query.set.'' @ name)) (object_entries s)) @
                   map fst (templateErrorsDeep s ''rewrite.query.set'')) @
            stringArrayField (member q ''remove'') ''rewrite.query.remove'' any_string))"

definition validateHeaderRules :: "string \<Rightarrow> jsval \<Rightarrow> errors" where
  "validateHeaderRules unit = object_unit unit (\<lambda>v.
     unknownKeys v [''remove'', ''set'', ''append'', ''skip''] unit @
     stringArrayField (member v ''remove'') (unit @ ''.remove'') HEADER_NAME @
     concat (map (\<lambda>action. if member v action \<noteq> None then stringMap (member v action) (unit @ ''.'' @ action) else [])
       [''set'', ''append'', ''skip'']))"

definition validateTransform :: "jsval \<Rightarrow> errors" where
  "validateTransform = object_unit ''transform'' (\<lambda>v.
     unknownKeys v [''request'', ''response''] ''transform'' @
     err (member v ''request'' \<noteq> None \<and> member v ''request'' \<noteq> Some (JStr ''none'')) ''transform.request'' @
     err (member v ''response'' \<noteq> None \<and> \<not> is_one_of [''none'', ''soap-to-json''] (member v ''response'')) ''transform.response'')"

definition validateKafkaProduce :: "jsval \<Rightarrow> errors" where
  "validateKafkaProduce = object_unit ''kafkaProduce'' (\<lambda>v.
     unknownKeys v [''clusterId''] ''kafkaProduce'' @
     err (\<not> string_that (\<lambda>s. 1 \<le> length s \<and> length s \<le> 255 \<and> list_all (\<lambda>c. alnum c \<or> c \<in> set ''._-'') s) (member v ''clusterId''))
       ''kafkaProduce.clusterId'')"

definition validateCache :: "jsval \<Rightarrow> errors" where
  "validateCache = object_unit ''cache'' (\<lambda>v.
     unknownKeys v [''ttlSec'', ''vary'', ''varyBySubscription'', ''mustRevalidate'', ''downstream'', ''maxBodyBytes''] ''cache'' @
     err (\<not> int_within (member v ''ttlSec'') 1 86400) ''cache.ttlSec'' @
     stringArrayField (member v ''vary'') ''cache.vary'' HEADER_NAME @
     boolField (member v ''varyBySubscription'') ''cache.varyBySubscription'' @
     boolField (member v ''mustRevalidate'') ''cache.mustRevalidate'' @
     err (member v ''downstream'' \<noteq> None \<and> \<not> is_one_of [''public'', ''private'', ''none''] (member v ''downstream'')) ''cache.downstream'' @
     intField (member v ''maxBodyBytes'') ''cache.maxBodyBytes'' 1 (32 * 1024 * 1024))"

section \<open>Definitions: limits\<close>

definition limit_scope_errors :: "jsval \<Rightarrow> string \<Rightarrow> string \<Rightarrow> errors" where
  "limit_scope_errors v unit per =
     err (member v ''per'' \<noteq> Some (JStr per)) (unit @ ''.per'') @
     err (member v ''by'' \<noteq> Some (JStr ''subscription'')) (unit @ ''.by'') @
     err (\<not> is_one_of [''route'', ''product''] (member v ''scope'')) (unit @ ''.scope'') @
     boolField (member v ''emitHeaders'') (unit @ ''.emitHeaders'')"

definition validateRateLimit :: "jsval \<Rightarrow> errors" where
  "validateRateLimit = object_unit ''rateLimit'' (\<lambda>v.
     unknownKeys v [''calls'', ''periodSec'', ''per'', ''by'', ''scope'', ''emitHeaders''] ''rateLimit'' @
     err (\<not> int_at_least (member v ''calls'') 1) ''rateLimit.calls'' @
     intField (member v ''periodSec'') ''rateLimit.periodSec'' 1 86400 @
     err (member v ''periodSec'' = None) ''rateLimit.periodSec'' @
     limit_scope_errors v ''rateLimit'' ''instance'')"

definition validateQuota :: "jsval \<Rightarrow> errors" where
  "validateQuota = object_unit ''quota'' (\<lambda>v.
     unknownKeys v [''calls'', ''periodSec'', ''per'', ''by'', ''scope'', ''emitHeaders''] ''quota'' @
     err (\<not> int_at_least (member v ''calls'') 1) ''quota.calls'' @
     intField (member v ''periodSec'') ''quota.periodSec'' 60 (366 * 86400) @
     err (member v ''periodSec'' = None) ''quota.periodSec'' @
     limit_scope_errors v ''quota'' ''fleet'')"

definition MAX_TIMEOUT_MS :: int where
  "MAX_TIMEOUT_MS = 240000"

definition MAX_ROUTE_IN_FLIGHT :: int where
  "MAX_ROUTE_IN_FLIGHT = 100000"

definition validateTimeout :: "jsval \<Rightarrow> errors" where
  "validateTimeout v = err (\<not> int_within (Some v) 1 MAX_TIMEOUT_MS) ''timeoutMs''"

definition RETRY_ON :: "string list" where
  "RETRY_ON = [''502'', ''503'', ''504'', ''timeout'', ''connect'']"

definition validateRetries :: "jsval \<Rightarrow> errors" where
  "validateRetries = object_unit ''retries'' (\<lambda>v.
     unknownKeys v [''attempts'', ''on'', ''idempotentOnly''] ''retries'' @
     err (\<not> int_within (member v ''attempts'') 1 5) ''retries.attempts'' @
     (if \<not> nonempty_array (member v ''on'') then [''retries.on'']
      else stringArrayField (member v ''on'') ''retries.on'' (\<lambda>s. s \<in> set RETRY_ON)) @
     boolField (member v ''idempotentOnly'') ''retries.idempotentOnly'')"

definition validateCircuitBreaker :: "jsval \<Rightarrow> errors" where
  "validateCircuitBreaker = object_unit ''circuitBreaker'' (\<lambda>v.
     unknownKeys v [''failures'', ''windowSec'', ''openSec'', ''halfOpenProbes''] ''circuitBreaker'' @
     err (\<not> int_at_least (member v ''failures'') 1) ''circuitBreaker.failures'' @
     intField (member v ''windowSec'') ''circuitBreaker.windowSec'' 1 3600 @
     err (member v ''windowSec'' = None) ''circuitBreaker.windowSec'' @
     intField (member v ''openSec'') ''circuitBreaker.openSec'' 1 3600 @
     err (member v ''openSec'' = None) ''circuitBreaker.openSec'' @
     intField (member v ''halfOpenProbes'') ''circuitBreaker.halfOpenProbes'' 1 100)"

definition validateConcurrency :: "jsval \<Rightarrow> errors" where
  "validateConcurrency = object_unit ''concurrency'' (\<lambda>v.
     unknownKeys v [''maxInFlight'', ''per'', ''retryAfterSec''] ''concurrency'' @
     err (\<not> int_within (member v ''maxInFlight'') 1 MAX_ROUTE_IN_FLIGHT) ''concurrency.maxInFlight'' @
     err (member v ''per'' \<noteq> Some (JStr ''instance'')) ''concurrency.per'' @
     intField (member v ''retryAfterSec'') ''concurrency.retryAfterSec'' 0 3600)"

section \<open>Definitions: backend and protocol units\<close>

definition BACKEND_AUTH_TYPES :: "string list" where
  "BACKEND_AUTH_TYPES = [''none'', ''basic'', ''api-key'', ''oauth2-client-credentials'', ''hmac-sa-key-lite'', ''mtls'']"

definition invalidate_errors :: "jsval option \<Rightarrow> errors" where
  "invalidate_errors v = (if v = None then []
     else if as_array v = None then [''backendAuth.invalidateOnStatus'']
     else concat (map (\<lambda>(i, s). err (\<not> int_within (Some s) 400 599) (item_loc ''backendAuth.invalidateOnStatus'' i)) (array_items v)))"

definition validateBackendAuth :: "jsval \<Rightarrow> errors" where
  "validateBackendAuth = object_unit ''backendAuth'' (\<lambda>v.
     case as_string (member v ''type'') of None \<Rightarrow> [''backendAuth.type'']
     | Some type \<Rightarrow>
         if type \<notin> set BACKEND_AUTH_TYPES then [''backendAuth.type'']
         else if type = ''none'' \<or> type = ''mtls'' then unknownKeys v [''type''] ''backendAuth''
         else if type = ''basic'' then
           unknownKeys v [''type'', ''credentialRef''] ''backendAuth'' @
           credentialRefField (member v ''credentialRef'') ''backendAuth.credentialRef''
         else if type = ''api-key'' then
           unknownKeys v [''type'', ''credentialRef'', ''in'', ''name''] ''backendAuth'' @
           credentialRefField (member v ''credentialRef'') ''backendAuth.credentialRef'' @
           place_errors v ''backendAuth''
         else if type = ''oauth2-client-credentials'' then
           unknownKeys v [''type'', ''tokenProviderRef'', ''scope'', ''invalidateOnStatus''] ''backendAuth'' @
           refField (member v ''tokenProviderRef'') ''backendAuth.tokenProviderRef'' @
           optional_string (member v ''scope'') ''backendAuth.scope'' @
           invalidate_errors (member v ''invalidateOnStatus'')
         else
           unknownKeys v [''type'', ''schemeRef'', ''dateHeader'', ''serviceShortcut''] ''backendAuth'' @
           credentialRefField (member v ''schemeRef'') ''backendAuth.schemeRef'' @
           optional_header (member v ''dateHeader'') ''backendAuth.dateHeader'' @
           err (\<not> string_that (\<lambda>s. s \<noteq> []) (member v ''serviceShortcut'')) ''backendAuth.serviceShortcut'')"

definition validatePassthrough :: "jsval \<Rightarrow> errors" where
  "validatePassthrough = object_unit ''passthrough'' (\<lambda>v.
     unknownKeys v [''websocket'', ''sse'', ''streamIdleTimeoutSec'', ''maxConnectionSec'', ''maxConcurrentConnections'',
       ''maxBytesPerConnection''] ''passthrough'' @
     boolField (member v ''websocket'') ''passthrough.websocket'' @
     boolField (member v ''sse'') ''passthrough.sse'' @
     intField (member v ''streamIdleTimeoutSec'') ''passthrough.streamIdleTimeoutSec'' 1 86400 @
     intField (member v ''maxConnectionSec'') ''passthrough.maxConnectionSec'' 1 86400 @
     intField (member v ''maxConcurrentConnections'') ''passthrough.maxConcurrentConnections'' 1 100000 @
     intField (member v ''maxBytesPerConnection'') ''passthrough.maxBytesPerConnection'' 0 (1024 ^ 4) @
     err (member v ''websocket'' \<noteq> Some (JBool True) \<and> member v ''sse'' \<noteq> Some (JBool True)) ''passthrough'')"

definition validateErrorFormat :: "jsval \<Rightarrow> errors" where
  "validateErrorFormat = object_unit ''errorFormat'' (\<lambda>v.
     unknownKeys v [''shape'', ''soapVersion''] ''errorFormat'' @
     err (\<not> is_one_of [''problem+json'', ''soap-fault'', ''jsonrpc''] (member v ''shape'')) ''errorFormat.shape'' @
     err (member v ''soapVersion'' \<noteq> None \<and> \<not> is_one_of [''1.1'', ''1.2''] (member v ''soapVersion'')) ''errorFormat.soapVersion'' @
     err (member v ''shape'' \<noteq> Some (JStr ''soap-fault'') \<and> member v ''soapVersion'' \<noteq> None) ''errorFormat.soapVersion'')"

definition disabled_entry_ok :: "jsval \<Rightarrow> bool" where
  "disabled_entry_ok entry = string_that (\<lambda>s. s \<noteq> DISABLED_KEY \<and> (s \<in> set POLICY_UNITS \<or> parseOperationUnitKey s \<noteq> None)) (Some entry)"

definition validateDisabled :: "jsval \<Rightarrow> errors" where
  "validateDisabled v = (case as_array (Some v) of None \<Rightarrow> [DISABLED_KEY]
     | Some entries \<Rightarrow> concat (map (\<lambda>e. err (\<not> disabled_entry_ok e) DISABLED_KEY) entries))"

section \<open>Definitions: one unit, and the document\<close>

definition validate_named :: "js_host \<Rightarrow> string \<Rightarrow> jsval \<Rightarrow> errors" where
  "validate_named host unitKey v =
     (if unitKey = ''auth.subscriptionKey'' then validateSubscriptionKey v
      else if unitKey = ''auth.basic'' then validateBasic v
      else if unitKey = ''auth.jwt'' then validateJwt v
      else if unitKey = ''auth.introspection'' then validateIntrospection v
      else if unitKey = ''auth.mtls'' then validateMtls v
      else if unitKey = ''ipAllow'' then validateIpAllow v
      else if unitKey = ''cors'' then validateCors host v
      else if unitKey = ''preconditions'' then validatePreconditions host v
      else if unitKey = ''validate'' then validateValidate False v
      else if unitKey = ''rewrite'' then validateRewrite v
      else if unitKey = ''headers.request'' then validateHeaderRules ''headers.request'' v
      else if unitKey = ''headers.response'' then validateHeaderRules ''headers.response'' v
      else if unitKey = ''transform'' then validateTransform v
      else if unitKey = ''kafkaProduce'' then validateKafkaProduce v
      else if unitKey = ''cache'' then validateCache v
      else if unitKey = ''rateLimit'' then validateRateLimit v
      else if unitKey = ''quota'' then validateQuota v
      else if unitKey = ''timeoutMs'' then validateTimeout v
      else if unitKey = ''retries'' then validateRetries v
      else if unitKey = ''circuitBreaker'' then validateCircuitBreaker v
      else if unitKey = ''concurrency'' then validateConcurrency v
      else if unitKey = ''backendAuth'' then validateBackendAuth v
      else if unitKey = ''passthrough'' then validatePassthrough v
      else if unitKey = ''errorFormat'' then validateErrorFormat v
      else if unitKey = DISABLED_KEY then validateDisabled v
      else [unitKey])"

definition validateUnit :: "js_host \<Rightarrow> string \<Rightarrow> jsval \<Rightarrow> errors" where
  "validateUnit host unitKey v = (case parseOperationUnitKey unitKey of
       Some (_, unit) \<Rightarrow>
         if unit \<notin> set OPERATION_OVERRIDABLE then [unitKey]
         else if unit = ''validate'' then validateValidate True v
         else validate_named host unit v
     | None \<Rightarrow> validate_named host unitKey v)"

definition kind_name :: "ResourceKind \<Rightarrow> string" where
  "kind_name k = (case k of Rest \<Rightarrow> ''rest'' | Soap \<Rightarrow> ''soap'' | Mcp \<Rightarrow> ''mcp'' | A2a \<Rightarrow> ''a2a'')"

definition unit_member :: "document \<Rightarrow> string \<Rightarrow> string \<Rightarrow> jsval option" where
  "unit_member doc unit k = (case map_of doc unit of None \<Rightarrow> None | Some v \<Rightarrow> member v k)"

definition truthy :: "jsval option \<Rightarrow> bool" where
  "truthy v = (case v of None \<Rightarrow> False | Some JNull \<Rightarrow> False | Some (JBool b) \<Rightarrow> b | Some (JNum n) \<Rightarrow> n \<noteq> 0 | Some (JStr s) \<Rightarrow> s \<noteq> []
     | Some _ \<Rightarrow> True)"

text \<open>\<^verbatim>\<open>(transform.request ?? "none") !== "none"\<close> on an attached transform.\<close>

definition transform_set :: "document \<Rightarrow> string \<Rightarrow> bool" where
  "transform_set doc k \<longleftrightarrow> truthy (map_of doc ''transform'') \<and> nullish_string (unit_member doc ''transform'' k) ''none'' \<noteq> JStr ''none''"

definition validation_on :: "document \<Rightarrow> string \<Rightarrow> bool" where
  "validation_on doc k \<longleftrightarrow> unit_member doc ''validate'' k \<noteq> None \<and> unit_member doc ''validate'' k \<noteq> Some (JStr ''disabled'')"

definition count_errors :: "document \<Rightarrow> errors" where
  "count_errors doc =
     err ((map_of doc ''rateLimit'' \<noteq> None \<or> map_of doc ''quota'' \<noteq> None) \<and> map_of doc ''auth.subscriptionKey'' = None) ''rateLimit''"

definition scoped_count_errors :: "document \<Rightarrow> errors" where
  "scoped_count_errors doc = concat (map (\<lambda>key. case parseOperationUnitKey key of None \<Rightarrow> []
     | Some (_, unit) \<Rightarrow> err ((unit = ''rateLimit'' \<or> unit = ''quota'') \<and> map_of doc ''auth.subscriptionKey'' = None) key) (mkeys doc))"

definition kind_errors :: "document \<Rightarrow> ResourceKind option \<Rightarrow> errors" where
  "kind_errors doc kind = (case kind of None \<Rightarrow> [] | Some k \<Rightarrow>
     (if \<not> truthy (map_of doc ''errorFormat'') then []
      else err (unit_member doc ''errorFormat'' ''shape'' = Some (JStr ''soap-fault'') \<and> k \<noteq> Soap) ''errorFormat.shape'' @
           err (unit_member doc ''errorFormat'' ''shape'' = Some (JStr ''jsonrpc'') \<and> k \<noteq> Mcp \<and> k \<noteq> A2a) ''errorFormat.shape''))"

definition passthrough_errors :: "document \<Rightarrow> errors" where
  "passthrough_errors doc =
     (if truthy (unit_member doc ''passthrough'' ''websocket'')
      then err (validation_on doc ''request'') ''passthrough.websocket'' @
           err (transform_set doc ''request'') ''passthrough.websocket'' @
           err (transform_set doc ''response'') ''passthrough.websocket'' @
           err (map_of doc ''cache'' \<noteq> None) ''passthrough.websocket'' else []) @
     (if truthy (unit_member doc ''passthrough'' ''sse'')
      then err (validation_on doc ''response'') ''passthrough.sse'' @
           err (transform_set doc ''response'') ''passthrough.sse'' @
           err (map_of doc ''cache'' \<noteq> None) ''passthrough.sse'' else [])"

definition transform_kind_errors :: "document \<Rightarrow> ResourceKind option \<Rightarrow> errors" where
  "transform_kind_errors doc kind =
     err (unit_member doc ''transform'' ''response'' = Some (JStr ''soap-to-json'') \<and> kind \<noteq> None \<and> kind \<noteq> Some Soap) ''transform.response''"

definition kafka_errors :: "document \<Rightarrow> ResourceKind option \<Rightarrow> errors" where
  "kafka_errors doc kind =
     (if map_of doc ''kafkaProduce'' = None then []
      else concat (map (\<lambda>other. err (map_of doc other \<noteq> None) ''kafkaProduce'') [''rewrite'', ''transform'']) @
        err (kind \<noteq> None \<and> kind \<noteq> Some Rest) ''kafkaProduce'')"

definition validateDocument :: "js_host \<Rightarrow> document \<Rightarrow> ResourceKind option \<Rightarrow> bool \<Rightarrow> errors" where
  "validateDocument host held kind global =
     (let doc = activeDocument held in
      concat (map (\<lambda>(key, v). validateUnit host key v) held) @
      (if global then [] else count_errors doc) @
      kind_errors doc kind @ passthrough_errors doc @ transform_kind_errors doc kind @ kafka_errors doc kind @
      (if global then [] else scoped_count_errors doc))"

section \<open>Definitions: advice\<close>

definition AUTH_UNITS :: "string list" where
  "AUTH_UNITS = [''auth.subscriptionKey'', ''auth.basic'', ''auth.jwt'', ''auth.introspection'', ''auth.mtls'']"

datatype lint = NoConcurrencyLimit | OpenConcurrencyCeiling | ValidationNeverRejects | CacheSharedAcrossSubscriptions
  | JwtWithoutAudience | CnOnlyCertificates | RetriesWithoutBreaker | BreakerWithoutRetries

definition lintDocument :: "document \<Rightarrow> lint list" where
  "lintDocument doc =
     (let has = (\<lambda>u. map_of doc u \<noteq> None); note_if = (\<lambda>b w. if b then [w] else []) in
      note_if (\<not> has ''concurrency'') NoConcurrencyLimit @
      note_if (has ''concurrency'' \<and> \<not> list_ex has AUTH_UNITS) OpenConcurrencyCeiling @
      note_if (truthy (map_of doc ''validate'') \<and> nullish_string (unit_member doc ''validate'' ''request'') ''blocking'' \<noteq> JStr ''blocking'')
        ValidationNeverRejects @
      note_if (truthy (map_of doc ''cache'') \<and> has ''auth.subscriptionKey'' \<and>
        unit_member doc ''cache'' ''varyBySubscription'' \<noteq> Some (JBool True)) CacheSharedAcrossSubscriptions @
      note_if (truthy (map_of doc ''auth.jwt'') \<and> \<not> nonempty_array (unit_member doc ''auth.jwt'' ''audience'')) JwtWithoutAudience @
      note_if (truthy (unit_member doc ''auth.mtls'' ''acknowledgeCnOnly'')) CnOnlyCertificates @
      note_if (truthy (map_of doc ''retries'') \<and> \<not> has ''circuitBreaker'') RetriesWithoutBreaker @
      note_if (truthy (map_of doc ''circuitBreaker'') \<and> \<not> has ''retries'') BreakerWithoutRetries)"

section \<open>Lemmas\<close>

lemma object_unit_Nil: "object_unit loc check v = [] \<longleftrightarrow> (\<exists>kvs. v = JObj kvs) \<and> check v = []"
  by (cases v) (auto simp: object_unit_def isPlainObject_def)

lemma int_within_value:
  "int_within v lo hi \<longleftrightarrow> (\<exists>n. v = Some (JNum (of_int n)) \<and> lo \<le> n \<and> n \<le> hi)"
proof
  assume "int_within v lo hi"
  then obtain q where q: "as_number v = Some q" "is_integer q" "of_int lo \<le> q" "q \<le> of_int hi"
    by (auto simp: int_within_def split: option.splits)
  have v: "v = Some (JNum q)" using q(1) by (cases v; cases "the v") auto
  obtain n where n: "q = of_int n" using q(2) by (metis is_integer_def)
  with v q show "\<exists>n. v = Some (JNum (of_int n)) \<and> lo \<le> n \<and> n \<le> hi" by auto
qed (auto simp: int_within_def is_integer_def)

lemma int_at_least_value: "int_at_least v lo \<longleftrightarrow> (\<exists>n. v = Some (JNum (of_int n)) \<and> lo \<le> n)"
proof
  assume "int_at_least v lo"
  then obtain q where q: "as_number v = Some q" "is_integer q" "of_int lo \<le> q"
    by (auto simp: int_at_least_def split: option.splits)
  have v: "v = Some (JNum q)" using q(1) by (cases v; cases "the v") auto
  obtain n where n: "q = of_int n" using q(2) by (metis is_integer_def)
  with v q show "\<exists>n. v = Some (JNum (of_int n)) \<and> lo \<le> n" by auto
qed (auto simp: int_at_least_def is_integer_def)

lemma intField_Nil: "intField v loc lo hi = [] \<longleftrightarrow> v = None \<or> int_within v lo hi"
  by (auto simp: intField_def)

lemma required_int: "intField v loc lo hi = [] \<Longrightarrow> v \<noteq> None \<Longrightarrow> \<exists>n. v = Some (JNum (of_int n)) \<and> lo \<le> n \<and> n \<le> hi"
  by (auto simp: intField_Nil int_within_value)

lemma global_unit_plain: "u \<in> set POLICY_UNITS \<Longrightarrow> parseOperationUnitKey u = None"
  by (auto simp: POLICY_UNITS_def parseOperationUnitKey_def starts_with_def op_key_open_def)

lemmas limit_units = validateRateLimit_def validateQuota_def object_unit_Nil int_at_least_value limit_scope_errors_def is_one_of_def

section \<open>Properties\<close>

definition sample_limit :: jsval where
  "sample_limit = JObj [(''calls'', JNum 10), (''periodSec'', JNum 60), (''per'', JStr ''instance''),
      (''by'', JStr ''subscription''), (''scope'', JStr ''route'')]"

definition sample_host :: js_host where
  "sample_host = \<lparr>host_regexOk = (\<lambda>_. True), host_urlOrigin = (\<lambda>_. None)\<rparr>"

text \<open>What the gateway's limiters rely on: a rate limit or a quota that the validators accept has a whole number of
  calls, at least one, and a period of whole seconds within its bounds (a day at most for a rate limit, from a
  minute to 366 days for a quota), so neither limiter divides by zero or refuses every call.\<close>

lemma accepted_limits_bounded:
  assumes "validateUnit host u v = []" and "u = ''rateLimit'' \<or> u = ''quota''"
  shows "\<exists>calls period. member v ''calls'' = Some (JNum (of_int calls)) \<and> 1 \<le> calls \<and>
    member v ''periodSec'' = Some (JNum (of_int period)) \<and>
    (if u = ''rateLimit'' then 1 \<le> period \<and> period \<le> 86400 else 60 \<le> period \<and> period \<le> 366 * 86400)"
proof -
  have "u \<in> set POLICY_UNITS" using assms(2) by (auto simp: POLICY_UNITS_def)
  then have "validate_named host u v = []" using assms(1) by (simp add: validateUnit_def global_unit_plain)
  with assms(2) show ?thesis
    by (auto simp: validate_named_def limit_units dest!: required_int)
qed


text \<open>In a document an API may run, everything that counts against a subscription has one to count against: if
  the active document carries a rate limit or a quota, for the route or for one operation, it carries the
  subscription key unit too.\<close>

lemma accepted_document_counts_subscriptions:
  assumes "validateDocument host held kind False = []"
    and "u \<in> set (mkeys (activeDocument held))"
    and "u \<in> {''rateLimit'', ''quota''} \<or> (\<exists>oid. parseOperationUnitKey u = Some (oid, ''rateLimit'') \<or> parseOperationUnitKey u = Some (oid, ''quota''))"
  shows "map_of (activeDocument held) ''auth.subscriptionKey'' \<noteq> None"
proof -
  let ?doc = "activeDocument held"
  from assms(1) have c: "count_errors ?doc = []" "scoped_count_errors ?doc = []"
    by (auto simp: validateDocument_def Let_def)
  have present: "map_of ?doc u \<noteq> None" using assms(2) get_None_iff [of ?doc u] by blast
  from assms(3) show ?thesis
  proof
    assume "u \<in> {''rateLimit'', ''quota''}"
    with c(1) present show ?thesis by (auto simp: count_errors_def)
  next
    assume "\<exists>oid. parseOperationUnitKey u = Some (oid, ''rateLimit'') \<or> parseOperationUnitKey u = Some (oid, ''quota'')"
    then obtain oid unit where p: "parseOperationUnitKey u = Some (oid, unit)" "unit = ''rateLimit'' \<or> unit = ''quota''" by blast
    from c(2) assms(2) have "(case parseOperationUnitKey u of None \<Rightarrow> []
       | Some (_, unit) \<Rightarrow> err ((unit = ''rateLimit'' \<or> unit = ''quota'') \<and> map_of ?doc ''auth.subscriptionKey'' = None) u) = []"
      unfolding scoped_count_errors_def concat_eq_Nil_conv by auto
    with p show ?thesis by auto
  qed
qed


end
