(* ===== verification/PolicyWrites.thy ===== *)
theory PolicyWrites
  imports PolicyUnits
begin

declare map_of_eq_Some_iff [simp del] Some_eq_map_of_iff [simp del]

text \<open>
  The writes of the two policy tiers: attaching, detaching and copying a unit of one API
  (\<^verbatim>\<open>control-plane/src/api/resources.ts\<close>, \<^verbatim>\<open>api/promotion.ts\<close>) and of an environment
  (\<^verbatim>\<open>api/policy.ts\<close>), with the checks each makes before it writes; \<^verbatim>\<open>chain\<close> is the promotion chain of the
  configuration, the environments there are. The lemmas
  show that an owner's write never moves what runs of a unit the environment attaches, on every path,
  and the finding shows how naming a unit before it is attached defeats the tier.
\<close>

section \<open>Definitions: who is asking\<close>

record User =
  usr_id :: string
  usr_isAdmin :: bool
  usr_applications :: "string list"

datatype http_error = BadRequest | Forbidden | NotFound | Conflict

definition can :: "User option \<Rightarrow> string option \<Rightarrow> bool" where
  "can user applicationId = (case user of
       None \<Rightarrow> False
     | Some u \<Rightarrow> if usr_isAdmin u then True
         else (case applicationId of None \<Rightarrow> False | Some a \<Rightarrow> a \<noteq> [] \<and> a \<in> set (usr_applications u)))"

definition capabilitiesFor :: "User option \<Rightarrow> string option \<Rightarrow> string list" where
  "capabilitiesFor user applicationId =
     ''read'' # (if can user applicationId then [''update'', ''delete'', ''publish'', ''policy''] else [])"

definition getResource :: "DB \<Rightarrow> string \<Rightarrow> ResourceRow option" where
  "getResource db rid = find (\<lambda>r. res_id r = rid) (db_resource db)"

text \<open>The last revision by number; \<^verbatim>\<open>None\<close> when the API has no revision.\<close>

definition latest_revision :: "DB \<Rightarrow> string \<Rightarrow> RevisionRow option" where
  "latest_revision db resource =
     (case rev (sort_key rev_rev (filter (\<lambda>r. rev_resource r = resource) (db_revision db))) of
        [] \<Rightarrow> None | r # _ \<Rightarrow> Some r)"

definition operationIdsOf :: "DB \<Rightarrow> string \<Rightarrow> string set option" where
  "operationIdsOf db resource = map_option (\<lambda>r. set (map op_id (rev_index r))) (latest_revision db resource)"

section \<open>Definitions: the units of one API\<close>

definition entry_is :: "string \<Rightarrow> string \<Rightarrow> string \<Rightarrow> PolicyEntryRow \<Rightarrow> bool" where
  "entry_is resource environment unit r \<longleftrightarrow> pe_resource r = resource \<and> pe_env r = environment \<and> pe_unit r = unit"

text \<open>\<^verbatim>\<open>INSERT \<dots> ON CONFLICT DO UPDATE SET value_json, origin = 'local', \<dots>\<close>\<close>

definition upsert_unit :: "string \<Rightarrow> string \<Rightarrow> string \<Rightarrow> jsval \<Rightarrow> string \<Rightarrow> string \<Rightarrow> DB \<Rightarrow> DB" where
  "upsert_unit resource environment unit v actor stamp db =
     db\<lparr>db_policy :=
       (if \<exists>r\<in>set (db_policy db). entry_is resource environment unit r
        then map (\<lambda>r. if entry_is resource environment unit r
               then r\<lparr>pe_value := v, pe_seeded := False, pe_updated_by := actor, pe_updated_at := stamp\<rparr> else r) (db_policy db)
        else db_policy db @ [\<lparr>pe_resource = resource, pe_env = environment, pe_unit = unit, pe_value = v, pe_seeded = False,
               pe_seeded_from = None, pe_seeded_at = None, pe_updated_by = actor, pe_updated_at = stamp\<rparr>])\<rparr>"

definition delete_unit :: "string \<Rightarrow> string \<Rightarrow> string \<Rightarrow> DB \<Rightarrow> DB" where
  "delete_unit resource environment unit db =
     db\<lparr>db_policy := filter (\<lambda>r. \<not> entry_is resource environment unit r) (db_policy db)\<rparr>"

definition known_unit :: "string \<Rightarrow> bool" where
  "known_unit unitKey \<longleftrightarrow> parseOperationUnitKey unitKey \<noteq> None \<or> unitKey = DISABLED_KEY \<or> unitKey \<in> set POLICY_UNITS"

definition unknown_operation :: "DB \<Rightarrow> string \<Rightarrow> string \<Rightarrow> bool" where
  "unknown_operation db resource unitKey = (case parseOperationUnitKey unitKey of
       None \<Rightarrow> False
     | Some (oid, _) \<Rightarrow> (case operationIdsOf db resource of None \<Rightarrow> False | Some known \<Rightarrow> oid \<notin> known))"

definition moves_global :: "User \<Rightarrow> DB \<Rightarrow> string \<Rightarrow> document \<Rightarrow> document \<Rightarrow> bool" where
  "moves_global user db environment before after \<longleftrightarrow>
     \<not> usr_isAdmin user \<and> globalUnitChanges (inheritedUnits db environment) before after \<noteq> []"

definition policy_put ::
  "js_host \<Rightarrow> string list \<Rightarrow> User \<Rightarrow> string \<Rightarrow> string \<Rightarrow>
   string \<Rightarrow> jsval \<Rightarrow> string \<Rightarrow> DB \<Rightarrow> http_error + DB" where
  "policy_put host chain user resource environment unitKey v stamp db = (case getResource db resource of
       None \<Rightarrow> Inl NotFound
     | Some row \<Rightarrow>
         if \<not> can (Some user) (Some (res_application row)) then Inl Forbidden
         else if environment \<notin> set chain then Inl BadRequest
         else if \<not> known_unit unitKey then Inl BadRequest
         else if validateUnit host unitKey v \<noteq> [] then Inl BadRequest
         else if unknown_operation db resource unitKey then Inl BadRequest
         else (let before = effectiveDocument db resource environment; assembled = doc_set unitKey v before
               in if moves_global user db environment before assembled then Inl Forbidden
                  else if validateDocument host assembled (Some (res_kind row)) False \<noteq> [] then Inl BadRequest
                  else Inr (writeAudit (usr_id user) ''policy.set'' (''resource:'' @ resource) True
                         (upsert_unit resource environment unitKey v (usr_id user) stamp db))))"

definition policy_delete ::
  "js_host \<Rightarrow> string list \<Rightarrow> User \<Rightarrow> string \<Rightarrow> string \<Rightarrow> string \<Rightarrow> DB \<Rightarrow> http_error + DB" where
  "policy_delete host chain user resource environment unitKey db = (case getResource db resource of
       None \<Rightarrow> Inl NotFound
     | Some row \<Rightarrow>
         if \<not> can (Some user) (Some (res_application row)) then Inl Forbidden
         else if environment \<notin> set chain then Inl BadRequest
         else (let before = effectiveDocument db resource environment; remaining = mdelete unitKey before
               in if moves_global user db environment before remaining then Inl Forbidden
                  else if validateDocument host remaining (Some (res_kind row)) False \<noteq> [] then Inl Conflict
                  else Inr (writeAudit (usr_id user) ''policy.delete'' (''resource:'' @ resource) True
                         (delete_unit resource environment unitKey db))))"

text \<open>The copy of named units from another environment: a unit the source does not have is deleted here.\<close>

definition copied :: "document \<Rightarrow> string list \<Rightarrow> document \<Rightarrow> document" where
  "copied source units before = foldl (\<lambda>after u. case map_of source u of
       None \<Rightarrow> mdelete u after | Some v \<Rightarrow> doc_set u v after) before units"

definition copy_unit :: "document \<Rightarrow> string \<Rightarrow> string \<Rightarrow> string \<Rightarrow> string \<Rightarrow> DB \<Rightarrow> string \<Rightarrow> DB" where
  "copy_unit source resource environment actor stamp db u = (case map_of source u of
       None \<Rightarrow> delete_unit resource environment u db
     | Some v \<Rightarrow> upsert_unit resource environment u v actor stamp db)"

definition policy_copy_from ::
  "js_host \<Rightarrow> string list \<Rightarrow> User \<Rightarrow> string \<Rightarrow> string \<Rightarrow>
   string \<Rightarrow> string list \<Rightarrow> string \<Rightarrow> DB \<Rightarrow> http_error + DB" where
  "policy_copy_from host chain user resource from environment units stamp db = (case getResource db resource of
       None \<Rightarrow> Inl NotFound
     | Some row \<Rightarrow>
         if \<not> can (Some user) (Some (res_application row)) then Inl Forbidden
         else if from \<notin> set chain \<or> environment \<notin> set chain then Inl BadRequest
         else if from = environment then Inl BadRequest
         else if units = [] then Inl BadRequest
         else if \<not> list_all (\<lambda>u. u \<in> set POLICY_UNITS) units then Inl BadRequest
         else (let source = effectiveDocument db resource from; before = effectiveDocument db resource environment;
                   after = copied source units before
               in if moves_global user db environment before after then Inl Forbidden
                  else if validateDocument host after (Some (res_kind row)) False \<noteq> [] then Inl Conflict
                  else if list_ex (\<lambda>u. case map_of source u of None \<Rightarrow> False | Some v \<Rightarrow> validateUnit host u v \<noteq> []) units then Inl BadRequest
                  else Inr (writeAudit (usr_id user) ''policy.copyFrom'' (''resource:'' @ resource) True
                         (foldl (copy_unit source resource environment (usr_id user) stamp) db units))))"

section \<open>Definitions: the units of an environment\<close>

definition resourcesInEnvironment :: "DB \<Rightarrow> string \<Rightarrow> ResourceRow list" where
  "resourcesInEnvironment db environment = filter (\<lambda>r.
      map_of (db_route db) (res_id r, environment) \<noteq> None \<or>
      (\<exists>p\<in>set (db_policy db). pe_resource p = res_id r \<and> pe_env p = environment) \<or>
      (\<exists>l\<in>set (db_release db). rel_resource l = res_id r \<and> rel_env l = environment)) (db_resource db)"

definition conflictsFor ::
  "js_host \<Rightarrow> DB \<Rightarrow> string \<Rightarrow> document \<Rightarrow> (string \<times> string list) list" where
  "conflictsFor host db environment globals = filter (\<lambda>(_, errors). errors \<noteq> [])
     (map (\<lambda>r. (res_id r, validateDocument host (merge_units globals (resourceUnits db (res_id r) environment)) (Some (res_kind r)) False))
       (resourcesInEnvironment db environment))"

definition upsert_global :: "string \<Rightarrow> string \<Rightarrow> jsval \<Rightarrow> DB \<Rightarrow> DB" where
  "upsert_global environment unit v db =
     db\<lparr>db_global_policy :=
       (if \<exists>r\<in>set (db_global_policy db). fst r = environment \<and> fst (snd r) = unit
        then map (\<lambda>(e, u, w). if e = environment \<and> u = unit then (e, u, v) else (e, u, w)) (db_global_policy db)
        else db_global_policy db @ [(environment, unit, v)])\<rparr>"

text \<open>Whether a value names the portal's own credential in any field called \<^verbatim>\<open>\<dots>Ref\<close>.\<close>

fun namesPlatformRef :: "jsval \<Rightarrow> bool" where
  "namesPlatformRef (JArr vs) = list_ex namesPlatformRef vs"
| "namesPlatformRef (JObj kvs) = list_ex (\<lambda>(name, entry).
     (case entry of JStr s \<Rightarrow> drop (length name - 3) name = ''Ref'' \<and> starts_with ''platform:'' s | _ \<Rightarrow> namesPlatformRef entry)) kvs"
| "namesPlatformRef _ = False"

definition global_put ::
  "js_host \<Rightarrow> string list \<Rightarrow> User \<Rightarrow> string \<Rightarrow>
   string \<Rightarrow> jsval \<Rightarrow> DB \<Rightarrow> http_error + DB" where
  "global_put host chain user environment unitKey v db =
     (if \<not> usr_isAdmin user then Inl Forbidden
      else if environment \<notin> set chain then Inl BadRequest
      else if \<not> isGloballyAttachable unitKey then Inl BadRequest
      else if validateUnit host unitKey v \<noteq> [] then Inl BadRequest
      else if namesPlatformRef v then Inl Forbidden
      else if conflictsFor host db environment (mset_key unitKey v (globalUnits db environment)) \<noteq> [] then Inl Conflict
      else Inr (writeAudit (usr_id user) ''global-policy.set'' (''environment:'' @ environment) True
             (upsert_global environment unitKey v db)))"

definition global_delete ::
  "js_host \<Rightarrow> string list \<Rightarrow> User \<Rightarrow> string \<Rightarrow> string \<Rightarrow> DB \<Rightarrow> http_error + DB" where
  "global_delete host chain user environment unitKey db =
     (if \<not> usr_isAdmin user then Inl Forbidden
      else if environment \<notin> set chain then Inl BadRequest
      else if conflictsFor host db environment (filter (\<lambda>(u, _). u \<noteq> unitKey) (globalUnits db environment)) \<noteq> [] then Inl Conflict
      else Inr (writeAudit (usr_id user) ''global-policy.delete'' (''environment:'' @ environment) True
             (db\<lparr>db_global_policy := filter (\<lambda>(e, u, _). \<not> (e = environment \<and> u = unitKey)) (db_global_policy db)\<rparr>)))"

definition copy_changes :: "document \<Rightarrow> document \<Rightarrow> (string \<times> jsval) list" where
  "copy_changes source target = filter (\<lambda>(u, v). map_of target u \<noteq> Some v) source"

definition global_copy_from ::
  "js_host \<Rightarrow> string list \<Rightarrow> User \<Rightarrow> string \<Rightarrow> string \<Rightarrow> bool \<Rightarrow> DB \<Rightarrow> http_error + (bool \<times> DB)" where
  "global_copy_from host chain user source environment dryRun db =
     (if \<not> usr_isAdmin user then Inl Forbidden
      else if environment \<notin> set chain then Inl BadRequest
      else if source \<notin> set chain then Inl NotFound
      else if source = environment then Inl BadRequest
      else (let from = globalUnits db source; target = globalUnits db environment; changes = copy_changes from target;
                conflicts = conflictsFor host db environment (foldl (\<lambda>m (u, v). mset_key u v m) target from)
            in if dryRun \<and> conflicts = [] \<and> changes = [] then Inr (False, db)
               else if conflicts \<noteq> [] then Inl Conflict
               else if dryRun then Inr (False, db)
               else Inr (True, writeAudit (usr_id user) ''global-policy.copy-from'' (''environment:'' @ environment) True
                 (foldl (\<lambda>db (u, v). upsert_global environment u v db) db changes))))"

section \<open>What runs\<close>

definition running :: "DB \<Rightarrow> string \<Rightarrow> string \<Rightarrow> string \<Rightarrow> jsval option" where
  "running db resource environment unit = map_of (activeDocument (effectiveDocument db resource environment)) unit"

text \<open>The primary keys of the two tables, and that no row is for the name of the prototype.\<close>

definition policy_tables_ok :: "DB \<Rightarrow> bool" where
  "policy_tables_ok db \<longleftrightarrow>
     distinct (map (\<lambda>r. (pe_resource r, pe_env r, pe_unit r)) (db_policy db)) \<and>
     list_all (\<lambda>r. pe_unit r \<noteq> ''__proto__'') (db_policy db) \<and>
     distinct (map (\<lambda>(e, u, _). (e, u)) (db_global_policy db)) \<and>
     list_all (\<lambda>(_, u, _). u \<noteq> ''__proto__'') (db_global_policy db)"

lemma distinct_project:
  "distinct (map f xs) \<Longrightarrow> (\<And>x y. x \<in> set xs \<Longrightarrow> y \<in> set xs \<Longrightarrow> P x \<Longrightarrow> P y \<Longrightarrow> g x = g y \<Longrightarrow> f x = f y) \<Longrightarrow>
   distinct (map g (filter P xs))"
proof (induction xs)
  case (Cons x xs)
  have "g x \<notin> g ` set (filter P xs)" if "P x"
  proof
    assume "g x \<in> g ` set (filter P xs)"
    then obtain y where "y \<in> set xs" "P y" "g x = g y" by auto
    with Cons.prems that show False by (metis distinct.simps(2) image_eqI list.set_intros list.set_map list.simps(9))
  qed
  with Cons show ?case by simp
qed simp

lemma distinct_map_sort: "distinct (map g xs) \<Longrightarrow> distinct (map g (sort_key f xs))"
  by (simp add: distinct_map)

lemma resourceUnits_wf: "policy_tables_ok db \<Longrightarrow> wellformed_doc (resourceUnits db resource environment)"
  unfolding wellformed_doc_def
proof (intro conjI)
  assume ok: "policy_tables_ok db"
  let ?rows = "filter (\<lambda>r. pe_resource r = resource \<and> pe_env r = environment) (db_policy db)"
  have "distinct (map pe_unit ?rows)"
    using ok by (intro distinct_project [where f = "\<lambda>r. (pe_resource r, pe_env r, pe_unit r)"]) (auto simp: policy_tables_ok_def)
  then have "distinct (map pe_unit (sort_key pe_unit ?rows))"
    by (rule distinct_map_sort)
  then show "distinct (mkeys (resourceUnits db resource environment))"
    by (simp add: resourceUnits_def comp_def)
  show "''__proto__'' \<notin> set (mkeys (resourceUnits db resource environment))"
    using ok by (auto simp: policy_tables_ok_def resourceUnits_def list_all_iff)
qed

lemma globalUnits_wf: "policy_tables_ok db \<Longrightarrow> wellformed_doc (globalUnits db environment)"
  unfolding wellformed_doc_def
proof (intro conjI)
  assume ok: "policy_tables_ok db"
  let ?rows = "filter (\<lambda>(e, _, _). e = environment) (db_global_policy db)"
  have "distinct (map (\<lambda>(_, u, _). u) ?rows)"
    using ok by (intro distinct_project [where f = "\<lambda>(e, u, _). (e, u)"]) (auto simp: policy_tables_ok_def)
  then have "distinct (map (\<lambda>(_, u, _). u) (sort_key (\<lambda>(_, u, _). u) ?rows))"
    by (rule distinct_map_sort)
  then show "distinct (mkeys (globalUnits db environment))"
    by (simp add: globalUnits_def comp_def case_prod_unfold)
  show "''__proto__'' \<notin> set (mkeys (globalUnits db environment))"
    using ok by (auto simp: policy_tables_ok_def globalUnits_def list_all_iff)
qed

lemma map_of_resourceUnits:
  assumes "policy_tables_ok db"
  shows "map_of (resourceUnits db resource environment) u =
    map_option pe_value (find (entry_is resource environment u) (db_policy db))"
proof -
  have d: "distinct (map (\<lambda>r. (pe_resource r, pe_env r, pe_unit r)) (db_policy db))"
    using assms by (simp add: policy_tables_ok_def)
  show ?thesis
  proof (cases "find (entry_is resource environment u) (db_policy db)")
    case None
    then have "map_of (resourceUnits db resource environment) u = None"
      by (auto simp: find_None_iff entry_is_def resourceUnits_def map_of_eq_None_iff)
    with None show ?thesis by simp
  next
    case (Some r)
    then have r: "r \<in> set (db_policy db)" "entry_is resource environment u r" by (auto simp: find_Some_iff)
    then have "(u, pe_value r) \<in> set (resourceUnits db resource environment)"
      by (force simp: resourceUnits_def entry_is_def)
    with resourceUnits_wf [OF assms] have "map_of (resourceUnits db resource environment) u = Some (pe_value r)"
      by (simp add: wellformed_doc_def)
    with Some show ?thesis by simp
  qed
qed

text \<open>What the API's own tier holds for a unit, as the writes change it.\<close>

definition own_value :: "DB \<Rightarrow> string \<Rightarrow> string \<Rightarrow> string \<Rightarrow> jsval option" where
  "own_value db resource environment u = map_option pe_value (find (entry_is resource environment u) (db_policy db))"

lemma inheritedUnits_get: "policy_tables_ok db \<Longrightarrow> map_of (inheritedUnits db environment) u =
    (if isGloballyAttachable u then map_of (globalUnits db environment) u else None)"
  using get_filter_distinct [of "globalUnits db environment" "\<lambda>u _. isGloballyAttachable u" u] globalUnits_wf [of db environment]
  by (auto simp: inheritedUnits_def wellformed_doc_def split: option.splits)

lemma effectiveDocument_get:
  "policy_tables_ok db \<Longrightarrow> map_of (effectiveDocument db resource environment) u =
     (case own_value db resource environment u of Some v \<Rightarrow> Some v | None \<Rightarrow> map_of (inheritedUnits db environment) u)"
  by (simp add: effectiveDocument_def merge_units_get globalUnits_wf resourceUnits_wf map_of_resourceUnits own_value_def
      inheritedUnits_get split: option.splits)

lemma find_map_same_key:
  "(\<And>r. P (f r) = P r) \<Longrightarrow> find P (map f xs) = map_option f (find P xs)"
  by (induction xs) auto

lemma own_value_upsert: "own_value (upsert_unit r e u v actor stamp db) r' e' u' =
    (if r' = r \<and> e' = e \<and> u' = u then Some v else own_value db r' e' u')"
proof -
  let ?f = "\<lambda>x. if entry_is r e u x
    then x\<lparr>pe_value := v, pe_seeded := False, pe_updated_by := actor, pe_updated_at := stamp\<rparr> else x"
  have k: "entry_is a b c (?f x) = entry_is a b c x" for a b c x by (simp add: entry_is_def)
  show ?thesis
  proof (cases "\<exists>x\<in>set (db_policy db). entry_is r e u x")
    case True
    have f: "find (entry_is r' e' u') (map ?f (db_policy db)) = map_option ?f (find (entry_is r' e' u') (db_policy db))"
      by (rule find_map_same_key) (rule k)
    from True have nn: "find (entry_is r e u) (db_policy db) \<noteq> None" by (auto simp: find_None_iff)
    have e: "entry_is r' e' u' x" if "find (entry_is r' e' u') (db_policy db) = Some x" for x
      using that by (auto simp: find_Some_iff)
    show ?thesis
      using nn e unfolding own_value_def upsert_unit_def
      by (cases "find (entry_is r' e' u') (db_policy db)") (use True f in \<open>auto simp: entry_is_def\<close>)
  next
    case False
    then have n: "find (entry_is r e u) (db_policy db) = None" by (simp add: find_None_iff)
    have a: "find P (xs @ [x]) = (case find P xs of Some y \<Rightarrow> Some y | None \<Rightarrow> if P x then Some x else None)"
      for P and xs and x :: PolicyEntryRow
      by (induction xs) auto
    from False have up: "db_policy (upsert_unit r e u v actor stamp db) = db_policy db @
       [\<lparr>pe_resource = r, pe_env = e, pe_unit = u, pe_value = v, pe_seeded = False,
               pe_seeded_from = None, pe_seeded_at = None, pe_updated_by = actor, pe_updated_at = stamp\<rparr>]"
      by (simp add: upsert_unit_def)
    show ?thesis
      unfolding own_value_def up a using n
      by (auto simp: entry_is_def split: option.splits)
  qed
qed

lemma find_filter_None: "(\<And>x. P x \<Longrightarrow> \<not> Q x) \<Longrightarrow> find P (filter Q xs) = None"
  by (induction xs) auto

lemma find_filter_same: "(\<And>x. P x \<Longrightarrow> Q x) \<Longrightarrow> find P (filter Q xs) = find P xs"
  by (induction xs) auto

lemma own_value_delete: "own_value (delete_unit r e u db) r' e' u' =
    (if r' = r \<and> e' = e \<and> u' = u then None else own_value db r' e' u')"
proof (cases "r' = r \<and> e' = e \<and> u' = u")
  case True
  then show ?thesis by (simp add: own_value_def delete_unit_def find_filter_None)
next
  case False
  then have "find (entry_is r' e' u') (filter (\<lambda>x. \<not> entry_is r e u x) (db_policy db)) = find (entry_is r' e' u') (db_policy db)"
    by (intro find_filter_same) (auto simp: entry_is_def)
  with False show ?thesis by (auto simp: own_value_def delete_unit_def)
qed

lemma upsert_unit_ok: "policy_tables_ok db \<Longrightarrow> u \<noteq> ''__proto__'' \<Longrightarrow> policy_tables_ok (upsert_unit r e u v actor stamp db)"
proof -
  assume ok: "policy_tables_ok db" and u: "u \<noteq> ''__proto__''"
  let ?f = "\<lambda>x. if entry_is r e u x
    then x\<lparr>pe_value := v, pe_seeded := False, pe_updated_by := actor, pe_updated_at := stamp\<rparr> else x"
  let ?k = "\<lambda>r. (pe_resource r, pe_env r, pe_unit r)"
  have "map ?k (map ?f (db_policy db)) = map ?k (db_policy db)" by simp
  with ok u show ?thesis
    unfolding policy_tables_ok_def upsert_unit_def
    by (auto simp: entry_is_def list_all_iff simp del: map_map)
qed

lemma delete_unit_ok: "policy_tables_ok db \<Longrightarrow> policy_tables_ok (delete_unit r e u db)"
  by (auto simp: policy_tables_ok_def delete_unit_def list_all_iff distinct_map intro: inj_on_subset)

lemma globalUnits_unit_writes [simp]:
  "globalUnits (upsert_unit r e u v actor stamp db) environment = globalUnits db environment"
  "globalUnits (delete_unit r e u db) environment = globalUnits db environment"
  "inheritedUnits (upsert_unit r e u v actor stamp db) environment = inheritedUnits db environment"
  "inheritedUnits (delete_unit r e u db) environment = inheritedUnits db environment"
  by (simp_all add: globalUnits_def inheritedUnits_def upsert_unit_def delete_unit_def)

section \<open>An owner's write leaves the global tier alone\<close>

lemma disabled_not_policy_unit: "DISABLED_KEY \<notin> set POLICY_UNITS" "''__proto__'' \<notin> set POLICY_UNITS"
  by (simp_all add: POLICY_UNITS_def DISABLED_KEY_def)

lemma known_unit_not_proto: "known_unit u \<Longrightarrow> u \<noteq> ''__proto__''"
  by (auto simp: known_unit_def parseOperationUnitKey_def starts_with_def op_key_open_def DISABLED_KEY_def
      dest: disabled_not_policy_unit(2) [THEN notE])

text \<open>
  The check compares the documents before and after; the document that runs afterwards is the one
  after with the environment's value wherever the write left the API none of its own.
\<close>

lemma unchanged_globals_running:
  assumes fall: "\<And>k. map_of eff k = (case map_of after k of Some v \<Rightarrow> Some v | None \<Rightarrow> map_of wide k)"
    and before: "\<And>k. map_of wide k \<noteq> None \<Longrightarrow> map_of before k \<noteq> None"
    and same: "globalUnitChanges wide before after = []"
    and u: "map_of wide u \<noteq> None" "u \<noteq> DISABLED_KEY"
    and stays: "map_of after DISABLED_KEY = map_of before DISABLED_KEY \<or> map_of after u \<noteq> None"
  shows "map_of (activeDocument eff) u = map_of (activeDocument before) u"
proof -
  have v: "map_of eff k = map_of before k" if "map_of wide k \<noteq> None" for k
  proof -
    from that same have "snd (snd (globalUnitState wide before k)) = snd (snd (globalUnitState wide after k))"
      by (metis globalUnitChanges_Nil get_None_iff)
    with that before [of k] fall [of k] show ?thesis
      by (auto simp: globalUnitState_def Let_def split: option.splits if_splits)
  qed
  from u same have "fst (snd (globalUnitState wide before u)) = fst (snd (globalUnitState wide after u))"
    by (metis globalUnitChanges_Nil get_None_iff)
  then have off: "u \<in> set (disabledUnits after) \<longleftrightarrow> u \<in> set (disabledUnits before)"
    using u(2) by (simp add: globalUnitState_def Let_def)
  have "u \<in> set (disabledUnits eff) \<longleftrightarrow> u \<in> set (disabledUnits before)"
  proof (cases "map_of wide DISABLED_KEY")
    case (Some d)
    then show ?thesis using v [of DISABLED_KEY] v [OF u(1)] by (simp add: disabledUnits_mem)
  next
    case None
    with fall [of DISABLED_KEY] have "map_of eff DISABLED_KEY = map_of after DISABLED_KEY"
      by (simp split: option.splits)
    with stays off v [OF u(1)] before [OF u(1)] show ?thesis by (auto simp: disabledUnits_mem)
  qed
  with v [OF u(1)] u(2) show ?thesis by (simp add: activeDocument_get)
qed

lemma map_of_copied: "list_all (\<lambda>u. u \<in> set POLICY_UNITS) units \<Longrightarrow>
    map_of (copied source units before) k = (if k \<in> set units then map_of source k else map_of before k)"
  unfolding copied_def
  by (induction units arbitrary: before)
    (auto simp: doc_set_get get_delete disabled_not_policy_unit split: option.splits)

lemma copy_units_own:
  "own_value (foldl (copy_unit source r e actor stamp) db units) r e k =
     (if k \<in> set units then map_of source k else own_value db r e k)"
  by (induction units arbitrary: db) (auto simp: copy_unit_def own_value_upsert own_value_delete split: option.splits)

lemma copy_units_ok:
  "policy_tables_ok db \<Longrightarrow> ''__proto__'' \<notin> set units \<Longrightarrow> policy_tables_ok (foldl (copy_unit source r e actor stamp) db units)"
  by (induction units arbitrary: db) (auto simp: copy_unit_def upsert_unit_ok delete_unit_ok split: option.splits)

lemma copy_units_inherited:
  "inheritedUnits (foldl (copy_unit source r e actor stamp) db units) environment = inheritedUnits db environment"
  by (induction units arbitrary: db) (auto simp: copy_unit_def split: option.splits)

lemma effectiveDocument_audit [simp]:
  "effectiveDocument (writeAudit a b c d db) r e = effectiveDocument db r e"
  by (simp add: effectiveDocument_def globalUnits_def resourceUnits_def writeAudit_def)

lemma effective_present: "policy_tables_ok db \<Longrightarrow> map_of (inheritedUnits db e) k \<noteq> None \<Longrightarrow>
    map_of (effectiveDocument db r e) k \<noteq> None"
  by (simp add: effectiveDocument_get split: option.splits)

lemma policy_put_keeps:
  assumes "policy_tables_ok db" "\<not> usr_isAdmin user" "map_of (inheritedUnits db e) u \<noteq> None" "u \<noteq> DISABLED_KEY"
    and "policy_put host chain user r e k v stamp db = Inr db'"
  shows "running db' r e u = running db r e u"
proof -
  from assms(5) have k: "known_unit k" and same: "\<not> moves_global user db e (effectiveDocument db r e) (doc_set k v (effectiveDocument db r e))"
    and db': "effectiveDocument db' r e = effectiveDocument (upsert_unit r e k v (usr_id user) stamp db) r e"
    by (auto simp: policy_put_def Let_def split: option.splits if_splits)
  show ?thesis
    unfolding running_def db'
  proof (rule unchanged_globals_running [where wide = "inheritedUnits db e" and after = "doc_set k v (effectiveDocument db r e)"])
    show "map_of (effectiveDocument (upsert_unit r e k v (usr_id user) stamp db) r e) j =
       (case map_of (doc_set k v (effectiveDocument db r e)) j of Some w \<Rightarrow> Some w | None \<Rightarrow> map_of (inheritedUnits db e) j)" for j
      using assms(1) known_unit_not_proto [OF k]
      by (auto simp: effectiveDocument_get upsert_unit_ok own_value_upsert doc_set_get split: option.splits)
    show "map_of (doc_set k v (effectiveDocument db r e)) DISABLED_KEY = map_of (effectiveDocument db r e) DISABLED_KEY \<or>
        map_of (doc_set k v (effectiveDocument db r e)) u \<noteq> None"
      using effective_present [OF assms(1,3)] by (simp add: doc_set_get)
  qed (use assms same effective_present in \<open>auto simp: moves_global_def\<close>)
qed

lemma policy_delete_keeps:
  assumes "policy_tables_ok db" "\<not> usr_isAdmin user" "map_of (inheritedUnits db e) u \<noteq> None" "u \<noteq> DISABLED_KEY"
    and "policy_delete host chain user r e k db = Inr db'"
  shows "running db' r e u = running db r e u"
proof -
  from assms(5) have same: "\<not> moves_global user db e (effectiveDocument db r e) (mdelete k (effectiveDocument db r e))"
    and db': "effectiveDocument db' r e = effectiveDocument (delete_unit r e k db) r e"
    by (auto simp: policy_delete_def Let_def split: option.splits if_splits)
  show ?thesis
    unfolding running_def db'
  proof (rule unchanged_globals_running [where wide = "inheritedUnits db e" and after = "mdelete k (effectiveDocument db r e)"])
    show "map_of (effectiveDocument (delete_unit r e k db) r e) j =
       (case map_of (mdelete k (effectiveDocument db r e)) j of Some w \<Rightarrow> Some w | None \<Rightarrow> map_of (inheritedUnits db e) j)" for j
      using assms(1) by (auto simp: effectiveDocument_get delete_unit_ok own_value_delete get_delete split: option.splits)
    show "map_of (mdelete k (effectiveDocument db r e)) DISABLED_KEY = map_of (effectiveDocument db r e) DISABLED_KEY \<or>
        map_of (mdelete k (effectiveDocument db r e)) u \<noteq> None"
      using effective_present [OF assms(1,3)] assms(4) by (simp add: get_delete)
  qed (use assms same effective_present in \<open>auto simp: moves_global_def\<close>)
qed

lemma policy_copy_keeps:
  assumes "policy_tables_ok db" "\<not> usr_isAdmin user" "map_of (inheritedUnits db e) u \<noteq> None" "u \<noteq> DISABLED_KEY"
    and "policy_copy_from host chain user r src e units stamp db = Inr db'"
  shows "running db' r e u = running db r e u"
proof -
  let ?source = "effectiveDocument db r src"
  from assms(5) have units: "list_all (\<lambda>u. u \<in> set POLICY_UNITS) units"
    and same: "\<not> moves_global user db e (effectiveDocument db r e) (copied ?source units (effectiveDocument db r e))"
    and db': "effectiveDocument db' r e = effectiveDocument (foldl (copy_unit ?source r e (usr_id user) stamp) db units) r e"
    by (auto simp: policy_copy_from_def Let_def split: option.splits if_splits)
  have np: "''__proto__'' \<notin> set units" "DISABLED_KEY \<notin> set units"
    using units disabled_not_policy_unit by (auto simp: list_all_iff)
  show ?thesis
    unfolding running_def db'
  proof (rule unchanged_globals_running [where wide = "inheritedUnits db e" and after = "copied ?source units (effectiveDocument db r e)"])
    show "map_of (effectiveDocument (foldl (copy_unit ?source r e (usr_id user) stamp) db units) r e) j =
       (case map_of (copied ?source units (effectiveDocument db r e)) j of Some w \<Rightarrow> Some w | None \<Rightarrow> map_of (inheritedUnits db e) j)" for j
      using assms(1) np
      by (auto simp: effectiveDocument_get copy_units_ok copy_units_own copy_units_inherited map_of_copied [OF units] split: option.splits)
    show "map_of (copied ?source units (effectiveDocument db r e)) DISABLED_KEY = map_of (effectiveDocument db r e) DISABLED_KEY \<or>
        map_of (copied ?source units (effectiveDocument db r e)) u \<noteq> None"
      using np by (simp add: map_of_copied [OF units])
  qed (use assms same effective_present in \<open>auto simp: moves_global_def\<close>)
qed

section \<open>The document that runs is the one that was checked\<close>

lemma set_map_of: "distinct (mkeys d) \<Longrightarrow> (k, v) \<in> set d \<longleftrightarrow> map_of d k = Some v"
  by (metis map_of_eq_Some_iff)

lemma mkeys_dom: "set (mkeys d) = dom (map_of d)"
  by (simp add: dom_map_of_conv_image_fst)

lemma activeDocument_cong: "map_of d = map_of d' \<Longrightarrow> map_of (activeDocument d) = map_of (activeDocument d')"
  by (rule ext) (auto simp: activeDocument_get disabledUnits_mem)

lemma scoped_count_errors_Nil:
  "scoped_count_errors d = [] \<longleftrightarrow> (\<forall>k. map_of d k \<noteq> None \<longrightarrow> (case parseOperationUnitKey k of None \<Rightarrow> []
     | Some (_, unit) \<Rightarrow> err ((unit = ''rateLimit'' \<or> unit = ''quota'') \<and> map_of d ''auth.subscriptionKey'' = None) k) = [])"
proof -
  have "concat (map f ks) = [] \<longleftrightarrow> (\<forall>k\<in>set ks. f k = [])" for f :: "string \<Rightarrow> string list" and ks by auto
  from this [where ks = "mkeys d"] show ?thesis unfolding scoped_count_errors_def mkeys_dom dom_def by simp
qed

text \<open>Whether a document is accepted depends only on its lookups, not on the order of its units.\<close>

lemma validateDocument_cong:
  assumes "map_of d = map_of d'" "distinct (mkeys d)" "distinct (mkeys d')"
  shows "validateDocument host d kind global = [] \<longleftrightarrow> validateDocument host d' kind global = []"
proof -
  have u: "concat (map (\<lambda>(key, v). validateUnit host key v) e) = [] \<longleftrightarrow> (\<forall>k v. map_of e k = Some v \<longrightarrow> validateUnit host k v = [])"
    if "distinct (mkeys e)" for e
  proof -
    have "concat (map (\<lambda>(key, v). validateUnit host key v) e) = [] \<longleftrightarrow> (\<forall>k v. (k, v) \<in> set e \<longrightarrow> validateUnit host k v = [])"
      by auto
    with set_map_of [OF that] show ?thesis by simp
  qed
  have a: "map_of (activeDocument d) = map_of (activeDocument d')" by (rule activeDocument_cong [OF assms(1)])
  have "count_errors (activeDocument d) = count_errors (activeDocument d')"
    "kind_errors (activeDocument d) kind = kind_errors (activeDocument d') kind"
    "passthrough_errors (activeDocument d) = passthrough_errors (activeDocument d')"
    "transform_kind_errors (activeDocument d) kind = transform_kind_errors (activeDocument d') kind"
    "kafka_errors (activeDocument d) kind = kafka_errors (activeDocument d') kind"
    unfolding count_errors_def kind_errors_def passthrough_errors_def transform_kind_errors_def kafka_errors_def
      unit_member_def transform_set_def validation_on_def a by (rule refl)+
  moreover have "scoped_count_errors (activeDocument d) = [] \<longleftrightarrow> scoped_count_errors (activeDocument d') = []"
    unfolding scoped_count_errors_Nil a ..
  ultimately show ?thesis
    using u [OF assms(2)] u [OF assms(3)] assms(1) by (simp add: validateDocument_def Let_def)
qed

lemma foldl_doc_set_distinct:
  "distinct (mkeys d) \<Longrightarrow> distinct (mkeys (foldl (\<lambda>doc (u, v). if P u then doc_set u v doc else doc) d es))"
  by (induction es arbitrary: d) (auto simp: doc_set_def distinct_set)

lemma effective_distinct: "distinct (mkeys (effectiveDocument db r e))"
  using foldl_doc_set_distinct [where P = "\<lambda>_. True"] foldl_doc_set_distinct [where P = isGloballyAttachable and d = "[]"]
  by (simp add: effectiveDocument_def merge_units_def)

lemma policy_put_effective:
  assumes "policy_tables_ok db" "policy_put host chain user r e k v stamp db = Inr db'"
  shows "map_of (effectiveDocument db' r e) = map_of (doc_set k v (effectiveDocument db r e))"
proof
  fix j
  from assms(2) have k: "known_unit k"
    and db': "effectiveDocument db' r e = effectiveDocument (upsert_unit r e k v (usr_id user) stamp db) r e"
    by (auto simp: policy_put_def Let_def split: option.splits if_splits)
  show "map_of (effectiveDocument db' r e) j = map_of (doc_set k v (effectiveDocument db r e)) j"
    using assms(1) known_unit_not_proto [OF k] unfolding db'
    by (auto simp: effectiveDocument_get upsert_unit_ok own_value_upsert doc_set_get split: option.splits)
qed

section \<open>Properties\<close>

definition owner :: User where
  "owner = \<lparr>usr_id = ''ada'', usr_isAdmin = False, usr_applications = [''orders'']\<rparr>"

definition admin :: User where
  "admin = \<lparr>usr_id = ''root'', usr_isAdmin = True, usr_applications = []\<rparr>"

definition policy_example :: DB where
  "policy_example = empty_db\<lparr>
     db_resource := [\<lparr>res_id = ''r1'', res_name = ''orders'', res_api_version = ''1'', res_kind = Rest, res_application = ''orders'',
       res_lifecycle = Active, res_sunset_at = None, res_listed = True, res_domain = None, res_subdomain = None,
       res_kafka_topic = None, res_platform_role = None, res_updated_at = ''2026-01-01T00:00:00.000Z''\<rparr>],
     db_global_policy := [(''prod'', ''timeoutMs'', JNum 500)]\<rparr>"

definition concurrency_example :: jsval where
  "concurrency_example = JObj [(''maxInFlight'', JNum 5), (''per'', JStr ''instance'')]"



text \<open>Switching a unit off ahead of time: an owner's \<^verbatim>\<open>disabled\<close> list may name a unit nobody has attached yet,
  because the check only compares the units the environment already attaches. When an administrator then
  attaches that unit to the whole environment, the write succeeds, the API inherits the unit, and it does not
  run there.\<close>

lemma global_unit_pre_disabled:
  "case policy_put sample_host [''prod''] owner ''r1'' ''prod'' ''disabled'' (JArr [JStr ''ipAllow'']) ''t'' policy_example of
      Inl _ \<Rightarrow> False
    | Inr db1 \<Rightarrow> (case global_put sample_host [''prod''] admin ''prod'' ''ipAllow'' (JArr [JStr ''10.0.0.0/8'']) db1 of
        Inl _ \<Rightarrow> False
      | Inr db2 \<Rightarrow> map_of (effectiveDocument db2 ''r1'' ''prod'') ''ipAllow'' = Some (JArr [JStr ''10.0.0.0/8'']) \<and>
          running db2 ''r1'' ''prod'' ''ipAllow'' = None)"
  by code_simp

text \<open>A unit key scoped to an operation is read back as the operation and the unit it was built from, and a
  key that names one is never attachable to a whole environment.\<close>

lemma operation_unit_key_roundtrip:
  assumes "list_all op_id_char oid" "1 \<le> length oid" "length oid \<le> 120" "unit \<noteq> []" "no_newline unit"
  shows "parseOperationUnitKey (operationUnitKey oid unit) = Some (oid, unit) \<and>
    \<not> isGloballyAttachable (operationUnitKey oid unit)"
  by (simp add: parse_operation_unit_key [OF assms] isGloballyAttachable_def)

lemma operation_unit_key_roundtrip_example:
  "parseOperationUnitKey (operationUnitKey ''getOrder'' ''rateLimit'') = Some (''getOrder'', ''rateLimit'') \<and>
    \<not> isGloballyAttachable (operationUnitKey ''getOrder'' ''rateLimit'')"
  by (rule operation_unit_key_roundtrip) (code_simp | simp)+



definition detach_example :: DB where
  "detach_example = policy_example\<lparr>
     db_global_policy := [(''prod'', ''validate'', JObj [(''request'', JStr ''blocking'')])],
     db_policy := [\<lparr>pe_resource = ''r1'', pe_env = ''prod'', pe_unit = ''passthrough'', pe_value = JObj [(''websocket'', JBool True)],
         pe_seeded = False, pe_seeded_from = None, pe_seeded_at = None, pe_updated_by = ''ada'', pe_updated_at = ''t''\<rparr>,
       \<lparr>pe_resource = ''r1'', pe_env = ''prod'', pe_unit = ''validate'',
         pe_value = JObj [(''request'', JStr ''disabled''), (''downgradeReason'', JStr ''streams only'')],
         pe_seeded = False, pe_seeded_from = None, pe_seeded_at = None, pe_updated_by = ''root'', pe_updated_at = ''t''\<rparr>]\<rparr>"

text \<open>A detachment is checked against a document that never runs: the unit is removed from the merged document, but
  what the API falls back to is the environment's value. An administrator who detaches an API's own \<^verbatim>\<open>validate\<close>
  exception is accepted, and the document the API then runs is one the same check refuses (blocking request
  validation on a websocket route).\<close>

lemma detach_lands_on_invalid_document:
  "validateDocument sample_host (effectiveDocument detach_example ''r1'' ''prod'') (Some Rest) False = [] \<and>
   (case policy_delete sample_host [''prod''] admin ''r1'' ''prod'' ''validate'' detach_example of
      Inl _ \<Rightarrow> False
    | Inr db' \<Rightarrow> validateDocument sample_host (effectiveDocument db' ''r1'' ''prod'') (Some Rest) False = [''passthrough.websocket''])"
  by code_simp

end
