(* ===== verification/Promotion.thy ===== *)
theory Promotion
  imports PolicyWrites
begin

declare map_of_eq_Some_iff [simp del] Some_eq_map_of_iff [simp del]

text \<open>
  Promotion (\<^verbatim>\<open>control-plane/src/promotion.ts\<close>): the gate of the chain, the plan a release is confirmed against, the
  per-unit merge it seeds and the divergence report. A blocker is its code, a warning the one it is. The lemmas show
  that the merge only fills gaps, that replaying it changes nothing, and what the gate guarantees; the last
  theorem shows a promotion the plan refuses although the document it would run is valid.
\<close>

section \<open>Definitions: the chain\<close>

fun index_of :: "'a \<Rightarrow> 'a list \<Rightarrow> nat option" where
  "index_of x [] = None"
| "index_of x (y # ys) = (if y = x then Some 0 else map_option Suc (index_of x ys))"

definition predecessorOf :: "string list \<Rightarrow> string \<Rightarrow> string option" where
  "predecessorOf chain environment = (case index_of environment chain of None \<Rightarrow> None | Some 0 \<Rightarrow> None | Some (Suc i) \<Rightarrow> Some (chain ! i))"

definition reachedFleet :: "DB \<Rightarrow> string \<Rightarrow> string \<Rightarrow> bool" where
  "reachedFleet db revision environment \<longleftrightarrow>
     0 < length (filter (\<lambda>r. rel_revision r = revision \<and> rel_env r = environment \<and> reached (rel_state r)) (db_release db))"

definition furthestPoint :: "DB \<Rightarrow> string \<Rightarrow> string list \<Rightarrow> string option" where
  "furthestPoint db revision chain = foldl (\<lambda>furthest e. if reachedFleet db revision e then Some e else furthest) None chain"

definition unitsIn :: "DB \<Rightarrow> string \<Rightarrow> string \<Rightarrow> document" where
  "unitsIn db resource environment = map (\<lambda>r. (pe_unit r, pe_value r))
     (sort_key pe_unit (filter (\<lambda>r. pe_resource r = resource \<and> pe_env r = environment) (db_policy db)))"

section \<open>Definitions: the plan\<close>

record PlanInput =
  pin_resource :: ResourceRow
  pin_revision :: string
  pin_rev :: nat
  pin_environment :: string
  pin_skipChain :: bool

definition plan_create_units :: "document \<Rightarrow> document \<Rightarrow> string option \<Rightarrow> PolicyPlanEntry list" where
  "plan_create_units source target from = map (\<lambda>(u, v). \<lparr>ppe_unit = u, ppe_value = v, ppe_from = from\<rparr>)
     (filter (\<lambda>(u, _). map_of target u = None) source)"

definition plan_keep_units :: "document \<Rightarrow> document \<Rightarrow> PolicyPlanEntry list" where
  "plan_keep_units source target = map (\<lambda>(u, _). \<lparr>ppe_unit = u, ppe_value = the (map_of target u), ppe_from = None\<rparr>)
     (filter (\<lambda>(u, _). map_of target u \<noteq> None) source)"

definition plan_local_units :: "document \<Rightarrow> document \<Rightarrow> PolicyPlanEntry list" where
  "plan_local_units source target = map (\<lambda>(u, v). \<lparr>ppe_unit = u, ppe_value = v, ppe_from = None\<rparr>)
     (filter (\<lambda>(u, _). map_of source u = None) target)"

text \<open>\<^verbatim>\<open>Object.fromEntries\<close> and the assignments over it.\<close>

definition plan_merged :: "document \<Rightarrow> PolicyPlanEntry list \<Rightarrow> document" where
  "plan_merged target create = foldl (\<lambda>m e. doc_set (ppe_unit e) (ppe_value e) m) target create"

definition live_rev :: "DB \<Rightarrow> string \<Rightarrow> string \<Rightarrow> nat option" where
  "live_rev db resource environment =
     (case find (\<lambda>rel. rel_resource rel = resource \<and> rel_env rel = environment \<and> rel_state rel = Converged \<and>
         (\<exists>v\<in>set (db_revision db). rev_id v = rel_revision rel)) (db_release db) of
        None \<Rightarrow> None | Some rel \<Rightarrow> map_option rev_rev (find (\<lambda>v. rev_id v = rel_revision rel) (db_revision db)))"

definition plan_blockers_of :: "js_host \<Rightarrow> string list \<Rightarrow> DB \<Rightarrow> PlanInput \<Rightarrow> document \<Rightarrow> blocker_code list" where
  "plan_blockers_of host chain db input merged =
     (let to = pin_environment input; from = predecessorOf chain to; rid = res_id (pin_resource input) in
      (if map_of (db_route db) (rid, to) = None then [NoRoute] else []) @
      (if map_of (db_binding db) (rid, to) = None then [NoBinding] else []) @
      (if \<not> list_ex (\<lambda>t. tgt_env t = to) (db_target db) then [NoTarget] else []) @
      (case from of None \<Rightarrow> []
       | Some f \<Rightarrow> if \<not> pin_skipChain input \<and> \<not> reachedFleet db (pin_revision input) f then [ChainBlocked] else []) @
      (if validateDocument host merged (Some (res_kind (pin_resource input))) False \<noteq> [] then [InvalidMerge] else []))"

definition computePlan :: "js_host \<Rightarrow> string list \<Rightarrow> DB \<Rightarrow> PlanInput \<Rightarrow> ReleasePlan" where
  "computePlan host chain db input =
     (let r = pin_resource input; to = pin_environment input; from = predecessorOf chain to;
          targetUnits = unitsIn db (res_id r) to;
          sourceUnits = (case from of Some f \<Rightarrow> unitsIn db (res_id r) f | None \<Rightarrow> []);
          create = plan_create_units sourceUnits targetUnits from;
          merged = plan_merged targetUnits create;
          isRollback = (case live_rev db (res_id r) to of Some n \<Rightarrow> pin_rev input < n | None \<Rightarrow> False)
      in \<lparr>plan_resourceId = res_id r, plan_resourceName = res_name r, plan_apiVersion = res_api_version r,
          plan_revisionId = pin_revision input, plan_rev = pin_rev input, plan_from = from, plan_to = to, plan_isRollback = isRollback,
          plan_skipChain = pin_skipChain input, plan_blockers = plan_blockers_of host chain db input merged,
          plan_create = create, plan_keep = plan_keep_units sourceUnits targetUnits, plan_localOnly = plan_local_units sourceUnits targetUnits,
          plan_openRoute = (map_of merged ''auth.subscriptionKey'' = None),
          plan_rollbackSeeds = (isRollback \<and> create \<noteq> [] \<and> from \<noteq> None)\<rparr>)"

text \<open>The content a plan's digest is taken of; the digest itself is an argument.\<close>

definition plan_content ::
  "ReleasePlan \<Rightarrow> string \<times> string \<times> string option \<times> string \<times> (string \<times> jsval) list \<times> (string \<times> jsval) list \<times> string list \<times> blocker_code list" where
  "plan_content plan = (plan_resourceId plan, plan_revisionId plan, plan_from plan, plan_to plan,
     map (\<lambda>e. (ppe_unit e, ppe_value e)) (plan_create plan), map (\<lambda>e. (ppe_unit e, ppe_value e)) (plan_keep plan),
     map ppe_unit (plan_localOnly plan), plan_blockers plan)"

definition planDigest :: "(_ \<Rightarrow> string) \<Rightarrow> ReleasePlan \<Rightarrow> string" where
  "planDigest digest plan = digest (plan_content plan)"

text \<open>\<^verbatim>\<open>INSERT \<dots> ON CONFLICT DO NOTHING\<close>\<close>

definition seed_unit :: "ReleasePlan \<Rightarrow> string \<Rightarrow> string \<Rightarrow> DB \<Rightarrow> PolicyPlanEntry \<Rightarrow> DB" where
  "seed_unit plan actor stamp db entry =
     (if \<exists>r\<in>set (db_policy db). entry_is (plan_resourceId plan) (plan_to plan) (ppe_unit entry) r then db
      else db\<lparr>db_policy := db_policy db @ [\<lparr>pe_resource = plan_resourceId plan, pe_env = plan_to plan, pe_unit = ppe_unit entry,
             pe_value = ppe_value entry, pe_seeded = True, pe_seeded_from = ppe_from entry, pe_seeded_at = Some stamp,
             pe_updated_by = actor, pe_updated_at = stamp\<rparr>]\<rparr>)"

definition applySeededUnits :: "ReleasePlan \<Rightarrow> string \<Rightarrow> string \<Rightarrow> DB \<Rightarrow> DB" where
  "applySeededUnits plan actor stamp db = foldl (seed_unit plan actor stamp) db (plan_create plan)"

section \<open>Definitions: divergence\<close>

datatype DivergenceCategory = DivPending | LocalAddition | ValueDrift | Aligned

record DivergenceUnit =
  div_unit :: string
  div_category :: DivergenceCategory
  div_here :: "jsval option"
  div_there :: "jsval option"
  div_warning :: bool

text \<open>The digests compared are of canonical JSON; the model compares the values.\<close>

definition divergence_unit :: "document \<Rightarrow> document \<Rightarrow> string \<Rightarrow> DivergenceUnit" where
  "divergence_unit here there u = (case (map_of here u, map_of there u) of
       (None, t) \<Rightarrow> \<lparr>div_unit = u, div_category = DivPending, div_here = None, div_there = t, div_warning = starts_with ''auth.'' u\<rparr>
     | (Some h, None) \<Rightarrow> \<lparr>div_unit = u, div_category = LocalAddition, div_here = Some h, div_there = None, div_warning = False\<rparr>
     | (Some h, Some t) \<Rightarrow> if h \<noteq> t
         then \<lparr>div_unit = u, div_category = ValueDrift, div_here = Some h, div_there = Some t, div_warning = False\<rparr>
         else \<lparr>div_unit = u, div_category = Aligned, div_here = Some h, div_there = None, div_warning = False\<rparr>)"

definition divergence :: "string list \<Rightarrow> DB \<Rightarrow> string \<Rightarrow> (string \<times> string option \<times> DivergenceUnit list) list" where
  "divergence chain db resource = map (\<lambda>environment.
     let predecessor = predecessorOf chain environment; here = unitsIn db resource environment;
         there = (case predecessor of Some p \<Rightarrow> unitsIn db resource p | None \<Rightarrow> [])
     in (environment, predecessor, map (divergence_unit here there) (sort (remdups (mkeys here @ mkeys there))))) chain"

section \<open>Lemmas\<close>

lemma unitsIn_resourceUnits: "unitsIn = resourceUnits"
  by (intro ext) (simp add: unitsIn_def resourceUnits_def)

lemma unitsIn_get: "policy_tables_ok db \<Longrightarrow> map_of (unitsIn db r e) u = own_value db r e u"
  by (simp add: unitsIn_resourceUnits map_of_resourceUnits own_value_def)

lemma own_value_None: "own_value db r e u = None \<longleftrightarrow> \<not> (\<exists>x\<in>set (db_policy db). entry_is r e u x)"
  by (auto simp: own_value_def find_None_iff)

lemma find_snoc: "find P (xs @ [x]) = (case find P xs of Some y \<Rightarrow> Some y | None \<Rightarrow> if P x then Some x else None)"
  by (induction xs) auto

lemma own_value_seed: "own_value (seed_unit plan actor stamp db entry) r e u =
    (if r = plan_resourceId plan \<and> e = plan_to plan \<and> u = ppe_unit entry \<and> own_value db r e u = None
     then Some (ppe_value entry) else own_value db r e u)"
proof (cases "\<exists>x\<in>set (db_policy db). entry_is (plan_resourceId plan) (plan_to plan) (ppe_unit entry) x")
  case True
  then show ?thesis by (auto simp: seed_unit_def own_value_None)
next
  case False
  then have new: "db_policy (seed_unit plan actor stamp db entry) = db_policy db @ [\<lparr>pe_resource = plan_resourceId plan, pe_env = plan_to plan,
      pe_unit = ppe_unit entry, pe_value = ppe_value entry, pe_seeded = True, pe_seeded_from = ppe_from entry, pe_seeded_at = Some stamp,
      pe_updated_by = actor, pe_updated_at = stamp\<rparr>]"
    by (auto simp: seed_unit_def)
  show ?thesis
    by (auto simp: own_value_def new find_snoc entry_is_def split: option.splits)
qed

lemma own_value_seeds:
  "own_value (foldl (seed_unit plan actor stamp) db es) r e u =
     (if r = plan_resourceId plan \<and> e = plan_to plan \<and> own_value db r e u = None
      then map_of (map (\<lambda>x. (ppe_unit x, ppe_value x)) es) u else own_value db r e u)"
  by (induction es arbitrary: db) (auto simp: own_value_seed)

lemma seed_present: "\<exists>x\<in>set (db_policy (seed_unit plan actor stamp db entry)). entry_is (plan_resourceId plan) (plan_to plan) (ppe_unit entry) x"
  by (auto simp: seed_unit_def entry_is_def)

lemma map_of_filter_key: "map_of (filter (\<lambda>(u, _). P u) d) u = (if P u then map_of d u else None)"
  by (induction d) auto

lemma plan_create_get: "map_of (map (\<lambda>x. (ppe_unit x, ppe_value x)) (plan_create_units source target from)) u =
    (if map_of target u = None then map_of source u else None)"
proof -
  have "map (\<lambda>x. (ppe_unit x, ppe_value x)) (plan_create_units source target from) = filter (\<lambda>(u, _). map_of target u = None) source"
    by (simp add: plan_create_units_def comp_def case_prod_unfold)
  then show ?thesis by (simp add: map_of_filter_key [where P = "\<lambda>u. map_of target u = None"])
qed

definition predecessor_value :: "string list \<Rightarrow> DB \<Rightarrow> string \<Rightarrow> string \<Rightarrow> string \<Rightarrow> jsval option" where
  "predecessor_value chain db r e u = (case predecessorOf chain e of Some f \<Rightarrow> own_value db r f u | None \<Rightarrow> None)"

lemma seeded_value:
  assumes "policy_tables_ok db"
  shows "own_value (applySeededUnits (computePlan host chain db input) actor stamp db) r e u =
    (if r = res_id (pin_resource input) \<and> e = pin_environment input \<and> own_value db r e u = None
     then predecessor_value chain db r e u else own_value db r e u)"
  using assms
  by (auto simp: applySeededUnits_def computePlan_def Let_def own_value_seeds plan_create_get unitsIn_get predecessor_value_def split: option.splits)

lemma index_of_Some: "index_of x xs = Some i \<Longrightarrow> i < length xs \<and> xs ! i = x"
  by (induction xs arbitrary: i) (auto split: if_splits)

lemma reachedFleet_iff: "reachedFleet db v e \<longleftrightarrow> (\<exists>r\<in>set (db_release db). rel_revision r = v \<and> rel_env r = e \<and> reached (rel_state r))"
  by (auto simp: reachedFleet_def filter_empty_conv)

section \<open>Properties\<close>

text \<open>The merge of a promotion fills gaps and nothing else: after the plan of a release is applied, a unit of the
  API in the target environment is its own value where it had one and otherwise the predecessor's, and no unit of any other
  API or environment changes. A local decision is never overwritten and a removal upstream never travels.\<close>

lemma promotion_fills_gaps_only:
  assumes "policy_tables_ok db"
  shows "own_value (applySeededUnits (computePlan host chain db input) actor stamp db) r e u =
    (if r = res_id (pin_resource input) \<and> e = pin_environment input \<and> own_value db r e u = None
     then predecessor_value chain db r e u else own_value db r e u)"
  using assms by (rule seeded_value)

definition promotion_example :: DB where
  "promotion_example = policy_example\<lparr>
     db_policy := [\<lparr>pe_resource = ''r1'', pe_env = ''dev'', pe_unit = ''timeoutMs'', pe_value = JNum 900, pe_seeded = False,
        pe_seeded_from = None, pe_seeded_at = None, pe_updated_by = ''ada'', pe_updated_at = ''t''\<rparr>],
     db_route := [((''r1'', ''prod''), (''*'', ''/orders''))], db_binding := [((''r1'', ''prod''), JObj [])],
     db_target := [\<lparr>tgt_id = ''t1'', tgt_env = ''prod'', tgt_name = ''managed'', tgt_paused = False, tgt_lease_holder = None, tgt_lease_expires_at = None\<rparr>]\<rparr>"

definition promotion_input :: PlanInput where
  "promotion_input = \<lparr>pin_resource = hd (db_resource policy_example), pin_revision = ''v1'', pin_rev = 1, pin_environment = ''prod'', pin_skipChain = True\<rparr>"

lemma promotion_fills_gaps_only_example:
  "own_value (applySeededUnits (computePlan sample_host [''dev'', ''prod''] promotion_example promotion_input) ''ada'' ''t'' promotion_example)
     ''r1'' ''prod'' ''timeoutMs'' = Some (JNum 900)"
proof -
  have "policy_tables_ok promotion_example" by code_simp
  from promotion_fills_gaps_only [OF this, of sample_host "[''dev'', ''prod'']" promotion_input "''ada''" "''t''" "''r1''" "''prod''" "''timeoutMs''"]
  show ?thesis
    by (simp add: promotion_input_def promotion_example_def policy_example_def own_value_def predecessor_value_def predecessorOf_def entry_is_def)
qed

text \<open>A plan without a chain blocker proves the revision came the right way: unless the chain was skipped, the
  revision has at some point reached the environment before the target, and that environment precedes the target in
  the chain.\<close>

lemma unblocked_plan_reached_predecessor:
  assumes "ChainBlocked \<notin> set (plan_blockers (computePlan host chain db input))" "\<not> pin_skipChain input"
    and "predecessorOf chain (pin_environment input) = Some f"
  shows "list_ex (\<lambda>rel. rel_revision rel = pin_revision input \<and> rel_env rel = f \<and> reached (rel_state rel)) (db_release db) \<and>
    (\<exists>i. Suc i < length chain \<and> chain ! i = f \<and> chain ! Suc i = pin_environment input)"
proof
  have "reachedFleet db (pin_revision input) f"
    using assms by (auto simp: computePlan_def Let_def plan_blockers_of_def split: if_splits)
  then show "list_ex (\<lambda>rel. rel_revision rel = pin_revision input \<and> rel_env rel = f \<and> reached (rel_state rel)) (db_release db)"
    by (auto simp: reachedFleet_iff list_ex_iff)
  from assms(3) obtain i where "index_of (pin_environment input) chain = Some (Suc i)" "chain ! i = f"
    by (auto simp: predecessorOf_def split: option.splits nat.splits)
  with index_of_Some show "\<exists>i. Suc i < length chain \<and> chain ! i = f \<and> chain ! Suc i = pin_environment input" by metis
qed


definition global_key_example :: DB where
  "global_key_example = promotion_example\<lparr>
     db_global_policy := [(''dev'', ''auth.subscriptionKey'', JObj [(''in'', JStr ''header''), (''name'', JStr ''X-Api-Key'')]),
        (''prod'', ''auth.subscriptionKey'', JObj [(''in'', JStr ''header''), (''name'', JStr ''X-Api-Key'')])],
     db_policy := [\<lparr>pe_resource = ''r1'', pe_env = ''dev'', pe_unit = ''rateLimit'', pe_value = sample_limit, pe_seeded = False,
        pe_seeded_from = None, pe_seeded_at = None, pe_updated_by = ''ada'', pe_updated_at = ''t''\<rparr>]\<rparr>"

text \<open>The plan judges the API's own tier alone: an API whose rate limit counts against the subscription key every
  environment attaches globally is valid where it runs and would be valid in the target environment, and its
  promotion is blocked as an invalid merge all the same.\<close>

lemma global_key_blocks_promotion:
  "validateDocument sample_host (effectiveDocument global_key_example ''r1'' ''dev'') (Some Rest) False = [] \<and>
   plan_blockers (computePlan sample_host [''dev'', ''prod''] global_key_example promotion_input) = [InvalidMerge] \<and>
   validateDocument sample_host (effectiveDocument (applySeededUnits (computePlan sample_host [''dev'', ''prod''] global_key_example promotion_input)
     ''ada'' ''t'' global_key_example) ''r1'' ''prod'') (Some Rest) False = []"
  by code_simp

end
