(* ===== verification/Egress.thy ===== *)
theory Egress
  imports Store Net
begin

declare map_of_eq_Some_iff [simp del] Some_eq_map_of_iff [simp del]

text \<open>
  What a backend may be: \<^verbatim>\<open>control-plane/src/egress.ts\<close> (deny rules, denied ranges, secrets of the integrations
  file), \<^verbatim>\<open>deny-rules.ts\<close> (the rules of the portal) and \<^verbatim>\<open>backend-pool.ts\<close> (the reader of a pool). Three services of
  the runtime are arguments: \<^verbatim>\<open>parse\<close> is \<^verbatim>\<open>new URL\<close>, \<^verbatim>\<open>lookup\<close> the resolver, \<^verbatim>\<open>read_file\<close> the reader of a secret
  file. The cache of rules is left out: it is dropped on every write. The lemmas show that an admitted URL
  resolves only to addresses outside every denied range, and which rule a refusal names.
\<close>

record ParsedUrl =
  url_protocol :: string
  url_hostname :: string
  url_port :: string
  url_username :: string
  url_password :: string

type_synonym url_parser = "string \<Rightarrow> ParsedUrl option"

section \<open>Definitions: deny rules\<close>

definition hostMatches :: "string \<Rightarrow> string \<Rightarrow> bool" where
  "hostMatches host pattern =
     (let h = toLowerCase host; p = toLowerCase pattern in
      if starts_with ''*.'' p then ends_with (drop 1 p) h \<and> length p - 1 < length h else h = p)"

definition portOf :: "ParsedUrl \<Rightarrow> rat option" where
  "portOf url = (if url_port url \<noteq> [] then js_Number (url_port url)
     else Some (if url_protocol url = ''https:'' then 443 else 80))"

definition portMatches :: "DenyRule \<Rightarrow> rat option \<Rightarrow> bool" where
  "portMatches spec port =
     (if dr_ports spec = None \<and> dr_portRange spec = None then True
      else (case port of None \<Rightarrow> False
       | Some p \<Rightarrow> (case dr_ports spec of Some ps \<Rightarrow> list_ex (\<lambda>q. of_nat q = p) ps | None \<Rightarrow> False) \<or>
           (case dr_portRange spec of Some (lo, hi) \<Rightarrow> of_nat lo \<le> p \<and> p \<le> of_nat hi | None \<Rightarrow> False)))"

definition is_http :: "ParsedUrl \<Rightarrow> bool" where
  "is_http url \<longleftrightarrow> url_protocol url = ''http:'' \<or> url_protocol url = ''https:''"

definition rule_matches :: "ParsedUrl \<Rightarrow> string option \<Rightarrow> DenyRule \<Rightarrow> bool" where
  "rule_matches url environment rule \<longleftrightarrow>
     (dr_environment rule = None \<or> dr_environment rule = environment) \<and>
     (case dr_scheme rule of None \<Rightarrow> True | Some s \<Rightarrow> s = butlast (url_protocol url)) \<and>
     hostMatches (url_hostname url) (dr_hostPattern rule) \<and> portMatches rule (portOf url)"

definition matchingDenyRule :: "url_parser \<Rightarrow> string \<Rightarrow> DenyRule list \<Rightarrow> string option \<Rightarrow> DenyRule option" where
  "matchingDenyRule parse rawUrl rules environment = (case parse rawUrl of
       None \<Rightarrow> None
     | Some url \<Rightarrow> if \<not> is_http url then None else find (rule_matches url environment) rules)"

definition liveDenyRules :: "DB \<Rightarrow> DenyRule list" where
  "liveDenyRules db = map drr_rule (sort_key drr_created_at (sort_key (\<lambda>r. dr_id (drr_rule r))
     (filter (\<lambda>r. drr_removed_at r = None) (db_deny_rule db))))"

definition SELF_RULE_ID :: string where
  "SELF_RULE_ID = ''deny-public-url-self''"

definition selfRule :: "url_parser \<Rightarrow> string \<Rightarrow> DenyRule option" where
  "selfRule parse publicUrl = (case parse publicUrl of None \<Rightarrow> None
     | Some url \<Rightarrow> if url_hostname url = [] then None
         else Some \<lparr>dr_id = SELF_RULE_ID, dr_environment = None, dr_scheme = None, dr_hostPattern = url_hostname url,
                    dr_reason = ''The portal's own address (PUBLIC_URL).'', dr_ports = None, dr_portRange = None\<rparr>)"

definition denyRulesFor :: "url_parser \<Rightarrow> DB \<Rightarrow> string \<Rightarrow> DenyRule list" where
  "denyRulesFor parse db publicUrl = (case selfRule parse publicUrl of Some own \<Rightarrow> own # liveDenyRules db | None \<Rightarrow> liveDenyRules db)"

section \<open>Definitions: the check of a URL\<close>

datatype egress_error = NotAbsolute | NotHttp | CredentialsInUrl | Ipv6Literal | BlockedByRule DenyRule | DeniedRange string string

definition resolve_addresses :: "(string \<Rightarrow> string list option) \<Rightarrow> string \<Rightarrow> string list option" where
  "resolve_addresses lookup hostname = (if ipv4ToInt hostname \<noteq> None then Some [hostname] else lookup hostname)"

definition denied_address :: "string list \<Rightarrow> string \<Rightarrow> (string \<times> string) option" where
  "denied_address denyCidrs address =
     (let bytes = (if ipv4ToInt (canonicalIp address) = None then ipv6ToBytes address else None);
          ip = (case bytes of Some b \<Rightarrow> mappedIpv4 b | None \<Rightarrow> Some (canonicalIp address))
      in case ip of
           Some i \<Rightarrow> map_option (Pair i) (find (ipInCidr i) denyCidrs)
         | None \<Rightarrow> (case bytes of None \<Rightarrow> Some (address, ''an address this platform cannot parse'')
             | Some b \<Rightarrow> map_option (Pair address) (internalIpv6Range b)))"

fun first_some :: "('a \<Rightarrow> 'b option) \<Rightarrow> 'a list \<Rightarrow> 'b option" where
  "first_some f [] = None"
| "first_some f (x # xs) = (case f x of Some y \<Rightarrow> Some y | None \<Rightarrow> first_some f xs)"

definition resolvesIntoDeniedRange :: "(string \<Rightarrow> string list option) \<Rightarrow> string \<Rightarrow> string list \<Rightarrow> (string \<times> string) option" where
  "resolvesIntoDeniedRange lookup hostname denyCidrs = (case resolve_addresses lookup hostname of
       None \<Rightarrow> None | Some addresses \<Rightarrow> first_some (denied_address denyCidrs) addresses)"

definition checkEgress ::
  "url_parser \<Rightarrow> (string \<Rightarrow> string list option) \<Rightarrow> string \<Rightarrow> string list \<Rightarrow> DenyRule list \<Rightarrow> string option \<Rightarrow> egress_error option" where
  "checkEgress parse lookup rawUrl denyCidrs rules environment = (case parse rawUrl of
       None \<Rightarrow> Some NotAbsolute
     | Some url \<Rightarrow>
         if \<not> is_http url then Some NotHttp
         else if url_username url \<noteq> [] \<or> url_password url \<noteq> [] then Some CredentialsInUrl
         else if starts_with ''['' (url_hostname url) then Some Ipv6Literal
         else (case matchingDenyRule parse rawUrl rules environment of
             Some rule \<Rightarrow> Some (BlockedByRule rule)
           | None \<Rightarrow> (case resolvesIntoDeniedRange lookup (url_hostname url) denyCidrs of
               Some (ip, cidr) \<Rightarrow> Some (DeniedRange ip cidr)
             | None \<Rightarrow> None)))"

section \<open>Definitions: a pool\<close>

datatype pool_error = PoolUrl nat | PoolWeight nat | PoolEmpty | PoolTooLarge | PoolTwice string | PoolEgress egress_error
  | PoolRule | PoolWeightUnderFailover

text \<open>\<^verbatim>\<open>Number(value)\<close> and \<^verbatim>\<open>String(value)\<close> of a JSON value, as far as the reader uses them.\<close>

definition number_of :: "jsval \<Rightarrow> rat option" where
  "number_of v = (case v of JNum n \<Rightarrow> Some n | JStr s \<Rightarrow> js_Number s | JBool b \<Rightarrow> Some (if b then 1 else 0) | JNull \<Rightarrow> Some 0
     | _ \<Rightarrow> None)"

definition read_pool_entry :: "nat \<times> jsval \<Rightarrow> pool_error + BackendEntry" where
  "read_pool_entry = (\<lambda>(index, raw).
     case as_string (member raw ''url'') of None \<Rightarrow> Inl (PoolUrl index)
     | Some url \<Rightarrow>
         if url = [] then Inl (PoolUrl index)
         else (case member raw ''weight'' of
             None \<Rightarrow> Inr \<lparr>be_url = url, be_weight = None\<rparr>
           | Some w \<Rightarrow> (case js_int_between 1 10 (number_of w) of
               None \<Rightarrow> Inl (PoolWeight index)
             | Some n \<Rightarrow> Inr \<lparr>be_url = url, be_weight = Some (of_nat n)\<rparr>)))"

fun collect :: "('e + 'a) list \<Rightarrow> 'e + 'a list" where
  "collect [] = Inr []"
| "collect (r # rs) = (case r of Inl e \<Rightarrow> Inl e | Inr x \<Rightarrow> (case collect rs of Inl e \<Rightarrow> Inl e | Inr xs \<Rightarrow> Inr (x # xs)))"

fun check_members :: "(string \<Rightarrow> egress_error option) \<Rightarrow> string list \<Rightarrow> BackendEntry list \<Rightarrow> pool_error option" where
  "check_members check seen [] = None"
| "check_members check seen (entry # rest) =
     (if be_url entry \<in> set seen then Some (PoolTwice (be_url entry))
      else (case check (be_url entry) of Some e \<Rightarrow> Some (PoolEgress e)
        | None \<Rightarrow> check_members check (be_url entry # seen) rest))"

definition read_rule :: "jsval option \<Rightarrow> pool_rule option" where
  "read_rule rule = (case rule of None \<Rightarrow> Some Failover
     | Some (JStr s) \<Rightarrow> if s = ''failover'' then Some Failover else if s = ''round-robin'' then Some RoundRobin else None
     | Some _ \<Rightarrow> None)"

text \<open>\<^verbatim>\<open>None\<close> when the body does not speak of the pool at all. A member of \<^verbatim>\<open>urls\<close> is taken to be a string.\<close>

definition readPool ::
  "(string \<Rightarrow> egress_error option) \<Rightarrow> jsval \<Rightarrow> pool_error + (BackendEntry list \<times> pool_rule) option" where
  "readPool check body =
     (let entries = (case as_array (member body ''pool'') of
            Some raw \<Rightarrow> Some (collect (map read_pool_entry (zip [0..<length raw] raw)))
          | None \<Rightarrow> (case as_array (member body ''urls'') of
              Some us \<Rightarrow> Some (Inr (List.map_filter (\<lambda>u. map_option (\<lambda>s. \<lparr>be_url = s, be_weight = None\<rparr>) (as_string (Some u))) us))
            | None \<Rightarrow> if member body ''rule'' = None then None else Some (Inr [])))
      in case entries of
           None \<Rightarrow> Inr None
         | Some (Inl e) \<Rightarrow> Inl e
         | Some (Inr pool) \<Rightarrow>
             if pool = [] then Inl PoolEmpty
             else if MAX_POOL_SIZE < length pool then Inl PoolTooLarge
             else (case check_members check [] pool of
                 Some e \<Rightarrow> Inl e
               | None \<Rightarrow> (case read_rule (member body ''rule'') of
                   None \<Rightarrow> Inl PoolRule
                 | Some rule \<Rightarrow>
                     if rule = Failover \<and> list_ex (\<lambda>e. be_weight e \<noteq> None) pool then Inl PoolWeightUnderFailover
                     else Inr (Some (pool, rule)))))"

section \<open>Definitions: a new rule\<close>

datatype draft_error = HostMissing | HostIsUrl | HostHasPort | HostIsEverything | HostIsIpv6 | HostShape | BadScheme | ReasonTooShort
  | PortsEmpty | PortNumber | RangeShape | RangeBounds

definition MIN_REASON_LENGTH :: nat where
  "MIN_REASON_LENGTH = 20"

definition host_body_char :: "char \<Rightarrow> bool" where
  "host_body_char c \<longleftrightarrow> char_in CHR ''a'' CHR ''z'' c \<or> is_digit c"

text \<open>\<^verbatim>\<open>/^(\*\.)?[a-z0-9]([a-z0-9.-]*[a-z0-9])?$/\<close>\<close>

definition host_pattern_shape :: "string \<Rightarrow> bool" where
  "host_pattern_shape raw =
     (let s = (if starts_with ''*.'' raw then drop 2 raw else raw) in
      s \<noteq> [] \<and> host_body_char (hd s) \<and> host_body_char (last s) \<and> list_all (\<lambda>c. host_body_char c \<or> c = CHR ''.'' \<or> c = CHR ''-'') s)"

definition port_ok :: "rat \<Rightarrow> bool" where
  "port_ok p \<longleftrightarrow> is_integer p \<and> 1 \<le> p \<and> p \<le> 65535"

definition draft_ports :: "jsval option \<Rightarrow> draft_error + nat list option" where
  "draft_ports v = (if v = None \<or> v = Some JNull then Inr None
     else (case as_array v of
         Some (x # xs) \<Rightarrow>
           if list_all (\<lambda>p. case as_number (Some p) of Some n \<Rightarrow> port_ok n | None \<Rightarrow> False) (x # xs)
           then Inr (Some (sort (remdups (List.map_filter (\<lambda>p. map_option (\<lambda>n. nat \<lfloor>n\<rfloor>) (as_number (Some p))) (x # xs)))))
           else Inl PortNumber
       | _ \<Rightarrow> Inl PortsEmpty))"

definition draft_range :: "jsval option \<Rightarrow> draft_error + (nat \<times> nat) option" where
  "draft_range v = (if v = None \<or> v = Some JNull then Inr None
     else (case as_array v of
         Some [a, b] \<Rightarrow> (case (as_number (Some a), as_number (Some b)) of
             (Some lo, Some hi) \<Rightarrow>
               if is_integer lo \<and> is_integer hi \<and> 1 \<le> lo \<and> hi \<le> 65535 \<and> lo \<le> hi then Inr (Some (nat \<lfloor>lo\<rfloor>, nat \<lfloor>hi\<rfloor>)) else Inl RangeBounds
           | _ \<Rightarrow> Inl RangeBounds)
       | _ \<Rightarrow> Inl RangeShape))"

definition draft_host_error :: "string \<Rightarrow> draft_error option" where
  "draft_host_error raw =
     (if raw = [] then Some HostMissing
      else if CHR ''/'' \<in> set raw then Some HostIsUrl
      else if CHR '':'' \<in> set raw then Some HostHasPort
      else if raw = ''*'' \<or> raw = ''*.'' \<or> raw = ''**'' then Some HostIsEverything
      else if starts_with ''['' raw \<or> ends_with '']'' raw then Some HostIsIpv6
      else if \<not> host_pattern_shape raw then Some HostShape else None)"

text \<open>The draft as a rule with the identifier the caller gives it.\<close>

definition parseDenyRuleDraft :: "string \<Rightarrow> jsval \<Rightarrow> draft_error + DenyRule" where
  "parseDenyRuleDraft rid input =
     (let raw = (case as_string (member input ''hostPattern'') of Some s \<Rightarrow> toLowerCase (js_trim s) | None \<Rightarrow> []);
          scheme = (case member input ''scheme'' of None \<Rightarrow> None | Some JNull \<Rightarrow> None | Some v \<Rightarrow> Some v);
          environment = (case as_string (member input ''environment'') of
             Some e \<Rightarrow> if js_trim e = [] then None else Some (js_trim e) | None \<Rightarrow> None);
          reason = (case as_string (member input ''reason'') of Some s \<Rightarrow> js_trim s | None \<Rightarrow> [])
      in case draft_host_error raw of Some e \<Rightarrow> Inl e
         | None \<Rightarrow>
             if scheme \<noteq> None \<and> scheme \<noteq> Some (JStr ''http'') \<and> scheme \<noteq> Some (JStr ''https'') then Inl BadScheme
             else if length reason < MIN_REASON_LENGTH then Inl ReasonTooShort
             else (case draft_ports (member input ''ports'') of Inl e \<Rightarrow> Inl e
               | Inr ports \<Rightarrow> (case draft_range (member input ''portRange'') of Inl e \<Rightarrow> Inl e
                   | Inr bounds \<Rightarrow> Inr \<lparr>dr_id = rid, dr_environment = environment, dr_scheme = as_string scheme, dr_hostPattern = raw,
                       dr_reason = reason, dr_ports = ports, dr_portRange = bounds\<rparr>)))"

record BlockedRoute =
  blr_resourceId :: string
  blr_resourceName :: string
  blr_applicationId :: string
  blr_environment :: string
  blr_backendUrl :: string

definition blocked_release :: "url_parser \<Rightarrow> DB \<Rightarrow> DenyRule \<Rightarrow> ReleaseRow \<Rightarrow> BlockedRoute option" where
  "blocked_release parse db rule rel =
     (case (find (\<lambda>r. res_id r = rel_resource rel) (db_resource db), map_of (db_binding db) (rel_resource rel, rel_env rel)) of
        (Some r, Some backend) \<Rightarrow>
          map_option (\<lambda>entry. \<lparr>blr_resourceId = res_id r, blr_resourceName = res_name r @ '' '' @ res_api_version r,
              blr_applicationId = res_application r, blr_environment = rel_env rel, blr_backendUrl = be_url entry\<rparr>)
            (find (\<lambda>entry. matchingDenyRule parse (be_url entry) [rule] (Some (rel_env rel)) \<noteq> None) (bp_pool (readBackendPool backend)))
      | _ \<Rightarrow> None)"

definition routesMatchingRule :: "url_parser \<Rightarrow> DB \<Rightarrow> DenyRule \<Rightarrow> BlockedRoute list" where
  "routesMatchingRule parse db rule =
     sort_key blr_resourceName (sort_key blr_environment
       (List.map_filter (blocked_release parse db rule) (filter (\<lambda>rel. rel_state rel = Converged) (db_release db))))"

section \<open>Lemmas\<close>

lemma first_some_None: "first_some f xs = None \<longleftrightarrow> (\<forall>x\<in>set xs. f x = None)"
  by (induction xs) (auto split: option.splits)

lemma find_matching_sound: "matchingDenyRule parse u rules e = Some r \<Longrightarrow> r \<in> set rules \<and> (\<exists>p. parse u = Some p \<and> rule_matches p e r)"
  by (auto simp: matchingDenyRule_def find_Some_iff split: option.splits if_splits)

lemma check_members_ok:
  "check_members check seen pool = None \<Longrightarrow> list_all (\<lambda>e. check (be_url e) = None) pool \<and> distinct (map be_url pool) \<and>
     set seen \<inter> be_url ` set pool = {}"
proof (induction pool arbitrary: seen)
  case (Cons entry pool)
  from Cons.prems have "be_url entry \<notin> set seen" "check (be_url entry) = None" "check_members check (be_url entry # seen) pool = None"
    by (auto split: if_splits option.splits)
  with Cons.IH [of "be_url entry # seen"] show ?case by auto
qed simp

lemma collect_Inr: "collect rs = Inr xs \<Longrightarrow> rs = map Inr xs"
  by (induction rs arbitrary: xs) (auto split: sum.splits)

section \<open>Properties\<close>

text \<open>C37: A URL the check admits is one the platform may fetch: it is absolute, http or https and without credentials, no
  rule of the list matches it, and every address its host resolves to is judged by a rule that can see it:
  an IPv4 address (or an IPv6 one that only wraps an IPv4 address) is outside every denied range, any other
  IPv6 address is outside the internal ranges, and an address of neither family is compared with the denied
  ranges as it is written.\<close>

theorem admitted_url_outside_denied_ranges:
  assumes "checkEgress parse lookup rawUrl denyCidrs rules environment = None"
  shows "\<exists>url. parse rawUrl = Some url \<and> is_http url \<and> list_all (\<lambda>r. \<not> rule_matches url environment r) rules \<and>
    (case resolve_addresses lookup (url_hostname url) of None \<Rightarrow> True
     | Some addresses \<Rightarrow> list_all (\<lambda>a.
         if ipv4ToInt (canonicalIp a) \<noteq> None then \<not> list_ex (ipInCidr (canonicalIp a)) denyCidrs
         else (case ipv6ToBytes a of None \<Rightarrow> \<not> list_ex (ipInCidr (canonicalIp a)) denyCidrs
           | Some b \<Rightarrow> (case mappedIpv4 b of Some ip \<Rightarrow> \<not> list_ex (ipInCidr ip) denyCidrs | None \<Rightarrow> internalIpv6Range b = None))) addresses)"
proof -
  from assms obtain url where url: "parse rawUrl = Some url" "is_http url"
    and rule: "matchingDenyRule parse rawUrl rules environment = None"
    and denied: "resolvesIntoDeniedRange lookup (url_hostname url) denyCidrs = None"
    by (auto simp: checkEgress_def split: option.splits if_splits prod.splits)
  have rules: "list_all (\<lambda>r. \<not> rule_matches url environment r) rules"
    using rule url by (auto simp: matchingDenyRule_def find_None_iff list_all_iff)
  have f: "find P xs = None \<longleftrightarrow> \<not> list_ex P xs" for P and xs :: "string list"
    by (auto simp: find_None_iff list_ex_iff)
  show ?thesis
  proof (intro exI conjI)
    show "case resolve_addresses lookup (url_hostname url) of None \<Rightarrow> True
     | Some addresses \<Rightarrow> list_all (\<lambda>a.
         if ipv4ToInt (canonicalIp a) \<noteq> None then \<not> list_ex (ipInCidr (canonicalIp a)) denyCidrs
         else (case ipv6ToBytes a of None \<Rightarrow> \<not> list_ex (ipInCidr (canonicalIp a)) denyCidrs
           | Some b \<Rightarrow> (case mappedIpv4 b of Some ip \<Rightarrow> \<not> list_ex (ipInCidr ip) denyCidrs | None \<Rightarrow> internalIpv6Range b = None))) addresses"
      using denied
      by (auto simp: resolvesIntoDeniedRange_def first_some_None denied_address_def Let_def list_all_iff f split: option.splits)
  qed (use url rules in auto)
qed

definition example_url :: ParsedUrl where
  "example_url = \<lparr>url_protocol = ''https:'', url_hostname = ''203.0.113.9'', url_port = [], url_username = [], url_password = []\<rparr>"

theorem admitted_url_outside_denied_ranges_witness:
  "\<exists>url. Some example_url = Some url \<and> is_http url \<and> list_all (\<lambda>r. \<not> rule_matches url None r) [] \<and>
    (case resolve_addresses (\<lambda>_. None) (url_hostname url) of None \<Rightarrow> True
     | Some addresses \<Rightarrow> list_all (\<lambda>a.
         if ipv4ToInt (canonicalIp a) \<noteq> None then \<not> list_ex (ipInCidr (canonicalIp a)) [''10.0.0.0/8'']
         else (case ipv6ToBytes a of None \<Rightarrow> \<not> list_ex (ipInCidr (canonicalIp a)) [''10.0.0.0/8'']
           | Some b \<Rightarrow> (case mappedIpv4 b of Some ip \<Rightarrow> \<not> list_ex (ipInCidr ip) [''10.0.0.0/8''] | None \<Rightarrow> internalIpv6Range b = None))) addresses)"
proof (rule admitted_url_outside_denied_ranges [where parse = "\<lambda>_. Some example_url"])
  show "checkEgress (\<lambda>_. Some example_url) (\<lambda>_. None) ''https://203.0.113.9'' [''10.0.0.0/8''] [] None = None"
    by code_simp
qed

text \<open>A pool is as safe as its least-checked member: every member of a pool the reader accepts passed the egress
  check, no URL appears twice, the pool has between one and eight members, and weights occur only under
  round-robin, each between one and ten.\<close>

lemma accepted_pool_checked:
  assumes "readPool check body = Inr (Some (pool, rule))"
  shows "list_all (\<lambda>e. check (be_url e) = None) pool \<and> distinct (map be_url pool) \<and> pool \<noteq> [] \<and> length pool \<le> 8 \<and>
    list_all (\<lambda>e. case be_weight e of None \<Rightarrow> True | Some w \<Rightarrow> rule = RoundRobin \<and> 1 \<le> w \<and> w \<le> 10) pool"
proof -
  from assms have m: "check_members check [] pool = None" and ne: "pool \<noteq> []" and len: "\<not> MAX_POOL_SIZE < length pool"
    and fo: "rule = Failover \<Longrightarrow> \<not> list_ex (\<lambda>e. be_weight e \<noteq> None) pool"
    by (auto simp: readPool_def Let_def split: option.splits sum.splits if_splits)
  have w: "1 \<le> w \<and> w \<le> 10" if "e \<in> set pool" "be_weight e = Some w" for e w
  proof (cases "as_array (member body ''pool'')")
    case (Some raw)
    with assms have "collect (map read_pool_entry (zip [0..<length raw] raw)) = Inr pool"
      by (auto simp: readPool_def Let_def split: option.splits sum.splits if_splits)
    then have "map read_pool_entry (zip [0..<length raw] raw) = map Inr pool" by (rule collect_Inr)
    with that(1) have "Inr e \<in> set (map read_pool_entry (zip [0..<length raw] raw))" by simp
    then obtain i v where "read_pool_entry (i, v) = Inr e" by force
    with that(2) show ?thesis
      by (auto simp: read_pool_entry_def split: option.splits if_splits dest!: js_int_between_range)
  next
    case None
    with assms that show ?thesis
      by (auto simp: readPool_def Let_def List.map_filter_def split: option.splits sum.splits if_splits)
  qed
  have r: "rule = RoundRobin" if "e \<in> set pool" "be_weight e = Some w" for e w
    using that fo by (cases rule) (auto simp: list_ex_iff)
  from check_members_ok [OF m] ne len w r show ?thesis
    by (auto simp: list_all_iff MAX_POOL_SIZE_def split: option.splits)
qed

lemma accepted_pool_checked_example:
  "list_all (\<lambda>e. (None :: egress_error option) = None) [\<lparr>be_url = ''https://a.example'', be_weight = None\<rparr>] \<and>
    distinct (map be_url [\<lparr>be_url = ''https://a.example'', be_weight = None\<rparr>]) \<and> [\<lparr>be_url = ''https://a.example'', be_weight = None\<rparr>] \<noteq> [] \<and>
    length [\<lparr>be_url = ''https://a.example'', be_weight = None\<rparr>] \<le> 8 \<and>
    list_all (\<lambda>e. case be_weight e of None \<Rightarrow> True | Some w \<Rightarrow> Failover = RoundRobin \<and> 1 \<le> w \<and> w \<le> 10)
      [\<lparr>be_url = ''https://a.example'', be_weight = None\<rparr>]"
proof (rule accepted_pool_checked)
  show "readPool (\<lambda>_. None) (JObj [(''urls'', JArr [JStr ''https://a.example''])]) =
      Inr (Some ([\<lparr>be_url = ''https://a.example'', be_weight = None\<rparr>], Failover))"
    by code_simp
qed

text \<open>An address that parses as neither family is admitted, whatever the denied ranges are: the branch that
  refuses it is never reached, because the text of the address has already been taken for an IPv4 address
  that no range contains. A resolver that answers a link-local address with its zone, \<^verbatim>\<open>fe80::1%eth0\<close>, passes.\<close>

lemma unparseable_address_admitted:
  "denied_address denyCidrs ''fe80::1%eth0'' = None"
proof -
  have "ipv4ToInt (canonicalIp ''fe80::1%eth0'') = None" "ipv6ToBytes ''fe80::1%eth0'' = None" by code_simp+
  moreover have "canonicalIp ''fe80::1%eth0'' = ''fe80::1%eth0''" by code_simp
  ultimately show ?thesis
    by (auto simp: denied_address_def ipInCidr_def find_None_iff split: option.splits prod.splits)
qed

text \<open>The fully qualified spelling of a host evades a rule that names it: \<^verbatim>\<open>new URL\<close> keeps the final dot of
  \<^verbatim>\<open>https://internal.example./\<close> and the resolver treats the two spellings as one name.\<close>

lemma trailing_dot_evades_rule:
  "hostMatches ''internal.example'' ''internal.example'' \<and> \<not> hostMatches ''internal.example.'' ''internal.example'' \<and>
   \<not> hostMatches ''db.internal.example.'' ''*.internal.example''"
  by code_simp

end
