(* ===== verification/ConfigBuild.thy ===== *)
theory ConfigBuild
  imports PolicyUnits Egress RouteTable
begin

declare map_of_eq_Some_iff [simp del] Some_eq_map_of_iff [simp del]

text \<open>
  The gateway's configuration document as the control plane builds it (\<^verbatim>\<open>control-plane/src/config-build.ts\<close>): the
  routes of an environment from the releases that converged there, with defaults resolved and values clamped; the
  subscriptions with the keys still alive; certificates, references and limits. A route's policy is the JSON
  document of the database, with \<^verbatim>\<open>errorFormat\<close> and \<^verbatim>\<open>validate\<close> resolved into it. Arguments: \<^verbatim>\<open>host\<close> and \<^verbatim>\<open>parse\<close> as
  in the validators and the egress check, \<^verbatim>\<open>dec\<close> and \<^verbatim>\<open>hashKey\<close> for the cipher and the hash of a key, \<^verbatim>\<open>sha\<close> for
  SHA-256, \<^verbatim>\<open>digest\<close> for the digest of a document, \<^verbatim>\<open>read_file\<close> for a secret kept in a file and \<^verbatim>\<open>now\<close> for the ISO clock.
\<close>

section \<open>Definitions: what one route carries\<close>

definition RPC_KINDS :: "ResourceKind list" where
  "RPC_KINDS = [Mcp, A2a]"

definition productIdsFor :: "DB \<Rightarrow> string \<Rightarrow> string list" where
  "productIdsFor db resource = sort (map fst (filter (\<lambda>(_, r). r = resource) (db_product_member db)))"

definition errorFormatFor :: "ResourceKind \<Rightarrow> ApiModel option \<Rightarrow> document \<Rightarrow> jsval" where
  "errorFormatFor kind model policy =
     (if truthy (map_of policy ''errorFormat'') then the (map_of policy ''errorFormat'')
      else if kind = Soap then
        JObj [(''shape'', JStr ''soap-fault''),
          (''soapVersion'', JStr (if (case model of Some m \<Rightarrow> am_soap12 m = Some True | None \<Rightarrow> False) then ''1.2'' else ''1.1''))]
      else if kind \<in> set RPC_KINDS then JObj [(''shape'', JStr ''jsonrpc'')]
      else JObj [(''shape'', JStr ''problem+json'')])"

definition number_or :: "jsval option \<Rightarrow> rat \<Rightarrow> rat" where
  "number_or v d = (case as_number v of Some n \<Rightarrow> n | None \<Rightarrow> d)"

definition value_or :: "jsval option \<Rightarrow> jsval \<Rightarrow> jsval" where
  "value_or v d = (case v of None \<Rightarrow> d | Some JNull \<Rightarrow> d | Some x \<Rightarrow> x)"

definition strings :: "string list \<Rightarrow> jsval" where
  "strings xs = JArr (map JStr xs)"

definition resolved_always :: "ResourceKind \<Rightarrow> jsval \<Rightarrow> ValidationLimits \<Rightarrow> XmlLimits \<Rightarrow> jsval" where
  "resolved_always kind always ceilings xml =
     (let bodyCeiling = (if kind \<in> set RPC_KINDS then 256 * 1024 else 1024 * 1024);
          types = (if kind = Soap then xl_contentTypes xml else [''application/json'', ''application/*+json'']);
          js = value_or (member always ''json'') (JObj []); x = value_or (member always ''xml'') (JObj [])
      in JObj [(''contentType'', value_or (member always ''contentType'') (strings types)),
           (''maxBodyBytes'', JNum (min (number_or (member always ''maxBodyBytes'') bodyCeiling) (of_nat (vl_maxBodyBytes ceilings)))),
           (''maxDepth'', JNum (min (number_or (member always ''maxDepth'') 32) (of_nat (xl_maxDepth xml)))),
           (''json'', JObj [(''maxArrayLength'', JNum (number_or (member js ''maxArrayLength'') 10000)),
              (''duplicateKeys'', value_or (member js ''duplicateKeys'') (JStr ''reject''))]),
           (''xml'', JObj [(''maxElements'', JNum (min (number_or (member x ''maxElements'') 100000) (of_nat (xl_maxElements xml))))])])"

definition resolved_sample :: "jsval \<Rightarrow> ValidationLimits \<Rightarrow> jsval" where
  "resolved_sample sample ceilings =
     JObj [(''alwaysUnderBytes'', JNum (number_or (member sample ''alwaysUnderBytes'') 65536)),
       (''rate'', JNum (max (number_or (member sample ''rate'') (1 / 10)) (vl_minSampleRate ceilings))),
       (''coldStart'', JNum (number_or (member sample ''coldStart'') 20)),
       (''onFailureEscalateSec'', JNum (number_or (member sample ''onFailureEscalateSec'') 300)),
       (''key'', value_or (member sample ''key'') (strings [''operation'', ''subscription'']))]"

definition validateFor :: "ResourceKind \<Rightarrow> document \<Rightarrow> ValidationLimits \<Rightarrow> XmlLimits \<Rightarrow> jsval" where
  "validateFor kind policy ceilings xml =
     (let attached = value_or (map_of policy ''validate'') (JObj []);
          websocket = (unit_member policy ''passthrough'' ''websocket'' = Some (JBool True));
          request = (if websocket then JStr ''disabled'' else value_or (member attached ''request'') (JStr ''blocking''));
          response = value_or (member attached ''response'') (JStr ''disabled'')
      in JObj ([(''request'', request), (''response'', response),
           (''headers'', value_or (member attached ''headers'') (JBool True)),
           (''body'', value_or (member attached ''body'') (JBool True)),
           (''always'', resolved_always kind (value_or (member attached ''always'') (JObj [])) ceilings xml),
           (''maxConcurrent'', JNum (min (number_or (member attached ''maxConcurrent'') 8) (of_nat (vl_maxConcurrent ceilings)))),
           (''onSaturated'', JStr ''skip''),
           (''logEvents'', JObj [(''includeBodyExcerptBytes'', JNum (min
              (number_or (member (value_or (member attached ''logEvents'') (JObj [])) ''includeBodyExcerptBytes'') 0)
              (of_nat (vl_maxIncludeBodyExcerptBytes ceilings))))])] @
         (if truthy (member attached ''downgradeReason'') then [(''downgradeReason'', the (member attached ''downgradeReason''))] else []) @
         (if request = JStr ''warning'' \<or> response = JStr ''warning''
          then [(''sample'', resolved_sample (value_or (member attached ''sample'') (JObj [])) ceilings)] else [])))"

definition soapIndexFor :: "ApiModel option \<Rightarrow> (bool \<times> ConfigSoapOperation list) option" where
  "soapIndexFor model = (case model of None \<Rightarrow> None
     | Some m \<Rightarrow> map_option (\<lambda>v. (v, sort_key so_element (List.map_filter (\<lambda>o'. map_option (\<lambda>e.
           \<lparr>so_soapAction = (case mo_soapAction o' of Some a \<Rightarrow> a | None \<Rightarrow> []), so_element = e, so_operationId = mo_operationId o'\<rparr>)
           (mo_inputElement o')) (am_operations m)))) (am_soap12 m))"

definition tlsFor :: "DB \<Rightarrow> string \<Rightarrow> string \<Rightarrow> string \<Rightarrow> ConfigBackendTls" where
  "tlsFor db resource environment now =
     (case sort_key (\<lambda>r. tex_backend_url r = None) (sort_key tex_expires_at (filter (\<lambda>r.
         tex_resource r = resource \<and> tex_env r = environment \<and> tex_revoked_at r = None \<and> now < tex_expires_at r) (db_tls_exception db))) of
        [] \<Rightarrow> \<lparr>tls_mode_of = TlsVerify, tls_pinThumbprint = None, tls_expiresAt = None, tls_exceptionId = None, tls_reason = None\<rparr>
      | row # _ \<Rightarrow> \<lparr>tls_mode_of = tex_mode row, tls_pinThumbprint = tex_pin row, tls_expiresAt = Some (tex_expires_at row),
          tls_exceptionId = Some (tex_id row), tls_reason = Some (tex_reason row)\<rparr>)"

definition logBodiesUntilFor :: "DB \<Rightarrow> string \<Rightarrow> string \<Rightarrow> string \<Rightarrow> string option" where
  "logBodiesUntilFor db resource environment now =
     (case rev (sort_key bc_expires_at (filter (\<lambda>r. bc_resource r = resource \<and> bc_env r = environment \<and> bc_revoked_at r = None \<and>
         now < bc_expires_at r) (db_body_capture db))) of
        [] \<Rightarrow> None | row # _ \<Rightarrow> Some (bc_expires_at row))"

definition artifactsFor :: "DB \<Rightarrow> string option \<Rightarrow> ResourceKind \<Rightarrow> ArtifactRef list" where
  "artifactsFor db digest kind = (case digest of None \<Rightarrow> []
     | Some d \<Rightarrow> if d = [] then []
         else (case map_of (db_artifact db) d of
             Some (k, bytes) \<Rightarrow> [\<lparr>ar_digest = d, ar_kind = k, ar_sizeBytes = bytes\<rparr>]
           | None \<Rightarrow> [\<lparr>ar_digest = d, ar_kind = (if kind = Soap then XsdSetArtifact else JsonSchemaArtifact), ar_sizeBytes = 0\<rparr>]))"

section \<open>Definitions: routes\<close>

record BuiltRoute =
  bt_resourceId :: string
  bt_resourceName :: string
  bt_apiVersion :: string
  bt_kind :: ResourceKind
  bt_revisionId :: string
  bt_rev :: nat
  bt_host :: string
  bt_basePath :: string
  bt_lifecycle :: Lifecycle
  bt_sunsetAt :: "string option"
  bt_productIds :: "string list"
  bt_backend :: ConfigBackend
  bt_policy :: document
  bt_operations :: "ConfigOperation list"
  bt_logBodiesUntil :: "string option"
  bt_artifacts :: "ArtifactRef list"
  bt_soap :: "(bool \<times> ConfigSoapOperation list) option"
  bt_mcp :: "string option"
  bt_a2a :: "A2aRoute option"

record RouteRow =
  rr_resource :: ResourceRow
  rr_revision :: RevisionRow
  rr_host :: string
  rr_base_path :: string
  rr_backend :: jsval

datatype build_error = InvalidPolicy errors | BlockedBackend string DenyRule | UnresolvedRef string

definition route_row :: "DB \<Rightarrow> ReleaseRow \<Rightarrow> RouteRow option" where
  "route_row db rel =
     (case (find (\<lambda>r. res_id r = rel_resource rel) (db_resource db), find (\<lambda>r. rev_id r = rel_revision rel) (db_revision db),
            map_of (db_route db) (rel_resource rel, rel_env rel), map_of (db_binding db) (rel_resource rel, rel_env rel)) of
        (Some r, Some v, Some (h, p), Some b) \<Rightarrow> Some \<lparr>rr_resource = r, rr_revision = v, rr_host = h, rr_base_path = p, rr_backend = b\<rparr>
      | _ \<Rightarrow> None)"

definition serves_on :: "DB \<Rightarrow> string option \<Rightarrow> ReleaseRow \<Rightarrow> bool" where
  "serves_on db targetId rel = (case targetId of None \<Rightarrow> True
     | Some t \<Rightarrow> (rel_resource rel, rel_env rel, t) \<in> set (db_route_gateway db))"

definition route_rows :: "DB \<Rightarrow> string \<Rightarrow> string option \<Rightarrow> RouteRow list" where
  "route_rows db environment targetId =
     sort_key rr_base_path (sort_key rr_host (List.map_filter (route_row db)
       (filter (\<lambda>rel. rel_env rel = environment \<and> rel_state rel = Converged \<and> serves_on db targetId rel) (db_release db))))"

definition a2a_of :: "RouteRow \<Rightarrow> ApiModel option \<Rightarrow> A2aRoute option" where
  "a2a_of row model = (if res_kind (rr_resource row) \<noteq> A2a then None
     else (case model of None \<Rightarrow> None | Some m \<Rightarrow> map_option (\<lambda>card.
       \<lparr>a2a_cardPath = (if rr_base_path row = ''/'' then [] else rr_base_path row) @ ''/.well-known/agent-card.json'',
        a2a_cardPublic = res_listed (rr_resource row), a2a_card = card\<rparr>) (am_a2aCard m)))"

definition blocked_member :: "url_parser \<Rightarrow> DenyRule list \<Rightarrow> string \<Rightarrow> BackendEntry list \<Rightarrow> (BackendEntry \<times> DenyRule) option" where
  "blocked_member parse rules environment pool =
     first_some (\<lambda>entry. map_option (Pair entry) (matchingDenyRule parse (be_url entry) rules (Some environment))) pool"

definition build_route ::
  "js_host \<Rightarrow> url_parser \<Rightarrow> string \<Rightarrow> DB \<Rightarrow> string \<Rightarrow> ConfigLimits \<Rightarrow> DenyRule list \<Rightarrow> RouteRow \<Rightarrow> (string \<times> build_error) + BuiltRoute" where
  "build_route host parse now db environment limits denyRules row =
     (let r = rr_resource row; v = rr_revision row; kind = res_kind r;
          model = (if kind = Rest then None else Some (rev_model v));
          policy = activeDocument (effectiveDocument db (res_id r) environment);
          problems = validateDocument host policy (Some kind) False;
          backend = readBackendPool (rr_backend row)
      in if problems \<noteq> [] then Inl (res_id r, InvalidPolicy problems)
         else (case blocked_member parse denyRules environment (bp_pool backend) of
             Some (entry, rule) \<Rightarrow> Inl (res_id r, BlockedBackend (be_url entry) rule)
           | None \<Rightarrow> Inr \<lparr>bt_resourceId = res_id r, bt_resourceName = res_name r, bt_apiVersion = res_api_version r, bt_kind = kind,
               bt_revisionId = rev_id v, bt_rev = rev_rev v, bt_host = rr_host row, bt_basePath = rr_base_path row,
               bt_lifecycle = res_lifecycle r, bt_sunsetAt = res_sunset_at r, bt_productIds = productIdsFor db (res_id r),
               bt_backend = \<lparr>cbk_pool = bp_pool backend, cbk_rule = bp_rule backend, cbk_clientCertRef = bp_clientCertRef backend,
                 cbk_tls = tlsFor db (res_id r) environment now\<rparr>,
               bt_policy = mset_key ''validate'' (validateFor kind policy (cl_validation limits) (cl_xml limits))
                 (mset_key ''errorFormat'' (errorFormatFor kind model policy) policy),
               bt_operations = rev_index v, bt_logBodiesUntil = logBodiesUntilFor db (res_id r) environment now,
               bt_artifacts = artifactsFor db (rev_artifact_digest v) kind, bt_soap = soapIndexFor model,
               bt_mcp = (if kind = Mcp then (case model of Some m \<Rightarrow> am_mcpProtocolVersion m | None \<Rightarrow> None) else None),
               bt_a2a = a2a_of row model\<rparr>))"

definition rights :: "('e + 'a) list \<Rightarrow> 'a list" where
  "rights rs = List.map_filter (\<lambda>r. case r of Inl _ \<Rightarrow> None | Inr x \<Rightarrow> Some x) rs"

definition lefts :: "('e + 'a) list \<Rightarrow> 'e list" where
  "lefts rs = List.map_filter (\<lambda>r. case r of Inl e \<Rightarrow> Some e | Inr _ \<Rightarrow> None) rs"

definition buildRoutes ::
  "js_host \<Rightarrow> url_parser \<Rightarrow> string \<Rightarrow> DB \<Rightarrow> string \<Rightarrow> ConfigLimits \<Rightarrow> DenyRule list \<Rightarrow> string option \<Rightarrow>
   BuiltRoute list \<times> (string \<times> build_error) list" where
  "buildRoutes host parse now db environment limits denyRules targetId =
     (let results = map (build_route host parse now db environment limits denyRules) (route_rows db environment targetId)
      in (rights results, lefts results))"

section \<open>Definitions: subscriptions and certificates\<close>

definition live_slots :: "SubscriptionRow \<Rightarrow> string list" where
  "live_slots row = filter (\<lambda>k. k \<noteq> []) (List.map_filter id
     [if sbr_primary_expired_at row = None then Some (sbr_primary_enc row) else None,
      if sbr_secondary_expired_at row = None then sbr_secondary_enc row else None])"

definition build_subscription :: "(string \<Rightarrow> string) \<Rightarrow> (string \<Rightarrow> string) \<Rightarrow> DB \<Rightarrow> SubscriptionRow \<Rightarrow> ConfigSubscription option" where
  "build_subscription dec hashKey db row =
     (case (map_of (db_application db) (sbr_application row), map_of (db_product db) (sbr_product row)) of
        (Some app, Some product) \<Rightarrow> Some \<lparr>sub_id = sbr_id row, sub_keyHashes = map (\<lambda>enc. hashKey (dec enc)) (live_slots row),
          sub_productId = sbr_product row, sub_productName = product, sub_applicationId = sbr_application row,
          sub_applicationName = app, sub_subscriptionName = app @ '' -> '' @ product\<rparr>
      | _ \<Rightarrow> None)"

definition serving_subscription :: "string \<Rightarrow> SubscriptionRow \<Rightarrow> bool" where
  "serving_subscription environment row \<longleftrightarrow> sbr_env row = environment \<and> (sbr_state row = SActive \<or> sbr_state row = SActivating)"

definition buildSubscriptions :: "(string \<Rightarrow> string) \<Rightarrow> (string \<Rightarrow> string) \<Rightarrow> DB \<Rightarrow> string \<Rightarrow> ConfigSubscription list" where
  "buildSubscriptions dec hashKey db environment =
     List.map_filter (build_subscription dec hashKey db) (sort_key sbr_id (filter (serving_subscription environment) (db_subscription db)))"

definition buildCertificates :: "DB \<Rightarrow> string \<Rightarrow> ConfigCertificate list" where
  "buildCertificates db environment =
     sort_key cert_id (remdups (map snd (filter (\<lambda>(e, c). e = environment \<and>
       (\<exists>b\<in>set (db_binding db). snd (fst b) = environment \<and> member (snd b) ''clientCertRef'' = Some (JStr (cert_id c)))) (db_certificate db))))"

definition liveAnchorsFor :: "DB \<Rightarrow> string \<Rightarrow> string \<Rightarrow> ConfigTrustAnchor list" where
  "liveAnchorsFor db environment now =
     map (\<lambda>(_, a, _). a) (filter (\<lambda>(e, a, removed). e = environment \<and> removed = None \<and> now < ta_notAfter a) (db_trust_anchor db))"

section \<open>Definitions: references\<close>

record IssuerDef =
  idf_issuer :: string
  idf_jwksUrl :: "string option"
  idf_algorithms :: "string list"
  idf_audienceDefault :: "string list option"
  idf_introspectionUrl :: "string option"
  idf_credentialRef :: "string option"

record TokenProviderDef =
  tpd_tokenUrl :: string
  tpd_credentialRef :: string
  tpd_scope :: "string option"
  tpd_skewSec :: "nat option"

datatype SharedSecretDef = SecretValue string | SecretFile string | SecretNothing

record Integrations =
  itg_denyCidrs :: "string list"
  itg_xml :: "XmlLimits option"
  itg_validation :: "ValidationLimits option"
  itg_issuers :: "(string, IssuerDef) jsmap"
  itg_tokenProviders :: "(string, TokenProviderDef) jsmap"
  itg_hmacSchemes :: "(string, string \<times> string) jsmap"
  itg_sharedSecrets :: "(string, SharedSecretDef) jsmap"

definition resolveSecret :: "(string \<Rightarrow> string option) \<Rightarrow> Integrations \<Rightarrow> string \<Rightarrow> string option" where
  "resolveSecret read_file integrations ref = (case map_of (itg_sharedSecrets integrations) ref of
       None \<Rightarrow> None
     | Some (SecretValue v) \<Rightarrow> Some v
     | Some (SecretFile path) \<Rightarrow> map_option js_trim (read_file path)
     | Some SecretNothing \<Rightarrow> None)"

record CredentialVault =
  vault_secret :: "string \<Rightarrow> string option"
  vault_hmac :: "string \<Rightarrow> (string \<times> string) option"

definition load_credential :: "DB \<Rightarrow> string \<Rightarrow> string \<Rightarrow> AppCredentialRow option" where
  "load_credential db environment ref = (case parseAppCredentialRef ref of None \<Rightarrow> None
     | Some (app, name) \<Rightarrow> find (\<lambda>r. acr_application r = app \<and> acr_env r = environment \<and> acr_name r = name) (db_app_credential db))"

definition PLATFORM_KAFKA_KEY_REF :: string where
  "PLATFORM_KAFKA_KEY_REF = ''platform:kafka-proxy''"

definition credentialVault :: "(string \<Rightarrow> string) \<Rightarrow> string option \<Rightarrow> DB \<Rightarrow> string \<Rightarrow> CredentialVault" where
  "credentialVault dec platformKafkaKey db environment =
     \<lparr>vault_secret = (\<lambda>ref.
        if ref = PLATFORM_KAFKA_KEY_REF then platformKafkaKey
        else (case load_credential db environment ref of None \<Rightarrow> None
          | Some row \<Rightarrow> (case acr_kind row of
              CredBasic \<Rightarrow> Some ((case acr_principal row of Some p \<Rightarrow> p | None \<Rightarrow> []) @ '':'' @ dec (acr_secret_enc row))
            | CredSecret \<Rightarrow> Some (dec (acr_secret_enc row))
            | CredHmac \<Rightarrow> None))),
      vault_hmac = (\<lambda>ref. case load_credential db environment ref of None \<Rightarrow> None
          | Some row \<Rightarrow> if acr_kind row = CredHmac
              then Some ((case acr_principal row of Some p \<Rightarrow> p | None \<Rightarrow> []), dec (acr_secret_enc row)) else None)\<rparr>"

datatype ref_use = IssuerUse | ProviderUse | HmacUse | HashUse | SecretUse

definition tag_ref :: "ref_use \<Rightarrow> jsval option \<Rightarrow> (ref_use \<times> string) list" where
  "tag_ref use v = (case as_string v of Some s \<Rightarrow> [(use, s)] | None \<Rightarrow> [])"

definition refs_of_unit :: "string \<Rightarrow> jsval \<Rightarrow> (ref_use \<times> string) list" where
  "refs_of_unit unitKey raw =
     (let unit = (case parseOperationUnitKey unitKey of Some (_, u) \<Rightarrow> u | None \<Rightarrow> unitKey) in
      if \<not> truthy (Some raw) then []
      else if unit = ''auth.jwt'' \<or> unit = ''auth.introspection'' then tag_ref IssuerUse (member raw ''issuerRef'')
      else if unit = ''auth.basic'' then tag_ref HashUse (member raw ''credentialRef'')
      else if unit = ''preconditions'' then
        concat (map (\<lambda>(_, rule). case member rule ''requireHeader'' of None \<Rightarrow> []
          | Some h \<Rightarrow> if truthy (member h ''credentialRef'') then tag_ref HashUse (member h ''credentialRef'') else []) (array_items (Some raw)))
      else if unit = ''backendAuth'' then
        (let type = as_string (member raw ''type'') in
         if type = Some ''basic'' \<or> type = Some ''api-key'' then tag_ref SecretUse (member raw ''credentialRef'')
         else if type = Some ''oauth2-client-credentials'' then tag_ref ProviderUse (member raw ''tokenProviderRef'')
         else if type = Some ''hmac-sa-key-lite'' then tag_ref HmacUse (member raw ''schemeRef'')
         else [])
      else [])"

definition route_refs :: "BuiltRoute \<Rightarrow> (ref_use \<times> string) list" where
  "route_refs route = concat (map (\<lambda>(k, raw). refs_of_unit k raw) (bt_policy route))"

definition refs_used :: "ref_use \<Rightarrow> BuiltRoute list \<Rightarrow> string list" where
  "refs_used use routes = rev (remdups (rev (map snd (filter (\<lambda>(u, _). u = use) (concat (map route_refs routes))))))"

definition named_by :: "BuiltRoute list \<Rightarrow> string \<Rightarrow> BuiltRoute list" where
  "named_by routes ref = filter (\<lambda>r. ref \<in> snd ` set (route_refs r)) routes"

definition resolve_issuer :: "(string \<Rightarrow> string option) \<Rightarrow> Integrations \<Rightarrow> string \<Rightarrow> ConfigIssuer option" where
  "resolve_issuer read_file integrations ref = map_option (\<lambda>def.
     \<lparr>is_issuer = idf_issuer def, is_jwksUrl = idf_jwksUrl def, is_algorithms = idf_algorithms def,
      is_audienceDefault = idf_audienceDefault def, is_introspectionUrl = idf_introspectionUrl def,
      is_introspectionCredential = (case idf_credentialRef def of None \<Rightarrow> None | Some c \<Rightarrow> resolveSecret read_file integrations c)\<rparr>)
     (map_of (itg_issuers integrations) ref)"

definition resolve_provider :: "(string \<Rightarrow> string option) \<Rightarrow> Integrations \<Rightarrow> string \<Rightarrow> ConfigTokenProvider option" where
  "resolve_provider read_file integrations ref = (case map_of (itg_tokenProviders integrations) ref of None \<Rightarrow> None
     | Some def \<Rightarrow> map_option (\<lambda>c. \<lparr>tp_tokenUrl = tpd_tokenUrl def, tp_scope = tpd_scope def, tp_skewSec = tpd_skewSec def, tp_credential = c\<rparr>)
         (resolveSecret read_file integrations (tpd_credentialRef def)))"

definition resolve_hmac :: "(string \<Rightarrow> string option) \<Rightarrow> Integrations \<Rightarrow> CredentialVault \<Rightarrow> string \<Rightarrow> (string \<times> string) option" where
  "resolve_hmac read_file integrations vault ref =
     (if parseAppCredentialRef ref \<noteq> None then vault_hmac vault ref
      else (case map_of (itg_hmacSchemes integrations) ref of None \<Rightarrow> None
        | Some (appIdRef, appKeyRef) \<Rightarrow>
            (case (resolveSecret read_file integrations appIdRef, resolveSecret read_file integrations appKeyRef) of
               (Some a, Some k) \<Rightarrow> Some (a, k) | _ \<Rightarrow> None)))"

definition secretFor :: "(string \<Rightarrow> string option) \<Rightarrow> Integrations \<Rightarrow> CredentialVault \<Rightarrow> string \<Rightarrow> string option" where
  "secretFor read_file integrations vault ref =
     (if parseAppCredentialRef ref \<noteq> None \<or> starts_with ''platform:'' ref then vault_secret vault ref
      else resolveSecret read_file integrations ref)"

definition resolved :: "(string \<Rightarrow> 'a option) \<Rightarrow> string list \<Rightarrow> (string \<times> 'a) list" where
  "resolved f refs = List.map_filter (\<lambda>ref. map_option (Pair ref) (f ref)) refs"

definition unresolved :: "(string \<Rightarrow> 'a option) \<Rightarrow> string list \<Rightarrow> string list" where
  "unresolved f refs = filter (\<lambda>ref. f ref = None) refs"

text \<open>The references a document carries, and those that resolved to nothing, in the order the source looks.\<close>

definition buildReferences ::
  "(string \<Rightarrow> string option) \<Rightarrow> (string \<Rightarrow> string) \<Rightarrow> BuiltRoute list \<Rightarrow> Integrations \<Rightarrow> CredentialVault \<Rightarrow> ConfigReferences \<times> string list" where
  "buildReferences read_file sha routes integrations vault =
     (let secret = secretFor read_file integrations vault;
          issuers = refs_used IssuerUse routes; providers = refs_used ProviderUse routes; schemes = refs_used HmacUse routes;
          hashes = refs_used HashUse routes; secrets = refs_used SecretUse routes
      in (\<lparr>rf_issuers = resolved (resolve_issuer read_file integrations) issuers,
           rf_tokenProviders = resolved (resolve_provider read_file integrations) providers,
           rf_hmacSchemes = resolved (resolve_hmac read_file integrations vault) schemes,
           rf_secretHashes = resolved (\<lambda>ref. map_option sha (secret ref)) hashes,
           rf_secrets = resolved secret secrets\<rparr>,
          unresolved (resolve_issuer read_file integrations) issuers @ unresolved (resolve_provider read_file integrations) providers @
          unresolved (resolve_hmac read_file integrations vault) schemes @ unresolved secret hashes @ unresolved secret secrets))"

section \<open>Definitions: the document\<close>

definition DEFAULT_XML_LIMITS :: XmlLimits where
  "DEFAULT_XML_LIMITS = \<lparr>xl_maxPrefixBytes = 8192, xl_maxDepth = 32, xl_maxElements = 100000, xl_maxBytes = 8388608,
     xl_contentTypes = [''text/xml'', ''application/soap+xml'']\<rparr>"

definition DEFAULT_VALIDATION_CEILINGS :: ValidationLimits where
  "DEFAULT_VALIDATION_CEILINGS = \<lparr>vl_maxBodyBytes = 8388608, vl_minSampleRate = 1 / 100, vl_maxConcurrent = 8, vl_maxIncludeBodyExcerptBytes = 0\<rparr>"

definition limitsFor :: "Integrations \<Rightarrow> ConfigLimits" where
  "limitsFor integrations =
     \<lparr>cl_xml = (case itg_xml integrations of Some x \<Rightarrow> x | None \<Rightarrow> DEFAULT_XML_LIMITS),
      cl_validation = (case itg_validation integrations of Some v \<Rightarrow> v | None \<Rightarrow> DEFAULT_VALIDATION_CEILINGS)\<rparr>"

record BuiltConfig =
  bcf_configVersion :: int
  bcf_environment :: string
  bcf_limits :: ConfigLimits
  bcf_settings :: GatewaySettings
  bcf_routes :: "BuiltRoute list"
  bcf_subscriptions :: "ConfigSubscription list"
  bcf_certificates :: "ConfigCertificate list"
  bcf_trustAnchors :: "ConfigTrustAnchor list"
  bcf_references :: ConfigReferences
  bcf_errors :: "(string \<times> build_error) list"

record build_services =
  svc_host :: js_host
  svc_parse :: url_parser
  svc_dec :: "string \<Rightarrow> string"
  svc_hashKey :: "string \<Rightarrow> string"
  svc_sha :: "string \<Rightarrow> string"
  svc_read_file :: "string \<Rightarrow> string option"
  svc_platformKey :: "string option"

text \<open>The digest is an argument of the components that compare it; the time of generation is not part of it. The settings
  are the resolution of the settings component over the rows of this database.\<close>

definition buildConfig :: "build_services \<Rightarrow> string \<Rightarrow> DB \<Rightarrow> string \<Rightarrow> Integrations \<Rightarrow> string \<Rightarrow> string option \<Rightarrow> BuiltConfig" where
  "buildConfig svc now db environment integrations publicUrl targetId =
     (let limits = limitsFor integrations;
          (routes, errors) = buildRoutes (svc_host svc) (svc_parse svc) now db environment limits
             (denyRulesFor (svc_parse svc) db publicUrl) targetId;
          (references, missing) = buildReferences (svc_read_file svc) (svc_sha svc) routes integrations
             (credentialVault (svc_dec svc) (svc_platformKey svc) db environment)
      in \<lparr>bcf_configVersion = CONFIG_VERSION, bcf_environment = environment, bcf_limits = limits,
          bcf_settings = resolveGatewaySettings (List.map_filter read_row (db_settings db))
            \<lparr>ss_environment = environment, ss_targetId = (case targetId of Some t \<Rightarrow> t | None \<Rightarrow> [])\<rparr>,
          bcf_routes = routes,
          bcf_subscriptions = buildSubscriptions (svc_dec svc) (svc_hashKey svc) db environment,
          bcf_certificates = buildCertificates db environment, bcf_trustAnchors = liveAnchorsFor db environment now,
          bcf_references = references,
          bcf_errors = errors @ concat (map (\<lambda>ref. map (\<lambda>r. (bt_resourceId r, UnresolvedRef ref)) (named_by routes ref)) missing)\<rparr>)"

definition artifactDigestsFor :: "js_host \<Rightarrow> url_parser \<Rightarrow> string \<Rightarrow> DB \<Rightarrow> string \<Rightarrow> Integrations \<Rightarrow> string \<Rightarrow> string list" where
  "artifactDigestsFor host parse now db environment integrations publicUrl =
     remdups (concat (map (\<lambda>r. map ar_digest (bt_artifacts r))
       (fst (buildRoutes host parse now db environment (limitsFor integrations) (denyRulesFor parse db publicUrl) None))))"

section \<open>Definitions: what the gateway makes of a TLS exception\<close>

text \<open>\<^verbatim>\<open>tlsOptionsFor\<close> of the gateway's pipeline. \<^verbatim>\<open>material\<close> is the client identity (certificate, key, chain) and
  \<^verbatim>\<open>anchors\<close> the environment's bundle; \<^verbatim>\<open>nowMs\<close> is the instance's clock.\<close>

record TlsOptions =
  to_client :: "(string \<times> string) option"
  to_ca :: "string option"
  to_rejectUnauthorized :: bool
  to_checksHostname :: bool
  to_pin :: "string option"

definition live_tls_mode :: "ConfigBackendTls \<Rightarrow> int \<Rightarrow> tls_mode" where
  "live_tls_mode tls nowMs =
     (if (case tls_expiresAt tls of None \<Rightarrow> False | Some e \<Rightarrow> (case Date_parse e of Some t \<Rightarrow> t \<le> nowMs | None \<Rightarrow> False))
      then TlsVerify else tls_mode_of tls)"

definition tlsOptionsFor ::
  "ConfigBackend \<Rightarrow> string \<Rightarrow> (string \<times> string \<times> string option) option \<Rightarrow> string option \<Rightarrow> int \<Rightarrow> TlsOptions option" where
  "tlsOptionsFor backend backendUrl material bundle nowMs =
     (let tls = cbk_tls backend; mode = live_tls_mode tls nowMs;
          anchors = (if mode = TlsInsecure then None else bundle);
          chain = (case material of Some (_, _, c) \<Rightarrow> c | None \<Rightarrow> None);
          ca = js_join [CHR 0x0A] (filter (\<lambda>p. p \<noteq> []) (List.map_filter id [anchors, chain]));
          pin = (if mode = TlsPin then tls_pinThumbprint tls else None)
      in if mode = TlsVerify \<and> material = None \<and> anchors = None then None
         else (let options = \<lparr>to_client = map_option (\<lambda>(c, k, _). (c, k)) material, to_ca = (if ca = [] then None else Some ca),
                     to_rejectUnauthorized = (mode \<noteq> TlsInsecure \<and> pin = None),
                     to_checksHostname = (mode \<noteq> TlsSkipHostname), to_pin = pin\<rparr>
               in if to_client options = None \<and> to_ca options = None \<and> to_rejectUnauthorized options \<and> to_checksHostname options
                  then None else Some options))"

section \<open>Lemmas\<close>

lemma rights_mem: "x \<in> set (rights rs) \<longleftrightarrow> Inr x \<in> set rs"
  by (force simp: rights_def List.map_filter_def split: sum.splits)

lemma blocked_member_None: "blocked_member parse rules e pool = None \<longleftrightarrow>
    list_all (\<lambda>entry. matchingDenyRule parse (be_url entry) rules (Some e) = None) pool"
  by (auto simp: blocked_member_def first_some_None list_all_iff)

lemma route_row_release: "route_row db rel = Some row \<Longrightarrow> res_id (rr_resource row) = rel_resource rel \<and> rev_id (rr_revision row) = rel_revision rel"
  by (auto simp: route_row_def find_Some_iff split: option.splits)

lemma build_route_Inr:
  assumes "build_route host parse now db environment limits rules row = Inr r"
  shows "bt_resourceId r = res_id (rr_resource row)" "bt_revisionId r = rev_id (rr_revision row)" "bt_kind r = res_kind (rr_resource row)"
    "cbk_pool (bt_backend r) = bp_pool (readBackendPool (rr_backend row))"
    "validateDocument host (activeDocument (effectiveDocument db (res_id (rr_resource row)) environment)) (Some (res_kind (rr_resource row))) False = []"
    "blocked_member parse rules environment (bp_pool (readBackendPool (rr_backend row))) = None"
  using assms by (auto simp: build_route_def Let_def split: if_splits option.splits prod.splits)

lemma live_slots_alive: "enc \<in> set (live_slots row) \<Longrightarrow>
    enc = sbr_primary_enc row \<and> sbr_primary_expired_at row = None \<or>
    sbr_secondary_enc row = Some enc \<and> enc \<noteq> [] \<and> sbr_secondary_expired_at row = None"
  by (auto simp: live_slots_def List.map_filter_def split: if_splits)

lemma buildSubscriptions_mem: "s \<in> set (buildSubscriptions dec hashKey db environment) \<Longrightarrow>
    \<exists>row\<in>set (db_subscription db). serving_subscription environment row \<and> build_subscription dec hashKey db row = Some s"
  by (auto simp: buildSubscriptions_def List.map_filter_def)

lemma build_subscription_Some: "build_subscription dec hashKey db row = Some s \<Longrightarrow>
    sub_id s = sbr_id row \<and> sub_keyHashes s = map (\<lambda>enc. hashKey (dec enc)) (live_slots row) \<and>
    map_of (db_application db) (sbr_application row) \<noteq> None \<and> map_of (db_product db) (sbr_product row) \<noteq> None"
  by (auto simp: build_subscription_def split: option.splits)

lemma number_or_min: "min (number_or v d) m \<le> (m :: rat)"
  by simp

section \<open>Properties\<close>

text \<open>C33: Everything an environment serves was released there and is allowed: each route of the document is a converged
  release of its API in that environment, at the revision that release names and, when the document is for one
  gateway, published on that gateway; its effective policy passes the whole-document check; and no backend of
  its pool matches a deny rule, also one written after the route was released.\<close>

theorem served_routes_are_released_and_allowed:
  "list_all (\<lambda>r.
     list_ex (\<lambda>rel. rel_env rel = environment \<and> rel_state rel = Converged \<and> serves_on db targetId rel \<and>
        rel_resource rel = bt_resourceId r \<and> rel_revision rel = bt_revisionId r) (db_release db) \<and>
     validateDocument host (activeDocument (effectiveDocument db (bt_resourceId r) environment)) (Some (bt_kind r)) False = [] \<and>
     list_all (\<lambda>entry. matchingDenyRule parse (be_url entry) rules (Some environment) = None) (cbk_pool (bt_backend r)))
   (fst (buildRoutes host parse now db environment limits rules targetId))"
  unfolding list_all_iff
proof
  fix r
  assume "r \<in> set (fst (buildRoutes host parse now db environment limits rules targetId))"
  then obtain row where row: "row \<in> set (route_rows db environment targetId)"
    and b: "build_route host parse now db environment limits rules row = Inr r"
    by (auto simp: buildRoutes_def Let_def rights_mem)
  from row obtain rel where rel: "rel \<in> set (db_release db)" "rel_env rel = environment" "rel_state rel = Converged"
    "serves_on db targetId rel" "route_row db rel = Some row"
    by (auto simp: route_rows_def List.map_filter_def)
  note f = build_route_Inr [OF b] route_row_release [OF rel(5)]
  show "list_ex (\<lambda>rel. rel_env rel = environment \<and> rel_state rel = Converged \<and> serves_on db targetId rel \<and>
        rel_resource rel = bt_resourceId r \<and> rel_revision rel = bt_revisionId r) (db_release db) \<and>
     validateDocument host (activeDocument (effectiveDocument db (bt_resourceId r) environment)) (Some (bt_kind r)) False = [] \<and>
     (\<forall>entry\<in>set (cbk_pool (bt_backend r)). matchingDenyRule parse (be_url entry) rules (Some environment) = None)"
    using f rel by (auto simp: list_ex_iff blocked_member_None list_all_iff)
qed

text \<open>An owner cannot buy more of the instance than the administrator's ceilings: whatever the policy says, the
  resolved validation unit of a route limits the body, the depth, the elements, the concurrency and the logged
  excerpt at or below the ceilings of the document.\<close>

lemma validation_clamped:
  "let v = validateFor kind policy ceilings xml; always = the (member v ''always'') in
     (\<exists>n. member always ''maxBodyBytes'' = Some (JNum n) \<and> n \<le> of_nat (vl_maxBodyBytes ceilings)) \<and>
     (\<exists>n. member always ''maxDepth'' = Some (JNum n) \<and> n \<le> of_nat (xl_maxDepth xml)) \<and>
     (\<exists>n. member (the (member always ''xml'')) ''maxElements'' = Some (JNum n) \<and> n \<le> of_nat (xl_maxElements xml)) \<and>
     (\<exists>n. member v ''maxConcurrent'' = Some (JNum n) \<and> n \<le> of_nat (vl_maxConcurrent ceilings)) \<and>
     (\<exists>n. member (the (member v ''logEvents'')) ''includeBodyExcerptBytes'' = Some (JNum n) \<and> n \<le> of_nat (vl_maxIncludeBodyExcerptBytes ceilings))"
  by (simp add: validateFor_def resolved_always_def Let_def)

definition tls_example :: "int \<Rightarrow> DB" where
  "tls_example expires = empty_db\<lparr>db_tls_exception := [\<lparr>tex_id = ''tlsx1'', tex_resource = ''r1'', tex_env = ''prod'',
     tex_backend_url = Some ''https://a.example'', tex_mode = TlsInsecure, tex_pin = None, tex_reason = ''self-signed until Friday'',
     tex_expires_at = toISOString expires, tex_revoked_at = None\<rparr>]\<rparr>"

definition tls_example_backend :: "int \<Rightarrow> int \<Rightarrow> ConfigBackend" where
  "tls_example_backend expires now = \<lparr>cbk_pool = [\<lparr>be_url = ''https://a.example'', be_weight = None\<rparr>, \<lparr>be_url = ''https://b.example'', be_weight = None\<rparr>],
     cbk_rule = Failover, cbk_clientCertRef = None, cbk_tls = tlsFor (tls_example expires) ''r1'' ''prod'' (toISOString now)\<rparr>"

text \<open>A TLS exception granted for one backend covers the whole pool: the exception for \<^verbatim>\<open>https://a.example\<close> turns
  verification off for \<^verbatim>\<open>https://b.example\<close> too, for as long as it lasts, because the document carries its mode
  without the URL it was granted for.\<close>

lemma tls_exception_covers_whole_pool:
  assumes "iso_range now" "iso_range expires" "now < expires"
  shows "(case tlsOptionsFor (tls_example_backend expires now) ''https://b.example'' None bundle now of
     Some options \<Rightarrow> to_rejectUnauthorized options = False | None \<Rightarrow> False)"
proof -
  have "toISOString now < toISOString expires" using assms by (rule toISOString_less)
  moreover have "Date_parse (toISOString expires) = Some expires" using assms(2) by (rule parse_toISOString)
  ultimately show ?thesis
    using assms(3)
    by (simp add: tlsOptionsFor_def tls_example_backend_def tlsFor_def tls_example_def live_tls_mode_def List.map_filter_def)
qed

lemma tls_exception_covers_whole_pool_example:
  "case tlsOptionsFor (tls_example_backend 60000 0) ''https://b.example'' None None 0 of
     Some options \<Rightarrow> to_rejectUnauthorized options = False | None \<Rightarrow> False"
  by (rule tls_exception_covers_whole_pool) (simp_all add: iso_range_near)

end
