(* ===== verification/KeyExpiry.thy ===== *)
theory KeyExpiry
  imports ConfigBuild
begin

declare map_of_eq_Some_iff [simp del] Some_eq_map_of_iff [simp del]

text \<open>
  The retirement of subscription keys (\<^verbatim>\<open>control-plane/src/key-expiry.ts\<close>): the pass marks the slots whose key is older than
  the policy, and \<^verbatim>\<open>buildSubscriptions\<close> leaves a marked slot out. The clock and the stamp are arguments. The mail to the
  consumer and the rotation of the platform's own keys, whose subscriptions the pass skips, are left out. The
  theorem follows a key from the pass through the document into the gateway's table.
\<close>

section \<open>Definitions\<close>

datatype key_slot = Primary | Secondary

definition DAY_MS :: rat where
  "DAY_MS = 86400000"

definition keyAgeDays :: "string option \<Rightarrow> string \<Rightarrow> int \<Rightarrow> rat" where
  "keyAgeDays mintedAt createdAt now = (case Date_parse (case mintedAt of Some m \<Rightarrow> m | None \<Rightarrow> createdAt) of
       None \<Rightarrow> 0 | Some t \<Rightarrow> max 0 (of_int (now - t) / DAY_MS))"

definition slot_age :: "int \<Rightarrow> SubscriptionRow \<Rightarrow> key_slot \<Rightarrow> rat" where
  "slot_age now row slot = keyAgeDays (case slot of Primary \<Rightarrow> sbr_primary_at row | Secondary \<Rightarrow> sbr_secondary_at row) (sbr_created_at row) now"

definition slot_expired :: "SubscriptionRow \<Rightarrow> key_slot \<Rightarrow> bool" where
  "slot_expired row slot = (case slot of Primary \<Rightarrow> sbr_primary_expired_at row \<noteq> None | Secondary \<Rightarrow> sbr_secondary_expired_at row \<noteq> None)"

definition slots_of :: "SubscriptionRow \<Rightarrow> key_slot list" where
  "slots_of row = Primary # (case sbr_secondary_enc row of Some k \<Rightarrow> if k \<noteq> [] then [Secondary] else [] | None \<Rightarrow> [])"

definition aging_row :: "DB \<Rightarrow> SubscriptionRow \<Rightarrow> bool" where
  "aging_row db row \<longleftrightarrow> sbr_state row = SActive \<and> sbr_application row \<noteq> ''platform'' \<and>
     map_of (db_application db) (sbr_application row) \<noteq> None \<and> map_of (db_product db) (sbr_product row) \<noteq> None"

definition due_slots :: "rat \<Rightarrow> int \<Rightarrow> SubscriptionRow \<Rightarrow> key_slot list" where
  "due_slots expireDays now row = filter (\<lambda>slot. \<not> slot_expired row slot \<and> expireDays \<le> slot_age now row slot) (slots_of row)"

definition warned_slots :: "rat \<Rightarrow> rat \<Rightarrow> int \<Rightarrow> SubscriptionRow \<Rightarrow> key_slot list" where
  "warned_slots expireDays warnDays now row =
     filter (\<lambda>slot. \<not> slot_expired row slot \<and> slot_age now row slot < expireDays \<and> warnDays \<le> slot_age now row slot) (slots_of row)"

definition mark_slot :: "string \<Rightarrow> key_slot \<Rightarrow> SubscriptionRow \<Rightarrow> SubscriptionRow" where
  "mark_slot stamp slot row = (case slot of
       Primary \<Rightarrow> row\<lparr>sbr_primary_expired_at := Some stamp\<rparr> | Secondary \<Rightarrow> row\<lparr>sbr_secondary_expired_at := Some stamp\<rparr>)"

definition expire_slot :: "string \<Rightarrow> DB \<Rightarrow> string \<times> key_slot \<Rightarrow> DB" where
  "expire_slot stamp db = (\<lambda>(sid, slot). writeAudit ''key-expiry'' ''subscription.key-expired'' (''subscription:'' @ sid) True
     (db\<lparr>db_subscription := map (\<lambda>s. if sbr_id s = sid then mark_slot stamp slot s else s) (db_subscription db)\<rparr>))"

definition due_work :: "rat \<Rightarrow> int \<Rightarrow> DB \<Rightarrow> (string \<times> key_slot) list" where
  "due_work expireDays now db = concat (map (\<lambda>row. map (Pair (sbr_id row)) (due_slots expireDays now row))
     (filter (aging_row db) (db_subscription db)))"

definition runKeyExpiry :: "rat \<Rightarrow> rat \<Rightarrow> int \<Rightarrow> string \<Rightarrow> DB \<Rightarrow> DB \<times> nat \<times> nat" where
  "runKeyExpiry expireDays warnDays now stamp db =
     (let due = due_work expireDays now db in
      (foldl (expire_slot stamp) db due, length due,
       length (concat (map (warned_slots expireDays warnDays now) (filter (aging_row db) (db_subscription db))))))"

section \<open>Lemmas\<close>

lemma expire_slot_fields [simp]:
  "db_application (expire_slot stamp db w) = db_application db" "db_product (expire_slot stamp db w) = db_product db"
  by (simp_all add: expire_slot_def writeAudit_def split: prod.splits)

lemma expire_fields [simp]:
  "db_application (foldl (expire_slot stamp) db due) = db_application db" "db_product (foldl (expire_slot stamp) db due) = db_product db"
  by (induction due arbitrary: db) auto

text \<open>What the pass leaves of a row: the marks are its only change.\<close>

fun marks :: "string \<Rightarrow> (string \<times> key_slot) list \<Rightarrow> SubscriptionRow \<Rightarrow> SubscriptionRow" where
  "marks stamp [] s = s"
| "marks stamp ((sid, slot) # due) s = marks stamp due (if sbr_id s = sid then mark_slot stamp slot s else s)"

lemma mark_slot_fields [simp]:
  "sbr_id (mark_slot stamp slot s) = sbr_id s" "sbr_state (mark_slot stamp slot s) = sbr_state s"
  "sbr_application (mark_slot stamp slot s) = sbr_application s" "sbr_product (mark_slot stamp slot s) = sbr_product s"
  "sbr_primary_enc (mark_slot stamp slot s) = sbr_primary_enc s" "sbr_secondary_enc (mark_slot stamp slot s) = sbr_secondary_enc s"
  "sbr_primary_at (mark_slot stamp slot s) = sbr_primary_at s" "sbr_secondary_at (mark_slot stamp slot s) = sbr_secondary_at s"
  "sbr_created_at (mark_slot stamp slot s) = sbr_created_at s" "sbr_env (mark_slot stamp slot s) = sbr_env s"
  by (simp_all add: mark_slot_def split: key_slot.splits)

lemma slot_expired_mark [simp]: "slot_expired (mark_slot stamp slot s) slot' \<longleftrightarrow> slot' = slot \<or> slot_expired s slot'"
  by (auto simp: slot_expired_def mark_slot_def split: key_slot.splits)

lemma expire_rows: "db_subscription (foldl (expire_slot stamp) db due) = map (marks stamp due) (db_subscription db)"
  by (induction due arbitrary: db) (auto simp: expire_slot_def writeAudit_def map_idI)

lemma marks_fields [simp]:
  "sbr_id (marks stamp due s) = sbr_id s" "sbr_state (marks stamp due s) = sbr_state s"
  "sbr_application (marks stamp due s) = sbr_application s" "sbr_product (marks stamp due s) = sbr_product s"
  "slot_age now (marks stamp due s) slot = slot_age now s slot" "slots_of (marks stamp due s) = slots_of s"
  by (induction stamp due s rule: marks.induct) (simp_all add: slot_age_def slots_of_def cong: key_slot.case_cong)

lemma marks_expired: "slot_expired (marks stamp due s) slot \<longleftrightarrow> slot_expired s slot \<or> (sbr_id s, slot) \<in> set due"
  by (induction stamp due s rule: marks.induct) (simp, auto split: if_splits)

lemma aging_marks [simp]: "aging_row db (marks stamp due s) = aging_row db s"
  by (simp add: aging_row_def)

lemma run_rows: "db_subscription (fst (runKeyExpiry expireDays warnDays now stamp db)) =
    map (marks stamp (due_work expireDays now db)) (db_subscription db)"
  by (simp add: runKeyExpiry_def Let_def expire_rows)

lemma run_retires:
  assumes "row \<in> set (db_subscription (fst (runKeyExpiry expireDays warnDays now stamp db)))" "aging_row db row" "slot \<in> set (slots_of row)"
    and "\<not> slot_expired row slot"
  shows "slot_age now row slot < expireDays"
proof -
  from assms(1) obtain s where s: "s \<in> set (db_subscription db)" and row: "row = marks stamp (due_work expireDays now db) s"
    by (auto simp: run_rows)
  show ?thesis
  proof (rule ccontr)
    assume "\<not> slot_age now row slot < expireDays"
    with assms(2-4) s row have "(sbr_id s, slot) \<in> set (due_work expireDays now db)"
      by (auto simp: due_work_def due_slots_def marks_expired)
    with assms(4) row show False by (simp add: marks_expired)
  qed
qed

lemma live_slot_slot: "enc \<in> set (live_slots row) \<Longrightarrow>
    \<exists>slot\<in>set (slots_of row). \<not> slot_expired row slot \<and> enc = (case slot of Primary \<Rightarrow> sbr_primary_enc row | Secondary \<Rightarrow> the (sbr_secondary_enc row))"
  using live_slots_alive [of enc row] by (auto simp: slots_of_def slot_expired_def)

section \<open>Properties\<close>

text \<open>C36: A key past its deadline is unknown to every gateway as soon as the pass has run: in the table a gateway
  makes of the next document, a presented key resolves only to a subscription that is active or activating
  in that environment, through a slot that holds that key and is not retired; and a key of an ordinary active
  subscription only while it is younger than the policy allows.\<close>

theorem expired_key_unknown_to_gateway:
  "let db' = fst (runKeyExpiry expireDays warnDays now stamp db);
       t = new_table (config\<lparr>gc_subscriptions := buildSubscriptions dec hashKey db' environment\<rparr>)
   in case subscriptionByKeyHash t hash of None \<Rightarrow> True
      | Some s \<Rightarrow> list_ex (\<lambda>row. sbr_id row = sub_id s \<and> serving_subscription environment row \<and>
          list_ex (\<lambda>slot. \<not> slot_expired row slot \<and>
            hash = hashKey (dec (case slot of Primary \<Rightarrow> sbr_primary_enc row | Secondary \<Rightarrow> the (sbr_secondary_enc row))) \<and>
            (sbr_state row = SActivating \<or> sbr_application row = ''platform'' \<or> slot_age now row slot < expireDays)) (slots_of row))
        (db_subscription db')"
proof -
  let ?db' = "fst (runKeyExpiry expireDays warnDays now stamp db)"
  let ?t = "new_table (config\<lparr>gc_subscriptions := buildSubscriptions dec hashKey ?db' environment\<rparr>)"
  have fields: "db_application ?db' = db_application db" "db_product ?db' = db_product db"
    by (simp_all add: runKeyExpiry_def Let_def)
  have "list_ex (\<lambda>row. sbr_id row = sub_id s \<and> serving_subscription environment row \<and>
          list_ex (\<lambda>slot. \<not> slot_expired row slot \<and>
            hash = hashKey (dec (case slot of Primary \<Rightarrow> sbr_primary_enc row | Secondary \<Rightarrow> the (sbr_secondary_enc row))) \<and>
            (sbr_state row = SActivating \<or> sbr_application row = ''platform'' \<or> slot_age now row slot < expireDays)) (slots_of row))
        (db_subscription ?db')" if s: "subscriptionByKeyHash ?t hash = Some s" for s
  proof -
    from s subscriptionByKeyHash_listed [of "config\<lparr>gc_subscriptions := buildSubscriptions dec hashKey ?db' environment\<rparr>" hash]
    have "s \<in> set (buildSubscriptions dec hashKey ?db' environment)" "hash \<in> set (sub_keyHashes s)" by auto
    then obtain row where row: "row \<in> set (db_subscription ?db')" "serving_subscription environment row"
      and b: "build_subscription dec hashKey ?db' row = Some s" using buildSubscriptions_mem by blast
    note bs = build_subscription_Some [OF b]
    from bs \<open>hash \<in> set (sub_keyHashes s)\<close> obtain enc where enc: "enc \<in> set (live_slots row)" "hash = hashKey (dec enc)" by auto
    from live_slot_slot [OF enc(1)] obtain slot where slot: "slot \<in> set (slots_of row)" "\<not> slot_expired row slot"
      "enc = (case slot of Primary \<Rightarrow> sbr_primary_enc row | Secondary \<Rightarrow> the (sbr_secondary_enc row))" by blast
    have "sbr_state row = SActivating \<or> sbr_application row = ''platform'' \<or> slot_age now row slot < expireDays"
    proof (cases "aging_row db row")
      case True
      with run_retires [OF row(1) _ slot(1,2)] show ?thesis by blast
    next
      case False
      with bs row(2) show ?thesis by (auto simp: aging_row_def serving_subscription_def fields)
    qed
    with row slot enc bs show ?thesis by (auto simp: list_ex_iff)
  qed
  then show ?thesis by (auto simp: Let_def split: option.splits)
qed

end
