(* ===== verification/Releases.thy ===== *)
theory Releases
  imports Promotion KeyExpiry
begin

declare map_of_eq_Some_iff [simp del] Some_eq_map_of_iff [simp del]

text \<open>
  The job runner and the reconciler (\<^verbatim>\<open>control-plane/src/jobs.ts\<close>) and the requests that feed them
  (\<^verbatim>\<open>api/promotion.ts\<close>, \<^verbatim>\<open>api/resources.ts\<close>). A transaction that throws leaves the database as it found it, so an
  operation answers with its result and the database after it; the lease of a gateway is the one thing a failing
  reconcile may leave changed. The clock is an argument in milliseconds, one reading per call. Identifiers are
  arguments. \<^verbatim>\<open>digest\<close> is the digest of a rendered route.
\<close>

section \<open>Definitions: the environment of a run\<close>

record app_services =
  app_svc :: build_services
  app_chain :: "string list"
  app_integrations :: Integrations
  app_publicUrl :: string
  app_route_digest :: "BuiltRoute \<Rightarrow> string"
  app_holder :: string

definition COMPILER_VERSION :: string where
  "COMPILER_VERSION = ''v3-1''"

datatype job_error = Unrecoverable | TargetMissing | TargetLeased | NoGateway | GatewaysPaused | PlanMissing | ResourceGone
  | PlanBlocked "blocker_code list" | NoRouteToPublish | UnknownKind

type_synonym 'a attempt = "(job_error + 'a) \<times> DB"

section \<open>Definitions: jobs\<close>

definition MAX_ATTEMPTS :: nat where
  "MAX_ATTEMPTS = 3"

definition enqueueJob :: "string \<Rightarrow> string \<Rightarrow> string \<Rightarrow> job_payload \<Rightarrow> string option \<Rightarrow> DB \<Rightarrow> string \<times> DB" where
  "enqueueJob jid stamp kind payload idempotencyKey db =
     (case (case idempotencyKey of None \<Rightarrow> None | Some k \<Rightarrow> if k = [] then None else find (\<lambda>j. job_key j = Some k) (db_job db)) of
        Some existing \<Rightarrow> (job_id existing, db)
      | None \<Rightarrow> (jid, db\<lparr>db_job := db_job db @ [\<lparr>job_id = jid, job_kind = kind, job_state = JQueued, job_payload = payload,
          job_key = idempotencyKey, job_attempts = 0, job_result = None, job_next_attempt_at = None, job_created_at = stamp, job_updated_at = stamp\<rparr>]\<rparr>))"

definition set_lease :: "string \<Rightarrow> string option \<Rightarrow> string option \<Rightarrow> DB \<Rightarrow> DB" where
  "set_lease target holder until db =
     db\<lparr>db_target := map (\<lambda>t. if tgt_id t = target then t\<lparr>tgt_lease_holder := holder, tgt_lease_expires_at := until\<rparr> else t) (db_target db)\<rparr>"

definition leased_by_other :: "string \<Rightarrow> int \<Rightarrow> TargetRow \<Rightarrow> bool" where
  "leased_by_other holder nowMs t = (case tgt_lease_holder t of None \<Rightarrow> False
     | Some h \<Rightarrow> h \<noteq> [] \<and> h \<noteq> holder \<and> (case tgt_lease_expires_at t of None \<Rightarrow> False
         | Some e \<Rightarrow> (case Date_parse e of Some x \<Rightarrow> nowMs < x | None \<Rightarrow> False)))"

definition release_own_lease :: "string \<Rightarrow> string \<Rightarrow> DB \<Rightarrow> DB" where
  "release_own_lease target holder db =
     db\<lparr>db_target := map (\<lambda>t. if tgt_id t = target \<and> tgt_lease_holder t = Some holder
       then t\<lparr>tgt_lease_holder := None, tgt_lease_expires_at := None\<rparr> else t) (db_target db)\<rparr>"

definition withTargetLease :: "string \<Rightarrow> int \<Rightarrow> string \<Rightarrow> (DB \<Rightarrow> 'a attempt) \<Rightarrow> DB \<Rightarrow> 'a attempt" where
  "withTargetLease holder nowMs target fn db =
     (case find (\<lambda>t. tgt_id t = target) (db_target db) of
        None \<Rightarrow> (Inl TargetMissing, db)
      | Some row \<Rightarrow>
          if leased_by_other holder nowMs row then (Inl TargetLeased, db)
          else (let (r, db') = fn (set_lease target (Some holder) (Some (toISOString (nowMs + 30000))) db)
                in (r, release_own_lease target holder db')))"

section \<open>Definitions: the reconciler\<close>

definition set_release :: "(ReleaseRow \<Rightarrow> bool) \<Rightarrow> ReleaseState \<Rightarrow> string option option \<Rightarrow> DB \<Rightarrow> DB" where
  "set_release P s reason db =
     db\<lparr>db_release := map (\<lambda>r. if P r then (case reason of None \<Rightarrow> r\<lparr>rel_state := s\<rparr> | Some x \<Rightarrow> r\<lparr>rel_state := s, rel_reason := x\<rparr>) else r)
       (db_release db)\<rparr>"

definition in_scope :: "string \<Rightarrow> string \<Rightarrow> ReleaseRow \<Rightarrow> bool" where
  "in_scope resource environment r \<longleftrightarrow> rel_resource r = resource \<and> rel_env r = environment"

text \<open>The rows after the one of an identifier: \<^verbatim>\<open>rowid > (SELECT rowid \<dots> WHERE id = ?)\<close>.\<close>

definition later_rows :: "string \<Rightarrow> ReleaseRow list \<Rightarrow> ReleaseRow list" where
  "later_rows rid rows = tl (dropWhile (\<lambda>r. rel_id r \<noteq> rid) rows)"

definition withdraw :: "string \<Rightarrow> string \<Rightarrow> DB \<Rightarrow> DB" where
  "withdraw resource environment db =
     (let db1 = set_release (\<lambda>r. in_scope resource environment r \<and> rel_state r = Converged) Withdrawn None db;
          db2 = set_release (\<lambda>r. in_scope resource environment r \<and> rel_state r = Pending) Stale
                  (Some (Some ''withdrawn before it was applied; release it again to publish it'')) db1;
          here = map tgt_id (filter (\<lambda>t. tgt_env t = environment) (db_target db2))
      in writeAudit ''reconciler'' ''reconcile.remove'' (''resource:'' @ resource) True
           (db2\<lparr>db_applied := filter (\<lambda>a. \<not> (app_resource a = resource \<and> app_target a \<in> set here)) (db_applied db2),
                db_route_gateway := filter (\<lambda>(r, e, _). \<not> (r = resource \<and> e = environment)) (db_route_gateway db2)\<rparr>))"

definition overtaken_by :: "string \<Rightarrow> string \<Rightarrow> string \<Rightarrow> DB \<Rightarrow> ReleaseRow option" where
  "overtaken_by resource environment rid db =
     find (\<lambda>r. in_scope resource environment r \<and> reached (rel_state r)) (later_rows rid (db_release db))"

definition converge :: "string \<Rightarrow> string \<Rightarrow> string \<Rightarrow> DB \<Rightarrow> DB" where
  "converge resource environment rid db =
     set_release (\<lambda>r. rel_id r = rid) Converged (Some None)
       (set_release (\<lambda>r. in_scope resource environment r \<and> rel_state r = Converged \<and> rel_id r \<noteq> rid) Superseded None db)"

definition recompute_plan :: "app_services \<Rightarrow> string \<Rightarrow> ReleaseRow \<Rightarrow> string \<Rightarrow> bool \<Rightarrow> DB \<Rightarrow> job_error + ReleasePlan" where
  "recompute_plan app resource rel environment skipChain db =
     (case (getResource db resource, find (\<lambda>v. rev_id v = rel_revision rel) (db_revision db)) of
        (Some r, Some v) \<Rightarrow>
          (let plan = computePlan (svc_host (app_svc app)) (app_chain app) db
                 \<lparr>pin_resource = r, pin_revision = rev_id v, pin_rev = rev_rev v, pin_environment = environment, pin_skipChain = skipChain\<rparr>
           in if plan_blockers plan \<noteq> [] then Inl (PlanBlocked (plan_blockers plan)) else Inr plan)
      | _ \<Rightarrow> Inl ResourceGone)"

definition seed_plan :: "app_services \<Rightarrow> string \<Rightarrow> string option \<Rightarrow> string \<Rightarrow> ReleaseRow \<Rightarrow> string \<Rightarrow> DB \<Rightarrow> job_error + DB" where
  "seed_plan app resource planId environment rel stamp db = (case planId of None \<Rightarrow> Inr db
     | Some p \<Rightarrow> if p = [] then Inr db
         else (case find (\<lambda>q. rpl_id q = p) (db_plan db) of
             None \<Rightarrow> Inl PlanMissing
           | Some row \<Rightarrow> (case recompute_plan app resource rel environment (plan_skipChain (rpl_plan row)) db of
               Inl e \<Rightarrow> Inl e
             | Inr plan \<Rightarrow> Inr (applySeededUnits plan (rel_released_by rel) stamp db))))"

definition bind_gateways :: "string \<Rightarrow> string \<Rightarrow> DB \<Rightarrow> string list \<times> DB" where
  "bind_gateways resource environment db =
     (let bound = bound_targets db resource environment in
      if bound \<noteq> [] then (bound, db)
      else (let ids = map tgt_id (filter (\<lambda>t. tgt_env t = environment) (db_target db))
            in (ids, db\<lparr>db_route_gateway := db_route_gateway db @ map (\<lambda>i. (resource, environment, i)) ids\<rparr>)))"

definition record_applied :: "string \<Rightarrow> string \<Rightarrow> string \<Rightarrow> string \<Rightarrow> string list \<Rightarrow> DB \<Rightarrow> DB" where
  "record_applied resource revision digest stamp targets db =
     db\<lparr>db_applied := foldl (\<lambda>rows t. upsert_applied \<lparr>app_target = t, app_resource = resource, app_revision = revision, app_digest = digest,
        app_compiler = COMPILER_VERSION, app_at = stamp\<rparr> rows) (db_applied db) targets\<rparr>"

definition built_route :: "app_services \<Rightarrow> int \<Rightarrow> DB \<Rightarrow> string \<Rightarrow> string \<Rightarrow> BuiltRoute option" where
  "built_route app nowMs db environment resource =
     find (\<lambda>r. bt_resourceId r = resource) (fst (buildRoutes (svc_host (app_svc app)) (svc_parse (app_svc app)) (toISOString nowMs) db environment
       (limitsFor (app_integrations app)) (denyRulesFor (svc_parse (app_svc app)) db (app_publicUrl app)) None))"

definition apply_release :: "app_services \<Rightarrow> int \<Rightarrow> ReconcilePayload \<Rightarrow> string \<Rightarrow> DB \<Rightarrow> string attempt" where
  "apply_release app nowMs payload environment db =
     (let resource = rp_resourceId payload; stamp = toISOString nowMs in
      case (case rp_releaseId payload of None \<Rightarrow> None | Some i \<Rightarrow> release_by_id db i) of
        None \<Rightarrow> (Inr ''nothing to apply: the release no longer exists'', db)
      | Some rel \<Rightarrow>
          if rel_state rel \<noteq> Pending then (Inr ''nothing to apply'', db)
          else (case overtaken_by resource environment (rel_id rel) db of
              Some newer \<Rightarrow> (Inr ''stale'', writeAudit ''reconciler'' ''reconcile.stale'' (''resource:'' @ resource) True
                (set_release (\<lambda>r. rel_id r = rel_id rel) Stale (Some (Some (''release '' @ rel_id newer @ '' reached it first''))) db))
            | None \<Rightarrow> (case seed_plan app resource (rp_planId payload) environment rel stamp db of
                Inl e \<Rightarrow> (Inl e, db)
              | Inr db1 \<Rightarrow>
                  (let db2 = converge resource environment (rel_id rel) db1 in
                   case built_route app nowMs db2 environment resource of
                     None \<Rightarrow> (Inl NoRouteToPublish, db)
                   | Some route \<Rightarrow>
                       (let (bound, db3) = bind_gateways resource environment db2
                        in (Inr ''converged'', writeAudit ''reconciler'' ''reconcile.apply'' (''resource:'' @ resource) True
                             (record_applied resource (rel_revision rel) (app_route_digest app route) stamp bound db3)))))))"

definition payload_release :: "DB \<Rightarrow> ReconcilePayload \<Rightarrow> ReleaseRow option" where
  "payload_release db payload = (case rp_releaseId payload of None \<Rightarrow> None | Some i \<Rightarrow> if i = [] then None else release_by_id db i)"

definition payload_environment :: "DB \<Rightarrow> ReconcilePayload \<Rightarrow> string option" where
  "payload_environment db payload =
     (case find (\<lambda>t. tgt_id t = rp_targetId payload) (db_target db) of
        Some handle \<Rightarrow> Some (tgt_env handle)
      | None \<Rightarrow> (case rp_environment payload of Some e \<Rightarrow> Some e | None \<Rightarrow> map_option rel_env (payload_release db payload)))"

definition affected_gateways :: "DB \<Rightarrow> ReconcilePayload \<Rightarrow> string \<Rightarrow> TargetRow list" where
  "affected_gateways db payload environment =
     (let bound = bound_targets db (rp_resourceId payload) environment in
      filter (\<lambda>t. rp_intent payload = Remove \<or> bound = [] \<or> tgt_id t \<in> set bound) (gatewaysIn db environment))"

definition reconcile :: "app_services \<Rightarrow> int \<Rightarrow> ReconcilePayload \<Rightarrow> DB \<Rightarrow> string attempt" where
  "reconcile app nowMs payload db =
     (if rp_releaseId payload \<noteq> None \<and> rp_releaseId payload \<noteq> Some [] \<and> payload_release db payload = None
      then (Inr ''nothing to apply: the release no longer exists'', db)
      else (case payload_environment db payload of
          None \<Rightarrow> (Inl Unrecoverable, db)
        | Some environment \<Rightarrow>
            if environment = [] then (Inl Unrecoverable, db)
            else (let affected = affected_gateways db payload environment in
              if rp_intent payload = Apply \<and> affected = [] then (Inl NoGateway, db)
              else if list_ex tgt_paused affected then (Inl GatewaysPaused, db)
              else (let target = (if list_ex (\<lambda>t. tgt_id t = rp_targetId payload) (db_target db) then rp_targetId payload
                          else (case affected of t # _ \<Rightarrow> tgt_id t | [] \<Rightarrow> rp_targetId payload))
                    in withTargetLease (app_holder app) nowMs target (\<lambda>db.
                         if rp_intent payload = Remove
                         then (Inr ''withdrawn'', withdraw (rp_resourceId payload) environment db)
                         else apply_release app nowMs payload environment db) db))))"

section \<open>Definitions: the runner\<close>

definition set_job :: "string \<Rightarrow> (JobRow \<Rightarrow> JobRow) \<Rightarrow> DB \<Rightarrow> DB" where
  "set_job jid f db = db\<lparr>db_job := map (\<lambda>j. if job_id j = jid then f j else j) (db_job db)\<rparr>"

definition backoff_ms :: "nat \<Rightarrow> int" where
  "backoff_ms attempts = min 300000 (1000 * 2 ^ min attempts 8)"

definition fail_release :: "job_payload \<Rightarrow> DB \<Rightarrow> DB" where
  "fail_release payload db = (case payload of
       ReconcileJob p \<Rightarrow> (case rp_releaseId p of None \<Rightarrow> db
         | Some i \<Rightarrow> set_release (\<lambda>r. rel_id r = i \<and> rel_state r = Pending) Failed (Some (Some ''the job failed'')) db)
     | OtherJob _ \<Rightarrow> db)"

text \<open>The other kinds of job change no table of this model; whether one succeeds is an argument.\<close>

definition run_payload :: "app_services \<Rightarrow> (string \<Rightarrow> bool) \<Rightarrow> int \<Rightarrow> JobRow \<Rightarrow> DB \<Rightarrow> string attempt" where
  "run_payload app other_ok nowMs job db = (case job_payload job of
       ReconcileJob p \<Rightarrow> if job_kind job = ''reconcile'' then reconcile app nowMs p db else (Inl UnknownKind, db)
     | OtherJob _ \<Rightarrow> if (job_kind job = ''prune'' \<or> job_kind job = ''compile-artifacts'') \<and> other_ok (job_id job) then (Inr ''ok'', db)
         else (Inl UnknownKind, db))"

definition finishes :: "job_error \<Rightarrow> JobRow \<Rightarrow> nat \<Rightarrow> bool" where
  "finishes e job attempts \<longleftrightarrow> e = Unrecoverable \<or> job_kind job \<noteq> ''reconcile'' \<and> MAX_ATTEMPTS \<le> attempts"

definition run_job :: "app_services \<Rightarrow> (string \<Rightarrow> bool) \<Rightarrow> int \<Rightarrow> DB \<Rightarrow> JobRow \<Rightarrow> DB" where
  "run_job app other_ok nowMs db job =
     (let stamp = toISOString nowMs; attempts = job_attempts job + 1;
          db1 = set_job (job_id job) (\<lambda>j. j\<lparr>job_state := JRunning, job_attempts := job_attempts j + 1, job_updated_at := stamp\<rparr>) db
      in case run_payload app other_ok nowMs job db1 of
           (Inr result, db2) \<Rightarrow> set_job (job_id job) (\<lambda>j. j\<lparr>job_state := JDone, job_result := Some result, job_updated_at := stamp\<rparr>) db2
         | (Inl e, db2) \<Rightarrow>
             (let db3 = set_job (job_id job) (\<lambda>j. j\<lparr>job_next_attempt_at := Some (toISOString (nowMs + backoff_ms attempts)),
                    job_state := (if finishes e job attempts then JFailed else JQueued), job_result := Some ''error'', job_updated_at := stamp\<rparr>) db2
              in if finishes e job attempts
                 then writeAudit ''reconciler'' ''reconcile.failed'' (''job:'' @ job_id job) False (fail_release (job_payload job) db3)
                 else db3))"

definition requeue_stuck :: "int \<Rightarrow> DB \<Rightarrow> DB" where
  "requeue_stuck nowMs db =
     db\<lparr>db_job := map (\<lambda>j. if job_state j = JRunning \<and> job_updated_at j < toISOString (nowMs - 60000) then j\<lparr>job_state := JQueued\<rparr> else j) (db_job db)\<rparr>"

definition due_job :: "int \<Rightarrow> JobRow \<Rightarrow> bool" where
  "due_job nowMs j \<longleftrightarrow> job_state j = JQueued \<and> (case job_next_attempt_at j of None \<Rightarrow> True | Some t \<Rightarrow> t \<le> toISOString nowMs)"

definition due_jobs :: "int \<Rightarrow> DB \<Rightarrow> JobRow list" where
  "due_jobs nowMs db = take 20 (sort_key job_created_at (filter (due_job nowMs) (db_job db)))"

text \<open>The pass over the job table; key expiry and the operations pass run before it (\<^verbatim>\<open>runDueJobs\<close>).\<close>

definition run_jobs :: "app_services \<Rightarrow> (string \<Rightarrow> bool) \<Rightarrow> int \<Rightarrow> DB \<Rightarrow> DB" where
  "run_jobs app other_ok nowMs db =
     (let db1 = requeue_stuck nowMs db in foldl (run_job app other_ok nowMs) db1 (due_jobs nowMs db1))"

definition enqueueHourlyPrune :: "string \<Rightarrow> int \<Rightarrow> DB \<Rightarrow> DB" where
  "enqueueHourlyPrune jid nowMs db =
     (let hour = take 13 (toISOString nowMs) in snd (enqueueJob jid (toISOString nowMs) ''prune'' (OtherJob (JStr hour)) (Some (''prune:'' @ hour)) db))"

definition enqueueArtifactBackfill :: "string \<Rightarrow> int \<Rightarrow> DB \<Rightarrow> DB" where
  "enqueueArtifactBackfill jid nowMs db =
     (if \<not> list_ex (\<lambda>v. rev_artifact_digest v = None \<and> rev_pruned_at v = None) (db_revision db) then db
      else snd (enqueueJob jid (toISOString nowMs) ''compile-artifacts'' (OtherJob (JStr (toISOString nowMs)))
             (Some (''compile-artifacts:'' @ show_nat (nat nowMs))) db))"

section \<open>Definitions: requests\<close>

definition freeze :: "string \<Rightarrow> string \<Rightarrow> DB \<Rightarrow> DB" where
  "freeze revision stamp db = db\<lparr>db_revision := map (\<lambda>v. if rev_id v = revision \<and> rev_frozen_at v = None
     then v\<lparr>rev_frozen_at := Some stamp\<rparr> else v) (db_revision db)\<rparr>"

record ReleaseRequest =
  rq_resource :: string
  rq_revision :: "nat option"
  rq_environment :: string
  rq_planId :: "string option"
  rq_skipChain :: bool
  rq_reason :: "string option"

definition plan_usable :: "DB \<Rightarrow> string \<Rightarrow> string \<Rightarrow> string \<Rightarrow> string \<Rightarrow> http_error option" where
  "plan_usable db planId resource environment revision = (case find (\<lambda>q. rpl_id q = planId) (db_plan db) of
       None \<Rightarrow> Some NotFound
     | Some q \<Rightarrow> if rpl_resource q \<noteq> resource \<or> rpl_env q \<noteq> environment \<or> rpl_revision q \<noteq> revision then Some BadRequest
         else if list_ex (\<lambda>r. rel_plan r = Some planId \<and> rel_state r \<noteq> Stale) (db_release db) then Some Conflict
         else None)"

definition insert_release :: "ReleaseRow \<Rightarrow> DB \<Rightarrow> DB" where
  "insert_release row db = db\<lparr>db_release := db_release db @ [row]\<rparr>"

text \<open>An absent plan identifier and an empty one are both falsy.\<close>

definition plan_named :: "ReleaseRequest \<Rightarrow> string option" where
  "plan_named req = (case rq_planId req of None \<Rightarrow> None | Some p \<Rightarrow> if p = [] then None else Some p)"

definition persistPlan :: "string \<Rightarrow> string \<Rightarrow> string \<Rightarrow> ReleasePlan \<Rightarrow> DB \<Rightarrow> DB" where
  "persistPlan pid actor stamp plan db = db\<lparr>db_plan := db_plan db @ [\<lparr>rpl_id = pid, rpl_resource = plan_resourceId plan,
     rpl_revision = plan_revisionId plan, rpl_env = plan_to plan, rpl_plan = plan, rpl_computed_by = actor, rpl_computed_at = stamp\<rparr>]\<rparr>"

text \<open>The release is recorded as pending, its revision frozen and its job queued.\<close>

definition queue_release ::
  "User \<Rightarrow> string \<Rightarrow> string \<Rightarrow> string \<Rightarrow> ReleaseRequest \<Rightarrow> RevisionRow \<Rightarrow> string \<Rightarrow> TargetRow \<Rightarrow> DB \<Rightarrow> DB" where
  "queue_release user relId jid stamp req v planId target db =
     (let db2 = insert_release \<lparr>rel_id = relId, rel_resource = rq_resource req, rel_revision = rev_id v, rel_env = rq_environment req,
            rel_state = Pending, rel_reason = (if rq_skipChain req then map_option (\<lambda>s. ''skipChain: '' @ s) (rq_reason req) else None),
            rel_version_digest = rev_version_digest v, rel_released_by = usr_id user, rel_released_at = stamp, rel_plan = Some planId\<rparr> db;
          db3 = freeze (rev_id v) stamp db2;
          db4 = snd (enqueueJob jid stamp ''reconcile'' (ReconcileJob \<lparr>rp_targetId = tgt_id target, rp_resourceId = rq_resource req,
            rp_releaseId = Some relId, rp_planId = Some planId, rp_intent = Apply, rp_environment = Some (rq_environment req)\<rparr>)
            (Some (''reconcile:apply:'' @ tgt_id target @ '':'' @ relId)) db3)
      in writeAudit (usr_id user) (if rq_skipChain req then ''release.skipChain'' else ''release.request'')
           (''resource:'' @ rq_resource req) True db4)"

definition revisionFor :: "DB \<Rightarrow> string \<Rightarrow> nat option \<Rightarrow> http_error + RevisionRow" where
  "revisionFor db resource asked =
     (case (if asked = None \<or> asked = Some 0 then latest_revision db resource
            else find (\<lambda>v. rev_resource v = resource \<and> Some (rev_rev v) = asked) (db_revision db)) of
        None \<Rightarrow> Inl NotFound
      | Some v \<Rightarrow> if rev_pruned_at v \<noteq> None then Inl Conflict else Inr v)"

text \<open>\<^verbatim>\<open>POST /api/resources/:id/releases\<close> up to the enqueued job; \<^verbatim>\<open>relId\<close>, \<^verbatim>\<open>jid\<close> and \<^verbatim>\<open>newPlanId\<close> are the fresh
  identifiers. \<^verbatim>\<open>checked_release\<close> is the part a dry run shares: it answers with the revision and the plan.\<close>

definition checked_release :: "app_services \<Rightarrow> User \<Rightarrow> ReleaseRequest \<Rightarrow> DB \<Rightarrow> http_error + RevisionRow \<times> ReleasePlan" where
  "checked_release app user req db =
     (case getResource db (rq_resource req) of None \<Rightarrow> Inl NotFound
      | Some row \<Rightarrow>
          if \<not> can (Some user) (Some (res_application row)) then Inl Forbidden
          else if rq_environment req \<notin> set (app_chain app) then Inl BadRequest
          else (case revisionFor db (rq_resource req) (rq_revision req) of
              Inl e \<Rightarrow> Inl e
            | Inr v \<Rightarrow>
                if rq_skipChain req \<and> \<not> usr_isAdmin user then Inl Forbidden
                else if rq_skipChain req \<and> (case rq_reason req of None \<Rightarrow> True | Some s \<Rightarrow> js_trim s = []) then Inl BadRequest
                else Inr (v, computePlan (svc_host (app_svc app)) (app_chain app) db \<lparr>pin_resource = row, pin_revision = rev_id v,
                       pin_rev = rev_rev v, pin_environment = rq_environment req, pin_skipChain = rq_skipChain req\<rparr>)))"

definition dry_run_release :: "app_services \<Rightarrow> User \<Rightarrow> string \<Rightarrow> int \<Rightarrow> ReleaseRequest \<Rightarrow> DB \<Rightarrow> http_error + DB" where
  "dry_run_release app user newPlanId nowMs req db =
     (case checked_release app user req db of Inl e \<Rightarrow> Inl e
      | Inr (_, plan) \<Rightarrow> Inr (persistPlan newPlanId (usr_id user) (toISOString nowMs) plan db))"

definition request_release ::
  "app_services \<Rightarrow> User \<Rightarrow> string \<Rightarrow> string \<Rightarrow> string \<Rightarrow> int \<Rightarrow> ReleaseRequest \<Rightarrow> DB \<Rightarrow> http_error + DB" where
  "request_release app user relId jid newPlanId nowMs req db =
     (case checked_release app user req db of Inl e \<Rightarrow> Inl e
      | Inr (v, plan) \<Rightarrow>
          if plan_blockers plan \<noteq> [] then Inl Conflict
          else if plan_named req = None \<and> plan_from plan \<noteq> None \<and> \<not> rq_skipChain req then Inl BadRequest
          else (case (case plan_named req of None \<Rightarrow> None
                        | Some p \<Rightarrow> plan_usable db p (rq_resource req) (rq_environment req) (rev_id v)) of
              Some e \<Rightarrow> Inl e
            | None \<Rightarrow>
                (case gatewaysIn db (rq_environment req) of [] \<Rightarrow> Inl Conflict
                 | target # _ \<Rightarrow>
                     (case plan_named req of
                        Some p \<Rightarrow> Inr (queue_release user relId jid (toISOString nowMs) req v p target db)
                      | None \<Rightarrow> Inr (queue_release user relId jid (toISOString nowMs) req v newPlanId target
                                  (persistPlan newPlanId (usr_id user) (toISOString nowMs) plan db))))))"

text \<open>\<^verbatim>\<open>DELETE /api/resources/:id/releases\<close>\<close>

definition request_withdraw :: "app_services \<Rightarrow> User \<Rightarrow> string \<Rightarrow> int \<Rightarrow> string \<Rightarrow> string \<Rightarrow> DB \<Rightarrow> http_error + DB" where
  "request_withdraw app user jid nowMs resource environment db =
     (case getResource db resource of None \<Rightarrow> Inl NotFound
      | Some row \<Rightarrow>
          if \<not> can (Some user) (Some (res_application row)) then Inl Forbidden
          else if environment \<notin> set (app_chain app) then Inl BadRequest
          else (case gatewaysIn db environment of [] \<Rightarrow> Inl Conflict
            | target # _ \<Rightarrow> Inr (writeAudit (usr_id user) ''release.withdraw'' (''resource:'' @ resource) True
                (snd (enqueueJob jid (toISOString nowMs) ''reconcile'' (ReconcileJob \<lparr>rp_targetId = tgt_id target, rp_resourceId = resource,
                  rp_releaseId = None, rp_planId = None, rp_intent = Remove, rp_environment = Some environment\<rparr>)
                  (Some (''reconcile:remove:'' @ tgt_id target @ '':'' @ resource @ '':'' @ show_nat (nat nowMs))) db)))))"

section \<open>The invariant\<close>

text \<open>The gateways' identity, which leases do not touch.\<close>

definition gateways_of :: "DB \<Rightarrow> (string \<times> string) list" where
  "gateways_of db = map (\<lambda>t. (tgt_id t, tgt_env t)) (db_target db)"

definition same_scope :: "ReleaseRow \<Rightarrow> ReleaseRow \<Rightarrow> bool" where
  "same_scope r q \<longleftrightarrow> in_scope (rel_resource r) (rel_env r) q"

text \<open>A converged release is the newest of its scope to have reached the fleet.\<close>

definition live_newest :: "ReleaseRow list \<Rightarrow> bool" where
  "live_newest rows = sorted_wrt (\<lambda>r q. \<not> (rel_state r = Converged \<and> same_scope r q \<and> reached (rel_state q))) rows"

text \<open>A reconcile job names its release's own API and environment, and a gateway of that environment.\<close>

definition job_scoped :: "ReleaseRow list \<Rightarrow> (string \<times> string) list \<Rightarrow> job_payload \<Rightarrow> bool" where
  "job_scoped rows gws payload = (case payload of OtherJob _ \<Rightarrow> True
     | ReconcileJob p \<Rightarrow>
         list_all (\<lambda>r. rp_releaseId p = Some (rel_id r) \<longrightarrow> rel_resource r = rp_resourceId p \<and> rp_environment p = Some (rel_env r)) rows \<and>
         list_all (\<lambda>(t, e). t = rp_targetId p \<longrightarrow> rp_environment p = Some e) gws)"

text \<open>What \<^verbatim>\<open>applied\<close> says a gateway has is the live release, and the API is bound to that gateway.\<close>

definition applied_live :: "DB \<Rightarrow> AppliedRow \<Rightarrow> bool" where
  "applied_live db a = (case map_of (gateways_of db) (app_target a) of None \<Rightarrow> True
     | Some e \<Rightarrow> app_target a \<in> set (bound_targets db (app_resource a) e) \<and>
         list_ex (\<lambda>r. in_scope (app_resource a) e r \<and> rel_state r = Converged \<and> rel_revision r = app_revision a) (db_release db))"

definition release_inv :: "DB \<Rightarrow> bool" where
  "release_inv db \<longleftrightarrow> distinct (map rel_id (db_release db)) \<and> live_newest (db_release db) \<and> distinct (map tgt_id (db_target db)) \<and>
     list_all (\<lambda>j. job_scoped (db_release db) (gateways_of db) (job_payload j)) (db_job db) \<and>
     list_all (\<lambda>(r, e, t). case map_of (gateways_of db) t of None \<Rightarrow> True | Some e' \<Rightarrow> e' = e) (db_route_gateway db) \<and>
     list_all (applied_live db) (db_applied db)"

section \<open>Which tables an operation leaves alone\<close>

named_theorems frame "tables an operation leaves alone"

lemma gateways_of_cong: "db_target db' = db_target db \<Longrightarrow> gateways_of db' = gateways_of db"
  by (simp add: gateways_of_def)

lemma gateways_ids: "map tgt_id (db_target db) = map fst (gateways_of db)"
  by (simp add: gateways_of_def comp_def)

lemma lease_frame [frame]:
  "db_release (set_lease t h u db) = db_release db" "db_job (set_lease t h u db) = db_job db"
  "db_applied (set_lease t h u db) = db_applied db" "db_route_gateway (set_lease t h u db) = db_route_gateway db"
  "gateways_of (set_lease t h u db) = gateways_of db"
  "db_release (release_own_lease t k db) = db_release db" "db_job (release_own_lease t k db) = db_job db"
  "db_applied (release_own_lease t k db) = db_applied db" "db_route_gateway (release_own_lease t k db) = db_route_gateway db"
  "gateways_of (release_own_lease t k db) = gateways_of db"
  by (auto simp: set_lease_def release_own_lease_def gateways_of_def)

lemma set_job_frame [frame]:
  "db_release (set_job j f db) = db_release db" "gateways_of (set_job j f db) = gateways_of db"
  "db_applied (set_job j f db) = db_applied db" "db_route_gateway (set_job j f db) = db_route_gateway db"
  by (simp_all add: set_job_def gateways_of_def)

lemma set_release_frame [frame]:
  "db_job (set_release P s reason db) = db_job db" "gateways_of (set_release P s reason db) = gateways_of db"
  "db_applied (set_release P s reason db) = db_applied db" "db_route_gateway (set_release P s reason db) = db_route_gateway db"
  by (simp_all add: set_release_def gateways_of_def)

lemma audit_frame [frame]: "gateways_of (writeAudit a b c ok db) = gateways_of db"
  by (rule gateways_of_cong) simp

lemma seeds_frame:
  "let db' = foldl (seed_unit plan who stamp) db es in
     db_release db' = db_release db \<and> db_job db' = db_job db \<and> db_target db' = db_target db \<and>
     db_applied db' = db_applied db \<and> db_route_gateway db' = db_route_gateway db"
  by (induction es arbitrary: db) (simp_all add: Let_def seed_unit_def)

lemma seed_plan_frame:
  assumes "seed_plan app resource planId environment rel stamp db = Inr db'"
  shows "db_release db' = db_release db" "db_job db' = db_job db" "gateways_of db' = gateways_of db"
    "db_applied db' = db_applied db" "db_route_gateway db' = db_route_gateway db" "db_target db' = db_target db"
proof -
  have "db' = db \<or> (\<exists>plan who. db' = foldl (seed_unit plan who stamp) db (plan_create plan))"
    using assms by (auto simp: seed_plan_def applySeededUnits_def split: option.splits if_splits sum.splits)
  with seeds_frame [where stamp = stamp and db = db]
  have all: "db_release db' = db_release db \<and> db_job db' = db_job db \<and> db_target db' = db_target db \<and>
      db_applied db' = db_applied db \<and> db_route_gateway db' = db_route_gateway db"
    by (auto simp: Let_def)
  then show "db_release db' = db_release db" "db_job db' = db_job db" "gateways_of db' = gateways_of db"
    "db_applied db' = db_applied db" "db_route_gateway db' = db_route_gateway db" "db_target db' = db_target db"
    by (auto simp: gateways_of_def)
qed

lemma bind_gateways_frame [frame]:
  "db_release (snd (bind_gateways resource environment db)) = db_release db" "db_job (snd (bind_gateways resource environment db)) = db_job db"
  "gateways_of (snd (bind_gateways resource environment db)) = gateways_of db"
  "db_applied (snd (bind_gateways resource environment db)) = db_applied db"
  by (simp_all add: bind_gateways_def Let_def gateways_of_def)

lemma record_applied_frame [frame]:
  "db_release (record_applied r v d s ts db) = db_release db" "db_job (record_applied r v d s ts db) = db_job db"
  "gateways_of (record_applied r v d s ts db) = gateways_of db" "db_route_gateway (record_applied r v d s ts db) = db_route_gateway db"
  by (simp_all add: record_applied_def gateways_of_def)

lemma enqueueJob_frame [frame]:
  "db_release (snd (enqueueJob j s k p i db)) = db_release db" "gateways_of (snd (enqueueJob j s k p i db)) = gateways_of db"
  "db_applied (snd (enqueueJob j s k p i db)) = db_applied db" "db_route_gateway (snd (enqueueJob j s k p i db)) = db_route_gateway db"
  by (auto simp: enqueueJob_def gateways_of_def split: option.splits)

lemma enqueueJob_jobs:
  "set (map job_payload (db_job (snd (enqueueJob j s k p i db)))) \<subseteq> insert p (set (map job_payload (db_job db)))"
  by (auto simp: enqueueJob_def split: option.splits)

lemma freeze_frame [frame]:
  "db_release (freeze v s db) = db_release db" "db_job (freeze v s db) = db_job db" "gateways_of (freeze v s db) = gateways_of db"
  "db_applied (freeze v s db) = db_applied db" "db_route_gateway (freeze v s db) = db_route_gateway db"
  by (simp_all add: freeze_def gateways_of_def)

section \<open>Rows that only change their state\<close>

definition same_release :: "ReleaseRow \<Rightarrow> ReleaseRow \<Rightarrow> bool" where
  "same_release r q \<longleftrightarrow> rel_id q = rel_id r \<and> rel_resource q = rel_resource r \<and> rel_env q = rel_env r \<and> rel_revision q = rel_revision r"

lemma same_release_scope: "same_release r q \<Longrightarrow> in_scope a e q \<longleftrightarrow> in_scope a e r"
  by (simp add: same_release_def in_scope_def)

definition state_map :: "(ReleaseRow \<Rightarrow> ReleaseRow) \<Rightarrow> bool" where
  "state_map f \<longleftrightarrow> (\<forall>r. same_release r (f r))"

lemma state_map_ids: "state_map f \<Longrightarrow> map rel_id (map f rows) = map rel_id rows"
  by (simp add: state_map_def same_release_def)

lemma state_map_scope: "state_map f \<Longrightarrow> in_scope a e (f r) \<longleftrightarrow> in_scope a e r"
  by (simp add: state_map_def same_release_scope)

definition set_state :: "(ReleaseRow \<Rightarrow> bool) \<Rightarrow> ReleaseState \<Rightarrow> string option option \<Rightarrow> ReleaseRow \<Rightarrow> ReleaseRow" where
  "set_state P s reason r =
     (if P r then (case reason of None \<Rightarrow> r\<lparr>rel_state := s\<rparr> | Some x \<Rightarrow> r\<lparr>rel_state := s, rel_reason := x\<rparr>) else r)"

lemma set_release_rows: "db_release (set_release P s reason db) = map (set_state P s reason) (db_release db)"
  by (simp add: set_release_def set_state_def)

lemma set_state_map: "state_map (set_state P s reason)"
  by (simp add: state_map_def same_release_def set_state_def split: option.split)

lemma set_state_state: "rel_state (set_state P s reason r) = (if P r then s else rel_state r)"
  by (simp add: set_state_def split: option.split)

lemma job_scoped_rows:
  "state_map f \<Longrightarrow> job_scoped (map f rows) gws payload \<longleftrightarrow> job_scoped rows gws payload"
  by (auto simp: job_scoped_def list_all_iff state_map_def same_release_def split: job_payload.split)

lemma live_newest_map:
  assumes "state_map f" and "live_newest rows"
    and "\<And>r. r \<in> set rows \<Longrightarrow> rel_state (f r) = Converged \<Longrightarrow> rel_state r = Converged"
    and "\<And>r. r \<in> set rows \<Longrightarrow> reached (rel_state (f r)) \<Longrightarrow> reached (rel_state r)"
  shows "live_newest (map f rows)"
  using assms(2) unfolding live_newest_def sorted_wrt_map
proof (rule sorted_wrt_mono_rel [rotated])
  fix r q
  assume "r \<in> set rows" "q \<in> set rows" and np: "\<not> (rel_state r = Converged \<and> same_scope r q \<and> reached (rel_state q))"
  moreover have "same_scope (f r) (f q) \<longleftrightarrow> same_scope r q"
    using assms(1) by (simp add: same_scope_def state_map_def same_release_def in_scope_def)
  ultimately show "\<not> (rel_state (f r) = Converged \<and> same_scope (f r) (f q) \<and> reached (rel_state (f q)))"
    using assms(3,4) by blast
qed

text \<open>The release a job names, at its place in the table.\<close>

lemma release_split:
  assumes "release_by_id db rid = Some rel" and "distinct (map rel_id (db_release db))"
  obtains xs ys where "db_release db = xs @ rel # ys" "rel_id rel = rid" "later_rows rid (db_release db) = ys"
    "\<forall>r\<in>set xs \<union> set ys. rel_id r \<noteq> rid"
proof -
  from assms(1) obtain xs ys where s: "db_release db = xs @ rel # ys" "rel_id rel = rid" "\<forall>r\<in>set xs. rel_id r \<noteq> rid"
    unfolding release_by_id_def by (rule find_split)
  moreover have "later_rows rid (db_release db) = ys"
    using s by (simp add: later_rows_def dropWhile_append2)
  moreover have "rid \<notin> rel_id ` set ys" using assms(2) s by auto
  then have "\<forall>r\<in>set xs \<union> set ys. rel_id r \<noteq> rid" using s(3) by blast
  ultimately show ?thesis using that by blast
qed

section \<open>Publishing a release\<close>

definition retire :: "string \<Rightarrow> string \<Rightarrow> ReleaseRow \<Rightarrow> ReleaseRow" where
  "retire resource environment = set_state (\<lambda>r. in_scope resource environment r \<and> rel_state r = Converged) Superseded None"

lemma retire_map: "state_map (retire resource environment)"
  by (simp add: retire_def set_state_map)

lemma retire_state:
  "rel_state (retire resource environment r) = (if in_scope resource environment r \<and> rel_state r = Converged then Superseded else rel_state r)"
  by (simp add: retire_def set_state_state)

lemma reached_simps [simp]:
  "reached Converged" "reached Superseded" "reached Withdrawn" "\<not> reached Pending" "\<not> reached Converging" "\<not> reached Failed" "\<not> reached Stale"
  by (simp_all add: reached_def REACHED_FLEET_STATES_def)

lemma retire_reached: "reached (rel_state (retire resource environment r)) \<longleftrightarrow> reached (rel_state r)"
  by (simp add: retire_state)

lemma converge_rows:
  assumes "db_release db = xs @ rel # ys" "rel_id rel = rid" "\<forall>r\<in>set xs \<union> set ys. rel_id r \<noteq> rid"
  shows "db_release (converge resource environment rid db) =
    map (retire resource environment) xs @ rel\<lparr>rel_state := Converged, rel_reason := None\<rparr> # map (retire resource environment) ys"
proof -
  have other: "set_state (\<lambda>r. rel_id r = rid) Converged (Some None)
      (set_state (\<lambda>r. in_scope resource environment r \<and> rel_state r = Converged \<and> rel_id r \<noteq> rid) Superseded None r) =
      retire resource environment r" if "rel_id r \<noteq> rid" for r
    using that by (simp add: retire_def set_state_def)
  have self: "set_state (\<lambda>r. rel_id r = rid) Converged (Some None)
      (set_state (\<lambda>r. in_scope resource environment r \<and> rel_state r = Converged \<and> rel_id r \<noteq> rid) Superseded None rel) =
      rel\<lparr>rel_state := Converged, rel_reason := None\<rparr>"
    using assms(2) by (simp add: set_state_def)
  show ?thesis using assms(1,3) by (simp add: converge_def set_release_rows other self)
qed

text \<open>A row published after every row of its scope that reached the fleet keeps the order.\<close>

lemma publish_newest:
  assumes newest: "live_newest (xs @ ys)"
    and pub: "in_scope resource environment r" "rel_state r = Converged"
    and after: "\<forall>q\<in>set ys. \<not> (in_scope resource environment q \<and> reached (rel_state q))"
  shows "live_newest (map (retire resource environment) xs @ r # map (retire resource environment) ys)"
proof -
  let ?g = "retire resource environment" and ?P = "\<lambda>r q. \<not> (rel_state r = Converged \<and> same_scope r q \<and> reached (rel_state q))"
  have maps: "sorted_wrt ?P (map ?g (xs @ ys))"
  proof -
    have "live_newest (map ?g (xs @ ys))"
      by (rule live_newest_map [OF retire_map newest]) (simp_all add: retire_reached retire_state split: if_splits)
    then show ?thesis by (simp only: live_newest_def)
  qed
  have scope: "same_scope r q \<longleftrightarrow> in_scope resource environment q" "same_scope (?g q) r \<longleftrightarrow> in_scope resource environment q" for q
    using pub(1) state_map_def [of ?g] retire_map by (auto simp: same_scope_def in_scope_def same_release_def)
  have "\<forall>q\<in>set ys. ?P r (?g q)"
    using after by (auto simp: scope state_map_scope [OF retire_map] retire_reached)
  moreover have "\<forall>q\<in>set xs. ?P (?g q) r"
    by (auto simp: scope retire_state)
  ultimately show ?thesis
    using maps unfolding live_newest_def by (auto simp: sorted_wrt_append)
qed

lemma overtaken_None:
  assumes "overtaken_by resource environment rid db = None" "later_rows rid (db_release db) = ys"
  shows "\<forall>q\<in>set ys. \<not> (in_scope resource environment q \<and> reached (rel_state q))"
  using assms by (auto simp: overtaken_by_def find_None_iff)

section \<open>What a reconcile does to the tables\<close>

text \<open>The effect of a reconcile on the tables of the invariant, whichever branch it takes.\<close>

inductive reconciled :: "ReconcilePayload \<Rightarrow> string \<Rightarrow> DB \<Rightarrow> DB \<Rightarrow> bool" for p environment db where
  kept: "db_release db' = db_release db \<Longrightarrow> db_applied db' = db_applied db \<Longrightarrow> db_route_gateway db' = db_route_gateway db \<Longrightarrow>
     reconciled p environment db db'"
| removed: "db_release db' = db_release (withdraw (rp_resourceId p) environment db) \<Longrightarrow>
     db_applied db' = db_applied (withdraw (rp_resourceId p) environment db) \<Longrightarrow>
     db_route_gateway db' = db_route_gateway (withdraw (rp_resourceId p) environment db) \<Longrightarrow> reconciled p environment db db'"
| stale: "rp_releaseId p = Some (rel_id rel) \<Longrightarrow> release_by_id db (rel_id rel) = Some rel \<Longrightarrow> rel_state rel = Pending \<Longrightarrow>
     db_release db' = db_release (set_release (\<lambda>r. rel_id r = rel_id rel) Stale reason db) \<Longrightarrow>
     db_applied db' = db_applied db \<Longrightarrow> db_route_gateway db' = db_route_gateway db \<Longrightarrow> reconciled p environment db db'"
| applied: "rp_releaseId p = Some (rel_id rel) \<Longrightarrow> release_by_id db (rel_id rel) = Some rel \<Longrightarrow> rel_state rel = Pending \<Longrightarrow>
     overtaken_by (rp_resourceId p) environment (rel_id rel) db = None \<Longrightarrow>
     db_release db' = db_release (converge (rp_resourceId p) environment (rel_id rel) db) \<Longrightarrow>
     bind_gateways (rp_resourceId p) environment db = (bound, db3) \<Longrightarrow> db_route_gateway db' = db_route_gateway db3 \<Longrightarrow>
     db_applied db' = db_applied (record_applied (rp_resourceId p) (rel_revision rel) dig stamp bound db) \<Longrightarrow>
     reconciled p environment db db'"

lemma withdraw_frame [frame]: "db_job (withdraw resource environment db) = db_job db" "gateways_of (withdraw resource environment db) = gateways_of db"
proof -
  have "gateways_of (x\<lparr>db_applied := a, db_route_gateway := b\<rparr>) = gateways_of x" for x a b by (rule gateways_of_cong) simp
  then show "db_job (withdraw resource environment db) = db_job db" "gateways_of (withdraw resource environment db) = gateways_of db"
    by (simp_all add: withdraw_def Let_def frame)
qed

lemma converge_frame [frame]:
  "db_job (converge r e i db) = db_job db" "gateways_of (converge r e i db) = gateways_of db" "db_target (converge r e i db) = db_target db"
  "db_applied (converge r e i db) = db_applied db" "db_route_gateway (converge r e i db) = db_route_gateway db"
  by (simp_all add: converge_def set_release_def gateways_of_def)

lemma bind_gateways_cong:
  assumes "db_target db' = db_target db" "db_route_gateway db' = db_route_gateway db"
  shows "fst (bind_gateways r e db') = fst (bind_gateways r e db)"
    "db_route_gateway (snd (bind_gateways r e db')) = db_route_gateway (snd (bind_gateways r e db))"
  using assms by (simp_all add: bind_gateways_def bound_targets_def Let_def)

lemma record_applied_cong:
  "db_applied db' = db_applied db \<Longrightarrow> db_applied (record_applied r v d s ts db') = db_applied (record_applied r v d s ts db)"
  by (simp add: record_applied_def)

lemma release_by_id_id: "release_by_id db i = Some rel \<Longrightarrow> rel_id rel = i"
  by (auto simp: release_by_id_def find_Some_iff)

text \<open>The release is published: everything after the checks, from a database that differs only in the seeded policy.\<close>

lemma publish_effect:
  fixes who what subject dig :: string
  assumes rel: "rp_releaseId p = Some (rel_id rel)" "release_by_id db (rel_id rel) = Some rel" "rel_state rel = Pending"
    and fresh: "overtaken_by (rp_resourceId p) environment (rel_id rel) db = None"
    and seeded: "seed_plan app (rp_resourceId p) planId environment rel stamp db = Inr db1"
    and bound: "bind_gateways (rp_resourceId p) environment (converge (rp_resourceId p) environment (rel_id rel) db1) = (bound, db3)"
  defines "db' \<equiv> writeAudit who what subject True (record_applied (rp_resourceId p) (rel_revision rel) dig stamp bound db3)"
  shows "db_job db' = db_job db \<and> gateways_of db' = gateways_of db \<and> reconciled p environment db db'"
proof -
  note kept1 = seed_plan_frame [OF seeded]
  define db2 where "db2 = converge (rp_resourceId p) environment (rel_id rel) db1"
  have db3: "db_release db3 = db_release db2" "db_job db3 = db_job db2" "gateways_of db3 = gateways_of db2" "db_applied db3 = db_applied db2"
    using bind_gateways_frame [of "rp_resourceId p" environment db2] bound by (simp_all add: db2_def)
  obtain bound0 db30 where b0: "bind_gateways (rp_resourceId p) environment db = (bound0, db30)" by fastforce
  have "db_target db2 = db_target db" "db_route_gateway db2 = db_route_gateway db"
    using kept1 by (simp_all add: db2_def frame)
  with bound b0 bind_gateways_cong [of db2 db "rp_resourceId p" environment]
  have eqb: "bound = bound0" "db_route_gateway db3 = db_route_gateway db30" by (simp_all add: db2_def)
  have rows: "db_release db2 = db_release (converge (rp_resourceId p) environment (rel_id rel) db)"
    using kept1 by (simp add: db2_def converge_def set_release_rows)
  have "reconciled p environment db db'"
  proof (rule applied [OF rel fresh _ b0])
    show "db_release db' = db_release (converge (rp_resourceId p) environment (rel_id rel) db)"
      by (simp add: db'_def frame db3 rows)
    show "db_route_gateway db' = db_route_gateway db30" by (simp add: db'_def frame eqb)
    show "db_applied db' = db_applied (record_applied (rp_resourceId p) (rel_revision rel) dig stamp bound0 db)"
      using kept1 by (simp add: db'_def eqb db3 db2_def frame record_applied_cong [of db3 db])
  qed
  then show ?thesis using kept1 by (simp add: db'_def frame db3 db2_def)
qed

lemma apply_release_effect:
  "db_job (snd (apply_release app nowMs p environment db)) = db_job db \<and>
   gateways_of (snd (apply_release app nowMs p environment db)) = gateways_of db \<and>
   reconciled p environment db (snd (apply_release app nowMs p environment db))" (is "?Q (snd ?a)")
proof -
  have same: "?Q (snd ?a)" if "snd ?a = db" using that by (auto intro: kept)
  consider (none) "(case rp_releaseId p of None \<Rightarrow> None | Some i \<Rightarrow> release_by_id db i) = None"
    | (some) rel where "rp_releaseId p = Some (rel_id rel)" "release_by_id db (rel_id rel) = Some rel"
    by (cases "rp_releaseId p"; cases "release_by_id db (the (rp_releaseId p))") (auto dest: release_by_id_id)
  then show ?thesis
  proof cases
    case none
    then show ?thesis by (intro same) (simp add: apply_release_def Let_def)
  next
    case (some rel)
    note a = apply_release_def Let_def some
    show ?thesis
    proof (cases "rel_state rel = Pending")
      case False
      then show ?thesis by (intro same) (simp add: a)
    next
      case True
      show ?thesis
      proof (cases "overtaken_by (rp_resourceId p) environment (rel_id rel) db")
        case (Some newer)
        then show ?thesis by (auto simp: a True frame intro!: stale [OF some True])
      next
        case None
        show ?thesis
        proof (cases "seed_plan app (rp_resourceId p) (rp_planId p) environment rel (toISOString nowMs) db")
          case (Inl e)
          with True None show ?thesis by (intro same) (simp add: a)
        next
          case (Inr db1)
          let ?db2 = "converge (rp_resourceId p) environment (rel_id rel) db1"
          obtain bound db3 where b: "bind_gateways (rp_resourceId p) environment ?db2 = (bound, db3)" by fastforce
          show ?thesis
          proof (cases "built_route app nowMs ?db2 environment (rp_resourceId p)")
            case None
            with True \<open>overtaken_by _ _ _ _ = None\<close> Inr show ?thesis by (intro same) (simp add: a)
          next
            case (Some route)
            with True None Inr b publish_effect [OF some True None Inr b] show ?thesis by (simp add: a)
          qed
        qed
      qed
    qed
  qed
qed

text \<open>The effect depends on the tables of the invariant only, so a lease around it makes no difference.\<close>

lemma env_gateways: "map tgt_id (filter (\<lambda>t. tgt_env t = e) (db_target db)) = map fst (filter (\<lambda>(_, x). x = e) (gateways_of db))"
  by (simp add: gateways_of_def filter_map comp_def)

lemma withdraw_tables:
  "db_release (withdraw resource environment db) =
     map (set_state (\<lambda>r. in_scope resource environment r \<and> rel_state r = Pending) Stale
         (Some (Some ''withdrawn before it was applied; release it again to publish it'')) \<circ>
       set_state (\<lambda>r. in_scope resource environment r \<and> rel_state r = Converged) Withdrawn None) (db_release db)"
  "db_applied (withdraw resource environment db) = filter (\<lambda>a. \<not> (app_resource a = resource \<and>
     app_target a \<in> set (map fst (filter (\<lambda>(_, x). x = environment) (gateways_of db))))) (db_applied db)"
  "db_route_gateway (withdraw resource environment db) = filter (\<lambda>(r, e, _). \<not> (r = resource \<and> e = environment)) (db_route_gateway db)"
proof -
  show "db_release (withdraw resource environment db) =
     map (set_state (\<lambda>r. in_scope resource environment r \<and> rel_state r = Pending) Stale
         (Some (Some ''withdrawn before it was applied; release it again to publish it'')) \<circ>
       set_state (\<lambda>r. in_scope resource environment r \<and> rel_state r = Converged) Withdrawn None) (db_release db)"
    by (simp add: withdraw_def Let_def set_release_rows)
  show "db_applied (withdraw resource environment db) = filter (\<lambda>a. \<not> (app_resource a = resource \<and>
     app_target a \<in> set (map fst (filter (\<lambda>(_, x). x = environment) (gateways_of db))))) (db_applied db)"
    by (simp only: withdraw_def Let_def env_gateways frame writeAudit_fields) (simp add: frame)
  show "db_route_gateway (withdraw resource environment db) = filter (\<lambda>(r, e, _). \<not> (r = resource \<and> e = environment)) (db_route_gateway db)"
    by (simp add: withdraw_def Let_def frame)
qed

lemma bind_gateways_tables:
  "bind_gateways resource environment db =
     (let bound = bound_targets db resource environment;
          ids = map fst (filter (\<lambda>(_, x). x = environment) (gateways_of db))
      in if bound \<noteq> [] then (bound, db)
         else (ids, db\<lparr>db_route_gateway := db_route_gateway db @ map (\<lambda>i. (resource, environment, i)) ids\<rparr>))"
  by (simp only: bind_gateways_def Let_def env_gateways)

definition same_tables :: "DB \<Rightarrow> DB \<Rightarrow> bool" where
  "same_tables db db' \<longleftrightarrow> db_release db' = db_release db \<and> db_applied db' = db_applied db \<and>
     db_route_gateway db' = db_route_gateway db \<and> gateways_of db' = gateways_of db"

lemma reconciled_cong:
  assumes "reconciled p environment db1 db1'" and d: "same_tables db db1" "same_tables db1' db'"
  shows "reconciled p environment db db'"
  using assms(1)
proof cases
  case kept
  with d show ?thesis by (intro reconciled.kept) (simp_all add: same_tables_def)
next
  case removed
  with d show ?thesis by (intro reconciled.removed) (simp_all add: same_tables_def withdraw_tables)
next
  case (stale rel reason)
  with d show ?thesis
    by (intro reconciled.stale [where rel = rel and reason = reason]) (simp_all add: same_tables_def set_release_rows release_by_id_def)
next
  case (applied rel bound db3 dig stamp)
  obtain bound0 db30 where b: "bind_gateways (rp_resourceId p) environment db = (bound0, db30)" by fastforce
  have "bound = bound0 \<and> db_route_gateway db3 = db_route_gateway db30"
    using b applied(6) d by (auto simp: bind_gateways_tables Let_def same_tables_def bound_targets_def split: if_splits)
  with applied b d show ?thesis
    by (intro reconciled.applied [where rel = rel]) (simp_all add: same_tables_def converge_def set_release_rows release_by_id_def
        overtaken_by_def record_applied_def)
qed

lemma lease_effect:
  fixes fn :: "DB \<Rightarrow> string attempt" and h t :: string and n :: int and db :: DB
  assumes fn: "\<And>x. db_job (snd (fn x)) = db_job x \<and> gateways_of (snd (fn x)) = gateways_of x \<and> reconciled p e x (snd (fn x))"
  defines "r \<equiv> withTargetLease h n t fn db"
  shows "db_job (snd r) = db_job db \<and> gateways_of (snd r) = gateways_of db \<and> reconciled p e db (snd r)"
proof (cases "find (\<lambda>x. tgt_id x = t) (db_target db)")
  case None
  then show ?thesis by (auto simp: r_def withTargetLease_def intro: kept)
next
  case (Some row)
  show ?thesis
  proof (cases "leased_by_other h n row")
    case True
    with Some show ?thesis by (auto simp: r_def withTargetLease_def intro: kept)
  next
    case False
    define d1 where "d1 = set_lease t (Some h) (Some (toISOString (n + 30000))) db"
    have eq: "snd r = release_own_lease t h (snd (fn d1))"
      using Some False by (auto simp: r_def withTargetLease_def d1_def split: prod.splits)
    have "same_tables db d1" "same_tables (snd (fn d1)) (release_own_lease t h (snd (fn d1)))" "db_job d1 = db_job db"
      by (simp_all add: d1_def same_tables_def frame)
    with fn [of d1] show ?thesis unfolding eq by (auto simp: frame same_tables_def intro: reconciled_cong)
  qed
qed

lemma reconcile_effect:
  fixes app nowMs p db
  defines "db' \<equiv> snd (reconcile app nowMs p db)"
  shows "db_job db' = db_job db" "gateways_of db' = gateways_of db"
    "db' = db \<or> (\<exists>environment. payload_environment db p = Some environment \<and> reconciled p environment db db')"
proof -
  define work where "work = (\<lambda>e x. if rp_intent p = Remove then (Inr ''withdrawn'' :: job_error + string, withdraw (rp_resourceId p) e x)
    else apply_release app nowMs p e x)"
  have "db_job (snd (work e x)) = db_job x \<and> gateways_of (snd (work e x)) = gateways_of x \<and> reconciled p e x (snd (work e x))" for e x
    using apply_release_effect [of app nowMs p e x] by (auto simp: work_def frame intro: reconciled.removed)
  note lease = lease_effect [where fn = "work e" for e, OF this]
  have "db_job db' = db_job db \<and> gateways_of db' = gateways_of db \<and>
      (db' = db \<or> (\<exists>environment. payload_environment db p = Some environment \<and> reconciled p environment db db'))"
    using lease unfolding work_def
    by (auto simp: db'_def reconcile_def Let_def split: option.split)
  then show "db_job db' = db_job db" "gateways_of db' = gateways_of db"
    "db' = db \<or> (\<exists>environment. payload_environment db p = Some environment \<and> reconciled p environment db db')" by simp_all
qed

section \<open>Every operation keeps the invariant\<close>

lemmas release_inv_parts = release_inv_def gateways_ids

lemma bound_mem: "t \<in> set (bound_targets db r e) \<longleftrightarrow> (r, e, t) \<in> set (db_route_gateway db)"
  by (force simp: bound_targets_def)

lemma applied_live_keep:
  assumes "applied_live db a" and gws: "gateways_of db' = gateways_of db"
    and "\<And>e. map_of (gateways_of db) (app_target a) = Some e \<Longrightarrow> app_target a \<in> set (bound_targets db (app_resource a) e) \<Longrightarrow>
      app_target a \<in> set (bound_targets db' (app_resource a) e)"
    and "\<And>e r. map_of (gateways_of db) (app_target a) = Some e \<Longrightarrow> r \<in> set (db_release db) \<Longrightarrow> in_scope (app_resource a) e r \<Longrightarrow>
      rel_state r = Converged \<Longrightarrow> \<exists>r'\<in>set (db_release db'). same_release r r' \<and> rel_state r' = Converged"
  shows "applied_live db' a"
proof (cases "map_of (gateways_of db) (app_target a)")
  case None
  then show ?thesis by (simp add: applied_live_def gws)
next
  case (Some e)
  with assms(1) obtain r where r: "r \<in> set (db_release db)" "in_scope (app_resource a) e r" "rel_state r = Converged" "rel_revision r = app_revision a"
    by (auto simp: applied_live_def list_ex_iff)
  from assms(4) [OF Some r(1-3)] obtain r' where "r' \<in> set (db_release db')" "same_release r r'" "rel_state r' = Converged" by blast
  with r Some assms(1,3) show ?thesis
    by (auto simp: applied_live_def gws list_ex_iff same_release_def in_scope_def)
qed

lemma same_release_refl [simp]: "same_release r r"
  by (simp add: same_release_def)

text \<open>A change of states that retires nothing but what the applied rows no longer name.\<close>

lemma release_inv_map:
  assumes inv: "release_inv db" and f: "state_map f" and rows: "db_release db' = map f (db_release db)"
    and conv: "\<And>r. r \<in> set (db_release db) \<Longrightarrow> rel_state (f r) = Converged \<Longrightarrow> rel_state r = Converged"
    and reach: "\<And>r. r \<in> set (db_release db) \<Longrightarrow> reached (rel_state (f r)) \<Longrightarrow> reached (rel_state r)"
    and jobs: "map job_payload (db_job db') = map job_payload (db_job db)" and gws: "gateways_of db' = gateways_of db"
    and bound: "set (db_route_gateway db') \<subseteq> set (db_route_gateway db)"
    and apps: "list_all (applied_live db') (db_applied db')"
  shows "release_inv db'"
proof -
  have "list_all (job_scoped (db_release db') (gateways_of db')) (map job_payload (db_job db'))"
    using inv unfolding jobs gws rows by (simp add: release_inv_def job_scoped_rows [OF f] list.pred_map comp_def)
  then have "list_all (\<lambda>j. job_scoped (db_release db') (gateways_of db') (job_payload j)) (db_job db')" by (simp add: list.pred_map comp_def)
  moreover have "live_newest (db_release db')"
    unfolding rows by (rule live_newest_map [OF f]) (use inv conv reach in \<open>auto simp: release_inv_def\<close>)
  moreover have "map rel_id (db_release db') = map rel_id (db_release db)" unfolding rows by (rule state_map_ids [OF f])
  ultimately show ?thesis using inv apps bound unfolding release_inv_parts gws by (auto simp: list_all_iff)
qed

lemma keep_inv:
  assumes "release_inv db" "db_release db' = db_release db" "map job_payload (db_job db') = map job_payload (db_job db)"
    "gateways_of db' = gateways_of db" "db_route_gateway db' = db_route_gateway db" "db_applied db' = db_applied db"
  shows "release_inv db'"
proof (rule release_inv_map [where f = id, OF assms(1)])
  have "bound_targets db' = bound_targets db" using assms by (intro ext) (simp add: bound_targets_def)
  with assms(2,4) have "applied_live db' = applied_live db"
    unfolding applied_live_def by (intro ext) (simp only:)
  then show "list_all (applied_live db') (db_applied db')" using assms by (simp add: release_inv_def)
qed (use assms in \<open>auto simp: state_map_def\<close>)

lemma withdraw_inv [inv_pres]:
  assumes inv: "release_inv db"
    and db': "db_release db' = db_release (withdraw resource environment db)" "db_applied db' = db_applied (withdraw resource environment db)"
      "db_route_gateway db' = db_route_gateway (withdraw resource environment db)" "db_job db' = db_job db" "gateways_of db' = gateways_of db"
  shows "release_inv db'"
proof -
  let ?f = "set_state (\<lambda>r. in_scope resource environment r \<and> rel_state r = Pending) Stale
         (Some (Some ''withdrawn before it was applied; release it again to publish it'')) \<circ>
       set_state (\<lambda>r. in_scope resource environment r \<and> rel_state r = Converged) Withdrawn None"
  have f: "state_map ?f" using set_state_map by (simp add: state_map_def same_release_def)
  have st: "rel_state (?f r) = (if in_scope resource environment r then (case rel_state r of Converged \<Rightarrow> Withdrawn | Pending \<Rightarrow> Stale | s \<Rightarrow> s) else rel_state r)" for r
    by (cases "rel_state r") (simp_all add: set_state_state state_map_scope [OF set_state_map])
  have other: "\<not> in_scope resource environment r \<Longrightarrow> ?f r = r" for r
    by (simp add: set_state_def state_map_scope [OF set_state_map])
  have rows: "db_release db' = map ?f (db_release db)" by (simp add: db'(1) withdraw_tables)
  show ?thesis
  proof (rule release_inv_map [OF inv f rows])
    show "list_all (applied_live db') (db_applied db')" unfolding list_all_iff
    proof
      fix a assume "a \<in> set (db_applied db')"
      then have a: "a \<in> set (db_applied db)"
        and out: "\<not> (app_resource a = resource \<and> app_target a \<in> fst ` {g \<in> set (gateways_of db). snd g = environment})"
        by (auto simp: db'(2) withdraw_tables image_iff)
      then have away: "map_of (gateways_of db) (app_target a) = Some e \<Longrightarrow> \<not> (app_resource a = resource \<and> e = environment)" for e
        by (auto dest!: map_of_SomeD simp: image_iff)
      show "applied_live db' a"
      proof (rule applied_live_keep [OF _ db'(5)])
        show "applied_live db a" using inv a by (simp add: release_inv_def list_all_iff)
      next
        fix e assume e: "map_of (gateways_of db) (app_target a) = Some e"
        then show "app_target a \<in> set (bound_targets db (app_resource a) e) \<Longrightarrow> app_target a \<in> set (bound_targets db' (app_resource a) e)"
          using away [OF e] by (auto simp: bound_mem db'(3) withdraw_tables)
        fix r assume "r \<in> set (db_release db)" "in_scope (app_resource a) e r" "rel_state r = Converged"
        moreover from this have "?f r = r" using away [OF e] by (intro other) (auto simp: in_scope_def)
        ultimately have "r \<in> set (db_release db')" unfolding rows set_map by (intro image_eqI [where x = r]) simp_all
        then show "\<exists>r'\<in>set (db_release db'). same_release r r' \<and> rel_state r' = Converged"
          using \<open>rel_state r = Converged\<close> by (intro bexI [of _ r]) simp_all
      qed
    qed
  qed (use st db' in \<open>auto simp: withdraw_tables split: if_splits ReleaseState.splits\<close>)
qed

text \<open>A change of states that only touches releases still waiting, and publishes none.\<close>

lemma unpublished_inv:
  assumes inv: "release_inv db" and f: "state_map f" and rows: "db_release db' = map f (db_release db)"
    and pend: "\<And>r. r \<in> set (db_release db) \<Longrightarrow> f r = r \<or> rel_state r = Pending \<and> \<not> reached (rel_state (f r))"
    and db': "db_applied db' = db_applied db" "db_route_gateway db' = db_route_gateway db"
      "map job_payload (db_job db') = map job_payload (db_job db)" "gateways_of db' = gateways_of db"
  shows "release_inv db'"
proof (rule release_inv_map [OF inv f rows])
  show "list_all (applied_live db') (db_applied db')" unfolding list_all_iff db'(1)
  proof
    fix a assume a: "a \<in> set (db_applied db)"
    show "applied_live db' a"
    proof (rule applied_live_keep [OF _ db'(4)])
      show "applied_live db a" using inv a by (simp add: release_inv_def list_all_iff)
    next
      fix e r assume r: "r \<in> set (db_release db)" "rel_state r = Converged"
      then have "f r = r" using pend [of r] by auto
      then have "r \<in> set (db_release db')" unfolding rows set_map using r(1) by (intro image_eqI [where x = r]) simp_all
      then show "\<exists>r'\<in>set (db_release db'). same_release r r' \<and> rel_state r' = Converged" using r(2) by (intro bexI [of _ r]) simp_all
    qed (simp add: bound_mem db'(2))
  qed
  show "r \<in> set (db_release db) \<Longrightarrow> rel_state (f r) = Converged \<Longrightarrow> rel_state r = Converged" for r using pend [of r] by auto
  show "r \<in> set (db_release db) \<Longrightarrow> reached (rel_state (f r)) \<Longrightarrow> reached (rel_state r)" for r using pend [of r] by auto
qed (simp_all add: db')

lemma stale_inv:
  assumes inv: "release_inv db" and rel: "release_by_id db i = Some rel" "rel_state rel = Pending"
    and db': "db_release db' = db_release (set_release (\<lambda>r. rel_id r = i) s reason db)" "\<not> reached s"
      "db_applied db' = db_applied db" "db_route_gateway db' = db_route_gateway db"
      "map job_payload (db_job db') = map job_payload (db_job db)" "gateways_of db' = gateways_of db"
  shows "release_inv db'"
proof (rule unpublished_inv [OF inv set_state_map])
  show "db_release db' = map (set_state (\<lambda>r. rel_id r = i) s reason) (db_release db)" by (simp add: db'(1) set_release_rows)
  from inv have "distinct (map rel_id (db_release db))" by (simp add: release_inv_def)
  with rel(1) obtain xs ys where split: "db_release db = xs @ rel # ys" "rel_id rel = i" "later_rows i (db_release db) = ys"
      "\<forall>r\<in>set xs \<union> set ys. rel_id r \<noteq> i"
    by (rule release_split)
  fix r assume "r \<in> set (db_release db)"
  then have "rel_id r = i \<Longrightarrow> r = rel" using split by auto
  then show "set_state (\<lambda>r. rel_id r = i) s reason r = r \<or> rel_state r = Pending \<and> \<not> reached (rel_state (set_state (\<lambda>r. rel_id r = i) s reason r))"
    using rel(2) db'(2) by (cases "rel_id r = i") (simp_all add: set_state_state, simp add: set_state_def)
qed (rule db')+

lemma upsert_applied_mem:
  "a \<in> set (upsert_applied row rows) \<Longrightarrow>
     app_target a = app_target row \<and> app_resource a = app_resource row \<and> app_revision a = app_revision row \<or>
     a \<in> set rows \<and> \<not> (app_target a = app_target row \<and> app_resource a = app_resource row)"
  by (auto simp: upsert_applied_def split: if_splits)

lemma record_applied_mem:
  assumes "a \<in> set (db_applied (record_applied resource revision dig stamp targets db))"
  shows "app_resource a = resource \<and> app_revision a = revision \<and> app_target a \<in> set targets \<or>
    a \<in> set (db_applied db) \<and> \<not> (app_resource a = resource \<and> app_target a \<in> set targets)"
proof -
  let ?row = "\<lambda>t. \<lparr>app_target = t, app_resource = resource, app_revision = revision, app_digest = dig, app_compiler = COMPILER_VERSION, app_at = stamp\<rparr>"
  have "a \<in> set (foldl (\<lambda>rows t. upsert_applied (?row t) rows) rows targets) \<Longrightarrow>
      app_resource a = resource \<and> app_revision a = revision \<and> app_target a \<in> set targets \<or>
      a \<in> set rows \<and> \<not> (app_resource a = resource \<and> app_target a \<in> set targets)" for rows
  proof (induction targets arbitrary: rows)
    case (Cons t targets)
    from Cons.IH [of "upsert_applied (?row t) rows"] Cons.prems upsert_applied_mem [of a "?row t" rows]
    show ?case by auto
  qed simp
  with assms show ?thesis by (simp add: record_applied_def)
qed

text \<open>Publishing: the rows of the scope are retired, the release converges, its gateways are recorded.\<close>

lemma bound_after_bind:
  assumes "bind_gateways resource environment db = (bound, db3)"
  shows "set bound = set (bound_targets db3 resource environment)"
    and "set (db_route_gateway db) \<subseteq> set (db_route_gateway db3)"
    and "set (db_route_gateway db3) \<subseteq> set (db_route_gateway db) \<union> {(resource, environment, t) | t. (t, environment) \<in> set (gateways_of db)}"
proof -
  have "set bound = set (bound_targets db3 resource environment) \<and> set (db_route_gateway db) \<subseteq> set (db_route_gateway db3) \<and>
      set (db_route_gateway db3) \<subseteq> set (db_route_gateway db) \<union> {(resource, environment, t) | t. (t, environment) \<in> set (gateways_of db)}"
  proof (cases "bound_targets db resource environment = []")
    case False
    with assms have "bound = bound_targets db resource environment" "db3 = db" by (auto simp: bind_gateways_tables Let_def)
    then show ?thesis by simp
  next
    case True
    then have none: "(resource, environment, t) \<notin> set (db_route_gateway db)" for t using bound_mem by force
    define ids where "ids = map fst (filter (\<lambda>(_, x). x = environment) (gateways_of db))"
    have ids: "t \<in> set ids \<longleftrightarrow> (t, environment) \<in> set (gateways_of db)" for t by (force simp: ids_def)
    from True assms have b: "bound = ids" "db_route_gateway db3 = db_route_gateway db @ map (\<lambda>i. (resource, environment, i)) ids"
      by (auto simp: bind_gateways_tables Let_def ids_def)
    have "t \<in> set (bound_targets db3 resource environment) \<longleftrightarrow> t \<in> set ids" for t
      using none by (auto simp: bound_mem b(2))
    then show ?thesis using ids by (auto simp: b)
  qed
  then show "set bound = set (bound_targets db3 resource environment)" "set (db_route_gateway db) \<subseteq> set (db_route_gateway db3)"
    "set (db_route_gateway db3) \<subseteq> set (db_route_gateway db) \<union> {(resource, environment, t) | t. (t, environment) \<in> set (gateways_of db)}"
    by simp_all
qed

lemma publish_applied_live:
  assumes inv: "release_inv db" and rel: "in_scope resource environment rel"
    and old: "db_release db = xs @ rel # ys"
    and new: "db_release db' = map (retire resource environment) xs @ rel\<lparr>rel_state := Converged, rel_reason := None\<rparr> # map (retire resource environment) ys"
    and bind: "bind_gateways resource environment db = (bound, db3)" "db_route_gateway db' = db_route_gateway db3"
    and gw: "\<And>r e' t e. (r, e', t) \<in> set (db_route_gateway db3) \<Longrightarrow> map_of (gateways_of db) t = Some e \<Longrightarrow> e = e'"
    and gws: "gateways_of db' = gateways_of db"
    and a: "a \<in> set (db_applied (record_applied resource (rel_revision rel) dig stamp bound db))"
  shows "applied_live db' a"
proof (cases "app_resource a = resource \<and> app_revision a = rel_revision rel \<and> app_target a \<in> set bound")
  case True
  note bound = bound_after_bind [OF bind(1)]
  have "(resource, environment, app_target a) \<in> set (db_route_gateway db3)" using True bound(1) bound_mem by blast
  with gw have "map_of (gateways_of db) (app_target a) = Some e \<Longrightarrow> e = environment" for e by blast
  with True bound(1) rel show ?thesis
    by (auto simp: applied_live_def gws new bound_mem bind(2) list_ex_iff in_scope_def split: option.split)
next
  case False
  note bound = bound_after_bind [OF bind(1)]
  from False record_applied_mem [OF a] have a: "a \<in> set (db_applied db)" "\<not> (app_resource a = resource \<and> app_target a \<in> set bound)" by auto
  then have live: "applied_live db a" using inv by (simp add: release_inv_def list_all_iff)
  have away: "\<not> (app_resource a = resource \<and> e = environment)" if "map_of (gateways_of db) (app_target a) = Some e" for e
    using live that a(2) bound(1,2) by (auto simp: applied_live_def bound_mem)
  show ?thesis
  proof (rule applied_live_keep [OF live gws])
    show "app_target a \<in> set (bound_targets db (app_resource a) e) \<Longrightarrow> app_target a \<in> set (bound_targets db' (app_resource a) e)" for e
      using bound(2) by (auto simp: bound_mem bind(2))
  next
    fix e r assume e: "map_of (gateways_of db) (app_target a) = Some e"
      and r: "r \<in> set (db_release db)" "in_scope (app_resource a) e r" "rel_state r = Converged"
    have out: "\<not> in_scope resource environment r" using away [OF e] r(2) by (auto simp: in_scope_def)
    then have "retire resource environment r = r" by (simp add: retire_def set_state_def)
    moreover have "r \<in> set xs \<union> set ys" using r(1) out rel by (auto simp: old)
    ultimately have "r \<in> set (db_release db')" unfolding new by (auto simp: image_iff intro: bexI [of _ r])
    then show "\<exists>r'\<in>set (db_release db'). same_release r r' \<and> rel_state r' = Converged" using r(3) by (intro bexI [of _ r]) simp_all
  qed
qed

lemma publish_inv:
  assumes inv: "release_inv db" and rel: "release_by_id db (rel_id rel) = Some rel" "in_scope resource environment rel"
    and fresh: "overtaken_by resource environment (rel_id rel) db = None"
    and bind: "bind_gateways resource environment db = (bound, db3)"
    and db': "db_release db' = db_release (converge resource environment (rel_id rel) db)" "db_route_gateway db' = db_route_gateway db3"
      "db_applied db' = db_applied (record_applied resource (rel_revision rel) dig stamp bound db)"
      "db_job db' = db_job db" "gateways_of db' = gateways_of db"
  shows "release_inv db'"
proof -
  let ?g = "retire resource environment" and ?new = "rel\<lparr>rel_state := Converged, rel_reason := None\<rparr>"
  from inv have "distinct (map rel_id (db_release db))" by (simp add: release_inv_def)
  with rel(1) obtain xs ys where split: "db_release db = xs @ rel # ys" "rel_id rel = rel_id rel" "later_rows (rel_id rel) (db_release db) = ys"
      "\<forall>r\<in>set xs \<union> set ys. rel_id r \<noteq> rel_id rel"
    by (rule release_split)
  have rows: "db_release db' = map ?g xs @ ?new # map ?g ys"
    using converge_rows [OF split(1) refl split(4)] by (simp add: db'(1))
  have ids: "map rel_id (db_release db') = map rel_id (db_release db)"
    using state_map_ids [OF retire_map, of resource environment] by (simp add: rows split(1))
  have scoped: "job_scoped (db_release db') gws p = job_scoped (db_release db) gws p" for gws p
    by (simp only: db'(1) converge_def set_release_rows job_scoped_rows [OF set_state_map])
  have newest: "live_newest (db_release db')"
    unfolding rows
  proof (rule publish_newest)
    show "live_newest (xs @ ys)" using inv by (auto simp: release_inv_def split(1) live_newest_def sorted_wrt_append)
    show "in_scope resource environment ?new" using rel(2) by (simp add: in_scope_def)
    show "\<forall>q\<in>set ys. \<not> (in_scope resource environment q \<and> reached (rel_state q))"
      by (rule overtaken_None [OF fresh split(3)])
  qed simp
  note bound = bound_after_bind [OF bind]
  have gw: "map_of (gateways_of db) t = Some e \<Longrightarrow> e = e'" if "(r, e', t) \<in> set (db_route_gateway db3)" for r e' t e
  proof -
    assume e: "map_of (gateways_of db) t = Some e"
    from that bound(3) consider "(r, e', t) \<in> set (db_route_gateway db)" | "e' = environment" "(t, environment) \<in> set (gateways_of db)" by blast
    then show ?thesis
    proof cases
      case 1
      then show ?thesis using inv e by (auto simp: release_inv_def list_all_iff dest: bspec)
    next
      case 2
      have "distinct (map fst (gateways_of db))" using inv by (simp add: release_inv_parts)
      with 2 have "map_of (gateways_of db) t = Some environment" by (intro map_of_is_SomeI)
      with e 2 show ?thesis by simp
    qed
  qed
  have apps: "applied_live db' a" if "a \<in> set (db_applied db')" for a
    by (rule publish_applied_live [OF inv rel(2) split(1) rows bind db'(2) _ db'(5) that [unfolded db'(3)]]) (rule gw)
  have "list_all (\<lambda>(r, e, t). case map_of (gateways_of db') t of None \<Rightarrow> True | Some e' \<Rightarrow> e' = e) (db_route_gateway db')"
    using gw by (auto simp: list_all_iff db'(2,5) split: option.split)
  with ids newest scoped apps inv show ?thesis
    unfolding release_inv_parts by (auto simp: list_all_iff db'(4,5))
qed

text \<open>Whatever a reconcile does, the invariant holds after it.\<close>

lemma job_environment:
  assumes inv: "release_inv db" and job: "job_scoped (db_release db) (gateways_of db) (ReconcileJob p)"
    and env: "payload_environment db p = Some environment"
    and rel: "rp_releaseId p = Some (rel_id rel)" "release_by_id db (rel_id rel) = Some rel"
  shows "in_scope (rp_resourceId p) environment rel"
proof -
  have mem: "rel \<in> set (db_release db)" using rel(2) by (auto simp: release_by_id_def find_Some_iff)
  with job rel(1) have scope: "rel_resource rel = rp_resourceId p" "rp_environment p = Some (rel_env rel)"
    by (auto simp: job_scoped_def list_all_iff)
  have "environment = rel_env rel"
  proof (cases "find (\<lambda>t. tgt_id t = rp_targetId p) (db_target db)")
    case None
    with env scope show ?thesis by (simp add: payload_environment_def)
  next
    case (Some handle)
    then have "handle \<in> set (db_target db)" "tgt_id handle = rp_targetId p" by (auto simp: find_Some_iff)
    then have "(rp_targetId p, tgt_env handle) \<in> set (gateways_of db)" by (force simp: gateways_of_def)
    with job have "rp_environment p = Some (tgt_env handle)" by (auto simp: job_scoped_def list_all_iff)
    with env scope Some show ?thesis by (simp add: payload_environment_def)
  qed
  with scope show ?thesis by (simp add: in_scope_def)
qed

lemma reconcile_inv [inv_pres]:
  assumes inv: "release_inv db" and job: "job_scoped (db_release db) (gateways_of db) (ReconcileJob p)"
  shows "release_inv (snd (reconcile app nowMs p db))"
proof -
  define db' where "db' = snd (reconcile app nowMs p db)"
  note same = reconcile_effect(1,2) [of app nowMs p db, folded db'_def]
  consider "db' = db" | environment where "payload_environment db p = Some environment" "reconciled p environment db db'"
    using reconcile_effect(3) [of app nowMs p db, folded db'_def] by blast
  then have "release_inv db'"
  proof cases
    case 1
    with inv show ?thesis by simp
  next
    case 2
    from 2(2) show ?thesis
    proof cases
      case kept
      then show ?thesis by (intro keep_inv [OF inv]) (simp_all add: same)
    next
      case removed
      show ?thesis by (rule withdraw_inv [OF inv removed same])
    next
      case (stale rel reason)
      show ?thesis by (rule stale_inv [OF inv stale(2,3,4)]) (simp_all add: stale same)
    next
      case (applied rel bound db3 dig stamp)
      show ?thesis
        by (rule publish_inv [OF inv applied(2) job_environment [OF inv job 2(1) applied(1,2)] applied(4,6,5,7,8) same])
    qed
  qed
  then show ?thesis by (simp add: db'_def)
qed

section \<open>The runner and the requests keep the invariant\<close>

lemma set_job_payloads: "(\<And>j. job_payload (f j) = job_payload j) \<Longrightarrow> map job_payload (db_job (set_job jid f db)) = map job_payload (db_job db)"
  by (simp add: set_job_def)

lemma set_job_inv:
  assumes "release_inv db" "\<And>j. job_payload (f j) = job_payload j"
  shows "release_inv (set_job jid f db)"
  using assms(1) by (rule keep_inv) (simp_all add: frame set_job_payloads [OF assms(2)])

lemma fail_release_inv: "release_inv db \<Longrightarrow> release_inv (fail_release payload db)"
proof -
  assume inv: "release_inv db"
  have "release_inv (set_release (\<lambda>r. rel_id r = i \<and> rel_state r = Pending) Failed reason db)" for i reason
  proof (rule unpublished_inv [OF inv set_state_map set_release_rows])
    fix r :: ReleaseRow
    show "set_state (\<lambda>r. rel_id r = i \<and> rel_state r = Pending) Failed reason r = r \<or> rel_state r = Pending \<and>
        \<not> reached (rel_state (set_state (\<lambda>r. rel_id r = i \<and> rel_state r = Pending) Failed reason r))"
      by (cases "rel_id r = i \<and> rel_state r = Pending") (simp_all add: set_state_state, auto simp: set_state_def)
  qed (simp_all add: frame)
  with inv show ?thesis by (simp add: fail_release_def split: job_payload.split option.split)
qed

lemma fail_release_payloads [frame]: "db_job (fail_release payload db) = db_job db"
  by (simp add: fail_release_def frame split: job_payload.split option.split)

lemma audit_inv: "release_inv db \<Longrightarrow> release_inv (writeAudit a b c ok db)"
  by (rule keep_inv) (simp_all add: frame)

lemma run_payload_inv:
  assumes "release_inv db" "job_scoped (db_release db) (gateways_of db) (job_payload job)"
  shows "release_inv (snd (run_payload app ok nowMs job db))" "db_job (snd (run_payload app ok nowMs job db)) = db_job db"
  using assms reconcile_inv [of db] reconcile_effect(1)
  by (auto simp: run_payload_def split: job_payload.split)

lemma run_job_inv:
  assumes inv: "release_inv db" and job: "job_payload job \<in> set (map job_payload (db_job db))"
  shows "release_inv (run_job app ok nowMs db job)" "map job_payload (db_job (run_job app ok nowMs db job)) = map job_payload (db_job db)"
proof -
  define db1 where "db1 = set_job (job_id job) (\<lambda>j. j\<lparr>job_state := JRunning, job_attempts := job_attempts j + 1, job_updated_at := toISOString nowMs\<rparr>) db"
  have inv1: "release_inv db1" unfolding db1_def by (rule set_job_inv [OF inv]) simp
  have p1: "map job_payload (db_job db1) = map job_payload (db_job db)" unfolding db1_def by (rule set_job_payloads) simp
  have "job_scoped (db_release db1) (gateways_of db1) (job_payload job)"
    using inv job by (auto simp: release_inv_def list_all_iff db1_def frame)
  note run = run_payload_inv [OF inv1 this, of app ok nowMs]
  obtain r db2 where r: "run_payload app ok nowMs job db1 = (r, db2)" by fastforce
  with run p1 have inv2: "release_inv db2" and p2: "map job_payload (db_job db2) = map job_payload (db_job db)" by simp_all
  have "release_inv (run_job app ok nowMs db job) \<and> map job_payload (db_job (run_job app ok nowMs db job)) = map job_payload (db_job db)"
    unfolding run_job_def Let_def db1_def [symmetric] r
    by (cases r) (auto simp: frame p2 set_job_payloads intro!: set_job_inv inv2 fail_release_inv audit_inv)
  then show "release_inv (run_job app ok nowMs db job)" "map job_payload (db_job (run_job app ok nowMs db job)) = map job_payload (db_job db)" by simp_all
qed

lemma run_jobs_inv [inv_pres]:
  assumes "release_inv db"
  shows "release_inv (run_jobs app ok nowMs db)"
proof -
  define db1 where "db1 = requeue_stuck nowMs db"
  have inv1: "release_inv db1"
    using assms by (rule keep_inv) (simp_all add: db1_def requeue_stuck_def gateways_of_def)
  have fold: "release_inv (foldl (run_job app ok nowMs) d js)"
    if "release_inv d" "set (map job_payload js) \<subseteq> set (map job_payload (db_job d))" for d js
    using that
  proof (induction js arbitrary: d)
    case (Cons j js)
    then have "job_payload j \<in> set (map job_payload (db_job d))" by simp
    note run_job_inv [OF Cons.prems(1) this, of app ok nowMs]
    with Cons.prems(2) show ?case unfolding foldl.simps by (intro Cons.IH) auto
  qed simp
  have "set (due_jobs nowMs db1) \<subseteq> set (db_job db1)"
    by (auto simp: due_jobs_def dest: in_set_takeD)
  then show ?thesis unfolding run_jobs_def Let_def db1_def [symmetric] by (intro fold inv1) auto
qed

text \<open>An identifier no row and no job has used: what \<^verbatim>\<open>newId\<close> draws.\<close>

definition names_release :: "string \<Rightarrow> job_payload \<Rightarrow> bool" where
  "names_release i payload = (case payload of ReconcileJob p \<Rightarrow> rp_releaseId p = Some i | OtherJob _ \<Rightarrow> False)"

definition fresh_release :: "string \<Rightarrow> DB \<Rightarrow> bool" where
  "fresh_release i db \<longleftrightarrow> i \<notin> set (map rel_id (db_release db)) \<and> \<not> list_ex (\<lambda>j. names_release i (job_payload j)) (db_job db)"

lemma job_scoped_snoc:
  "\<not> names_release (rel_id row) payload \<Longrightarrow> job_scoped (rows @ [row]) gws payload \<longleftrightarrow> job_scoped rows gws payload"
  by (auto simp: job_scoped_def names_release_def split: job_payload.split)

lemma insert_release_inv:
  assumes inv: "release_inv db" and fresh: "fresh_release (rel_id row) db" and row: "\<not> reached (rel_state row)"
  shows "release_inv (insert_release row db)"
proof -
  let ?db = "insert_release row db"
  have fields: "db_release ?db = db_release db @ [row]" "db_job ?db = db_job db" "gateways_of ?db = gateways_of db"
      "db_applied ?db = db_applied db" "db_route_gateway ?db = db_route_gateway db"
    by (simp_all add: insert_release_def gateways_of_def)
  have "live_newest (db_release ?db)"
    using inv row by (auto simp: fields release_inv_def live_newest_def sorted_wrt_append)
  moreover have "list_all (\<lambda>j. job_scoped (db_release ?db) (gateways_of ?db) (job_payload j)) (db_job ?db)"
    using inv fresh by (auto simp: fields release_inv_def fresh_release_def list_all_iff list_ex_iff job_scoped_snoc)
  moreover have "applied_live ?db a" if "applied_live db a" for a
    using that fields(3) by (rule applied_live_keep) (auto simp: bound_mem fields)
  ultimately show ?thesis
    using inv fresh unfolding release_inv_parts by (auto simp: fields fresh_release_def list_all_iff)
qed

lemma enqueueJob_inv:
  assumes inv: "release_inv db" and job: "job_scoped (db_release db) (gateways_of db) payload"
  shows "release_inv (snd (enqueueJob jid stamp kind payload key db))"
proof -
  let ?db = "snd (enqueueJob jid stamp kind payload key db)"
  have "list_all (job_scoped (db_release ?db) (gateways_of ?db)) (map job_payload (db_job ?db))"
    unfolding list_all_iff
  proof
    fix q assume "q \<in> set (map job_payload (db_job ?db))"
    then have "q = payload \<or> q \<in> set (map job_payload (db_job db))" using enqueueJob_jobs by blast
    then show "job_scoped (db_release ?db) (gateways_of ?db) q" using inv job by (auto simp: frame release_inv_def list_all_iff)
  qed
  then have "list_all (\<lambda>j. job_scoped (db_release ?db) (gateways_of ?db) (job_payload j)) (db_job ?db)" by (simp add: list.pred_map comp_def)
  moreover have "applied_live ?db a = applied_live db a" for a
    by (simp add: applied_live_def bound_targets_def frame cong: option.case_cong)
  ultimately show ?thesis using inv unfolding release_inv_parts by (simp add: frame list_all_iff)
qed

lemma freeze_inv: "release_inv db \<Longrightarrow> release_inv (freeze v stamp db)"
  by (rule keep_inv) (simp_all add: frame)

lemma persistPlan_inv: "release_inv db \<Longrightarrow> release_inv (persistPlan pid actor stamp plan db)"
  by (rule keep_inv) (simp_all add: persistPlan_def gateways_of_def)

lemma handle_scoped:
  assumes "release_inv db" "target \<in> set (gatewaysIn db environment)"
  shows "list_all (\<lambda>(t, e). t = tgt_id target \<longrightarrow> Some environment = Some e) (gateways_of db)"
proof -
  from assms(2) have t: "target \<in> set (db_target db)" "tgt_env target = environment" by (auto simp: gatewaysIn_def)
  then have "(tgt_id target, environment) \<in> set (gateways_of db)" by (force simp: gateways_of_def)
  moreover have "distinct (map fst (gateways_of db))" using assms(1) by (simp add: release_inv_parts)
  ultimately show ?thesis by (auto simp: list_all_iff dest: eq_key_imp_eq_value)
qed

lemma request_withdraw_inv [inv_pres]:
  assumes inv: "release_inv db" and req: "request_withdraw app user jid nowMs resource environment db = Inr db'"
  shows "release_inv db'"
proof -
  from req obtain target where t: "target \<in> set (gatewaysIn db environment)"
    and db': "db' = writeAudit (usr_id user) ''release.withdraw'' (''resource:'' @ resource) True
      (snd (enqueueJob jid (toISOString nowMs) ''reconcile'' (ReconcileJob \<lparr>rp_targetId = tgt_id target, rp_resourceId = resource,
        rp_releaseId = None, rp_planId = None, rp_intent = Remove, rp_environment = Some environment\<rparr>)
        (Some (''reconcile:remove:'' @ tgt_id target @ '':'' @ resource @ '':'' @ show_nat (nat nowMs))) db))"
    by (auto simp: request_withdraw_def split: option.splits if_splits list.splits)
  show ?thesis unfolding db'
    using handle_scoped [OF inv t] by (intro audit_inv enqueueJob_inv inv) (simp add: job_scoped_def list_all_iff)
qed

lemma queue_release_inv:
  assumes inv: "release_inv db" and t: "target \<in> set (gatewaysIn db (rq_environment req))" and fresh: "fresh_release relId db"
  shows "release_inv (queue_release user relId jid stamp req v planId target db)"
proof -
  define row where "row = \<lparr>rel_id = relId, rel_resource = rq_resource req, rel_revision = rev_id v, rel_env = rq_environment req,
    rel_state = Pending, rel_reason = (if rq_skipChain req then map_option (\<lambda>s. ''skipChain: '' @ s) (rq_reason req) else None),
    rel_version_digest = rev_version_digest v, rel_released_by = usr_id user, rel_released_at = stamp, rel_plan = Some planId\<rparr>"
  have ins: "release_inv (insert_release row db)" using inv fresh by (intro insert_release_inv) (simp_all add: row_def)
  have old: "relId \<notin> set (map rel_id (db_release db))" using fresh by (simp add: fresh_release_def)
  have gws: "gateways_of (insert_release row db) = gateways_of db" "db_release (insert_release row db) = db_release db @ [row]"
    by (simp_all add: insert_release_def gateways_of_def)
  have "r \<in> set (db_release db) \<Longrightarrow> rel_id r \<noteq> relId" for r using old by auto
  then have "job_scoped (db_release db @ [row]) (gateways_of db) (ReconcileJob \<lparr>rp_targetId = tgt_id target, rp_resourceId = rq_resource req,
      rp_releaseId = Some relId, rp_planId = Some planId, rp_intent = Apply, rp_environment = Some (rq_environment req)\<rparr>)"
    using handle_scoped [OF inv t] by (auto simp: job_scoped_def list_all_iff row_def)
  then show ?thesis
    unfolding queue_release_def Let_def row_def [symmetric]
    by (intro audit_inv enqueueJob_inv freeze_inv ins) (simp add: frame gws)
qed

lemma request_release_inv [inv_pres]:
  assumes inv: "release_inv db" and fresh: "fresh_release relId db"
    and req: "request_release app user relId jid newPlanId nowMs req db = Inr db'"
  shows "release_inv db'"
proof -
  have same: "gatewaysIn (persistPlan pid who stamp plan db) e = gatewaysIn db e" "fresh_release relId (persistPlan pid who stamp plan db)" for pid who stamp plan e
    using fresh by (simp_all add: persistPlan_def gatewaysIn_def fresh_release_def)
  from req obtain v plan target where t: "target \<in> set (gatewaysIn db (rq_environment req))"
    and "(\<exists>p. db' = queue_release user relId jid (toISOString nowMs) req v p target db) \<or>
      db' = queue_release user relId jid (toISOString nowMs) req v newPlanId target (persistPlan newPlanId (usr_id user) (toISOString nowMs) plan db)"
    unfolding request_release_def by (auto split: sum.splits if_splits option.splits list.splits prod.splits)
  then show ?thesis using queue_release_inv [OF inv t fresh] queue_release_inv [OF persistPlan_inv [OF inv]] same t by auto
qed

end
