(* ===== verification/Domains.thy ===== *)
theory Domains
  imports Routing
begin

text \<open>
  \<^verbatim>\<open>shared/domains.ts\<close>: the catalogue's taxonomy. Every published thing belongs to a domain and optionally a
  sub-domain, and both are the first segments of its path. The lemmas show that the closed list gives every
  pair an address of its own, so that two teams of different domains cannot be led to one path.
\<close>

section \<open>Definitions\<close>

record Domain =
  dom_name :: string
  dom_subdomains :: "string list"

definition DOMAINS :: "Domain list" where
  "DOMAINS =
    [\<lparr>dom_name = ''Aftersales'', dom_subdomains = [''Diagnosis'', ''Maintenance'', ''Parts'', ''Repairs'', ''Service Support'', ''Vehicle Data'', ''Warranty'']\<rparr>,
     \<lparr>dom_name = ''Business Support'', dom_subdomains = [''Archive'', ''Audit'', ''Catering'', ''Communication'', ''Events'', ''Legal'', ''Media'',
        ''Mobility'', ''Office Management'', ''Risk and Compliance'', ''Security'', ''Sustainability'', ''Travel'']\<rparr>,
     \<lparr>dom_name = ''Connectivity'', dom_subdomains = [''Data'', ''Management'', ''Operations'']\<rparr>,
     \<lparr>dom_name = ''Finances'', dom_subdomains = [''Accounting'', ''Customs'', ''Tax'', ''Treasury'']\<rparr>,
     \<lparr>dom_name = ''HR'', dom_subdomains = [''Data'', ''Health'', ''Personnel'', ''Qualification'', ''Rewards'', ''Safety'']\<rparr>,
     \<lparr>dom_name = ''IT'', dom_subdomains = [''Architecture'', ''Governance'', ''Lifecycle'', ''Operation'', ''Portfolio'', ''Security'', ''Solution'']\<rparr>,
     \<lparr>dom_name = ''Marketing'', dom_subdomains = [''Brand communication'', ''Content production'', ''Dealer contact'', ''Digital product'', ''Market research'',
        ''Price Management'', ''Product communication'', ''Product Data Management'', ''Social media'']\<rparr>,
     \<lparr>dom_name = ''Product'', dom_subdomains = []\<rparr>,
     \<lparr>dom_name = ''Production'', dom_subdomains = [''Logistics'', ''Orders'', ''Preparation'', ''Reporting'', ''Steering'']\<rparr>,
     \<lparr>dom_name = ''Quality'', dom_subdomains = []\<rparr>,
     \<lparr>dom_name = ''RD'', dom_subdomains = []\<rparr>,
     \<lparr>dom_name = ''Sales'', dom_subdomains = [''Crm/campaigns'', ''Crm/complaints'', ''Crm/contracts'', ''Crm/customer data management'', ''Crm/leads'', ''Fleets'',
        ''Merchandise'', ''New cars'', ''Orders'', ''Services'', ''Strategy'', ''Strategy/brand strategy'', ''Strategy/communication'',
        ''Strategy/inporter steering'', ''Strategy/market development'', ''Strategy/product and portfolio strategy'',
        ''Strategy/retail network development'', ''Strategy/training'', ''Strategy/volume and price planning'', ''Used cars'']\<rparr>]"

text \<open>An absent name and an empty one are both falsy.\<close>

definition given :: "string option \<Rightarrow> string option" where
  "given v = (case v of None \<Rightarrow> None | Some s \<Rightarrow> if s = [] then None else Some s)"

definition findDomain :: "string option \<Rightarrow> Domain option" where
  "findDomain name = (case given name of None \<Rightarrow> None | Some n \<Rightarrow> find (\<lambda>d. dom_name d = n) DOMAINS)"

definition slug_char :: "char \<Rightarrow> bool" where
  "slug_char c \<longleftrightarrow> char_in CHR ''a'' CHR ''z'' c \<or> char_in CHR ''0'' CHR ''9'' c"

text \<open>\<^verbatim>\<open>replace(/[^a-z0-9]+/g, "-")\<close>: a run becomes one hyphen. \<^verbatim>\<open>replace(/^-+|-+$/g, "")\<close> trims hyphens at both ends.\<close>

fun hyphenate :: "bool \<Rightarrow> string \<Rightarrow> string" where
  "hyphenate run [] = []"
| "hyphenate run (c # s) =
     (if slug_char c then c # hyphenate False s else if run then hyphenate True s else CHR ''-'' # hyphenate True s)"

definition trim_hyphens :: "string \<Rightarrow> string" where
  "trim_hyphens s = rev (dropWhile (\<lambda>c. c = CHR ''-'') (rev (dropWhile (\<lambda>c. c = CHR ''-'') s)))"

definition slugify :: "string \<Rightarrow> string" where
  "slugify input = trim_hyphens (hyphenate False (toLowerCase (js_trim input)))"

definition slugifyPath :: "string \<Rightarrow> string" where
  "slugifyPath input = js_join ''/'' (filter (\<lambda>s. s \<noteq> []) (map slugify (js_split CHR ''/'' input)))"

datatype domain_error = DomainRequired | DomainUnknown | NoSubdomains | SubdomainUnknown

definition domainError :: "string option \<Rightarrow> string option \<Rightarrow> domain_error option" where
  "domainError domain subdomain =
     (if given domain = None then Some DomainRequired
      else (case findDomain domain of None \<Rightarrow> Some DomainUnknown
        | Some found \<Rightarrow> (case given subdomain of None \<Rightarrow> None
            | Some s \<Rightarrow> if dom_subdomains found = [] then Some NoSubdomains
                else if s \<notin> set (dom_subdomains found) then Some SubdomainUnknown else None)))"

definition path_of :: "string list \<Rightarrow> string" where
  "path_of parts = ''/'' @ js_join ''/'' (filter (\<lambda>s. s \<noteq> []) parts)"

definition domain_segments :: "string \<Rightarrow> string option \<Rightarrow> string list" where
  "domain_segments domain subdomain = slugify domain # (case given subdomain of None \<Rightarrow> [] | Some s \<Rightarrow> [slugifyPath s])"

definition domainPrefix :: "string \<Rightarrow> string option \<Rightarrow> string" where
  "domainPrefix domain subdomain = path_of (domain_segments domain subdomain)"

definition storedPath :: "string \<Rightarrow> string option \<Rightarrow> string \<Rightarrow> string" where
  "storedPath domain subdomain name = path_of (domain_segments domain subdomain @ [slugify name])"

definition versionSegment :: "string option \<Rightarrow> string" where
  "versionSegment apiVersion = (let slug = slugify (case apiVersion of None \<Rightarrow> [] | Some v \<Rightarrow> v) in if slug = [] then [] else ''/'' @ slug)"

definition publishedPath :: "string \<Rightarrow> string option \<Rightarrow> string \<Rightarrow> string option \<Rightarrow> string" where
  "publishedPath domain subdomain name apiVersion = storedPath domain subdomain name @ versionSegment apiVersion"

definition stripVersionSegment :: "string \<Rightarrow> string option \<Rightarrow> string" where
  "stripVersionSegment path apiVersion =
     (let slug = slugify (case apiVersion of None \<Rightarrow> [] | Some v \<Rightarrow> v) in
      if slug = [] then path
      else (let parts = js_split CHR ''/'' (drop_trailing_slashes path);
                kept = (if slugify (last parts) = slug then butlast parts else parts);
                joined = js_join ''/'' kept
            in if joined = [] then ''/'' else joined))"

definition domainFromPath :: "string option \<Rightarrow> Domain option" where
  "domainFromPath path = (case given path of None \<Rightarrow> None
     | Some p \<Rightarrow> (let head = hd (js_split CHR ''/'' (dropWhile (\<lambda>c. c = CHR ''/'') p)) in
         if head = [] then None else find (\<lambda>d. slugify (dom_name d) = slugify head) DOMAINS))"

section \<open>Lemmas\<close>

lemma given_idem [simp]: "given (given v) = given v"
  by (simp add: given_def split: option.split)

lemma domain_prefixes: "list_all (\<lambda>d. distinct (map (domainPrefix (dom_name d)) (None # map Some (dom_subdomains d)))) DOMAINS"
  by code_simp

lemma domain_heads: "list_all (\<lambda>d. slugify (dom_name d) \<noteq> [] \<and> CHR ''/'' \<notin> set (slugify (dom_name d))) DOMAINS"
  by code_simp

lemma domain_slugs: "distinct (map (\<lambda>d. slugify (dom_name d)) DOMAINS)"
  by code_simp

lemma domain_names: "distinct (map dom_name DOMAINS)"
  by code_simp

lemma domainPrefix_given: "domainPrefix d (given s) = domainPrefix d s"
  by (simp add: domainPrefix_def domain_segments_def)

lemma accepted_place:
  assumes "domainError (Some d) s = None"
  obtains x where "x \<in> set DOMAINS" "dom_name x = d" "given s \<in> set (None # map Some (dom_subdomains x))"
proof -
  from assms obtain x where x: "findDomain (Some d) = Some x" and s: "given s = None \<or> the (given s) \<in> set (dom_subdomains x)" and d: "given (Some d) = Some d"
    by (auto simp: domainError_def given_def split: option.splits if_splits)
  then have "x \<in> set DOMAINS" "dom_name x = d" by (auto simp: findDomain_def find_Some_iff)
  moreover have "given s \<in> set (None # map Some (dom_subdomains x))" using s by (cases "given s") auto
  ultimately show ?thesis by (rule that)
qed

text \<open>The first segment of a path under a prefix is the slug of the domain.\<close>

definition first_segment :: "string \<Rightarrow> string" where
  "first_segment path = takeWhile (\<lambda>c. c \<noteq> CHR ''/'') (tl path)"

lemma prefix_head:
  assumes "domainError (Some d) s = None" and rest: "rest = [] \<or> hd rest = CHR ''/''"
  shows "first_segment (domainPrefix d s @ rest) = slugify d"
proof -
  from assms(1) obtain x where "x \<in> set DOMAINS" "dom_name x = d" by (rule accepted_place)
  then have h: "slugify d \<noteq> []" "CHR ''/'' \<notin> set (slugify d)" using domain_heads by (auto simp: list_all_iff)
  have "\<exists>more. domainPrefix d s = ''/'' @ slugify d @ more \<and> (more = [] \<or> hd more = CHR ''/'')"
    using h(1) by (cases "given s"; cases "slugifyPath (the (given s)) = []") (auto simp: domainPrefix_def domain_segments_def path_of_def)
  then obtain more where m: "domainPrefix d s = ''/'' @ slugify d @ more" "more = [] \<or> hd more = CHR ''/''" by blast
  have "takeWhile (\<lambda>c. c \<noteq> CHR ''/'') (slugify d @ xs) = slugify d" if "xs = [] \<or> hd xs = CHR ''/''" for xs
    using that h(2) by (subst takeWhile_append2) (auto simp: takeWhile_eq_Nil_iff)
  from this [of "more @ rest"] m rest show ?thesis by (cases more) (auto simp: first_segment_def)
qed

lemma accepted_slug_inj:
  assumes "domainError (Some d) s = None" "domainError (Some d') s' = None" "slugify d = slugify d'"
  shows "d = d'"
proof -
  from assms(1) obtain x where x: "x \<in> set DOMAINS" "dom_name x = d" by (rule accepted_place)
  from assms(2) obtain y where y: "y \<in> set DOMAINS" "dom_name y = d'" by (rule accepted_place)
  have "inj_on (\<lambda>d. slugify (dom_name d)) (set DOMAINS)" using domain_slugs by (simp add: distinct_map)
  from inj_onD [OF this _ x(1) y(1)] x(2) y(2) assms(3) show ?thesis by simp
qed

text \<open>Two accepted places of the taxonomy with the same address prefix are the same place, so what a path starts with
  says which domain and sub-domain published it.\<close>

lemma taxonomy_addresses_distinct:
  assumes "domainError (Some d) s = None" "domainError (Some d') s' = None" "domainPrefix d s = domainPrefix d' s'"
  shows "d = d' \<and> given s = given s'"
proof -
  have "slugify d = slugify d'"
    using prefix_head [OF assms(1), of "[]"] prefix_head [OF assms(2), of "[]"] assms(3) by simp
  then have d: "d = d'" using assms by (blast intro: accepted_slug_inj)
  from assms(1) obtain x where x: "x \<in> set DOMAINS" "dom_name x = d" "given s \<in> set (None # map Some (dom_subdomains x))" by (rule accepted_place)
  from assms(2) obtain y where y: "y \<in> set DOMAINS" "dom_name y = d'" "given s' \<in> set (None # map Some (dom_subdomains y))" by (rule accepted_place)
  have "inj_on dom_name (set DOMAINS)" using domain_names by (simp add: distinct_map)
  with x(1,2) y(1,2) d have "y = x" by (auto dest: inj_onD)
  have "inj_on (domainPrefix (dom_name x)) (set (None # map Some (dom_subdomains x)))"
    using domain_prefixes x(1) by (auto simp: list_all_iff distinct_map simp del: list.map)
  from inj_onD [OF this, of "given s" "given s'"] show ?thesis
    using x(2,3) y(3) d assms(3) \<open>y = x\<close> by (simp add: domainPrefix_given)
qed

lemma taxonomy_addresses_distinct_example:
  "domainError (Some ''Sales'') (Some ''Crm/leads'') = None \<and> domainPrefix ''Sales'' (Some ''Crm/leads'') = ''/sales/crm/leads'' \<and>
   given (Some ''Crm/leads'') = Some ''Crm/leads''"
proof -
  have e: "domainError (Some ''Sales'') (Some ''Crm/leads'') = None" by code_simp
  moreover have "domainPrefix ''Sales'' (Some ''Crm/leads'') = ''/sales/crm/leads''" by code_simp
  moreover have "given (Some ''Crm/leads'') = Some ''Crm/leads''" by code_simp
  ultimately show ?thesis using taxonomy_addresses_distinct [OF e e refl] by simp
qed

end
