(* ===== verification/Spine.thy ===== *)
theory Spine
  imports Releases Domains
begin

declare map_of_eq_Some_iff [simp del] Some_eq_map_of_iff [simp del]

text \<open>
  The operation spine (\<^verbatim>\<open>control-plane/src/operations.ts\<close>): the requests that publish, configure and promote an API
  as a durable operation holding a complete snapshot, and the pass that applies operations to the database,
  waits for the fleet to acknowledge the configuration and then completes them. What follows \<^verbatim>\<open>Releases\<close> about
  transactions, clocks and identifiers holds here too. The definition import (\<^verbatim>\<open>revisionSource\<close>, \<^verbatim>\<open>writeRevision\<close>) is
  an argument: the revision it wrote, if any. E-mail events are not modelled.
\<close>

section \<open>Definitions: the fleet\<close>

record spine_services =
  spn_app :: app_services
  spn_config_digest :: "BuiltConfig \<Rightarrow> string"
  spn_abandonedAfterSec :: int
  spn_denyCidrs :: "string list"
  spn_lookup :: "string \<Rightarrow> string list option"

definition config_of :: "spine_services \<Rightarrow> int \<Rightarrow> DB \<Rightarrow> string \<Rightarrow> string option \<Rightarrow> BuiltConfig" where
  "config_of sp nowMs db environment targetId = buildConfig (app_svc (spn_app sp)) (toISOString nowMs) db environment
     (app_integrations (spn_app sp)) (app_publicUrl (spn_app sp)) targetId"

definition expected_digest :: "spine_services \<Rightarrow> int \<Rightarrow> DB \<Rightarrow> string \<Rightarrow> string \<Rightarrow> string" where
  "expected_digest sp nowMs db environment target =
     spn_config_digest sp (config_of sp nowMs db environment (if length (gatewaysIn db environment) = 1 then None else Some target))"

definition counted_instances :: "spine_services \<Rightarrow> int \<Rightarrow> DB \<Rightarrow> string \<Rightarrow> InstanceRow list" where
  "counted_instances sp nowMs db environment =
     filter (\<lambda>i. ins_revoked_at i = None \<and> list_ex (\<lambda>t. tgt_id t = ins_target i) (gatewaysIn db environment) \<and>
        (case ins_last_seen_at i of None \<Rightarrow> True
         | Some s \<Rightarrow> (case Date_parse s of Some m \<Rightarrow> nowMs - spn_abandonedAfterSec sp * 1000 \<le> m | None \<Rightarrow> False))) (db_instance db)"

definition fleetApplied :: "spine_services \<Rightarrow> int \<Rightarrow> DB \<Rightarrow> string \<Rightarrow> bool" where
  "fleetApplied sp nowMs db environment \<longleftrightarrow>
     bcf_errors (config_of sp nowMs db environment None) = [] \<and> counted_instances sp nowMs db environment \<noteq> [] \<and>
     list_all (\<lambda>i. ins_config_digest i = Some (expected_digest sp nowMs db environment (ins_target i)) \<and> ins_last_seen_at i \<noteq> None)
       (counted_instances sp nowMs db environment)"

section \<open>Definitions: applying an operation\<close>

datatype operation_error = GatewayMissing "string list" | NoGatewayHere | EnvironmentUnavailable | RouteTaken | DefinitionUnavailable | NotActivated

datatype outcome = Waits | Fails operation_error | Applies DB

definition set_operation :: "string \<Rightarrow> (OperationRow \<Rightarrow> OperationRow) \<Rightarrow> DB \<Rightarrow> DB" where
  "set_operation oid f db = db\<lparr>db_operation := map (\<lambda>o'. if opn_id o' = oid then f o' else o') (db_operation db)\<rparr>"

definition operation_state :: "DB \<Rightarrow> string \<Rightarrow> OperationState option" where
  "operation_state db oid = map_option opn_state (find (\<lambda>q. opn_id q = oid) (db_operation db))"

definition earlier_open :: "DB \<Rightarrow> OperationRow \<Rightarrow> bool" where
  "earlier_open db q = list_ex (\<lambda>p. opn_resource p = opn_resource q \<and> opn_env p = opn_env q \<and> opn_state p \<notin> {OComplete, OSuperseded})
     (takeWhile (\<lambda>p. opn_id p \<noteq> opn_id q) (db_operation db))"

definition source_ready :: "spine_services \<Rightarrow> int \<Rightarrow> DB \<Rightarrow> Snapshot \<Rightarrow> bool" where
  "source_ready sp nowMs db snapshot = (case given (snap_sourceOperationId snapshot) of
       Some parent \<Rightarrow> operation_state db parent = Some OComplete
     | None \<Rightarrow> (case given (snap_sourceEnvironment snapshot) of
         Some e \<Rightarrow> fleetApplied sp nowMs db e | None \<Rightarrow> True))"

definition chosen_gateways :: "DB \<Rightarrow> string \<Rightarrow> Snapshot \<Rightarrow> string list \<times> string list" where
  "chosen_gateways db environment snapshot = (case snap_gateways snapshot of
       Some names \<Rightarrow> resolveGateways db environment names
     | None \<Rightarrow> (map tgt_id (gatewaysIn db environment), []))"

text \<open>\<^verbatim>\<open>UNIQUE (environment, host, base_path)\<close> of the table \<^verbatim>\<open>route\<close>: the insertion throws when another API has the address.\<close>

definition address_taken :: "DB \<Rightarrow> OperationRow \<Rightarrow> bool" where
  "address_taken db q = list_ex (\<lambda>((r, e), address). r \<noteq> opn_resource q \<and> e = opn_env q \<and>
     address = (snap_host (opn_input q), snap_basePath (opn_input q))) (db_route db)"

definition place_operation :: "OperationRow \<Rightarrow> string list \<Rightarrow> DB \<Rightarrow> DB" where
  "place_operation q ids db =
     (let scope = (opn_resource q, opn_env q); s = opn_input q in
      db\<lparr>db_route := mset_key scope (snap_host s, snap_basePath s) (db_route db),
         db_route_gateway := filter (\<lambda>(r, e, _). \<not> (r = opn_resource q \<and> e = opn_env q)) (db_route_gateway db) @
            map (\<lambda>i. (opn_resource q, opn_env q, i)) ids,
         db_binding := mset_key scope (snap_backend s) (db_binding db)\<rparr>)"

definition owned_units :: "document \<Rightarrow> document \<Rightarrow> document" where
  "owned_units wide policy = filter (\<lambda>(u, v). map_of wide u \<noteq> Some v) policy"

definition write_policy :: "OperationRow \<Rightarrow> string \<Rightarrow> DB \<Rightarrow> DB" where
  "write_policy q stamp db =
     db\<lparr>db_policy := filter (\<lambda>r. \<not> (pe_resource r = opn_resource q \<and> pe_env r = opn_env q)) (db_policy db) @
        map (\<lambda>(u, v). \<lparr>pe_resource = opn_resource q, pe_env = opn_env q, pe_unit = u, pe_value = v, pe_seeded = False,
              pe_seeded_from = None, pe_seeded_at = None, pe_updated_by = opn_actor q, pe_updated_at = stamp\<rparr>)
          (owned_units (inheritedUnits db (opn_env q)) (snap_policy (opn_input q)))\<rparr>"

definition publish_row :: "string \<Rightarrow> OperationRow \<Rightarrow> RevisionRow \<Rightarrow> string \<Rightarrow> DB \<Rightarrow> DB" where
  "publish_row relId q v stamp db =
     freeze (snap_revisionId (opn_input q)) stamp
       (insert_release \<lparr>rel_id = relId, rel_resource = opn_resource q, rel_revision = snap_revisionId (opn_input q), rel_env = opn_env q,
          rel_state = Converged, rel_reason = None, rel_version_digest = rev_version_digest v, rel_released_by = opn_actor q,
          rel_released_at = stamp, rel_plan = None\<rparr>
         (set_release (\<lambda>r. in_scope (opn_resource q) (opn_env q) r \<and> rel_state r = Converged) Superseded None db))"

definition drop_applied :: "string \<Rightarrow> string \<Rightarrow> string list \<Rightarrow> DB \<Rightarrow> DB" where
  "drop_applied resource environment ids db =
     (let gone = map tgt_id (filter (\<lambda>t. tgt_env t = environment \<and> tgt_id t \<notin> set ids) (db_target db)) in
      db\<lparr>db_applied := filter (\<lambda>a. \<not> (app_resource a = resource \<and> app_target a \<in> set gone)) (db_applied db)\<rparr>)"

definition apply_operation :: "spine_services \<Rightarrow> string \<Rightarrow> int \<Rightarrow> OperationRow \<Rightarrow> DB \<Rightarrow> outcome" where
  "apply_operation sp relId nowMs q db =
     (let s = opn_input q; env = opn_env q; stamp = toISOString nowMs; app = spn_app sp in
      if earlier_open db q \<or> \<not> source_ready sp nowMs db s then Waits
      else (let (ids, missing) = chosen_gateways db env s;
                targets = filter (\<lambda>t. tgt_env t = env \<and> tgt_id t \<in> set ids) (db_target db)
            in if missing \<noteq> [] then Fails (GatewayMissing missing)
               else if ids = [] then Fails NoGatewayHere
               else if targets = [] \<or> list_ex tgt_paused targets then Fails EnvironmentUnavailable
               else if address_taken db q then Fails RouteTaken
               else (case find (\<lambda>v. rev_id v = snap_revisionId s) (db_revision db) of
                   None \<Rightarrow> Fails DefinitionUnavailable
                 | Some v \<Rightarrow>
                     (let db1 = publish_row relId q v stamp (write_policy q stamp (place_operation q ids db));
                          (routes, errors) = buildRoutes (svc_host (app_svc app)) (svc_parse (app_svc app)) stamp db1 env
                             (limitsFor (app_integrations app)) (denyRulesFor (svc_parse (app_svc app)) db1 (app_publicUrl app)) None
                      in case find (\<lambda>r. bt_resourceId r = opn_resource q) routes of
                           None \<Rightarrow> Fails NotActivated
                         | Some route \<Rightarrow>
                             if errors \<noteq> [] then Fails NotActivated
                             else Applies (set_operation (opn_id q) (\<lambda>o'. o'\<lparr>opn_state := OWaiting, opn_error := None,
                                    opn_result := Some (relId, spn_config_digest sp (config_of sp nowMs db1 env None)), opn_updated_at := stamp\<rparr>)
                                  (drop_applied (opn_resource q) env ids
                                    (record_applied (opn_resource q) (snap_revisionId s) (app_route_digest app route) stamp ids db1)))))))"

text \<open>The transaction of one operation, and what is written when it throws.\<close>

definition retry_operation :: "int \<Rightarrow> OperationRow \<Rightarrow> DB \<Rightarrow> DB" where
  "retry_operation nowMs q db =
     (let attempts = opn_attempts q + 1 in
      set_operation (opn_id q) (\<lambda>o'. o'\<lparr>opn_state := (if 5 \<le> attempts then OBlocked else ORetrying), opn_attempts := attempts,
        opn_error := Some ''failed'', opn_next_attempt_at := Some (toISOString (nowMs + backoff_ms attempts)), opn_updated_at := toISOString nowMs\<rparr>) db)"

definition run_operation :: "spine_services \<Rightarrow> string \<Rightarrow> int \<Rightarrow> DB \<Rightarrow> OperationRow \<Rightarrow> DB" where
  "run_operation sp relId nowMs db q = (case apply_operation sp relId nowMs q db of
       Waits \<Rightarrow> db | Fails _ \<Rightarrow> retry_operation nowMs q db | Applies db' \<Rightarrow> db')"

definition due_operation :: "int \<Rightarrow> OperationRow \<Rightarrow> bool" where
  "due_operation nowMs q \<longleftrightarrow> opn_state q \<in> {OQueued, ORetrying, OBlocked} \<and>
     (case opn_next_attempt_at q of None \<Rightarrow> True | Some t \<Rightarrow> t \<le> toISOString nowMs)"

text \<open>An environment whose whole fleet has acknowledged its configuration.\<close>

definition settle_environment :: "spine_services \<Rightarrow> int \<Rightarrow> DB \<Rightarrow> string \<Rightarrow> DB" where
  "settle_environment sp nowMs db environment =
     (if \<not> fleetApplied sp nowMs db environment then db
      else db\<lparr>db_operation := map (\<lambda>q. if opn_env q = environment \<and> opn_state q = OWaiting
                 then q\<lparr>opn_state := OComplete, opn_updated_at := toISOString nowMs\<rparr> else q) (db_operation db),
              db_subscription := map (\<lambda>s. if sbr_env s = environment \<and> sbr_state s = SActivating then s\<lparr>sbr_state := SActive\<rparr>
                 else if sbr_env s = environment \<and> sbr_state s = SRevoking then s\<lparr>sbr_state := SRevoked\<rparr> else s) (db_subscription db)\<rparr>)"

text \<open>\<^verbatim>\<open>new_id\<close> draws the release identifier of an operation.\<close>

definition runOperations :: "spine_services \<Rightarrow> (string \<Rightarrow> string) \<Rightarrow> int \<Rightarrow> DB \<Rightarrow> DB" where
  "runOperations sp new_id nowMs db =
     (let db1 = foldl (\<lambda>db q. run_operation sp (new_id (opn_id q)) nowMs db q) db (take 30 (filter (due_operation nowMs) (db_operation db)))
      in foldl (settle_environment sp nowMs) db1 (app_chain (spn_app sp)))"

text \<open>The whole pass: key expiry first, then operations, then jobs (\<^verbatim>\<open>runDueJobs\<close>).\<close>

definition runDueJobs :: "spine_services \<Rightarrow> (string \<Rightarrow> string) \<Rightarrow> (string \<Rightarrow> bool) \<Rightarrow> rat \<Rightarrow> rat \<Rightarrow> int \<Rightarrow> DB \<Rightarrow> DB" where
  "runDueJobs sp new_id other_ok expireDays warnDays nowMs db =
     run_jobs (spn_app sp) other_ok nowMs
       (runOperations sp new_id nowMs (fst (runKeyExpiry expireDays warnDays nowMs (toISOString nowMs) db)))"

section \<open>An applied operation keeps the invariant\<close>

lemma resolve_names_mem:
  assumes "t \<in> set (fst (resolve_names known names))"
  shows "t \<in> snd ` set known"
proof -
  from assms obtain n where "map_of known n = Some t" by (auto simp: resolve_names_def List.map_filter_def)
  then have "(n, t) \<in> set known" by (rule map_of_SomeD)
  then show ?thesis by force
qed

lemma chosen_gateways_here:
  assumes "chosen_gateways db environment s = (ids, missing)" "t \<in> set ids"
  shows "(t, environment) \<in> set (gateways_of db)"
proof -
  have "t \<in> tgt_id ` set (gatewaysIn db environment)"
  proof (cases "snap_gateways s")
    case (Some names)
    with assms have "t \<in> set (fst (resolveGateways db environment names))" by (simp add: chosen_gateways_def)
    then show ?thesis unfolding resolveGateways_def by (auto dest!: resolve_names_mem)
  qed (use assms in \<open>auto simp: chosen_gateways_def\<close>)
  then show ?thesis by (force simp: gatewaysIn_def gateways_of_def)
qed

lemma operation_published_inv:
  assumes inv: "release_inv db" and fresh: "fresh_release (rel_id row) db"
    and row: "in_scope resource environment row" "rel_state row = Converged"
    and here: "\<And>t. t \<in> set ids \<Longrightarrow> (t, environment) \<in> set (gateways_of db)"
    and rows: "db_release db' = map (retire resource environment) (db_release db) @ [row]"
    and bound: "db_route_gateway db' = filter (\<lambda>(r, e, _). \<not> (r = resource \<and> e = environment)) (db_route_gateway db) @
       map (\<lambda>i. (resource, environment, i)) ids"
    and apps: "\<And>a. a \<in> set (db_applied db') \<Longrightarrow>
       app_resource a = resource \<and> app_revision a = rel_revision row \<and> app_target a \<in> set ids \<or>
       a \<in> set (db_applied db) \<and> \<not> (app_resource a = resource \<and> (app_target a, environment) \<in> set (gateways_of db))"
    and same: "db_job db' = db_job db" "gateways_of db' = gateways_of db"
  shows "release_inv db'"
proof -
  let ?g = "retire resource environment"
  have dist: "distinct (map fst (gateways_of db))" using inv by (simp add: release_inv_parts)
  have env_of: "map_of (gateways_of db) t = Some environment" if "t \<in> set ids" for t
    using here [OF that] dist by (intro map_of_is_SomeI)
  have newest: "live_newest (db_release db')"
    using publish_newest [of "db_release db" "[]" resource environment row] inv row by (simp add: rows release_inv_def)
  have "map rel_id (db_release db') = map rel_id (db_release db) @ [rel_id row]"
    by (simp only: rows map_append state_map_ids [OF retire_map] list.map)
  then have ids: "distinct (map rel_id (db_release db'))" using inv fresh by (simp add: release_inv_def fresh_release_def)
  have jobs: "list_all (\<lambda>j. job_scoped (db_release db') (gateways_of db') (job_payload j)) (db_job db')"
    using inv fresh by (auto simp: rows same release_inv_def fresh_release_def list_all_iff list_ex_iff job_scoped_snoc job_scoped_rows [OF retire_map])
  have gw: "list_all (\<lambda>(r, e, t). case map_of (gateways_of db') t of None \<Rightarrow> True | Some e' \<Rightarrow> e' = e) (db_route_gateway db')"
    using inv env_of by (auto simp: bound same release_inv_def list_all_iff)
  have "applied_live db' a" if a: "a \<in> set (db_applied db')" for a
    using apps [OF a]
  proof
    assume "app_resource a = resource \<and> app_revision a = rel_revision row \<and> app_target a \<in> set ids"
    then show ?thesis using env_of row by (auto simp: applied_live_def same bound_mem bound rows)
  next
    assume old: "a \<in> set (db_applied db) \<and> \<not> (app_resource a = resource \<and> (app_target a, environment) \<in> set (gateways_of db))"
    then have away: "\<not> (app_resource a = resource \<and> e = environment)" if "map_of (gateways_of db) (app_target a) = Some e" for e
      using that by (auto dest: map_of_SomeD)
    have live: "applied_live db a" using inv old by (simp add: release_inv_def list_all_iff)
    show ?thesis
    proof (rule applied_live_keep [OF live same(2)])
      fix e assume e: "map_of (gateways_of db) (app_target a) = Some e"
      show "app_target a \<in> set (bound_targets db (app_resource a) e) \<Longrightarrow> app_target a \<in> set (bound_targets db' (app_resource a) e)"
        using away [OF e] by (auto simp: bound_mem bound)
      fix r assume r: "r \<in> set (db_release db)" "in_scope (app_resource a) e r" "rel_state r = Converged"
      then have "?g r = r" using away [OF e] by (auto simp: retire_def set_state_def in_scope_def)
      then have "r \<in> set (db_release db')" unfolding rows set_append set_map using r(1) by (intro UnI1 image_eqI [where x = r]) simp_all
      then show "\<exists>r'\<in>set (db_release db'). same_release r r' \<and> rel_state r' = Converged" using r(3) by (intro bexI [of _ r]) simp_all
    qed
  qed
  then show ?thesis using ids newest jobs gw inv unfolding release_inv_parts same by (auto simp: list_all_iff)
qed

lemma operation_frame [frame]:
  "db_release (set_operation i f db) = db_release db" "db_job (set_operation i f db) = db_job db"
  "gateways_of (set_operation i f db) = gateways_of db" "db_applied (set_operation i f db) = db_applied db"
  "db_route_gateway (set_operation i f db) = db_route_gateway db" "db_target (set_operation i f db) = db_target db"
  by (simp_all add: set_operation_def gateways_of_def)

lemma place_frame [frame]:
  "db_release (place_operation q ids db) = db_release db" "db_job (place_operation q ids db) = db_job db"
  "gateways_of (place_operation q ids db) = gateways_of db" "db_applied (place_operation q ids db) = db_applied db"
  "db_release (write_policy q s db) = db_release db" "db_job (write_policy q s db) = db_job db"
  "gateways_of (write_policy q s db) = gateways_of db" "db_applied (write_policy q s db) = db_applied db"
  "db_route_gateway (write_policy q s db) = db_route_gateway db"
  by (simp_all add: place_operation_def write_policy_def Let_def gateways_of_def)

lemma publish_row_frame [frame]:
  "db_job (publish_row i q v s db) = db_job db" "gateways_of (publish_row i q v s db) = gateways_of db"
  "db_applied (publish_row i q v s db) = db_applied db" "db_route_gateway (publish_row i q v s db) = db_route_gateway db"
  by (simp_all add: publish_row_def frame insert_release_def) (simp_all add: gateways_of_def set_release_def)

lemma drop_applied_frame [frame]:
  "db_release (drop_applied r e ids db) = db_release db" "db_job (drop_applied r e ids db) = db_job db"
  "gateways_of (drop_applied r e ids db) = gateways_of db" "db_route_gateway (drop_applied r e ids db) = db_route_gateway db"
  by (simp_all add: drop_applied_def Let_def gateways_of_def)

lemma drop_applied_mem:
  "a \<in> set (db_applied (drop_applied r e ids db)) \<longleftrightarrow>
     a \<in> set (db_applied db) \<and> \<not> (app_resource a = r \<and> (app_target a, e) \<in> set (gateways_of db) \<and> app_target a \<notin> set ids)"
  by (auto simp: drop_applied_def Let_def gateways_of_def)

text \<open>What the transaction of an operation does to the tables of releases, when it commits.\<close>

lemma apply_operation_tables:
  assumes "apply_operation sp relId nowMs q db = Applies db'"
  obtains ids v dig where
    "\<And>t. t \<in> set ids \<Longrightarrow> (t, opn_env q) \<in> set (gateways_of db)" "ids \<noteq> []"
    "find (\<lambda>v. rev_id v = snap_revisionId (opn_input q)) (db_revision db) = Some v"
    "db_release db' = map (retire (opn_resource q) (opn_env q)) (db_release db) @
       [\<lparr>rel_id = relId, rel_resource = opn_resource q, rel_revision = snap_revisionId (opn_input q), rel_env = opn_env q,
          rel_state = Converged, rel_reason = None, rel_version_digest = rev_version_digest v, rel_released_by = opn_actor q,
          rel_released_at = toISOString nowMs, rel_plan = None\<rparr>]"
    "db_route_gateway db' = filter (\<lambda>(r, e, _). \<not> (r = opn_resource q \<and> e = opn_env q)) (db_route_gateway db) @
       map (\<lambda>i. (opn_resource q, opn_env q, i)) ids"
    "\<And>a. a \<in> set (db_applied db') \<Longrightarrow>
       a \<in> set (db_applied (record_applied (opn_resource q) (snap_revisionId (opn_input q)) dig (toISOString nowMs) ids db)) \<and>
       \<not> (app_resource a = opn_resource q \<and> (app_target a, opn_env q) \<in> set (gateways_of db) \<and> app_target a \<notin> set ids)"
    "db_job db' = db_job db" "gateways_of db' = gateways_of db"
proof -
  obtain ids missing where ch: "chosen_gateways db (opn_env q) (opn_input q) = (ids, missing)" by fastforce
  note a = assms [unfolded apply_operation_def Let_def ch prod.case]
  from a obtain v where v: "find (\<lambda>v. rev_id v = snap_revisionId (opn_input q)) (db_revision db) = Some v" and ne: "ids \<noteq> []"
    by (auto split: if_splits option.splits prod.splits)
  define db1 where "db1 = publish_row relId q v (toISOString nowMs) (write_policy q (toISOString nowMs) (place_operation q ids db))"
  from a v obtain f route where db': "db' = set_operation (opn_id q) f (drop_applied (opn_resource q) (opn_env q) ids
      (record_applied (opn_resource q) (snap_revisionId (opn_input q)) (app_route_digest (spn_app sp) route) (toISOString nowMs) ids db1))"
    by (auto simp: db1_def split: if_splits option.splits prod.splits)
  have retire: "map (set_state (\<lambda>r. in_scope (opn_resource q) (opn_env q) r \<and> rel_state r = Converged) Superseded None) rows =
      map (retire (opn_resource q) (opn_env q)) rows" for rows by (simp add: retire_def)
  show ?thesis
  proof (rule that [of ids v "app_route_digest (spn_app sp) route"])
    show "(t, opn_env q) \<in> set (gateways_of db)" if "t \<in> set ids" for t using chosen_gateways_here [OF ch that] .
    show "db_release db' = map (retire (opn_resource q) (opn_env q)) (db_release db) @
       [\<lparr>rel_id = relId, rel_resource = opn_resource q, rel_revision = snap_revisionId (opn_input q), rel_env = opn_env q,
          rel_state = Converged, rel_reason = None, rel_version_digest = rev_version_digest v, rel_released_by = opn_actor q,
          rel_released_at = toISOString nowMs, rel_plan = None\<rparr>]"
      by (simp add: db' frame db1_def publish_row_def insert_release_def set_release_rows retire)
    show "db_route_gateway db' = filter (\<lambda>(r, e, _). \<not> (r = opn_resource q \<and> e = opn_env q)) (db_route_gateway db) @
       map (\<lambda>i. (opn_resource q, opn_env q, i)) ids"
      by (simp add: db' frame db1_def) (simp add: place_operation_def Let_def)
    show "a \<in> set (db_applied (record_applied (opn_resource q) (snap_revisionId (opn_input q)) (app_route_digest (spn_app sp) route) (toISOString nowMs) ids db)) \<and>
       \<not> (app_resource a = opn_resource q \<and> (app_target a, opn_env q) \<in> set (gateways_of db) \<and> app_target a \<notin> set ids)"
      if "a \<in> set (db_applied db')" for a
      using that record_applied_cong [of db1 db] by (simp add: db' frame drop_applied_mem db1_def)
  qed (simp_all add: v ne db' frame db1_def)
qed

lemma apply_operation_inv:
  assumes "release_inv db" "fresh_release relId db" "apply_operation sp relId nowMs q db = Applies db'"
  shows "release_inv db'"
  using assms(3)
proof (rule apply_operation_tables)
  fix ids v dig
  assume here: "\<And>t. t \<in> set ids \<Longrightarrow> (t, opn_env q) \<in> set (gateways_of db)"
    and rows: "db_release db' = map (retire (opn_resource q) (opn_env q)) (db_release db) @
       [\<lparr>rel_id = relId, rel_resource = opn_resource q, rel_revision = snap_revisionId (opn_input q), rel_env = opn_env q,
          rel_state = Converged, rel_reason = None, rel_version_digest = rev_version_digest v, rel_released_by = opn_actor q,
          rel_released_at = toISOString nowMs, rel_plan = None\<rparr>]"
    and bound: "db_route_gateway db' = filter (\<lambda>(r, e, _). \<not> (r = opn_resource q \<and> e = opn_env q)) (db_route_gateway db) @
       map (\<lambda>i. (opn_resource q, opn_env q, i)) ids"
    and apps: "\<And>a. a \<in> set (db_applied db') \<Longrightarrow>
       a \<in> set (db_applied (record_applied (opn_resource q) (snap_revisionId (opn_input q)) dig (toISOString nowMs) ids db)) \<and>
       \<not> (app_resource a = opn_resource q \<and> (app_target a, opn_env q) \<in> set (gateways_of db) \<and> app_target a \<notin> set ids)"
    and same: "db_job db' = db_job db" "gateways_of db' = gateways_of db"
  show ?thesis
  proof (rule operation_published_inv [OF assms(1) _ _ _ here rows bound _ same])
    fix a assume "a \<in> set (db_applied db')"
    from apps [OF this] record_applied_mem [of a "opn_resource q" "snap_revisionId (opn_input q)" dig "toISOString nowMs" ids db]
    show "app_resource a = opn_resource q \<and> app_revision a = rel_revision \<lparr>rel_id = relId, rel_resource = opn_resource q,
          rel_revision = snap_revisionId (opn_input q), rel_env = opn_env q,
          rel_state = Converged, rel_reason = None, rel_version_digest = rev_version_digest v, rel_released_by = opn_actor q,
          rel_released_at = toISOString nowMs, rel_plan = None\<rparr> \<and> app_target a \<in> set ids \<or>
       a \<in> set (db_applied db) \<and> \<not> (app_resource a = opn_resource q \<and> (app_target a, opn_env q) \<in> set (gateways_of db))"
      by auto
  qed (simp_all add: assms(2) in_scope_def)
qed

lemma retry_operation_inv: "release_inv db \<Longrightarrow> release_inv (retry_operation nowMs q db)"
  by (erule keep_inv) (simp_all add: retry_operation_def Let_def frame)

lemma run_operation_inv [inv_pres]:
  "release_inv db \<Longrightarrow> fresh_release relId db \<Longrightarrow> release_inv (run_operation sp relId nowMs db q)"
  by (auto simp: run_operation_def intro: apply_operation_inv retry_operation_inv split: outcome.split)

lemma settle_environment_inv [inv_pres]: "release_inv db \<Longrightarrow> release_inv (settle_environment sp nowMs db environment)"
  by (erule keep_inv) (simp_all add: settle_environment_def gateways_of_def)

text \<open>Nothing refuses the operation: it is next in its scope, its gateways exist and run, the revision is there, the address
  is free, and with it applied the environment's configuration builds.\<close>

definition placed_db :: "string \<Rightarrow> int \<Rightarrow> OperationRow \<Rightarrow> string list \<Rightarrow> RevisionRow \<Rightarrow> DB \<Rightarrow> DB" where
  "placed_db relId nowMs q ids v db =
     publish_row relId q v (toISOString nowMs) (write_policy q (toISOString nowMs) (place_operation q ids db))"

definition built_routes :: "spine_services \<Rightarrow> int \<Rightarrow> DB \<Rightarrow> string \<Rightarrow> BuiltRoute list \<times> (string \<times> build_error) list" where
  "built_routes sp nowMs db environment = buildRoutes (svc_host (app_svc (spn_app sp))) (svc_parse (app_svc (spn_app sp))) (toISOString nowMs) db environment
     (limitsFor (app_integrations (spn_app sp))) (denyRulesFor (svc_parse (app_svc (spn_app sp))) db (app_publicUrl (spn_app sp))) None"

definition operation_ready :: "spine_services \<Rightarrow> string \<Rightarrow> int \<Rightarrow> OperationRow \<Rightarrow> DB \<Rightarrow> string list \<Rightarrow> RevisionRow \<Rightarrow> bool" where
  "operation_ready sp relId nowMs q db ids v \<longleftrightarrow> \<not> earlier_open db q \<and> source_ready sp nowMs db (opn_input q) \<and>
     chosen_gateways db (opn_env q) (opn_input q) = (ids, []) \<and> ids \<noteq> [] \<and>
     filter (\<lambda>t. tgt_env t = opn_env q \<and> tgt_id t \<in> set ids) (db_target db) \<noteq> [] \<and>
     list_all (\<lambda>t. \<not> tgt_paused t) (filter (\<lambda>t. tgt_env t = opn_env q \<and> tgt_id t \<in> set ids) (db_target db)) \<and>
     \<not> address_taken db q \<and> find (\<lambda>v. rev_id v = snap_revisionId (opn_input q)) (db_revision db) = Some v \<and>
     snd (built_routes sp nowMs (placed_db relId nowMs q ids v db) (opn_env q)) = [] \<and>
     list_ex (\<lambda>r. bt_resourceId r = opn_resource q) (fst (built_routes sp nowMs (placed_db relId nowMs q ids v db) (opn_env q)))"

lemma apply_operation_ready:
  assumes "operation_ready sp relId nowMs q db ids v"
  shows "\<exists>dig f. run_operation sp relId nowMs db q =
     set_operation (opn_id q) (\<lambda>o'. o'\<lparr>opn_state := OWaiting, opn_error := None, opn_result := f, opn_updated_at := toISOString nowMs\<rparr>)
       (drop_applied (opn_resource q) (opn_env q) ids
         (record_applied (opn_resource q) (snap_revisionId (opn_input q)) dig (toISOString nowMs) ids (placed_db relId nowMs q ids v db)))"
proof -
  obtain routes errors where b: "built_routes sp nowMs (placed_db relId nowMs q ids v db) (opn_env q) = (routes, errors)" by fastforce
  from assms b have e: "errors = []" "list_ex (\<lambda>r. bt_resourceId r = opn_resource q) routes" by (simp_all add: operation_ready_def)
  then obtain route where r: "find (\<lambda>r. bt_resourceId r = opn_resource q) routes = Some route"
    by (cases "find (\<lambda>r. bt_resourceId r = opn_resource q) routes") (auto simp: find_None_iff list_ex_iff)
  have paused: "list_ex tgt_paused ts \<longleftrightarrow> \<not> list_all (\<lambda>t. \<not> tgt_paused t) ts" for ts by (auto simp: list_ex_iff list_all_iff)
  have "\<exists>dig f. apply_operation sp relId nowMs q db = Applies (
     set_operation (opn_id q) (\<lambda>o'. o'\<lparr>opn_state := OWaiting, opn_error := None, opn_result := f, opn_updated_at := toISOString nowMs\<rparr>)
       (drop_applied (opn_resource q) (opn_env q) ids
         (record_applied (opn_resource q) (snap_revisionId (opn_input q)) dig (toISOString nowMs) ids (placed_db relId nowMs q ids v db))))"
    using assms r e b unfolding apply_operation_def Let_def
    by (auto simp: operation_ready_def paused placed_db_def built_routes_def)
  then obtain dig f where "apply_operation sp relId nowMs q db = Applies (
     set_operation (opn_id q) (\<lambda>o'. o'\<lparr>opn_state := OWaiting, opn_error := None, opn_result := f, opn_updated_at := toISOString nowMs\<rparr>)
       (drop_applied (opn_resource q) (opn_env q) ids
         (record_applied (opn_resource q) (snap_revisionId (opn_input q)) dig (toISOString nowMs) ids (placed_db relId nowMs q ids v db))))" by blast
  then show ?thesis unfolding run_operation_def by (simp only: outcome.case) blast
qed

text \<open>One converged route whose policy is valid and whose backends no rule blocks.\<close>

lemma built_routes_one:
  assumes "route_rows db environment None = [row]"
    and "validateDocument (svc_host (app_svc (spn_app sp))) (activeDocument (effectiveDocument db (res_id (rr_resource row)) environment))
       (Some (res_kind (rr_resource row))) False = []"
    and "blocked_member (svc_parse (app_svc (spn_app sp))) (denyRulesFor (svc_parse (app_svc (spn_app sp))) db (app_publicUrl (spn_app sp)))
       environment (bp_pool (readBackendPool (rr_backend row))) = None"
  shows "snd (built_routes sp nowMs db environment) = []" "list_ex (\<lambda>r. bt_resourceId r = res_id (rr_resource row)) (fst (built_routes sp nowMs db environment))"
  using assms by (simp_all add: built_routes_def buildRoutes_def build_route_def rights_def lefts_def Let_def List.map_filter_def)


section \<open>An installation for the examples\<close>

text \<open>One gateway in each of two environments, an API with two revisions, and ciphers and digests that are the identity or constant.
  The concrete runs of the theories above start from it.\<close>

definition sample_services :: spine_services where
  "sample_services = \<lparr>spn_app = \<lparr>app_svc = \<lparr>svc_host = sample_host, svc_parse = (\<lambda>u. if u = ''https://203.0.113.9'' then Some example_url else None), svc_dec = id, svc_hashKey = id, svc_sha = id,
       svc_read_file = (\<lambda>_. None), svc_platformKey = None\<rparr>,
     app_chain = [''dev'', ''prod''],
     app_integrations = \<lparr>itg_denyCidrs = [], itg_xml = None, itg_validation = None, itg_issuers = [], itg_tokenProviders = [], itg_hmacSchemes = [],
       itg_sharedSecrets = []\<rparr>,
     app_publicUrl = ''https://portal.example'', app_route_digest = (\<lambda>_. ''d''), app_holder = ''cp''\<rparr>,
     spn_config_digest = (\<lambda>_. ''d''), spn_abandonedAfterSec = 600, spn_denyCidrs = [], spn_lookup = (\<lambda>_. None)\<rparr>"

definition sample_revision :: "string \<Rightarrow> nat \<Rightarrow> RevisionRow" where
  "sample_revision i n = \<lparr>rev_id = i, rev_resource = ''r1'', rev_rev = n, rev_version_digest = i, rev_frozen_at = None, rev_pruned_at = None,
     rev_artifact_digest = Some [], rev_index = [], rev_model = \<lparr>am_operations = [], am_soap12 = None, am_mcpProtocolVersion = None, am_a2aCard = None\<rparr>\<rparr>"

definition sample_gateway :: "string \<Rightarrow> string \<Rightarrow> TargetRow" where
  "sample_gateway i environment = \<lparr>tgt_id = i, tgt_env = environment, tgt_name = ''managed'', tgt_paused = False, tgt_lease_holder = None, tgt_lease_expires_at = None\<rparr>"

definition sample_snapshot :: "string \<Rightarrow> Snapshot" where
  "sample_snapshot revision = \<lparr>snap_revisionId = revision, snap_host = ''*'', snap_basePath = ''/it/orders/v1'',
     snap_backend = JObj [(''pool'', JArr [JObj [(''url'', JStr ''https://203.0.113.9'')]]), (''rule'', JStr ''failover'')],
     snap_policy = [(''auth.subscriptionKey'', JObj [(''in'', JStr ''header''), (''name'', JStr ''X-Api-Key'')])],
     snap_gateways = None, snap_sourceOperationId = None, snap_sourceEnvironment = None, snap_requestDigest = None\<rparr>"

definition sample_operation :: "string \<Rightarrow> string \<Rightarrow> OperationRow" where
  "sample_operation i revision = \<lparr>opn_id = i, opn_application = ''orders'', opn_actor = ''ada'', opn_kind = ''publish'', opn_resource = ''r1'', opn_env = ''dev'',
     opn_state = OQueued, opn_input = sample_snapshot revision, opn_result = None, opn_error = None, opn_attempts = 0, opn_next_attempt_at = None,
     opn_created_at = ''t'', opn_updated_at = ''t'', opn_key = i\<rparr>"

definition sample_db :: DB where
  "sample_db = empty_db\<lparr>
     db_target := [sample_gateway ''g1'' ''dev'', sample_gateway ''g2'' ''prod''],
     db_resource := [\<lparr>res_id = ''r1'', res_name = ''orders'', res_api_version = ''v1'', res_kind = Rest, res_application = ''orders'',
       res_lifecycle = Active, res_sunset_at = None, res_listed = True, res_domain = Some ''IT'', res_subdomain = None,
       res_kafka_topic = None, res_platform_role = None, res_updated_at = ''2026-01-01T00:00:00.000Z''\<rparr>],
     db_revision := [sample_revision ''v1'' 1, sample_revision ''v2'' 2],
     db_application := [(''orders'', ''Orders'')],
     db_operation := [sample_operation ''o1'' ''v1'', sample_operation ''o2'' ''v2'']\<rparr>"

abbreviation sample_stamp :: "string \<Rightarrow> DB" where
  "sample_stamp stamp \<equiv> publish_row ''rel1'' (sample_operation ''o1'' ''v1'') (sample_revision ''v1'' 1) stamp
     (write_policy (sample_operation ''o1'' ''v1'') stamp (place_operation (sample_operation ''o1'' ''v1'') [''g1''] sample_db))"

lemma sample_ready: "operation_ready sample_services ''rel1'' nowMs (sample_operation ''o1'' ''v1'') sample_db [''g1''] (sample_revision ''v1'' 1)"
proof -
  define stamp where "stamp = toISOString nowMs"
  have p: "placed_db ''rel1'' nowMs (sample_operation ''o1'' ''v1'') [''g1''] (sample_revision ''v1'' 1) sample_db = sample_stamp stamp"
    by (simp add: placed_db_def stamp_def)
  have row: "route_rows (sample_stamp stamp) ''dev'' None = [\<lparr>rr_resource = hd (db_resource sample_db), rr_revision = (sample_revision ''v1'' 1)\<lparr>rev_frozen_at := Some stamp\<rparr>,
      rr_host = ''*'', rr_base_path = ''/it/orders/v1'', rr_backend = snap_backend (sample_snapshot ''v1'')\<rparr>]"
    by code_simp
  have doc: "effectiveDocument (sample_stamp stamp) ''r1'' ''dev'' = snap_policy (sample_snapshot ''v1'')" by code_simp
  have valid: "validateDocument sample_host (activeDocument (snap_policy (sample_snapshot ''v1''))) (Some Rest) False = []" by code_simp
  have open_route: "blocked_member (svc_parse (app_svc (spn_app sample_services))) (denyRulesFor (svc_parse (app_svc (spn_app sample_services)))
      (sample_stamp stamp) (app_publicUrl (spn_app sample_services))) ''dev'' (bp_pool (readBackendPool (snap_backend (sample_snapshot ''v1'')))) = None"
    by code_simp
  have fields: "svc_host (app_svc (spn_app sample_services)) = sample_host" "res_id (hd (db_resource sample_db)) = ''r1''" "res_kind (hd (db_resource sample_db)) = Rest"
    by (simp_all add: sample_services_def sample_db_def)
  note built = built_routes_one [where sp = sample_services and nowMs = nowMs, OF row, simplified fields RouteRow.select_convs, unfolded doc, OF valid open_route]
  have checks: "\<not> earlier_open sample_db (sample_operation ''o1'' ''v1'')" "source_ready sample_services nowMs sample_db (sample_snapshot ''v1'')"
    "chosen_gateways sample_db ''dev'' (sample_snapshot ''v1'') = ([''g1''], [])" "\<not> address_taken sample_db (sample_operation ''o1'' ''v1'')"
    "filter (\<lambda>t. tgt_env t = ''dev'' \<and> tgt_id t \<in> set [''g1'']) (db_target sample_db) = [sample_gateway ''g1'' ''dev'']"
    "find (\<lambda>v. rev_id v = ''v1'') (db_revision sample_db) = Some (sample_revision ''v1'' 1)"
    by code_simp+
  have op: "opn_env (sample_operation ''o1'' ''v1'') = ''dev''" "opn_input (sample_operation ''o1'' ''v1'') = sample_snapshot ''v1''"
    "opn_resource (sample_operation ''o1'' ''v1'') = ''r1''" "snap_revisionId (sample_snapshot ''v1'') = ''v1''" "\<not> tgt_paused (sample_gateway ''g1'' ''dev'')"
    by (simp_all add: sample_operation_def sample_snapshot_def sample_gateway_def)
  show ?thesis unfolding operation_ready_def p op checks(3,5,6) using checks built by (simp add: op)
qed

end
