(* ===== verification/SpineRequests.thy ===== *)
theory SpineRequests
  imports Spine
begin

declare map_of_eq_Some_iff [simp del] Some_eq_map_of_iff [simp del]

text \<open>
  The three requests of the operation spine (\<^verbatim>\<open>control-plane/src/operations.ts\<close>): publish, configure, promote. A request
  body is a record of its optional fields, the pool fields being kept as the JSON value the pool reader takes. The
  definition import is an argument: what reading and compiling the definition gave, or that it failed. The
  options the Kafka endpoints pass, the description, the documentation link and the search index are left out.
  Each request has two halves, since the code awaits name resolution between them: what it reads and checks
  first, and the transaction at its end; a request that nothing interleaves with runs both on one database.
\<close>

section \<open>Definitions: requests\<close>

datatype spine_error = Http http_error | PreconditionRequired | PreconditionFailed

record Request =
  spr_user :: User
  spr_idempotencyKey :: "string option"
  spr_ifMatch :: "string option"
  spr_digest :: string
  spr_sha :: "string \<Rightarrow> string"
  spr_nowMs :: int
  spr_operationId :: string
  spr_subscriptionId :: string
  spr_key_enc :: string

record PublishInput =
  pi_applicationId :: string
  pi_name :: string
  pi_apiVersion :: "string option"
  pi_kind :: ResourceKind
  pi_productId :: "string option"
  pi_productName :: "string option"
  pi_host :: "string option"
  pi_basePath :: "string option"
  pi_backendUrl :: "string option"
  pi_pool :: jsval
  pi_clientCertRef :: "string option option"
  pi_policy :: "document option"
  pi_gateways :: "string list option"
  pi_environment :: "string option"
  pi_domain :: "string option"
  pi_subdomain :: "string option option"

datatype spine_result = Repeated OperationRow | QueuedOperation DB

definition bad :: "spine_error + 'a" where "bad = Inl (Http BadRequest)"
definition conflicting :: "spine_error + 'a" where "conflicting = Inl (Http Conflict)"

definition requested_key :: "Request \<Rightarrow> spine_error + string" where
  "requested_key req = (case spr_idempotencyKey req of
       Some k \<Rightarrow> if k = [] \<or> 160 < length k then bad else Inr (usr_id (spr_user req) @ '':'' @ k)
     | None \<Rightarrow> bad)"

definition repeated :: "Request \<Rightarrow> DB \<Rightarrow> spine_error + OperationRow option" where
  "repeated req db = (case requested_key req of Inl e \<Rightarrow> Inl e
     | Inr k \<Rightarrow> (case find (\<lambda>q. opn_key q = k) (db_operation db) of
         None \<Rightarrow> Inr None
       | Some row \<Rightarrow> if snap_requestDigest (opn_input row) \<noteq> Some (spr_digest req) then conflicting else Inr (Some row)))"

definition queue :: "Request \<Rightarrow> string \<Rightarrow> string \<Rightarrow> string \<Rightarrow> string \<Rightarrow> string \<Rightarrow> Snapshot \<Rightarrow> DB \<Rightarrow> DB" where
  "queue req key applicationId resource environment kind snapshot db =
     (let stamp = toISOString (spr_nowMs req); actor = usr_id (spr_user req);
          row = \<lparr>opn_id = spr_operationId req, opn_application = applicationId, opn_actor = actor, opn_kind = kind, opn_resource = resource,
            opn_env = environment, opn_state = OQueued, opn_input = snapshot, opn_result = None, opn_error = None, opn_attempts = 0,
            opn_next_attempt_at = None, opn_created_at = stamp, opn_updated_at = stamp, opn_key = key\<rparr>
      in writeAudit actor (''api.'' @ kind) (''resource:'' @ resource) True
           (freeze (snap_revisionId snapshot) stamp (db\<lparr>db_operation := db_operation db @ [row]\<rparr>)))"

definition requested_environment :: "string list \<Rightarrow> string option \<Rightarrow> spine_error + string" where
  "requested_environment chain v = (let e = (case v of Some x \<Rightarrow> x | None \<Rightarrow> hd chain) in if e \<in> set chain then Inr e else bad)"

text \<open>\<^verbatim>\<open>readTaxonomy\<close> with \<^verbatim>\<open>required\<close> set, as every request here calls it.\<close>

definition readTaxonomy :: "PublishInput \<Rightarrow> string option \<Rightarrow> string option \<Rightarrow> spine_error + string \<times> string option" where
  "readTaxonomy body domain subdomain =
     (let d = (case pi_domain body of Some x \<Rightarrow> Some x | None \<Rightarrow> domain);
          s = (case pi_subdomain body of Some x \<Rightarrow> x | None \<Rightarrow> subdomain)
      in if domainError d s \<noteq> None then bad else Inr (the d, given s))"

definition etagOf :: "(string \<Rightarrow> string) \<Rightarrow> ResourceRow \<Rightarrow> string" where
  "etagOf sha row = [CHR 0x22] @ sha (res_id row @ ''|'' @ res_updated_at row) @ [CHR 0x22]"

definition drop_weak :: "string \<Rightarrow> string" where
  "drop_weak v = (if starts_with ''W/'' v then drop 2 v else v)"

definition assertIfMatch :: "Request \<Rightarrow> ResourceRow \<Rightarrow> spine_error option" where
  "assertIfMatch req row = (case given (spr_ifMatch req) of
       None \<Rightarrow> Some PreconditionRequired
     | Some header \<Rightarrow> (let presented = map (\<lambda>v. drop_weak (js_trim v)) (js_split CHR '','' header) in
         if ''*'' \<in> set presented \<or> etagOf (spr_sha req) row \<in> set presented then None else Some PreconditionFailed))"

section \<open>Definitions: the snapshot a request asks for\<close>

definition readGateways :: "DB \<Rightarrow> string \<Rightarrow> string list option \<Rightarrow> spine_error + string list" where
  "readGateways db environment requested =
     (let available = map tgt_name (gatewaysIn db environment) in
      if available = [] then bad
      else (case requested of None \<Rightarrow> Inr available
        | Some raw \<Rightarrow> (let names = remdups (filter (\<lambda>n. n \<noteq> []) (map js_trim raw)) in
            if names = [] \<or> list_ex (\<lambda>n. n \<notin> set available) names then bad else Inr (sort names))))"

definition currentSnapshot :: "DB \<Rightarrow> string \<Rightarrow> string \<Rightarrow> Snapshot option" where
  "currentSnapshot db resource environment =
     (case rev (filter (\<lambda>q. opn_resource q = resource \<and> opn_env q = environment \<and> opn_state q \<noteq> OSuperseded) (db_operation db)) of
        q # _ \<Rightarrow> Some (opn_input q)
      | [] \<Rightarrow> (case (find (\<lambda>r. in_scope resource environment r \<and> rel_state r = Converged) (db_release db),
                     map_of (db_route db) (resource, environment), map_of (db_binding db) (resource, environment)) of
            (Some r, Some (host, basePath), Some backend) \<Rightarrow>
              Some \<lparr>snap_revisionId = rel_revision r, snap_host = host, snap_basePath = basePath, snap_backend = backend,
                snap_policy = effectiveDocument db resource environment, snap_gateways = Some (boundGatewayNames db resource environment),
                snap_sourceOperationId = None, snap_sourceEnvironment = None, snap_requestDigest = None\<rparr>
          | _ \<Rightarrow> None))"

definition assertRouteFree :: "DB \<Rightarrow> string \<Rightarrow> string \<Rightarrow> string \<Rightarrow> string \<Rightarrow> bool" where
  "assertRouteFree db resource environment host basePath \<longleftrightarrow>
     \<not> list_ex (\<lambda>((r, e), address). r \<noteq> resource \<and> e = environment \<and> address = (host, basePath)) (db_route db) \<and>
     \<not> list_ex (\<lambda>q. opn_env q = environment \<and> opn_state q \<in> {OQueued, ORetrying, OBlocked} \<and> opn_resource q \<noteq> resource \<and>
        snap_host (opn_input q) = host \<and> snap_basePath (opn_input q) = basePath) (db_operation db)"

definition DEFAULT_POLICY :: document where
  "DEFAULT_POLICY = [(''auth.subscriptionKey'', JObj [(''in'', JStr ''header''), (''name'', JStr ''X-Api-Key'')])]"

definition TOPIC_BACKEND_AUTH :: jsval where
  "TOPIC_BACKEND_AUTH = JObj [(''type'', JStr ''api-key''), (''credentialRef'', JStr PLATFORM_KAFKA_KEY_REF), (''in'', JStr ''header''), (''name'', JStr ''X-Api-Key'')]"

definition managedUnitsFor :: "ResourceRow \<Rightarrow> document" where
  "managedUnitsFor row = (if given (res_kafka_topic row) = None then [] else [(''backendAuth'', TOPIC_BACKEND_AUTH)])"

text \<open>The unit an owner's document is held to: what it was, or the default.\<close>

definition key_before :: "document \<Rightarrow> jsval" where
  "key_before policy = (case map_of policy ''auth.subscriptionKey'' of
       None \<Rightarrow> the (map_of DEFAULT_POLICY ''auth.subscriptionKey'')
     | Some JNull \<Rightarrow> the (map_of DEFAULT_POLICY ''auth.subscriptionKey'')
     | Some v \<Rightarrow> v)"

definition settled_policy ::
  "js_host \<Rightarrow> User \<Rightarrow> ResourceKind \<Rightarrow> document \<Rightarrow> document option \<Rightarrow> document option \<Rightarrow> document \<Rightarrow> spine_error + document" where
  "settled_policy host user kind wide sent defaults managed =
     (let old = (case defaults of Some p \<Rightarrow> p | None \<Rightarrow> []);
          base = (case sent of Some p \<Rightarrow> p | None \<Rightarrow> (case defaults of Some p \<Rightarrow> p | None \<Rightarrow> DEFAULT_POLICY));
          before = key_before old;
          asked = (case sent of Some p \<Rightarrow> map_of p ''auth.subscriptionKey'' | None \<Rightarrow> None)
      in if \<not> usr_isAdmin user \<and> asked \<noteq> None \<and> asked \<noteq> Some before then bad
         else (let policy = (if usr_isAdmin user then base else doc_set ''auth.subscriptionKey'' before base) in
           if sent \<noteq> None \<and> list_ex (\<lambda>u. map_of policy u = None \<and> map_of old u \<noteq> None) (mkeys wide) then bad
           else if sent \<noteq> None \<and> \<not> usr_isAdmin user \<and> globalUnitChanges wide old policy \<noteq> [] then Inl (Http Forbidden)
           else (let final = foldl (\<lambda>doc (u, v). doc_set u v doc) policy managed in
             if list_ex (\<lambda>(u, v). map_of managed u = None \<and> namesPlatformRef v) final then Inl (Http Forbidden)
             else if validateDocument host final (Some kind) False \<noteq> [] then bad
             else Inr final)))"

section \<open>Definitions: the backend of a snapshot\<close>

definition with_client_cert :: "string option \<Rightarrow> jsval \<Rightarrow> jsval" where
  "with_client_cert ref backend = (case backend of
       JObj ps \<Rightarrow> (let rest = filter (\<lambda>(k, _). k \<noteq> ''clientCertRef'') ps in
         JObj (case ref of Some r \<Rightarrow> rest @ [(''clientCertRef'', JStr r)] | None \<Rightarrow> rest))
     | v \<Rightarrow> v)"

definition client_cert_of :: "jsval \<Rightarrow> string option" where
  "client_cert_of backend = given (as_string (member backend ''clientCertRef''))"

definition entry_json :: "BackendEntry \<Rightarrow> jsval" where
  "entry_json e = JObj ((''url'', JStr (be_url e)) # (case be_weight e of Some w \<Rightarrow> [(''weight'', JNum w)] | None \<Rightarrow> []))"

definition backend_json :: "BackendEntry list \<Rightarrow> pool_rule \<Rightarrow> jsval" where
  "backend_json pool rule = JObj [(''pool'', JArr (map entry_json pool)),
     (''rule'', JStr (if rule = Failover then ''failover'' else ''round-robin''))]"

definition egress_check :: "spine_services \<Rightarrow> DB \<Rightarrow> string \<Rightarrow> string \<Rightarrow> egress_error option" where
  "egress_check sp db environment url =
     checkEgress (svc_parse (app_svc (spn_app sp))) (spn_lookup sp) url (spn_denyCidrs sp)
       (denyRulesFor (svc_parse (app_svc (spn_app sp))) db (app_publicUrl (spn_app sp))) (Some environment)"

definition requested_backend :: "spine_services \<Rightarrow> DB \<Rightarrow> string \<Rightarrow> PublishInput \<Rightarrow> jsval option \<Rightarrow> spine_error + jsval" where
  "requested_backend sp db environment body before =
     (let kept = (case before of Some b \<Rightarrow> client_cert_of b | None \<Rightarrow> None)
      in case readPool (egress_check sp db environment) (pi_pool body) of
           Inl _ \<Rightarrow> bad
         | Inr (Some (pool, rule)) \<Rightarrow> Inr (with_client_cert kept (backend_json pool rule))
         | Inr None \<Rightarrow> (case pi_backendUrl body of
             Some url \<Rightarrow> if egress_check sp db environment url \<noteq> None then bad
                 else Inr (with_client_cert kept (backend_json [\<lparr>be_url = url, be_weight = None\<rparr>] Failover))
           | None \<Rightarrow> (case before of Some b \<Rightarrow> Inr b | None \<Rightarrow> bad)))"

text \<open>A certificate of the named identifier, still valid, of this environment and of the application.\<close>

definition certificate_refused :: "Request \<Rightarrow> DB \<Rightarrow> string \<Rightarrow> string \<Rightarrow> string \<Rightarrow> spine_error option" where
  "certificate_refused req db environment applicationId ref =
     (case (find (\<lambda>(_, c). cert_id c = ref) (db_certificate db), map_of (db_certificate_owner db) ref) of
        (Some (e, c), Some holder) \<Rightarrow>
          if e \<noteq> environment \<or> (case Date_parse (cert_notAfter c) of Some t \<Rightarrow> t \<le> spr_nowMs req | None \<Rightarrow> False) then Some (Http BadRequest)
          else if \<not> can (Some (spr_user req)) (Some holder) then Some (Http Forbidden)
          else if holder \<noteq> applicationId then Some (Http BadRequest) else None
      | _ \<Rightarrow> Some (Http BadRequest))"

section \<open>Definitions: the settings of a snapshot\<close>

definition requested_path :: "PublishInput \<Rightarrow> string option \<Rightarrow> string option \<Rightarrow> string \<Rightarrow> string option \<Rightarrow> string" where
  "requested_path body domain subdomain apiVersion before = (case pi_basePath body of Some p \<Rightarrow> p
     | None \<Rightarrow> (case before of Some p \<Rightarrow> p
     | None \<Rightarrow> (case given domain of Some d \<Rightarrow> publishedPath d subdomain (pi_name body) (Some apiVersion) | None \<Rightarrow> ''/'' @ pi_name body)))"

definition outside_domain :: "string option \<Rightarrow> string option \<Rightarrow> string \<Rightarrow> bool" where
  "outside_domain domain subdomain basePath = (case given domain of None \<Rightarrow> False
     | Some d \<Rightarrow> (let prefix = domainPrefix d subdomain in basePath \<noteq> prefix \<and> \<not> starts_with (prefix @ ''/'') basePath))"

text \<open>The address first, then the backend and its certificate, the policy, and last the gateways. The revision and the
  provenance of the snapshot are filled in by the request.\<close>

definition settings ::
  "spine_services \<Rightarrow> Request \<Rightarrow> DB \<Rightarrow> PublishInput \<Rightarrow> ResourceKind \<Rightarrow> string \<Rightarrow> string option \<times> string option \<Rightarrow> string \<Rightarrow>
   Snapshot option \<Rightarrow> document \<Rightarrow> spine_error + Snapshot" where
  "settings sp req db body kind environment taxonomy apiVersion defaults managed =
     (let (domain, subdomain) = taxonomy;
          (host, host_error) = normalizeHost (case pi_host body of Some h \<Rightarrow> Some h
             | None \<Rightarrow> (case defaults of Some d \<Rightarrow> Some (snap_host d) | None \<Rightarrow> Some ''*''));
          place = normalizeBasePath (Some (requested_path body domain subdomain apiVersion (map_option snap_basePath defaults)))
      in if host_error \<or> nbp_errors place \<noteq> [] then bad
         else if outside_domain domain subdomain (nbp_basePath place) then bad
         else (case requested_backend sp db environment body (map_option snap_backend defaults) of
             Inl e \<Rightarrow> Inl e
           | Inr base \<Rightarrow>
               (let backend = (case pi_clientCertRef body of Some ref \<Rightarrow> with_client_cert (given ref) base | None \<Rightarrow> base)
                in case (case client_cert_of backend of None \<Rightarrow> None
                          | Some ref \<Rightarrow> certificate_refused req db environment (pi_applicationId body) ref) of
                     Some e \<Rightarrow> Inl e
                   | None \<Rightarrow>
                       (case settled_policy (svc_host (app_svc (spn_app sp))) (spr_user req) kind (inheritedUnits db environment)
                               (pi_policy body) (map_option snap_policy defaults) managed of
                          Inl e \<Rightarrow> Inl e
                        | Inr policy \<Rightarrow>
                            (case readGateways db environment (case pi_gateways body of Some g \<Rightarrow> Some g
                                    | None \<Rightarrow> (case defaults of Some d \<Rightarrow> snap_gateways d | None \<Rightarrow> None)) of
                               Inl e \<Rightarrow> Inl e
                             | Inr gateways \<Rightarrow> Inr \<lparr>snap_revisionId = [], snap_host = host, snap_basePath = nbp_basePath place,
                                 snap_backend = backend, snap_policy = policy, snap_gateways = Some gateways, snap_sourceOperationId = None,
                                 snap_sourceEnvironment = None, snap_requestDigest = Some (spr_digest req)\<rparr>)))))"

section \<open>Definitions: a revision\<close>

text \<open>What reading and compiling a definition gave: its model and digest, and the bundle, its digest and the operation index
  (\<^verbatim>\<open>None\<close> when the compiler threw).\<close>

record RevisionSource =
  rsc_digest :: string
  rsc_model :: ApiModel
  rsc_compiled :: "((string \<times> artifact_kind \<times> nat) option \<times> ConfigOperation list) option"

definition touch :: "string \<Rightarrow> string \<Rightarrow> DB \<Rightarrow> DB" where
  "touch stamp resource db = db\<lparr>db_resource := map (\<lambda>r. if res_id r = resource then r\<lparr>res_updated_at := stamp\<rparr> else r) (db_resource db)\<rparr>"

definition store_artifact :: "(string \<times> artifact_kind \<times> nat) option \<Rightarrow> DB \<Rightarrow> DB" where
  "store_artifact artifact db = (case artifact of None \<Rightarrow> db
     | Some (digest, info) \<Rightarrow> if map_of (db_artifact db) digest = None then db\<lparr>db_artifact := db_artifact db @ [(digest, info)]\<rparr> else db)"

definition writeRevision :: "string \<Rightarrow> string \<Rightarrow> string \<Rightarrow> string \<Rightarrow> RevisionSource \<Rightarrow> DB \<Rightarrow> spine_error + DB" where
  "writeRevision newRev actor stamp resource source db =
     (let latest = latest_revision db resource in
      if (case latest of Some v \<Rightarrow> rev_version_digest v = rsc_digest source | None \<Rightarrow> False) then Inr db
      else (case rsc_compiled source of None \<Rightarrow> bad
        | Some (artifact, index) \<Rightarrow>
            (let row = \<lparr>rev_id = newRev, rev_resource = resource, rev_rev = (case latest of Some v \<Rightarrow> rev_rev v | None \<Rightarrow> 0) + 1,
               rev_version_digest = rsc_digest source, rev_frozen_at = None, rev_pruned_at = None,
               rev_artifact_digest = Some (case artifact of Some (digest, _) \<Rightarrow> digest | None \<Rightarrow> []), rev_index = index, rev_model = rsc_model source\<rparr>
             in Inr (writeAudit actor ''revision.create'' (''revision:'' @ newRev) True
                  (touch stamp resource (store_artifact artifact db\<lparr>db_revision := db_revision db @ [row]\<rparr>))))))"

section \<open>Definitions: the product an API is sold in\<close>

definition slug_of_application :: "string \<Rightarrow> string" where
  "slug_of_application applicationId =
     map (\<lambda>c. if slug_char c \<or> c = CHR ''-'' then c else CHR ''-'')
       (if starts_with ''application_'' applicationId \<or> starts_with ''application-'' applicationId then drop 12 applicationId else applicationId)"

definition product_taken :: "DB \<Rightarrow> string \<Rightarrow> bool" where
  "product_taken db name \<longleftrightarrow> list_ex (\<lambda>(_, n). n = name) (db_product db)"

definition numbered_name :: "string \<Rightarrow> nat \<Rightarrow> string" where
  "numbered_name base n = take 61 (base @ ''-'' @ show_nat n)"

text \<open>\<^verbatim>\<open>for (let n = 2; taken(name); n++)\<close>; \<^verbatim>\<open>None\<close> when the loop never ends.\<close>

partial_function (option) free_name :: "(string \<Rightarrow> bool) \<Rightarrow> string \<Rightarrow> string \<Rightarrow> nat \<Rightarrow> string option" where
  "free_name taken base name n = (if taken name then free_name taken base (numbered_name base n) (n + 1) else Some name)"

declare free_name.simps [code]

definition own_product_name :: "DB \<Rightarrow> string \<Rightarrow> string \<Rightarrow> string option" where
  "own_product_name db applicationId apiName =
     (let base = apiName @ ''-'' @ slug_of_application applicationId in
      free_name (product_taken db) base (if product_taken db apiName then take 61 base else apiName) 2)"

definition sold_in :: "DB \<Rightarrow> string \<Rightarrow> string \<Rightarrow> string option" where
  "sold_in db applicationId apiName = map_option fst (find (\<lambda>(pid, holder, active). holder = applicationId \<and> active \<and>
     list_ex (\<lambda>(p, r). p = pid \<and> list_ex (\<lambda>row. res_id row = r \<and> res_application row = applicationId \<and> res_name row = apiName)
       (db_resource db)) (db_product_member db)) (db_product_owner db))"

definition insert_product :: "string \<Rightarrow> string \<Rightarrow> string \<Rightarrow> DB \<Rightarrow> DB" where
  "insert_product pid name applicationId db =
     db\<lparr>db_product := db_product db @ [(pid, name)], db_product_owner := db_product_owner db @ [(pid, applicationId, True)]\<rparr>"

definition ownProductFor :: "string \<Rightarrow> string \<Rightarrow> string \<Rightarrow> DB \<Rightarrow> (string \<times> DB) option" where
  "ownProductFor newProduct applicationId apiName db = (case sold_in db applicationId apiName of
       Some pid \<Rightarrow> Some (pid, db)
     | None \<Rightarrow> (case own_product_name db applicationId apiName of None \<Rightarrow> None
         | Some name \<Rightarrow> Some (newProduct, insert_product newProduct name applicationId db)))"

section \<open>Definitions: the platform's own key\<close>

definition PLATFORM_APPLICATION_ID :: string where "PLATFORM_APPLICATION_ID = ''platform''"
definition KAFKA_PROXY_ROLE :: string where "KAFKA_PROXY_ROLE = ''kafka-proxy''"

definition ensurePlatformSubscription :: "Request \<Rightarrow> string \<Rightarrow> string \<Rightarrow> DB \<Rightarrow> spine_error + DB" where
  "ensurePlatformSubscription req resource environment db = (case find (\<lambda>(_, r). r = resource) (db_product_member db) of
       None \<Rightarrow> bad
     | Some (product, _) \<Rightarrow>
         if list_ex (\<lambda>s. sbr_product s = product \<and> sbr_application s = PLATFORM_APPLICATION_ID \<and> sbr_env s = environment \<and>
              sbr_state s \<in> {SPending, SActivating, SActive, SRevoking}) (db_subscription db) then Inr db
         else (let stamp = toISOString (spr_nowMs req);
                   row = \<lparr>sbr_id = spr_subscriptionId req, sbr_product = product, sbr_application = PLATFORM_APPLICATION_ID, sbr_env = environment,
                     sbr_state = SActivating, sbr_primary_enc = spr_key_enc req, sbr_secondary_enc = None, sbr_primary_at = Some stamp,
                     sbr_secondary_at = None, sbr_primary_expired_at = None, sbr_secondary_expired_at = None, sbr_created_at = stamp\<rparr>
               in Inr (writeAudit PLATFORM_APPLICATION_ID ''subscription.create'' (''subscription:'' @ spr_subscriptionId req) True
                    (db\<lparr>db_subscription := db_subscription db @ [row]\<rparr>))))"

definition arrived :: "Request \<Rightarrow> ResourceRow \<Rightarrow> string \<Rightarrow> DB \<Rightarrow> spine_error + DB" where
  "arrived req row environment db =
     (if res_platform_role row = Some KAFKA_PROXY_ROLE then ensurePlatformSubscription req (res_id row) environment db else Inr db)"

section \<open>Definitions: publish\<close>

text \<open>\<^verbatim>\<open>/^[a-z0-9][a-z0-9-]{1,60}$/\<close> and \<^verbatim>\<open>/^v[1-9][0-9]{0,30}$/\<close>.\<close>

definition name_shape :: "string \<Rightarrow> bool" where
  "name_shape s \<longleftrightarrow> 2 \<le> length s \<and> length s \<le> 61 \<and> slug_char (hd s) \<and> list_all (\<lambda>c. slug_char c \<or> c = CHR ''-'') s"

definition API_VERSION_PATTERN :: "string \<Rightarrow> bool" where
  "API_VERSION_PATTERN s = (case s of v # d # rest \<Rightarrow> v = CHR ''v'' \<and> char_in CHR ''1'' CHR ''9'' d \<and> list_all is_digit rest \<and> length rest \<le> 30
     | _ \<Rightarrow> False)"

definition publish_version :: "PublishInput \<Rightarrow> string" where
  "publish_version body = (case pi_apiVersion body of Some v \<Rightarrow> v | None \<Rightarrow> ''v1'')"

text \<open>What is read and checked before the transaction: the settings and the taxonomy, or the operation a retry of the
  request meets. The kind is one of the four by its type.\<close>

definition prepare_publish ::
  "spine_services \<Rightarrow> Request \<Rightarrow> (spine_error + RevisionSource) \<Rightarrow> PublishInput \<Rightarrow> DB \<Rightarrow>
   spine_error + OperationRow + Snapshot \<times> (string \<times> string option) \<times> RevisionSource" where
  "prepare_publish sp req source body db = (case repeated req db of
       Inl e \<Rightarrow> Inl e
     | Inr (Some row) \<Rightarrow> Inr (Inl row)
     | Inr None \<Rightarrow>
         if \<not> can (Some (spr_user req)) (Some (pi_applicationId body)) then Inl (Http Forbidden)
         else if map_of (db_application db) (pi_applicationId body) = None then Inl (Http NotFound)
         else if \<not> name_shape (pi_name body) \<or> \<not> API_VERSION_PATTERN (publish_version body) \<or>
              (case given (pi_productName body) of Some n \<Rightarrow> \<not> name_shape n | None \<Rightarrow> False) then bad
         else (case readTaxonomy body None None of
             Inl e \<Rightarrow> Inl e
           | Inr (domain, subdomain) \<Rightarrow>
               (case source of
                  Inl e \<Rightarrow> Inl e
                | Inr src \<Rightarrow>
                    (case settings sp req db body (pi_kind body) (hd (app_chain (spn_app sp))) (Some domain, subdomain) (publish_version body) None [] of
                       Inl e \<Rightarrow> Inl e
                     | Inr config \<Rightarrow> Inr (Inr (config, (domain, subdomain), src))))))"

datatype choice = Refused spine_error | Looping | Chosen string DB

definition chosen_product :: "string \<Rightarrow> PublishInput \<Rightarrow> DB \<Rightarrow> choice" where
  "chosen_product newProduct body db = (case given (pi_productId body) of
       Some pid \<Rightarrow> if map_of (db_product_owner db) pid = Some (pi_applicationId body, True) then Chosen pid db else Refused (Http BadRequest)
     | None \<Rightarrow> (case given (pi_productName body) of
         Some name \<Rightarrow> if product_taken db name then Refused (Http Conflict)
             else Chosen newProduct (insert_product newProduct name (pi_applicationId body) db)
       | None \<Rightarrow> (case ownProductFor newProduct (pi_applicationId body) (pi_name body) db of
             None \<Rightarrow> Looping | Some (pid, db') \<Rightarrow> Chosen pid db')))"

definition new_resource :: "Request \<Rightarrow> string \<Rightarrow> PublishInput \<Rightarrow> string \<times> string option \<Rightarrow> ResourceRow" where
  "new_resource req rid body taxonomy = \<lparr>res_id = rid, res_name = pi_name body, res_api_version = publish_version body, res_kind = pi_kind body,
     res_application = pi_applicationId body, res_lifecycle = Active, res_sunset_at = None, res_listed = True, res_domain = Some (fst taxonomy),
     res_subdomain = snd taxonomy, res_kafka_topic = None, res_platform_role = None, res_updated_at = toISOString (spr_nowMs req)\<rparr>"

text \<open>The identifiers the transaction draws: the resource's, its first revision's and its product's.\<close>

record new_ids = nid_resource :: string nid_revision :: string nid_product :: string

text \<open>\<^verbatim>\<open>None\<close>: the transaction never returns.\<close>

definition commit_publish ::
  "spine_services \<Rightarrow> Request \<Rightarrow> new_ids \<Rightarrow> PublishInput \<Rightarrow> Snapshot \<times> (string \<times> string option) \<times> RevisionSource \<Rightarrow> DB \<Rightarrow>
   (spine_error + spine_result) option" where
  "commit_publish sp req ids body prepared db =
     (let (config, taxonomy, source) = prepared; rid = nid_resource ids; environment = hd (app_chain (spn_app sp));
          stamp = toISOString (spr_nowMs req)
      in case repeated req db of
           Inl e \<Rightarrow> Some (Inl e)
         | Inr (Some row) \<Rightarrow> Some (Inr (Repeated row))
         | Inr None \<Rightarrow>
             if \<not> assertRouteFree db rid environment (snap_host config) (snap_basePath config) then Some conflicting
             else if list_ex (\<lambda>r. res_application r = pi_applicationId body \<and> res_name r = pi_name body \<and> res_api_version r = publish_version body)
                    (db_resource db) then Some conflicting
             else (case chosen_product (nid_product ids) body db of
                 Looping \<Rightarrow> None
               | Refused e \<Rightarrow> Some (Inl e)
               | Chosen pid db1 \<Rightarrow>
                   (case writeRevision (nid_revision ids) (usr_id (spr_user req)) stamp rid source
                           (db1\<lparr>db_resource := db_resource db1 @ [new_resource req rid body taxonomy]\<rparr>) of
                      Inl e \<Rightarrow> Some (Inl e)
                    | Inr db2 \<Rightarrow>
                        (case (requested_key req, latest_revision db2 rid) of
                           (Inr key, Some v) \<Rightarrow>
                             Some (Inr (QueuedOperation (queue req key (pi_applicationId body) rid environment ''publish''
                               (config\<lparr>snap_revisionId := rev_id v\<rparr>) (db2\<lparr>db_product_member := db_product_member db2 @ [(pid, rid)]\<rparr>))))
                         | _ \<Rightarrow> Some bad))))"

definition publishResource ::
  "spine_services \<Rightarrow> Request \<Rightarrow> new_ids \<Rightarrow> (spine_error + RevisionSource) \<Rightarrow> PublishInput \<Rightarrow> DB \<Rightarrow> (spine_error + spine_result) option" where
  "publishResource sp req ids source body db = (case prepare_publish sp req source body db of
       Inl e \<Rightarrow> Some (Inl e)
     | Inr (Inl row) \<Rightarrow> Some (Inr (Repeated row))
     | Inr (Inr prepared) \<Rightarrow> commit_publish sp req ids body prepared db)"

section \<open>Definitions: configure\<close>

definition of_resource :: "ResourceRow \<Rightarrow> PublishInput \<Rightarrow> PublishInput" where
  "of_resource row body = body\<lparr>pi_applicationId := res_application row, pi_name := res_name row\<rparr>"

text \<open>\<^verbatim>\<open>source\<close> is \<^verbatim>\<open>None\<close> when the body carries no definition.\<close>

definition generated_field :: "(spine_error + RevisionSource) option \<Rightarrow> PublishInput \<Rightarrow> bool" where
  "generated_field source body \<longleftrightarrow> source \<noteq> None \<or> pi_backendUrl body \<noteq> None \<or> member (pi_pool body) ''pool'' \<noteq> None \<or>
     member (pi_pool body) ''urls'' \<noteq> None \<or> pi_clientCertRef body \<noteq> None"

definition read_source :: "(spine_error + RevisionSource) option \<Rightarrow> spine_error + RevisionSource option" where
  "read_source source = (case source of None \<Rightarrow> Inr None | Some (Inl e) \<Rightarrow> Inl e | Some (Inr s) \<Rightarrow> Inr (Some s))"

record prepared =
  prp_environment :: string
  prp_config :: Snapshot
  prp_taxonomy :: "string \<times> string option"
  prp_source :: "RevisionSource option"

definition prepare_configure ::
  "spine_services \<Rightarrow> Request \<Rightarrow> ResourceRow \<Rightarrow> (spine_error + RevisionSource) option \<Rightarrow> PublishInput \<Rightarrow> DB \<Rightarrow> spine_error + OperationRow + prepared" where
  "prepare_configure sp req row source body db =
     (if \<not> can (Some (spr_user req)) (Some (res_application row)) then Inl (Http Forbidden)
      else (case requested_environment (app_chain (spn_app sp)) (pi_environment body) of
          Inl e \<Rightarrow> Inl e
        | Inr environment \<Rightarrow>
            (case repeated req db of
               Inl e \<Rightarrow> Inl e
             | Inr (Some again) \<Rightarrow> Inr (Inl again)
             | Inr None \<Rightarrow>
                 (case assertIfMatch req row of
                    Some e \<Rightarrow> Inl e
                  | None \<Rightarrow>
                      if given (res_kafka_topic row) \<noteq> None \<and> generated_field source body then conflicting
                      else (case currentSnapshot db (res_id row) environment of
                          None \<Rightarrow> conflicting
                        | Some previous \<Rightarrow>
                            (case readTaxonomy body (res_domain row) (res_subdomain row) of
                               Inl e \<Rightarrow> Inl e
                             | Inr (domain, subdomain) \<Rightarrow>
                                 (case settings sp req db (of_resource row body) (res_kind row) environment (Some domain, subdomain)
                                         (res_api_version row) (Some previous) (managedUnitsFor row) of
                                    Inl e \<Rightarrow> Inl e
                                  | Inr config \<Rightarrow>
                                      (case read_source source of
                                         Inl e \<Rightarrow> Inl e
                                       | Inr s \<Rightarrow> Inr (Inr \<lparr>prp_environment = environment, prp_config = config\<lparr>snap_revisionId := snap_revisionId previous\<rparr>,
                                           prp_taxonomy = (domain, subdomain), prp_source = s\<rparr>)))))))))"

definition new_revision :: "string \<Rightarrow> Request \<Rightarrow> string \<Rightarrow> RevisionSource option \<Rightarrow> string \<Rightarrow> DB \<Rightarrow> spine_error + string \<times> DB" where
  "new_revision newRev req resource source previous db = (case source of None \<Rightarrow> Inr (previous, db)
     | Some s \<Rightarrow> (case writeRevision newRev (usr_id (spr_user req)) (toISOString (spr_nowMs req)) resource s db of
         Inl e \<Rightarrow> Inl e
       | Inr db' \<Rightarrow> (case latest_revision db' resource of Some v \<Rightarrow> Inr (rev_id v, db') | None \<Rightarrow> bad)))"

definition classify :: "Request \<Rightarrow> string \<Rightarrow> string \<times> string option \<Rightarrow> DB \<Rightarrow> DB" where
  "classify req resource taxonomy db = db\<lparr>db_resource := map (\<lambda>r. if res_id r = resource
     then r\<lparr>res_updated_at := toISOString (spr_nowMs req), res_domain := Some (fst taxonomy), res_subdomain := snd taxonomy\<rparr> else r) (db_resource db)\<rparr>"

definition remember_override :: "spine_services \<Rightarrow> string \<Rightarrow> string \<Rightarrow> document option \<Rightarrow> DB \<Rightarrow> DB" where
  "remember_override sp resource environment policy db = (case policy of
       Some p \<Rightarrow> if environment \<noteq> hd (app_chain (spn_app sp))
          then db\<lparr>db_environment_override := mset_key (resource, environment) p (db_environment_override db)\<rparr> else db
     | None \<Rightarrow> db)"

definition commit_configure :: "spine_services \<Rightarrow> Request \<Rightarrow> string \<Rightarrow> ResourceRow \<Rightarrow> PublishInput \<Rightarrow> prepared \<Rightarrow> DB \<Rightarrow> spine_error + DB" where
  "commit_configure sp req newRev row body p db = (case find (\<lambda>r. res_id r = res_id row) (db_resource db) of
       None \<Rightarrow> Inl (Http NotFound)
     | Some now \<Rightarrow>
         (case assertIfMatch req now of
            Some e \<Rightarrow> Inl e
          | None \<Rightarrow>
              if \<not> assertRouteFree db (res_id row) (prp_environment p) (snap_host (prp_config p)) (snap_basePath (prp_config p)) then conflicting
              else (case (requested_key req, new_revision newRev req (res_id row) (prp_source p) (snap_revisionId (prp_config p)) db) of
                  (Inr key, Inr (revision, db1)) \<Rightarrow>
                    Inr (queue req key (res_application row) (res_id row) (prp_environment p) ''configure'' ((prp_config p)\<lparr>snap_revisionId := revision\<rparr>)
                      (remember_override sp (res_id row) (prp_environment p) (pi_policy body) (classify req (res_id row) (prp_taxonomy p) db1)))
                | (Inl e, _) \<Rightarrow> Inl e
                | (_, Inl e) \<Rightarrow> Inl e)))"

definition configureResource ::
  "spine_services \<Rightarrow> Request \<Rightarrow> string \<Rightarrow> ResourceRow \<Rightarrow> (spine_error + RevisionSource) option \<Rightarrow> PublishInput \<Rightarrow> DB \<Rightarrow> spine_error + spine_result" where
  "configureResource sp req newRev row source body db = (case prepare_configure sp req row source body db of
       Inl e \<Rightarrow> Inl e
     | Inr (Inl again) \<Rightarrow> Inr (Repeated again)
     | Inr (Inr p) \<Rightarrow> (case commit_configure sp req newRev row body p db of Inl e \<Rightarrow> Inl e | Inr db' \<Rightarrow> Inr (QueuedOperation db')))"

section \<open>Definitions: promote\<close>

text \<open>\<^verbatim>\<open>topicApiBinding\<close> is an argument: the proxy addresses and the certificate of the topic in the environment, or the refusal.\<close>

definition bound_to_topic :: "ResourceRow \<Rightarrow> (string \<Rightarrow> spine_error + string list \<times> string) \<Rightarrow> string \<Rightarrow> PublishInput \<Rightarrow> spine_error + PublishInput" where
  "bound_to_topic row topicApiBinding environment body = (if given (res_kafka_topic row) = None then Inr body
     else (case topicApiBinding environment of Inl e \<Rightarrow> Inl e
       | Inr (urls, ref) \<Rightarrow> Inr (body\<lparr>pi_clientCertRef := Some (Some ref),
           pi_pool := (case pi_pool body of JObj ps \<Rightarrow> JObj (mset_key ''rule'' (JStr ''failover'') (mset_key ''urls'' (JArr (map JStr urls)) ps)) | v \<Rightarrow> v)\<rparr>)))"

definition last_operation :: "DB \<Rightarrow> string \<Rightarrow> string \<Rightarrow> OperationRow option" where
  "last_operation db resource environment =
     find (\<lambda>q. opn_resource q = resource \<and> opn_env q = environment \<and> opn_state q \<noteq> OSuperseded) (rev (db_operation db))"

definition promotion_defaults :: "DB \<Rightarrow> string \<Rightarrow> string \<Rightarrow> Snapshot \<Rightarrow> Snapshot option \<Rightarrow> Snapshot" where
  "promotion_defaults db resource environment source target = source\<lparr>
     snap_backend := (case target of Some t \<Rightarrow> snap_backend t | None \<Rightarrow> JObj []),
     snap_host := (case target of Some t \<Rightarrow> snap_host t | None \<Rightarrow> snap_host source),
     snap_basePath := (case target of Some t \<Rightarrow> snap_basePath t | None \<Rightarrow> snap_basePath source),
     snap_policy := (case map_of (db_environment_override db) (resource, environment) of Some p \<Rightarrow> p | None \<Rightarrow> snap_policy source),
     snap_gateways := (case target of Some t \<Rightarrow> snap_gateways t | None \<Rightarrow> None)\<rparr>"

definition prepare_promote ::
  "spine_services \<Rightarrow> Request \<Rightarrow> (string \<Rightarrow> spine_error + string list \<times> string) \<Rightarrow> ResourceRow \<Rightarrow> PublishInput \<Rightarrow> DB \<Rightarrow>
   spine_error + OperationRow + string \<times> Snapshot" where
  "prepare_promote sp req topicApiBinding row asked db =
     (let chain = app_chain (spn_app sp) in
      if \<not> can (Some (spr_user req)) (Some (res_application row)) then Inl (Http Forbidden)
      else (case requested_environment chain (pi_environment asked) of
          Inl e \<Rightarrow> Inl e
        | Inr environment \<Rightarrow>
            (case repeated req db of
               Inl e \<Rightarrow> Inl e
             | Inr (Some again) \<Rightarrow> Inr (Inl again)
             | Inr None \<Rightarrow>
                 (case rev (takeWhile (\<lambda>e. e \<noteq> environment) chain) of
                    [] \<Rightarrow> bad
                  | sourceEnvironment # _ \<Rightarrow>
                      (case bound_to_topic row topicApiBinding environment asked of
                         Inl e \<Rightarrow> Inl e
                       | Inr body \<Rightarrow>
                           (case currentSnapshot db (res_id row) sourceEnvironment of
                              None \<Rightarrow> conflicting
                            | Some source \<Rightarrow>
                                (let target = currentSnapshot db (res_id row) environment in
                                 if target = None \<and> given (pi_backendUrl body) = None \<and> member (pi_pool body) ''urls'' = None then bad
                                 else (case settings sp req db (of_resource row body) (res_kind row) environment (res_domain row, res_subdomain row)
                                              (res_api_version row) (Some (promotion_defaults db (res_id row) environment source target)) (managedUnitsFor row) of
                                     Inl e \<Rightarrow> Inl e
                                   | Inr config \<Rightarrow> Inr (Inr (environment, config\<lparr>snap_revisionId := snap_revisionId source,
                                       snap_sourceEnvironment := Some sourceEnvironment,
                                       snap_sourceOperationId := map_option opn_id (last_operation db (res_id row) sourceEnvironment)\<rparr>))))))))))"

definition commit_promote :: "Request \<Rightarrow> ResourceRow \<Rightarrow> string \<times> Snapshot \<Rightarrow> DB \<Rightarrow> spine_error + DB" where
  "commit_promote req row prepared db =
     (let (environment, config) = prepared in
      if \<not> assertRouteFree db (res_id row) environment (snap_host config) (snap_basePath config) then conflicting
      else (case arrived req row environment db of
          Inl e \<Rightarrow> Inl e
        | Inr db1 \<Rightarrow> (case requested_key req of Inl e \<Rightarrow> Inl e
            | Inr key \<Rightarrow> Inr (queue req key (res_application row) (res_id row) environment ''promote'' config db1))))"

definition promoteResource ::
  "spine_services \<Rightarrow> Request \<Rightarrow> (string \<Rightarrow> spine_error + string list \<times> string) \<Rightarrow> ResourceRow \<Rightarrow> PublishInput \<Rightarrow> DB \<Rightarrow> spine_error + spine_result" where
  "promoteResource sp req topicApiBinding row asked db = (case prepare_promote sp req topicApiBinding row asked db of
       Inl e \<Rightarrow> Inl e
     | Inr (Inl again) \<Rightarrow> Inr (Repeated again)
     | Inr (Inr p) \<Rightarrow> (case commit_promote req row p db of Inl e \<Rightarrow> Inl e | Inr db' \<Rightarrow> Inr (QueuedOperation db')))"

end
