(* ===== verification/ReleaseSystem.thy ===== *)
theory ReleaseSystem
  imports SpineRequests
begin

declare map_of_eq_Some_iff [simp del] Some_eq_map_of_iff [simp del]

text \<open>
  The two ways a release reaches the fleet, together: the release requests with their jobs and the operation spine work on one
  release table. A step is a request, one job, one operation, or the acknowledgement of an environment;
  the pass of the runner is a sequence of such steps. The specification they implement knows, for each API and
  environment, which revision is live and the place in the table of the newest release that ever reached the fleet: what is live
  changes only to a release later than that one, or to nothing.
\<close>

section \<open>The specification\<close>

type_synonym scope = "string \<times> string"

record publication =
  pub_live :: "string option"
  pub_newest :: nat

definition scoped :: "scope \<Rightarrow> ReleaseRow \<Rightarrow> bool" where
  "scoped k r = in_scope (fst k) (snd k) r"

definition newest_reached :: "scope \<Rightarrow> ReleaseRow list \<Rightarrow> nat" where
  "newest_reached k rows = length (dropWhile (\<lambda>r. \<not> (scoped k r \<and> reached (rel_state r))) (rev rows))"

definition live_revision :: "scope \<Rightarrow> ReleaseRow list \<Rightarrow> string option" where
  "live_revision k rows = map_option rel_revision (find (\<lambda>r. scoped k r \<and> rel_state r = Converged) rows)"

definition published :: "DB \<Rightarrow> scope \<Rightarrow> publication" where
  "published db k = \<lparr>pub_live = live_revision k (db_release db), pub_newest = newest_reached k (db_release db)\<rparr>"

inductive pub_step :: "(scope \<Rightarrow> publication) \<Rightarrow> (scope \<Rightarrow> publication) \<Rightarrow> bool" where
  publish: "pub_newest (s k) < n \<Longrightarrow> pub_step s (s(k := \<lparr>pub_live = Some v, pub_newest = n\<rparr>))"
| withdraw: "pub_step s (s(k := (s k)\<lparr>pub_live := None\<rparr>))"

section \<open>The steps\<close>

text \<open>A job is run from the row the pass has read, so only its payload is sure to be in the table. Identifiers a step draws
  are fresh.\<close>

inductive release_step :: "spine_services \<Rightarrow> DB \<Rightarrow> DB \<Rightarrow> bool" for sp where
  release_requested: "fresh_release relId db \<Longrightarrow> request_release (spn_app sp) user relId jid planId nowMs req db = Inr db' \<Longrightarrow> release_step sp db db'"
| withdrawal_requested: "request_withdraw (spn_app sp) user jid nowMs resource environment db = Inr db' \<Longrightarrow> release_step sp db db'"
| publish_requested: "publishResource sp req ids source body db = Some (Inr (QueuedOperation db')) \<Longrightarrow> release_step sp db db'"
| configure_requested: "configureResource sp req newRev row src body db = Inr (QueuedOperation db') \<Longrightarrow> release_step sp db db'"
| promote_requested: "promoteResource sp req binding row body db = Inr (QueuedOperation db') \<Longrightarrow> release_step sp db db'"
| job_run: "job_payload job \<in> set (map job_payload (db_job db)) \<Longrightarrow> release_step sp db (run_job (spn_app sp) ok nowMs db job)"
| jobs_requeued: "release_step sp db (requeue_stuck nowMs db)"
| operation_run: "fresh_release relId db \<Longrightarrow> release_step sp db (run_operation sp relId nowMs db q)"
| environment_settled: "release_step sp db (settle_environment sp nowMs db environment)"
| keys_expired: "release_step sp db (fst (runKeyExpiry expireDays warnDays nowMs (toISOString nowMs) db))"

text \<open>The tables the two views of a release read.\<close>

definition same_releases :: "DB \<Rightarrow> DB \<Rightarrow> bool" where
  "same_releases db db' \<longleftrightarrow> db_release db' = db_release db \<and> map job_payload (db_job db') = map job_payload (db_job db) \<and>
     gateways_of db' = gateways_of db \<and> db_route_gateway db' = db_route_gateway db \<and> db_applied db' = db_applied db"

lemma same_releases_inv: "release_inv db \<Longrightarrow> same_releases db db' \<Longrightarrow> release_inv db'"
  by (auto simp: same_releases_def intro: keep_inv)

lemma published_cong: "db_release db' = db_release db \<Longrightarrow> published db' = published db"
  by (simp add: published_def fun_eq_iff)

lemma same_releases_published: "same_releases db db' \<Longrightarrow> published db' = published db"
  by (rule published_cong) (simp add: same_releases_def)

lemma same_releases_trans: "same_releases a b \<Longrightarrow> same_releases b c \<Longrightarrow> same_releases a c"
  by (simp add: same_releases_def)

section \<open>How the specification sees the table\<close>

lemma newest_append:
  "newest_reached k (xs @ ys) = (if \<exists>r\<in>set ys. scoped k r \<and> reached (rel_state r) then length xs + newest_reached k ys else newest_reached k xs)"
proof (cases "\<exists>r\<in>set ys. scoped k r \<and> reached (rel_state r)")
  case True
  then obtain r where r: "r \<in> set (rev ys)" "scoped k r \<and> reached (rel_state r)" by auto
  from r have "dropWhile (\<lambda>r. \<not> (scoped k r \<and> reached (rel_state r))) (rev ys @ rev xs) =
      dropWhile (\<lambda>r. \<not> (scoped k r \<and> reached (rel_state r))) (rev ys) @ rev xs"
    by (intro dropWhile_append1) auto
  with True show ?thesis by (simp add: newest_reached_def)
next
  case False
  then have "dropWhile (\<lambda>r. \<not> (scoped k r \<and> reached (rel_state r))) (rev ys @ rev xs) =
      dropWhile (\<lambda>r. \<not> (scoped k r \<and> reached (rel_state r))) (rev xs)"
    by (intro dropWhile_append2) auto
  with False show ?thesis by (auto simp: newest_reached_def)
qed

lemma newest_bound: "newest_reached k rows \<le> length rows"
  unfolding newest_reached_def by (metis length_dropWhile_le length_rev)

lemma newest_skip:
  assumes "\<not> (scoped k r \<and> reached (rel_state r))"
  shows "newest_reached k (xs @ r # ys) = (if \<exists>q\<in>set ys. scoped k q \<and> reached (rel_state q) then length xs + 1 + newest_reached k ys else newest_reached k xs)"
  using assms newest_append [of k "xs @ [r]" ys] newest_append [of k xs "[r]"] by auto

lemma newest_last: "scoped k r \<Longrightarrow> reached (rel_state r) \<Longrightarrow> newest_reached k (xs @ [r]) = length xs + 1"
  by (simp add: newest_append) (simp add: newest_reached_def)

lemma newest_map:
  assumes "\<And>r. r \<in> set rows \<Longrightarrow> scoped k (f r) = scoped k r" "\<And>r. r \<in> set rows \<Longrightarrow> scoped k r \<Longrightarrow> reached (rel_state (f r)) = reached (rel_state r)"
  shows "newest_reached k (map f rows) = newest_reached k rows"
  using assms
proof (induction rows rule: rev_induct)
  case (snoc r rows)
  then have "newest_reached k (map f rows) = newest_reached k rows" by auto
  moreover have "scoped k (f r) \<and> reached (rel_state (f r)) \<longleftrightarrow> scoped k r \<and> reached (rel_state r)" using snoc.prems [of r] by auto
  ultimately show ?case by (auto simp: newest_append) (auto simp: newest_reached_def)
qed simp

lemma live_map:
  assumes "state_map f" "\<And>r. r \<in> set rows \<Longrightarrow> scoped k r \<Longrightarrow> rel_state (f r) = Converged \<longleftrightarrow> rel_state r = Converged"
  shows "live_revision k (map f rows) = live_revision k rows"
  using assms(2)
proof (induction rows)
  case (Cons r rows)
  moreover from Cons.prems have "scoped k r \<and> rel_state (f r) = Converged \<longleftrightarrow> scoped k r \<and> rel_state r = Converged" by auto
  moreover have "scoped k (f r) = scoped k r" "rel_revision (f r) = rel_revision r"
    using assms(1) by (simp_all add: scoped_def state_map_scope) (simp add: state_map_def same_release_def)
  ultimately show ?case by (auto simp: live_revision_def)
qed (simp add: live_revision_def)

lemma scoped_map: "state_map f \<Longrightarrow> scoped k (f r) = scoped k r"
  by (simp add: scoped_def state_map_scope)

text \<open>The scope of a release and the one a step works on agree or are apart.\<close>

lemma scoped_iff: "in_scope resource environment r \<Longrightarrow> scoped k r \<longleftrightarrow> k = (resource, environment)"
  by (cases k) (auto simp: scoped_def in_scope_def)

lemma retire_other: "k \<noteq> (resource, environment) \<Longrightarrow> scoped k r \<Longrightarrow> rel_state (retire resource environment r) = rel_state r"
  by (cases k) (auto simp: retire_state scoped_def in_scope_def)

section \<open>Publishing and withdrawing, seen by the specification\<close>

lemma publish_simulates:
  assumes old: "db_release db = xs @ zs @ ys" and zs: "zs = [] \<and> ys = [] \<or> (\<exists>rel. zs = [rel] \<and> in_scope resource environment rel \<and> rel_state rel = Pending)"
    and new: "db_release db' = map (retire resource environment) xs @ row # map (retire resource environment) ys"
    and row: "in_scope resource environment row" "rel_state row = Converged"
    and after: "\<forall>q\<in>set ys. \<not> (in_scope resource environment q \<and> reached (rel_state q))"
  shows "pub_step (published db) (published db')"
proof -
  let ?k = "(resource, environment)" and ?g = "retire resource environment"
  have zs_out: "\<not> (\<exists>r\<in>set zs. scoped k r \<and> reached (rel_state r))" "\<forall>r\<in>set zs. scoped k r \<longrightarrow> rel_state r \<noteq> Converged" for k
    using zs by auto
  have row_at: "scoped k row \<longleftrightarrow> k = ?k" for k by (rule scoped_iff [OF row(1)])
  have ys_out: "\<not> (\<exists>r\<in>set ys. scoped ?k r \<and> reached (rel_state r))" using after by (auto simp: scoped_def)
  have ys_out': "\<not> (\<exists>r\<in>?g ` set ys. scoped ?k r \<and> reached (rel_state r))"
    using ys_out by (auto simp: scoped_map [OF retire_map] retire_reached)
  have eq: "published db' k = published db k" if k: "k \<noteq> ?k" for k
  proof -
    have same: "newest_reached k (map ?g rows) = newest_reached k rows" "live_revision k (map ?g rows) = live_revision k rows" for rows
      using retire_other [OF k] by (auto intro!: newest_map live_map retire_map simp: scoped_map [OF retire_map])
    have row_out: "\<not> (scoped k row \<and> reached (rel_state row))" using row_at k by simp
    have "newest_reached k (db_release db') = newest_reached k (db_release db)"
      using zs
    proof
      assume "zs = [] \<and> ys = []"
      then show ?thesis using newest_skip [OF row_out, of "map ?g xs" "[]"] by (simp add: new old same)
    next
      assume "\<exists>rel. zs = [rel] \<and> in_scope resource environment rel \<and> rel_state rel = Pending"
      then obtain rel where rel: "zs = [rel]" "rel_state rel = Pending" by auto
      then have "\<not> (scoped k rel \<and> reached (rel_state rel))" by simp
      from newest_skip [OF this, of xs ys] newest_skip [OF row_out, of "map ?g xs" "map ?g ys"] show ?thesis
        by (auto simp: new old rel same scoped_map [OF retire_map] retire_reached simp del: map_append)
    qed
    moreover have "live_revision k (db_release db') = live_revision k (map ?g (xs @ ys))"
      using row_at k by (auto simp: new live_revision_def find_append split: option.split)
    moreover have "live_revision k (db_release db) = live_revision k (xs @ ys)"
      using zs_out(2) zs by (auto simp: old live_revision_def find_append split: option.split)
    ultimately show ?thesis by (simp only: published_def same)
  qed
  have none: "find (\<lambda>r. scoped ?k r \<and> rel_state r = Converged) (map ?g xs) = None"
    by (auto simp: find_None_iff retire_state scoped_def state_map_scope [OF retire_map])
  have live: "live_revision ?k (db_release db') = Some (rel_revision row)"
    using row row_at by (simp add: new live_revision_def find_append none)
  have "newest_reached ?k (db_release db') = newest_reached ?k (map ?g xs @ [row])"
    using ys_out' newest_append [of ?k "map ?g xs @ [row]" "map ?g ys"] by (auto simp: new)
  then have newest: "newest_reached ?k (db_release db') = length xs + 1" using row row_at by (simp add: newest_last)
  have "newest_reached ?k (db_release db) = newest_reached ?k xs"
    using ys_out zs_out(1) [of ?k] by (auto simp: old newest_append)
  then have "newest_reached ?k (db_release db) < length xs + 1" using newest_bound [of ?k xs] by simp
  moreover have "published db' = (published db)(?k := \<lparr>pub_live = Some (rel_revision row), pub_newest = length xs + 1\<rparr>)"
    using eq by (auto simp: fun_eq_iff published_def live newest)
  ultimately show ?thesis by (simp add: publish published_def)
qed

lemma withdraw_simulates:
  assumes "db_release db' = db_release (withdraw resource environment db)"
  shows "pub_step (published db) (published db')"
proof -
  let ?k = "(resource, environment)"
  define f where "f = set_state (\<lambda>r. in_scope resource environment r \<and> rel_state r = Pending) Stale
         (Some (Some ''withdrawn before it was applied; release it again to publish it'')) \<circ>
       set_state (\<lambda>r. in_scope resource environment r \<and> rel_state r = Converged) Withdrawn None"
  have f: "state_map f" using set_state_map by (simp add: f_def state_map_def same_release_def)
  have st: "rel_state (f r) = (if in_scope resource environment r then (case rel_state r of Converged \<Rightarrow> Withdrawn | Pending \<Rightarrow> Stale | s \<Rightarrow> s) else rel_state r)" for r
    by (cases "rel_state r") (simp_all add: f_def set_state_state state_map_scope [OF set_state_map])
  have rows: "db_release db' = map f (db_release db)" by (simp only: f_def assms withdraw_tables)
  have newest: "newest_reached k (db_release db') = newest_reached k (db_release db)" for k
    unfolding rows by (rule newest_map) (auto simp: scoped_map [OF f] st split: ReleaseState.split)
  have other: "live_revision k (db_release db') = live_revision k (db_release db)" if "k \<noteq> ?k" for k
    unfolding rows using that by (intro live_map [OF f]) (cases k, auto simp: st scoped_def in_scope_def)
  have "live_revision ?k (db_release db') = None"
    unfolding rows by (auto simp: live_revision_def find_None_iff scoped_def state_map_scope [OF f] st split: ReleaseState.splits)
  with newest other have "published db' = (published db)(?k := (published db ?k)\<lparr>pub_live := None\<rparr>)"
    by (auto simp: fun_eq_iff published_def)
  then show ?thesis using withdraw [of "published db" ?k] by simp
qed

text \<open>A change of state among releases that never reached the fleet is invisible.\<close>

lemma unpublished_simulates:
  assumes f: "state_map f" and rows: "db_release db' = map f (db_release db)"
    and pend: "\<And>r. r \<in> set (db_release db) \<Longrightarrow> f r = r \<or> rel_state r = Pending \<and> \<not> reached (rel_state (f r))"
  shows "published db' = published db"
proof -
  have "rel_state (f r) = Converged \<longleftrightarrow> rel_state r = Converged" "reached (rel_state (f r)) \<longleftrightarrow> reached (rel_state r)" if "r \<in> set (db_release db)" for r
    using pend [OF that] by auto
  then have "newest_reached k (db_release db') = newest_reached k (db_release db)" "live_revision k (db_release db') = live_revision k (db_release db)" for k
    unfolding rows by (auto intro!: newest_map live_map [OF f] simp: scoped_map [OF f])
  then show ?thesis by (simp add: fun_eq_iff published_def)
qed

section \<open>Each step implements the specification\<close>

lemma reconciled_simulates:
  assumes inv: "release_inv db" and job: "job_scoped (db_release db) (gateways_of db) (ReconcileJob p)"
    and env: "payload_environment db p = Some environment" and eff: "reconciled p environment db db'"
  shows "pub_step\<^sup>*\<^sup>* (published db) (published db')"
  using eff
proof cases
  case kept
  from published_cong [OF kept(1)] show ?thesis by simp
next
  case removed
  then show ?thesis using withdraw_simulates by blast
next
  case (stale rel reason)
  have dist: "distinct (map rel_id (db_release db))" using inv by (simp add: release_inv_def)
  have "published db' = published db"
  proof (rule unpublished_simulates [OF set_state_map])
    show "db_release db' = map (set_state (\<lambda>r. rel_id r = rel_id rel) Stale reason) (db_release db)" by (simp add: stale set_release_rows)
    from stale(2) dist obtain xs ys where split: "db_release db = xs @ rel # ys" "rel_id rel = rel_id rel"
        "later_rows (rel_id rel) (db_release db) = ys" "\<forall>r\<in>set xs \<union> set ys. rel_id r \<noteq> rel_id rel"
      by (rule release_split)
    fix r assume "r \<in> set (db_release db)"
    then have "rel_id r = rel_id rel \<Longrightarrow> r = rel" using split by auto
    then show "set_state (\<lambda>r. rel_id r = rel_id rel) Stale reason r = r \<or>
        rel_state r = Pending \<and> \<not> reached (rel_state (set_state (\<lambda>r. rel_id r = rel_id rel) Stale reason r))"
      using stale(3) by (cases "rel_id r = rel_id rel") (simp_all add: set_state_state, simp add: set_state_def)
  qed
  then show ?thesis by simp
next
  case (applied rel bound db3 dig stamp)
  have dist: "distinct (map rel_id (db_release db))" using inv by (simp add: release_inv_def)
  from applied(2) dist obtain xs ys where split: "db_release db = xs @ rel # ys" "rel_id rel = rel_id rel"
      "later_rows (rel_id rel) (db_release db) = ys" "\<forall>r\<in>set xs \<union> set ys. rel_id r \<noteq> rel_id rel"
    by (rule release_split)
  have scope: "in_scope (rp_resourceId p) environment rel" by (rule job_environment [OF inv job env applied(1,2)])
  have "pub_step (published db) (published db')"
  proof (rule publish_simulates [where zs = "[rel]"])
    show "db_release db = xs @ [rel] @ ys" using split(1) by simp
    show "db_release db' = map (retire (rp_resourceId p) environment) xs @ rel\<lparr>rel_state := Converged, rel_reason := None\<rparr> #
        map (retire (rp_resourceId p) environment) ys"
      using converge_rows [OF split(1) refl split(4)] by (simp add: applied(5))
    show "\<forall>q\<in>set ys. \<not> (in_scope (rp_resourceId p) environment q \<and> reached (rel_state q))" by (rule overtaken_None [OF applied(4) split(3)])
  qed (use scope applied(3) in \<open>auto simp: in_scope_def\<close>)
  then show ?thesis by blast
qed

lemma reconcile_simulates:
  assumes inv: "release_inv db" and job: "job_scoped (db_release db) (gateways_of db) (ReconcileJob p)"
  shows "pub_step\<^sup>*\<^sup>* (published db) (published (snd (reconcile app nowMs p db)))"
  using reconcile_effect(3) [of app nowMs p db] reconciled_simulates [OF inv job] by auto

lemma fail_release_published: "published (fail_release payload db) = published db"
proof -
  have "published (set_release (\<lambda>r. rel_id r = i \<and> rel_state r = Pending) Failed reason db) = published db" for i reason
  proof (rule unpublished_simulates [OF set_state_map set_release_rows])
    fix r :: ReleaseRow
    show "set_state (\<lambda>r. rel_id r = i \<and> rel_state r = Pending) Failed reason r = r \<or> rel_state r = Pending \<and>
        \<not> reached (rel_state (set_state (\<lambda>r. rel_id r = i \<and> rel_state r = Pending) Failed reason r))"
      by (cases "rel_id r = i \<and> rel_state r = Pending") (simp_all add: set_state_state, auto simp: set_state_def)
  qed
  then show ?thesis by (simp add: fail_release_def split: job_payload.split option.split)
qed

lemma run_job_simulates:
  assumes inv: "release_inv db" and job: "job_payload job \<in> set (map job_payload (db_job db))"
  shows "pub_step\<^sup>*\<^sup>* (published db) (published (run_job app ok nowMs db job))"
proof -
  define db1 where "db1 = set_job (job_id job) (\<lambda>j. j\<lparr>job_state := JRunning, job_attempts := job_attempts j + 1, job_updated_at := toISOString nowMs\<rparr>) db"
  have inv1: "release_inv db1" unfolding db1_def by (rule set_job_inv [OF inv]) simp
  have scoped: "job_scoped (db_release db1) (gateways_of db1) (job_payload job)"
    using inv job by (auto simp: release_inv_def list_all_iff db1_def frame)
  have start: "published db1 = published db" by (rule published_cong) (simp add: db1_def frame)
  obtain r db2 where r: "run_payload app ok nowMs job db1 = (r, db2)" by fastforce
  have "pub_step\<^sup>*\<^sup>* (published db1) (published db2)"
  proof (cases "job_payload job")
    case (ReconcileJob p)
    with scoped r reconcile_simulates [OF inv1, of p app nowMs] show ?thesis by (auto simp: run_payload_def split: if_splits)
  next
    case (OtherJob x)
    with r show ?thesis by (auto simp: run_payload_def split: if_splits)
  qed
  moreover have "published (run_job app ok nowMs db job) = published db2"
  proof -
    have "published (set_job j f d) = published d" for j f d by (rule published_cong) (simp add: frame)
    moreover have "published (writeAudit a b c s d) = published d" for a b c s d by (rule published_cong) simp
    ultimately show ?thesis unfolding run_job_def Let_def db1_def [symmetric] r by (cases r) (auto simp: fail_release_published)
  qed
  ultimately show ?thesis by (simp add: start)
qed

lemma run_operation_simulates: "pub_step\<^sup>*\<^sup>* (published db) (published (run_operation sp relId nowMs db q))"
proof (cases "apply_operation sp relId nowMs q db")
  case (Applies db')
  then have "pub_step (published db) (published db')"
  proof (rule apply_operation_tables)
    fix ids v
    assume "db_release db' = map (retire (opn_resource q) (opn_env q)) (db_release db) @
       [\<lparr>rel_id = relId, rel_resource = opn_resource q, rel_revision = snap_revisionId (opn_input q), rel_env = opn_env q,
          rel_state = Converged, rel_reason = None, rel_version_digest = rev_version_digest v, rel_released_by = opn_actor q,
          rel_released_at = toISOString nowMs, rel_plan = None\<rparr>]" (is "_ = _ @ [?row]")
    then show ?thesis by (intro publish_simulates [where xs = "db_release db" and zs = "[]" and ys = "[]" and row = ?row]) (auto simp: in_scope_def)
  qed
  with Applies show ?thesis by (simp add: run_operation_def)
next
  case (Fails e)
  have "published (retry_operation nowMs q db) = published db" by (rule published_cong) (simp add: retry_operation_def Let_def frame)
  with Fails show ?thesis by (simp add: run_operation_def)
qed (simp add: run_operation_def)

lemma pending_published:
  "db_release db' = db_release db @ [row] \<Longrightarrow> rel_state row = Pending \<Longrightarrow> published db' = published db"
  by (auto simp: fun_eq_iff published_def newest_append live_revision_def find_append split: option.split)

lemma request_release_published:
  assumes "request_release app user relId jid planId nowMs req db = Inr db'"
  shows "published db' = published db"
proof -
  obtain v p target d where "db' = queue_release user relId jid (toISOString nowMs) req v p target d" "db_release d = db_release db"
    using assms by (auto simp: request_release_def persistPlan_def split: sum.splits option.splits if_splits list.splits prod.splits)
  then obtain row where "db_release db' = db_release db @ [row]" "rel_state row = Pending"
    by (auto simp: queue_release_def Let_def frame insert_release_def)
  then show ?thesis by (rule pending_published)
qed

lemma request_withdraw_published:
  "request_withdraw app user jid nowMs resource environment db = Inr db' \<Longrightarrow> published db' = published db"
  by (rule published_cong) (auto simp: request_withdraw_def frame split: option.splits if_splits list.splits)

section \<open>The requests of the spine publish nothing themselves\<close>

lemma same_releases_audit: "same_releases db (writeAudit a b c ok db') \<longleftrightarrow> same_releases db db'"
  by (simp add: same_releases_def frame)

lemma queue_same: "same_releases db db' \<Longrightarrow> same_releases db (queue req key app resource environment kind snapshot db')"
  by (simp add: queue_def Let_def same_releases_audit) (simp add: same_releases_def frame freeze_def gateways_of_def)

lemma same_releases_fields:
  "db_release db' = db_release db \<Longrightarrow> db_job db' = db_job db \<Longrightarrow> db_target db' = db_target db \<Longrightarrow> db_route_gateway db' = db_route_gateway db \<Longrightarrow>
   db_applied db' = db_applied db \<Longrightarrow> same_releases db db'"
  by (simp add: same_releases_def gateways_of_def)

lemma writeRevision_same: "writeRevision newRev actor stamp resource source db = Inr db' \<Longrightarrow> same_releases db db'"
  by (rule same_releases_fields)
    (auto simp: writeRevision_def Let_def bad_def touch_def store_artifact_def split: if_splits option.splits prod.splits)

lemma chosen_product_same: "chosen_product pid body db = Chosen p db' \<Longrightarrow> same_releases db db'"
  by (rule same_releases_fields)
    (auto simp: chosen_product_def ownProductFor_def insert_product_def split: if_splits option.splits prod.splits)

lemma arrived_same: "arrived req row environment db = Inr db' \<Longrightarrow> same_releases db db'"
  by (rule same_releases_fields)
    (auto simp: arrived_def ensurePlatformSubscription_def Let_def bad_def split: if_splits option.splits prod.splits)

lemma commit_publish_same:
  assumes "commit_publish sp req ids body p db = Some (Inr (QueuedOperation db'))"
  shows "same_releases db db'"
proof -
  obtain config taxonomy source where p: "p = (config, taxonomy, source)" by (cases p)
  note a = assms [unfolded commit_publish_def Let_def p prod.case conflicting_def bad_def]
  from a obtain pid db1 where c: "chosen_product (nid_product ids) body db = Chosen pid db1"
    by (auto split: sum.splits option.splits if_splits choice.splits)
  from a obtain db2 where w: "writeRevision (nid_revision ids) (usr_id (spr_user req)) (toISOString (spr_nowMs req)) (nid_resource ids) source
       (db1\<lparr>db_resource := db_resource db1 @ [new_resource req (nid_resource ids) body taxonomy]\<rparr>) = Inr db2"
    by (auto simp: c split: sum.splits option.splits if_splits)
  from a obtain key v where k: "requested_key req = Inr key" "latest_revision db2 (nid_resource ids) = Some v"
    by (auto simp: c w split: sum.splits option.splits if_splits)
  from a have d: "db' = queue req key (pi_applicationId body) (nid_resource ids) (hd (app_chain (spn_app sp))) ''publish'' (config\<lparr>snap_revisionId := rev_id v\<rparr>)
       (db2\<lparr>db_product_member := db_product_member db2 @ [(pid, nid_resource ids)]\<rparr>)"
    by (simp add: c w k split: sum.splits option.splits if_splits)
  have "same_releases db1 (db1\<lparr>db_resource := r\<rparr>)" "same_releases db2 (db2\<lparr>db_product_member := m\<rparr>)" for r m
    by (simp_all add: same_releases_fields)
  with chosen_product_same [OF c] writeRevision_same [OF w] show ?thesis
    unfolding d by (blast intro: queue_same same_releases_trans)
qed

lemma commit_configure_same:
  assumes "commit_configure sp req newRev row body p db = Inr db'"
  shows "same_releases db db'"
proof -
  from assms obtain key revision db1 where
    n: "new_revision newRev req (res_id row) (prp_source p) (snap_revisionId (prp_config p)) db = Inr (revision, db1)"
    and d: "db' = queue req key (res_application row) (res_id row) (prp_environment p) ''configure'' ((prp_config p)\<lparr>snap_revisionId := revision\<rparr>)
      (remember_override sp (res_id row) (prp_environment p) (pi_policy body) (classify req (res_id row) (prp_taxonomy p) db1))"
    by (auto simp: commit_configure_def conflicting_def split: option.splits if_splits sum.splits prod.splits)
  have "same_releases db db1"
    using n writeRevision_same by (auto simp: new_revision_def bad_def same_releases_fields split: option.splits sum.splits)
  moreover have "same_releases db1 (remember_override sp r e pol (classify req r t db1))" for r e pol t
    by (rule same_releases_fields) (auto simp: remember_override_def classify_def split: option.split)
  ultimately show ?thesis unfolding d by (blast intro: queue_same same_releases_trans)
qed

lemma commit_promote_same: "commit_promote req row p db = Inr db' \<Longrightarrow> same_releases db db'"
  by (auto simp: commit_promote_def conflicting_def intro: queue_same arrived_same split: if_splits sum.splits prod.splits)

lemma spine_requests_same:
  "publishResource sp req ids source body db = Some (Inr (QueuedOperation db')) \<Longrightarrow> same_releases db db'"
  "configureResource sp req newRev row src body db = Inr (QueuedOperation db') \<Longrightarrow> same_releases db db'"
  "promoteResource sp req binding row body db = Inr (QueuedOperation db') \<Longrightarrow> same_releases db db'"
  by (auto simp: publishResource_def configureResource_def promoteResource_def
      intro: commit_publish_same commit_configure_same commit_promote_same split: sum.splits)

lemma background_same:
  "same_releases db (requeue_stuck nowMs db)" "same_releases db (settle_environment sp nowMs db environment)"
  "same_releases db (fst (runKeyExpiry expireDays warnDays nowMs stamp db))"
proof -
  show "same_releases db (requeue_stuck nowMs db)" by (simp add: same_releases_def requeue_stuck_def gateways_of_def)
  show "same_releases db (settle_environment sp nowMs db environment)" by (rule same_releases_fields) (simp_all add: settle_environment_def)
  have slot: "same_releases d (expire_slot stamp d w)" for d w
    by (rule same_releases_fields) (simp_all add: expire_slot_def split: prod.split)
  have "same_releases db (foldl (expire_slot stamp) d ws)" if "same_releases db d" for d ws
    using that
  proof (induction ws arbitrary: d)
    case (Cons w ws)
    from same_releases_trans [OF Cons.prems slot] show ?case unfolding foldl.simps by (rule Cons.IH)
  qed simp
  moreover have "same_releases db db" by (simp add: same_releases_fields)
  ultimately show "same_releases db (fst (runKeyExpiry expireDays warnDays nowMs stamp db))" by (simp add: runKeyExpiry_def Let_def)
qed

lemma release_step_inv:
  assumes "release_step sp db db'" "release_inv db"
  shows "release_inv db'"
  using assms
  by cases (auto intro: request_release_inv request_withdraw_inv run_job_inv run_operation_inv
      same_releases_inv spine_requests_same background_same)

lemma release_step_simulates:
  assumes "release_step sp db db'" "release_inv db"
  shows "pub_step\<^sup>*\<^sup>* (published db) (published db')"
  using assms(1)
proof cases
  case job_run
  then show ?thesis using run_job_simulates [OF assms(2)] by simp
next
  case operation_run
  then show ?thesis by (simp add: run_operation_simulates)
qed (simp_all add: request_release_published request_withdraw_published same_releases_published [OF spine_requests_same(1)]
    same_releases_published [OF spine_requests_same(2)] same_releases_published [OF spine_requests_same(3)]
    background_same [THEN same_releases_published])

text \<open>An installation whose gateways are registered and which has released nothing yet.\<close>

definition nothing_released :: "DB \<Rightarrow> bool" where
  "nothing_released db \<longleftrightarrow> db_release db = [] \<and> db_job db = [] \<and> db_applied db = [] \<and> db_route_gateway db = [] \<and> distinct (map tgt_id (db_target db))"

interpretation releases: simulation nothing_released "release_step sp" release_inv published pub_step for sp
proof
  show "nothing_released db \<Longrightarrow> release_inv db" for db by (simp add: nothing_released_def release_inv_def live_newest_def)
qed (auto intro: release_step_inv release_step_simulates)

section \<open>The runner's pass\<close>

lemma run_operation_fresh:
  assumes "fresh_release i db" "i \<noteq> relId"
  shows "fresh_release i (run_operation sp relId nowMs db q)"
proof (cases "apply_operation sp relId nowMs q db")
  case (Applies db')
  then have "fresh_release i db'"
  proof (rule apply_operation_tables)
    fix ids v
    assume rows: "db_release db' = map (retire (opn_resource q) (opn_env q)) (db_release db) @
       [\<lparr>rel_id = relId, rel_resource = opn_resource q, rel_revision = snap_revisionId (opn_input q), rel_env = opn_env q,
          rel_state = Converged, rel_reason = None, rel_version_digest = rev_version_digest v, rel_released_by = opn_actor q,
          rel_released_at = toISOString nowMs, rel_plan = None\<rparr>]" and jobs: "db_job db' = db_job db"
    have "map rel_id (db_release db') = map rel_id (db_release db) @ [relId]"
      unfolding rows map_append by (simp only: state_map_ids [OF retire_map] list.map ReleaseRow.select_convs)
    with assms show ?thesis unfolding fresh_release_def jobs by simp
  qed
  with Applies show ?thesis by (simp add: run_operation_def)
qed (use assms in \<open>simp_all add: run_operation_def retry_operation_def Let_def fresh_release_def frame\<close>)

lemma operations_steps:
  assumes "distinct (map (\<lambda>q. new_id (opn_id q)) qs)" "\<And>q. q \<in> set qs \<Longrightarrow> fresh_release (new_id (opn_id q)) db"
  shows "(release_step sp)\<^sup>*\<^sup>* db (foldl (\<lambda>db q. run_operation sp (new_id (opn_id q)) nowMs db q) db qs)"
  using assms
proof (induction qs arbitrary: db)
  case (Cons q qs)
  let ?db = "run_operation sp (new_id (opn_id q)) nowMs db q"
  have "release_step sp db ?db" using Cons.prems(2) by (intro operation_run) simp
  moreover have "(release_step sp)\<^sup>*\<^sup>* ?db (foldl (\<lambda>db q. run_operation sp (new_id (opn_id q)) nowMs db q) ?db qs)"
    using Cons.prems by (intro Cons.IH run_operation_fresh) (auto simp: image_iff)
  ultimately show ?case by (simp add: converse_rtranclp_into_rtranclp)
qed simp

lemma settle_steps: "(release_step sp)\<^sup>*\<^sup>* db (foldl (settle_environment sp nowMs) db es)"
proof (induction es arbitrary: db)
  case (Cons e es)
  from environment_settled Cons.IH show ?case unfolding foldl.simps by (rule converse_rtranclp_into_rtranclp)
qed simp

lemma jobs_steps:
  assumes "release_inv db" "set (map job_payload js) \<subseteq> set (map job_payload (db_job db))"
  shows "(release_step sp)\<^sup>*\<^sup>* db (foldl (run_job (spn_app sp) ok nowMs) db js)"
  using assms
proof (induction js arbitrary: db)
  case (Cons j js)
  let ?db = "run_job (spn_app sp) ok nowMs db j"
  from Cons.prems(2) have j: "job_payload j \<in> set (map job_payload (db_job db))" by simp
  note kept = run_job_inv [OF Cons.prems(1) j, of "spn_app sp" ok nowMs]
  have "set (map job_payload js) \<subseteq> set (map job_payload (db_job ?db))" unfolding kept(2) using Cons.prems(2) by simp
  note rest = Cons.IH [OF kept(1) this]
  have "release_step sp db ?db" by (rule job_run [OF j])
  from converse_rtranclp_into_rtranclp [of "release_step sp", OF this rest] show ?case unfolding foldl.simps .
qed simp

lemma pass_steps:
  assumes inv: "release_inv db" and ids: "inj new_id" "distinct (map opn_id (db_operation db))" "\<And>i. fresh_release (new_id i) db"
  shows "(release_step sp)\<^sup>*\<^sup>* db (runDueJobs sp new_id ok expireDays warnDays nowMs db)"
proof -
  define db0 where "db0 = fst (runKeyExpiry expireDays warnDays nowMs (toISOString nowMs) db)"
  have same: "same_releases db db0" unfolding db0_def by (rule background_same)
  have ops0: "db_operation (foldl (expire_slot stamp) d ws) = db_operation d" for stamp d ws
    by (induction ws arbitrary: d) (auto simp: expire_slot_def)
  have ops: "db_operation db0 = db_operation db" by (simp add: db0_def runKeyExpiry_def Let_def ops0)
  have jobs: "list_ex (\<lambda>j. Q (job_payload j)) (db_job db0) \<longleftrightarrow> list_ex (\<lambda>j. Q (job_payload j)) (db_job db)" for Q
  proof -
    have "list_ex Q (map job_payload (db_job db0)) = list_ex Q (map job_payload (db_job db))" using same by (simp only: same_releases_def)
    then show ?thesis by (simp add: list_ex_iff)
  qed
  have fresh: "fresh_release (new_id i) db0" for i
    using ids(3) [of i] jobs [of "names_release (new_id i)"] same by (simp add: fresh_release_def same_releases_def)
  define db1 where "db1 = runOperations sp new_id nowMs db0"
  let ?due = "take 30 (filter (due_operation nowMs) (db_operation db0))"
  have "distinct (map opn_id (db_operation db0))" using ids(2) by (simp add: ops)
  then have "distinct (map opn_id ?due)" by (metis distinct_map_filter distinct_take take_map)
  then have "distinct (map new_id (map opn_id ?due))" using ids(1) by (simp add: distinct_map inj_on_def)
  then have d: "distinct (map (\<lambda>q. new_id (opn_id q)) ?due)" by (simp add: comp_def)
  have s0: "release_step sp db db0" unfolding db0_def by (rule keys_expired)
  have s1: "(release_step sp)\<^sup>*\<^sup>* db0 db1"
    unfolding db1_def runOperations_def Let_def using operations_steps [OF d fresh] settle_steps by (rule rtranclp_trans)
  have inv1: "release_inv db1"
    using releases.steps_inv [OF s1] release_step_inv [OF s0 inv] .
  have "(release_step sp)\<^sup>*\<^sup>* (requeue_stuck nowMs db1) (run_jobs (spn_app sp) ok nowMs db1)"
    unfolding run_jobs_def Let_def
  proof (rule jobs_steps)
    show "release_inv (requeue_stuck nowMs db1)" using release_step_inv [OF jobs_requeued inv1] .
    show "set (map job_payload (due_jobs nowMs (requeue_stuck nowMs db1))) \<subseteq> set (map job_payload (db_job (requeue_stuck nowMs db1)))"
      by (auto simp: due_jobs_def dest: in_set_takeD)
  qed
  then have "(release_step sp)\<^sup>*\<^sup>* db1 (run_jobs (spn_app sp) ok nowMs db1)" by (rule converse_rtranclp_into_rtranclp [of "release_step sp", OF jobs_requeued])
  with s0 s1 have "(release_step sp)\<^sup>*\<^sup>* db (run_jobs (spn_app sp) ok nowMs db1)"
    by (meson converse_rtranclp_into_rtranclp rtranclp_trans)
  then show ?thesis by (simp add: runDueJobs_def db1_def db0_def)
qed

section \<open>The properties\<close>

lemma nothing_published: "nothing_released db \<Longrightarrow> published db = (\<lambda>_. \<lparr>pub_live = None, pub_newest = 0\<rparr>)"
  by (simp add: nothing_released_def published_def live_revision_def newest_reached_def fun_eq_iff)

lemma one_converged:
  assumes "live_newest rows"
  shows "length (filter (\<lambda>r. in_scope resource environment r \<and> rel_state r = Converged) rows) \<le> 1"
  using assms
proof (induction rows)
  case (Cons r rows)
  then have "live_newest rows" by (simp add: live_newest_def)
  note IH = Cons.IH [OF this]
  have "filter (\<lambda>r. in_scope resource environment r \<and> rel_state r = Converged) rows = []" if "in_scope resource environment r" "rel_state r = Converged"
    using Cons.prems that by (auto simp: live_newest_def same_scope_def in_scope_def filter_empty_conv)
  with IH show ?case by auto
qed simp

text \<open>What a ready operation leaves: its release live in its scope, on its gateways.\<close>

lemma placed_operations: "db_operation (drop_applied r e ids (record_applied r' v' d s ts (placed_db relId nowMs q ids' v db))) = db_operation db"
  by (simp add: drop_applied_def record_applied_def placed_db_def publish_row_def freeze_def insert_release_def set_release_def write_policy_def
      place_operation_def Let_def)

lemma placed_releases:
  "db_release (placed_db relId nowMs q ids v db) = map (retire (opn_resource q) (opn_env q)) (db_release db) @
     [\<lparr>rel_id = relId, rel_resource = opn_resource q, rel_revision = snap_revisionId (opn_input q), rel_env = opn_env q,
        rel_state = Converged, rel_reason = None, rel_version_digest = rev_version_digest v, rel_released_by = opn_actor q,
        rel_released_at = toISOString nowMs, rel_plan = None\<rparr>]"
  by (simp add: placed_db_def publish_row_def frame insert_release_def set_release_rows) (simp add: retire_def)

lemma ready_operation_tables:
  assumes "operation_ready sp relId nowMs q db ids v"
  shows "live_revision (opn_resource q, opn_env q) (db_release (run_operation sp relId nowMs db q)) = Some (snap_revisionId (opn_input q))"
    and "bound_targets (run_operation sp relId nowMs db q) (opn_resource q) (opn_env q) = ids"
    and "\<exists>f. db_operation (run_operation sp relId nowMs db q) = map (\<lambda>o'. if opn_id o' = opn_id q
       then o'\<lparr>opn_state := OWaiting, opn_error := None, opn_result := f, opn_updated_at := toISOString nowMs\<rparr> else o') (db_operation db)"
proof -
  from apply_operation_ready [OF assms] obtain dig f where run: "run_operation sp relId nowMs db q =
     set_operation (opn_id q) (\<lambda>o'. o'\<lparr>opn_state := OWaiting, opn_error := None, opn_result := f, opn_updated_at := toISOString nowMs\<rparr>)
       (drop_applied (opn_resource q) (opn_env q) ids
         (record_applied (opn_resource q) (snap_revisionId (opn_input q)) dig (toISOString nowMs) ids (placed_db relId nowMs q ids v db)))" by blast
  have "find (\<lambda>r. scoped (opn_resource q, opn_env q) r \<and> rel_state r = Converged) (map (retire (opn_resource q) (opn_env q)) (db_release db)) = None"
    by (auto simp: find_None_iff retire_state scoped_def state_map_scope [OF retire_map])
  then show "live_revision (opn_resource q, opn_env q) (db_release (run_operation sp relId nowMs db q)) = Some (snap_revisionId (opn_input q))"
    by (simp add: run frame placed_releases live_revision_def find_append scoped_def in_scope_def)
  have "filter (\<lambda>(r, e, _). r = opn_resource q \<and> e = opn_env q) (filter (\<lambda>(r, e, _). \<not> (r = opn_resource q \<and> e = opn_env q)) rows) = []" for rows :: "(string \<times> string \<times> string) list"
    by (auto simp: filter_empty_conv)
  moreover have "db_route_gateway (run_operation sp relId nowMs db q) = filter (\<lambda>(r, e, _). \<not> (r = opn_resource q \<and> e = opn_env q)) (db_route_gateway db) @
     map (\<lambda>i. (opn_resource q, opn_env q, i)) ids"
    by (simp add: run frame placed_db_def) (simp add: place_operation_def Let_def)
  ultimately show "bound_targets (run_operation sp relId nowMs db q) (opn_resource q) (opn_env q) = ids"
    by (simp add: bound_targets_def filter_map comp_def)
  have "db_operation (run_operation sp relId nowMs db q) = map (\<lambda>o'. if opn_id o' = opn_id q
       then o'\<lparr>opn_state := OWaiting, opn_error := None, opn_result := f, opn_updated_at := toISOString nowMs\<rparr> else o') (db_operation db)"
    unfolding run set_operation_def by (simp add: placed_operations)
  then show "\<exists>f. db_operation (run_operation sp relId nowMs db q) = map (\<lambda>o'. if opn_id o' = opn_id q
       then o'\<lparr>opn_state := OWaiting, opn_error := None, opn_result := f, opn_updated_at := toISOString nowMs\<rparr> else o') (db_operation db)" by blast
qed

lemma operation_state_map:
  assumes "\<And>o'. opn_id (f o') = opn_id o'" "db_operation db' = map f (db_operation db)"
  shows "operation_state db' i = map_option (\<lambda>o'. opn_state (f o')) (find (\<lambda>o'. opn_id o' = i) (db_operation db))"
proof -
  have "find (\<lambda>o'. opn_id o' = i) (map f os) = map_option f (find (\<lambda>o'. opn_id o' = i) os)" for os
    by (induction os) (simp_all add: assms(1))
  then show ?thesis by (simp add: operation_state_def assms(2) option.map_comp comp_def)
qed


lemma sample_nothing: "nothing_released sample_db"
  by (simp add: nothing_released_def sample_db_def empty_db_def sample_gateway_def)

lemma sample_run: "(release_step sample_services)\<^sup>*\<^sup>* sample_db (run_operation sample_services ''rel1'' 0 sample_db (sample_operation ''o1'' ''v1''))"
  by (intro r_into_rtranclp operation_run) (simp add: fresh_release_def sample_db_def empty_db_def)

lemma sample_op: "opn_env (sample_operation i v) = ''dev''" "opn_resource (sample_operation i v) = ''r1''"
    "snap_revisionId (opn_input (sample_operation i v)) = v" "opn_id (sample_operation i v) = i"
  by (simp_all add: sample_operation_def sample_snapshot_def)




text \<open>C23: The runner's pass (key expiry, up to thirty due operations, the settled environments, the stuck and due jobs) is made of
  the same steps: it keeps the invariant and is itself a run of the specification, if the identifiers it draws are new.\<close>

theorem runner_pass_refines:
  assumes "release_inv db" "inj new_id" "distinct (map opn_id (db_operation db))" "\<And>i. fresh_release (new_id i) db"
  shows "release_inv (runDueJobs sp new_id ok expireDays warnDays nowMs db) \<and>
    pub_step\<^sup>*\<^sup>* (published db) (published (runDueJobs sp new_id ok expireDays warnDays nowMs db))"
proof -
  note steps = pass_steps [OF assms, of sp ok expireDays warnDays nowMs]
  show ?thesis using releases.steps_inv [OF steps assms(1)] releases.runs_simulate [OF steps assms(1)] by simp
qed

theorem runner_pass_refines_witness:
  "release_inv (runDueJobs sample_services ((@) ''rel-'') (\<lambda>_. True) 90 14 0 sample_db) \<and>
   pub_step\<^sup>*\<^sup>* (published sample_db) (published (runDueJobs sample_services ((@) ''rel-'') (\<lambda>_. True) 90 14 0 sample_db))"
proof (rule runner_pass_refines)
  show "release_inv sample_db" by (rule releases.start_inv [OF sample_nothing])
  show "inj ((@) ''rel-'')" by (simp add: inj_def)
  show "distinct (map opn_id (db_operation sample_db))" by (simp add: sample_db_def sample_op)
  show "fresh_release (''rel-'' @ i) sample_db" for i by (simp add: fresh_release_def sample_db_def empty_db_def)
qed

text \<open>C9: Progress of an operation. One that is next in its scope and that nothing refuses is applied: its revision is live on
  exactly the gateways chosen for it and it waits for the fleet; and once every instance acknowledges the configuration it is
  complete, in the same pass.\<close>

theorem ready_operation_completes:
  assumes "operation_ready sp relId nowMs q db ids v" "operation_state db (opn_id q) \<noteq> None"
    "list_all (\<lambda>p. opn_id p = opn_id q \<longrightarrow> opn_env p = opn_env q) (db_operation db)"
  shows "let db1 = run_operation sp relId nowMs db q; db2 = settle_environment sp later db1 (opn_env q) in
    live_revision (opn_resource q, opn_env q) (db_release db1) = Some (snap_revisionId (opn_input q)) \<and>
    bound_targets db1 (opn_resource q) (opn_env q) = ids \<and> operation_state db1 (opn_id q) = Some OWaiting \<and>
    operation_state db2 (opn_id q) = Some (if fleetApplied sp later db1 (opn_env q) then OComplete else OWaiting)"
proof -
  define db1 where "db1 = run_operation sp relId nowMs db q"
  from ready_operation_tables(3) [OF assms(1)] obtain f where ops: "db_operation db1 = map (\<lambda>o'. if opn_id o' = opn_id q
       then o'\<lparr>opn_state := OWaiting, opn_error := None, opn_result := f, opn_updated_at := toISOString nowMs\<rparr> else o') (db_operation db)"
    (is "_ = map ?f _") unfolding db1_def by blast
  from assms(2) obtain p where p: "find (\<lambda>o'. opn_id o' = opn_id q) (db_operation db) = Some p" by (auto simp: operation_state_def)
  then have pq: "opn_id p = opn_id q" "opn_env p = opn_env q" using assms(3) by (auto simp: find_Some_iff list_all_iff)
  have id: "opn_id (?f o') = opn_id o'" for o' by simp
  have waiting: "operation_state db1 (opn_id q) = Some OWaiting" by (simp add: operation_state_map [OF id ops] p pq)
  have "operation_state (settle_environment sp later db1 (opn_env q)) (opn_id q) = Some OComplete" if "fleetApplied sp later db1 (opn_env q)"
  proof -
    let ?g = "\<lambda>o'. if opn_env o' = opn_env q \<and> opn_state o' = OWaiting then o'\<lparr>opn_state := OComplete, opn_updated_at := toISOString later\<rparr> else o'"
    have done_rows: "db_operation (settle_environment sp later db1 (opn_env q)) = map (\<lambda>o'. ?g (?f o')) (db_operation db)"
      using that by (simp add: settle_environment_def ops comp_def)
    have keep: "opn_id (?g (?f o')) = opn_id o'" for o' by simp
    show ?thesis by (simp add: operation_state_map [OF keep done_rows] p pq)
  qed
  moreover have "settle_environment sp later db1 (opn_env q) = db1" if "\<not> fleetApplied sp later db1 (opn_env q)"
    using that by (simp add: settle_environment_def)
  ultimately show ?thesis
    using ready_operation_tables(1,2) [OF assms(1)] waiting unfolding Let_def db1_def [symmetric] by auto
qed

theorem ready_operation_completes_witness:
  "let db1 = run_operation sample_services ''rel1'' 0 sample_db (sample_operation ''o1'' ''v1'');
       db2 = settle_environment sample_services 0 db1 (opn_env (sample_operation ''o1'' ''v1'')) in
    live_revision (opn_resource (sample_operation ''o1'' ''v1''), opn_env (sample_operation ''o1'' ''v1'')) (db_release db1) =
      Some (snap_revisionId (opn_input (sample_operation ''o1'' ''v1''))) \<and>
    bound_targets db1 (opn_resource (sample_operation ''o1'' ''v1'')) (opn_env (sample_operation ''o1'' ''v1'')) = [''g1''] \<and>
    operation_state db1 (opn_id (sample_operation ''o1'' ''v1'')) = Some OWaiting \<and>
    operation_state db2 (opn_id (sample_operation ''o1'' ''v1'')) =
      Some (if fleetApplied sample_services 0 db1 (opn_env (sample_operation ''o1'' ''v1'')) then OComplete else OWaiting)"
proof (rule ready_operation_completes [OF sample_ready])
  show "operation_state sample_db (opn_id (sample_operation ''o1'' ''v1'')) \<noteq> None" by code_simp
  show "list_all (\<lambda>p. opn_id p = opn_id (sample_operation ''o1'' ''v1'') \<longrightarrow> opn_env p = opn_env (sample_operation ''o1'' ''v1'')) (db_operation sample_db)"
    by code_simp
qed

text \<open>A withdrawal job whose gateways are there, running and free, done in one run.\<close>

definition removal_of :: "string \<Rightarrow> string \<Rightarrow> DB \<Rightarrow> JobRow \<Rightarrow> bool" where
  "removal_of resource environment db j \<longleftrightarrow> job_kind j = ''reconcile'' \<and> (case job_payload j of OtherJob _ \<Rightarrow> False
     | ReconcileJob p \<Rightarrow> rp_resourceId p = resource \<and> rp_releaseId p = None \<and> rp_intent p = Remove \<and>
         list_ex (\<lambda>t. tgt_id t = rp_targetId p) (gatewaysIn db environment))"

definition gateways_free :: "string \<Rightarrow> int \<Rightarrow> string \<Rightarrow> DB \<Rightarrow> bool" where
  "gateways_free holder nowMs environment db \<longleftrightarrow>
     list_all (\<lambda>g. \<not> tgt_paused g \<and> \<not> leased_by_other holder nowMs g) (gatewaysIn db environment)"

text \<open>Nothing of the API is published in the environment, or waits to be.\<close>

definition off_air :: "string \<Rightarrow> string \<Rightarrow> DB \<Rightarrow> bool" where
  "off_air resource environment db \<longleftrightarrow>
     list_all (\<lambda>r. \<not> (in_scope resource environment r \<and> rel_state r \<in> {Converged, Pending})) (db_release db) \<and>
     bound_targets db resource environment = [] \<and>
     list_all (\<lambda>a. \<not> (app_resource a = resource \<and> (app_target a, environment) \<in> set (gateways_of db))) (db_applied db) \<and>
     list_all (\<lambda>row. res_id (rr_resource row) \<noteq> resource) (route_rows db environment None)"

lemma no_route_without_release:
  assumes "list_all (\<lambda>r. \<not> (in_scope resource environment r \<and> rel_state r = Converged)) (db_release db)"
  shows "list_all (\<lambda>row. res_id (rr_resource row) \<noteq> resource) (route_rows db environment None)"
  unfolding list_all_iff
proof
  fix row assume "row \<in> set (route_rows db environment None)"
  then obtain rel where rel: "rel \<in> set (db_release db)" "rel_env rel = environment" "rel_state rel = Converged" "route_row db rel = Some row"
    by (auto simp: route_rows_def List.map_filter_def)
  then have "res_id (rr_resource row) = rel_resource rel" by (auto simp: route_row_def find_Some_iff split: option.splits)
  with assms rel show "res_id (rr_resource row) \<noteq> resource" by (auto simp: list_all_iff in_scope_def)
qed

lemma withdraw_off_air:
  assumes "db_release db' = db_release (withdraw resource environment db)" "db_applied db' = db_applied (withdraw resource environment db)"
    "db_route_gateway db' = db_route_gateway (withdraw resource environment db)" "gateways_of db' = gateways_of db"
  shows "off_air resource environment db'"
proof -
  have states: "list_all (\<lambda>r. \<not> (in_scope resource environment r \<and> rel_state r \<in> {Converged, Pending})) (db_release db')"
    unfolding assms(1) withdraw_tables
    by (auto simp: list_all_iff set_state_state state_map_scope [OF set_state_map] split: if_splits)
  moreover have "bound_targets db' resource environment = []"
    by (auto simp: bound_targets_def assms(3) withdraw_tables filter_empty_conv)
  moreover have "list_all (\<lambda>a. \<not> (app_resource a = resource \<and> (app_target a, environment) \<in> set (gateways_of db'))) (db_applied db')"
    by (auto simp: list_all_iff assms(2,4) withdraw_tables image_iff)
  moreover have "list_all (\<lambda>row. res_id (rr_resource row) \<noteq> resource) (route_rows db' environment None)"
    using states by (intro no_route_without_release) (auto simp: list_all_iff)
  ultimately show ?thesis by (simp add: off_air_def)
qed

lemma removal_reconciles:
  assumes inv: "release_inv db" and p: "rp_resourceId p = resource" "rp_releaseId p = None" "rp_intent p = Remove"
    and t: "t \<in> set (gatewaysIn db environment)" "tgt_id t = rp_targetId p" and free: "gateways_free (app_holder app) nowMs environment db"
    and env: "environment \<noteq> []"
  shows "fst (reconcile app nowMs p db) = Inr ''withdrawn'' \<and> off_air resource environment (snd (reconcile app nowMs p db))"
proof -
  have mem: "t \<in> set (db_target db)" "tgt_env t = environment" using t(1) by (auto simp: gatewaysIn_def)
  have find: "find (\<lambda>x. tgt_id x = rp_targetId p) (db_target db) = Some t"
  proof (cases "find (\<lambda>x. tgt_id x = rp_targetId p) (db_target db)")
    case None
    with mem t(2) show ?thesis by (auto simp: find_None_iff)
  next
    case (Some x)
    then have x: "x \<in> set (db_target db)" "tgt_id x = rp_targetId p" by (auto simp: find_Some_iff)
    have "inj_on tgt_id (set (db_target db))" using inv by (simp add: release_inv_def distinct_map)
    then have "x = t" by (rule inj_onD) (use x mem(1) t(2) in simp_all)
    with Some show ?thesis by simp
  qed
  have "list_ex (\<lambda>x. tgt_id x = rp_targetId p) (db_target db)" using mem(1) t(2) by (auto simp: list_ex_iff)
  moreover have "\<not> list_ex tgt_paused (affected_gateways db p environment)"
    using free by (auto simp: affected_gateways_def Let_def list_ex_iff gateways_free_def list_all_iff)
  moreover have "\<not> leased_by_other (app_holder app) nowMs t" using free t(1) by (auto simp: gateways_free_def list_all_iff)
  moreover have "payload_environment db p = Some environment" using find mem(2) by (simp add: payload_environment_def)
  ultimately have run: "reconcile app nowMs p db = (Inr ''withdrawn'', release_own_lease (rp_targetId p) (app_holder app)
      (withdraw resource environment (set_lease (rp_targetId p) (Some (app_holder app)) (Some (toISOString (nowMs + 30000))) db)))"
    using find p env by (simp add: reconcile_def withTargetLease_def Let_def)
  show ?thesis unfolding run fst_conv snd_conv
    by (intro conjI refl withdraw_off_air [where db = "set_lease (rp_targetId p) (Some (app_holder app)) (Some (toISOString (nowMs + 30000))) db"])
      (simp_all add: frame)
qed

lemma off_air_cong:
  assumes "db_release db' = db_release db" "db_applied db' = db_applied db" "db_route_gateway db' = db_route_gateway db" "gateways_of db' = gateways_of db"
  shows "off_air resource environment db \<Longrightarrow> off_air resource environment db'"
  using assms no_route_without_release [of resource environment db'] by (auto simp: off_air_def bound_targets_def list_all_iff)

lemma set_job_mem: "x \<in> set (db_job db) \<Longrightarrow> job_id x = i \<Longrightarrow> f x \<in> set (db_job (set_job i f db))"
proof -
  assume x: "x \<in> set (db_job db)" "job_id x = i"
  have "db_job (set_job i f db) = map (\<lambda>j. if job_id j = i then f j else j) (db_job db)" by (simp add: set_job_def)
  then show ?thesis unfolding set_map using x by (auto intro!: rev_image_eqI [OF x(1)])
qed

lemma removal_runs:
  assumes inv: "release_inv db" and j: "j \<in> set (db_job db)" "removal_of resource environment db j"
    and free: "gateways_free (app_holder app) nowMs environment db" and env: "environment \<noteq> []"
  shows "list_ex (\<lambda>j'. job_id j' = job_id j \<and> job_state j' = JDone) (db_job (run_job app ok nowMs db j)) \<and>
    off_air resource environment (run_job app ok nowMs db j)"
proof -
  define db1 where "db1 = set_job (job_id j) (\<lambda>j. j\<lparr>job_state := JRunning, job_attempts := job_attempts j + 1, job_updated_at := toISOString nowMs\<rparr>) db"
  have inv1: "release_inv db1" unfolding db1_def by (rule set_job_inv [OF inv]) simp
  have targets: "db_target db1 = db_target db" by (simp add: db1_def set_job_def)
  from j(2) obtain p t where p: "job_payload j = ReconcileJob p" "job_kind j = ''reconcile''" "rp_resourceId p = resource" "rp_releaseId p = None"
      "rp_intent p = Remove" and t: "t \<in> set (gatewaysIn db environment)" "tgt_id t = rp_targetId p"
    by (auto simp: removal_of_def list_ex_iff split: job_payload.splits)
  have t1: "t \<in> set (gatewaysIn db1 environment)" and free1: "gateways_free (app_holder app) nowMs environment db1"
    using t(1) free by (simp_all add: gatewaysIn_def gateways_free_def targets)
  obtain db2 where r: "reconcile app nowMs p db1 = (Inr ''withdrawn'', db2)" and off: "off_air resource environment db2"
    using removal_reconciles [OF inv1 p(3,4,5) t1 t(2) free1 env] by (cases "reconcile app nowMs p db1") auto
  have run: "run_job app ok nowMs db j = set_job (job_id j) (\<lambda>j. j\<lparr>job_state := JDone, job_result := Some ''withdrawn'', job_updated_at := toISOString nowMs\<rparr>) db2"
    unfolding run_job_def Let_def db1_def [symmetric] by (simp add: run_payload_def p r)
  have "db_job db2 = db_job db1" using reconcile_effect(1) [of app nowMs p db1] r by simp
  then have "map job_id (db_job db2) = map job_id (db_job db)" by (simp add: db1_def set_job_def)
  then have "job_id j \<in> set (map job_id (db_job db2))" using j(1) by simp
  then obtain x where "x \<in> set (db_job db2)" "job_id x = job_id j" by auto
  from set_job_mem [OF this] have "list_ex (\<lambda>j'. job_id j' = job_id j \<and> job_state j' = JDone) (db_job (run_job app ok nowMs db j))"
    unfolding run list_ex_iff by (rule bexI [rotated]) (simp add: \<open>job_id x = job_id j\<close>)
  moreover have "off_air resource environment (run_job app ok nowMs db j)"
    unfolding run by (rule off_air_cong [OF _ _ _ _ off]) (simp_all add: frame)
  ultimately show ?thesis ..
qed

lemma enqueueJob_adds:
  "db_job (snd (enqueueJob jid s k p key db)) = db_job db \<or>
   (\<exists>j. db_job (snd (enqueueJob jid s k p key db)) = db_job db @ [j] \<and> job_kind j = k \<and> job_payload j = p)"
proof (cases "case key of None \<Rightarrow> None | Some k \<Rightarrow> if k = [] then None else find (\<lambda>j. job_key j = Some k) (db_job db)")
  case None
  then have "db_job (snd (enqueueJob jid s k p key db)) = db_job db @ [\<lparr>job_id = jid, job_kind = k, job_state = JQueued, job_payload = p,
          job_key = key, job_attempts = 0, job_result = None, job_next_attempt_at = None, job_created_at = s, job_updated_at = s\<rparr>]"
    by (simp add: enqueueJob_def)
  then show ?thesis by (intro disjI2 exI conjI, assumption) simp_all
qed (simp add: enqueueJob_def)

text \<open>C13: Progress of a withdrawal. When a request to withdraw is accepted and queues its job, the first run of that job on running
  gateways that no other process holds is done, and then nothing of the API is live or waiting in the environment, it is bound to
  no gateway, no gateway is recorded as having it, and the configuration has no route for it.\<close>

theorem withdrawal_ends_publication:
  assumes "release_inv db" "request_withdraw app user jid t resource environment db = Inr db1" "length (db_job db1) \<noteq> length (db_job db)"
    and "gateways_free (app_holder app) nowMs environment db" "environment \<noteq> []"
  shows "list_ex (\<lambda>j. removal_of resource environment db1 j \<and>
      list_ex (\<lambda>j'. job_id j' = job_id j \<and> job_state j' = JDone) (db_job (run_job app ok nowMs db1 j)) \<and>
      off_air resource environment (run_job app ok nowMs db1 j)) (db_job db1)"
proof -
  from assms(2) obtain target where t: "target \<in> set (gatewaysIn db environment)"
    and db1: "db1 = writeAudit (usr_id user) ''release.withdraw'' (''resource:'' @ resource) True
      (snd (enqueueJob jid (toISOString t) ''reconcile'' (ReconcileJob \<lparr>rp_targetId = tgt_id target, rp_resourceId = resource,
        rp_releaseId = None, rp_planId = None, rp_intent = Remove, rp_environment = Some environment\<rparr>)
        (Some (''reconcile:remove:'' @ tgt_id target @ '':'' @ resource @ '':'' @ show_nat (nat t))) db))"
    by (auto simp: request_withdraw_def split: option.splits if_splits list.splits)
  have targets: "db_target db1 = db_target db" by (auto simp: db1 enqueueJob_def split: option.split)
  define p where "p = ReconcileJob \<lparr>rp_targetId = tgt_id target, rp_resourceId = resource,
    rp_releaseId = None, rp_planId = None, rp_intent = Remove, rp_environment = Some environment\<rparr>"
  define key where "key = Some (''reconcile:remove:'' @ tgt_id target @ '':'' @ resource @ '':'' @ show_nat (nat t))"
  have jobs: "db_job db1 = db_job (snd (enqueueJob jid (toISOString t) ''reconcile'' p key db))" by (simp add: db1 p_def key_def)
  obtain j where "db_job db1 = db_job db @ [j]" and kind: "job_kind j = ''reconcile''" "job_payload j = p"
    using assms(3) enqueueJob_adds [of jid "toISOString t" "''reconcile''" p key db] unfolding jobs by metis
  then have j: "j \<in> set (db_job db1)" "job_kind j = ''reconcile''" "job_payload j = p" by simp_all
  have removal: "removal_of resource environment db1 j"
    using t j(2,3) by (auto simp: p_def removal_of_def list_ex_iff gatewaysIn_def targets)
  have free: "gateways_free (app_holder app) nowMs environment db1" using assms(4) by (simp add: gateways_free_def gatewaysIn_def targets)
  have "release_inv db1" by (rule request_withdraw_inv [OF assms(1,2)])
  from removal_runs [OF this j(1) removal free assms(5)] j(1) removal show ?thesis by (auto simp: list_ex_iff)
qed

abbreviation sample_live :: DB where
  "sample_live \<equiv> run_operation sample_services ''rel1'' 0 sample_db (sample_operation ''o1'' ''v1'')"

lemma sample_live_tables: "db_resource sample_live = db_resource sample_db" "db_target sample_live = db_target sample_db" "db_job sample_live = []"
  "release_inv sample_live"
proof -
  from apply_operation_ready [OF sample_ready [of 0]] obtain dig f where run: "sample_live =
     set_operation (opn_id (sample_operation ''o1'' ''v1'')) (\<lambda>o'. o'\<lparr>opn_state := OWaiting, opn_error := None, opn_result := f, opn_updated_at := toISOString 0\<rparr>)
       (drop_applied (opn_resource (sample_operation ''o1'' ''v1'')) (opn_env (sample_operation ''o1'' ''v1'')) [''g1'']
         (record_applied (opn_resource (sample_operation ''o1'' ''v1'')) (snap_revisionId (opn_input (sample_operation ''o1'' ''v1''))) dig (toISOString 0) [''g1'']
           (placed_db ''rel1'' 0 (sample_operation ''o1'' ''v1'') [''g1''] (sample_revision ''v1'' 1) sample_db)))" by blast
  note defs = set_operation_def drop_applied_def record_applied_def placed_db_def publish_row_def freeze_def insert_release_def set_release_def
    write_policy_def place_operation_def Let_def
  show "db_resource sample_live = db_resource sample_db" "db_target sample_live = db_target sample_db" unfolding run by (simp_all add: defs)
  have "db_job sample_live = db_job sample_db" unfolding run by (simp add: defs)
  then show "db_job sample_live = []" by (simp add: sample_db_def empty_db_def)
  show "release_inv sample_live" by (rule releases.reachable_inv [OF sample_nothing sample_run])
qed

theorem withdrawal_ends_publication_witness:
  "case request_withdraw (spn_app sample_services) owner ''j1'' 0 ''r1'' ''dev'' sample_live of Inl _ \<Rightarrow> False
   | Inr db1 \<Rightarrow> list_ex (\<lambda>j. removal_of ''r1'' ''dev'' db1 j \<and>
        list_ex (\<lambda>j'. job_id j' = job_id j \<and> job_state j' = JDone) (db_job (run_job (spn_app sample_services) (\<lambda>_. True) 0 db1 j)) \<and>
        off_air ''r1'' ''dev'' (run_job (spn_app sample_services) (\<lambda>_. True) 0 db1 j)) (db_job db1)"
proof -
  have "gatewaysIn sample_db ''dev'' = [sample_gateway ''g1'' ''dev'']" by (simp add: gatewaysIn_def sample_db_def sample_gateway_def)
  then have gw: "gatewaysIn sample_live ''dev'' = [sample_gateway ''g1'' ''dev'']" by (simp only: gatewaysIn_def sample_live_tables)
  have "getResource sample_db ''r1'' = Some (hd (db_resource sample_db))" "res_application (hd (db_resource sample_db)) = ''orders''"
    by (simp_all add: getResource_def sample_db_def)
  then have row: "getResource sample_live ''r1'' = Some (hd (db_resource sample_db))" "can (Some owner) (Some (res_application (hd (db_resource sample_db))))"
    by (simp_all add: getResource_def sample_live_tables can_def owner_def)
  have chain: "''dev'' \<in> set (app_chain (spn_app sample_services))" by (simp add: sample_services_def)
  obtain db1 where req: "request_withdraw (spn_app sample_services) owner ''j1'' 0 ''r1'' ''dev'' sample_live = Inr db1" and jobs: "length (db_job db1) = 1"
    by (simp add: request_withdraw_def row chain gw enqueueJob_def sample_live_tables)
  have free: "gateways_free (app_holder (spn_app sample_services)) 0 ''dev'' sample_live"
    by (simp add: gateways_free_def gw sample_gateway_def leased_by_other_def)
  have "length (db_job db1) \<noteq> length (db_job sample_live)" by (simp add: jobs sample_live_tables)
  from withdrawal_ends_publication [OF sample_live_tables(4) req this free] show ?thesis unfolding req by simp
qed

end
