(* ===== verification/SpineChecks.thy ===== *)
theory SpineChecks
  imports ReleaseSystem
begin

declare map_of_eq_Some_iff [simp del] Some_eq_map_of_iff [simp del]

text \<open>
  What the requests of the operation spine guarantee about what they queue: the settings a snapshot may hold, one operation per
  idempotency key, no lost update between two configures, no two APIs at one address, and where the product of a first publish
  gets its name.
\<close>

section \<open>The policy of a snapshot\<close>

lemma foldl_managed_get:
  "u \<notin> set (map fst managed) \<Longrightarrow> map_of (foldl (\<lambda>doc (u, v). doc_set u v doc) policy managed) u = map_of policy u"
  by (induction managed arbitrary: policy) (auto simp: doc_set_get)

lemma settled_policy_parts:
  assumes "settled_policy host user kind wide sent defaults managed = Inr final"
  shows "validateDocument host final (Some kind) False = []"
    and "list_all (\<lambda>(u, v). map_of managed u \<noteq> None \<or> \<not> namesPlatformRef v) final"
    and "\<not> usr_isAdmin user \<Longrightarrow> ''auth.subscriptionKey'' \<notin> set (map fst managed) \<Longrightarrow>
      map_of final ''auth.subscriptionKey'' = Some (key_before (case defaults of Some p \<Rightarrow> p | None \<Rightarrow> []))"
    and "sent \<noteq> None \<Longrightarrow> u \<in> set (mkeys wide) \<Longrightarrow> map_of (case defaults of Some p \<Rightarrow> p | None \<Rightarrow> []) u \<noteq> None \<Longrightarrow>
      u \<notin> set (map fst managed) \<Longrightarrow> map_of final u \<noteq> None"
proof -
  note s = assms [unfolded settled_policy_def Let_def bad_def]
  have no_ref: "list_all (\<lambda>(u, v). map_of managed u \<noteq> None \<or> \<not> namesPlatformRef v) rows \<longleftrightarrow>
      \<not> list_ex (\<lambda>(u, v). map_of managed u = None \<and> namesPlatformRef v) rows" for rows
    by (auto simp: list_all_iff list_ex_iff)
  show "validateDocument host final (Some kind) False = []" using s by (auto split: if_splits)
  show "list_all (\<lambda>(u, v). map_of managed u \<noteq> None \<or> \<not> namesPlatformRef v) final" unfolding no_ref using s by (auto split: if_splits)
  show "map_of final ''auth.subscriptionKey'' = Some (key_before (case defaults of Some p \<Rightarrow> p | None \<Rightarrow> []))"
    if "\<not> usr_isAdmin user" "''auth.subscriptionKey'' \<notin> set (map fst managed)"
    using s that by (auto simp: foldl_managed_get doc_set_get split: if_splits)
  show "map_of final u \<noteq> None" if "sent \<noteq> None" "u \<in> set (mkeys wide)" "map_of (case defaults of Some p \<Rightarrow> p | None \<Rightarrow> []) u \<noteq> None"
    "u \<notin> set (map fst managed)"
    using s that unfolding list_ex_iff by (auto simp: foldl_managed_get split: if_splits)
qed

lemma settled_policy_managed:
  "settled_policy host user kind wide sent defaults managed = Inr final \<Longrightarrow> \<exists>policy. final = foldl (\<lambda>doc (u, v). doc_set u v doc) policy managed"
  by (auto simp: settled_policy_def Let_def bad_def split: if_splits)

section \<open>What settings accepts\<close>

lemma readGateways_known:
  assumes "readGateways db environment requested = Inr names"
  shows "names \<noteq> [] \<and> set names \<subseteq> set (map tgt_name (gatewaysIn db environment))"
proof (cases requested)
  case None
  with assms show ?thesis by (auto simp: readGateways_def Let_def bad_def split: if_splits)
next
  case (Some raw)
  define names0 where "names0 = remdups (filter (\<lambda>n. n \<noteq> []) (map js_trim raw))"
  from assms Some have ok: "names0 \<noteq> []" "list_all (\<lambda>n. n \<in> set (map tgt_name (gatewaysIn db environment))) names0" "names = sort names0"
    by (simp_all add: readGateways_def Let_def bad_def names0_def [symmetric] list_ex_iff list_all_iff split: if_splits)
  then show ?thesis unfolding ok(3) set_sort by (auto simp: list_all_iff) (metis length_0_conv length_sort)
qed

text \<open>C15: What a queued snapshot guarantees, whoever sent it. Its path is the domain's prefix or lies under it; its certificate,
  if it names one, is of this environment, still valid and of the API's own application; its policy is a valid document that names
  the portal's own credential only in units the platform manages; a user who is not an administrator leaves the subscription
  key unit as it was; and it names at least one gateway, each of them a gateway of the environment.\<close>

theorem accepted_settings_safe:
  assumes "settings sp req db body kind environment (domain, subdomain) apiVersion defaults managed = Inr s"
  shows "(case given domain of None \<Rightarrow> True | Some d \<Rightarrow>
       snap_basePath s = domainPrefix d subdomain \<or> starts_with (domainPrefix d subdomain @ ''/'') (snap_basePath s)) \<and>
    (case client_cert_of (snap_backend s) of None \<Rightarrow> True
       | Some ref \<Rightarrow> certificate_refused req db environment (pi_applicationId body) ref = None \<and>
           map_of (db_certificate_owner db) ref = Some (pi_applicationId body)) \<and>
    validateDocument (svc_host (app_svc (spn_app sp))) (snap_policy s) (Some kind) False = [] \<and>
    list_all (\<lambda>(u, v). map_of managed u \<noteq> None \<or> \<not> namesPlatformRef v) (snap_policy s) \<and>
    (if usr_isAdmin (spr_user req) \<or> list_ex (\<lambda>(u, _). u = ''auth.subscriptionKey'') managed then True
     else map_of (snap_policy s) ''auth.subscriptionKey'' = Some (key_before (case defaults of None \<Rightarrow> [] | Some d \<Rightarrow> snap_policy d))) \<and>
    (case snap_gateways s of None \<Rightarrow> False
       | Some names \<Rightarrow> names \<noteq> [] \<and> list_all (\<lambda>n. list_ex (\<lambda>t. tgt_name t = n) (gatewaysIn db environment)) names)"
proof -
  obtain host host_error where h: "normalizeHost (case pi_host body of Some h \<Rightarrow> Some h
             | None \<Rightarrow> (case defaults of Some d \<Rightarrow> Some (snap_host d) | None \<Rightarrow> Some ''*'')) = (host, host_error)" by fastforce
  define place where "place = normalizeBasePath (Some (requested_path body domain subdomain apiVersion (map_option snap_basePath defaults)))"
  note s = assms [unfolded settings_def prod.case h place_def [symmetric] Let_def bad_def]
  from s have inside: "\<not> outside_domain domain subdomain (nbp_basePath place)" by (auto split: if_splits)
  from s obtain base where base: "requested_backend sp db environment body (map_option snap_backend defaults) = Inr base"
    by (auto split: if_splits sum.splits)
  define backend where "backend = (case pi_clientCertRef body of Some ref \<Rightarrow> with_client_cert (given ref) base | None \<Rightarrow> base)"
  note s1 = s [unfolded base sum.case backend_def [symmetric]]
  have cert: "(case client_cert_of backend of None \<Rightarrow> None | Some ref \<Rightarrow> certificate_refused req db environment (pi_applicationId body) ref) = None"
    using s1 by (cases "case client_cert_of backend of None \<Rightarrow> None | Some ref \<Rightarrow> certificate_refused req db environment (pi_applicationId body) ref")
      (auto split: if_splits)
  note s2 = s1 [unfolded cert option.case]
  from s2 obtain policy where policy: "settled_policy (svc_host (app_svc (spn_app sp))) (spr_user req) kind (inheritedUnits db environment)
       (pi_policy body) (map_option snap_policy defaults) managed = Inr policy" by (auto split: if_splits sum.splits)
  from s2 obtain gateways where gw: "readGateways db environment (case pi_gateways body of Some g \<Rightarrow> Some g
       | None \<Rightarrow> (case defaults of Some d \<Rightarrow> snap_gateways d | None \<Rightarrow> None)) = Inr gateways" by (auto simp: policy split: if_splits sum.splits)
  from s2 have parts: "snap_basePath s = nbp_basePath place" "snap_backend s = backend" "snap_policy s = policy" "snap_gateways s = Some gateways"
    by (auto simp: policy gw split: if_splits)
  have path: "case given domain of None \<Rightarrow> True | Some d \<Rightarrow>
       snap_basePath s = domainPrefix d subdomain \<or> starts_with (domainPrefix d subdomain @ ''/'') (snap_basePath s)"
    using inside by (auto simp: parts outside_domain_def Let_def split: option.splits)
  have owned: "case client_cert_of (snap_backend s) of None \<Rightarrow> True
       | Some ref \<Rightarrow> certificate_refused req db environment (pi_applicationId body) ref = None \<and>
           map_of (db_certificate_owner db) ref = Some (pi_applicationId body)"
    using cert by (auto simp: parts certificate_refused_def split: option.splits if_splits prod.splits)
  have old: "(case map_option snap_policy defaults of Some p \<Rightarrow> p | None \<Rightarrow> []) = (case defaults of None \<Rightarrow> [] | Some d \<Rightarrow> snap_policy d)"
    by (cases defaults) simp_all
  have "''auth.subscriptionKey'' \<notin> set (map fst managed)" if "\<not> list_ex (\<lambda>(u, _). u = ''auth.subscriptionKey'') managed"
    using that by (auto simp: list_ex_iff)
  then have key: "if usr_isAdmin (spr_user req) \<or> list_ex (\<lambda>(u, _). u = ''auth.subscriptionKey'') managed then True
     else map_of (snap_policy s) ''auth.subscriptionKey'' = Some (key_before (case defaults of None \<Rightarrow> [] | Some d \<Rightarrow> snap_policy d))"
    using settled_policy_parts(3) [OF policy] unfolding parts old by simp
  have gws: "gateways \<noteq> []" "list_all (\<lambda>n. list_ex (\<lambda>t. tgt_name t = n) (gatewaysIn db environment)) gateways"
    using readGateways_known [OF gw] by (auto simp: list_all_iff list_ex_iff)
  show ?thesis using path owned key gws settled_policy_parts(1,2) [OF policy] by (simp add: parts)
qed

definition sample_request :: "User \<Rightarrow> string \<Rightarrow> int \<Rightarrow> Request" where
  "sample_request user key nowMs = \<lparr>spr_user = user, spr_idempotencyKey = Some key, spr_ifMatch = Some ''*'', spr_digest = key, spr_sha = id,
     spr_nowMs = nowMs, spr_operationId = ''op-'' @ key, spr_subscriptionId = ''sub1'', spr_key_enc = ''enc''\<rparr>"

definition sample_body :: PublishInput where
  "sample_body = \<lparr>pi_applicationId = ''orders'', pi_name = ''stock'', pi_apiVersion = None, pi_kind = Rest, pi_productId = None, pi_productName = None,
     pi_host = None, pi_basePath = None, pi_backendUrl = Some ''https://203.0.113.9'', pi_pool = JObj [], pi_clientCertRef = None, pi_policy = None,
     pi_gateways = None, pi_environment = None, pi_domain = Some ''IT'', pi_subdomain = None\<rparr>"

definition idle_db :: DB where
  "idle_db = sample_db\<lparr>db_operation := []\<rparr>"

definition sample_settings :: Snapshot where
  "sample_settings = \<lparr>snap_revisionId = [], snap_host = ''*'', snap_basePath = ''/it/stock/v1'',
     snap_backend = JObj [(''pool'', JArr [JObj [(''url'', JStr ''https://203.0.113.9'')]]), (''rule'', JStr ''failover'')],
     snap_policy = DEFAULT_POLICY, snap_gateways = Some [''managed''], snap_sourceOperationId = None, snap_sourceEnvironment = None,
     snap_requestDigest = Some ''k1''\<rparr>"

lemma sample_settings_accepted:
  "settings sample_services (sample_request owner ''k1'' nowMs) idle_db sample_body Rest ''dev'' (Some ''IT'', None) ''v1'' None [] = Inr sample_settings"
  by code_simp

theorem accepted_settings_safe_witness:
  "(case given (Some ''IT'') of None \<Rightarrow> True | Some d \<Rightarrow>
       snap_basePath sample_settings = domainPrefix d None \<or> starts_with (domainPrefix d None @ ''/'') (snap_basePath sample_settings)) \<and>
    (case client_cert_of (snap_backend sample_settings) of None \<Rightarrow> True
       | Some ref \<Rightarrow> certificate_refused (sample_request owner ''k1'' 0) idle_db ''dev'' (pi_applicationId sample_body) ref = None \<and>
           map_of (db_certificate_owner idle_db) ref = Some (pi_applicationId sample_body)) \<and>
    validateDocument (svc_host (app_svc (spn_app sample_services))) (snap_policy sample_settings) (Some Rest) False = [] \<and>
    list_all (\<lambda>(u, v). map_of [] u \<noteq> (None :: jsval option) \<or> \<not> namesPlatformRef v) (snap_policy sample_settings) \<and>
    (if usr_isAdmin (spr_user (sample_request owner ''k1'' 0)) \<or> list_ex (\<lambda>(u, _). u = ''auth.subscriptionKey'') ([] :: document) then True
     else map_of (snap_policy sample_settings) ''auth.subscriptionKey'' = Some (key_before (case (None :: Snapshot option) of None \<Rightarrow> [] | Some d \<Rightarrow> snap_policy d))) \<and>
    (case snap_gateways sample_settings of None \<Rightarrow> False
       | Some names \<Rightarrow> names \<noteq> [] \<and> list_all (\<lambda>n. list_ex (\<lambda>t. tgt_name t = n) (gatewaysIn idle_db ''dev'')) names)"
  by (rule accepted_settings_safe [OF sample_settings_accepted])

section \<open>One operation per idempotency key\<close>

lemma queue_operations: "db_operation (queue req key app resource environment kind snapshot db) = db_operation db @
   [\<lparr>opn_id = spr_operationId req, opn_application = app, opn_actor = usr_id (spr_user req), opn_kind = kind, opn_resource = resource,
     opn_env = environment, opn_state = OQueued, opn_input = snapshot, opn_result = None, opn_error = None, opn_attempts = 0,
     opn_next_attempt_at = None, opn_created_at = toISOString (spr_nowMs req), opn_updated_at = toISOString (spr_nowMs req), opn_key = key\<rparr>]"
  by (simp add: queue_def Let_def freeze_def)

text \<open>The requests change the operation table only by appending the operation they queue.\<close>

lemma writeRevision_operations: "writeRevision newRev actor stamp resource source db = Inr db' \<Longrightarrow> db_operation db' = db_operation db"
  by (auto simp: writeRevision_def Let_def bad_def touch_def store_artifact_def split: if_splits option.splits prod.splits)

lemma chosen_product_operations: "chosen_product pid body db = Chosen p db' \<Longrightarrow> db_operation db' = db_operation db"
  by (auto simp: chosen_product_def ownProductFor_def insert_product_def split: if_splits option.splits prod.splits)

lemma settings_fields:
  assumes "settings sp req db body kind environment taxonomy apiVersion defaults managed = Inr s"
  shows "snap_requestDigest s = Some (spr_digest req)"
  using assms by (cases taxonomy) (auto simp: settings_def Let_def bad_def split: if_splits sum.splits option.splits prod.splits)

text \<open>The operation a request has queued is the one its retry meets, and the same key with another digest is refused.\<close>

definition retried :: "Request \<Rightarrow> DB \<Rightarrow> DB \<Rightarrow> bool" where
  "retried req db db' \<longleftrightarrow> length (db_operation db') = length (db_operation db) + 1 \<and>
     (case repeated req db' of Inr (Some row) \<Rightarrow> row = last (db_operation db') \<and> opn_id row = spr_operationId req | _ \<Rightarrow> False)"

lemma queue_retried:
  assumes key: "requested_key req = Inr key" and new: "repeated req db = Inr None"
    and "db_operation db1 = db_operation db" "snap_requestDigest snapshot = Some (spr_digest req)"
  shows "retried req db (queue req key app resource environment kind snapshot db1)"
proof -
  from new key have "find (\<lambda>q. opn_key q = key) (db_operation db) = None"
    by (auto simp: repeated_def conflicting_def split: option.splits if_splits)
  then show ?thesis by (simp add: retried_def repeated_def key queue_operations assms(3,4) find_append)
qed

lemma publish_retried:
  assumes "publishResource sp req ids source body db = Some (Inr (QueuedOperation db'))"
  shows "retried req db db'"
proof -
  from assms obtain config taxonomy src where prep: "prepare_publish sp req source body db = Inr (Inr (config, taxonomy, src))"
    and com: "commit_publish sp req ids body (config, taxonomy, src) db = Some (Inr (QueuedOperation db'))"
    by (auto simp: publishResource_def split: sum.splits)
  from prep have dig: "snap_requestDigest config = Some (spr_digest req)" and new: "repeated req db = Inr None"
    by (auto simp: prepare_publish_def bad_def dest: settings_fields split: sum.splits option.splits if_splits prod.splits)
  note a = com [unfolded commit_publish_def Let_def prod.case conflicting_def bad_def]
  from a obtain pid db1 where c: "chosen_product (nid_product ids) body db = Chosen pid db1"
    by (auto split: sum.splits option.splits if_splits choice.splits)
  from a obtain db2 where w: "writeRevision (nid_revision ids) (usr_id (spr_user req)) (toISOString (spr_nowMs req)) (nid_resource ids) src
       (db1\<lparr>db_resource := db_resource db1 @ [new_resource req (nid_resource ids) body taxonomy]\<rparr>) = Inr db2"
    by (auto simp: c split: sum.splits option.splits if_splits)
  from a obtain key v where k: "requested_key req = Inr key" "latest_revision db2 (nid_resource ids) = Some v"
    by (auto simp: c w split: sum.splits option.splits if_splits)
  from a have d: "db' = queue req key (pi_applicationId body) (nid_resource ids) (hd (app_chain (spn_app sp))) ''publish'' (config\<lparr>snap_revisionId := rev_id v\<rparr>)
       (db2\<lparr>db_product_member := db_product_member db2 @ [(pid, nid_resource ids)]\<rparr>)"
    by (simp add: c w k split: sum.splits option.splits if_splits)
  have "db_operation (db2\<lparr>db_product_member := m\<rparr>) = db_operation db" for m
    using chosen_product_operations [OF c] writeRevision_operations [OF w] by simp
  then show ?thesis unfolding d by (intro queue_retried [OF k(1) new]) (simp_all add: dig)
qed

lemma configure_retried:
  assumes "configureResource sp req newRev row src body db = Inr (QueuedOperation db')"
  shows "retried req db db'"
proof -
  from assms obtain p where prep: "prepare_configure sp req row src body db = Inr (Inr p)"
    and com: "commit_configure sp req newRev row body p db = Inr db'"
    by (auto simp: configureResource_def split: sum.splits)
  from prep have dig: "snap_requestDigest (prp_config p) = Some (spr_digest req)" and new: "repeated req db = Inr None"
    by (auto simp: prepare_configure_def conflicting_def dest!: settings_fields split: sum.splits option.splits if_splits prod.splits)
  from com obtain key revision db1 where k: "requested_key req = Inr key"
    and n: "new_revision newRev req (res_id row) (prp_source p) (snap_revisionId (prp_config p)) db = Inr (revision, db1)"
    and d: "db' = queue req key (res_application row) (res_id row) (prp_environment p) ''configure'' ((prp_config p)\<lparr>snap_revisionId := revision\<rparr>)
      (remember_override sp (res_id row) (prp_environment p) (pi_policy body) (classify req (res_id row) (prp_taxonomy p) db1))"
    by (auto simp: commit_configure_def conflicting_def split: option.splits if_splits sum.splits prod.splits)
  have "db_operation db1 = db_operation db"
    using n writeRevision_operations by (auto simp: new_revision_def bad_def split: option.splits sum.splits)
  then have "db_operation (remember_override sp r e pol (classify req r t db1)) = db_operation db" for r e pol t
    by (simp add: remember_override_def classify_def split: option.split)
  then show ?thesis unfolding d by (intro queue_retried [OF k new]) (simp_all add: dig)
qed

lemma arrived_operations: "arrived req row environment db = Inr db' \<Longrightarrow> db_operation db' = db_operation db"
  by (auto simp: arrived_def ensurePlatformSubscription_def Let_def bad_def split: if_splits option.splits prod.splits)

lemma promote_retried:
  assumes "promoteResource sp req binding row body db = Inr (QueuedOperation db')"
  shows "retried req db db'"
proof -
  from assms obtain environment config where prep: "prepare_promote sp req binding row body db = Inr (Inr (environment, config))"
    and com: "commit_promote req row (environment, config) db = Inr db'"
    by (auto simp: promoteResource_def split: sum.splits)
  from prep have dig: "snap_requestDigest config = Some (spr_digest req)" and new: "repeated req db = Inr None"
    by (auto simp: prepare_promote_def conflicting_def bad_def Let_def dest!: settings_fields split: sum.splits option.splits if_splits prod.splits list.splits)
  from com obtain key db1 where k: "requested_key req = Inr key" and ar: "arrived req row environment db = Inr db1"
    and d: "db' = queue req key (res_application row) (res_id row) environment ''promote'' config db1"
    by (auto simp: commit_promote_def conflicting_def split: if_splits sum.splits)
  show ?thesis unfolding d by (intro queue_retried [OF k new]) (simp_all add: dig arrived_operations [OF ar])
qed

text \<open>A command is queued once. When a publish, a configure or a promotion is accepted, the operation table has gained exactly
  its operation, a retry under the same key and digest is answered with that operation, and the same key with another digest is a
  conflict.\<close>

lemma command_queued_once:
  assumes "publishResource sp req ids source body db = Some (Inr (QueuedOperation db')) \<or>
    configureResource sp req newRev row src body db = Inr (QueuedOperation db') \<or>
    promoteResource sp req binding row body db = Inr (QueuedOperation db')"
  shows "retried req db db' \<and> (if d = spr_digest req then True else repeated (req\<lparr>spr_digest := d\<rparr>) db' = conflicting)"
proof -
  have r: "retried req db db'" using assms by (elim disjE) (erule publish_retried configure_retried promote_retried)+
  then obtain q where q: "repeated req db' = Inr (Some q)" by (auto simp: retried_def split: sum.splits option.splits)
  then obtain key where k: "requested_key req = Inr key" "find (\<lambda>p. opn_key p = key) (db_operation db') = Some q"
      "snap_requestDigest (opn_input q) = Some (spr_digest req)"
    by (auto simp: repeated_def conflicting_def split: sum.splits option.splits if_splits)
  have "requested_key (req\<lparr>spr_digest := d\<rparr>) = Inr key" using k(1) by (auto simp: requested_key_def split: option.splits)
  then show ?thesis using r k by (auto simp: repeated_def)
qed

definition sample_ids :: new_ids where
  "sample_ids = \<lparr>nid_resource = ''r2'', nid_revision = ''v3'', nid_product = ''p1''\<rparr>"

definition sample_source :: RevisionSource where
  "sample_source = \<lparr>rsc_digest = ''d1'', rsc_model = \<lparr>am_operations = [], am_soap12 = None, am_mcpProtocolVersion = None, am_a2aCard = None\<rparr>,
     rsc_compiled = Some (None, [])\<rparr>"

lemma sample_publish_accepted:
  "\<exists>db'. publishResource sample_services (sample_request owner ''k1'' nowMs) sample_ids (Inr sample_source) sample_body idle_db = Some (Inr (QueuedOperation db'))"
proof -
  let ?req = "sample_request owner ''k1'' nowMs"
  have checks: "repeated ?req idle_db = Inr None" "can (Some (spr_user ?req)) (Some (pi_applicationId sample_body))"
    "map_of (db_application idle_db) (pi_applicationId sample_body) \<noteq> None" "name_shape (pi_name sample_body)" "API_VERSION_PATTERN ''v1''"
    "given (pi_productName sample_body) = None" "readTaxonomy sample_body None None = Inr (''IT'', None)" "requested_key ?req = Inr ''ada:k1''"
    "assertRouteFree idle_db ''r2'' ''dev'' ''*'' ''/it/stock/v1''"
    "hd (app_chain (spn_app sample_services)) = ''dev''" "publish_version sample_body = ''v1''" "pi_kind sample_body = Rest"
    "\<not> list_ex (\<lambda>r. res_application r = pi_applicationId sample_body \<and> res_name r = pi_name sample_body \<and> res_api_version r = ''v1'') (db_resource idle_db)"
    by code_simp+
  have product: "chosen_product ''p1'' sample_body idle_db = Chosen ''p1'' (insert_product ''p1'' ''stock'' ''orders'' idle_db)"
    by code_simp
  have fields: "nid_resource sample_ids = ''r2''" "nid_revision sample_ids = ''v3''" "nid_product sample_ids = ''p1''"
    "snap_host sample_settings = ''*''" "snap_basePath sample_settings = ''/it/stock/v1''"
    by (simp_all add: sample_ids_def sample_settings_def)
  have prep: "prepare_publish sample_services ?req (Inr sample_source) sample_body idle_db = Inr (Inr (sample_settings, (''IT'', None), sample_source))"
    by (simp add: prepare_publish_def checks sample_settings_accepted)
  have latest: "latest_revision (d\<lparr>db_resource := x\<rparr>) ''r2'' = None" if "db_revision d = db_revision idle_db" for d x
    using that by (simp add: latest_revision_def idle_db_def sample_db_def sample_revision_def)
  obtain db2 where w: "writeRevision ''v3'' (usr_id (spr_user ?req)) (toISOString (spr_nowMs ?req)) ''r2'' sample_source
      ((insert_product ''p1'' ''stock'' ''orders'' idle_db)\<lparr>db_resource := db_resource (insert_product ''p1'' ''stock'' ''orders'' idle_db) @
         [new_resource ?req ''r2'' sample_body (''IT'', None)]\<rparr>) = Inr db2"
    and v: "latest_revision db2 ''r2'' \<noteq> None"
    by (simp add: writeRevision_def latest insert_product_def sample_source_def store_artifact_def touch_def)
      (simp add: latest_revision_def writeAudit_def idle_db_def sample_db_def sample_revision_def)
  show ?thesis using v
    by (auto simp: publishResource_def prep commit_publish_def Let_def checks fields product w)
qed

lemma command_queued_once_example:
  "case publishResource sample_services (sample_request owner ''k1'' 0) sample_ids (Inr sample_source) sample_body idle_db of
     Some (Inr (QueuedOperation db')) \<Rightarrow> retried (sample_request owner ''k1'' 0) idle_db db' \<and>
       repeated ((sample_request owner ''k1'' 0)\<lparr>spr_digest := ''other''\<rparr>) db' = conflicting
   | _ \<Rightarrow> False"
proof -
  obtain db' where ok: "publishResource sample_services (sample_request owner ''k1'' 0) sample_ids (Inr sample_source) sample_body idle_db = Some (Inr (QueuedOperation db'))"
    using sample_publish_accepted by blast
  have "spr_digest (sample_request owner ''k1'' 0) = ''k1''" by (simp add: sample_request_def)
  then show ?thesis using command_queued_once [OF disjI1, OF ok, of "''other''"] by (simp add: ok)
qed

section \<open>No lost update\<close>

lemma etag_presented:
  assumes "CHR '','' \<notin> set (sha (res_id row @ ''|'' @ res_updated_at row))" "spr_ifMatch req = Some (etagOf sha row)"
  shows "assertIfMatch req now = (if etagOf (spr_sha req) now = etagOf sha row then None else Some PreconditionFailed)"
proof -
  define tag where "tag = etagOf sha row"
  have t: "tag = [CHR 0x22] @ sha (res_id row @ ''|'' @ res_updated_at row) @ [CHR 0x22]" by (simp add: tag_def etagOf_def)
  have quote: "\<not> js_space (CHR 0x22)" by (simp add: js_space_def)
  have "js_split CHR '','' tag = [tag]" using assms(1) by (intro js_split_atom) (simp add: t)
  moreover have "js_trim tag = tag" by (simp add: t js_trim_def quote)
  moreover have "drop_weak tag = tag" "tag \<noteq> ''*''" "given (Some tag) = Some tag" by (simp_all add: t drop_weak_def given_def starts_with_def)
  ultimately show ?thesis by (simp add: assertIfMatch_def assms(2) tag_def [symmetric])
qed

lemma queue_resources: "db_resource (queue req key app resource environment kind snapshot db) = db_resource db"
  by (simp add: queue_def Let_def freeze_def)

lemma configured_stamp:
  assumes "commit_configure sp req newRev row body p db = Inr db'" "find (\<lambda>r. res_id r = res_id row) (db_resource db) = Some now"
  shows "\<exists>now'. find (\<lambda>r. res_id r = res_id row) (db_resource db') = Some now' \<and> res_id now' = res_id now \<and> res_updated_at now' = toISOString (spr_nowMs req)"
proof -
  let ?stamp = "toISOString (spr_nowMs req)"
  from assms obtain key revision db1 where
    n: "new_revision newRev req (res_id row) (prp_source p) (snap_revisionId (prp_config p)) db = Inr (revision, db1)"
    and d: "db' = queue req key (res_application row) (res_id row) (prp_environment p) ''configure'' ((prp_config p)\<lparr>snap_revisionId := revision\<rparr>)
      (remember_override sp (res_id row) (prp_environment p) (pi_policy body) (classify req (res_id row) (prp_taxonomy p) db1))"
    by (auto simp: commit_configure_def conflicting_def split: option.splits if_splits sum.splits prod.splits)
  have map_find: "find (\<lambda>r. res_id r = i) (map f rows) = map_option f (find (\<lambda>r. res_id r = i) rows)" if "\<And>r. res_id (f r) = res_id r" for i f rows
    by (induction rows) (simp_all add: that)
  have "db_resource db1 = db_resource db \<or> db_resource db1 = db_resource (touch ?stamp (res_id row) db)"
    using n by (auto simp: new_revision_def writeRevision_def Let_def bad_def touch_def store_artifact_def split: option.splits sum.splits if_splits prod.splits)
  then obtain r1 where r1: "find (\<lambda>r. res_id r = res_id row) (db_resource db1) = Some r1" "res_id r1 = res_id now"
    using assms(2) by (auto simp: touch_def map_find)
  have "db_resource db' = map (\<lambda>r. if res_id r = res_id row
     then r\<lparr>res_updated_at := ?stamp, res_domain := Some (fst (prp_taxonomy p)), res_subdomain := snd (prp_taxonomy p)\<rparr> else r) (db_resource db1)"
    unfolding d queue_resources by (simp add: remember_override_def classify_def split: option.split)
  moreover have "res_id now = res_id row" using assms(2) by (auto simp: find_Some_iff)
  ultimately show ?thesis using r1 by (simp add: map_find)
qed


definition tagged_request :: "string \<Rightarrow> int \<Rightarrow> Request" where
  "tagged_request key nowMs = (sample_request owner key nowMs)\<lparr>spr_ifMatch := Some (etagOf id (hd (db_resource sample_db)))\<rparr>"

definition sample_prepared :: prepared where
  "sample_prepared = \<lparr>prp_environment = ''dev'', prp_config = sample_snapshot ''v1'', prp_taxonomy = (''IT'', None), prp_source = None\<rparr>"


section \<open>The name of a product\<close>

lemma free_name_result:
  assumes "free_name taken base name n = Some r"
  shows "\<not> taken r \<and> (r = name \<or> (\<exists>m\<ge>n. r = numbered_name base m))"
proof (rule free_name.raw_induct [where P = "\<lambda>taken base name n r. \<not> taken r \<and> (r = name \<or> (\<exists>m\<ge>n. r = numbered_name base m))", OF _ assms])
  fix f taken base name n r
  assume IH: "\<And>taken base name n r. f taken base name n = Some r \<Longrightarrow> \<not> taken r \<and> (r = name \<or> (\<exists>m\<ge>n. r = numbered_name base m))"
    and r: "(if taken name then f taken base (numbered_name base n) (n + 1) else Some name) = Some r"
  show "\<not> taken r \<and> (r = name \<or> (\<exists>m\<ge>n. r = numbered_name base m))"
  proof (cases "taken name")
    case True
    with r IH [of taken base "numbered_name base n" "n + 1" r] show ?thesis by (auto intro: Suc_leD)
  qed (use r in simp)
qed

text \<open>The counter is cut off: past sixty-one characters every numbered name is the same, and if it is taken the loop never ends.\<close>

lemma numbered_name_cut: "61 \<le> length base \<Longrightarrow> numbered_name base n = take 61 base"
  by (simp add: numbered_name_def)

lemma product_name_loops:
  assumes "61 \<le> length (apiName @ ''-'' @ slug_of_application applicationId)"
    and "product_taken db apiName" "product_taken db (take 61 (apiName @ ''-'' @ slug_of_application applicationId))"
  shows "own_product_name db applicationId apiName = None"
proof (cases "own_product_name db applicationId apiName")
  case (Some r)
  then have "free_name (product_taken db) (apiName @ ''-'' @ slug_of_application applicationId) (take 61 (apiName @ ''-'' @ slug_of_application applicationId)) 2 = Some r"
    using assms(2) by (simp add: own_product_name_def Let_def)
  from free_name_result [OF this] assms show ?thesis by (auto simp: numbered_name_cut)
qed

lemma free_name_returns:
  assumes "n \<le> m" "\<not> taken (numbered_name base m)"
  shows "\<exists>r. free_name taken base name n = Some r"
  using assms
proof (induction "m - n" arbitrary: n name)
  case 0
  then show ?case by (subst free_name.simps, subst free_name.simps) auto
next
  case (Suc k)
  from Suc.hyps(1) [of "n + 1" "numbered_name base n"] Suc.hyps(2) Suc.prems show ?case
    by (subst free_name.simps) auto
qed

lemma length_show_nat_mono: "m \<le> n \<Longrightarrow> length (show_nat m) \<le> length (show_nat n)"
proof (induction n arbitrary: m rule: show_nat.induct)
  case (1 n)
  have small: "m < 10 \<Longrightarrow> length (show_nat m) = 1" for m by (subst show_nat.simps) simp
  have step: "\<not> m < 10 \<Longrightarrow> length (show_nat m) = length (show_nat (m div 10)) + 1" for m by (subst show_nat.simps) simp
  show ?case
  proof (cases "n < 10")
    case True
    with 1 show ?thesis by (simp add: small)
  next
    case False
    with "1.IH" [OF False, of "m div 10"] "1.prems" show ?thesis
      by (cases "m < 10") (simp_all add: small step div_le_mono)
  qed
qed

text \<open>Termination of the search for a product's name. As long as the API's name, the application's slug and a counter as
  long as the table of products fit in sixty-one characters, the search ends with a name no product has.\<close>

lemma product_name_found:
  assumes "length (apiName @ ''-'' @ slug_of_application applicationId) + 1 + length (show_nat (length (db_product db) + 2)) \<le> 61"
  shows "case own_product_name db applicationId apiName of None \<Rightarrow> False | Some name \<Rightarrow> \<not> product_taken db name"
proof -
  define base where "base = apiName @ ''-'' @ slug_of_application applicationId"
  let ?N = "length (db_product db)"
  have full: "numbered_name base n = base @ ''-'' @ show_nat n" if "n \<le> ?N + 2" for n
    using length_show_nat_mono [OF that] assms by (simp add: numbered_name_def base_def)
  have inj: "inj_on (numbered_name base) {2..?N + 2}"
    by (rule inj_onI) (simp add: full show_nat_inj)
  have "card (numbered_name base ` {2..?N + 2}) = ?N + 1" using card_image [OF inj] by simp
  moreover have "card (snd ` set (db_product db)) \<le> ?N" using card_image_le [of "set (db_product db)" snd] card_length [of "db_product db"] by simp
  ultimately have more: "card (snd ` set (db_product db)) < card (numbered_name base ` {2..?N + 2})" by simp
  have "\<not> numbered_name base ` {2..?N + 2} \<subseteq> snd ` set (db_product db)"
  proof
    assume "numbered_name base ` {2..?N + 2} \<subseteq> snd ` set (db_product db)"
    from card_mono [OF _ this] more show False by simp
  qed
  then obtain m where m: "2 \<le> m" "numbered_name base m \<notin> snd ` set (db_product db)" unfolding image_subset_iff by (meson atLeastAtMost_iff)
  then have "\<not> product_taken db (numbered_name base m)" by (auto simp: product_taken_def list_ex_iff image_iff)
  from free_name_returns [OF m(1), of "product_taken db", OF this] obtain r where
    r: "own_product_name db applicationId apiName = Some r" by (auto simp: own_product_name_def Let_def base_def)
  then obtain start where "free_name (product_taken db) base start 2 = Some r" by (simp add: own_product_name_def Let_def base_def)
  from free_name_result [OF this] r show ?thesis by simp
qed

lemma product_name_found_example:
  "case own_product_name (sample_db\<lparr>db_product := [(''p1'', ''stock''), (''p2'', ''stock-orders'')]\<rparr>) ''application-orders'' ''stock'' of None \<Rightarrow> False
   | Some name \<Rightarrow> \<not> product_taken (sample_db\<lparr>db_product := [(''p1'', ''stock''), (''p2'', ''stock-orders'')]\<rparr>) name"
  by (rule product_name_found) code_simp

section \<open>Addresses\<close>

text \<open>An address is claimed by the API that has it in \<^verbatim>\<open>route\<close>, and by an operation that has not been applied yet.\<close>

type_synonym claim = "string \<times> string \<times> string \<times> string"

definition open_state :: "OperationState \<Rightarrow> bool" where
  "open_state s \<longleftrightarrow> s \<in> {OQueued, ORetrying, OBlocked}"

definition route_claim :: "scope_key \<times> string \<times> string \<Rightarrow> claim" where
  "route_claim = (\<lambda>((r, e), h, p). (r, e, h, p))"

definition route_claims :: "DB \<Rightarrow> claim set" where
  "route_claims db = route_claim ` set (db_route db)"

definition operation_claim :: "OperationRow \<Rightarrow> claim" where
  "operation_claim q = (opn_resource q, opn_env q, snap_host (opn_input q), snap_basePath (opn_input q))"

definition claims :: "DB \<Rightarrow> claim set" where
  "claims db = route_claims db \<union> operation_claim ` {q \<in> set (db_operation db). open_state (opn_state q)}"

definition apart :: "claim set \<Rightarrow> bool" where
  "apart cs \<longleftrightarrow> inj_on snd cs"

lemma apart_mono: "apart cs \<Longrightarrow> ds \<subseteq> cs \<Longrightarrow> apart ds"
  unfolding apart_def by (rule inj_on_subset)

lemma apart_insert: "apart cs \<Longrightarrow> (\<And>r. (r, k) \<in> cs \<Longrightarrow> r = x) \<Longrightarrow> apart (insert (x, k) cs)"
  unfolding apart_def by (auto simp: inj_on_def)

text \<open>The requests that queue an operation, an operation that is run, and the settling of an environment.\<close>

inductive address_step :: "spine_services \<Rightarrow> DB \<Rightarrow> DB \<Rightarrow> bool" for sp where
  publish: "commit_publish sp req ids body p db = Some (Inr (QueuedOperation db')) \<Longrightarrow> address_step sp db db'"
| configure: "commit_configure sp req newRev row body p db = Inr db' \<Longrightarrow> address_step sp db db'"
| promote: "commit_promote req row p db = Inr db' \<Longrightarrow> address_step sp db db'"
| operation: "q \<in> set (db_operation db) \<Longrightarrow> open_state (opn_state q) \<Longrightarrow>
     list_all (\<lambda>p. opn_id p = opn_id q \<longrightarrow> p = q) (db_operation db) \<Longrightarrow> address_step sp db (run_operation sp relId nowMs db q)"
| settled: "address_step sp db (settle_environment sp nowMs db environment)"

lemma assertRouteFree_claims:
  assumes "assertRouteFree db resource environment host basePath"
  shows "(r, environment, host, basePath) \<in> claims db \<Longrightarrow> r = resource"
  using assms by (auto simp: assertRouteFree_def claims_def route_claims_def route_claim_def operation_claim_def open_state_def list_ex_iff)

lemma queue_routes: "db_route (queue req key app resource environment kind snapshot db) = db_route db"
  by (simp add: queue_def Let_def freeze_def)

lemma queue_claims:
  assumes "db_operation db1 = db_operation db" "db_route db1 = db_route db"
  shows "claims (queue req key app resource environment kind s db1) \<subseteq> insert (resource, environment, snap_host s, snap_basePath s) (claims db)"
  by (auto simp: claims_def route_claims_def queue_operations queue_routes operation_claim_def assms)

lemma queue_apart:
  assumes "apart (claims db)" "assertRouteFree db resource environment (snap_host s) (snap_basePath s)"
    and "db_operation db1 = db_operation db" "db_route db1 = db_route db"
  shows "apart (claims (queue req key app resource environment kind s db1))"
proof (rule apart_mono [OF _ queue_claims [OF assms(3,4)]])
  show "apart (insert (resource, environment, snap_host s, snap_basePath s) (claims db))"
    using assms(1) by (rule apart_insert) (rule assertRouteFree_claims [OF assms(2)])
qed

lemma writeRevision_routes: "writeRevision newRev actor stamp resource source db = Inr db' \<Longrightarrow> db_route db' = db_route db"
  by (auto simp: writeRevision_def Let_def bad_def touch_def store_artifact_def split: if_splits option.splits prod.splits)

lemma chosen_product_routes: "chosen_product pid body db = Chosen p db' \<Longrightarrow> db_route db' = db_route db"
  by (auto simp: chosen_product_def ownProductFor_def insert_product_def split: if_splits option.splits prod.splits)

lemma commit_publish_apart:
  assumes com: "commit_publish sp req ids body p db = Some (Inr (QueuedOperation db'))" and apart: "apart (claims db)"
  shows "apart (claims db')"
proof -
  obtain config taxonomy src where p: "p = (config, taxonomy, src)" by (cases p)
  note a = com [unfolded commit_publish_def Let_def p prod.case conflicting_def bad_def]
  from a have free: "assertRouteFree db (nid_resource ids) (hd (app_chain (spn_app sp))) (snap_host config) (snap_basePath config)"
    by (auto split: sum.splits option.splits if_splits)
  from a obtain pid db1 where c: "chosen_product (nid_product ids) body db = Chosen pid db1"
    by (auto split: sum.splits option.splits if_splits choice.splits)
  from a obtain db2 where w: "writeRevision (nid_revision ids) (usr_id (spr_user req)) (toISOString (spr_nowMs req)) (nid_resource ids) src
       (db1\<lparr>db_resource := db_resource db1 @ [new_resource req (nid_resource ids) body taxonomy]\<rparr>) = Inr db2"
    by (auto simp: c split: sum.splits option.splits if_splits)
  from a obtain key v where k: "requested_key req = Inr key" "latest_revision db2 (nid_resource ids) = Some v"
    by (auto simp: c w split: sum.splits option.splits if_splits)
  from a have d: "db' = queue req key (pi_applicationId body) (nid_resource ids) (hd (app_chain (spn_app sp))) ''publish'' (config\<lparr>snap_revisionId := rev_id v\<rparr>)
       (db2\<lparr>db_product_member := db_product_member db2 @ [(pid, nid_resource ids)]\<rparr>)"
    by (simp add: c w k split: sum.splits option.splits if_splits)
  show ?thesis unfolding d
    by (rule queue_apart [OF apart])
      (simp_all add: free chosen_product_operations [OF c] writeRevision_operations [OF w] chosen_product_routes [OF c] writeRevision_routes [OF w])
qed

lemma commit_configure_apart:
  assumes com: "commit_configure sp req newRev row body p db = Inr db'" and apart: "apart (claims db)"
  shows "apart (claims db')"
proof -
  from com obtain key revision db1 where free: "assertRouteFree db (res_id row) (prp_environment p) (snap_host (prp_config p)) (snap_basePath (prp_config p))"
    and n: "new_revision newRev req (res_id row) (prp_source p) (snap_revisionId (prp_config p)) db = Inr (revision, db1)"
    and d: "db' = queue req key (res_application row) (res_id row) (prp_environment p) ''configure'' ((prp_config p)\<lparr>snap_revisionId := revision\<rparr>)
      (remember_override sp (res_id row) (prp_environment p) (pi_policy body) (classify req (res_id row) (prp_taxonomy p) db1))"
    by (auto simp: commit_configure_def conflicting_def split: option.splits if_splits sum.splits prod.splits)
  have "db_operation db1 = db_operation db" "db_route db1 = db_route db"
    using n writeRevision_operations writeRevision_routes by (auto simp: new_revision_def bad_def split: option.splits sum.splits)
  then show ?thesis unfolding d
    by (intro queue_apart [OF apart]) (simp_all add: free remember_override_def classify_def split: option.split)
qed

lemma commit_promote_apart:
  assumes com: "commit_promote req row p db = Inr db'" and apart: "apart (claims db)"
  shows "apart (claims db')"
proof -
  obtain environment config where p: "p = (environment, config)" by (cases p)
  from com obtain key db1 where free: "assertRouteFree db (res_id row) environment (snap_host config) (snap_basePath config)"
    and ar: "arrived req row environment db = Inr db1"
    and d: "db' = queue req key (res_application row) (res_id row) environment ''promote'' config db1"
    by (auto simp: commit_promote_def p conflicting_def split: if_splits sum.splits)
  have "db_route db1 = db_route db"
    using ar by (auto simp: arrived_def ensurePlatformSubscription_def Let_def bad_def split: if_splits option.splits prod.splits)
  then show ?thesis unfolding d by (intro queue_apart [OF apart]) (simp_all add: free arrived_operations [OF ar])
qed

lemma set_mset_key: "set (mset_key k v m) \<subseteq> insert (k, v) (set m)"
  by (induction m) auto

text \<open>Running an operation moves its claim from the operation table to the routes.\<close>

lemma apply_operation_route:
  assumes "apply_operation sp relId nowMs q db = Applies db'"
  shows "db_route db' = mset_key (opn_resource q, opn_env q) (snap_host (opn_input q), snap_basePath (opn_input q)) (db_route db) \<and>
    (\<exists>f. db_operation db' = map (\<lambda>o'. if opn_id o' = opn_id q then o'\<lparr>opn_state := OWaiting, opn_error := None, opn_result := f,
       opn_updated_at := toISOString nowMs\<rparr> else o') (db_operation db))"
proof -
  obtain ids missing where ch: "chosen_gateways db (opn_env q) (opn_input q) = (ids, missing)" by fastforce
  note a = assms [unfolded apply_operation_def Let_def ch prod.case]
  from a obtain v where v: "find (\<lambda>v. rev_id v = snap_revisionId (opn_input q)) (db_revision db) = Some v"
    by (auto split: if_splits option.splits prod.splits)
  define db1 where "db1 = publish_row relId q v (toISOString nowMs) (write_policy q (toISOString nowMs) (place_operation q ids db))"
  from a v obtain f route where db': "db' = set_operation (opn_id q) (\<lambda>o'. o'\<lparr>opn_state := OWaiting, opn_error := None, opn_result := f,
      opn_updated_at := toISOString nowMs\<rparr>) (drop_applied (opn_resource q) (opn_env q) ids
      (record_applied (opn_resource q) (snap_revisionId (opn_input q)) (app_route_digest (spn_app sp) route) (toISOString nowMs) ids db1))"
    by (auto simp: db1_def split: if_splits option.splits prod.splits)
  note defs = db1_def drop_applied_def record_applied_def publish_row_def freeze_def insert_release_def set_release_def write_policy_def place_operation_def Let_def
  have "db_operation db' = map (\<lambda>o'. if opn_id o' = opn_id q then o'\<lparr>opn_state := OWaiting, opn_error := None, opn_result := f,
       opn_updated_at := toISOString nowMs\<rparr> else o') (db_operation db)" by (simp add: db' set_operation_def defs)
  moreover have "db_route db' = mset_key (opn_resource q, opn_env q) (snap_host (opn_input q), snap_basePath (opn_input q)) (db_route db)"
    by (simp add: db' set_operation_def defs)
  ultimately show ?thesis by blast
qed

lemma operation_claims_map:
  assumes "\<And>o'. operation_claim (f o') = operation_claim o'" "\<And>o'. o' \<in> set os \<Longrightarrow> open_state (opn_state (f o')) \<Longrightarrow> open_state (opn_state o')"
  shows "operation_claim ` {o' \<in> set (map f os). open_state (opn_state o')} \<subseteq> operation_claim ` {o' \<in> set os. open_state (opn_state o')}"
proof
  fix c assume "c \<in> operation_claim ` {o' \<in> set (map f os). open_state (opn_state o')}"
  then obtain o' where "o' \<in> set os" "open_state (opn_state (f o'))" "c = operation_claim (f o')" by auto
  with assms show "c \<in> operation_claim ` {o' \<in> set os. open_state (opn_state o')}" by auto
qed

lemma run_operation_claims:
  assumes q: "q \<in> set (db_operation db)" "open_state (opn_state q)" "list_all (\<lambda>p. opn_id p = opn_id q \<longrightarrow> p = q) (db_operation db)"
  shows "claims (run_operation sp relId nowMs db q) \<subseteq> claims db"
proof (cases "apply_operation sp relId nowMs q db")
  case (Applies db')
  from apply_operation_route [OF this] obtain f where
    r: "db_route db' = mset_key (opn_resource q, opn_env q) (snap_host (opn_input q), snap_basePath (opn_input q)) (db_route db)"
    and ops: "db_operation db' = map (\<lambda>o'. if opn_id o' = opn_id q then o'\<lparr>opn_state := OWaiting, opn_error := None, opn_result := f,
       opn_updated_at := toISOString nowMs\<rparr> else o') (db_operation db)" by blast
  have "operation_claim q \<in> claims db" using q(1,2) by (auto simp: claims_def)
  moreover have "route_claims db' \<subseteq> insert (operation_claim q) (route_claims db)"
    using image_mono [OF set_mset_key [of "(opn_resource q, opn_env q)" "(snap_host (opn_input q), snap_basePath (opn_input q))" "db_route db"], of route_claim]
    unfolding image_insert by (simp add: route_claims_def r operation_claim_def route_claim_def)
  moreover have "operation_claim ` {o' \<in> set (db_operation db'). open_state (opn_state o')} \<subseteq> operation_claim ` {o' \<in> set (db_operation db). open_state (opn_state o')}"
    unfolding ops by (rule operation_claims_map) (auto simp: operation_claim_def open_state_def split: if_splits)
  ultimately have "claims db' \<subseteq> claims db" by (auto simp: claims_def)
  then show ?thesis by (simp add: run_operation_def Applies)
next
  case (Fails e)
  have "operation_claim ` {o' \<in> set (db_operation (retry_operation nowMs q db)). open_state (opn_state o')} \<subseteq>
      operation_claim ` {o' \<in> set (db_operation db). open_state (opn_state o')}"
  proof -
    have ops: "db_operation (retry_operation nowMs q db) = map (\<lambda>o'. if opn_id o' = opn_id q then o'\<lparr>opn_state := (if 5 \<le> opn_attempts q + 1 then OBlocked else ORetrying),
        opn_attempts := opn_attempts q + 1, opn_error := Some ''failed'', opn_next_attempt_at := Some (toISOString (nowMs + backoff_ms (opn_attempts q + 1))),
        opn_updated_at := toISOString nowMs\<rparr> else o') (db_operation db)" by (simp add: retry_operation_def Let_def set_operation_def)
    show ?thesis unfolding ops by (rule operation_claims_map) (use q in \<open>auto simp: operation_claim_def list_all_iff split: if_splits\<close>)
  qed
  moreover have "route_claims (retry_operation nowMs q db) = route_claims db"
    by (simp add: route_claims_def retry_operation_def Let_def set_operation_def)
  ultimately have "claims (retry_operation nowMs q db) \<subseteq> claims db" unfolding claims_def by blast
  then show ?thesis by (simp add: run_operation_def Fails)
qed (simp add: run_operation_def)

lemma settle_claims: "claims (settle_environment sp nowMs db environment) \<subseteq> claims db"
proof (cases "fleetApplied sp nowMs db environment")
  case True
  have "operation_claim ` {o' \<in> set (db_operation (settle_environment sp nowMs db environment)). open_state (opn_state o')} \<subseteq>
      operation_claim ` {o' \<in> set (db_operation db). open_state (opn_state o')}"
    using True by (simp add: settle_environment_def del: set_map, intro operation_claims_map) (auto simp: operation_claim_def open_state_def split: if_splits)
  then show ?thesis using True by (auto simp: claims_def route_claims_def settle_environment_def)
qed (simp add: settle_environment_def)

interpretation addresses: transition_system "\<lambda>db. db_route db = [] \<and> db_operation db = []" "address_step sp" "\<lambda>db. apart (claims db)" for sp
proof
  show "db_route db = [] \<and> db_operation db = [] \<Longrightarrow> apart (claims db)" for db by (simp add: claims_def route_claims_def apart_def)
  show "apart (claims db')" if "apart (claims db)" "address_step sp db db'" for db db'
    using that(2)
  proof cases
    case operation
    then show ?thesis using apart_mono [OF that(1) run_operation_claims [OF operation(2-4)]] by simp
  next
    case settled
    then show ?thesis using apart_mono [OF that(1) settle_claims] by simp
  qed (use that(1) in \<open>auto intro: commit_publish_apart commit_configure_apart commit_promote_apart\<close>)
qed

text \<open>C4: No two APIs at one address. Starting from no routes and no operations, whatever publishes, configures and promotions
  commit and however operations are retried, applied and completed, an operation that is still to be applied never finds its
  address taken by another API's route (so the unique index of \<^verbatim>\<open>route\<close> never rejects it), and two rows of
  \<^verbatim>\<open>route\<close> with one environment, host and path are of one API.\<close>

theorem addresses_never_collide:
  assumes "db_route db = [] \<and> db_operation db = []" "(address_step sp)\<^sup>*\<^sup>* db db'"
  shows "list_all (\<lambda>q. \<not> (open_state (opn_state q) \<and> address_taken db' q)) (db_operation db') \<and>
    list_all (\<lambda>((r, e), a). list_all (\<lambda>((r', e'), a'). if e = e' \<and> a = a' then r = r' else True) (db_route db')) (db_route db')"
proof -
  have inj: "inj_on snd (claims db')" using addresses.reachable_inv [OF assms] by (simp add: apart_def)
  have route: "(r, e, a) \<in> claims db'" if "((r, e), a) \<in> set (db_route db')" for r e a
    using that by (cases a) (force simp: claims_def route_claims_def route_claim_def)
  have "r = r'" if "((r, e), a) \<in> set (db_route db')" "((r', e), a) \<in> set (db_route db')" for r r' e a
    using inj_onD [OF inj, of "(r, e, a)" "(r', e, a)"] route that by simp
  moreover have "\<not> address_taken db' q" if q: "q \<in> set (db_operation db')" "open_state (opn_state q)" for q
  proof
    assume "address_taken db' q"
    then obtain r where r: "r \<noteq> opn_resource q" "((r, opn_env q), snap_host (opn_input q), snap_basePath (opn_input q)) \<in> set (db_route db')"
      by (auto simp: address_taken_def list_ex_iff)
    have "operation_claim q \<in> claims db'" using q by (auto simp: claims_def)
    with inj_onD [OF inj, of "operation_claim q" "(r, opn_env q, snap_host (opn_input q), snap_basePath (opn_input q))"] route [OF r(2)] r(1)
    show False by (simp add: operation_claim_def)
  qed
  ultimately show ?thesis by (auto simp: list_all_iff)
qed

theorem addresses_never_collide_witness:
  "case publishResource sample_services (sample_request owner ''k1'' 0) sample_ids (Inr sample_source) sample_body idle_db of
     Some (Inr (QueuedOperation db')) \<Rightarrow> list_all (\<lambda>q. \<not> (open_state (opn_state q) \<and> address_taken db' q)) (db_operation db') \<and>
       list_all (\<lambda>((r, e), a). list_all (\<lambda>((r', e'), a'). if e = e' \<and> a = a' then r = r' else True) (db_route db')) (db_route db')
   | _ \<Rightarrow> False"
proof -
  obtain db' where ok: "publishResource sample_services (sample_request owner ''k1'' 0) sample_ids (Inr sample_source) sample_body idle_db = Some (Inr (QueuedOperation db'))"
    using sample_publish_accepted by blast
  then obtain p where "commit_publish sample_services (sample_request owner ''k1'' 0) sample_ids sample_body p idle_db = Some (Inr (QueuedOperation db'))"
    by (auto simp: publishResource_def split: sum.splits)
  from address_step.publish [OF this] have "(address_step sample_services)\<^sup>*\<^sup>* idle_db db'" by blast
  moreover have "db_route idle_db = [] \<and> db_operation idle_db = []" by (simp add: idle_db_def sample_db_def empty_db_def)
  ultimately show ?thesis using addresses_never_collide ok by simp
qed

section \<open>Where the code and its comments part\<close>

lemma settings_backend:
  assumes "settings sp req db body kind environment taxonomy apiVersion defaults managed = Inr s"
  shows "\<exists>base. requested_backend sp db environment body (map_option snap_backend defaults) = Inr base \<and>
    snap_backend s = (case pi_clientCertRef body of Some ref \<Rightarrow> with_client_cert (given ref) base | None \<Rightarrow> base) \<and>
    settled_policy (svc_host (app_svc (spn_app sp))) (spr_user req) kind (inheritedUnits db environment) (pi_policy body)
      (map_option snap_policy defaults) managed = Inr (snap_policy s)"
proof -
  obtain domain subdomain where t: "taxonomy = (domain, subdomain)" by (cases taxonomy)
  obtain base where "requested_backend sp db environment body (map_option snap_backend defaults) = Inr base"
    using assms by (auto simp: settings_def t Let_def bad_def split: if_splits sum.splits prod.splits)
  then show ?thesis
    using assms by (auto simp: settings_def t Let_def bad_def split: if_splits sum.splits prod.splits option.splits)
qed

text \<open>A configure that says nothing about the policy carries the policy of the last operation's snapshot, complete or not: what
  the unit endpoints have written since is not in it.\<close>

lemma configure_carries_old_policy:
  assumes "prepare_configure sp req row source body db = Inr (Inr p)" "pi_policy body = None" "usr_isAdmin (spr_user req)"
    and "res_kafka_topic row = None" "last_operation db (res_id row) (prp_environment p) = Some q"
  shows "snap_policy (prp_config p) = snap_policy (opn_input q)"
proof -
  obtain previous where prev: "currentSnapshot db (res_id row) (prp_environment p) = Some previous"
    and st: "\<exists>domain subdomain c. settings sp req db (of_resource row body) (res_kind row) (prp_environment p) (Some domain, subdomain)
       (res_api_version row) (Some previous) (managedUnitsFor row) = Inr c \<and> snap_policy (prp_config p) = snap_policy c"
    using assms(1) by (auto simp: prepare_configure_def conflicting_def split: if_splits sum.splits option.splits prod.splits) blast+
  have rev_filter: "find P (rev xs) = (case rev (filter P xs) of [] \<Rightarrow> None | x # _ \<Rightarrow> Some x)" for P and xs :: "OperationRow list"
    by (induction xs rule: rev_induct) auto
  have previous: "previous = opn_input q"
    using prev assms(5) by (auto simp: currentSnapshot_def last_operation_def rev_filter split: list.splits)
  from st obtain domain subdomain c where ok: "settings sp req db (of_resource row body) (res_kind row) (prp_environment p) (Some domain, subdomain)
       (res_api_version row) (Some previous) (managedUnitsFor row) = Inr c" and c: "snap_policy (prp_config p) = snap_policy c" by blast
  from settings_backend [OF ok] assms(2,4) have sp: "settled_policy (svc_host (app_svc (spn_app sp))) (spr_user req) (res_kind row)
      (inheritedUnits db (prp_environment p)) None (Some (snap_policy previous)) [] = Inr (snap_policy c)"
    by (auto simp: of_resource_def managedUnitsFor_def given_def)
  show ?thesis using sp assms(3) by (simp add: settled_policy_def Let_def c previous bad_def split: if_splits)
qed

text \<open>An owner's save writes the default subscription key unit back onto an API an administrator has opened.\<close>

lemma owner_save_closes_opened_api:
  assumes "settled_policy host user kind wide sent (Some previous) [] = Inr final" "\<not> usr_isAdmin user" "map_of previous ''auth.subscriptionKey'' = None"
  shows "map_of final ''auth.subscriptionKey'' = map_of DEFAULT_POLICY ''auth.subscriptionKey''"
  using settled_policy_parts(3) [OF assms(1,2)] assms(3) by (simp add: key_before_def DEFAULT_POLICY_def)

text \<open>The pool an owner sends with the promotion of a topic's API wins over the shared proxy's addresses, and the unit that
  presents the platform's key to the backend is forced onto the document all the same.\<close>

lemma readPool_sent:
  assumes "readPool check (JObj ps) = Inr (Some (pool, rule))" "as_array (member (JObj ps) ''pool'') = Some raw"
  shows "collect (map read_pool_entry (zip [0..<length raw] raw)) = Inr pool"
  using assms by (auto simp: readPool_def Let_def split: sum.splits if_splits option.splits)

lemma topic_promotion_takes_sent_pool:
  assumes "prepare_promote sp req topicApiBinding row asked db = Inr (Inr (environment, config))" "given (res_kafka_topic row) \<noteq> None"
    and "pi_pool asked = JObj ps" "as_array (map_of ps ''pool'') = Some raw"
  shows "\<exists>pool rule kept ref. collect (map read_pool_entry (zip [0..<length raw] raw)) = Inr pool \<and>
    snap_backend config = with_client_cert ref (with_client_cert kept (backend_json pool rule)) \<and>
    map_of (snap_policy config) ''backendAuth'' = Some TOPIC_BACKEND_AUTH"
proof -
  from assms(1) obtain body source defaults c where bound: "bound_to_topic row topicApiBinding environment asked = Inr body"
    and st: "settings sp req db (of_resource row body) (res_kind row) environment (res_domain row, res_subdomain row) (res_api_version row)
       (Some defaults) (managedUnitsFor row) = Inr c"
    and c: "snap_backend config = snap_backend c" "snap_policy config = snap_policy c"
    by (auto simp: prepare_promote_def Let_def bad_def conflicting_def split: if_splits sum.splits option.splits list.splits)
  from bound assms(2,3) obtain urls ref where body: "pi_clientCertRef body = Some (Some ref)"
      "pi_pool body = JObj (mset_key ''rule'' (JStr ''failover'') (mset_key ''urls'' (JArr (map JStr urls)) ps))"
    by (auto simp: bound_to_topic_def split: sum.splits prod.splits if_splits)
  from settings_backend [OF st] obtain base where base: "requested_backend sp db environment (of_resource row body) (Some (snap_backend defaults)) = Inr base"
      "snap_backend c = with_client_cert (given (Some ref)) base"
    and pol: "settled_policy (svc_host (app_svc (spn_app sp))) (spr_user req) (res_kind row) (inheritedUnits db environment) (pi_policy body)
      (Some (snap_policy defaults)) (managedUnitsFor row) = Inr (snap_policy c)"
    by (auto simp: of_resource_def body)
  have arr: "as_array (member (pi_pool body) ''pool'') = Some raw" using assms(4) by (simp add: body get_set)
  obtain pool rule where pool: "readPool (egress_check sp db environment) (pi_pool body) = Inr (Some (pool, rule))"
      "base = with_client_cert (client_cert_of (snap_backend defaults)) (backend_json pool rule)"
  proof (cases "readPool (egress_check sp db environment) (pi_pool body)")
    case (Inl e)
    with base(1) show ?thesis by (simp add: requested_backend_def of_resource_def bad_def)
  next
    case (Inr r)
    moreover have "r \<noteq> None" using Inr arr by (auto simp: readPool_def Let_def split: sum.splits if_splits option.splits)
    ultimately show ?thesis using base(1) that by (auto simp: requested_backend_def of_resource_def)
  qed
  have "collect (map read_pool_entry (zip [0..<length raw] raw)) = Inr pool"
    by (rule readPool_sent [OF _ _]) (use pool(1) arr body(2) in simp_all)
  moreover have "map_of (snap_policy c) ''backendAuth'' = Some TOPIC_BACKEND_AUTH"
  proof -
    from settled_policy_managed [OF pol] obtain policy where "snap_policy c = foldl (\<lambda>doc (u, v). doc_set u v doc) policy (managedUnitsFor row)" by blast
    then have "snap_policy c = doc_set ''backendAuth'' TOPIC_BACKEND_AUTH policy" using assms(2) by (simp add: managedUnitsFor_def)
    then show ?thesis by (simp add: doc_set_get)
  qed
  ultimately show ?thesis using pool(2) base(2) c by metis
qed

text \<open>The snapshot of a request may not name the portal's own credential outside what the platform manages, but an owner's write
  of the one unit may.\<close>

lemma owner_unit_write_names_platform_key:
  "namesPlatformRef TOPIC_BACKEND_AUTH \<and> \<not> usr_isAdmin owner \<and>
   (case policy_put sample_host [''prod''] owner ''r1'' ''prod'' ''backendAuth'' TOPIC_BACKEND_AUTH ''t'' policy_example of
      Inl _ \<Rightarrow> False | Inr db' \<Rightarrow> own_value db' ''r1'' ''prod'' ''backendAuth'' = Some TOPIC_BACKEND_AUTH)"
  by code_simp

text \<open>With one gateway the fleet is compared with the document the control plane builds for no gateway in particular.\<close>

lemma single_gateway_expects_environment_digest:
  "length (gatewaysIn db environment) = 1 \<Longrightarrow>
   expected_digest sp nowMs db environment target = spn_config_digest sp (config_of sp nowMs db environment None)"
  by (simp add: expected_digest_def)

end
