(* ===== verification/Identity.thy ===== *)
theory Identity
  imports ConfigDoc
begin

text \<open>
  Who is calling: \<^verbatim>\<open>data-plane/src/identity.ts\<close> and the token checks of \<^verbatim>\<open>shared/jwt.ts\<close>. Base64, hashing, JSON parsing,
  regular expressions and the signature check are an argument (\<^verbatim>\<open>js_crypto\<close>), and so is the answer of the key set of an
  issuer. \<^verbatim>\<open>Threw\<close> is an exception that leaves the function. The three caches in front of the identity providers are in the
  theory \<^verbatim>\<open>TokenCaches\<close>.

  Shown here: what an accepted token, secret or certificate has passed.
\<close>

declare map_of_eq_Some_iff [simp del] Some_eq_map_of_iff [simp del]

section \<open>Definitions\<close>

record js_crypto =
  cy_sha256 :: "string \<Rightarrow> string"
  cy_base64 :: "string \<Rightarrow> string"
  cy_base64Url :: "string \<Rightarrow> string"
  cy_json :: "string \<Rightarrow> jsval option"
  cy_verify :: "string \<Rightarrow> jsval \<Rightarrow> string \<Rightarrow> string \<Rightarrow> bool"
  cy_regex :: "string \<Rightarrow> string \<Rightarrow> bool"

record ClientCertificate =
  cc_subject :: string
  cc_issuer :: string
  cc_cn :: string
  cc_sans :: "string list"
  cc_thumbprint :: string
  cc_verified :: bool

datatype auth_method = ByJwt | ByBasic | ByIntrospection | ByMtls

record Identity =
  idn_method :: auth_method
  idn_subject :: string
  idn_scopes :: "string list"
  idn_claims :: jsval
  idn_certificate :: "ClientCertificate option"

datatype AuthResult = Accepted Identity | Rejected nat "(string, string) jsmap" | Threw

text \<open>\<^verbatim>\<open>s.split(/\s+/).filter(Boolean)\<close>\<close>

definition js_words :: "string \<Rightarrow> string list" where
  "js_words s = filter (\<lambda>w. w \<noteq> []) (js_split CHR '' '' (map (\<lambda>c. if js_space c then CHR '' '' else c) s))"

definition present :: "jsval option \<Rightarrow> bool" where
  "present v \<longleftrightarrow> v \<noteq> None \<and> v \<noteq> Some JNull"

definition strings_of :: "jsval list \<Rightarrow> string list" where
  "strings_of = List.map_filter (\<lambda>v. as_string (Some v))"

definition scopesOf :: "jsval \<Rightarrow> string list" where
  "scopesOf claims =
     (let raw = (if present (member claims ''scope'') then member claims ''scope''
        else if present (member claims ''scp'') then member claims ''scp'' else member claims ''scopes'')
      in case raw of Some (JStr s) \<Rightarrow> js_words s | Some (JArr vs) \<Rightarrow> strings_of vs | _ \<Rightarrow> [])"

definition ALGORITHMS :: "string list" where
  "ALGORITHMS = [''RS256'', ''RS384'', ''RS512'', ''PS256'', ''PS384'', ''PS512'', ''ES256'', ''ES384'', ''ES512'']"

record DecodedJwt =
  dj_header :: jsval
  dj_claims :: jsval
  dj_signingInput :: string
  dj_signature :: string

definition decodeJwt :: "js_crypto \<Rightarrow> string \<Rightarrow> DecodedJwt option" where
  "decodeJwt cy token = (case js_split CHR ''.'' token of
       [header, payload, signature] \<Rightarrow>
         (case (cy_json cy (cy_base64Url cy header), cy_json cy (cy_base64Url cy payload)) of
            (Some h, Some c) \<Rightarrow> Some \<lparr>dj_header = h, dj_claims = c, dj_signingInput = header @ ''.'' @ payload,
              dj_signature = cy_base64Url cy signature\<rparr>
          | _ \<Rightarrow> None)
     | _ \<Rightarrow> None)"

text \<open>The algorithm is looked up in the issuer's list; \<^verbatim>\<open>keys\<close> is what the key cache answers for an address and a \<^verbatim>\<open>kid\<close>.\<close>

definition verifyJwtSignature ::
  "js_crypto \<Rightarrow> (string \<Rightarrow> string option \<Rightarrow> jsval option) \<Rightarrow> DecodedJwt \<Rightarrow> string option \<Rightarrow> string list \<Rightarrow> bool" where
  "verifyJwtSignature cy keys decoded jwksUrl allowed =
     (let alg = (case as_string (member (dj_header decoded) ''alg'') of Some a \<Rightarrow> a | None \<Rightarrow> [])
      in if alg \<notin> set ALGORITHMS \<or> alg \<notin> set allowed then False
         else (case jwksUrl of
             None \<Rightarrow> False
           | Some url \<Rightarrow> if url = [] then False
               else (case keys url (as_string (member (dj_header decoded) ''kid'')) of
                   None \<Rightarrow> False
                 | Some jwk \<Rightarrow> cy_verify cy alg jwk (dj_signingInput decoded) (dj_signature decoded))))"

definition timeWindowOk :: "jsval \<Rightarrow> rat \<Rightarrow> rat \<Rightarrow> bool" where
  "timeWindowOk claims nowMs skewMs \<longleftrightarrow>
     \<not> (case as_number (member claims ''exp'') of None \<Rightarrow> False | Some e \<Rightarrow> e * 1000 + skewMs < nowMs) \<and>
     \<not> (case as_number (member claims ''nbf'') of None \<Rightarrow> False | Some n \<Rightarrow> nowMs + skewMs < n * 1000)"

definition audiencesOf :: "jsval \<Rightarrow> string list" where
  "audiencesOf claims = (case member claims ''aud'' of Some (JArr vs) \<Rightarrow> strings_of vs | Some (JStr s) \<Rightarrow> [s] | _ \<Rightarrow> [])"

definition missing_scope :: "string list \<Rightarrow> string list option \<Rightarrow> bool" where
  "missing_scope scopes required = (case required of None \<Rightarrow> False | Some rs \<Rightarrow> list_ex (\<lambda>r. r \<notin> set scopes) rs)"

definition subject_of :: "jsval \<Rightarrow> string" where
  "subject_of claims = (case as_string (member claims ''sub'') of Some s \<Rightarrow> s | None \<Rightarrow> [])"

definition verifyJwt ::
  "js_crypto \<Rightarrow> (string \<Rightarrow> string option \<Rightarrow> jsval option) \<Rightarrow> string \<Rightarrow> JwtAuthUnit \<Rightarrow> ConfigIssuer \<Rightarrow> rat \<Rightarrow> AuthResult" where
  "verifyJwt cy keys token unit issuer nowMs = (case decodeJwt cy token of
       None \<Rightarrow> Rejected 401 []
     | Some decoded \<Rightarrow>
         if dj_header decoded = JNull then Threw
         else if \<not> verifyJwtSignature cy keys decoded (is_jwksUrl issuer) (is_algorithms issuer) then Rejected 401 []
         else (let claims = dj_claims decoded; skew = of_nat (or_else (jw_clockSkewSec unit) 60) * 1000 in
           if claims = JNull then Threw
           else if \<not> timeWindowOk claims nowMs skew then Rejected 401 []
           else if member claims ''iss'' \<noteq> Some (JStr (is_issuer issuer)) then Rejected 401 []
           else (let audience = (case jw_audience unit of Some a \<Rightarrow> a | None \<Rightarrow> or_else (is_audienceDefault issuer) []) in
             if audience \<noteq> [] \<and> \<not> list_ex (\<lambda>a. a \<in> set audience) (audiencesOf claims) then Rejected 401 []
             else if missing_scope (scopesOf claims) (jw_requiredScopes unit) then Rejected 403 []
             else Accepted \<lparr>idn_method = ByJwt, idn_subject = subject_of claims, idn_scopes = scopesOf claims,
               idn_claims = claims, idn_certificate = None\<rparr>)))"

definition scopeMapMisses :: "JwtAuthUnit \<Rightarrow> Identity \<Rightarrow> string option \<Rightarrow> string \<Rightarrow> string option \<Rightarrow> string list" where
  "scopeMapMisses unit identity operationId m template = (case jw_scopeMap unit of
       None \<Rightarrow> []
     | Some scopes \<Rightarrow>
         (let candidates = (case operationId of Some i \<Rightarrow> [i] | None \<Rightarrow> []) @
            (case template of None \<Rightarrow> [] | Some t \<Rightarrow> if t = [] then [] else [toUpperCase m @ '' '' @ t])
          in case find (\<lambda>k. map_of scopes k \<noteq> None) candidates of
               None \<Rightarrow> []
             | Some k \<Rightarrow> filter (\<lambda>s. s \<notin> set (idn_scopes identity)) (the (map_of scopes k))))"

definition challenge :: "BasicAuthUnit \<Rightarrow> (string, string) jsmap" where
  "challenge unit = [(''www-authenticate'', ''Basic realm='' @ [CHR 0x22] @
     filter (\<lambda>c. c \<noteq> CHR 0x22) (or_else (ba_realm unit) ''api'') @ [CHR 0x22])]"

definition verifyBasic :: "js_crypto \<Rightarrow> string option \<Rightarrow> BasicAuthUnit \<Rightarrow> ConfigReferences \<Rightarrow> AuthResult" where
  "verifyBasic cy header unit references = (case header of
       None \<Rightarrow> Rejected 401 (challenge unit)
     | Some h \<Rightarrow>
         if \<not> starts_with ''basic '' (toLowerCase h) then Rejected 401 (challenge unit)
         else (case map_of (rf_secretHashes references) (ba_credentialRef unit) of
             None \<Rightarrow> Rejected 503 []
           | Some expected \<Rightarrow>
               if expected = [] then Rejected 503 []
               else (let decoded = cy_base64 cy (js_trim (drop 6 h)) in
                 if cy_sha256 cy decoded \<noteq> expected then Rejected 401 (challenge unit)
                 else Accepted \<lparr>idn_method = ByBasic, idn_subject = takeWhile (\<lambda>c. c \<noteq> CHR '':'') decoded, idn_scopes = [],
                   idn_claims = JObj [], idn_certificate = None\<rparr>)))"

definition secretMatches :: "js_crypto \<Rightarrow> string \<Rightarrow> string \<Rightarrow> ConfigReferences \<Rightarrow> bool" where
  "secretMatches cy value ref references = (case map_of (rf_secretHashes references) ref of
       None \<Rightarrow> False | Some expected \<Rightarrow> expected \<noteq> [] \<and> cy_sha256 cy value = expected)"

text \<open>The expression \<^verbatim>\<open>/(?:^|,)\s*CN=((?:\\.|[^,])*)/i\<close> and the unescaping of what it captured.\<close>

definition line_end :: "char \<Rightarrow> bool" where
  "line_end c \<longleftrightarrow> c = CHR 0x0A \<or> c = CHR 0x0D"

fun cn_value :: "string \<Rightarrow> string" where
  "cn_value [] = []"
| "cn_value [c] = (if c = CHR '','' then [] else [c])"
| "cn_value (c # d # s) =
     (if c = CHR '','' then []
      else if c = CHR 0x5C \<and> \<not> line_end d then c # d # cn_value s
      else c # cn_value (d # s))"

fun unescape :: "string \<Rightarrow> string" where
  "unescape (c # d # s) = (if c = CHR 0x5C \<and> \<not> line_end d then d # unescape s else c # unescape (d # s))"
| "unescape s = s"

definition cn_here :: "string \<Rightarrow> string option" where
  "cn_here s = (let t = dropWhile js_space s in
     if toLowerCase (take 3 t) = ''cn='' then Some (js_trim (unescape (cn_value (drop 3 t)))) else None)"

fun cn_after_comma :: "string \<Rightarrow> string option" where
  "cn_after_comma [] = None"
| "cn_after_comma (c # s) = (case (if c = CHR '','' then cn_here s else None) of Some v \<Rightarrow> Some v | None \<Rightarrow> cn_after_comma s)"

definition cnOf :: "string \<Rightarrow> string" where
  "cnOf dn = (case cn_here dn of Some v \<Rightarrow> v | None \<Rightarrow> or_else (cn_after_comma dn) [])"

record CertHeaderNames =
  chn_dn :: string
  chn_issuer :: string
  chn_verify :: string
  chn_fingerprint :: string
  chn_san :: string

definition readCertificate :: "(string \<Rightarrow> string option) \<Rightarrow> CertHeaderNames \<Rightarrow> ClientCertificate option" where
  "readCertificate header names = (case header (chn_dn names) of
       None \<Rightarrow> None
     | Some subject \<Rightarrow>
         if subject = [] then None
         else (let verdict = toUpperCase (or_else (header (chn_verify names)) []) in
           Some \<lparr>cc_subject = subject, cc_issuer = or_else (header (chn_issuer names)) [], cc_cn = cnOf subject,
             cc_sans = filter (\<lambda>s. s \<noteq> []) (map js_trim (js_split CHR '','' (or_else (header (chn_san names)) []))),
             cc_thumbprint = or_else (header (chn_fingerprint names)) [],
             cc_verified = (verdict = ''SUCCESS'' \<or> verdict = ''OK'' \<or> verdict = ''TRUE'')\<rparr>))"

definition outside :: "string list option \<Rightarrow> string \<Rightarrow> bool" where
  "outside allowed v = (case allowed of None \<Rightarrow> False | Some vs \<Rightarrow> vs \<noteq> [] \<and> v \<notin> set vs)"

definition all_outside :: "string list option \<Rightarrow> string list \<Rightarrow> bool" where
  "all_outside allowed vs = (case allowed of None \<Rightarrow> False | Some as \<Rightarrow> as \<noteq> [] \<and> \<not> list_ex (\<lambda>v. v \<in> set as) vs)"

definition verifyMtls :: "ClientCertificate option \<Rightarrow> MtlsAuthUnit \<Rightarrow> AuthResult" where
  "verifyMtls certificate unit = (case certificate of
       None \<Rightarrow> Rejected 401 []
     | Some c \<Rightarrow>
         if \<not> cc_verified c then Rejected 401 []
         else if outside (mt_allowedIssuers unit) (cc_issuer c) then Rejected 403 []
         else if outside (mt_allowedSubjectCns unit) (cc_cn c) then Rejected 403 []
         else if all_outside (mt_allowedSans unit) (cc_sans c) then Rejected 403 []
         else Accepted \<lparr>idn_method = ByMtls, idn_subject = cc_subject c, idn_scopes = [], idn_claims = JObj [],
           idn_certificate = Some c\<rparr>)"

definition bearerToken :: "(string \<Rightarrow> string option) \<Rightarrow> string \<Rightarrow> string \<Rightarrow> string option" where
  "bearerToken header name scheme = (case header name of
       None \<Rightarrow> None
     | Some raw \<Rightarrow>
         if raw = [] then None
         else if scheme = [] then Some (js_trim raw)
         else (let prefix = toLowerCase scheme @ '' '' in
           if \<not> starts_with prefix (toLowerCase raw) then None
           else (let token = js_trim (drop (length prefix) raw) in if token = [] then None else Some token)))"

section \<open>What was checked\<close>

text \<open>What an accepted token has passed: its algorithm, the key of its issuer, the signature, the issuer, the window, the
  audience and the scopes.\<close>

definition token_checked ::
  "js_crypto \<Rightarrow> (string \<Rightarrow> string option \<Rightarrow> jsval option) \<Rightarrow> JwtAuthUnit \<Rightarrow> ConfigIssuer \<Rightarrow> rat \<Rightarrow> DecodedJwt \<Rightarrow> bool" where
  "token_checked cy keys unit issuer nowMs decoded \<longleftrightarrow>
     list_ex (\<lambda>alg. member (dj_header decoded) ''alg'' = Some (JStr alg) \<and> alg \<in> set ALGORITHMS \<and>
       (case is_jwksUrl issuer of None \<Rightarrow> False
        | Some url \<Rightarrow> (case keys url (as_string (member (dj_header decoded) ''kid'')) of None \<Rightarrow> False
            | Some jwk \<Rightarrow> cy_verify cy alg jwk (dj_signingInput decoded) (dj_signature decoded)))) (is_algorithms issuer) \<and>
     member (dj_claims decoded) ''iss'' = Some (JStr (is_issuer issuer)) \<and>
     timeWindowOk (dj_claims decoded) nowMs (of_nat (or_else (jw_clockSkewSec unit) 60) * 1000) \<and>
     (let audience = (case jw_audience unit of Some a \<Rightarrow> a | None \<Rightarrow> or_else (is_audienceDefault issuer) [])
      in audience = [] \<or> list_ex (\<lambda>a. a \<in> set audience) (audiencesOf (dj_claims decoded))) \<and>
     list_all (\<lambda>s. s \<in> set (scopesOf (dj_claims decoded))) (or_else (jw_requiredScopes unit) [])"

lemma as_string_Some: "as_string v = Some s \<longleftrightarrow> v = Some (JStr s)"
  by (cases v rule: as_string.cases) auto

lemma signature_checked:
  assumes "verifyJwtSignature cy keys decoded url allowed"
  obtains alg where "member (dj_header decoded) ''alg'' = Some (JStr alg)" "alg \<in> set ALGORITHMS" "alg \<in> set allowed"
    "case url of None \<Rightarrow> False
     | Some u \<Rightarrow> (case keys u (as_string (member (dj_header decoded) ''kid'')) of None \<Rightarrow> False
         | Some jwk \<Rightarrow> cy_verify cy alg jwk (dj_signingInput decoded) (dj_signature decoded))"
proof -
  have "[] \<notin> set ALGORITHMS" by (simp add: ALGORITHMS_def)
  with assms that show thesis
    by (auto simp: verifyJwtSignature_def Let_def as_string_Some split: option.splits if_splits)
qed

lemma missing_scope_iff: "\<not> missing_scope scopes required \<longleftrightarrow> list_all (\<lambda>s. s \<in> set scopes) (or_else required [])"
  by (auto simp: missing_scope_def or_else_def list_ex_iff list_all_iff split: option.splits)

lemma accepted_jwt:
  assumes "verifyJwt cy keys token unit issuer nowMs = Accepted i"
  obtains decoded where "decodeJwt cy token = Some decoded" "token_checked cy keys unit issuer nowMs decoded"
    "i = \<lparr>idn_method = ByJwt, idn_subject = subject_of (dj_claims decoded), idn_scopes = scopesOf (dj_claims decoded),
       idn_claims = dj_claims decoded, idn_certificate = None\<rparr>"
proof -
  from assms obtain decoded where d: "decodeJwt cy token = Some decoded" by (auto simp: verifyJwt_def split: option.splits)
  with assms have s: "verifyJwtSignature cy keys decoded (is_jwksUrl issuer) (is_algorithms issuer)"
    and rest: "timeWindowOk (dj_claims decoded) nowMs (of_nat (or_else (jw_clockSkewSec unit) 60) * 1000)"
      "member (dj_claims decoded) ''iss'' = Some (JStr (is_issuer issuer))"
      "\<not> missing_scope (scopesOf (dj_claims decoded)) (jw_requiredScopes unit)"
      "let audience = (case jw_audience unit of Some a \<Rightarrow> a | None \<Rightarrow> or_else (is_audienceDefault issuer) [])
       in audience = [] \<or> list_ex (\<lambda>a. a \<in> set audience) (audiencesOf (dj_claims decoded))"
    and i: "i = \<lparr>idn_method = ByJwt, idn_subject = subject_of (dj_claims decoded), idn_scopes = scopesOf (dj_claims decoded),
       idn_claims = dj_claims decoded, idn_certificate = None\<rparr>"
    by (simp_all add: verifyJwt_def Let_def split: if_splits)
  from s obtain alg where "member (dj_header decoded) ''alg'' = Some (JStr alg)" "alg \<in> set ALGORITHMS" "alg \<in> set (is_algorithms issuer)"
    "case is_jwksUrl issuer of None \<Rightarrow> False
     | Some u \<Rightarrow> (case keys u (as_string (member (dj_header decoded) ''kid'')) of None \<Rightarrow> False
         | Some jwk \<Rightarrow> cy_verify cy alg jwk (dj_signingInput decoded) (dj_signature decoded))" by (rule signature_checked)
  then have "token_checked cy keys unit issuer nowMs decoded"
    using rest by (auto simp: token_checked_def list_ex_iff missing_scope_iff)
  with d i that show thesis by blast
qed

text \<open>An accepted secret is the configured one; an accepted certificate was verified by the proxy and is on every list that
  is not empty.\<close>

lemma accepted_basic:
  "verifyBasic cy header unit references = Accepted i \<Longrightarrow>
   (\<exists>h. header = Some h \<and> map_of (rf_secretHashes references) (ba_credentialRef unit) = Some (cy_sha256 cy (cy_base64 cy (js_trim (drop 6 h)))))"
  by (auto simp: verifyBasic_def Let_def split: option.splits if_splits)

lemma accepted_mtls:
  "verifyMtls certificate unit = Accepted i \<Longrightarrow>
   (\<exists>c. certificate = Some c \<and> cc_verified c \<and> \<not> outside (mt_allowedIssuers unit) (cc_issuer c) \<and>
     \<not> outside (mt_allowedSubjectCns unit) (cc_cn c) \<and> \<not> all_outside (mt_allowedSans unit) (cc_sans c) \<and> idn_certificate i = Some c)"
  by (auto simp: verifyMtls_def split: option.splits if_splits)

text \<open>A comma escaped inside another attribute's value starts a name of its own here: the common name read from a subject
  can be the text an applicant put into another attribute.\<close>

lemma escaped_comma_names_cn:
  "cnOf (''O=Acme'' @ [CHR 0x5C] @ '',CN=admin,CN=user'') = ''admin''"
  by code_simp

text \<open>A token whose header is the JSON value \<^verbatim>\<open>null\<close> is not refused: reading a field of it throws.\<close>

lemma null_header_throws:
  assumes "cy_json cy (cy_base64Url cy ''bnVsbA'') = Some JNull" "cy_json cy (cy_base64Url cy ''e30'') = Some (JObj [])"
  shows "verifyJwt cy keys ''bnVsbA.e30.x'' unit issuer nowMs = Threw"
  using assms by (simp add: verifyJwt_def decodeJwt_def)

end
