(* ===== verification/TokenCaches.thy ===== *)
theory TokenCaches
  imports Identity
begin

text \<open>
  The caches between the gateway and the identity providers: the key sets of issuers (\<^verbatim>\<open>JwksCache\<close> of \<^verbatim>\<open>shared/jwt.ts\<close>),
  introspection answers (\<^verbatim>\<open>IntrospectionCache\<close> of \<^verbatim>\<open>data-plane/src/identity.ts\<close>) and backend tokens (\<^verbatim>\<open>TokenCache\<close> of
  \<^verbatim>\<open>data-plane/src/backend-auth.ts\<close>). Each is split at its \<^verbatim>\<open>await\<close>: asking answers from the cache, joins a fetch that is under
  way or starts one; settling is the end of a fetch, with the provider's answer as an argument, and all who wait for it go on in
  the same turn of the event loop.

  Shown here: every cache keeps at most one fetch of a key under way, whatever the interleaving; a key set is not asked for
  again before its cooldown; what a cache answers was fetched for that key and has not expired.
\<close>

declare map_of_eq_Some_iff [simp del] Some_eq_map_of_iff [simp del]

section \<open>One fetch at a time\<close>

datatype 'v asked = Known 'v | Joined | Started

datatype ('q, 'k, 'r) flight = Ask 'q | Settle 'k 'r

locale single_flight =
  fixes flying :: "'s \<Rightarrow> 'k \<Rightarrow> bool"
    and ask :: "'s \<Rightarrow> 'q \<Rightarrow> 'v asked \<times> 's"
    and key_of :: "'q \<Rightarrow> 'k"
    and settle :: "'s \<Rightarrow> 'k \<Rightarrow> 'r \<Rightarrow> 's"
  assumes ask_started: "ask s q = (Started, t) \<Longrightarrow> \<not> flying s (key_of q) \<and> flying t k = (k = key_of q \<or> flying s k)"
    and ask_other: "ask s q = (a, t) \<Longrightarrow> a \<noteq> Started \<Longrightarrow> flying t k = flying s k"
    and settle_flying: "flying (settle s k r) k' = (k' \<noteq> k \<and> flying s k')"
begin

text \<open>Only a fetch that is under way can end. A run counts the fetches of one key that were started and that ended.\<close>

fun flight_step :: "'k \<Rightarrow> 's \<times> nat \<times> nat \<Rightarrow> ('q, 'k, 'r) flight \<Rightarrow> 's \<times> nat \<times> nat" where
  "flight_step k (s, started, ended) (Ask q) = (case ask s q of (a, t) \<Rightarrow>
     (t, if key_of q = k \<and> a = Started then Suc started else started, ended))"
| "flight_step k (s, started, ended) (Settle k' r) =
     (if flying s k' then (settle s k' r, started, if k' = k then Suc ended else ended) else (s, started, ended))"

definition balanced :: "'k \<Rightarrow> 's \<times> nat \<times> nat \<Rightarrow> bool" where
  "balanced k = (\<lambda>(s, started, ended). started = ended + (if flying s k then 1 else 0))"

lemma flight_step_balanced:
  assumes "balanced k x" shows "balanced k (flight_step k x e)"
proof -
  obtain s a b where x: "x = (s, a, b)" by (cases x) auto
  show ?thesis
  proof (cases e)
    case (Ask q)
    obtain ans t where "ask s q = (ans, t)" by (cases "ask s q") auto
    with assms show ?thesis using ask_started [of s q t] ask_other [of s q ans t]
      by (cases "ans = Started") (auto simp: Ask x balanced_def)
  next
    case (Settle k' r)
    with assms show ?thesis by (auto simp: x balanced_def settle_flying)
  qed
qed

end

sublocale single_flight < flights: machine "flight_step k" "balanced k" for k
  by unfold_locales (rule flight_step_balanced)

context single_flight begin

lemma one_at_a_time: "\<not> flying s k \<Longrightarrow> balanced k (foldl (flight_step k) (s, 0, 0) es)"
  by (rule flights.run_good) (simp add: balanced_def)

end

section \<open>Definitions: backend tokens\<close>

record TokenCache =
  tkc_tokens :: "(string, string \<times> rat) jsmap"
  tkc_inFlight :: "string list"
  tkc_fetches :: nat

text \<open>What a provider answered: the token and \<^verbatim>\<open>expires_in\<close>, or that the fetch failed. \<^verbatim>\<open>now\<close> is in milliseconds.\<close>

definition token_get :: "TokenCache \<Rightarrow> string \<times> rat \<Rightarrow> string asked \<times> TokenCache" where
  "token_get c = (\<lambda>(key, now).
     case (case map_of (tkc_tokens c) key of Some (v, expires) \<Rightarrow> if now < expires then Some v else None | None \<Rightarrow> None) of
       Some v \<Rightarrow> (Known v, c)
     | None \<Rightarrow> if key \<in> set (tkc_inFlight c) then (Joined, c)
         else (Started, c\<lparr>tkc_inFlight := tkc_inFlight c @ [key], tkc_fetches := tkc_fetches c + 1\<rparr>))"

definition fetchToken :: "ConfigTokenProvider \<Rightarrow> string \<times> rat option \<Rightarrow> rat \<Rightarrow> string \<times> rat" where
  "fetchToken provider payload now = (case payload of (value, expires_in) \<Rightarrow>
     (value, now + max 1 (or_else expires_in 300 - of_nat (or_else (tp_skewSec provider) 30)) * 1000))"

definition token_settled :: "TokenCache \<Rightarrow> string \<Rightarrow> (string \<times> rat) option \<Rightarrow> TokenCache" where
  "token_settled c key result =
     (let c = (case result of Some token \<Rightarrow> c\<lparr>tkc_tokens := mset_key key token (tkc_tokens c)\<rparr> | None \<Rightarrow> c)
      in c\<lparr>tkc_inFlight := filter (\<lambda>k. k \<noteq> key) (tkc_inFlight c)\<rparr>)"

definition invalidate :: "TokenCache \<Rightarrow> string \<Rightarrow> TokenCache" where
  "invalidate c key = c\<lparr>tkc_tokens := mdelete key (tkc_tokens c)\<rparr>"

definition tokenCacheKey :: "BackendAuthUnit \<Rightarrow> string option" where
  "tokenCacheKey unit = (case unit of AuthOauth2 provider scope _ \<Rightarrow> Some (provider @ ''|'' @ or_else scope []) | _ \<Rightarrow> None)"

interpretation token_flights: single_flight "\<lambda>c k. k \<in> set (tkc_inFlight c)" token_get fst token_settled
  by unfold_locales (auto simp: token_get_def token_settled_def Let_def split: option.splits if_splits prod.splits)

section \<open>Definitions: key sets\<close>

record JwksCache =
  jwc_keys :: "(string, (string, jsval) jsmap) jsmap"
  jwc_fetchedAtMs :: "(string, int) jsmap"
  jwc_inFlight :: "string list"
  jwc_minRefetchMs :: int

text \<open>\<^verbatim>\<open>kid ? known.get(kid) : [...known.values()][0]\<close>\<close>

definition pick_key :: "(string, jsval) jsmap \<Rightarrow> string option \<Rightarrow> jsval option" where
  "pick_key known kid = (case kid of None \<Rightarrow> (case known of [] \<Rightarrow> None | (_, k) # _ \<Rightarrow> Some k)
     | Some i \<Rightarrow> if i = [] then (case known of [] \<Rightarrow> None | (_, k) # _ \<Rightarrow> Some k) else map_of known i)"

definition jwks_answer :: "JwksCache \<Rightarrow> string \<Rightarrow> string option \<Rightarrow> jsval option" where
  "jwks_answer c url kid = (case map_of (jwc_keys c) url of None \<Rightarrow> None | Some known \<Rightarrow> pick_key known kid)"

text \<open>\<^verbatim>\<open>Known None\<close> is the answer within the cooldown: there is no such key and nobody is asked.\<close>

definition keyFor_jwks :: "JwksCache \<Rightarrow> string \<times> string option \<times> int \<Rightarrow> jsval option asked \<times> JwksCache" where
  "keyFor_jwks c = (\<lambda>(url, kid, now). case jwks_answer c url kid of
       Some k \<Rightarrow> (Known (Some k), c)
     | None \<Rightarrow>
         if now - (case map_of (jwc_fetchedAtMs c) url of Some t \<Rightarrow> t | None \<Rightarrow> 0) < jwc_minRefetchMs c then (Known None, c)
         else if url \<in> set (jwc_inFlight c) then (Joined, c)
         else (Started, c\<lparr>jwc_inFlight := jwc_inFlight c @ [url]\<rparr>))"

definition signing_keys :: "jsval list \<Rightarrow> (string, jsval) jsmap" where
  "signing_keys keys = foldl (\<lambda>m k. mset_key (case as_string (member k ''kid'') of Some i \<Rightarrow> i | None \<Rightarrow> []) k m) []
     (filter (\<lambda>k. case member k ''use'' of Some (JStr u) \<Rightarrow> u = [] \<or> u = ''sig'' | Some JNull \<Rightarrow> True | None \<Rightarrow> True | _ \<Rightarrow> False) keys)"

definition refresh :: "JwksCache \<Rightarrow> string \<Rightarrow> jsval list option \<times> int \<Rightarrow> JwksCache" where
  "refresh c url = (\<lambda>(result, now).
     let c = (case result of Some keys \<Rightarrow> c\<lparr>jwc_keys := mset_key url (signing_keys keys) (jwc_keys c)\<rparr> | None \<Rightarrow> c)
     in c\<lparr>jwc_fetchedAtMs := mset_key url now (jwc_fetchedAtMs c), jwc_inFlight := filter (\<lambda>u. u \<noteq> url) (jwc_inFlight c)\<rparr>)"

definition setMinRefetchMs :: "JwksCache \<Rightarrow> int \<Rightarrow> JwksCache" where
  "setMinRefetchMs c ms = c\<lparr>jwc_minRefetchMs := ms\<rparr>"

interpretation key_flights: single_flight "\<lambda>c k. k \<in> set (jwc_inFlight c)" keyFor_jwks fst refresh
  by unfold_locales (auto simp: keyFor_jwks_def refresh_def Let_def split: option.splits if_splits prod.splits)

section \<open>Definitions: introspection\<close>

record IntrospectionEntry =
  ine_active :: bool
  ine_claims :: jsval
  ine_expiresAtMs :: rat

record IntrospectionCache =
  inc_entries :: "(string, IntrospectionEntry) jsmap"
  inc_inFlight :: "string list"
  inc_maxEntries :: nat

definition introspection_key :: "js_crypto \<Rightarrow> string \<Rightarrow> string \<Rightarrow> string" where
  "introspection_key cy url token = url @ ''|'' @ cy_sha256 cy token"

text \<open>A hit is re-inserted, so the order of the map is the order of use.\<close>

definition introspect_get :: "IntrospectionCache \<Rightarrow> string \<times> rat \<Rightarrow> IntrospectionEntry asked \<times> IntrospectionCache" where
  "introspect_get c = (\<lambda>(key, now).
     case (case map_of (inc_entries c) key of Some e \<Rightarrow> if now < ine_expiresAtMs e then Some e else None | None \<Rightarrow> None) of
       Some e \<Rightarrow> (Known e, c\<lparr>inc_entries := mset_key key e (mdelete key (inc_entries c))\<rparr>)
     | None \<Rightarrow> if key \<in> set (inc_inFlight c) then (Joined, c) else (Started, c\<lparr>inc_inFlight := inc_inFlight c @ [key]\<rparr>))"

definition introspect :: "IntrospectionAuthUnit \<Rightarrow> jsval \<Rightarrow> rat \<Rightarrow> IntrospectionEntry" where
  "introspect unit claims now =
     (let until = now + of_nat (or_else (in_cacheTtlSec unit) 60) * 1000
      in \<lparr>ine_active = (member claims ''active'' = Some (JBool True)), ine_claims = claims,
          ine_expiresAtMs = (case as_number (member claims ''exp'') of None \<Rightarrow> until | Some e \<Rightarrow> min until (e * 1000))\<rparr>)"

text \<open>\<^verbatim>\<open>while (size >= max) delete the oldest\<close>, then the entry.\<close>

definition remember :: "string \<Rightarrow> IntrospectionEntry \<Rightarrow> IntrospectionCache \<Rightarrow> IntrospectionCache" where
  "remember key e c = c\<lparr>inc_entries :=
     mset_key key e (drop (length (inc_entries c) + 1 - max 1 (inc_maxEntries c)) (inc_entries c))\<rparr>"

text \<open>Each of the waiters stores the entry it waited for.\<close>

definition introspect_settled :: "IntrospectionCache \<Rightarrow> string \<Rightarrow> IntrospectionEntry option \<times> nat \<Rightarrow> IntrospectionCache" where
  "introspect_settled c key = (\<lambda>(result, waiters).
     let c = c\<lparr>inc_inFlight := filter (\<lambda>k. k \<noteq> key) (inc_inFlight c)\<rparr>
     in case result of None \<Rightarrow> c | Some e \<Rightarrow> (remember key e ^^ waiters) c)"

text \<open>What \<^verbatim>\<open>check\<close> answers for an entry, cached or fetched; \<^verbatim>\<open>None\<close> when the provider could not be asked.\<close>

definition introspection_result :: "IntrospectionAuthUnit \<Rightarrow> IntrospectionEntry option \<Rightarrow> rat \<Rightarrow> AuthResult" where
  "introspection_result unit entry now = (case entry of
       None \<Rightarrow> Rejected 401 []
     | Some e \<Rightarrow>
         if \<not> ine_active e \<or> \<not> timeWindowOk (ine_claims e) now 0 then Rejected 401 []
         else if missing_scope (scopesOf (ine_claims e)) (in_requiredScopes unit) then Rejected 403 []
         else Accepted \<lparr>idn_method = ByIntrospection, idn_subject = subject_of (ine_claims e), idn_scopes = scopesOf (ine_claims e),
           idn_claims = ine_claims e, idn_certificate = None\<rparr>)"

lemma remember_inFlight [simp]: "inc_inFlight ((remember key e ^^ n) c) = inc_inFlight c"
  by (induction n) (simp_all add: remember_def)

interpretation introspection_flights: single_flight "\<lambda>c k. k \<in> set (inc_inFlight c)" introspect_get fst introspect_settled
  by unfold_locales (auto simp: introspect_get_def introspect_settled_def Let_def split: option.splits if_splits prod.splits)

section \<open>What the caches promise\<close>

text \<open>C38: One fetch at a time. However requests for tokens, keys and introspection answers interleave with the ends of the fetches,
  each of the three caches has at most one fetch of a key under way: as many were started as ended, and one more exactly while
  one is in flight.\<close>

theorem providers_asked_once:
  "(let (c', started, ended) = foldl (token_flights.flight_step k) (\<lparr>tkc_tokens = tokens, tkc_inFlight = [], tkc_fetches = n\<rparr>, 0, 0) es
    in started = ended + (if k \<in> set (tkc_inFlight c') then 1 else 0)) \<and>
   (let (c', started, ended) = foldl (key_flights.flight_step k)
        (\<lparr>jwc_keys = keys, jwc_fetchedAtMs = at_ms, jwc_inFlight = [], jwc_minRefetchMs = cooldown\<rparr>, 0, 0) es'
    in started = ended + (if k \<in> set (jwc_inFlight c') then 1 else 0)) \<and>
   (let (c', started, ended) = foldl (introspection_flights.flight_step k)
        (\<lparr>inc_entries = entries, inc_inFlight = [], inc_maxEntries = m\<rparr>, 0, 0) es''
    in started = ended + (if k \<in> set (inc_inFlight c') then 1 else 0))"
  using token_flights.one_at_a_time [of k "\<lparr>tkc_tokens = tokens, tkc_inFlight = [], tkc_fetches = n\<rparr>" es]
    key_flights.one_at_a_time [of k "\<lparr>jwc_keys = keys, jwc_fetchedAtMs = at_ms, jwc_inFlight = [], jwc_minRefetchMs = cooldown\<rparr>" es']
    introspection_flights.one_at_a_time [of k "\<lparr>inc_entries = entries, inc_inFlight = [], inc_maxEntries = m\<rparr>" es'']
  by (simp add: token_flights.balanced_def key_flights.balanced_def introspection_flights.balanced_def Let_def)

text \<open>Until the cooldown is over nobody is asked for the keys of an issuer again, whatever names of keys the tokens carry.\<close>

definition asks_before :: "int \<Rightarrow> (string \<times> string option \<times> int, string, jsval list option \<times> int) flight \<Rightarrow> bool" where
  "asks_before t e = (case e of Ask (_, _, now) \<Rightarrow> now < t | Settle _ _ \<Rightarrow> True)"

definition cooling :: "string \<Rightarrow> int \<Rightarrow> JwksCache \<Rightarrow> bool" where
  "cooling url t c \<longleftrightarrow> url \<notin> set (jwc_inFlight c) \<and> (case map_of (jwc_fetchedAtMs c) url of None \<Rightarrow> False | Some f \<Rightarrow> t \<le> f + jwc_minRefetchMs c)"

lemma cooling_step:
  assumes "cooling url t c" "asks_before t e" "key_flights.flight_step url (c, n, m) e = (c', n', m')"
  shows "cooling url t c' \<and> n' = n"
proof (cases e)
  case (Ask q)
  obtain u kid now where q: "q = (u, kid, now)" by (cases q) auto
  obtain a d where d: "keyFor_jwks c q = (a, d)" by (cases "keyFor_jwks c q") auto
  have "d = c \<or> a = Started \<and> u \<noteq> url \<and> d = c\<lparr>jwc_inFlight := jwc_inFlight c @ [u]\<rparr>"
    using assms(1,2) d by (auto simp: Ask q keyFor_jwks_def asks_before_def cooling_def split: option.splits if_splits)
  moreover have "a \<noteq> Started \<or> u \<noteq> url"
    using assms(1,2) d by (auto simp: Ask q keyFor_jwks_def asks_before_def cooling_def split: option.splits if_splits)
  ultimately show ?thesis using assms(1,3) d by (auto simp: Ask q cooling_def split: if_splits option.splits)
next
  case (Settle k r)
  then show ?thesis using assms(1,3)
    by (auto simp: refresh_def cooling_def jsmap Let_def split: if_splits option.splits prod.splits)
qed

lemma cooled_keys_not_fetched:
  assumes "cooling url t c" "list_all (asks_before t) es"
  shows "fst (snd (foldl (key_flights.flight_step url) (c, n, m) es)) = n"
  using assms
proof (induction es arbitrary: c n m)
  case (Cons e es)
  obtain c' n' m' where s: "key_flights.flight_step url (c, n, m) e = (c', n', m')" by (rule prod_cases3)
  with cooling_step [OF Cons.prems(1) _ s] Cons show ?case by simp
qed simp

text \<open>The entries of introspection stay within their bound, and none outlives the token it is about.\<close>

lemma remember_bounded:
  "length (inc_entries c) \<le> max 1 (inc_maxEntries c) \<Longrightarrow>
   length (inc_entries (remember key e c)) \<le> max 1 (inc_maxEntries (remember key e c))"
proof -
  have "length (mset_key key e xs) \<le> Suc (length xs)" for xs by (induction xs) auto
  from this [of "drop (length (inc_entries c) + 1 - max 1 (inc_maxEntries c)) (inc_entries c)"]
  show "length (inc_entries c) \<le> max 1 (inc_maxEntries c) \<Longrightarrow> ?thesis" by (simp add: remember_def)
qed

lemma introspected_within_token:
  "as_number (member claims ''exp'') = Some e \<Longrightarrow> ine_expiresAtMs (introspect unit claims now) \<le> e * 1000"
  by (simp add: introspect_def Let_def)

end
