(* ===== verification/Http.thy ===== *)
theory Http
  imports ConfigDoc
begin

text \<open>
  What the request path works on: the headers of a message (the runtime's \<^verbatim>\<open>Headers\<close>), media types
  (\<^verbatim>\<open>data-plane/src/pipeline.ts\<close>, \<^verbatim>\<open>shared/soap.ts\<close>) and bodies that arrive in chunks, with the functions of the pipeline that
  cap, buffer, sample and replay them. A body is the list of its chunks and whether it ends in an error.

  Shown here: the cap holds for every reader of a body and a body within it is read whole; taking a prefix loses nothing; what is
  read past a bound can be delivered unchanged.
\<close>

declare map_of_eq_Some_iff [simp del] Some_eq_map_of_iff [simp del]

section \<open>Definitions: headers\<close>

text \<open>Names are compared in lower case. Every \<^verbatim>\<open>set-cookie\<close> stays an entry of its own; other fields of one name are joined.\<close>

type_synonym http_headers = "(string \<times> string) list"

definition header_values :: "http_headers \<Rightarrow> string \<Rightarrow> string list" where
  "header_values h name = map snd (filter (\<lambda>(k, _). k = toLowerCase name) h)"

definition header :: "http_headers \<Rightarrow> string \<Rightarrow> string option" where
  "header h name = (case header_values h name of [] \<Rightarrow> None | vs \<Rightarrow> Some (js_join '', '' vs))"

definition header_delete :: "string \<Rightarrow> http_headers \<Rightarrow> http_headers" where
  "header_delete name h = filter (\<lambda>(k, _). k \<noteq> toLowerCase name) h"

definition header_set :: "string \<Rightarrow> string \<Rightarrow> http_headers \<Rightarrow> http_headers" where
  "header_set name v h = header_delete name h @ [(toLowerCase name, v)]"

definition header_append :: "string \<Rightarrow> string \<Rightarrow> http_headers \<Rightarrow> http_headers" where
  "header_append name v h = (case header h name of
       None \<Rightarrow> h @ [(toLowerCase name, v)]
     | Some old \<Rightarrow> if toLowerCase name = ''set-cookie'' then h @ [(toLowerCase name, v)] else header_set name (old @ '', '' @ v) h)"

definition header_has :: "string \<Rightarrow> http_headers \<Rightarrow> bool" where
  "header_has name h \<longleftrightarrow> header_values h name \<noteq> []"

definition set_all :: "(string \<times> string) list \<Rightarrow> http_headers \<Rightarrow> http_headers" where
  "set_all pairs h = foldl (\<lambda>h (name, v). header_set name v h) h pairs"

definition HOP_BY_HOP :: "string list" where
  "HOP_BY_HOP = [''connection'', ''keep-alive'', ''proxy-authenticate'', ''proxy-authorization'', ''te'', ''trailer'',
     ''transfer-encoding'', ''upgrade'']"

text \<open>\<^verbatim>\<open>for (const [name, value] of from) if (!HOP_BY_HOP.has(name)) to.set(name, value)\<close>\<close>

definition carry_over :: "http_headers \<Rightarrow> http_headers" where
  "carry_over from = set_all (filter (\<lambda>(name, _). toLowerCase name \<notin> set HOP_BY_HOP) from) []"

section \<open>Definitions: media types\<close>

definition mediaTypeOf :: "string option \<Rightarrow> string" where
  "mediaTypeOf contentType = toLowerCase (js_trim (hd (js_split CHR '';'' (or_else contentType []))))"

definition JSON_MEDIA :: "string list" where
  "JSON_MEDIA = [''application/json'', ''application/*+json'']"

definition media_pattern :: "string \<Rightarrow> string \<Rightarrow> bool" where
  "media_pattern media pattern =
     (let p = toLowerCase pattern in
      if p = media then True
      else if p = ''*/*'' then True
      else if ends_with ''/*'' p then starts_with (butlast p) media
      else if contains_str ''*+'' p
      then starts_with (takeWhile (\<lambda>c. c \<noteq> CHR ''*'') p) media \<and>
        ends_with (drop 2 (dropWhile (\<lambda>c. c \<noteq> CHR ''*'') p)) media
      else False)"

definition matchesMedia :: "string \<Rightarrow> string list \<Rightarrow> bool" where
  "matchesMedia media allowed \<longleftrightarrow> media \<noteq> [] \<and> list_ex (media_pattern media) allowed"

section \<open>Definitions: bodies\<close>

type_synonym bytes = "nat list"

record body_stream =
  st_chunks :: "bytes list"
  st_breaks :: bool

definition content :: "body_stream \<Rightarrow> bytes" where
  "content s = concat (st_chunks s)"

text \<open>The chunks a capped stream lets through: the first one over the cap is an error instead.\<close>

fun within_cap :: "nat \<Rightarrow> nat \<Rightarrow> bytes list \<Rightarrow> bytes list \<times> bool" where
  "within_cap cap n [] = ([], False)"
| "within_cap cap n (c # cs) =
     (if cap < n + length c then ([], True) else (case within_cap cap (n + length c) cs of (ds, over) \<Rightarrow> (c # ds, over)))"

definition cappedBody :: "nat \<Rightarrow> body_stream \<Rightarrow> body_stream" where
  "cappedBody cap s = (case within_cap cap 0 (st_chunks s) of (cs, over) \<Rightarrow> \<lparr>st_chunks = cs, st_breaks = (over \<or> st_breaks s)\<rparr>)"

text \<open>\<open>None\<close> is \<^verbatim>\<open>overCap\<close>, which a read that fails is too.\<close>

fun read_chunks :: "nat \<Rightarrow> bytes \<Rightarrow> bytes list \<Rightarrow> bytes option" where
  "read_chunks cap got [] = Some got"
| "read_chunks cap got (c # cs) = (if cap < length got + length c then None else read_chunks cap (got @ c) cs)"

definition readWholeBody :: "nat \<Rightarrow> body_stream option \<Rightarrow> bytes option" where
  "readWholeBody cap body = (case body of
       None \<Rightarrow> Some []
     | Some s \<Rightarrow> (case read_chunks cap [] (st_chunks s) of None \<Rightarrow> None | Some bs \<Rightarrow> if st_breaks s then None else Some bs))"

definition stream_of :: "bytes \<Rightarrow> body_stream" where
  "stream_of bs = \<lparr>st_chunks = (if bs = [] then [] else [bs]), st_breaks = False\<rparr>"

text \<open>The sample of warning mode: the stream to forward and the copy.\<close>

definition teeBody :: "body_stream option \<Rightarrow> bytes option \<Rightarrow> nat \<Rightarrow> body_stream option \<times> bytes option" where
  "teeBody streamed buffered cap = (case buffered of
       Some bs \<Rightarrow> (None, Some bs)
     | None \<Rightarrow> (case streamed of
         None \<Rightarrow> (None, None)
       | Some s \<Rightarrow> (case readWholeBody cap (Some s) of None \<Rightarrow> (None, None) | Some bs \<Rightarrow> (Some (stream_of bs), Some bs))))"

text \<open>\<open>None\<close> is \<^verbatim>\<open>overCap\<close>; otherwise the prefix and the stream that replays it before the rest.\<close>

fun prefix_chunks :: "nat \<Rightarrow> bytes \<Rightarrow> bytes list \<Rightarrow> bytes \<times> bytes list \<times> bool" where
  "prefix_chunks cap got cs =
     (if cap \<le> length got then (got, cs, False)
      else (case cs of [] \<Rightarrow> (got, [], True) | c # cs \<Rightarrow> prefix_chunks cap (got @ c) cs))"

declare prefix_chunks.simps [simp del]

definition takePrefix :: "body_stream \<Rightarrow> nat \<Rightarrow> (bytes \<times> body_stream) option" where
  "takePrefix s cap = (case prefix_chunks cap [] (st_chunks s) of (prefix, rest, ended) \<Rightarrow>
     if ended \<and> st_breaks s then None
     else Some (prefix, \<lparr>st_chunks = (if prefix = [] then [] else [prefix]) @ rest, st_breaks = st_breaks s\<rparr>))"

datatype resumable = Whole bytes | Resume body_stream | Lost

fun resume_chunks :: "nat \<Rightarrow> bytes \<Rightarrow> bytes list \<Rightarrow> bytes list \<Rightarrow> (bytes, bytes list) sum" where
  "resume_chunks cap got seen [] = Inl got"
| "resume_chunks cap got seen (c # cs) =
     (if cap < length got + length c then Inr (seen @ c # cs) else resume_chunks cap (got @ c) (seen @ [c]) cs)"

definition readResumable :: "body_stream option \<Rightarrow> nat \<Rightarrow> resumable" where
  "readResumable body cap = (case body of
       None \<Rightarrow> Whole []
     | Some s \<Rightarrow> (case resume_chunks cap [] [] (st_chunks s) of
           Inl bs \<Rightarrow> if st_breaks s then Lost else Whole bs
         | Inr cs \<Rightarrow> Resume \<lparr>st_chunks = cs, st_breaks = st_breaks s\<rparr>))"

section \<open>Headers\<close>

lemma header_values_delete [simp]:
  "header_values (header_delete n h) m = (if toLowerCase n = toLowerCase m then [] else header_values h m)"
proof -
  have "filter (\<lambda>(k, _). k = b) (filter (\<lambda>(k, _). k \<noteq> a) h) = (if a = b then [] else filter (\<lambda>(k, _). k = b) h)" for a b
    by (induction h) auto
  then show ?thesis by (simp add: header_values_def header_delete_def)
qed

lemma header_values_snoc [simp]:
  "header_values (h @ [(k, v)]) m = header_values h m @ (if k = toLowerCase m then [v] else [])"
  by (simp add: header_values_def)

lemma header_values_set [simp]:
  "header_values (header_set n v h) m = (if toLowerCase n = toLowerCase m then [v] else header_values h m)"
  by (simp add: header_set_def)

lemma header_set [simp]: "header (header_set n v h) m = (if toLowerCase n = toLowerCase m then Some v else header h m)"
  by (simp add: header_def)

lemma header_delete [simp]: "header (header_delete n h) m = (if toLowerCase n = toLowerCase m then None else header h m)"
  by (simp add: header_def)

lemma header_has_iff: "header_has n h \<longleftrightarrow> header h n \<noteq> None"
  by (simp add: header_has_def header_def split: list.split)

lemma header_append_other [simp]: "toLowerCase n \<noteq> toLowerCase m \<Longrightarrow> header (header_append n v h) m = header h m"
  by (simp add: header_append_def header_def split: option.split)

lemma lower_lower [simp]: "toLowerCase (toLowerCase s) = toLowerCase s"
proof -
  have "lower_char (lower_char c) = lower_char c" for c
  proof (cases "char_in CHR ''A'' CHR ''Z'' c")
    case True
    then have "(of_char c :: nat) + 32 < 256" "65 \<le> (of_char c :: nat)" by (auto simp: char_in_def)
    then have "(of_char (char_of (of_char c + 32 :: nat) :: char) :: nat) = of_char c + 32" by (simp add: of_char_of)
    with True \<open>65 \<le> _\<close> show ?thesis by (simp add: lower_char_def char_in_def)
  qed (simp add: lower_char_def)
  then show ?thesis by (simp add: toLowerCase_def)
qed

lemma set_all_other: "toLowerCase m \<notin> toLowerCase ` fst ` set pairs \<Longrightarrow> header (set_all pairs h) m = header h m"
  by (induction pairs arbitrary: h) (auto simp: set_all_def)

lemma carry_over_hop_free: "toLowerCase n \<in> set HOP_BY_HOP \<Longrightarrow> header (carry_over from) n = None"
proof -
  assume n: "toLowerCase n \<in> set HOP_BY_HOP"
  then have "toLowerCase n \<notin> toLowerCase ` fst ` set (filter (\<lambda>(name, _). toLowerCase name \<notin> set HOP_BY_HOP) from)" by auto
  from set_all_other [OF this] show ?thesis by (simp add: carry_over_def header_def header_values_def)
qed

text \<open>Two cookies a backend sets do not both survive the copy: each entry overwrites the last of its name.\<close>

lemma cookie_lost:
  "header_values (carry_over [(''set-cookie'', ''a=1''), (''set-cookie'', ''b=2'')]) ''set-cookie'' = [''b=2'']"
  by code_simp

text \<open>A stream of JSON lines is taken for one JSON document: the pattern for suffixes drops its plus sign.\<close>

lemma ndjson_taken_for_json: "matchesMedia ''application/x-ndjson'' JSON_MEDIA"
  by code_simp

section \<open>Bodies\<close>

lemma within_cap_spec:
  "n \<le> cap \<Longrightarrow> within_cap cap n cs = (ds, over) \<Longrightarrow>
   n + length (concat ds) \<le> cap \<and> (over \<longleftrightarrow> cap < n + length (concat cs)) \<and> (\<not> over \<longrightarrow> ds = cs)"
proof (induction cs arbitrary: n ds)
  case (Cons c cs)
  show ?case
  proof (cases "cap < n + length c")
    case False
    then obtain es where es: "within_cap cap (n + length c) cs = (es, over)" "ds = c # es"
      using Cons.prems by (auto split: prod.splits)
    with Cons.IH [OF _ es(1)] False show ?thesis by auto
  qed (use Cons.prems in auto)
qed simp

lemma read_chunks_spec:
  "length got \<le> cap \<Longrightarrow> read_chunks cap got cs = (if cap < length got + length (concat cs) then None else Some (got @ concat cs))"
  by (induction cs arbitrary: got) auto

lemma readWholeBody_spec:
  "readWholeBody cap (Some s) = (if cap < length (content s) \<or> st_breaks s then None else Some (content s))"
  by (simp add: readWholeBody_def read_chunks_spec content_def)

lemma resume_chunks_spec:
  "length (concat seen) \<le> cap \<Longrightarrow>
   resume_chunks cap (concat seen) seen cs =
     (if cap < length (concat seen) + length (concat cs) then Inr (seen @ cs) else Inl (concat seen @ concat cs))"
proof (induction cs arbitrary: seen)
  case (Cons c cs)
  show ?case
  proof (cases "cap < length (concat seen) + length c")
    case False
    with Cons.IH [of "seen @ [c]"] have "resume_chunks cap (concat seen @ c) (seen @ [c]) cs =
      (if cap < length (concat seen @ c) + length (concat cs) then Inr ((seen @ [c]) @ cs) else Inl ((concat seen @ c) @ concat cs))"
      by simp
    with False show ?thesis by simp
  qed simp
qed simp

lemma readResumable_spec:
  "readResumable (Some s) cap = (if cap < length (content s) then Resume s else if st_breaks s then Lost else Whole (content s))"
  using resume_chunks_spec [of "[]" cap "st_chunks s"] by (auto simp: readResumable_def content_def)

lemma prefix_chunks_spec:
  "prefix_chunks cap got cs = (prefix, rest, ended) \<Longrightarrow>
   prefix @ concat rest = got @ concat cs \<and> (ended \<longrightarrow> rest = []) \<and> (\<not> ended \<longrightarrow> cap \<le> length prefix)"
proof (induction cap got cs rule: prefix_chunks.induct)
  case (1 cap got cs)
  note step = prefix_chunks.simps [of cap got cs]
  show ?case
  proof (cases "cap \<le> length got")
    case True
    with "1.prems" show ?thesis by (simp add: step)
  next
    case low: False
    show ?thesis
    proof (cases cs)
      case Nil
      with "1.prems" low show ?thesis by (simp add: prefix_chunks.simps [of cap got "[]"])
    next
      case (Cons c ds)
      with "1.prems" low have "prefix_chunks cap (got @ c) ds = (prefix, rest, ended)"
        by (simp add: prefix_chunks.simps [of cap got "c # ds"])
      from "1.IH" [OF low Cons this] Cons show ?thesis by simp
    qed
  qed
qed

lemma capped_content: "length (content (cappedBody cap s)) \<le> cap \<and>
    (if cap < length (content s) then st_breaks (cappedBody cap s) else cappedBody cap s = s)"
proof -
  obtain ds over where d: "within_cap cap 0 (st_chunks s) = (ds, over)" by fastforce
  from within_cap_spec [OF _ d] show ?thesis by (auto simp: cappedBody_def content_def d)
qed

text \<open>The cap on a request body. Whoever reads a capped body gets at most the cap, gets all of a body that is within it,
  and can tell the others: buffering the capped body gives the bytes that were sent, or nothing when they were over the cap or
  the caller broke off.\<close>

lemma body_cap_enforced:
  "length (content (cappedBody cap s)) \<le> cap \<and>
   readWholeBody cap (Some (cappedBody cap s)) = (if cap < length (content s) \<or> st_breaks s then None else Some (content s)) \<and>
   (if length (content s) \<le> cap then cappedBody cap s = s else st_breaks (cappedBody cap s))"
  using capped_content [of cap s] by (auto simp: readWholeBody_spec split: if_splits)

text \<open>Looking at the front of a body changes nothing of what is delivered: the stream handed back after taking a prefix, and
  the one handed back when a response was too large to inspect, carry the same bytes and end the same way, and the prefix is
  the front of them.\<close>

lemma peeking_lossless:
  "(case takePrefix s n of
      None \<Rightarrow> st_breaks s
    | Some (prefix, t) \<Rightarrow> content t = content s \<and> st_breaks t = st_breaks s \<and> take (length prefix) (content s) = prefix \<and>
        (n \<le> length prefix \<or> prefix = content s)) \<and>
   (case readResumable (Some s) n of
      Whole bs \<Rightarrow> bs = content s \<and> \<not> st_breaks s
    | Resume t \<Rightarrow> content t = content s \<and> st_breaks t = st_breaks s \<and> n < length (content s)
    | Lost \<Rightarrow> st_breaks s)"
proof -
  obtain prefix rest ended where p: "prefix_chunks n [] (st_chunks s) = (prefix, rest, ended)" by (cases "prefix_chunks n [] (st_chunks s)")
  from prefix_chunks_spec [OF p]
  have "prefix @ concat rest = content s" "ended \<longrightarrow> rest = []" "\<not> ended \<longrightarrow> n \<le> length prefix" by (auto simp: content_def)
  then show ?thesis
    by (auto simp: takePrefix_def p readResumable_spec content_def split: if_splits)
      (metis append_eq_conv_conj concat.simps(1))+
qed

text \<open>Warning mode is not so careful: a body over the cap is dropped from the request rather than refused.\<close>

lemma tee_drops_body: "cap < length (content s) \<Longrightarrow> teeBody (Some (cappedBody cap s)) None cap = (None, None)"
  using capped_content [of cap s] by (simp add: teeBody_def readWholeBody_spec)

end
