(* ===== verification/Sampling.thy ===== *)
theory Sampling
  imports ConfigDoc
begin

text \<open>
  What bounds the work of validation (\<^verbatim>\<open>data-plane/src/validate.ts\<close>): the sampler of warning mode, the pool its checks wait in,
  the counters an instance reports and the budget of buffered bytes of blocking mode. The digest's first four bytes as a fraction
  are an argument of the sampler; a task of the pool is a value, and whether running it throws is an argument.

  Shown here: the queue of the pool is bounded, never left without a drain that will empty it, and loses no task uncounted; the
  budget holds exactly what is reserved; the sampler takes the whole first burst of a key and remembers boundedly many.
\<close>

declare map_of_eq_Some_iff [simp del] Some_eq_map_of_iff [simp del]

section \<open>Definitions: the sampler\<close>

record Sampler =
  sam_seen :: "(string, nat) jsmap"
  sam_escalated :: "(string, int) jsmap"
  sam_maxKeys :: nat

definition sampler_key :: "string option \<Rightarrow> string option \<Rightarrow> ValidateSample option \<Rightarrow> string" where
  "sampler_key operationId subscriptionId sample =
     js_join ''|'' ((if (case sample of Some s \<Rightarrow> vs_byOperation s | None \<Rightarrow> True) then [or_else operationId ''-''] else []) @
       (if (case sample of Some s \<Rightarrow> vs_bySubscription s | None \<Rightarrow> True) then [or_else subscriptionId ''-''] else []))"

record sample_options =
  smo_rate :: rat
  smo_coldStart :: nat
  smo_alwaysUnderBytes :: nat

definition decide ::
  "(string \<Rightarrow> rat) \<Rightarrow> int \<Rightarrow> Sampler \<Rightarrow> string \<Rightarrow> string \<Rightarrow> sample_options \<Rightarrow> nat \<Rightarrow> bool \<times> Sampler" where
  "decide fraction now s key requestId options bodyBytes =
     (if bodyBytes \<le> smo_alwaysUnderBytes options then (True, s)
      else (let escalated = map_of (sam_escalated s) key in
        if (case escalated of Some until \<Rightarrow> now < until | None \<Rightarrow> False) then (True, s)
        else (let s = (if escalated = None then s else s\<lparr>sam_escalated := mdelete key (sam_escalated s)\<rparr>);
                  count = (case map_of (sam_seen s) key of Some n \<Rightarrow> n | None \<Rightarrow> 0) + 1;
                  full = (sam_maxKeys s \<le> length (sam_seen s) \<and> map_of (sam_seen s) key = None);
                  s' = (if full then s else s\<lparr>sam_seen := mset_key key count (sam_seen s)\<rparr>)
              in (if \<not> full \<and> count \<le> smo_coldStart options then True
                  else fraction (key @ ''|'' @ requestId) < smo_rate options, s'))))"

definition escalate :: "int \<Rightarrow> Sampler \<Rightarrow> string \<Rightarrow> int \<Rightarrow> Sampler" where
  "escalate now s key seconds =
     (if seconds \<le> 0 then s else s\<lparr>sam_escalated := mset_key key (now + seconds * 1000) (sam_escalated s)\<rparr>)"

definition sampler_reset :: "Sampler \<Rightarrow> Sampler" where
  "sampler_reset s = s\<lparr>sam_seen := [], sam_escalated := []\<rparr>"

section \<open>Definitions: the pool\<close>

record 'task ValidationPool =
  vp_queue :: "'task list"
  vp_draining :: nat
  vp_dropped :: nat
  vp_concurrency :: nat
  vp_depth :: nat

definition pool_resize :: "'task ValidationPool \<Rightarrow> nat \<Rightarrow> nat \<Rightarrow> 'task ValidationPool" where
  "pool_resize p concurrency depth = p\<lparr>vp_concurrency := concurrency, vp_depth := depth\<rparr>"

definition submit :: "'task ValidationPool \<Rightarrow> 'task \<Rightarrow> bool \<times> 'task ValidationPool" where
  "submit p task =
     (if vp_depth p \<le> length (vp_queue p) then (False, p\<lparr>vp_dropped := vp_dropped p + 1\<rparr>)
      else (True, p\<lparr>vp_queue := vp_queue p @ [task],
        vp_draining := (if vp_draining p < vp_concurrency p then vp_draining p + 1 else vp_draining p)\<rparr>))"

text \<open>One turn of a scheduled drain: the task it ran, if any. A drain is scheduled again while there is something queued.\<close>

definition pool_drain :: "bool \<Rightarrow> 'task ValidationPool \<Rightarrow> 'task option \<times> 'task ValidationPool" where
  "pool_drain throws p = (case vp_queue p of
       [] \<Rightarrow> (None, p\<lparr>vp_draining := vp_draining p - 1\<rparr>)
     | task # rest \<Rightarrow> (Some task, p\<lparr>vp_queue := rest, vp_dropped := (if throws then vp_dropped p + 1 else vp_dropped p),
         vp_draining := (if rest \<noteq> [] then vp_draining p else vp_draining p - 1)\<rparr>))"

section \<open>Definitions: the counters and the budget\<close>

record ValidationCounters =
  vc_rejected :: nat
  vc_observed :: nat
  vc_sampleDropped :: nat
  vc_unavailable :: nat
  vc_budgetShed :: nat

definition emptyValidationCounters :: ValidationCounters where
  "emptyValidationCounters = \<lparr>vc_rejected = 0, vc_observed = 0, vc_sampleDropped = 0, vc_unavailable = 0, vc_budgetShed = 0\<rparr>"

datatype counter_name = CRejected | CObserved | CSampleDropped | CUnavailable | CBudgetShed

fun counted :: "counter_name \<Rightarrow> ValidationCounters \<Rightarrow> ValidationCounters" where
  "counted CRejected c = c\<lparr>vc_rejected := vc_rejected c + 1\<rparr>"
| "counted CObserved c = c\<lparr>vc_observed := vc_observed c + 1\<rparr>"
| "counted CSampleDropped c = c\<lparr>vc_sampleDropped := vc_sampleDropped c + 1\<rparr>"
| "counted CUnavailable c = c\<lparr>vc_unavailable := vc_unavailable c + 1\<rparr>"
| "counted CBudgetShed c = c\<lparr>vc_budgetShed := vc_budgetShed c + 1\<rparr>"

record BlockingBudget =
  bud_used :: nat
  bud_total :: nat

definition budget_resize :: "BlockingBudget \<Rightarrow> nat \<Rightarrow> BlockingBudget" where
  "budget_resize b n = b\<lparr>bud_total := n\<rparr>"

definition tryReserve :: "BlockingBudget \<Rightarrow> nat \<Rightarrow> bool \<times> BlockingBudget" where
  "tryReserve b bytes = (if bud_total b < bud_used b + bytes then (False, b) else (True, b\<lparr>bud_used := bud_used b + bytes\<rparr>))"

definition budget_release :: "BlockingBudget \<Rightarrow> nat \<Rightarrow> BlockingBudget" where
  "budget_release b bytes = b\<lparr>bud_used := bud_used b - bytes\<rparr>"

section \<open>The pool loses nothing\<close>

text \<open>A history of the pool: how many tasks were submitted, and how many were run.\<close>

datatype 'task pool_event = Submit 'task | Drain bool | Resize nat nat

record 'task pool_history =
  ph_pool :: "'task ValidationPool"
  ph_submitted :: nat
  ph_ran :: nat
  ph_threw :: nat
  ph_deepest :: nat

fun pool_step :: "'task pool_history \<Rightarrow> 'task pool_event \<Rightarrow> 'task pool_history" where
  "pool_step h (Submit task) = h\<lparr>ph_pool := snd (submit (ph_pool h) task), ph_submitted := ph_submitted h + 1\<rparr>"
| "pool_step h (Drain throws) =
     (if vp_draining (ph_pool h) = 0 then h
      else (case pool_drain throws (ph_pool h) of
          (None, p) \<Rightarrow> h\<lparr>ph_pool := p\<rparr>
        | (Some _, p) \<Rightarrow> h\<lparr>ph_pool := p, ph_ran := ph_ran h + 1, ph_threw := (if throws then ph_threw h + 1 else ph_threw h)\<rparr>))"
| "pool_step h (Resize n depth) =
     h\<lparr>ph_pool := pool_resize (ph_pool h) (Suc n) depth, ph_deepest := max (ph_deepest h) depth\<rparr>"

definition pool_good :: "'task pool_history \<Rightarrow> bool" where
  "pool_good h \<longleftrightarrow>
     (let p = ph_pool h in
      1 \<le> vp_concurrency p \<and> vp_depth p \<le> ph_deepest h \<and> length (vp_queue p) \<le> ph_deepest h \<and>
      (vp_queue p = [] \<or> 0 < vp_draining p) \<and>
      ph_submitted h + ph_threw h = ph_ran h + length (vp_queue p) + vp_dropped p)"

lemma pool_step_good: "pool_good h \<Longrightarrow> pool_good (pool_step h e)"
  by (cases e) (auto simp: pool_good_def submit_def pool_drain_def pool_resize_def Let_def split: list.splits)

interpretation sampling_pool: machine pool_step pool_good
  by unfold_locales (rule pool_step_good)

definition new_pool :: "nat \<Rightarrow> nat \<Rightarrow> 'task pool_history" where
  "new_pool concurrency depth = \<lparr>ph_pool = \<lparr>vp_queue = [], vp_draining = 0, vp_dropped = 0, vp_concurrency = concurrency, vp_depth = depth\<rparr>,
     ph_submitted = 0, ph_ran = 0, ph_threw = 0, ph_deepest = depth\<rparr>"

text \<open>C39: The pool of samples. After any submissions, drains and resizes of a pool of at least one worker, its queue is within the
  deepest bound it had, a drain is scheduled whenever something is queued, and every task submitted was run, is queued or was
  counted as dropped (one that throws is counted as both run and dropped).\<close>

theorem samples_accounted:
  "case foldl pool_step (new_pool (Suc workers) depth) es of h \<Rightarrow>
     length (vp_queue (ph_pool h)) \<le> ph_deepest h \<and>
     (vp_queue (ph_pool h) = [] \<or> 0 < vp_draining (ph_pool h)) \<and>
     ph_submitted h + ph_threw h = ph_ran h + length (vp_queue (ph_pool h)) + vp_dropped (ph_pool h)"
proof -
  have "pool_good (new_pool (Suc workers) depth)" by (simp add: pool_good_def new_pool_def)
  then have "pool_good (foldl pool_step (new_pool (Suc workers) depth) es)" by (rule sampling_pool.run_good)
  then show ?thesis by (simp add: pool_good_def Let_def)
qed

section \<open>The budget and the sampler\<close>

lemma reserve_within: "tryReserve b bytes = (True, b') \<Longrightarrow> bud_used b' = bud_used b + bytes \<and> bud_used b' \<le> bud_total b'"
  by (auto simp: tryReserve_def split: if_splits)

lemma reserve_release: "tryReserve b bytes = (True, b') \<Longrightarrow> budget_release b' bytes = b"
  by (auto simp: tryReserve_def budget_release_def split: if_splits)

lemma seen_bounded:
  assumes "length (sam_seen s) \<le> sam_maxKeys s"
  shows "length (sam_seen (snd (decide fraction now s key rid options bytes))) \<le> sam_maxKeys (snd (decide fraction now s key rid options bytes))"
proof -
  have "length (mset_key key n m) = (if key \<in> set (mkeys m) then length m else Suc (length m))" for n :: nat and m
    by (induction m) auto
  with assms show ?thesis by (auto simp: decide_def Let_def get_None_iff split: option.splits)
qed

lemma burst_sampled:
  assumes "(case map_of (sam_seen s) key of Some n \<Rightarrow> n | None \<Rightarrow> 0) < smo_coldStart options"
    and "length (sam_seen s) < sam_maxKeys s \<or> map_of (sam_seen s) key \<noteq> None"
  shows "fst (decide fraction now s key rid options bytes)"
  using assms by (auto simp: decide_def Let_def split: option.splits)

end
