(* ===== verification/Admission.thy ===== *)
theory Admission
  imports Http Identity RouteTable RateLimit Quota Sampling Template Net Cache Streams
begin

text \<open>
  The request path up to its preconditions (\<^verbatim>\<open>handleRequest\<close> of \<^verbatim>\<open>data-plane/src/pipeline.ts\<close>, steps 1 to 10): the route, the
  limits that always hold, the client address, the preflight, who calls and whether the product of the subscription contains the
  API, the rate limit, the quota and the preconditions. \<open>Gateway\<close> is what \<^verbatim>\<open>PipelineDeps\<close> holds fixed, \<open>Instance\<close> what it
  changes. A phase goes on with a value, stops with a reply, or throws. Nothing waits between steps 8 and 10, and the steps
  before them do not touch the instance, so the whole is one function of the state that step 8 finds.

  The text of a reply is left out, and so are the two headers that describe it. Regular expressions, hashing, the formatting of a
  date as \<^verbatim>\<open>toUTCString\<close> does and of a number, and the answers of the identity providers are arguments.
\<close>

declare map_of_eq_Some_iff [simp del] Some_eq_map_of_iff [simp del]

section \<open>Definitions: requests, replies and the state\<close>

record HttpRequest =
  req_method :: string
  req_headers :: http_headers
  req_pathname :: string
  req_search :: string
  req_query :: "(string \<times> string) list"
  req_protocol :: string
  req_body :: "body_stream option"

record Gateway =
  gw_table :: RouteTable
  gw_maxBodyBytes :: nat
  gw_clientIp :: string
  gw_peerIp :: "string option"
  gw_requestId :: string
  gw_trustedPeer :: bool
  gw_clientCertHeaders :: CertHeaderNames
  gw_crypto :: js_crypto
  gw_keys :: "string \<Rightarrow> string option \<Rightarrow> jsval option"
  gw_introspect :: "string \<Rightarrow> IntrospectionAuthUnit \<Rightarrow> ConfigIssuer \<Rightarrow> AuthResult"
  gw_utcString :: "int \<Rightarrow> string"
  gw_number :: "rat \<Rightarrow> string"

text \<open>The queued checks of warning mode are of a type the validation of bodies fixes.\<close>

record 'task Instance =
  ins_limiter :: RateLimiter
  ins_quota :: QuotaCounters
  ins_counters :: ValidationCounters
  ins_budget :: BlockingBudget
  ins_sampler :: Sampler
  ins_pool :: "'task ValidationPool"

record Reply =
  rp_status :: nat
  rp_headers :: http_headers
  rp_outcome :: string
  rp_note :: "string option"

datatype 'a phase = Go 'a | Stop Reply | Crash

fun and_then :: "'a phase \<Rightarrow> ('a \<Rightarrow> 'b phase) \<Rightarrow> 'b phase" where
  "and_then (Go x) f = f x"
| "and_then (Stop r) f = Stop r"
| "and_then Crash f = Crash"

section \<open>Definitions: headers of every reply\<close>

definition lifecycleHeaders :: "(int \<Rightarrow> string) \<Rightarrow> ConfigRoute \<Rightarrow> (string \<times> string) list" where
  "lifecycleHeaders toUTCString route =
     (if cr_lifecycle route = Active then []
      else [(''deprecation'', ''true'')] @
        (case cr_sunsetAt route of
           None \<Rightarrow> []
         | Some s \<Rightarrow> if s = [] then [] else (case Date_parse s of None \<Rightarrow> [] | Some t \<Rightarrow> [(''sunset'', toUTCString t)])))"

definition corsHeaders :: "ConfigRoute \<Rightarrow> string option \<Rightarrow> (string \<times> string) list" where
  "corsHeaders route origin = (case (pd_cors (cr_policy route), origin) of
       (Some unit, Some o') \<Rightarrow>
         if o' = [] \<or> \<not> (''*'' \<in> set (co_origins unit) \<or> o' \<in> set (co_origins unit)) then []
         else [(''access-control-allow-origin'', if ''*'' \<in> set (co_origins unit) \<and> \<not> co_credentials unit then ''*'' else o'),
               (''vary'', ''Origin'')] @
           (if co_credentials unit then [(''access-control-allow-credentials'', ''true'')] else []) @
           (case co_exposeHeaders unit of
              Some hs \<Rightarrow> if hs = [] then [] else [(''access-control-expose-headers'', js_join '', '' hs)] | None \<Rightarrow> [])
     | _ \<Rightarrow> [])"

text \<open>An object of header names handed to \<^verbatim>\<open>new Response\<close>: names that differ in case only are joined.\<close>

definition response_headers :: "(string, string) jsmap \<Rightarrow> http_headers" where
  "response_headers obj = foldl (\<lambda>h (name, v). header_append name v h) [] obj"

text \<open>\<^verbatim>\<open>finish\<close> and \<^verbatim>\<open>deny\<close>. The route is known once step 1 has passed.\<close>

definition finish :: "Gateway \<Rightarrow> HttpRequest \<Rightarrow> ConfigRoute option \<Rightarrow> nat \<Rightarrow> http_headers \<Rightarrow> string \<Rightarrow> string option \<Rightarrow> Reply" where
  "finish gw req route status headers outcome note =
     \<lparr>rp_status = status,
      rp_headers = header_set ''x-request-id'' (gw_requestId gw)
        (case route of None \<Rightarrow> headers
         | Some r \<Rightarrow> set_all (lifecycleHeaders (gw_utcString gw) r @ corsHeaders r (header (req_headers req) ''origin'')) headers),
      rp_outcome = outcome, rp_note = note\<rparr>"

definition deny :: "Gateway \<Rightarrow> HttpRequest \<Rightarrow> ConfigRoute option \<Rightarrow> nat \<Rightarrow> string \<Rightarrow> (string, string) jsmap \<Rightarrow> Reply" where
  "deny gw req route status outcome headers =
     finish gw req route status
       (response_headers (foldl (\<lambda>m (k, v). mset_key k v m) [(''x-request-id'', gw_requestId gw)] headers)) outcome (Some outcome)"

definition preflightResponse :: "ConfigRoute \<Rightarrow> HttpRequest \<Rightarrow> string \<Rightarrow> http_headers option" where
  "preflightResponse route req requestId = (case pd_cors (cr_policy route) of
       None \<Rightarrow> None
     | Some unit \<Rightarrow>
         if req_method req \<noteq> ''OPTIONS'' then None
         else if or_else (header (req_headers req) ''access-control-request-method'') [] = [] then None
         else (let requested = or_else (header (req_headers req) ''access-control-request-headers'') [];
                   declared = or_else (co_headers unit) []
               in Some (response_headers
                 (corsHeaders route (header (req_headers req) ''origin'') @
                  [(''access-control-allow-methods'',
                      js_join '', '' (or_else (co_methods unit) [''GET'', ''POST'', ''PUT'', ''PATCH'', ''DELETE''])),
                   (''access-control-max-age'', show_nat (or_else (co_maxAgeSec unit) 600)),
                   (''x-request-id'', requestId), (''content-length'', ''0'')] @
                  (if declared \<noteq> [] then [(''access-control-allow-headers'', js_join '', '' declared)]
                   else if requested \<noteq> [] then [(''access-control-allow-headers'', requested)] else [])))))"

section \<open>Definitions: steps 1 to 5\<close>

record Received =
  rcv_route :: ConfigRoute
  rcv_certificate :: "ClientCertificate option"
  rcv_maxBody :: nat
  rcv_hasBody :: bool

definition always_of :: "ConfigRoute \<Rightarrow> ValidateAlways option" where
  "always_of route = Option.bind (pd_validate (cr_policy route)) vu_always"

definition route_max_body :: "Gateway \<Rightarrow> ConfigRoute \<Rightarrow> nat" where
  "route_max_body gw route = min (or_else (Option.bind (always_of route) va_maxBodyBytes) (gw_maxBodyBytes gw)) (gw_maxBodyBytes gw)"

definition declared_length :: "HttpRequest \<Rightarrow> rat option" where
  "declared_length req = js_Number (or_else (header (req_headers req) ''content-length'') ''0'')"

definition card_request :: "ConfigRoute \<Rightarrow> HttpRequest \<Rightarrow> A2aRoute option" where
  "card_request route req = (case cr_a2a route of
       None \<Rightarrow> None | Some a \<Rightarrow> if req_pathname req = a2a_cardPath a \<and> req_method req = ''GET'' then Some a else None)"

text \<open>The card itself is JSON text; its reply carries the header that lets it be cached.\<close>

definition agentCardResponse :: "Gateway \<Rightarrow> HttpRequest \<Rightarrow> ConfigRoute \<Rightarrow> Reply" where
  "agentCardResponse gw req route =
     finish gw req (Some route) 200 (response_headers [(''cache-control'', ''public, max-age=60''), (''x-request-id'', gw_requestId gw)]) ''ok'' None"

definition receive :: "Gateway \<Rightarrow> HttpRequest \<Rightarrow> Received phase" where
  "receive gw req = (case match (gw_table gw) (header (req_headers req) ''host'') (req_pathname req) of
       None \<Rightarrow> Stop (deny gw req None 404 ''no-route'' [])
     | Some route \<Rightarrow>
         (let policy = cr_policy route; refuse = (\<lambda>status outcome. Stop (deny gw req (Some route) status outcome []));
              certificate = (if gw_trustedPeer gw then readCertificate (header (req_headers req)) (gw_clientCertHeaders gw) else None);
              maxBody = route_max_body gw route;
              hasBody = (req_method req \<noteq> ''GET'' \<and> req_method req \<noteq> ''HEAD'' \<and> req_body req \<noteq> None);
              allowedTypes = or_else (Option.bind (always_of route) va_contentType) []
          in if (case declared_length req of Some n \<Rightarrow> of_nat maxBody < n | None \<Rightarrow> False) then refuse 413 ''body-too-large''
             else if hasBody \<and> allowedTypes \<noteq> [] \<and> \<not> matchesMedia (mediaTypeOf (header (req_headers req) ''content-type'')) allowedTypes
             then refuse 415 ''content-type''
             else if (case pd_ipAllow policy of None \<Rightarrow> False | Some cidrs \<Rightarrow> cidrs \<noteq> [] \<and> \<not> list_ex (ipInCidr (gw_clientIp gw)) cidrs)
             then refuse 403 ''ip-denied''
             else (case preflightResponse route req (gw_requestId gw) of
                 Some h \<Rightarrow> Stop (finish gw req (Some route) 204 h ''ok'' None)
               | None \<Rightarrow>
                   if (case card_request route req of Some a \<Rightarrow> a2a_cardPublic a | None \<Rightarrow> False)
                   then Stop (agentCardResponse gw req route)
                   else Go \<lparr>rcv_route = route, rcv_certificate = certificate, rcv_maxBody = maxBody, rcv_hasBody = hasBody\<rparr>)))"

section \<open>Definitions: steps 6 and 7\<close>

record Caller =
  cl_subscription :: "ConfigSubscription option"
  cl_identity :: "Identity option"

definition hashSubscriptionKey :: "js_crypto \<Rightarrow> string \<Rightarrow> string" where
  "hashSubscriptionKey cy key = ''sha256:'' @ cy_sha256 cy key"

definition query_get :: "(string \<times> string) list \<Rightarrow> string \<Rightarrow> string option" where
  "query_get q name = map_of q name"

definition presented_key :: "HttpRequest \<Rightarrow> SubscriptionKeyUnit \<Rightarrow> string option" where
  "presented_key req unit =
     (if sk_in unit = InHeader then header (req_headers req) (sk_name unit) else query_get (req_query req) (sk_name unit))"

text \<open>The subscription of the presented key, and step 7: its product contains this API.\<close>

definition check_key :: "Gateway \<Rightarrow> HttpRequest \<Rightarrow> ConfigRoute \<Rightarrow> SubscriptionKeyUnit \<Rightarrow> ConfigSubscription phase" where
  "check_key gw req route unit =
     (let refuse = (\<lambda>status outcome. Stop (deny gw req (Some route) status outcome []));
          presented = or_else (presented_key req unit) []
      in if presented = [] then refuse 401 ''no-key''
         else (case subscriptionByKeyHash (gw_table gw) (hashSubscriptionKey (gw_crypto gw) presented) of
             None \<Rightarrow> refuse 401 ''bad-key''
           | Some subscription \<Rightarrow>
               if sub_productId subscription \<notin> set (cr_productIds route) then refuse 403 ''not-in-product'' else Go subscription))"

definition settled :: "Gateway \<Rightarrow> HttpRequest \<Rightarrow> ConfigRoute \<Rightarrow> AuthResult \<Rightarrow> Identity phase" where
  "settled gw req route result = (case result of
       Accepted i \<Rightarrow> Go i
     | Rejected status headers \<Rightarrow> Stop (deny gw req (Some route) status ''bad-credential'' headers)
     | Threw \<Rightarrow> Crash)"

text \<open>A token unit: its issuer must be configured here and the token must be there.\<close>

definition check_token ::
  "Gateway \<Rightarrow> HttpRequest \<Rightarrow> ConfigRoute \<Rightarrow> string \<Rightarrow> string option \<Rightarrow> (string \<Rightarrow> ConfigIssuer \<Rightarrow> AuthResult) \<Rightarrow> Identity phase" where
  "check_token gw req route issuerRef token verify =
     (let refuse = (\<lambda>status. Stop (deny gw req (Some route) status ''bad-credential'' [])) in
      case map_of (rf_issuers (rt_references (gw_table gw))) issuerRef of
        None \<Rightarrow> refuse 503
      | Some issuer \<Rightarrow> (case token of None \<Rightarrow> refuse 401 | Some t \<Rightarrow> settled gw req route (verify t issuer)))"

text \<open>The answer of the introspection cache carries no headers into the reply.\<close>

definition headerless :: "AuthResult \<Rightarrow> AuthResult" where
  "headerless r = (case r of Rejected status _ \<Rightarrow> Rejected status [] | _ \<Rightarrow> r)"

definition if_unit :: "'u option \<Rightarrow> 'a \<Rightarrow> ('u \<Rightarrow> 'a phase) \<Rightarrow> 'a phase" where
  "if_unit unit unchanged verify = (case unit of None \<Rightarrow> Go unchanged | Some u \<Rightarrow> verify u)"

definition with_identity :: "Identity phase \<Rightarrow> Identity option phase" where
  "with_identity p = and_then p (\<lambda>i. Go (Some i))"

definition authenticate :: "Gateway \<Rightarrow> HttpRequest \<Rightarrow> Received \<Rightarrow> rat \<Rightarrow> Caller phase" where
  "authenticate gw req rcv nowMs =
     (let route = rcv_route rcv; policy = cr_policy route; refs = rt_references (gw_table gw); get = header (req_headers req) in
      and_then (if_unit (auth_subscriptionKey policy) None (\<lambda>u. and_then (check_key gw req route u) (\<lambda>s. Go (Some s)))) (\<lambda>subscription.
      and_then (if_unit (auth_basic policy) None
        (\<lambda>u. with_identity (settled gw req route (verifyBasic (gw_crypto gw) (get ''authorization'') u refs)))) (\<lambda>identity.
      and_then (if_unit (auth_jwt policy) identity (\<lambda>u. with_identity (check_token gw req route (jw_issuerRef u)
        (bearerToken get (or_else (jw_headerName u) ''authorization'') (or_else (jw_scheme u) ''Bearer''))
        (\<lambda>t issuer. verifyJwt (gw_crypto gw) (gw_keys gw) t u issuer nowMs)))) (\<lambda>identity.
      and_then (if_unit (auth_introspection policy) identity (\<lambda>u. with_identity (check_token gw req route (in_issuerRef u)
        (bearerToken get ''authorization'' ''Bearer'') (\<lambda>t issuer. headerless (gw_introspect gw t u issuer))))) (\<lambda>identity.
      and_then (if_unit (auth_mtls policy) identity
        (\<lambda>u. with_identity (settled gw req route (verifyMtls (rcv_certificate rcv) u)))) (\<lambda>identity.
      if card_request route req \<noteq> None then Stop (agentCardResponse gw req route)
      else Go \<lparr>cl_subscription = subscription, cl_identity = identity\<rparr>))))))"

section \<open>Definitions: steps 8 and 9\<close>

definition show_scope :: "limit_scope \<Rightarrow> string" where
  "show_scope s = (case s of ScopeRoute \<Rightarrow> ''route'' | ScopeProduct \<Rightarrow> ''product'')"

definition scope_id :: "limit_scope \<Rightarrow> ConfigSubscription \<Rightarrow> ConfigRoute \<Rightarrow> string" where
  "scope_id s sub route = (case s of ScopeProduct \<Rightarrow> sub_productId sub | ScopeRoute \<Rightarrow> cr_resourceId route)"

definition rate_key :: "ConfigRoute \<Rightarrow> RateLimitUnit \<Rightarrow> ConfigSubscription \<Rightarrow> string" where
  "rate_key route unit sub = js_join ''|'' [sub_id sub, show_scope (rlu_scope unit), scope_id (rlu_scope unit) sub route]"

definition applyRateLimit ::
  "RateLimiter \<Rightarrow> ConfigRoute \<Rightarrow> RateLimitUnit option \<Rightarrow> ConfigSubscription option \<Rightarrow> int \<Rightarrow> RateVerdict option \<times> RateLimiter" where
  "applyRateLimit limiter route unit sub now = (case (unit, sub) of
       (Some u, Some s) \<Rightarrow>
         (case rl_check limiter (rate_key route u s) (rlu_calls u) (rlu_periodSec u) now of (v, limiter) \<Rightarrow> (Some v, limiter))
     | _ \<Rightarrow> (None, limiter))"

definition quota_key :: "ConfigRoute \<Rightarrow> QuotaUnit \<Rightarrow> ConfigSubscription \<Rightarrow> int \<Rightarrow> QuotaKey" where
  "quota_key route unit sub now =
     keyFor (sub_id sub) (show_scope (qu_scope unit)) (scope_id (qu_scope unit) sub route) (nat (qu_periodSec unit)) now"

definition applyQuota :: "QuotaCounters \<Rightarrow> ConfigRoute \<Rightarrow> QuotaUnit \<Rightarrow> ConfigSubscription \<Rightarrow> int \<Rightarrow> QuotaVerdict \<times> QuotaCounters" where
  "applyQuota quota route unit sub now = check quota (quota_key route unit sub now) (int (qu_calls unit)) now"

definition show_int :: "int \<Rightarrow> string" where
  "show_int n = (if n < 0 then CHR ''-'' # show_nat (nat (- n)) else show_nat (nat n))"

definition rateHeadersOf :: "RateVerdict \<Rightarrow> (string, string) jsmap" where
  "rateHeadersOf v = [(''x-ratelimit-limit'', show_nat (rv_limit v)), (''x-ratelimit-remaining'', show_nat (rv_remaining v)),
     (''x-ratelimit-reset'', show_int (rv_reset v))]"

definition quotaHeadersOf :: "QuotaVerdict \<Rightarrow> (string, string) jsmap" where
  "quotaHeadersOf v = [(''x-quota-limit'', show_int (qv_limit v)), (''x-quota-remaining'', show_int (qv_remaining v)),
     (''x-quota-reset'', (case qv_resetSec v of Some n \<Rightarrow> show_int n | None \<Rightarrow> ''NaN''))]"

definition limit_rate :: "Gateway \<Rightarrow> HttpRequest \<Rightarrow> ConfigRoute \<Rightarrow> Caller \<Rightarrow> int \<Rightarrow> 'task Instance \<Rightarrow> (string, string) jsmap phase \<times> 'task Instance" where
  "limit_rate gw req route caller now st =
     (case applyRateLimit (ins_limiter st) route (pd_rateLimit (cr_policy route)) (cl_subscription caller) now of
       (answer, limiter) \<Rightarrow>
         (case (answer, pd_rateLimit (cr_policy route)) of
            (Some v, Some u) \<Rightarrow>
              (let rateHeaders = (if rlu_emitHeaders u then rateHeadersOf v else []) in
               if rv_allowed v then Go rateHeaders
               else Stop (deny gw req (Some route) 429 ''rate-limited'' (mset_key ''retry-after'' (show_int (rv_retryAfter v)) rateHeaders)))
          | _ \<Rightarrow> Go [], st\<lparr>ins_limiter := limiter\<rparr>))"

definition limit_quota ::
  "Gateway \<Rightarrow> HttpRequest \<Rightarrow> ConfigRoute \<Rightarrow> Caller \<Rightarrow> int \<Rightarrow> (string, string) jsmap \<Rightarrow> 'task Instance \<Rightarrow> (string, string) jsmap phase \<times> 'task Instance" where
  "limit_quota gw req route caller now rateHeaders st = (case (pd_quota (cr_policy route), cl_subscription caller) of
       (Some u, Some s) \<Rightarrow>
         (case applyQuota (ins_quota st) route u s now of (v, quota) \<Rightarrow>
           (let rateHeaders = (if qu_emitHeaders u then foldl (\<lambda>m (k, x). mset_key k x m) rateHeaders (quotaHeadersOf v) else rateHeaders) in
            (if qv_allowed v then Go rateHeaders else Stop (deny gw req (Some route) 403 ''quota-exceeded'' rateHeaders),
             st\<lparr>ins_quota := quota\<rparr>)))
     | _ \<Rightarrow> (Go rateHeaders, st))"

section \<open>Definitions: step 10\<close>

definition PATTERN_VALUE_MAX_BYTES :: nat where
  "PATTERN_VALUE_MAX_BYTES = 1024"

text \<open>\<^verbatim>\<open>valueMatches\<close> on the fields the two kinds of check share; a query check has no credential.\<close>

definition valueMatches ::
  "js_crypto \<Rightarrow> bool \<Rightarrow> string option \<Rightarrow> string option \<Rightarrow> string option \<Rightarrow> string option \<Rightarrow> ConfigReferences \<Rightarrow> bool" where
  "valueMatches cy is_present equals credentialRef pattern value references = (case value of
       None \<Rightarrow> False
     | Some v \<Rightarrow>
         if is_present then True
         else (case equals of
             Some e \<Rightarrow> v = e
           | None \<Rightarrow> (case credentialRef of
               Some ref \<Rightarrow> secretMatches cy v ref references
             | None \<Rightarrow> (case pattern of
                 Some p \<Rightarrow> length v \<le> PATTERN_VALUE_MAX_BYTES \<and> cy_regex cy p v
               | None \<Rightarrow> False))))"

definition precondition :: "Gateway \<Rightarrow> PreconditionRule \<Rightarrow> HttpRequest \<Rightarrow> ClientCertificate option \<Rightarrow> bool" where
  "precondition gw rule req certificate =
     (let refs = rt_references (gw_table gw) in
      case pr_requireHeader rule of
        Some c \<Rightarrow> valueMatches (gw_crypto gw) (rh_present c) (rh_equals c) (rh_credentialRef c) (rh_pattern c)
          (header (req_headers req) (rh_name c)) refs
      | None \<Rightarrow> (case pr_requireQuery rule of
        Some c \<Rightarrow> valueMatches (gw_crypto gw) (rq_present c) (rq_equals c) None (rq_pattern c) (query_get (req_query req) (rq_name c)) refs
      | None \<Rightarrow> (case pr_requireOperation rule of
        Some methods \<Rightarrow> list_ex (\<lambda>m. toUpperCase m = toUpperCase (req_method req)) methods
      | None \<Rightarrow> (case pr_requireClientCert rule of
        Some cert \<Rightarrow> (case certificate of
            None \<Rightarrow> False
          | Some c \<Rightarrow> cc_verified c \<and> \<not> outside (rcc_issuers cert) (cc_issuer c) \<and> \<not> outside (rcc_subjectCns cert) (cc_cn c) \<and>
              \<not> all_outside (rcc_sans cert) (cc_sans c))
      | None \<Rightarrow> False))))"

definition checkNameOf :: "PreconditionRule \<Rightarrow> string" where
  "checkNameOf rule = (case pr_requireHeader rule of
       Some c \<Rightarrow> ''header:'' @ rh_name c
     | None \<Rightarrow> (case pr_requireQuery rule of
         Some c \<Rightarrow> ''query:'' @ rq_name c
       | None \<Rightarrow> if pr_requireClientCert rule \<noteq> None then ''clientCert''
           else if pr_requireOperation rule \<noteq> None then ''operation'' else ''unknown''))"

definition hex_id :: "nat \<Rightarrow> string \<Rightarrow> bool" where
  "hex_id n s \<longleftrightarrow> length s = n \<and> list_all (\<lambda>c. char_in CHR ''0'' CHR ''9'' c \<or> char_in CHR ''a'' CHR ''f'' c) s"

definition traceIdOf :: "string option \<Rightarrow> string option" where
  "traceIdOf traceparent = (case traceparent of
       None \<Rightarrow> None
     | Some t \<Rightarrow> (case js_split CHR ''-'' t of _ # tid # _ # _ \<Rightarrow> if hex_id 32 tid then Some tid else None | _ \<Rightarrow> None))"

definition claim_text :: "Gateway \<Rightarrow> jsval \<Rightarrow> string option" where
  "claim_text gw v = (case v of
       JStr s \<Rightarrow> Some s | JNum n \<Rightarrow> Some (gw_number gw n) | JBool b \<Rightarrow> Some (if b then ''true'' else ''false'') | _ \<Rightarrow> None)"

definition object_claims :: "jsval \<Rightarrow> (string \<times> jsval) list" where
  "object_claims v = (case v of JObj kvs \<Rightarrow> kvs | JArr vs \<Rightarrow> zip (map show_nat [0..<length vs]) vs | _ \<Rightarrow> [])"

text \<open>What a template may name. A claim keeps the value it has in the token.\<close>

definition template_context :: "Gateway \<Rightarrow> HttpRequest \<Rightarrow> Received \<Rightarrow> Caller \<Rightarrow> int \<Rightarrow> TemplateContext" where
  "template_context gw req rcv caller now =
     (let route = rcv_route rcv; of_sub = (\<lambda>f. case cl_subscription caller of Some s \<Rightarrow> f s | None \<Rightarrow> []);
          of_cert = (\<lambda>f. case rcv_certificate rcv of Some c \<Rightarrow> f c | None \<Rightarrow> []);
          base = baseContext (gw_utcString gw) now @
            [(''subscription.id'', of_sub sub_id), (''subscription.name'', of_sub sub_subscriptionName),
             (''application.id'', of_sub sub_applicationId), (''application.name'', of_sub sub_applicationName),
             (''product.id'', of_sub sub_productId), (''product.name'', of_sub sub_productName),
             (''resource.name'', cr_resourceName route), (''revision.rev'', show_nat (cr_rev route)),
             (''environment'', rt_environment (gw_table gw)), (''route.basePath'', cr_basePath route),
             (''request.id'', gw_requestId gw),
             (''trace.id'', or_else (traceIdOf (header (req_headers req) ''traceparent'')) (gw_requestId gw)),
             (''client.ip'', gw_clientIp gw),
             (''jwt.sub'', (case cl_identity caller of Some i \<Rightarrow> if idn_method i = ByJwt then idn_subject i else [] | None \<Rightarrow> [])),
             (''cert.subject.cn'', of_cert cc_cn), (''cert.issuer'', of_cert cc_issuer), (''cert.thumbprint'', of_cert cc_thumbprint)];
          with_query = foldl (\<lambda>m (k, v). mset_key (''query.'' @ k) v m) base (req_query req)
      in foldl (\<lambda>m (k, v). case claim_text gw v of Some t \<Rightarrow> mset_key (''jwt.claim.'' @ k) t m | None \<Rightarrow> m) with_query
           (case cl_identity caller of Some i \<Rightarrow> object_claims (idn_claims i) | None \<Rightarrow> []))"

definition denyResponse :: "PreconditionRule \<Rightarrow> TemplateContext \<Rightarrow> string \<Rightarrow> (string, string) jsmap \<Rightarrow> http_headers" where
  "denyResponse rule ctx requestId extraHeaders =
     (let rendered = map (\<lambda>(k, v). (render k ctx, render v ctx)) (or_else (pr_headers rule) []) in
      response_headers (foldl (\<lambda>m (k, v). mset_key k v m) extraHeaders (rendered @ [(''x-request-id'', requestId)])))"

definition preconditions ::
  "Gateway \<Rightarrow> HttpRequest \<Rightarrow> Received \<Rightarrow> TemplateContext \<Rightarrow> (string, string) jsmap \<Rightarrow> unit phase" where
  "preconditions gw req rcv ctx rateHeaders =
     (let route = rcv_route rcv; rules = or_else (pd_preconditions (cr_policy route)) [] in
      case find (\<lambda>rule. \<not> precondition gw rule req (rcv_certificate rcv)) rules of
        None \<Rightarrow> Go ()
      | Some rule \<Rightarrow> Stop (finish gw req (Some route) (pr_status rule)
          (denyResponse rule ctx (gw_requestId gw)
            (foldl (\<lambda>m (k, v). mset_key k v m) rateHeaders (corsHeaders route (header (req_headers req) ''origin''))))
          ''precondition'' (Some (''precondition:'' @ checkNameOf rule))))"

section \<open>Definitions: steps 1 to 10\<close>

record Admitted =
  adm_received :: Received
  adm_caller :: Caller
  adm_context :: TemplateContext
  adm_rateHeaders :: "(string, string) jsmap"

definition admit_caller :: "Gateway \<Rightarrow> HttpRequest \<Rightarrow> rat \<Rightarrow> int \<Rightarrow> 'task Instance \<Rightarrow> Admitted phase \<times> 'task Instance" where
  "admit_caller gw req nowAuth now st = (case receive gw req of
       Stop r \<Rightarrow> (Stop r, st)
     | Crash \<Rightarrow> (Crash, st)
     | Go rcv \<Rightarrow> (case authenticate gw req rcv nowAuth of
         Stop r \<Rightarrow> (Stop r, st)
       | Crash \<Rightarrow> (Crash, st)
       | Go caller \<Rightarrow> (case limit_rate gw req (rcv_route rcv) caller now st of
           (Stop r, st) \<Rightarrow> (Stop r, st)
         | (Crash, st) \<Rightarrow> (Crash, st)
         | (Go rateHeaders, st) \<Rightarrow> (case limit_quota gw req (rcv_route rcv) caller now rateHeaders st of
             (Stop r, st) \<Rightarrow> (Stop r, st)
           | (Crash, st) \<Rightarrow> (Crash, st)
           | (Go rateHeaders, st) \<Rightarrow>
               (let ctx = template_context gw req rcv caller now in
                (and_then (preconditions gw req rcv ctx rateHeaders)
                  (\<lambda>_. Go \<lparr>adm_received = rcv, adm_caller = caller, adm_context = ctx, adm_rateHeaders = rateHeaders\<rparr>), st))))))"


section \<open>What an admitted request has passed\<close>

lemma and_then_Go: "and_then p f = Go x \<longleftrightarrow> (\<exists>y. p = Go y \<and> f y = Go x)"
  by (cases p) auto

lemma and_then_Stop: "and_then p f = Stop r \<longleftrightarrow> p = Stop r \<or> (\<exists>y. p = Go y \<and> f y = Stop r)"
  by (cases p) auto

lemma if_unit_Go: "if_unit u x f = Go y \<longleftrightarrow> (case u of None \<Rightarrow> y = x | Some v \<Rightarrow> f v = Go y)"
  by (auto simp: if_unit_def split: option.split)

lemmas phase_simps = and_then_Go and_then_Stop if_unit_Go with_identity_def

lemma guard_Go: "(if b then Stop r else p) = Go y \<longleftrightarrow> \<not> b \<and> p = Go y"
  by simp

lemma guard_Stop: "(if b then Stop r else p) = Stop q \<longleftrightarrow> (if b then r = q else p = Stop q)"
  by simp

lemma received_checked:
  assumes "receive gw req = Go rcv"
  shows "match (gw_table gw) (header (req_headers req) ''host'') (req_pathname req) = Some (rcv_route rcv)"
    and "case pd_ipAllow (cr_policy (rcv_route rcv)) of None \<Rightarrow> True | Some cidrs \<Rightarrow> cidrs = [] \<or> list_ex (ipInCidr (gw_clientIp gw)) cidrs"
    and "case declared_length req of None \<Rightarrow> True | Some n \<Rightarrow> n \<le> of_nat (rcv_maxBody rcv)"
    and "rcv_maxBody rcv = route_max_body gw (rcv_route rcv)"
    and "rcv_certificate rcv \<noteq> None \<Longrightarrow> gw_trustedPeer gw"
proof -
  from assms obtain route where route: "match (gw_table gw) (header (req_headers req) ''host'') (req_pathname req) = Some route"
    by (cases "match (gw_table gw) (header (req_headers req) ''host'') (req_pathname req)") (simp_all add: receive_def)
  have "preflightResponse route req (gw_requestId gw) = None"
    using assms by (cases "preflightResponse route req (gw_requestId gw)") (simp_all add: receive_def route Let_def guard_Go)
  with assms have passed: "rcv_route rcv = route \<and> rcv_maxBody rcv = route_max_body gw route \<and>
      rcv_certificate rcv = (if gw_trustedPeer gw then readCertificate (header (req_headers req)) (gw_clientCertHeaders gw) else None) \<and>
      \<not> (case declared_length req of Some n \<Rightarrow> of_nat (route_max_body gw route) < n | None \<Rightarrow> False) \<and>
      \<not> (case pd_ipAllow (cr_policy route) of None \<Rightarrow> False | Some cidrs \<Rightarrow> cidrs \<noteq> [] \<and> \<not> list_ex (ipInCidr (gw_clientIp gw)) cidrs)"
    by (simp add: receive_def route Let_def guard_Go) (elim conjE, hypsubst, simp)
  with route show "match (gw_table gw) (header (req_headers req) ''host'') (req_pathname req) = Some (rcv_route rcv)"
    "case pd_ipAllow (cr_policy (rcv_route rcv)) of None \<Rightarrow> True | Some cidrs \<Rightarrow> cidrs = [] \<or> list_ex (ipInCidr (gw_clientIp gw)) cidrs"
    "case declared_length req of None \<Rightarrow> True | Some n \<Rightarrow> n \<le> of_nat (rcv_maxBody rcv)"
    "rcv_maxBody rcv = route_max_body gw (rcv_route rcv)"
    by (auto split: option.splits)
  show "rcv_certificate rcv \<noteq> None \<Longrightarrow> gw_trustedPeer gw" using passed by (auto split: if_splits)
qed

lemma key_checked:
  assumes "check_key gw req route u = Go s"
  obtains key where "presented_key req u = Some key" "key \<noteq> []"
    "subscriptionByKeyHash (gw_table gw) (hashSubscriptionKey (gw_crypto gw) key) = Some s" "sub_productId s \<in> set (cr_productIds route)"
  using assms by (cases "presented_key req u") (auto simp: check_key_def Let_def or_else_def split: option.splits if_splits)

lemma settled_Go: "settled gw req route r = Go i \<longleftrightarrow> r = Accepted i"
  by (cases r) (auto simp: settled_def)

lemma headerless_Accepted [simp]: "headerless r = Accepted i \<longleftrightarrow> r = Accepted i"
  by (cases r) (auto simp: headerless_def)

lemma token_Go:
  "check_token gw req route ref token verify = Go i \<longleftrightarrow>
   (\<exists>issuer t. map_of (rf_issuers (rt_references (gw_table gw))) ref = Some issuer \<and> token = Some t \<and> verify t issuer = Accepted i)"
  by (auto simp: check_token_def Let_def settled_Go split: option.splits)

text \<open>Each unit of identity on the policy: what it has checked. The last one that is on the policy names the caller.\<close>

definition key_holds :: "Gateway \<Rightarrow> HttpRequest \<Rightarrow> ConfigRoute \<Rightarrow> ConfigSubscription option \<Rightarrow> bool" where
  "key_holds gw req route sub = (case auth_subscriptionKey (cr_policy route) of
       None \<Rightarrow> sub = None
     | Some u \<Rightarrow> (case (presented_key req u, sub) of
         (Some key, Some s) \<Rightarrow> key \<noteq> [] \<and> subscriptionByKeyHash (gw_table gw) (hashSubscriptionKey (gw_crypto gw) key) = Some s \<and>
           sub_productId s \<in> set (cr_productIds route)
       | _ \<Rightarrow> False))"

definition basic_holds :: "Gateway \<Rightarrow> HttpRequest \<Rightarrow> PolicyDocument \<Rightarrow> bool" where
  "basic_holds gw req policy = (case auth_basic policy of
       None \<Rightarrow> True
     | Some u \<Rightarrow> (case header (req_headers req) ''authorization'' of
         None \<Rightarrow> False
       | Some h \<Rightarrow> map_of (rf_secretHashes (rt_references (gw_table gw))) (ba_credentialRef u) =
           Some (cy_sha256 (gw_crypto gw) (cy_base64 (gw_crypto gw) (js_trim (drop 6 h))))))"

definition jwt_holds :: "Gateway \<Rightarrow> HttpRequest \<Rightarrow> PolicyDocument \<Rightarrow> rat \<Rightarrow> bool" where
  "jwt_holds gw req policy nowMs = (case auth_jwt policy of
       None \<Rightarrow> True
     | Some u \<Rightarrow> (case (map_of (rf_issuers (rt_references (gw_table gw))) (jw_issuerRef u),
           Option.bind (bearerToken (header (req_headers req)) (or_else (jw_headerName u) ''authorization'') (or_else (jw_scheme u) ''Bearer''))
             (decodeJwt (gw_crypto gw))) of
         (Some issuer, Some decoded) \<Rightarrow> token_checked (gw_crypto gw) (gw_keys gw) u issuer nowMs decoded
       | _ \<Rightarrow> False))"

definition introspection_holds :: "Gateway \<Rightarrow> HttpRequest \<Rightarrow> PolicyDocument \<Rightarrow> bool" where
  "introspection_holds gw req policy = (case auth_introspection policy of
       None \<Rightarrow> True
     | Some u \<Rightarrow> (case (map_of (rf_issuers (rt_references (gw_table gw))) (in_issuerRef u),
           bearerToken (header (req_headers req)) ''authorization'' ''Bearer'') of
         (Some issuer, Some t) \<Rightarrow> (case gw_introspect gw t u issuer of Accepted _ \<Rightarrow> True | _ \<Rightarrow> False)
       | _ \<Rightarrow> False))"

definition certificate_holds :: "Gateway \<Rightarrow> Received \<Rightarrow> bool" where
  "certificate_holds gw rcv = (case auth_mtls (cr_policy (rcv_route rcv)) of
       None \<Rightarrow> True
     | Some u \<Rightarrow> gw_trustedPeer gw \<and> (case rcv_certificate rcv of
         None \<Rightarrow> False
       | Some c \<Rightarrow> cc_verified c \<and> \<not> outside (mt_allowedIssuers u) (cc_issuer c) \<and> \<not> outside (mt_allowedSubjectCns u) (cc_cn c) \<and>
           \<not> all_outside (mt_allowedSans u) (cc_sans c)))"

definition identity_holds :: "Gateway \<Rightarrow> HttpRequest \<Rightarrow> Received \<Rightarrow> Caller \<Rightarrow> rat \<Rightarrow> bool" where
  "identity_holds gw req rcv caller nowMs \<longleftrightarrow>
     (let policy = cr_policy (rcv_route rcv) in
      key_holds gw req (rcv_route rcv) (cl_subscription caller) \<and> basic_holds gw req policy \<and> jwt_holds gw req policy nowMs \<and>
      introspection_holds gw req policy \<and> certificate_holds gw rcv)"

lemma jwt_accepted_holds:
  "map_of (rf_issuers (rt_references (gw_table gw))) (jw_issuerRef u) = Some issuer \<Longrightarrow> auth_jwt policy = Some u \<Longrightarrow>
   bearerToken (header (req_headers req)) (or_else (jw_headerName u) ''authorization'') (or_else (jw_scheme u) ''Bearer'') = Some t \<Longrightarrow>
   verifyJwt (gw_crypto gw) (gw_keys gw) t u issuer nowMs = Accepted i \<Longrightarrow> jwt_holds gw req policy nowMs"
  by (erule accepted_jwt) (simp add: jwt_holds_def)

lemma authenticated_checked:
  assumes r: "receive gw req = Go rcv" and a: "authenticate gw req rcv nowMs = Go caller"
  shows "identity_holds gw req rcv caller nowMs"
proof -
  let ?route = "rcv_route rcv" and ?policy = "cr_policy (rcv_route rcv)"
  from a obtain sub basic jwt intro mtls where
    k: "if_unit (auth_subscriptionKey ?policy) None (\<lambda>u. and_then (check_key gw req ?route u) (\<lambda>s. Go (Some s))) = Go sub"
    and b: "if_unit (auth_basic ?policy) None (\<lambda>u. with_identity (settled gw req ?route
        (verifyBasic (gw_crypto gw) (header (req_headers req) ''authorization'') u (rt_references (gw_table gw))))) = Go basic"
    and j: "if_unit (auth_jwt ?policy) basic (\<lambda>u. with_identity (check_token gw req ?route (jw_issuerRef u)
        (bearerToken (header (req_headers req)) (or_else (jw_headerName u) ''authorization'') (or_else (jw_scheme u) ''Bearer''))
        (\<lambda>t issuer. verifyJwt (gw_crypto gw) (gw_keys gw) t u issuer nowMs))) = Go jwt"
    and i: "if_unit (auth_introspection ?policy) jwt (\<lambda>u. with_identity (check_token gw req ?route (in_issuerRef u)
        (bearerToken (header (req_headers req)) ''authorization'' ''Bearer'') (\<lambda>t issuer. headerless (gw_introspect gw t u issuer)))) = Go intro"
    and m: "if_unit (auth_mtls ?policy) intro (\<lambda>u. with_identity (settled gw req ?route (verifyMtls (rcv_certificate rcv) u))) = Go mtls"
    and c: "cl_subscription caller = sub"
    by (auto simp: authenticate_def Let_def and_then_Go split: if_splits)
  have "key_holds gw req ?route sub"
    using k by (auto simp: key_holds_def phase_simps split: option.splits elim!: key_checked)
  moreover have "basic_holds gw req ?policy"
    using b by (auto simp: basic_holds_def phase_simps settled_Go split: option.splits dest!: accepted_basic)
  moreover have "jwt_holds gw req ?policy nowMs"
  proof (cases "auth_jwt ?policy")
    case (Some u)
    with j show ?thesis by (auto simp: phase_simps token_Go intro: jwt_accepted_holds)
  qed (simp add: jwt_holds_def)
  moreover have "introspection_holds gw req ?policy"
    using i by (auto simp: introspection_holds_def phase_simps token_Go split: option.splits)
  moreover have "certificate_holds gw rcv"
    using m received_checked(5) [OF r]
    by (auto simp: certificate_holds_def phase_simps settled_Go split: option.splits dest!: accepted_mtls)
  ultimately show ?thesis using c by (simp add: identity_holds_def Let_def)
qed


section \<open>Limits and preconditions\<close>

definition within_limits :: "ConfigRoute \<Rightarrow> ConfigSubscription option \<Rightarrow> int \<Rightarrow> 'task Instance \<Rightarrow> bool" where
  "within_limits route sub now st \<longleftrightarrow>
     (case (pd_rateLimit (cr_policy route), sub) of
        (Some u, Some s) \<Rightarrow> rv_allowed (fst (rl_check (ins_limiter st) (rate_key route u s) (rlu_calls u) (rlu_periodSec u) now))
      | _ \<Rightarrow> True) \<and>
     (case (pd_quota (cr_policy route), sub) of
        (Some u, Some s) \<Rightarrow> qv_allowed (fst (check (ins_quota st) (quota_key route u s now) (int (qu_calls u)) now))
      | _ \<Rightarrow> True)"

text \<open>What the two metering steps leave alone.\<close>

definition only_metered :: "'task Instance \<Rightarrow> 'task Instance \<Rightarrow> bool" where
  "only_metered st st' \<longleftrightarrow> st' = st\<lparr>ins_limiter := ins_limiter st', ins_quota := ins_quota st'\<rparr>"

lemma finish_simps [simp]:
  "rp_outcome (finish gw req route status h outcome note) = outcome"
  "rp_status (finish gw req route status h outcome note) = status"
  "header (rp_headers (finish gw req route status h outcome note)) ''x-request-id'' = Some (gw_requestId gw)"
  by (simp_all add: finish_def)

lemma deny_simps [simp]:
  "rp_outcome (deny gw req route status outcome h) = outcome"
  "rp_status (deny gw req route status outcome h) = status"
  "header (rp_headers (deny gw req route status outcome h)) ''x-request-id'' = Some (gw_requestId gw)"
  by (simp_all add: deny_def)

lemma card_simps [simp]:
  "rp_outcome (agentCardResponse gw req route) = ''ok''"
  "header (rp_headers (agentCardResponse gw req route)) ''x-request-id'' = Some (gw_requestId gw)"
  by (simp_all add: agentCardResponse_def)

definition EARLY_OUTCOMES :: "string list" where
  "EARLY_OUTCOMES = [''no-route'', ''body-too-large'', ''content-type'', ''ip-denied'', ''ok'', ''no-key'', ''bad-key'', ''not-in-product'',
     ''bad-credential'']"

lemma receive_Stop:
  "receive gw req = Stop r \<Longrightarrow> rp_outcome r \<in> set EARLY_OUTCOMES \<and> header (rp_headers r) ''x-request-id'' = Some (gw_requestId gw)"
  by (cases "match (gw_table gw) (header (req_headers req) ''host'') (req_pathname req)")
    (auto simp: receive_def EARLY_OUTCOMES_def Let_def guard_Stop split: option.splits if_split_asm)

lemma key_Stop:
  "check_key gw req route u = Stop r \<Longrightarrow> rp_outcome r \<in> set EARLY_OUTCOMES \<and> header (rp_headers r) ''x-request-id'' = Some (gw_requestId gw)"
  by (auto simp: check_key_def EARLY_OUTCOMES_def Let_def split: option.splits if_splits)

lemma settled_Stop:
  "settled gw req route a = Stop r \<Longrightarrow> rp_outcome r \<in> set EARLY_OUTCOMES \<and> header (rp_headers r) ''x-request-id'' = Some (gw_requestId gw)"
  by (cases a) (auto simp: settled_def EARLY_OUTCOMES_def)

lemma token_Stop:
  "check_token gw req route ref token verify = Stop r \<Longrightarrow>
   rp_outcome r \<in> set EARLY_OUTCOMES \<and> header (rp_headers r) ''x-request-id'' = Some (gw_requestId gw)"
  by (auto simp: check_token_def Let_def split: option.splits dest: settled_Stop) (auto simp: EARLY_OUTCOMES_def)

lemma unit_Stop: "if_unit u x f = Stop r \<Longrightarrow> (\<exists>v. u = Some v \<and> f v = Stop r)"
  by (auto simp: if_unit_def split: option.splits)

lemma authenticate_Stop:
  assumes "authenticate gw req rcv nowMs = Stop r"
  shows "rp_outcome r \<in> set EARLY_OUTCOMES \<and> header (rp_headers r) ''x-request-id'' = Some (gw_requestId gw)"
proof -
  have card: "''ok'' \<in> set EARLY_OUTCOMES" by (simp add: EARLY_OUTCOMES_def)
  show ?thesis using assms unfolding authenticate_def Let_def and_then_Stop and_then_Go
    by (elim disjE exE conjE)
      (auto simp: and_then_Stop with_identity_def card split: if_splits
        dest!: unit_Stop key_Stop settled_Stop token_Stop)
qed

lemma limit_rate_step:
  assumes "limit_rate gw req route caller now st = (p, st')"
  shows "st' = st\<lparr>ins_limiter := ins_limiter st'\<rparr>"
    and "p \<noteq> Crash"
    and "p = Stop r \<Longrightarrow> rp_outcome r = ''rate-limited'' \<and> header (rp_headers r) ''x-request-id'' = Some (gw_requestId gw)"
  using assms by (auto simp: limit_rate_def Let_def split: prod.splits option.splits if_splits)

lemma limit_quota_step:
  assumes "limit_quota gw req route caller now h st = (p, st')"
  shows "st' = st\<lparr>ins_quota := ins_quota st'\<rparr>"
    and "p \<noteq> Crash"
    and "p = Stop r \<Longrightarrow> rp_outcome r = ''quota-exceeded'' \<and> header (rp_headers r) ''x-request-id'' = Some (gw_requestId gw)"
  using assms by (auto simp: limit_quota_def Let_def split: prod.splits option.splits if_splits)

lemma preconditions_Go:
  "preconditions gw req rcv ctx h = Go () \<longleftrightarrow>
   list_all (\<lambda>rule. precondition gw rule req (rcv_certificate rcv)) (or_else (pd_preconditions (cr_policy (rcv_route rcv))) [])"
  by (auto simp: preconditions_def Let_def find_None_iff find_Some_iff list_all_iff split: option.splits)

lemma preconditions_Stop:
  "preconditions gw req rcv ctx h = Stop r \<Longrightarrow>
   rp_outcome r = ''precondition'' \<and> header (rp_headers r) ''x-request-id'' = Some (gw_requestId gw)"
  by (auto simp: preconditions_def Let_def split: option.splits)

lemma preconditions_no_crash: "preconditions gw req rcv ctx h \<noteq> Crash"
  by (auto simp: preconditions_def Let_def split: option.splits)

lemma limit_rate_Go:
  assumes "limit_rate gw req route caller now st = (Go h, st')"
  shows "case (pd_rateLimit (cr_policy route), cl_subscription caller) of
      (Some u, Some s) \<Rightarrow> rv_allowed (fst (rl_check (ins_limiter st) (rate_key route u s) (rlu_calls u) (rlu_periodSec u) now)) | _ \<Rightarrow> True"
  using assms by (auto simp: limit_rate_def applyRateLimit_def Let_def split: prod.splits option.splits if_splits)

lemma limit_quota_Go:
  assumes "limit_quota gw req route caller now h st = (Go h', st')"
  shows "case (pd_quota (cr_policy route), cl_subscription caller) of
      (Some u, Some s) \<Rightarrow> qv_allowed (fst (check (ins_quota st) (quota_key route u s now) (int (qu_calls u)) now)) | _ \<Rightarrow> True"
  using assms by (auto simp: limit_quota_def applyQuota_def Let_def split: prod.splits option.splits if_splits)

text \<open>The ways through the phases, once for all the properties of the whole.\<close>

lemma admit_caller_cases:
  assumes "admit_caller gw req nowAuth now st = (p, st')"
  obtains (early) r where "p = Stop r" "st' = st" "rp_outcome r \<in> set EARLY_OUTCOMES"
      "header (rp_headers r) ''x-request-id'' = Some (gw_requestId gw)"
  | (crash) "p = Crash" "st' = st"
  | (metered) rcv caller r where "p = Stop r" "receive gw req = Go rcv" "authenticate gw req rcv nowAuth = Go caller"
      "only_metered st st'" "header (rp_headers r) ''x-request-id'' = Some (gw_requestId gw)"
      "rp_outcome r = ''rate-limited'' \<and> ins_quota st' = ins_quota st \<or> rp_outcome r = ''quota-exceeded'' \<or> rp_outcome r = ''precondition''"
  | (through) rcv caller ctx h where "p = Go \<lparr>adm_received = rcv, adm_caller = caller, adm_context = ctx, adm_rateHeaders = h\<rparr>"
      "receive gw req = Go rcv" "authenticate gw req rcv nowAuth = Go caller" "only_metered st st'"
      "within_limits (rcv_route rcv) (cl_subscription caller) now st" "preconditions gw req rcv ctx h = Go ()"
      "ctx = template_context gw req rcv caller now"
proof (cases "receive gw req")
  case (Stop r)
  with assms receive_Stop [OF Stop] show thesis by (auto simp: admit_caller_def intro: early)
next
  case Crash
  with assms show thesis by (auto simp: admit_caller_def intro: crash)
next
  case rcv: (Go rcv)
  show thesis
  proof (cases "authenticate gw req rcv nowAuth")
    case (Stop r)
    with rcv assms authenticate_Stop [OF Stop] show thesis by (auto simp: admit_caller_def intro: early)
  next
    case Crash
    with rcv assms show thesis by (auto simp: admit_caller_def intro: crash)
  next
    case caller: (Go caller)
    obtain p1 st1 where r1: "limit_rate gw req (rcv_route rcv) caller now st = (p1, st1)" by fastforce
    note l1 = limit_rate_step [OF r1]
    have q1: "ins_quota st1 = ins_quota st" by (subst l1(1)) simp
    have only1: "only_metered st st1" using l1(1) unfolding only_metered_def by (cases st; cases st1) simp
    show thesis
    proof (cases p1)
      case (Stop r)
      with rcv caller r1 assms have "p = Stop r" "st' = st1" by (auto simp: admit_caller_def)
      with metered [OF _ rcv caller, of r] only1 q1 l1(3) [OF Stop] show thesis by simp
    next
      case Crash
      with l1(2) show thesis by simp
    next
      case h: (Go h)
      obtain p2 st2 where r2: "limit_quota gw req (rcv_route rcv) caller now h st1 = (p2, st2)" by fastforce
      note l2 = limit_quota_step [OF r2]
      have only2: "only_metered st st2"
        using l1(1) l2(1) unfolding only_metered_def by (cases st; cases st1; cases st2) simp
      show thesis
      proof (cases p2)
        case (Stop r)
        with rcv caller r1 h r2 assms have "p = Stop r" "st' = st2" by (auto simp: admit_caller_def)
        with metered [OF _ rcv caller, of r] only2 l2(3) [OF Stop] show thesis by simp
      next
        case Crash
        with l2(2) show thesis by simp
      next
        case h2: (Go h2)
        let ?ctx = "template_context gw req rcv caller now"
        have p: "p = and_then (preconditions gw req rcv ?ctx h2)
            (\<lambda>_. Go \<lparr>adm_received = rcv, adm_caller = caller, adm_context = ?ctx, adm_rateHeaders = h2\<rparr>)" and s: "st' = st2"
          using assms rcv caller r1 h r2 h2 by (auto simp: admit_caller_def Let_def)
        have w: "within_limits (rcv_route rcv) (cl_subscription caller) now st"
          using limit_rate_Go [OF r1 [unfolded h]] limit_quota_Go [OF r2 [unfolded h2]]
          by (simp add: within_limits_def q1 split: option.splits)
        show thesis
        proof (cases "preconditions gw req rcv ?ctx h2")
          case (Go u)
          then show thesis using through [OF _ rcv caller] p s only2 w by simp
        next
          case (Stop r)
          then show thesis using metered [OF _ rcv caller, of r] p s only2 preconditions_Stop [OF Stop] by simp
        qed (simp add: preconditions_no_crash)
      qed
    qed
  qed
qed

text \<open>C2: What a request that reaches the operations of a route has passed: its route matched, its address is on the route's
  list, it presented a key whose subscription's product contains the API, every identity unit on the policy accepted it, the rate
  limit and the quota had room, and every precondition holds. No combination of units, headers, methods or states skips one.\<close>

theorem admitted_caller_checked:
  "case admit_caller gw req nowAuth now st of
     (Go a, _) \<Rightarrow>
       (let rcv = adm_received a; route = rcv_route rcv; caller = adm_caller a in
        match (gw_table gw) (header (req_headers req) ''host'') (req_pathname req) = Some route \<and>
        (case pd_ipAllow (cr_policy route) of None \<Rightarrow> True | Some cidrs \<Rightarrow> cidrs = [] \<or> list_ex (ipInCidr (gw_clientIp gw)) cidrs) \<and>
        identity_holds gw req rcv caller nowAuth \<and> within_limits route (cl_subscription caller) now st \<and>
        list_all (\<lambda>rule. precondition gw rule req (rcv_certificate rcv)) (or_else (pd_preconditions (cr_policy route)) []))
   | _ \<Rightarrow> True"
proof -
  obtain p st' where e: "admit_caller gw req nowAuth now st = (p, st')" by fastforce
  show ?thesis
    by (cases rule: admit_caller_cases [OF e])
      (use e in \<open>auto simp: Let_def received_checked authenticated_checked preconditions_Go\<close>)
qed


end
