(* ===== verification/JsonSchema.thy ===== *)
theory JsonSchema
  imports Json Prelude "HOL-Library.List_Lexorder"
begin

text \<open>
  The JSON Schema validator of the request path (\<^verbatim>\<open>validate\<close> and \<^verbatim>\<open>coerceParameter\<close> of \<^verbatim>\<open>shared/jsonschema.ts\<close>). A compiled
  schema is the JSON object it is in the artifact. The validator collects issues up to a bound and stops early; the depth it may
  still descend is the recursion argument, so it ends on any schema, cyclic ones included. Regular expressions and the formats of
  strings are arguments; numbers are exact where the source divides in floating point; an issue is its path and its rule.

  Shown here: the validator decides a plain Boolean reading of the schema, whatever the bound on issues, and collects no more
  than the bound.
\<close>

section \<open>Definitions\<close>

record schema_env =
  se_defs :: "(string, jsval) jsmap"
  se_regex :: "string \<Rightarrow> string \<Rightarrow> bool"
  se_format :: "string \<Rightarrow> string \<Rightarrow> bool"

definition MAX_PATTERN_INPUT_BYTES :: nat where "MAX_PATTERN_INPUT_BYTES = 4096"

definition MAX_DEPTH :: nat where "MAX_DEPTH = 64"

type_synonym issue = "string \<times> string"

text \<open>The issues so far, and whether more were not looked for.\<close>

type_synonym findings = "issue list \<times> bool"

definition add_issue :: "nat \<Rightarrow> string \<Rightarrow> string \<Rightarrow> findings \<Rightarrow> findings" where
  "add_issue m path rule a =
     (if m \<le> length (fst a) then (fst a, True) else (fst a @ [(if path = [] then ''/'' else path, rule)], snd a))"

definition add_if :: "bool \<Rightarrow> nat \<Rightarrow> string \<Rightarrow> string \<Rightarrow> findings \<Rightarrow> findings" where
  "add_if bad m path rule a = (if bad then add_issue m path rule a else a)"

definition is_full :: "nat \<Rightarrow> findings \<Rightarrow> bool" where
  "is_full m a \<longleftrightarrow> m \<le> length (fst a)"

text \<open>A loop with \<^verbatim>\<open>if (full(ctx)) return\<close> after each round; the flag says it returned.\<close>

fun each :: "nat \<Rightarrow> ('x \<Rightarrow> findings \<Rightarrow> findings) \<Rightarrow> 'x list \<Rightarrow> findings \<Rightarrow> bool \<times> findings" where
  "each m f [] a = (False, a)"
| "each m f (x # xs) a = (let a = f x a in if is_full m a then (True, (fst a, True)) else each m f xs a)"

definition after_loop :: "bool \<times> findings \<Rightarrow> (findings \<Rightarrow> findings) \<Rightarrow> findings" where
  "after_loop r g = (case r of (returned, a) \<Rightarrow> if returned then a else g a)"

definition sub_schema :: "jsval \<Rightarrow> string \<Rightarrow> jsval option" where
  "sub_schema s k = (case member s k of Some (JObj kvs) \<Rightarrow> Some (JObj kvs) | _ \<Rightarrow> None)"

definition sub_schemas :: "jsval \<Rightarrow> string \<Rightarrow> jsval list option" where
  "sub_schemas s k = as_array (member s k)"

definition schema_map :: "jsval \<Rightarrow> string \<Rightarrow> (string \<times> jsval) list" where
  "schema_map s k = (case member s k of Some (JObj kvs) \<Rightarrow> kvs | _ \<Rightarrow> [])"

fun canonicalize :: "jsval \<Rightarrow> jsval" where
  "canonicalize (JArr vs) = JArr (map canonicalize vs)"
| "canonicalize (JObj kvs) = JObj (sort_key (\<lambda>(k, _). map (of_char :: char \<Rightarrow> nat) k) (map (\<lambda>(k, v). (k, canonicalize v)) kvs))"
| "canonicalize v = v"

definition sameValue :: "jsval \<Rightarrow> jsval \<Rightarrow> bool" where
  "sameValue a b \<longleftrightarrow> canonicalize a = canonicalize b"

definition matchesType :: "jsval \<Rightarrow> string \<Rightarrow> bool" where
  "matchesType v t =
     (if t = ''null'' then v = JNull
      else if t = ''boolean'' then (case v of JBool _ \<Rightarrow> True | _ \<Rightarrow> False)
      else if t = ''string'' then (case v of JStr _ \<Rightarrow> True | _ \<Rightarrow> False)
      else if t = ''object'' then (case v of JObj _ \<Rightarrow> True | _ \<Rightarrow> False)
      else if t = ''array'' then (case v of JArr _ \<Rightarrow> True | _ \<Rightarrow> False)
      else if t = ''number'' then (case v of JNum _ \<Rightarrow> True | _ \<Rightarrow> False)
      else if t = ''integer'' then (case v of JNum n \<Rightarrow> is_integer n | _ \<Rightarrow> False)
      else True)"

definition type_names :: "jsval \<Rightarrow> string list option" where
  "type_names s = map_option (List.map_filter (\<lambda>v. as_string (Some v))) (as_array (member s ''type''))"

text \<open>\<^verbatim>\<open>[...value].length\<close>: the bytes that begin a code point.\<close>

definition code_points :: "string \<Rightarrow> nat" where
  "code_points s = length (filter (\<lambda>c. \<not> (128 \<le> (of_char c :: nat) \<and> (of_char c :: nat) < 192)) s)"

definition below_bound :: "jsval \<Rightarrow> string \<Rightarrow> rat \<Rightarrow> bool" where
  "below_bound s k x \<longleftrightarrow> (case as_number (member s k) of None \<Rightarrow> False | Some b \<Rightarrow> x < b)"

definition above_bound :: "jsval \<Rightarrow> string \<Rightarrow> rat \<Rightarrow> bool" where
  "above_bound s k x \<longleftrightarrow> (case as_number (member s k) of None \<Rightarrow> False | Some b \<Rightarrow> b < x)"

definition at_or_below :: "jsval \<Rightarrow> string \<Rightarrow> rat \<Rightarrow> bool" where
  "at_or_below s k x \<longleftrightarrow> (case as_number (member s k) of None \<Rightarrow> False | Some b \<Rightarrow> x \<le> b)"

definition at_or_above :: "jsval \<Rightarrow> string \<Rightarrow> rat \<Rightarrow> bool" where
  "at_or_above s k x \<longleftrightarrow> (case as_number (member s k) of None \<Rightarrow> False | Some b \<Rightarrow> b \<le> x)"

definition bad_pattern :: "schema_env \<Rightarrow> jsval \<Rightarrow> string \<Rightarrow> bool" where
  "bad_pattern env s v \<longleftrightarrow> (case as_string (member s ''pattern'') of
     None \<Rightarrow> False | Some p \<Rightarrow> MAX_PATTERN_INPUT_BYTES < length v \<or> \<not> se_regex env p v)"

definition bad_format :: "schema_env \<Rightarrow> jsval \<Rightarrow> string \<Rightarrow> bool" where
  "bad_format env s v \<longleftrightarrow> (case as_string (member s ''format'') of None \<Rightarrow> False | Some f \<Rightarrow> \<not> se_format env f v)"

definition bad_number_format :: "jsval \<Rightarrow> rat \<Rightarrow> bool" where
  "bad_number_format s n \<longleftrightarrow> (case as_string (member s ''format'') of
     None \<Rightarrow> False
   | Some f \<Rightarrow>
       if f = ''int32'' then \<not> (is_integer n \<and> - 2147483648 \<le> n \<and> n \<le> 2147483647)
       else if f = ''int64'' then \<not> (is_integer n \<and> \<bar>n\<bar> \<le> 9007199254740991) else False)"

definition bad_multiple :: "jsval \<Rightarrow> rat \<Rightarrow> bool" where
  "bad_multiple s n \<longleftrightarrow> (case as_number (member s ''multipleOf'') of
     None \<Rightarrow> False
   | Some d \<Rightarrow> 0 < d \<and> 1 / 1000000000 < \<bar>n / d - of_int \<lfloor>n / d + 1 / 2\<rfloor>\<bar>)"

definition checkString :: "schema_env \<Rightarrow> string \<Rightarrow> jsval \<Rightarrow> string \<Rightarrow> nat \<Rightarrow> findings \<Rightarrow> findings" where
  "checkString env v s path m a =
     add_if (bad_format env s v) m path ''format''
       (add_if (bad_pattern env s v) m path ''pattern''
         (add_if (above_bound s ''maxLength'' (of_nat (code_points v))) m path ''maxLength''
           (add_if (below_bound s ''minLength'' (of_nat (code_points v))) m path ''minLength'' a)))"

definition checkNumber :: "rat \<Rightarrow> jsval \<Rightarrow> string \<Rightarrow> nat \<Rightarrow> findings \<Rightarrow> findings" where
  "checkNumber n s path m a =
     add_if (bad_number_format s n) m path ''format''
       (add_if (bad_multiple s n) m path ''multipleOf''
         (add_if (at_or_above s ''exclusiveMaximum'' n) m path ''exclusiveMaximum''
           (add_if (at_or_below s ''exclusiveMinimum'' n) m path ''exclusiveMinimum''
             (add_if (above_bound s ''maximum'' n) m path ''maximum''
               (add_if (below_bound s ''minimum'' n) m path ''minimum'' a)))))"

definition child_path :: "string \<Rightarrow> string \<Rightarrow> string" where
  "child_path path k = path @ ''/'' @ concat (map (\<lambda>c. if c = CHR ''~'' then ''~0'' else if c = CHR ''/'' then ''~1'' else [c]) k)"

definition item_path :: "string \<Rightarrow> nat \<Rightarrow> string" where
  "item_path path i = path @ ''/'' @ show_nat i"

definition duplicate_at :: "jsval list \<Rightarrow> nat option" where
  "duplicate_at vs = find (\<lambda>i. list_ex (\<lambda>w. sameValue w (vs ! i)) (take i vs)) [0..<length vs]"

definition unique_items :: "jsval list \<Rightarrow> jsval \<Rightarrow> string \<Rightarrow> nat \<Rightarrow> findings \<Rightarrow> findings" where
  "unique_items vs s path m a =
     (if member s ''uniqueItems'' = Some (JBool True)
      then (case duplicate_at vs of None \<Rightarrow> a | Some i \<Rightarrow> add_issue m (item_path path i) ''uniqueItems'' a) else a)"

text \<open>The check of a value one level down, with its own bound on issues.\<close>

type_synonym checker = "jsval \<Rightarrow> jsval \<Rightarrow> string \<Rightarrow> nat \<Rightarrow> findings \<Rightarrow> findings"

definition probe :: "checker \<Rightarrow> jsval \<Rightarrow> jsval \<Rightarrow> string \<Rightarrow> nat \<Rightarrow> bool" where
  "probe chk v s path m \<longleftrightarrow> fst (chk v s path m ([], False)) = []"

definition contains_check :: "checker \<Rightarrow> jsval list \<Rightarrow> jsval \<Rightarrow> string \<Rightarrow> nat \<Rightarrow> findings \<Rightarrow> findings" where
  "contains_check chk vs s path m a = (case sub_schema s ''contains'' of
       None \<Rightarrow> a
     | Some c \<Rightarrow>
         (let matches = of_nat (length (filter (\<lambda>v. probe chk v c path 1) vs));
              min_contains = (case as_number (member s ''minContains'') of Some n \<Rightarrow> n | None \<Rightarrow> 1)
          in add_if (above_bound s ''maxContains'' matches) m path ''maxContains''
               (add_if (matches < min_contains) m path ''contains'' a)))"

definition item_list :: "jsval \<Rightarrow> string \<Rightarrow> jsval list" where
  "item_list s k = (case sub_schemas s k of Some ss \<Rightarrow> ss | None \<Rightarrow> [])"

definition checkArray :: "checker \<Rightarrow> jsval list \<Rightarrow> jsval \<Rightarrow> string \<Rightarrow> nat \<Rightarrow> findings \<Rightarrow> findings" where
  "checkArray chk vs s path m a =
     (let a = add_if (below_bound s ''minItems'' (of_nat (length vs))) m path ''minItems'' a;
          a = add_if (above_bound s ''maxItems'' (of_nat (length vs))) m path ''maxItems'' a;
          a = unique_items vs s path m a;
          prefix = item_list s ''prefixItems''
      in after_loop (each m (\<lambda>(i, v, p). chk v p (item_path path i) m) (zip [0..<length vs] (zip vs prefix)) a) (\<lambda>a.
           after_loop (case sub_schema s ''items'' of
               None \<Rightarrow> (False, a)
             | Some items \<Rightarrow> each m (\<lambda>(i, v). chk v items (item_path path i) m) (drop (length prefix) (zip [0..<length vs] vs)) a)
             (contains_check chk vs s path m)))"

definition checkMember :: "schema_env \<Rightarrow> checker \<Rightarrow> jsval \<Rightarrow> string \<Rightarrow> nat \<Rightarrow> string \<times> jsval \<Rightarrow> findings \<Rightarrow> findings" where
  "checkMember env chk s path m kv a = (case kv of (key, v) \<Rightarrow>
     (let child = child_path path key;
          a = (case sub_schema s ''propertyNames'' of Some ps \<Rightarrow> chk (JStr key) ps child m a | None \<Rightarrow> a);
          declared = map_of (schema_map s ''properties'') key;
          a = (case declared of Some p \<Rightarrow> chk v p child m a | None \<Rightarrow> a);
          patterns = filter (\<lambda>(pattern, _). se_regex env pattern key) (schema_map s ''patternProperties'');
          a = foldl (\<lambda>a (_, p). chk v p child m a) a patterns
      in if declared = None \<and> patterns = [] then (case sub_schema s ''additionalProperties'' of Some x \<Rightarrow> chk v x child m a | None \<Rightarrow> a)
         else a))"

definition required_names :: "jsval \<Rightarrow> string list" where
  "required_names s = List.map_filter (\<lambda>v. as_string (Some v)) (item_list s ''required'')"

definition checkObject :: "schema_env \<Rightarrow> checker \<Rightarrow> (string \<times> jsval) list \<Rightarrow> jsval \<Rightarrow> string \<Rightarrow> nat \<Rightarrow> findings \<Rightarrow> findings" where
  "checkObject env chk kvs s path m a =
     (let a = add_if (below_bound s ''minProperties'' (of_nat (length kvs))) m path ''minProperties'' a;
          a = add_if (above_bound s ''maxProperties'' (of_nat (length kvs))) m path ''maxProperties'' a
      in after_loop (each m (\<lambda>name. add_issue m (child_path path name) ''required'') (filter (\<lambda>n. map_of kvs n = None) (required_names s)) a)
           (\<lambda>a. snd (each m (checkMember env chk s path m) kvs a)))"

definition checkApplicators :: "checker \<Rightarrow> jsval \<Rightarrow> jsval \<Rightarrow> string \<Rightarrow> nat \<Rightarrow> findings \<Rightarrow> findings" where
  "checkApplicators chk v s path m a =
     after_loop (each m (\<lambda>x. chk v x path m) (item_list s ''allOf'') a) (\<lambda>a.
       (let a = add_if (case sub_schemas s ''anyOf'' of None \<Rightarrow> False | Some ss \<Rightarrow> \<not> list_ex (\<lambda>x. probe chk v x path 3) ss) m path ''anyOf'' a;
            a = add_if (case sub_schemas s ''oneOf'' of None \<Rightarrow> False | Some ss \<Rightarrow> length (filter (\<lambda>x. probe chk v x path 3) ss) \<noteq> 1)
                  m path ''oneOf'' a;
            a = add_if (case sub_schema s ''not'' of None \<Rightarrow> False | Some x \<Rightarrow> probe chk v x path 1) m path ''not'' a
        in (case sub_schema s ''if'' of
              None \<Rightarrow> a
            | Some c \<Rightarrow> (case sub_schema s (if probe chk v c path 1 then ''then'' else ''else'') of
                None \<Rightarrow> a | Some branch \<Rightarrow> chk v branch path m a))))"

definition keywords_check :: "schema_env \<Rightarrow> checker \<Rightarrow> jsval \<Rightarrow> jsval \<Rightarrow> string \<Rightarrow> nat \<Rightarrow> findings \<Rightarrow> findings" where
  "keywords_check env chk v s path m a =
     (if member s ''nullableAny'' = Some (JBool True) \<and> v = JNull then a
      else if (case type_names s of None \<Rightarrow> False | Some ts \<Rightarrow> \<not> list_ex (matchesType v) ts) then add_issue m path ''type'' a
      else
        (let a = add_if (case sub_schemas s ''enum'' of None \<Rightarrow> False | Some vs \<Rightarrow> \<not> list_ex (\<lambda>w. sameValue w v) vs) m path ''enum'' a;
             a = add_if (case member s ''const'' of None \<Rightarrow> False | Some w \<Rightarrow> \<not> sameValue w v) m path ''const'' a;
             a = (case v of
                 JStr t \<Rightarrow> checkString env t s path m a
               | JNum n \<Rightarrow> checkNumber n s path m a
               | JArr vs \<Rightarrow> checkArray chk vs s path m a
               | JObj kvs \<Rightarrow> checkObject env chk kvs s path m a
               | _ \<Rightarrow> a)
         in checkApplicators chk v s path m a))"

fun check_at :: "schema_env \<Rightarrow> nat \<Rightarrow> checker" where
  "check_at env 0 v s path m a = (if is_full m a then (fst a, True) else add_issue m path ''depth'' a)"
| "check_at env (Suc depth) v s path m a =
     (if is_full m a then (fst a, True)
      else (case as_string (member s ''$ref'') of
          None \<Rightarrow> keywords_check env (check_at env depth) v s path m a
        | Some r \<Rightarrow> (case map_of (se_defs env) r of
            None \<Rightarrow> add_issue m path ''$ref'' a
          | Some target \<Rightarrow>
              (let a = check_at env depth v target path m a in
               if (case s of JObj kvs \<Rightarrow> length kvs = 1 | _ \<Rightarrow> False) then a
               else keywords_check env (check_at env depth) v s path m a))))"

definition validate_json :: "schema_env \<Rightarrow> nat \<Rightarrow> jsval \<Rightarrow> jsval \<Rightarrow> findings" where
  "validate_json env maxErrors v s = check_at env (Suc MAX_DEPTH) v s [] maxErrors ([], False)"

section \<open>The plain reading of a schema\<close>

type_synonym reading_of = "jsval \<Rightarrow> jsval \<Rightarrow> bool"

definition unit_of :: "'a option \<Rightarrow> ('a \<Rightarrow> bool) \<Rightarrow> bool" where
  "unit_of x p = (case x of None \<Rightarrow> True | Some y \<Rightarrow> p y)"

definition string_conforms :: "schema_env \<Rightarrow> string \<Rightarrow> jsval \<Rightarrow> bool" where
  "string_conforms env v s \<longleftrightarrow> \<not> below_bound s ''minLength'' (of_nat (code_points v)) \<and> \<not> above_bound s ''maxLength'' (of_nat (code_points v)) \<and>
     \<not> bad_pattern env s v \<and> \<not> bad_format env s v"

definition number_conforms :: "rat \<Rightarrow> jsval \<Rightarrow> bool" where
  "number_conforms n s \<longleftrightarrow> \<not> below_bound s ''minimum'' n \<and> \<not> above_bound s ''maximum'' n \<and> \<not> at_or_below s ''exclusiveMinimum'' n \<and>
     \<not> at_or_above s ''exclusiveMaximum'' n \<and> \<not> bad_multiple s n \<and> \<not> bad_number_format s n"

definition array_conforms :: "reading_of \<Rightarrow> jsval list \<Rightarrow> jsval \<Rightarrow> bool" where
  "array_conforms ok vs s \<longleftrightarrow>
     \<not> below_bound s ''minItems'' (of_nat (length vs)) \<and> \<not> above_bound s ''maxItems'' (of_nat (length vs)) \<and>
     (if member s ''uniqueItems'' = Some (JBool True) then duplicate_at vs = None else True) \<and>
     list_all (\<lambda>(v, p). ok v p) (zip vs (item_list s ''prefixItems'')) \<and>
     unit_of (sub_schema s ''items'') (\<lambda>items. list_all (\<lambda>v. ok v items) (drop (length (item_list s ''prefixItems'')) vs)) \<and>
     unit_of (sub_schema s ''contains'') (\<lambda>c. let matches = of_nat (length (filter (\<lambda>v. ok v c) vs)) in
       (case as_number (member s ''minContains'') of Some n \<Rightarrow> n | None \<Rightarrow> 1) \<le> matches \<and> \<not> above_bound s ''maxContains'' matches)"

definition member_conforms :: "schema_env \<Rightarrow> reading_of \<Rightarrow> jsval \<Rightarrow> string \<times> jsval \<Rightarrow> bool" where
  "member_conforms env ok s kv = (case kv of (key, v) \<Rightarrow>
     (let declared = map_of (schema_map s ''properties'') key;
          patterns = filter (\<lambda>(pattern, _). se_regex env pattern key) (schema_map s ''patternProperties'')
      in unit_of (sub_schema s ''propertyNames'') (ok (JStr key)) \<and> unit_of declared (ok v) \<and> list_all (\<lambda>(_, p). ok v p) patterns \<and>
         (if declared = None \<and> patterns = [] then unit_of (sub_schema s ''additionalProperties'') (ok v) else True)))"

definition object_conforms :: "schema_env \<Rightarrow> reading_of \<Rightarrow> (string \<times> jsval) list \<Rightarrow> jsval \<Rightarrow> bool" where
  "object_conforms env ok kvs s \<longleftrightarrow>
     \<not> below_bound s ''minProperties'' (of_nat (length kvs)) \<and> \<not> above_bound s ''maxProperties'' (of_nat (length kvs)) \<and>
     list_all (\<lambda>n. map_of kvs n \<noteq> None) (required_names s) \<and> list_all (member_conforms env ok s) kvs"

definition applicators_conform :: "reading_of \<Rightarrow> jsval \<Rightarrow> jsval \<Rightarrow> bool" where
  "applicators_conform ok v s \<longleftrightarrow>
     list_all (ok v) (item_list s ''allOf'') \<and> unit_of (sub_schemas s ''anyOf'') (list_ex (ok v)) \<and>
     unit_of (sub_schemas s ''oneOf'') (\<lambda>ss. length (filter (ok v) ss) = 1) \<and>
     unit_of (sub_schema s ''not'') (\<lambda>x. \<not> ok v x) \<and>
     unit_of (sub_schema s ''if'') (\<lambda>c. unit_of (sub_schema s (if ok v c then ''then'' else ''else'')) (ok v))"

definition keywords_conform :: "schema_env \<Rightarrow> reading_of \<Rightarrow> jsval \<Rightarrow> jsval \<Rightarrow> bool" where
  "keywords_conform env ok v s \<longleftrightarrow>
     (if member s ''nullableAny'' = Some (JBool True) \<and> v = JNull then True
      else unit_of (type_names s) (list_ex (matchesType v)) \<and> unit_of (sub_schemas s ''enum'') (list_ex (\<lambda>w. sameValue w v)) \<and>
        unit_of (member s ''const'') (\<lambda>w. sameValue w v) \<and>
        (case v of
           JStr t \<Rightarrow> string_conforms env t s
         | JNum n \<Rightarrow> number_conforms n s
         | JArr vs \<Rightarrow> array_conforms ok vs s
         | JObj kvs \<Rightarrow> object_conforms env ok kvs s
         | _ \<Rightarrow> True) \<and>
        applicators_conform ok v s)"

fun conforms :: "schema_env \<Rightarrow> nat \<Rightarrow> jsval \<Rightarrow> jsval \<Rightarrow> bool" where
  "conforms env 0 v s = False"
| "conforms env (Suc depth) v s \<longleftrightarrow> (case as_string (member s ''$ref'') of
       None \<Rightarrow> keywords_conform env (conforms env depth) v s
     | Some r \<Rightarrow> (case map_of (se_defs env) r of
         None \<Rightarrow> False
       | Some target \<Rightarrow> conforms env depth v target \<and>
           (if (case s of JObj kvs \<Rightarrow> length kvs = 1 | _ \<Rightarrow> False) then True else keywords_conform env (conforms env depth) v s)))"


section \<open>The validator decides the reading\<close>

text \<open>From some findings to others through checks whose joint verdict is \<open>ok\<close>: nothing is taken back, the bound holds, and
  below the bound an issue is added exactly when the verdict is no.\<close>

definition grew :: "nat \<Rightarrow> findings \<Rightarrow> bool \<Rightarrow> findings \<Rightarrow> bool" where
  "grew m a ok a' \<longleftrightarrow>
     (if length (fst a) < m then (\<exists>xs. fst a' = fst a @ xs \<and> length (fst a @ xs) \<le> m \<and> (xs = [] \<longleftrightarrow> ok)) else fst a' = fst a)"

lemma grew_refl [simp]: "grew m a True a"
  by (simp add: grew_def)

lemma grew_trans: "grew m a p b \<Longrightarrow> grew m b q c \<Longrightarrow> grew m a (p \<and> q) c"
  by (auto simp: grew_def split: if_splits)

lemma grew_add: "grew m a False (add_issue m path rule a)"
  by (auto simp: grew_def add_issue_def)

lemma grew_if: "grew m a (\<not> bad) (add_if bad m path rule a)"
  using grew_add by (auto simp: add_if_def)

lemma grew_then_if: "grew m a p b \<Longrightarrow> grew m a (p \<and> \<not> bad) (add_if bad m path rule b)"
  by (rule grew_trans [OF _ grew_if])

lemma grew_loop:
  assumes "\<And>x a. x \<in> set xs \<Longrightarrow> grew m a (p x) (f x a)" and "\<And>a. grew m a q (g a)"
  shows "grew m a (list_all p xs \<and> q) (after_loop (each m f xs a) g)"
  using assms(1)
proof (induction xs arbitrary: a)
  case Nil
  then show ?case using assms(2) by (simp add: after_loop_def)
next
  case (Cons x xs)
  have x: "grew m a (p x) (f x a)" using Cons.prems by simp
  show ?case
  proof (cases "is_full m (f x a)")
    case True
    with x show ?thesis by (auto simp: after_loop_def grew_def is_full_def split: if_splits)
  next
    case False
    have "grew m (f x a) (list_all p xs \<and> q) (after_loop (each m f xs (f x a)) g)"
      by (rule Cons.IH) (use Cons.prems in simp)
    from grew_trans [OF x this] False show ?thesis by (simp add: Let_def conj_assoc)
  qed
qed

lemma grew_each: "(\<And>x a. x \<in> set xs \<Longrightarrow> grew m a (p x) (f x a)) \<Longrightarrow> grew m a (list_all p xs) (snd (each m f xs a))"
  using grew_loop [of xs m p f True "\<lambda>a. a" a] by (simp add: after_loop_def split_beta split: if_splits)

lemma grew_fold:
  assumes "\<And>x a. x \<in> set xs \<Longrightarrow> grew m a (p x) (f a x)"
  shows "grew m a (list_all p xs) (foldl f a xs)"
  using assms
proof (induction xs arbitrary: a)
  case (Cons x xs)
  have "grew m (f a x) (list_all p xs) (foldl f (f a x) xs)" by (rule Cons.IH) (use Cons.prems in simp)
  from grew_trans [OF _ this, of a "p x"] Cons.prems show ?case by simp
qed simp

lemma list_all_zip_index: "length ys \<le> length is \<Longrightarrow> list_all (\<lambda>(i, y). q y) (zip is ys) = list_all q ys"
proof (induction ys arbitrary: "is")
  case (Cons y ys)
  then show ?case by (cases "is") auto
qed simp

lemma list_all_zip_items: "list_all (\<lambda>(i, v). p v) (drop n (zip [0..<length vs] vs)) = list_all p (drop n vs)"
  by (simp add: drop_zip list_all_zip_index)

lemma list_all_zip_pair:
  "list_all (\<lambda>(i, v, x). p v x) (zip [0..<length vs] (zip vs xs)) = list_all (\<lambda>(v, x). p v x) (zip vs xs)"
  using list_all_zip_index [of "zip vs xs" "[0..<length vs]" "\<lambda>(v, x). p v x"] by simp

text \<open>What the body of the validator needs of the checks one level down.\<close>

locale deciding_checker =
  fixes chk :: checker and ok :: reading_of
  assumes decides: "\<And>v s path m a. grew m a (ok v s) (chk v s path m a)"
begin

lemma probe_decides: "0 < m \<Longrightarrow> probe chk v s path m = ok v s"
  using decides [of m "([], False)" v s path] by (auto simp: probe_def grew_def)

lemma contains_decides:
  "grew m a (unit_of (sub_schema s ''contains'') (\<lambda>c. let matches = of_nat (length (filter (\<lambda>v. ok v c) vs)) in
     (case as_number (member s ''minContains'') of Some n \<Rightarrow> n | None \<Rightarrow> 1) \<le> matches \<and> \<not> above_bound s ''maxContains'' matches))
   (contains_check chk vs s path m a)"
proof (cases "sub_schema s ''contains''")
  case (Some c)
  let ?k = "of_nat (length (filter (\<lambda>v. ok v c) vs)) :: rat"
  have "grew m a (\<not> ?k < (case as_number (member s ''minContains'') of Some n \<Rightarrow> n | None \<Rightarrow> 1) \<and> \<not> above_bound s ''maxContains'' ?k)
    (contains_check chk vs s path m a)"
    unfolding contains_check_def Some Let_def option.case(2) by (simp only: probe_decides zero_less_one) (rule grew_then_if [OF grew_if])
  with Some show ?thesis by (simp add: unit_of_def Let_def not_less)
qed (simp add: contains_check_def unit_of_def)

lemma unique_decides:
  "grew m a (if member s ''uniqueItems'' = Some (JBool True) then duplicate_at vs = None else True) (unique_items vs s path m a)"
  by (auto simp: unique_items_def grew_add split: option.split)

lemma array_decides: "grew m a (array_conforms ok vs s) (checkArray chk vs s path m a)"
proof -
  have items: "grew m b (unit_of (sub_schema s ''items'') (\<lambda>items. list_all (\<lambda>v. ok v items) (drop (length (item_list s ''prefixItems'')) vs)) \<and> q)
      (after_loop (case sub_schema s ''items'' of None \<Rightarrow> (False, b)
        | Some items \<Rightarrow> each m (\<lambda>(i, v). chk v items (item_path path i) m) (drop (length (item_list s ''prefixItems'')) (zip [0..<length vs] vs)) b) g)"
    if "\<And>a. grew m a q (g a)" for b q g
  proof (cases "sub_schema s ''items''")
    case (Some items)
    have "grew m b (list_all (\<lambda>(i, v). ok v items) (drop (length (item_list s ''prefixItems'')) (zip [0..<length vs] vs)) \<and> q)
      (after_loop (each m (\<lambda>(i, v). chk v items (item_path path i) m) (drop (length (item_list s ''prefixItems'')) (zip [0..<length vs] vs)) b) g)"
      by (rule grew_loop) (use decides that in auto)
    with Some show ?thesis by (simp add: unit_of_def list_all_zip_items)
  qed (use that in \<open>simp add: unit_of_def after_loop_def\<close>)
  have prefix: "grew m b (list_all (\<lambda>(i, v, x). ok v x) (zip [0..<length vs] (zip vs (item_list s ''prefixItems''))) \<and> q)
      (after_loop (each m (\<lambda>(i, v, x). chk v x (item_path path i) m) (zip [0..<length vs] (zip vs (item_list s ''prefixItems''))) b) g)"
    if "\<And>a. grew m a q (g a)" for b q g
    by (rule grew_loop) (use decides that in auto)
  show ?thesis unfolding checkArray_def Let_def
    by (rule back_subst [where P = "\<lambda>q. grew m a q _"],
        rule grew_trans [OF grew_trans [OF grew_then_if [OF grew_if] unique_decides] prefix], rule items, rule contains_decides)
      (simp add: array_conforms_def list_all_zip_pair conj_assoc)
qed

lemma option_decides: "grew m a (unit_of x (ok v)) (case x of Some p \<Rightarrow> chk v p path m a | None \<Rightarrow> a)"
  using decides by (simp add: unit_of_def split: option.split)

lemma member_decides: "grew m a (member_conforms env ok s kv) (checkMember env chk s path m kv a)"
proof -
  obtain key v where kv: "kv = (key, v)" by (cases kv)
  let ?d = "map_of (schema_map s ''properties'') key" and ?ps = "filter (\<lambda>(pattern, _). se_regex env pattern key) (schema_map s ''patternProperties'')"
  have "grew m b (list_all (\<lambda>(_, p). ok v p) ?ps) (foldl (\<lambda>a (_, p). chk v p (child_path path key) m a) b ?ps)" for b
    by (rule grew_fold) (use decides in auto)
  from grew_trans [OF grew_trans [OF option_decides option_decides] this]
  have "grew m a ((unit_of (sub_schema s ''propertyNames'') (ok (JStr key)) \<and> unit_of ?d (ok v)) \<and> list_all (\<lambda>(_, p). ok v p) ?ps)
    (foldl (\<lambda>a (_, p). chk v p (child_path path key) m a)
      (case ?d of Some p \<Rightarrow> chk v p (child_path path key) m
         (case sub_schema s ''propertyNames'' of Some ps \<Rightarrow> chk (JStr key) ps (child_path path key) m a | None \<Rightarrow> a)
       | None \<Rightarrow> (case sub_schema s ''propertyNames'' of Some ps \<Rightarrow> chk (JStr key) ps (child_path path key) m a | None \<Rightarrow> a)) ?ps)" .
  note g = this
  show ?thesis
  proof (cases "?d = None \<and> ?ps = []")
    case True
    from grew_trans [OF g option_decides] True show ?thesis
      by (simp add: checkMember_def member_conforms_def kv Let_def conj_assoc)
  next
    case False
    with g show ?thesis by (auto simp: checkMember_def member_conforms_def kv Let_def conj_assoc)
  qed
qed

lemma required_missing: "list_all (\<lambda>_. False) (filter (\<lambda>n. map_of kvs n = None) ns) = list_all (\<lambda>n. map_of kvs n \<noteq> None) ns"
  by (induction ns) auto

lemma object_decides: "grew m a (object_conforms env ok kvs s) (checkObject env chk kvs s path m a)"
  unfolding checkObject_def Let_def
  by (rule back_subst [where P = "\<lambda>q. grew m a q _"],
      rule grew_trans [OF grew_then_if [OF grew_if] grew_loop [where p = "\<lambda>_. False"]], rule grew_add, rule grew_each, rule member_decides)
    (auto simp: object_conforms_def required_missing)

lemma branch_decides:
  "grew m a (unit_of (sub_schema s ''if'') (\<lambda>c. unit_of (sub_schema s (if ok v c then ''then'' else ''else'')) (ok v)))
   (case sub_schema s ''if'' of None \<Rightarrow> a
    | Some c \<Rightarrow> (case sub_schema s (if probe chk v c path 1 then ''then'' else ''else'') of None \<Rightarrow> a | Some branch \<Rightarrow> chk v branch path m a))"
proof (cases "sub_schema s ''if''")
  case (Some c)
  from option_decides [of m a "sub_schema s (if ok v c then ''then'' else ''else'')" v path]
  show ?thesis by (simp add: Some unit_of_def probe_decides split: option.splits)
qed (simp add: unit_of_def)

lemma applicators_decide: "grew m a (applicators_conform ok v s) (checkApplicators chk v s path m a)"
proof -
  have chain: "grew m b
     (((\<not> (case sub_schemas s ''anyOf'' of None \<Rightarrow> False | Some ss \<Rightarrow> \<not> list_ex (\<lambda>x. probe chk v x path 3) ss) \<and>
        \<not> (case sub_schemas s ''oneOf'' of None \<Rightarrow> False | Some ss \<Rightarrow> length (filter (\<lambda>x. probe chk v x path 3) ss) \<noteq> 1)) \<and>
        \<not> (case sub_schema s ''not'' of None \<Rightarrow> False | Some x \<Rightarrow> probe chk v x path 1)) \<and>
      unit_of (sub_schema s ''if'') (\<lambda>c. unit_of (sub_schema s (if ok v c then ''then'' else ''else'')) (ok v)))
     (let b = add_if (case sub_schemas s ''anyOf'' of None \<Rightarrow> False | Some ss \<Rightarrow> \<not> list_ex (\<lambda>x. probe chk v x path 3) ss) m path ''anyOf'' b;
          b = add_if (case sub_schemas s ''oneOf'' of None \<Rightarrow> False | Some ss \<Rightarrow> length (filter (\<lambda>x. probe chk v x path 3) ss) \<noteq> 1)
                m path ''oneOf'' b;
          b = add_if (case sub_schema s ''not'' of None \<Rightarrow> False | Some x \<Rightarrow> probe chk v x path 1) m path ''not'' b
      in (case sub_schema s ''if'' of None \<Rightarrow> b
          | Some c \<Rightarrow> (case sub_schema s (if probe chk v c path 1 then ''then'' else ''else'') of
              None \<Rightarrow> b | Some branch \<Rightarrow> chk v branch path m b)))" for b
    unfolding Let_def by (rule grew_trans [OF grew_then_if [OF grew_then_if [OF grew_if]] branch_decides])
  show ?thesis unfolding checkApplicators_def
    by (rule back_subst [where P = "\<lambda>q. grew m a q _"], rule grew_loop, rule decides, rule chain)
      (auto simp: applicators_conform_def unit_of_def probe_decides split: option.splits)
qed

lemma string_decides: "grew m a (string_conforms env t s) (checkString env t s path m a)"
  unfolding checkString_def
  by (rule back_subst [where P = "\<lambda>q. grew m a q _"], rule grew_then_if [OF grew_then_if [OF grew_then_if [OF grew_if]]])
    (simp add: string_conforms_def conj_assoc)

lemma number_decides: "grew m a (number_conforms n s) (checkNumber n s path m a)"
  unfolding checkNumber_def
  by (rule back_subst [where P = "\<lambda>q. grew m a q _"],
      rule grew_then_if [OF grew_then_if [OF grew_then_if [OF grew_then_if [OF grew_then_if [OF grew_if]]]]])
    (simp add: number_conforms_def conj_assoc)

lemma value_decides:
  "grew m a (case v of JStr t \<Rightarrow> string_conforms env t s | JNum n \<Rightarrow> number_conforms n s | JArr vs \<Rightarrow> array_conforms ok vs s
       | JObj kvs \<Rightarrow> object_conforms env ok kvs s | _ \<Rightarrow> True)
     (case v of JStr t \<Rightarrow> checkString env t s path m a | JNum n \<Rightarrow> checkNumber n s path m a | JArr vs \<Rightarrow> checkArray chk vs s path m a
       | JObj kvs \<Rightarrow> checkObject env chk kvs s path m a | _ \<Rightarrow> a)"
  by (cases v) (simp_all add: string_decides number_decides array_decides object_decides)

lemma keywords_decide: "grew m a (keywords_conform env ok v s) (keywords_check env chk v s path m a)"
proof (cases "member s ''nullableAny'' = Some (JBool True) \<and> v = JNull")
  case True
  then show ?thesis by (simp add: keywords_check_def keywords_conform_def)
next
  case other: False
  show ?thesis
  proof (cases "case type_names s of None \<Rightarrow> False | Some ts \<Rightarrow> \<not> list_ex (matchesType v) ts")
    case True
    with other show ?thesis
      by (auto simp: keywords_check_def keywords_conform_def unit_of_def grew_add split: option.splits)
  next
    case False
    let ?enum = "case sub_schemas s ''enum'' of None \<Rightarrow> False | Some vs \<Rightarrow> \<not> list_ex (\<lambda>w. sameValue w v) vs"
      and ?const = "case member s ''const'' of None \<Rightarrow> False | Some w \<Rightarrow> \<not> sameValue w v"
    have "grew m a (((\<not> ?enum \<and> \<not> ?const) \<and> (case v of JStr t \<Rightarrow> string_conforms env t s | JNum n \<Rightarrow> number_conforms n s
        | JArr vs \<Rightarrow> array_conforms ok vs s | JObj kvs \<Rightarrow> object_conforms env ok kvs s | _ \<Rightarrow> True)) \<and> applicators_conform ok v s)
      (keywords_check env chk v s path m a)"
      unfolding keywords_check_def Let_def using other False
      by (simp only: if_False) (rule grew_trans [OF grew_trans [OF grew_then_if [OF grew_if] value_decides] applicators_decide])
    then show ?thesis using other False
      by (auto simp: keywords_conform_def unit_of_def conj_assoc split: option.splits elim: back_subst)
  qed
qed

end

lemma check_at_decides: "grew m a (conforms env depth v s) (check_at env depth v s path m a)"
proof (induction depth arbitrary: v s path m a)
  case 0
  then show ?case using grew_add [of m a path "''depth''"] by (auto simp: grew_def is_full_def)
next
  case (Suc depth)
  have level: "deciding_checker (check_at env depth) (conforms env depth)" by unfold_locales (rule Suc)
  note body = deciding_checker.keywords_decide [OF level]
  show ?case
  proof (cases "is_full m a")
    case True
    then show ?thesis by (simp add: grew_def is_full_def)
  next
    case False
    show ?thesis
    proof (cases "as_string (member s ''$ref'')")
      case None
      with False show ?thesis using body by simp
    next
      case (Some r)
      show ?thesis
      proof (cases "map_of (se_defs env) r")
        case None
        with False Some show ?thesis by (simp add: grew_add)
      next
        case target: (Some t)
        from grew_trans [OF Suc [of m a v t path] body] Suc [of m a v t path] False Some target show ?thesis
          by (simp add: Let_def)
      qed
    qed
  qed
qed


interpretation schema_level: deciding_checker "check_at env depth" "conforms env depth" for env depth
  by unfold_locales (rule check_at_decides)

text \<open>C12: The validator decides the schema. It reports no issue exactly when the value conforms in the plain reading, at any bound
  on issues above zero, although it stops at the bound, judges alternatives with bounds of their own and gives up below a
  depth; and it never reports more issues than the bound.\<close>

theorem validator_decides:
  "(fst (validate_json env (Suc n) v s) = [] \<longleftrightarrow> conforms env (Suc MAX_DEPTH) v s) \<and> length (fst (validate_json env (Suc n) v s)) \<le> Suc n"
  using check_at_decides [of "Suc n" "([], False)" env "Suc MAX_DEPTH" v s "[]"]
  by (auto simp: validate_json_def grew_def simp del: check_at.simps conforms.simps)

text \<open>A closed object is open at the last depth: the schema that accepts nothing is the negation of the one that accepts
  everything, and the negated check fails there for its depth alone.\<close>

lemma nothing_accepted_above: "\<not> conforms env (Suc (Suc depth)) v (JObj [(''not'', JObj [])])"
  by (simp add: keywords_conform_def applicators_conform_def unit_of_def sub_schema_def sub_schemas_def item_list_def type_names_def
      string_conforms_def number_conforms_def array_conforms_def object_conforms_def below_bound_def above_bound_def at_or_below_def
      at_or_above_def bad_pattern_def bad_format_def bad_multiple_def bad_number_format_def required_names_def map_filter_simps
      member_conforms_def schema_map_def list_all_iff split: json.splits)

lemma everything_accepted_at_the_end: "conforms env (Suc 0) (JStr t) (JObj [(''not'', JObj [])])"
  by (simp add: keywords_conform_def applicators_conform_def unit_of_def sub_schema_def sub_schemas_def item_list_def type_names_def
      string_conforms_def below_bound_def above_bound_def bad_pattern_def bad_format_def)

end
