(* ===== verification/XmlScan.thy ===== *)
theory XmlScan
  imports Net
begin

text \<open>
  The restrictive XML scanner (\<^verbatim>\<open>shared/xml.ts\<close>): one pass over a document that hands start tags, end tags and text to
  handlers, refuses what it does not understand, and bounds length, depth and element count; and the scan of an envelope's front
  that finds the operation of a SOAP call. The parse into a tree is in the theory \<^verbatim>\<open>XmlTree\<close>.

  Text is a string of UTF-8 bytes; its length is counted in UTF-16 units, as the source counts it. A handler may stop the scan or
  throw; a scan is finished (which a cut-off document is where the caller allows it), halted by a handler, or malformed.

  Shown here: what the front of an envelope says of the operation, the whole envelope says; every element handed on is within the
  limits.
\<close>

declare map_of_eq_Some_iff [simp del] Some_eq_map_of_iff [simp del]

section \<open>Definitions: names, entities, tags\<close>

record ScanLimits =
  sl_maxBytes :: nat
  sl_maxDepth :: nat
  sl_maxElements :: nat

record XmlAttribute =
  xa_prefix :: string
  xa_local :: string
  xa_ns :: string
  xa_value :: string

record StartTagEvent =
  ev_raw :: string
  ev_prefix :: string
  ev_local :: string
  ev_ns :: string
  ev_qname :: string
  ev_attributes :: "XmlAttribute list"
  ev_declarations :: "(string, string) jsmap"
  ev_selfClosing :: bool
  ev_depth :: nat

datatype 'h reply = Proceed 'h | StopHere 'h | Throws

record 'h handlers =
  on_start :: "StartTagEvent \<Rightarrow> 'h \<Rightarrow> 'h reply"
  on_end :: "(string \<Rightarrow> nat \<Rightarrow> 'h \<Rightarrow> 'h reply) option"
  on_text :: "(string \<Rightarrow> nat \<Rightarrow> 'h \<Rightarrow> 'h reply) option"

datatype 'h scanned = Finished 'h | Halted 'h | Malformed

definition utf16_length :: "string \<Rightarrow> nat" where
  "utf16_length s = sum_list (map (\<lambda>c. let b = of_char c :: nat in if 128 \<le> b \<and> b < 192 then 0 else if 240 \<le> b then 2 else 1) s)"

definition xml_name_start :: "char \<Rightarrow> bool" where
  "xml_name_start c \<longleftrightarrow> char_in CHR ''A'' CHR ''Z'' c \<or> char_in CHR ''a'' CHR ''z'' c \<or> c = CHR ''_''"

definition xml_name_char :: "char \<Rightarrow> bool" where
  "xml_name_char c \<longleftrightarrow> xml_name_start c \<or> char_in CHR ''0'' CHR ''9'' c \<or> c \<in> set ''.:-''"

definition qnameOf :: "string \<Rightarrow> string \<Rightarrow> string" where
  "qnameOf ns local = (if ns = [] then local else ''{'' @ ns @ ''}'' @ local)"

text \<open>The prefix and local part of a name: what is before and after the first colon.\<close>

definition split_name :: "string \<Rightarrow> string \<times> string" where
  "split_name raw = (if CHR '':'' \<in> set raw then (takeWhile (\<lambda>c. c \<noteq> CHR '':'') raw, tl (dropWhile (\<lambda>c. c \<noteq> CHR '':'') raw)) else ([], raw))"

text \<open>\<^verbatim>\<open>parseInt(s, 16)\<close>, which reads as far as there are digits.\<close>

definition parse_int16 :: "string \<Rightarrow> int option" where
  "parse_int16 s =
     (let t = dropWhile js_space s; (negative, t) = (case t of c # u \<Rightarrow> if c = CHR ''-'' then (True, u) else if c = CHR ''+'' then (False, u)
          else (False, t) | [] \<Rightarrow> (False, []));
          t = (if toLowerCase (take 2 t) = ''0x'' then drop 2 t else t); digits = takeWhile (\<lambda>c. radix_digit 16 c \<noteq> None) t
      in map_option (\<lambda>n. if negative then - int n else int n) (read_radix 16 digits))"

definition from_char_code :: "nat \<Rightarrow> string" where
  "from_char_code n = map char_of
     (if n < 128 then [n] else if n < 2048 then [192 + n div 64, 128 + n mod 64]
      else [224 + n div 4096, 128 + n div 64 mod 64, 128 + n mod 64])"

definition character_reference :: "string \<Rightarrow> string option" where
  "character_reference name = map_option from_char_code
     (if name \<noteq> [] \<and> (hd name = CHR ''x'' \<or> hd name = CHR ''X'')
      then (case parse_int16 (tl name) of Some n \<Rightarrow> if 0 < n \<and> n \<le> 65535 then Some (nat n) else None | None \<Rightarrow> None)
      else js_int_between 1 65535 (js_Number name))"

definition decode_entity :: "string \<Rightarrow> string option" where
  "decode_entity name =
     (if name = ''amp'' then Some ''&'' else if name = ''lt'' then Some ''<'' else if name = ''gt'' then Some ''>''
      else if name = ''quot'' then Some [CHR 0x22] else if name = ''apos'' then Some [CHR 0x27]
      else if starts_with ''#'' name then character_reference (tl name)
      else None)"

text \<open>\<open>after P s\<close>: the first character that is not a \<open>P\<close>, and what follows it.\<close>

definition after :: "(char \<Rightarrow> bool) \<Rightarrow> string \<Rightarrow> (char \<times> string) option" where
  "after P s = (case dropWhile P s of [] \<Rightarrow> None | c # r \<Rightarrow> Some (c, r))"

lemma after_shorter: "after P s = Some (c, r) \<Longrightarrow> length r < length s"
  using length_dropWhile_le [of P s] by (auto simp: after_def split: list.splits)

function decode_entities :: "string \<Rightarrow> string option" where
  "decode_entities [] = Some []"
| "decode_entities (c # s) =
     (if c \<noteq> CHR ''&'' then map_option ((#) c) (decode_entities s)
      else (case after (\<lambda>c. c \<noteq> CHR '';'') s of
          None \<Rightarrow> None
        | Some (_, rest) \<Rightarrow> (case decode_entity (takeWhile (\<lambda>c. c \<noteq> CHR '';'') s) of
            None \<Rightarrow> None | Some t \<Rightarrow> map_option ((@) t) (decode_entities rest))))"
  by pat_completeness auto
termination
  by (relation "measure length") (auto dest: after_shorter)

text \<open>\<open>until_str p s\<close>: what comes before the first \<open>p\<close> in \<open>s\<close>, and what comes after it.\<close>

fun until_str :: "string \<Rightarrow> string \<Rightarrow> (string \<times> string) option" where
  "until_str p [] = None"
| "until_str p (c # s) = (if starts_with p (c # s) then Some ([], drop (length p) (c # s))
     else map_option (\<lambda>(b, a). (c # b, a)) (until_str p s))"

datatype tag_end = Closed bool "(string, string) jsmap" "(string \<times> string \<times> string) list" string | CutOff | BadTag

definition declare_prefix :: "string \<Rightarrow> string \<Rightarrow> (string, string) jsmap \<Rightarrow> (string, string) jsmap" where
  "declare_prefix p v d = (if p = ''__proto__'' then d else mset_key p v d)"

text \<open>One attribute: its name, its decoded value and what follows.\<close>

datatype attr_read = Attr string string string | AttrCut | AttrBad

definition read_attr :: "string \<Rightarrow> attr_read" where
  "read_attr s =
     (let name = takeWhile xml_name_char s in
      if name = [] then AttrBad
      else (case after js_space (dropWhile xml_name_char s) of
          None \<Rightarrow> AttrBad
        | Some (e, t) \<Rightarrow>
            if e \<noteq> CHR ''='' then AttrBad
            else (case after js_space t of
                None \<Rightarrow> AttrBad
              | Some (quote, u) \<Rightarrow>
                  if quote \<noteq> CHR 0x22 \<and> quote \<noteq> CHR 0x27 then AttrBad
                  else (case after (\<lambda>c. c \<noteq> quote) u of
                      None \<Rightarrow> AttrCut
                    | Some (_, rest) \<Rightarrow> (case decode_entities (takeWhile (\<lambda>c. c \<noteq> quote) u) of
                          None \<Rightarrow> AttrBad | Some v \<Rightarrow> Attr name v rest)))))"

lemma read_attr_shorter: "read_attr s = Attr name v rest \<Longrightarrow> length rest < length s"
  using length_dropWhile_le [of xml_name_char s]
  by (auto simp: read_attr_def Let_def split: if_splits option.splits dest!: after_shorter)

text \<open>What an attribute adds to the declarations and to the attributes still to be resolved.\<close>

definition take_attribute ::
  "string \<Rightarrow> string \<Rightarrow> (string, string) jsmap \<Rightarrow> (string \<times> string \<times> string) list \<Rightarrow>
    (string, string) jsmap \<times> (string \<times> string \<times> string) list" where
  "take_attribute name v d p =
     (if name = ''xmlns'' then (declare_prefix [] v d, p)
      else if starts_with ''xmlns:'' name then (declare_prefix (drop 6 name) v d, p)
      else (d, p @ [(fst (split_name name), snd (split_name name), v)]))"

function parse_attrs :: "(string, string) jsmap \<Rightarrow> (string \<times> string \<times> string) list \<Rightarrow> string \<Rightarrow> tag_end" where
  "parse_attrs d p s = (case after js_space s of
       None \<Rightarrow> CutOff
     | Some (c, r) \<Rightarrow>
         if c = CHR ''>'' then Closed False d p r
         else if starts_with ''/>'' (c # r) then Closed True d p (tl r)
         else (case read_attr (c # r) of
             AttrBad \<Rightarrow> BadTag
           | AttrCut \<Rightarrow> CutOff
           | Attr name v rest \<Rightarrow> parse_attrs (fst (take_attribute name v d p)) (snd (take_attribute name v d p)) rest))"
  by pat_completeness auto
termination
  by (relation "measure (\<lambda>(_, _, s). length s)") (auto dest!: after_shorter read_attr_shorter)

declare parse_attrs.simps [simp del]

text \<open>An object's own and inherited members are read alike: a prefix of the name of a member every object has is found in the
  innermost scope, as a function of the runtime that no text equals.\<close>

definition OBJECT_MEMBERS :: "string list" where
  "OBJECT_MEMBERS = [''constructor'', ''hasOwnProperty'', ''isPrototypeOf'', ''propertyIsEnumerable'', ''toLocaleString'', ''toString'',
     ''valueOf'', ''__proto__'', ''__defineGetter__'', ''__defineSetter__'', ''__lookupGetter__'', ''__lookupSetter__'']"

fun resolve_prefix :: "(string, string) jsmap list \<Rightarrow> string \<Rightarrow> string option" where
  "resolve_prefix [] p = (if p = [] then Some [] else None)"
| "resolve_prefix (scope # scopes) p = (case map_of scope p of
       Some uri \<Rightarrow> Some uri
     | None \<Rightarrow> if p \<in> set OBJECT_MEMBERS then Some (''[native] '' @ p) else resolve_prefix scopes p)"

section \<open>Definitions: the scan\<close>

record scan_state =
  xs_scopes :: "(string, string) jsmap list"
  xs_open :: "string list"
  xs_elements :: nat
  xs_declared :: bool
  xs_rooted :: bool

definition initial_scan :: scan_state where
  "initial_scan = \<lparr>xs_scopes = [[(''xml'', ''http://www.w3.org/XML/1998/namespace'')]], xs_open = [], xs_elements = 0,
     xs_declared = False, xs_rooted = False\<rparr>"

datatype 'h scan_next = Onward string scan_state 'h | Return "'h scanned"

fun deliver :: "'h reply \<Rightarrow> ('h \<Rightarrow> 'h scan_next) \<Rightarrow> 'h scan_next" where
  "deliver (Proceed h) f = f h"
| "deliver (StopHere h) f = Return (Halted h)"
| "deliver Throws f = Return Malformed"

definition cut_off :: "bool \<Rightarrow> 'h \<Rightarrow> 'h scanned" where
  "cut_off allowTruncated h = (if allowTruncated then Finished h else Malformed)"

definition hand_text :: "'h handlers \<Rightarrow> string option \<Rightarrow> scan_state \<Rightarrow> 'h \<Rightarrow> 'h reply" where
  "hand_text hs text st h = (case on_text hs of
       None \<Rightarrow> Proceed h
     | Some f \<Rightarrow> (case text of None \<Rightarrow> Throws | Some t \<Rightarrow> f t (length (xs_open st)) h))"

definition close_element :: "'h handlers \<Rightarrow> string \<Rightarrow> string \<Rightarrow> scan_state \<Rightarrow> 'h \<Rightarrow> 'h scan_next" where
  "close_element hs raw rest st h = (case xs_open st of
       [] \<Rightarrow> Return Malformed
     | expected # opened \<Rightarrow>
         if expected \<noteq> raw then Return Malformed
         else (let st' = st\<lparr>xs_open := opened, xs_scopes := tl (xs_scopes st)\<rparr> in
           case on_end hs of
             None \<Rightarrow> Onward rest st' h
           | Some f \<Rightarrow> (case resolve_prefix (xs_scopes st) (fst (split_name raw)) of
               None \<Rightarrow> Return Malformed
             | Some ns \<Rightarrow> deliver (f (qnameOf ns (snd (split_name raw))) (length opened) h) (\<lambda>h. Onward rest st' h))))"

definition bind_attributes :: "(string, string) jsmap list \<Rightarrow> (string \<times> string \<times> string) list \<Rightarrow> XmlAttribute list option" where
  "bind_attributes scopes pending =
     those (map (\<lambda>(p, l, v). map_option (\<lambda>ns. \<lparr>xa_prefix = p, xa_local = l, xa_ns = ns, xa_value = v\<rparr>)
       (if p = [] then Some [] else resolve_prefix scopes p)) pending)"

definition open_element ::
  "ScanLimits \<Rightarrow> 'h handlers \<Rightarrow> string \<Rightarrow> bool \<Rightarrow> (string, string) jsmap \<Rightarrow> (string \<times> string \<times> string) list \<Rightarrow> string \<Rightarrow> scan_state \<Rightarrow> 'h \<Rightarrow> 'h scan_next" where
  "open_element limits hs raw selfClosing declarations pending rest st h =
     (let scopes = declarations # xs_scopes st in
      if sl_maxDepth limits < length scopes - 1 then Return Malformed
      else (case (resolve_prefix scopes (fst (split_name raw)), bind_attributes scopes pending) of
          (Some ns, Some attributes) \<Rightarrow>
            deliver (on_start hs \<lparr>ev_raw = raw, ev_prefix = fst (split_name raw), ev_local = snd (split_name raw), ev_ns = ns,
                ev_qname = qnameOf ns (snd (split_name raw)), ev_attributes = attributes, ev_declarations = declarations,
                ev_selfClosing = selfClosing, ev_depth = length (xs_open st)\<rparr> h)
              (\<lambda>h. Onward rest (st\<lparr>xs_rooted := True, xs_elements := xs_elements st + 1,
                xs_scopes := (if selfClosing then xs_scopes st else scopes), xs_open := (if selfClosing then xs_open st else raw # xs_open st)\<rparr>) h)
        | _ \<Rightarrow> Return Malformed))"

text \<open>\<open>s\<close> is what follows the opening bracket of a start tag.\<close>

definition start_tag :: "ScanLimits \<Rightarrow> bool \<Rightarrow> 'h handlers \<Rightarrow> string \<Rightarrow> scan_state \<Rightarrow> 'h \<Rightarrow> 'h scan_next" where
  "start_tag limits allowTruncated hs s st h =
     (if sl_maxElements limits < xs_elements st + 1 then Return Malformed
      else (case s of
          [] \<Rightarrow> Return (cut_off allowTruncated h)
        | c # _ \<Rightarrow>
            if \<not> xml_name_start c then Return Malformed
            else if dropWhile xml_name_char s = [] then Return (cut_off allowTruncated h)
            else (case parse_attrs [] [] (dropWhile xml_name_char s) of
                BadTag \<Rightarrow> Return Malformed
              | CutOff \<Rightarrow> Return (cut_off allowTruncated h)
              | Closed selfClosing declarations pending rest \<Rightarrow>
                  open_element limits hs (takeWhile xml_name_char s) selfClosing declarations pending rest st h)))"

text \<open>The text begins with an opening bracket. The ends of an instruction, a comment and a character section are looked for from
  that bracket on, as in the source.\<close>

definition markup :: "ScanLimits \<Rightarrow> bool \<Rightarrow> 'h handlers \<Rightarrow> string \<Rightarrow> scan_state \<Rightarrow> 'h \<Rightarrow> 'h scan_next" where
  "markup limits allowTruncated hs s st h =
     (if starts_with ''<?'' s
      then (case until_str ''?>'' s of
          None \<Rightarrow> Return (cut_off allowTruncated h)
        | Some (before, rest) \<Rightarrow>
            if \<not> starts_with ''xml'' (dropWhile js_space (drop 2 before)) \<or> xs_declared st \<or> xs_rooted st then Return Malformed
            else Onward rest (st\<lparr>xs_declared := True\<rparr>) h)
      else if starts_with ''<!--'' s
      then (case until_str ''-->'' s of None \<Rightarrow> Return (cut_off allowTruncated h) | Some (_, rest) \<Rightarrow> Onward rest st h)
      else if starts_with ''<![CDATA['' s
      then (case until_str '']]>'' s of
          None \<Rightarrow> Return (cut_off allowTruncated h)
        | Some (before, rest) \<Rightarrow>
            if drop 9 before = [] then Onward rest st h
            else deliver (hand_text hs (Some (drop 9 before)) st h) (\<lambda>h. Onward rest st h))
      else if starts_with ''<!'' s then Return Malformed
      else if starts_with ''</'' s
      then (case until_str ''>'' s of
          None \<Rightarrow> Return (cut_off allowTruncated h)
        | Some (before, rest) \<Rightarrow> close_element hs (js_trim (drop 2 before)) rest st h)
      else start_tag limits allowTruncated hs (tl s) st h)"

definition scan_step :: "ScanLimits \<Rightarrow> bool \<Rightarrow> 'h handlers \<Rightarrow> string \<Rightarrow> scan_state \<Rightarrow> 'h \<Rightarrow> 'h scan_next" where
  "scan_step limits allowTruncated hs s st h =
     (let text = takeWhile (\<lambda>c. c \<noteq> CHR ''<'') s; rest = dropWhile (\<lambda>c. c \<noteq> CHR ''<'') s;
          told = (if js_trim text = [] then Proceed h else hand_text hs (decode_entities text) st h) in
      if s = [] then Return (if xs_open st = [] then Finished h else cut_off allowTruncated h)
      else if rest = [] then Return (case told of Proceed h \<Rightarrow> Finished h | StopHere h \<Rightarrow> Finished h | Throws \<Rightarrow> Malformed)
      else deliver told (\<lambda>h. markup limits allowTruncated hs rest st h))"

text \<open>Every step consumes something.\<close>

lemma until_str_shorter: "until_str p s = Some (b, a) \<Longrightarrow> p \<noteq> [] \<Longrightarrow> length a < length s"
  by (induction p s arbitrary: b a rule: until_str.induct) (fastforce split: if_splits)+

lemma parse_attrs_shorter: "parse_attrs d p s = Closed c d' p' rest \<Longrightarrow> length rest < length s"
proof (induction d p s rule: parse_attrs.induct)
  case (1 d p s)
  from "1.prems" obtain e r where e: "after js_space s = Some (e, r)"
    by (subst (asm) parse_attrs.simps) (auto split: option.splits)
  note shorter = after_shorter [OF e]
  show ?case
  proof (cases "e = CHR ''>'' \<or> starts_with ''/>'' (e # r)")
    case True
    with "1.prems" e shorter show ?thesis by (subst (asm) parse_attrs.simps) (auto split: if_splits)
  next
    case False
    then obtain name v t where t: "read_attr (e # r) = Attr name v t"
      using "1.prems" e by (subst (asm) parse_attrs.simps) (auto split: attr_read.splits)
    with "1.prems" e False have "parse_attrs (fst (take_attribute name v d p)) (snd (take_attribute name v d p)) t = Closed c d' p' rest"
      by (subst (asm) parse_attrs.simps) auto
    from "1.IH" [OF e _ _ _ t this] False have "length rest < length t" by auto
    with read_attr_shorter [OF t] shorter show ?thesis by simp
  qed
qed

lemma deliver_onward: "deliver r f = Onward s' st' h' \<Longrightarrow> \<exists>h. r = Proceed h \<and> f h = Onward s' st' h'"
  by (cases r) auto

lemma start_tag_shorter: "start_tag limits allow hs s st h = Onward s' st' h' \<Longrightarrow> length s' < length s"
  using length_dropWhile_le [of xml_name_char s]
  by (auto simp: start_tag_def open_element_def Let_def split: if_splits list.splits tag_end.splits option.splits
      dest!: parse_attrs_shorter deliver_onward)

lemma close_element_rest: "close_element hs raw rest st h = Onward s' st' h' \<Longrightarrow> s' = rest"
  by (auto simp: close_element_def Let_def split: list.splits if_splits option.splits dest!: deliver_onward)

lemma markup_shorter:
  assumes "markup limits allow hs s st h = Onward s' st' h'" "s \<noteq> []"
  shows "length s' < length s"
  using assms
  by (auto simp: markup_def split: if_splits option.splits prod.splits
      dest!: deliver_onward close_element_rest start_tag_shorter dest: until_str_shorter)

lemma scan_step_shorter:
  assumes "scan_step limits allow hs s st h = Onward s' st' h'"
  shows "length s' < length s"
proof -
  let ?rest = "dropWhile (\<lambda>c. c \<noteq> CHR ''<'') s"
  from assms obtain g where "markup limits allow hs ?rest st g = Onward s' st' h'" "?rest \<noteq> []"
    by (auto simp: scan_step_def Let_def split: if_splits dest!: deliver_onward)
  from markup_shorter [OF this] length_dropWhile_le [of "\<lambda>c. c \<noteq> CHR ''<''" s] show ?thesis by simp
qed

function scan_loop :: "ScanLimits \<Rightarrow> bool \<Rightarrow> 'h handlers \<Rightarrow> string \<Rightarrow> scan_state \<Rightarrow> 'h \<Rightarrow> 'h scanned" where
  "scan_loop limits allowTruncated hs s st h = (case scan_step limits allowTruncated hs s st h of
       Return r \<Rightarrow> r | Onward s' st' h' \<Rightarrow> scan_loop limits allowTruncated hs s' st' h')"
  by pat_completeness auto
termination
  by (relation "measure (\<lambda>(_, _, _, s, _). length s)") (auto dest: scan_step_shorter)

declare scan_loop.simps [simp del]

definition xml_scan :: "ScanLimits \<Rightarrow> bool \<Rightarrow> 'h handlers \<Rightarrow> string \<Rightarrow> 'h \<Rightarrow> 'h scanned" where
  "xml_scan limits allowTruncated hs s h =
     (if sl_maxBytes limits < utf16_length s then Malformed else scan_loop limits allowTruncated hs s initial_scan h)"

section \<open>Definitions: the scan of an envelope's front\<close>

definition SOAP_11_ENVELOPE :: string where "SOAP_11_ENVELOPE = ''http://schemas.xmlsoap.org/soap/envelope/''"

definition SOAP_12_ENVELOPE :: string where "SOAP_12_ENVELOPE = ''http://www.w3.org/2003/05/soap-envelope''"

text \<open>The version is whether it is 1.2.\<close>

record EnvelopeScan =
  es_soap12 :: "bool option"
  es_inBody :: bool
  es_bodyDepth :: nat
  es_bodyChild :: "string option"

definition envelope_start :: "StartTagEvent \<Rightarrow> EnvelopeScan \<Rightarrow> EnvelopeScan reply" where
  "envelope_start e st =
     (if ev_depth e = 0
      then (if ev_ns e \<noteq> SOAP_11_ENVELOPE \<and> ev_ns e \<noteq> SOAP_12_ENVELOPE \<or> ev_local e \<noteq> ''Envelope'' then Throws
            else Proceed (st\<lparr>es_soap12 := Some (ev_ns e \<noteq> SOAP_11_ENVELOPE)\<rparr>))
      else if \<not> es_inBody st \<and> ev_depth e = 1 \<and> ev_local e = ''Body'' \<and>
              ev_ns e = (if es_soap12 st = Some True then SOAP_12_ENVELOPE else SOAP_11_ENVELOPE)
      then Proceed (st\<lparr>es_inBody := True, es_bodyDepth := ev_depth e\<rparr>)
      else if es_inBody st \<and> ev_depth e = es_bodyDepth st + 1 then StopHere (st\<lparr>es_bodyChild := Some (ev_qname e)\<rparr>)
      else Proceed st)"

definition envelope_handlers :: "EnvelopeScan handlers" where
  "envelope_handlers = \<lparr>on_start = envelope_start, on_end = None, on_text = None\<rparr>"

definition scanEnvelope :: "ScanLimits \<Rightarrow> string \<Rightarrow> (bool \<times> string option) option" where
  "scanEnvelope limits prefix =
     (case xml_scan limits True envelope_handlers prefix \<lparr>es_soap12 = None, es_inBody = False, es_bodyDepth = 0, es_bodyChild = None\<rparr> of
        Malformed \<Rightarrow> None
      | Finished st \<Rightarrow> map_option (\<lambda>v. (v, es_bodyChild st)) (es_soap12 st)
      | Halted st \<Rightarrow> map_option (\<lambda>v. (v, es_bodyChild st)) (es_soap12 st))"

section \<open>What every scan keeps\<close>

text \<open>A property of what the handlers hold, of the elements begun and of the elements open, that every handler keeps: a scan that
  finishes ends with it. Elements are begun within the limits only.\<close>

locale scan_invariant =
  fixes limits :: ScanLimits and hs :: "'h handlers" and P :: "nat \<Rightarrow> nat \<Rightarrow> 'h \<Rightarrow> bool"
  assumes started: "\<lbrakk>P n d h; n < sl_maxElements limits; d < sl_maxDepth limits; ev_depth e = d; on_start hs e h = Proceed h'\<rbrakk>
      \<Longrightarrow> P (Suc n) (if ev_selfClosing e then d else Suc d) h'"
    and ended: "\<lbrakk>P n (Suc d) h; case on_end hs of None \<Rightarrow> h' = h | Some f \<Rightarrow> f q d h = Proceed h'\<rbrakk> \<Longrightarrow> P n d h'"
    and told: "\<lbrakk>P n d h; on_text hs = Some f; f t d h = Proceed h' \<or> f t d h = StopHere h'\<rbrakk> \<Longrightarrow> P n d h'"
begin

definition kept :: "scan_state \<Rightarrow> 'h \<Rightarrow> bool" where
  "kept st h \<longleftrightarrow> length (xs_scopes st) = Suc (length (xs_open st)) \<and> xs_elements st \<le> sl_maxElements limits \<and>
     P (xs_elements st) (length (xs_open st)) h"

lemma kept_told: "kept st h \<Longrightarrow> hand_text hs t st h = Proceed h' \<or> hand_text hs t st h = StopHere h' \<Longrightarrow> kept st h'"
  by (auto simp: kept_def hand_text_def split: option.splits intro: told)

lemma kept_close:
  assumes kept: "kept st h" and closed: "close_element hs raw rest st h = Onward s' st' h'"
  shows "kept st' h'"
proof -
  from closed obtain expected opened where opened: "xs_open st = expected # opened"
    by (auto simp: close_element_def split: list.splits)
  from closed opened have st': "st' = st\<lparr>xs_open := opened, xs_scopes := tl (xs_scopes st)\<rparr>"
    and called: "\<exists>q. case on_end hs of None \<Rightarrow> h' = h | Some f \<Rightarrow> f q (length opened) h = Proceed h'"
    by (auto simp: close_element_def Let_def split: if_splits option.splits dest!: deliver_onward)
  from called kept opened have "P (xs_elements st) (length opened) h'" by (auto simp: kept_def intro: ended)
  with kept opened st' show ?thesis by (simp add: kept_def)
qed

lemma kept_open:
  assumes kept: "kept st h" and few: "xs_elements st < sl_maxElements limits"
    and opened: "open_element limits hs raw selfClosing ds ps rest st h = Onward s' st' h'"
  shows "kept st' h'"
proof -
  from opened obtain e where e: "on_start hs e h = Proceed h'" "ev_depth e = length (xs_open st)" "ev_selfClosing e = selfClosing"
    and deep: "\<not> sl_maxDepth limits < length (xs_scopes st)"
    and st': "st' = st\<lparr>xs_rooted := True, xs_elements := xs_elements st + 1, xs_scopes := (if selfClosing then xs_scopes st else ds # xs_scopes st),
      xs_open := (if selfClosing then xs_open st else raw # xs_open st)\<rparr>"
    by (auto simp: open_element_def Let_def split: if_splits option.splits dest!: deliver_onward)
  from kept deep have "length (xs_open st) < sl_maxDepth limits" by (simp add: kept_def)
  with kept have "P (Suc (xs_elements st)) (if ev_selfClosing e then length (xs_open st) else Suc (length (xs_open st))) h'"
    by (intro started [OF _ few _ e(2) e(1)]) (simp_all add: kept_def)
  with kept few st' e(3) show ?thesis by (cases selfClosing) (simp_all add: kept_def)
qed

lemma kept_start:
  assumes "kept st h" "start_tag limits allow hs s st h = Onward s' st' h'"
  shows "kept st' h'"
  using assms by (auto simp: start_tag_def split: if_splits list.splits tag_end.splits intro: kept_open [OF assms(1)])

lemma kept_markup:
  assumes kept: "kept st h" and "markup limits allow hs s st h = Onward s' st' h'"
  shows "kept st' h'"
proof -
  have declared: "kept (st\<lparr>xs_declared := True\<rparr>) h" using kept by (simp add: kept_def)
  from assms declared show ?thesis
    by (auto simp: markup_def split: if_splits option.splits
        dest!: deliver_onward intro: kept_told kept_close [OF kept] kept_start [OF kept])
qed

lemma kept_step:
  assumes kept: "kept st h" and onward: "scan_step limits allow hs s st h = Onward s' st' h'"
  shows "kept st' h'"
proof -
  from onward obtain g t where told: "g = h \<or> hand_text hs t st h = Proceed g"
    and on: "markup limits allow hs (dropWhile (\<lambda>c. c \<noteq> CHR ''<'') s) st g = Onward s' st' h'"
    by (auto simp: scan_step_def Let_def split: if_splits dest!: deliver_onward)
  from told kept have "kept st g" by (auto intro: kept_told)
  from kept_markup [OF this on] show ?thesis .
qed

lemma deliver_finished: "deliver r f = Return (Finished h') \<Longrightarrow> \<exists>h. r = Proceed h \<and> f h = Return (Finished h')"
  by (cases r) auto

lemma markup_finished: "markup limits allow hs s st h = Return (Finished h') \<Longrightarrow> h' = h"
  by (auto simp: markup_def close_element_def start_tag_def open_element_def cut_off_def Let_def
      split: if_splits option.splits list.splits tag_end.splits dest!: deliver_finished)

lemma kept_return:
  assumes kept: "kept st h" and fin: "scan_step limits allow hs s st h = Return (Finished h')"
  shows "kept st h'"
proof -
  let ?told = "if js_trim (takeWhile (\<lambda>c. c \<noteq> CHR ''<'') s) = [] then Proceed h
    else hand_text hs (decode_entities (takeWhile (\<lambda>c. c \<noteq> CHR ''<'') s)) st h"
  have told: "kept st g" if "?told = Proceed g \<or> ?told = StopHere g" for g
    using that kept by (auto split: if_splits intro: kept_told)
  from fin have "h' = h \<or> ?told = Proceed h' \<or> ?told = StopHere h'"
    by (auto simp: scan_step_def cut_off_def Let_def split: if_splits reply.splits dest!: deliver_finished markup_finished)
  with told kept show ?thesis by blast
qed

lemma kept_loop: "kept st h \<Longrightarrow> scan_loop limits allow hs s st h = Finished h' \<Longrightarrow> \<exists>n d. n \<le> sl_maxElements limits \<and> P n d h'"
proof (induction "length s" arbitrary: s st h rule: less_induct)
  case less
  show ?case
  proof (cases "scan_step limits allow hs s st h")
    case (Onward s' st' g)
    from less.prems(2) Onward have "scan_loop limits allow hs s' st' g = Finished h'" by (subst (asm) scan_loop.simps) simp
    from less.hyps [OF scan_step_shorter [OF Onward] kept_step [OF less.prems(1) Onward] this] show ?thesis .
  next
    case (Return r)
    with less.prems(2) have "scan_step limits allow hs s st h = Return (Finished h')" by (subst (asm) scan_loop.simps) simp
    from kept_return [OF less.prems(1) this] show ?thesis by (auto simp: kept_def)
  qed
qed

lemma finished_keeps: "xml_scan limits allow hs s h = Finished h' \<Longrightarrow> P 0 0 h \<Longrightarrow> \<exists>n d. n \<le> sl_maxElements limits \<and> P n d h'"
  by (rule kept_loop) (auto simp: xml_scan_def kept_def initial_scan_def split: if_splits)

end

text \<open>A scan whose handlers never stop it is not halted.\<close>

definition never_stops :: "'h handlers \<Rightarrow> bool" where
  "never_stops hs \<longleftrightarrow> (\<forall>e h g. on_start hs e h \<noteq> StopHere g) \<and> (\<forall>f q d h g. on_end hs = Some f \<longrightarrow> f q d h \<noteq> StopHere g) \<and>
     (\<forall>f t d h g. on_text hs = Some f \<longrightarrow> f t d h \<noteq> StopHere g)"

lemma never_stopsD:
  "never_stops hs \<Longrightarrow> on_start hs e h \<noteq> StopHere g"
  "never_stops hs \<Longrightarrow> on_end hs = Some f \<Longrightarrow> f q d h \<noteq> StopHere g"
  "never_stops hs \<Longrightarrow> hand_text hs t st h \<noteq> StopHere g"
  by (auto simp: never_stops_def hand_text_def split: option.splits)

lemma deliver_goes_on: "(\<And>g. r \<noteq> StopHere g) \<Longrightarrow> (\<And>h. f h \<noteq> Return (Halted h')) \<Longrightarrow> deliver r f \<noteq> Return (Halted h')"
  by (cases r) auto

lemma close_element_halted: "never_stops hs \<Longrightarrow> close_element hs raw rest st h \<noteq> Return (Halted h')"
  by (auto simp: close_element_def Let_def deliver_goes_on never_stopsD split: list.split option.split)

lemma open_element_halted: "never_stops hs \<Longrightarrow> open_element limits hs raw c ds ps rest st h \<noteq> Return (Halted h')"
  by (auto simp: open_element_def Let_def deliver_goes_on never_stopsD split: option.split)

lemma start_tag_halted: "never_stops hs \<Longrightarrow> start_tag limits allow hs s st h \<noteq> Return (Halted h')"
  by (simp add: start_tag_def open_element_halted cut_off_def split: list.split tag_end.split)

lemma markup_halted: "never_stops hs \<Longrightarrow> markup limits allow hs s st h \<noteq> Return (Halted h')"
  by (simp add: markup_def cut_off_def close_element_halted start_tag_halted deliver_goes_on never_stopsD split: option.split)

lemma scan_step_halted: "never_stops hs \<Longrightarrow> scan_step limits allow hs s st h \<noteq> Return (Halted h')"
  by (simp add: scan_step_def cut_off_def Let_def markup_halted deliver_goes_on never_stopsD split: reply.split)

lemma scan_loop_halted: "never_stops hs \<Longrightarrow> scan_loop limits allow hs s st h \<noteq> Halted h'"
proof (induction "length s" arbitrary: s st h rule: less_induct)
  case less
  show ?case
  proof (cases "scan_step limits allow hs s st h")
    case (Onward s' st' g)
    from less.hyps [OF scan_step_shorter [OF Onward] less.prems] Onward show ?thesis by (subst scan_loop.simps) simp
  next
    case (Return r)
    with less.prems scan_step_halted [of hs limits allow s st h h'] show ?thesis by (subst scan_loop.simps) auto
  qed
qed

lemma xml_scan_halted: "never_stops hs \<Longrightarrow> xml_scan limits allow hs s h \<noteq> Halted h'"
  by (simp add: xml_scan_def scan_loop_halted)

section \<open>What is decided stays decided\<close>

text \<open>A step that goes on, or is halted, does the same whatever follows the text it was made on.\<close>

lemma span_append:
  assumes "dropWhile P s = c # r"
  shows "takeWhile P (s @ t) = takeWhile P s" "dropWhile P (s @ t) = c # r @ t"
proof -
  from assms have "takeWhile P (s @ t) = takeWhile P s \<and> dropWhile P (s @ t) = c # r @ t"
    by (induction s) (simp_all del: dropWhile_eq_Nil_conv split: if_splits)
  then show "takeWhile P (s @ t) = takeWhile P s" "dropWhile P (s @ t) = c # r @ t" by simp_all
qed

lemma after_append:
  assumes "after P s = Some (c, r)"
  shows "after P (s @ t) = Some (c, r @ t)" "takeWhile P (s @ t) = takeWhile P s"
proof -
  from assms have d: "dropWhile P s = c # r" by (auto simp: after_def split: list.splits)
  show "after P (s @ t) = Some (c, r @ t)" by (simp add: after_def span_append(2) [OF d])
  show "takeWhile P (s @ t) = takeWhile P s" by (rule span_append(1) [OF d])
qed

lemma starts_with_more: "starts_with p s \<Longrightarrow> starts_with p (s @ t)"
  by (auto simp: starts_with_iff)

lemma until_str_parts: "until_str p s = Some (b, a) \<Longrightarrow> s = b @ p @ a"
  by (induction p s arbitrary: b a rule: until_str.induct) (auto split: if_splits simp: starts_with_iff)

lemma until_str_append: "until_str p s = Some (b, a) \<Longrightarrow> until_str p (s @ t) = Some (b, a @ t)"
proof (induction p s arbitrary: b a rule: until_str.induct)
  case (2 p c s)
  show ?case
  proof (cases "starts_with p (c # s)")
    case True
    then obtain u where "c # s = p @ u" by (auto simp: starts_with_iff)
    then have "drop (length p) (c # s) = u" "drop (length p) (c # s @ t) = u @ t" by (simp_all flip: append_Cons)
    with "2.prems" True starts_with_more [OF True, of t] show ?thesis by simp
  next
    case False
    with "2.prems" obtain b' where b': "until_str p s = Some (b', a)" "b = c # b'" by auto
    from until_str_parts [OF b'(1)] have "length p \<le> length (c # s)" by simp
    with False have "\<not> starts_with p (c # s @ t)" by (simp add: starts_with_def flip: append_Cons)
    with "2.IH" [OF False b'(1)] b'(2) show ?thesis by simp
  qed
qed simp

lemma read_attr_append: "read_attr s = Attr name v rest \<Longrightarrow> read_attr (s @ t) = Attr name v (rest @ t)"
proof -
  assume "read_attr s = Attr name v rest"
  note r = this [unfolded read_attr_def Let_def]
  from r have name: "takeWhile xml_name_char s \<noteq> []" by (simp split: if_split_asm)
  from r name obtain e t1 where p1: "after js_space (dropWhile xml_name_char s) = Some (e, t1)"
    by (cases "after js_space (dropWhile xml_name_char s)") auto
  with r name have e: "e = CHR ''=''" by (simp split: if_split_asm)
  with r name p1 obtain q u where p2: "after js_space t1 = Some (q, u)" by (cases "after js_space t1") auto
  with r name p1 e have q: "q = CHR 0x22 \<or> q = CHR 0x27" by (simp split: if_split_asm)
  with r name p1 p2 e obtain x y where p3: "after (\<lambda>c. c \<noteq> q) u = Some (x, y)" by (cases "after (\<lambda>c. c \<noteq> q) u") auto
  with r name p1 p2 e have v: "decode_entities (takeWhile (\<lambda>c. c \<noteq> q) u) = Some v \<and> y = rest \<and>
    takeWhile xml_name_char s = name" by (simp split: if_split_asm option.split_asm)
  from p1 obtain c w where "dropWhile xml_name_char s = c # w" by (cases "dropWhile xml_name_char s") (simp_all add: after_def)
  note front = span_append [OF this, of t] this
  from p1 e front(2,3) after_append(1) [OF p1, of t]
  have "after js_space (dropWhile xml_name_char (s @ t)) = Some (CHR ''='', t1 @ t)" by simp
  with q v name front(1) after_append [OF p2, of t] after_append [OF p3, of t]
  show "read_attr (s @ t) = Attr name v (rest @ t)" by (simp add: read_attr_def Let_def)
qed

lemma read_attr_name: "read_attr (c # s) = Attr name v rest \<Longrightarrow> xml_name_char c"
  by (auto simp: read_attr_def Let_def split: if_splits)

lemma parse_attrs_append: "parse_attrs d p s = Closed c d' p' rest \<Longrightarrow> parse_attrs d p (s @ t) = Closed c d' p' (rest @ t)"
proof (induction d p s rule: parse_attrs.induct)
  case (1 d p s)
  from "1.prems" obtain e r where e: "after js_space s = Some (e, r)"
    by (subst (asm) parse_attrs.simps) (auto split: option.splits)
  note more = after_append(1) [OF e, of t]
  consider "e = CHR ''>''" | "e \<noteq> CHR ''>''" "starts_with ''/>'' (e # r)" | "e \<noteq> CHR ''>''" "\<not> starts_with ''/>'' (e # r)" by blast
  then show ?case
  proof cases
    case 1
    with "1.prems" e more show ?thesis by (simp add: parse_attrs.simps [of _ _ s] parse_attrs.simps [of _ _ "s @ t"])
  next
    case 2
    with "1.prems" e more starts_with_more [OF 2(2), of t] show ?thesis
      by (auto simp: parse_attrs.simps [of _ _ s] parse_attrs.simps [of _ _ "s @ t"] starts_with_iff)
  next
    case 3
    then obtain name v u where u: "read_attr (e # r) = Attr name v u"
      using "1.prems" e by (subst (asm) parse_attrs.simps) (auto split: attr_read.splits)
    with "1.prems" e 3 have rest: "parse_attrs (fst (take_attribute name v d p)) (snd (take_attribute name v d p)) u = Closed c d' p' rest"
      by (subst (asm) parse_attrs.simps) auto
    from read_attr_name [OF u] have "\<not> starts_with ''/>'' (e # r @ t)"
      by (auto simp: starts_with_def xml_name_char_def xml_name_start_def char_in_def)
    with "1.IH" [OF e _ _ _ u rest] 3 more read_attr_append [OF u, of t] show ?thesis
      by (simp add: parse_attrs.simps [of _ _ "s @ t"])
  qed
qed

fun extended :: "string \<Rightarrow> 'h scan_next \<Rightarrow> 'h scan_next" where
  "extended t (Onward s st h) = Onward (s @ t) st h"
| "extended t (Return r) = Return r"

fun decided :: "'h scan_next \<Rightarrow> bool" where
  "decided (Onward s st h) = True"
| "decided (Return (Halted h)) = True"
| "decided (Return r) = False"

lemma settled_cut_off [simp]: "\<not> decided (Return (cut_off allow h))"
  by (simp add: cut_off_def)

lemma deliver_append:
  "\<lbrakk>decided (deliver r f); \<And>h. r = Proceed h \<Longrightarrow> decided (f h) \<Longrightarrow> g h = extended t (f h)\<rbrakk> \<Longrightarrow> deliver r g = extended t (deliver r f)"
  by (cases r) auto

lemma close_element_append:
  "decided (close_element hs raw rest st h) \<Longrightarrow> close_element hs raw (rest @ t) st h = extended t (close_element hs raw rest st h)"
  by (auto simp: close_element_def Let_def intro: deliver_append split: list.splits option.splits if_splits)

lemma open_element_append:
  "decided (open_element limits hs raw c ds ps rest st h) \<Longrightarrow>
    open_element limits hs raw c ds ps (rest @ t) st h = extended t (open_element limits hs raw c ds ps rest st h)"
  by (auto simp: open_element_def Let_def intro: deliver_append split: option.splits if_splits)

lemma start_tag_append:
  assumes "decided (start_tag limits allow hs s st h)"
  shows "start_tag limits allow hs (s @ t) st h = extended t (start_tag limits allow hs s st h)"
proof -
  from assms obtain c u where s: "s = c # u" by (cases s) (auto simp: start_tag_def split: if_splits)
  from assms s obtain d w where more: "dropWhile xml_name_char s = d # w"
    by (cases "dropWhile xml_name_char s") (simp_all add: start_tag_def split: if_splits)
  from assms s more obtain selfClosing ds ps rest where "parse_attrs [] [] (d # w) = Closed selfClosing ds ps rest"
    by (cases "parse_attrs [] [] (d # w)") (simp_all add: start_tag_def split: if_splits)
  note parsed = this parse_attrs_append [OF this, of t]
  have st: "start_tag limits allow hs s' st h = open_element limits hs (takeWhile xml_name_char s) selfClosing ds ps rest' st h"
    if "s' = c # u'" "takeWhile xml_name_char s' = takeWhile xml_name_char s" "dropWhile xml_name_char s' = w'" "w' \<noteq> []"
      "parse_attrs [] [] w' = Closed selfClosing ds ps rest'" for s' u' w' rest'
    using assms s that by (simp add: start_tag_def split: if_splits)
  have "start_tag limits allow hs s st h = open_element limits hs (takeWhile xml_name_char s) selfClosing ds ps rest st h"
    by (rule st [OF s refl more _ parsed(1)]) simp
  moreover have "start_tag limits allow hs (s @ t) st h = open_element limits hs (takeWhile xml_name_char s) selfClosing ds ps (rest @ t) st h"
    by (rule st [of _ "u @ t" "d # w @ t"]) (use s parsed(2) span_append [OF more, of t] in simp_all)
  ultimately show ?thesis using assms open_element_append by simp
qed

lemma markup_append:
  assumes decided: "decided (markup limits allow hs s st h)" and bracket: "s = CHR ''<'' # u"
  shows "markup limits allow hs (s @ t) st h = extended t (markup limits allow hs s st h)"
proof -
  note more = starts_with_more [of _ s t]
  have other: "\<not> starts_with (CHR ''<'' # c # p) (s @ t)" if "u = d # v" "c \<noteq> d" for c p d v
    using that bracket by (simp add: starts_with_def)
  have "\<not> starts_with ''<!'' s" if "\<not> starts_with ''<?'' s" "\<not> starts_with ''<!--'' s" "\<not> starts_with ''<![CDATA['' s"
    using decided that by (auto simp: markup_def)
  then consider "starts_with ''<?'' s" | "starts_with ''<!--'' s" | "starts_with ''<![CDATA['' s" | "starts_with ''</'' s"
    | "\<not> starts_with ''<?'' s" "\<not> starts_with ''<!'' s" "\<not> starts_with ''</'' s" "\<not> starts_with ''<!--'' s" "\<not> starts_with ''<![CDATA['' s"
    by blast
  then show ?thesis
  proof cases
    case 1
    with decided more show ?thesis
      by (auto simp: markup_def until_str_append split: option.splits if_splits)
  next
    case 2
    then have "\<not> starts_with ''<?'' s" "\<not> starts_with ''<?'' (s @ t)" by (auto simp: starts_with_iff)
    with 2 decided more show ?thesis
      by (auto simp: markup_def until_str_append split: option.splits if_splits)
  next
    case 3
    then have "\<not> starts_with ''<?'' s" "\<not> starts_with ''<?'' (s @ t)" "\<not> starts_with ''<!--'' s" "\<not> starts_with ''<!--'' (s @ t)"
      by (auto simp: starts_with_iff)
    with 3 decided more show ?thesis
      by (auto simp: markup_def until_str_append intro: deliver_append split: option.splits if_splits)
  next
    case 4
    then have "\<not> starts_with (CHR ''<'' # c # p) s \<and> \<not> starts_with (CHR ''<'' # c # p) (s @ t)" if "c \<noteq> CHR ''/''" for c p
      using that by (auto simp: starts_with_iff)
    with 4 decided more show ?thesis
      by (auto simp: markup_def until_str_append intro: close_element_append split: option.splits if_splits)
  next
    case 5
    with decided have start: "decided (start_tag limits allow hs u st h)" by (simp add: markup_def bracket)
    then obtain d v where u: "u = d # v" by (cases u) (auto simp: start_tag_def split: if_splits)
    from start u have "xml_name_start d" by (auto simp: start_tag_def split: if_splits)
    then have "d \<notin> {CHR ''?'', CHR ''!'', CHR ''/''}" by (auto simp: xml_name_start_def char_in_def)
    then have "\<not> starts_with (CHR ''<'' # c # p) (s @ t)" if "c \<in> {CHR ''?'', CHR ''!'', CHR ''/''}" for c p
      using that by (intro other [OF u]) auto
    with 5 start_tag_append [OF start, of t] show ?thesis by (simp add: markup_def bracket)
  qed
qed

lemma scan_step_append:
  assumes decided: "decided (scan_step limits allow hs s st h)"
  shows "scan_step limits allow hs (s @ t) st h = extended t (scan_step limits allow hs s st h)"
proof (cases "dropWhile (\<lambda>c. c \<noteq> CHR ''<'') s")
  case Nil
  with decided show ?thesis by (auto simp: scan_step_def Let_def cut_off_def split: if_splits reply.splits)
next
  case (Cons c u)
  then have c: "c = CHR ''<''" using hd_dropWhile [of "\<lambda>c. c \<noteq> CHR ''<''" s] by auto
  from Cons decided show ?thesis
    by (auto simp: scan_step_def Let_def span_append [OF Cons] c simp flip: append_Cons intro!: deliver_append markup_append)
qed

lemma scan_loop_append: "scan_loop limits allow hs s st h = Halted h' \<Longrightarrow> scan_loop limits allow hs (s @ t) st h = Halted h'"
proof (induction "length s" arbitrary: s st h rule: less_induct)
  case less
  show ?case
  proof (cases "scan_step limits allow hs s st h")
    case (Onward s' st' g)
    from less.prems Onward have rest: "scan_loop limits allow hs s' st' g = Halted h'" by (subst (asm) scan_loop.simps) simp
    from less.hyps [OF scan_step_shorter [OF Onward] rest] scan_step_append [of limits allow hs s st h t] Onward show ?thesis
      by (subst scan_loop.simps) simp
  next
    case (Return r)
    with less.prems have "scan_step limits allow hs s st h = Return (Halted h')" by (subst (asm) scan_loop.simps) simp
    with scan_step_append [of limits allow hs s st h t] show ?thesis by (subst scan_loop.simps) simp
  qed
qed

lemma xml_scan_append:
  "xml_scan limits allow hs s h = Halted h' \<Longrightarrow> utf16_length (s @ t) \<le> sl_maxBytes limits \<Longrightarrow> xml_scan limits allow hs (s @ t) h = Halted h'"
  by (auto simp: xml_scan_def scan_loop_append split: if_splits)

section \<open>The front of an envelope\<close>

text \<open>While nothing has stopped it, the scan of an envelope has found no operation.\<close>

interpretation undecided: scan_invariant limits envelope_handlers "\<lambda>_ _ st. es_bodyChild st = None" for limits
  by unfold_locales (auto simp: envelope_handlers_def envelope_start_def split: if_splits)

lemma found_is_halted:
  assumes "scanEnvelope limits p = Some (v, Some child)"
  obtains st where "xml_scan limits True envelope_handlers p
      \<lparr>es_soap12 = None, es_inBody = False, es_bodyDepth = 0, es_bodyChild = None\<rparr> = Halted st"
    "es_soap12 st = Some v" "es_bodyChild st = Some child"
  using assms undecided.finished_keeps
  by (fastforce simp: scanEnvelope_def split: scanned.splits)

lemma scanEnvelope_append:
  assumes "scanEnvelope limits p = Some (v, Some child)" "utf16_length (p @ q) \<le> sl_maxBytes limits"
  shows "scanEnvelope limits (p @ q) = Some (v, Some child)"
  using assms(1)
proof (rule found_is_halted)
  fix st
  assume "xml_scan limits True envelope_handlers p
    \<lparr>es_soap12 = None, es_inBody = False, es_bodyDepth = 0, es_bodyChild = None\<rparr> = Halted st"
    and st: "es_soap12 st = Some v" "es_bodyChild st = Some child"
  from xml_scan_append [OF this(1) assms(2)] st show ?thesis by (simp add: scanEnvelope_def)
qed

text \<open>C16: what the front of an envelope tells of the call (its SOAP version and the element that names the operation), any longer
  text with that front tells the same, up to the whole message, as long as its length is within the limit of the scan. So the
  operation found in the bytes peeked at is the operation of the body sent on.\<close>

theorem prefix_decides:
  "case scanEnvelope limits p of
     Some (v, Some child) \<Rightarrow> if utf16_length (p @ q) \<le> sl_maxBytes limits then scanEnvelope limits (p @ q) = Some (v, Some child) else True
   | _ \<Rightarrow> True"
  by (auto simp: scanEnvelope_append split: option.splits)

section \<open>Envelopes read otherwise than written\<close>

definition some_limits :: ScanLimits where
  "some_limits = \<lparr>sl_maxBytes = 1000, sl_maxDepth = 32, sl_maxElements = 100\<rparr>"

text \<open>An envelope with the given front before the Body, and the given text from there on.\<close>

definition sample_envelope :: "string \<Rightarrow> string" where
  "sample_envelope s = ''<E:Envelope xmlns:E='http://schemas.xmlsoap.org/soap/envelope/'>'' @ s"

lemmas scan_simps = scanEnvelope_def xml_scan_def some_limits_def sample_envelope_def

text \<open>The end of a comment is looked for from its own opening bracket: the two hyphens that begin a comment also end it.\<close>

lemma comment_ends_itself: "until_str ''-->'' ''<!-->x'' = Some (''<!'', ''x'')"
  by code_simp

text \<open>So an operation that every other reader takes for a comment is the operation found.\<close>

lemma hidden_operation_found:
  "scanEnvelope some_limits (sample_envelope ''<E:Body><!--><drop/><!-- --><read/></E:Body></E:Envelope>'') = Some (False, Some ''drop'')"
  by code_simp

text \<open>The Body is never left: a child of a later sibling of an empty Body is taken for the operation.\<close>

lemma body_never_left:
  "scanEnvelope some_limits (sample_envelope ''<E:Body/><Other><drop/></Other></E:Envelope>'') = Some (False, Some ''drop'')"
  by code_simp

text \<open>A front that ends within an attribute's name, or within the opening of a comment, is not taken for a front but refused.\<close>

lemma front_in_attribute_refused:
  "scanEnvelope some_limits (sample_envelope ''<E:Body><read xm'') = None"
  "scanEnvelope some_limits (sample_envelope ''<E:Body><!-'') = None"
  by code_simp+

text \<open>A whole document that ends in text is accepted with its elements open.\<close>

lemma open_document_accepted:
  "xml_scan some_limits False \<lparr>on_start = \<lambda>e h. Proceed (Suc h), on_end = None, on_text = Some (\<lambda>t d h. Proceed h)\<rparr> ''<a><b>x'' (0 :: nat) = Finished 2"
  "xml_scan some_limits False \<lparr>on_start = \<lambda>e h. Proceed (Suc h), on_end = None, on_text = Some (\<lambda>t d h. Proceed h)\<rparr> ''<a><b>'' (0 :: nat) = Malformed"
  by code_simp+

text \<open>Any instruction whose name begins so is taken for the declaration.\<close>

lemma stylesheet_accepted:
  "xml_scan some_limits False \<lparr>on_start = \<lambda>e h. Proceed (Suc h), on_end = None, on_text = None\<rparr> ''<?xml-stylesheet href='x'?><a/>'' (0 :: nat) = Finished 1"
  by code_simp

text \<open>A prefix that was never declared, but names a member of every object, is taken for declared.\<close>

lemma undeclared_prefix_accepted:
  "xml_scan some_limits False \<lparr>on_start = \<lambda>e h. Proceed (Suc h), on_end = None, on_text = None\<rparr> ''<constructor:a/>'' (0 :: nat) = Finished 1"
  "xml_scan some_limits False \<lparr>on_start = \<lambda>e h. Proceed (Suc h), on_end = None, on_text = None\<rparr> ''<other:a/>'' (0 :: nat) = Malformed"
  by code_simp+

end
