(* ===== verification/XmlTree.thy ===== *)
theory XmlTree
  imports XmlScan
begin

text \<open>
  XML documents as trees (\<^verbatim>\<open>shared/xml.ts\<close>, \<^verbatim>\<open>parseDocument\<close>) and a SOAP answer handed on as JSON
  (\<^verbatim>\<open>data-plane/src/transform.ts\<close>).

  A node's \<^verbatim>\<open>parent\<close> is the path to it: a function that goes up takes the node and its ancestors. The parse keeps the
  elements open, innermost first, each with the children read so far; an element joins its parent's children when it ends (and at
  the end of the document, which may come with elements open). No document is \<^verbatim>\<open>None\<close> (an \<^verbatim>\<open>XmlError\<close>).

  Shown here: a tree has no more elements, and is no deeper, than the limits; and what a converted element holds of its children.
\<close>

declare map_of_eq_Some_iff [simp del] Some_eq_map_of_iff [simp del]

section \<open>Definitions: the tree\<close>

datatype XmlNode = XmlNode (xn_qname: string) (xn_ns: string) (xn_local: string) (xn_attributes: "(string, string) jsmap")
  (xn_nsAttributes: "(string, string) jsmap") (xn_declarations: "(string, string) jsmap") (xn_children: "XmlNode list") (xn_text: string)

fun add_child :: "XmlNode \<Rightarrow> XmlNode \<Rightarrow> XmlNode" where
  "add_child c (XmlNode q ns l as nas ds cs t) = XmlNode q ns l as nas ds (cs @ [c]) t"

fun add_text :: "string \<Rightarrow> XmlNode \<Rightarrow> XmlNode" where
  "add_text u (XmlNode q ns l as nas ds cs t) = XmlNode q ns l as nas ds cs (t @ u)"

definition from_entries :: "('k \<times> 'v) list \<Rightarrow> ('k, 'v) jsmap" where
  "from_entries kvs = foldl (\<lambda>m (k, v). mset_key k v m) [] kvs"

definition node_of :: "StartTagEvent \<Rightarrow> XmlNode" where
  "node_of e = XmlNode (ev_qname e) (ev_ns e) (ev_local e)
     (from_entries (map (\<lambda>a. (xa_local a, xa_value a)) (filter (\<lambda>a. xa_prefix a = []) (ev_attributes e))))
     (from_entries (map (\<lambda>a. (qnameOf (xa_ns a) (xa_local a), xa_value a)) (filter (\<lambda>a. xa_prefix a \<noteq> []) (ev_attributes e))))
     (ev_declarations e) [] []"

fun tree_start :: "StartTagEvent \<Rightarrow> XmlNode list \<Rightarrow> XmlNode list reply" where
  "tree_start e (parent # stack) =
     Proceed (if ev_selfClosing e then add_child (node_of e) parent # stack else node_of e # parent # stack)"
| "tree_start e [] = Throws"

fun tree_end :: "string \<Rightarrow> nat \<Rightarrow> XmlNode list \<Rightarrow> XmlNode list reply" where
  "tree_end q d (node # parent # stack) = Proceed (add_child node parent # stack)"
| "tree_end q d stack = Proceed stack"

fun tree_text :: "string \<Rightarrow> nat \<Rightarrow> XmlNode list \<Rightarrow> XmlNode list reply" where
  "tree_text t d (node # stack) = Proceed (add_text t node # stack)"
| "tree_text t d [] = Throws"

definition tree_handlers :: "XmlNode list handlers" where
  "tree_handlers = \<lparr>on_start = tree_start, on_end = Some tree_end, on_text = Some tree_text\<rparr>"

text \<open>The elements still open at the end are their parents' children all the same.\<close>

fun root_of :: "XmlNode list \<Rightarrow> XmlNode option" where
  "root_of [] = None"
| "root_of [doc] = Some doc"
| "root_of (node # parent # stack) = root_of (add_child node parent # stack)"

definition document_element :: "XmlNode list \<Rightarrow> XmlNode option" where
  "document_element stack = (case root_of stack of
     Some doc \<Rightarrow> (case xn_children doc of [] \<Rightarrow> None | first # _ \<Rightarrow> Some first) | None \<Rightarrow> None)"

definition parseDocument :: "ScanLimits \<Rightarrow> string \<Rightarrow> XmlNode option" where
  "parseDocument limits s = (case xml_scan limits False tree_handlers s [XmlNode [] [] [] [] [] [] [] []] of
     Finished stack \<Rightarrow> document_element stack | Halted stack \<Rightarrow> document_element stack | Malformed \<Rightarrow> None)"

text \<open>A name written in an attribute's value, against the declarations of the node it is written on and of the node's ancestors.\<close>

fun declared_uri :: "XmlNode list \<Rightarrow> string \<Rightarrow> string option" where
  "declared_uri [] p = None"
| "declared_uri (node # ancestors) p = (case map_of (xn_declarations node) p of
     Some uri \<Rightarrow> Some uri
   | None \<Rightarrow> if p \<in> set OBJECT_MEMBERS then Some (''[native] '' @ p) else declared_uri ancestors p)"

definition resolveQName :: "XmlNode list \<Rightarrow> string \<Rightarrow> string" where
  "resolveQName path v = (case declared_uri path (fst (split_name v)) of
     Some uri \<Rightarrow> qnameOf uri (snd (split_name v))
   | None \<Rightarrow> if fst (split_name v) = ''xml'' then qnameOf ''http://www.w3.org/XML/1998/namespace'' (snd (split_name v))
       else qnameOf [] (snd (split_name v)))"

definition childrenNamed :: "XmlNode \<Rightarrow> string \<Rightarrow> string \<Rightarrow> XmlNode list" where
  "childrenNamed node ns local = filter (\<lambda>c. xn_qname c = qnameOf ns local) (xn_children node)"

definition childNamed :: "XmlNode \<Rightarrow> string \<Rightarrow> string \<Rightarrow> XmlNode option" where
  "childNamed node ns local = (case childrenNamed node ns local of [] \<Rightarrow> None | c # _ \<Rightarrow> Some c)"

section \<open>Definitions: an answer as JSON\<close>

definition XSI :: string where "XSI = ''http://www.w3.org/2001/XMLSchema-instance''"

text \<open>A conversion ends with a value, or with a \<^verbatim>\<open>TypeError\<close> that nothing catches. A single child called \<^verbatim>\<open>__proto__\<close> changes the
  object its siblings are looked up in; what then follows is left open.\<close>

datatype unconverted = TypeError | Reprototyped

text \<open>One child under its name: in a list where the name is repeated. A name that every object has a member of is found there before
  the list is begun, and has no \<^verbatim>\<open>push\<close>.\<close>

definition put_child ::
  "string list \<Rightarrow> unconverted + (string \<times> jsval) list \<Rightarrow> string \<times> (unconverted + jsval) \<Rightarrow> unconverted + (string \<times> jsval) list" where
  "put_child names out child = (case out of
     Inl e \<Rightarrow> Inl e
   | Inr m \<Rightarrow> (case child of (name, c) \<Rightarrow> (case c of
       Inl e \<Rightarrow> Inl e
     | Inr v \<Rightarrow>
         if 1 < count_list names name
         then (case map_of m name of
             Some (JArr vs) \<Rightarrow> Inr (mset_key name (JArr (vs @ [v])) m)
           | Some _ \<Rightarrow> Inl TypeError
           | None \<Rightarrow> if name \<in> set OBJECT_MEMBERS then Inl TypeError else Inr (mset_key name (JArr [v]) m))
         else if name = ''__proto__'' then Inl Reprototyped
         else Inr (mset_key name v m))))"

definition attribute_members :: "XmlNode \<Rightarrow> (string \<times> jsval) list" where
  "attribute_members node = map (\<lambda>(k, v). (CHR ''@'' # k, JStr v)) (filter (\<lambda>(k, _). k \<noteq> ''xmlns'') (xn_attributes node))"

definition text_member :: "XmlNode \<Rightarrow> (string \<times> jsval) list" where
  "text_member node = (if js_trim (xn_text node) = [] then [] else [(''#text'', JStr (js_trim (xn_text node)))])"

fun convert :: "XmlNode \<Rightarrow> unconverted + jsval" where
  "convert (XmlNode q ns l as nas ds cs t) =
     (let node = XmlNode q ns l as nas ds [] t; own = attribute_members node @ text_member node in
      if map_of nas (qnameOf XSI ''nil'') = Some ''true'' then Inr JNull
      else if cs = [] then Inr (if attribute_members node = [] then JStr (js_trim t) else JObj own)
      else (case foldl (put_child (map xn_local cs)) (Inr own) (map (\<lambda>c. (xn_local c, convert c)) cs) of
          Inl e \<Rightarrow> Inl e | Inr m \<Rightarrow> Inr (JObj m)))"

datatype TransformResult = Transformed jsval | Untransformed | TransformThrows | TransformOpen

definition soapToJson :: "ScanLimits \<Rightarrow> string \<Rightarrow> TransformResult" where
  "soapToJson limits envelope = (case parseDocument limits envelope of
     None \<Rightarrow> Untransformed
   | Some doc \<Rightarrow>
       if xn_ns doc \<notin> {SOAP_11_ENVELOPE, SOAP_12_ENVELOPE} \<or> xn_local doc \<noteq> ''Envelope'' then Untransformed
       else (case find (\<lambda>c. xn_ns c = xn_ns doc \<and> xn_local c = ''Body'') (xn_children doc) of
           None \<Rightarrow> Untransformed
         | Some body \<Rightarrow> (case xn_children body of
             [] \<Rightarrow> Transformed (JObj [])
           | first # _ \<Rightarrow> (case convert first of Inr v \<Rightarrow> Transformed v | Inl TypeError \<Rightarrow> TransformThrows | Inl Reprototyped \<Rightarrow> TransformOpen))))"

section \<open>Definitions: the operation's element, for the XSD validator\<close>

definition escapeXml :: "string \<Rightarrow> string" where
  "escapeXml s = concat (map (\<lambda>c. if c = CHR ''&'' then ''&amp;'' else if c = CHR ''<'' then ''&lt;'' else if c = CHR ''>'' then ''&gt;''
     else if c = CHR 0x22 then ''&quot;'' else [c]) s)"

definition attr_text :: "string \<Rightarrow> string \<Rightarrow> string" where
  "attr_text name v = CHR '' '' # name @ ''='' @ CHR 0x22 # escapeXml v @ [CHR 0x22]"

text \<open>\<^verbatim>\<open>qname.slice(1, close)\<close> and \<^verbatim>\<open>qname.slice(close + 1)\<close>, for the first closing brace. An attribute bound to no namespace has none:
  then all but the first and last characters are taken for the one, and the whole for the other.\<close>

definition braces_split :: "string \<Rightarrow> string \<times> string" where
  "braces_split qname = (if CHR ''}'' \<in> set qname
     then (tl (takeWhile (\<lambda>c. c \<noteq> CHR ''}'') qname), tl (dropWhile (\<lambda>c. c \<noteq> CHR ''}'') qname))
     else (tl (butlast qname), qname))"

definition ns_attr_text :: "nat \<Rightarrow> string \<Rightarrow> string \<Rightarrow> string" where
  "ns_attr_text i qname v = (let prefix = CHR ''n'' # show_nat i; (ns, local) = braces_split qname in
     attr_text (''xmlns:'' @ prefix) ns @ attr_text (prefix @ '':'' @ local) v)"

text \<open>The default namespace in scope; the source passes it in a record of its own.\<close>

fun serialize :: "string option \<Rightarrow> XmlNode \<Rightarrow> string" where
  "serialize inherited (XmlNode q ns l as nas ds cs t) =
     (let scope = (if ns \<noteq> [] \<and> inherited \<noteq> Some ns then Some ns else inherited) in
      CHR ''<'' # l @ (if scope \<noteq> inherited then attr_text ''xmlns'' ns else []) @
        concat (map (\<lambda>(name, v). attr_text name v) as) @
        concat (map (\<lambda>(i, qname, v). ns_attr_text i qname v) (enumerate 0 nas)) @
        ''>'' @ escapeXml t @ concat (map (serialize scope) cs) @ ''</'' @ l @ ''>'')"

definition soapBodyChild :: "ScanLimits \<Rightarrow> string \<Rightarrow> string option" where
  "soapBodyChild limits envelope = (case parseDocument limits envelope of
     None \<Rightarrow> None
   | Some doc \<Rightarrow> (case find (\<lambda>c. xn_local c = ''Body'') (xn_children doc) of
       None \<Rightarrow> None
     | Some body \<Rightarrow> (case xn_children body of [] \<Rightarrow> None | first # _ \<Rightarrow> Some (serialize None first))))"

section \<open>A tree within the limits\<close>

fun tree_nodes :: "XmlNode \<Rightarrow> nat" where
  "tree_nodes (XmlNode q ns l as nas ds cs t) = Suc (sum_list (map tree_nodes cs))"

fun tree_height :: "XmlNode \<Rightarrow> nat" where
  "tree_height (XmlNode q ns l as nas ds cs t) = Suc (fold max (map tree_height cs) 0)"

lemma add_child_size [simp]:
  "tree_nodes (add_child c n) = tree_nodes n + tree_nodes c"
  "tree_height (add_child c n) = max (tree_height n) (Suc (tree_height c))"
  by (cases n; simp add: max.commute)+

lemma add_text_size [simp]: "tree_nodes (add_text t n) = tree_nodes n" "tree_height (add_text t n) = tree_height n"
  by (cases n; simp)+

lemma node_of_size [simp]: "tree_nodes (node_of e) = 1" "tree_height (node_of e) = 1"
  by (simp_all add: node_of_def)

text \<open>The height a stack promises: a node's own below what is open around it.\<close>

fun within_depth :: "nat \<Rightarrow> XmlNode list \<Rightarrow> bool" where
  "within_depth m [] = True"
| "within_depth m (n # stack) = (tree_height n + length stack \<le> Suc m \<and> within_depth m stack)"

interpretation tree: scan_invariant limits tree_handlers
    "\<lambda>n d stack. length stack = Suc d \<and> sum_list (map tree_nodes stack) = Suc n \<and> within_depth (sl_maxDepth limits) stack" for limits
proof (unfold_locales, goal_cases)
  case (1 n d h e h')
  then obtain p st where "h = p # st" by (cases h) auto
  with 1 show ?case by (auto simp: tree_handlers_def)
next
  case (2 n d h h' q)
  then obtain a p st where "h = a # p # st" by (cases h; cases "tl h") auto
  with 2 show ?case by (auto simp: tree_handlers_def)
next
  case (3 n d h f t h')
  then obtain p st where "h = p # st" by (cases h) auto
  with 3 show ?case by (auto simp: tree_handlers_def)
qed

lemma root_within:
  "root_of stack = Some r \<Longrightarrow> within_depth m stack \<Longrightarrow>
    tree_nodes r = sum_list (map tree_nodes stack) \<and> tree_height r \<le> Suc m"
  by (induction stack rule: root_of.induct) auto

lemma fold_max_ge: "(x :: nat) \<in> set xs \<Longrightarrow> x \<le> fold max xs a" "a \<le> fold max xs (a :: nat)"
proof -
  have ge: "a \<le> fold max xs a" for a :: nat and xs
    by (induction xs arbitrary: a) (simp, metis fold_simps(2) max.bounded_iff)
  then show "a \<le> fold max xs a" .
  show "x \<in> set xs \<Longrightarrow> x \<le> fold max xs a"
  proof (induction xs arbitrary: a)
    case (Cons y ys)
    with ge [of "max y a"] show ?case by (cases "x = y") auto
  qed simp
qed

lemma child_within:
  assumes "c \<in> set (xn_children r)"
  shows "tree_nodes c < tree_nodes r" "tree_height c < tree_height r"
proof -
  obtain q ns l as nas ds cs t where r: "r = XmlNode q ns l as nas ds cs t" by (cases r) auto
  with assms member_le_sum_list [of "tree_nodes c" "map tree_nodes cs"] show "tree_nodes c < tree_nodes r" by auto
  from r assms fold_max_ge(1) [of "tree_height c" "map tree_height cs" 0] show "tree_height c < tree_height r" by auto
qed

lemma tree_never_stops: "never_stops tree_handlers"
proof -
  have "tree_start e h \<noteq> StopHere g" "tree_text t d h \<noteq> StopHere g" for e q d t h g
    by (cases h; simp)+
  moreover have "tree_end q d h \<noteq> StopHere g" for q d h g
    by (rule tree_end.cases [of "(q, d, h)"]) auto
  ultimately show ?thesis by (simp add: never_stops_def tree_handlers_def)
qed

text \<open>C40: a document that is read into a tree gives a tree of no more elements, and no more levels, than the limits allow, whatever
  the document and whether or not its elements were closed.\<close>

theorem parsed_within_limits:
  "case parseDocument limits s of Some n \<Rightarrow> tree_nodes n \<le> sl_maxElements limits \<and> tree_height n \<le> sl_maxDepth limits | None \<Rightarrow> True"
proof (cases "parseDocument limits s")
  case (Some c)
  with xml_scan_halted [OF tree_never_stops] obtain stack r
    where scanned: "xml_scan limits False tree_handlers s [XmlNode [] [] [] [] [] [] [] []] = Finished stack"
      and r: "root_of stack = Some r" and c: "c \<in> set (xn_children r)"
    by (auto simp: parseDocument_def document_element_def split: scanned.splits option.splits list.splits)
  from tree.finished_keeps [OF scanned] obtain n where n: "n \<le> sl_maxElements limits" "sum_list (map tree_nodes stack) = Suc n"
    and depth: "within_depth (sl_maxDepth limits) stack" by auto
  from root_within [OF r depth] child_within [OF c] n Some show ?thesis by simp
qed simp

section \<open>What a converted element holds\<close>

definition value_of :: "unconverted + jsval \<Rightarrow> jsval" where
  "value_of c = (case c of Inr v \<Rightarrow> v | Inl _ \<Rightarrow> JNull)"

lemma put_child_stuck [simp]: "put_child names (Inl e) child = Inl e"
  by (simp add: put_child_def)

lemma own_members_plain: "map_of (attribute_members node @ text_member node) k = Some v \<Longrightarrow> \<exists>s. v = JStr s"
  by (auto simp: attribute_members_def text_member_def dest!: map_of_SomeD split: if_splits)

lemma children_put:
  assumes "foldl (put_child names) (Inr own) kvs = Inr m" "\<And>k v. map_of own k = Some v \<Longrightarrow> \<exists>s. v = JStr s"
  shows "map_of m k = (if filter (\<lambda>kv. fst kv = k) kvs = [] then map_of own k
    else Some (if 1 < count_list names k then JArr (map (value_of \<circ> snd) (filter (\<lambda>kv. fst kv = k) kvs))
      else value_of (snd (last (filter (\<lambda>kv. fst kv = k) kvs)))))"
  using assms(1)
proof (induction kvs arbitrary: m k rule: rev_induct)
  case (snoc kv kvs)
  obtain name c where kv: "kv = (name, c)" by (cases kv)
  from snoc.prems obtain m' where m': "foldl (put_child names) (Inr own) kvs = Inr m'" "put_child names (Inr m') (name, c) = Inr m"
    by (cases "foldl (put_child names) (Inr own) kvs") (auto simp: kv)
  from m'(2) obtain v where c: "c = Inr v" by (cases c) (auto simp: put_child_def)
  note before = snoc.IH [OF m'(1)]
  show ?case
  proof (cases "k = name")
    case False
    with m'(2) c have "map_of m k = map_of m' k"
      by (auto simp: put_child_def get_set split: if_splits option.splits json.splits)
    with before [of k] False show ?thesis by (simp add: kv)
  next
    case True
    show ?thesis
    proof (cases "1 < count_list names name")
      case False
      with m'(2) c True show ?thesis by (auto simp: put_child_def kv value_of_def get_set split: if_splits)
    next
      case many: True
      show ?thesis
      proof (cases "filter (\<lambda>kv. fst kv = name) kvs = []")
        case none: True
        with before [of name] have "map_of m' name = map_of own name" by simp
        with m'(2) c many assms(2) [of name] none True show ?thesis
          by (cases "map_of own name") (auto simp: put_child_def kv value_of_def get_set split: if_splits)
      next
        case some: False
        with before [of name] many have "map_of m' name = Some (JArr (map (value_of \<circ> snd) (filter (\<lambda>kv. fst kv = name) kvs)))" by simp
        with m'(2) c many True show ?thesis by (auto simp: put_child_def kv value_of_def get_set)
      qed
    qed
  qed
qed simp

lemma filter_one:
  assumes "count_list (map f cs) (f c) \<le> 1" "c \<in> set cs"
  shows "filter (\<lambda>d. f d = f c) cs = [c]"
proof -
  have "length (filter (\<lambda>d. f d = f c) cs) = count_list (map f cs) (f c)"
    by (simp add: count_list_eq_length_filter filter_map comp_def eq_commute)
  moreover from assms(2) have "c \<in> set (filter (\<lambda>d. f d = f c) cs)" by simp
  ultimately have "length (filter (\<lambda>d. f d = f c) cs) \<le> 1" "c \<in> set (filter (\<lambda>d. f d = f c) cs)" using assms(1) by simp_all
  then show ?thesis by (cases "filter (\<lambda>d. f d = f c) cs") (simp_all del: set_filter)
qed

text \<open>An element with children converts to an object that has, under the name of each child, the child's conversion if the name
  is its alone, and otherwise the conversions of all the children of that name in document order; nothing of a child is lost.\<close>

lemma converted_children:
  "case convert node of
     Inr (JObj m) \<Rightarrow> list_all (\<lambda>c. map_of m (xn_local c) =
       Some (if count_list (map xn_local (xn_children node)) (xn_local c) \<le> 1 then value_of (convert c)
         else JArr (map (value_of \<circ> convert) (filter (\<lambda>d. xn_local d = xn_local c) (xn_children node))))) (xn_children node)
   | _ \<Rightarrow> True"
proof -
  obtain q ns l as nas ds cs t where node: "node = XmlNode q ns l as nas ds cs t" by (cases node) auto
  define own where "own = attribute_members (XmlNode q ns l as nas ds [] t) @ text_member (XmlNode q ns l as nas ds [] t)"
  have "map_of m (xn_local c) = Some (if count_list (map xn_local cs) (xn_local c) \<le> 1 then value_of (convert c)
      else JArr (map (value_of \<circ> convert) (filter (\<lambda>d. xn_local d = xn_local c) cs)))"
    if m: "foldl (put_child (map xn_local cs)) (Inr own) (map (\<lambda>c. (xn_local c, convert c)) cs) = Inr m" and c: "c \<in> set cs" for m c
  proof -
    have kvs: "filter (\<lambda>kv. fst kv = xn_local c) (map (\<lambda>c. (xn_local c, convert c)) cs) =
        map (\<lambda>c. (xn_local c, convert c)) (filter (\<lambda>d. xn_local d = xn_local c) cs)"
      by (simp add: filter_map comp_def)
    from c have "filter (\<lambda>d. xn_local d = xn_local c) cs \<noteq> []" by (auto simp: filter_empty_conv)
    with children_put [OF m, of "xn_local c"] own_members_plain filter_one [of xn_local cs c] c show ?thesis
      unfolding kvs by (auto simp: own_def comp_def last_map)
  qed
  then show ?thesis
    by (auto simp: node own_def [symmetric] Let_def list_all_iff split: json.splits sum.splits if_splits)
qed

text \<open>An answer that repeats an element of the name of a member of every object is not converted and not passed on: the conversion throws.\<close>

lemma repeated_constructor_throws:
  "soapToJson some_limits (sample_envelope ''<E:Body><r><constructor>1</constructor><constructor>2</constructor></r></E:Body></E:Envelope>'') = TransformThrows"
  "soapToJson some_limits (sample_envelope ''<E:Body><r><item>1</item><item>2</item></r></E:Body></E:Envelope>'') =
    Transformed (JObj [(''item'', JArr [JStr ''1'', JStr ''2''])])"
  by code_simp+

text \<open>What is validated is not what was sent: a child in no namespace is written where its parent's namespace is the default, and
  read back in it. A schema whose local elements are unqualified, which is the rule, then sees none of them.\<close>

definition sample_call :: "string \<Rightarrow> string" where
  "sample_call s = sample_envelope (''<E:Body><m:op xmlns:m='u'>'' @ s @ ''</m:op></E:Body></E:Envelope>'')"

lemma unqualified_child_requalified:
  "map_option (\<lambda>d. map xn_qname (xn_children (hd (xn_children (hd (xn_children d)))))) (parseDocument some_limits (sample_call ''<a>1</a>'')) =
    Some [''a'']"
  "map_option (\<lambda>d. map xn_qname (xn_children d))
    (Option.bind (soapBodyChild some_limits (sample_call ''<a>1</a>'')) (parseDocument some_limits)) = Some [''{u}a'']"
  by code_simp+

end
