(* ===== verification/Contract.thy ===== *)
theory Contract
  imports Http JsonSchema JsonReader XmlTree
begin

text \<open>
  A message against its contract: the compiled validation bundle (\<^verbatim>\<open>shared/artifact.ts\<close>), the checks of
  \<^verbatim>\<open>data-plane/src/validate.ts\<close> on bodies, parameters and response headers, the coercion of parameters
  (\<^verbatim>\<open>shared/jsonschema.ts\<close>), and \<^verbatim>\<open>validateRequestBody\<close> and \<^verbatim>\<open>validateResponse\<close> of \<^verbatim>\<open>data-plane/src/pipeline.ts\<close>. Arguments are
  the decoding of bytes, the runtime's value of a JSON document (strings and numbers), regular expressions, string formats, the
  table's limits on XML and the XSD validator. An issue is its path and its rule.

  Shown here: what a body that was not refused has passed, and the two ways to pass without a schema having been applied.
\<close>

declare map_of_eq_Some_iff [simp del] Some_eq_map_of_iff [simp del]

section \<open>Definitions: the bundle\<close>

datatype parameter_place = PPath | PQuery | PHeader | PCookie

record CompiledParameter =
  cpm_name :: string
  cpm_in :: parameter_place
  cpm_required :: bool
  cpm_ref :: "string option"

record CompiledResponse =
  crs_content :: "(string, string) jsmap option"
  crs_headers :: "CompiledParameter list option"

record OperationSchemas =
  os_state :: schema_state
  os_parameters :: "CompiledParameter list option"
  os_request :: "(string, string) jsmap option"
  os_responses :: "(string, CompiledResponse) jsmap option"
  os_inputElement :: "string option"
  os_outputElement :: "string option"

record ValidationArtifact =
  art_kind :: artifact_kind
  art_defs :: "(string, jsval) jsmap"
  art_hasXsd :: bool
  art_operations :: "(string, OperationSchemas) jsmap"

definition utf8_text :: "bytes \<Rightarrow> string" where
  "utf8_text b = map char_of b"

record validators =
  vd_decode :: "bytes \<Rightarrow> code_units"
  vd_value :: "jdoc \<Rightarrow> jsval"
  vd_regex :: "string \<Rightarrow> string \<Rightarrow> bool"
  vd_format :: "string \<Rightarrow> string \<Rightarrow> bool"
  vd_xmlLimits :: ScanLimits
  vd_xml :: "ValidationArtifact \<Rightarrow> string \<Rightarrow> findings"

record ValidationOutcome =
  vo_ok :: bool
  vo_issues :: "issue list"
  vo_truncated :: bool
  vo_skipped :: bool

definition outcome_ok :: ValidationOutcome where
  "outcome_ok = \<lparr>vo_ok = True, vo_issues = [], vo_truncated = False, vo_skipped = False\<rparr>"

definition skipped_outcome :: ValidationOutcome where
  "skipped_outcome = outcome_ok\<lparr>vo_skipped := True\<rparr>"

definition outcome_of :: "findings \<Rightarrow> ValidationOutcome" where
  "outcome_of a = \<lparr>vo_ok = (fst a = []), vo_issues = fst a, vo_truncated = snd a, vo_skipped = False\<rparr>"

definition env_of :: "validators \<Rightarrow> ValidationArtifact \<Rightarrow> schema_env" where
  "env_of vd artifact = \<lparr>se_defs = art_defs artifact, se_regex = vd_regex vd, se_format = vd_format vd\<rparr>"

section \<open>Definitions: JSON bodies\<close>

definition jsonLimitsOf :: "ValidateUnit \<Rightarrow> JsonLimits" where
  "jsonLimitsOf validate =
     (let always = vu_always validate in
      \<lparr>jl_maxDepth = or_else (Option.bind always va_maxDepth) 32,
       jl_maxArrayLength = or_else (Option.bind always va_maxArrayLength) 10000,
       jl_maxObjectKeys = 5000,
       jl_rejectDuplicates = (case always of Some a \<Rightarrow> \<not> va_duplicatesLastWin a | None \<Rightarrow> True)\<rparr>)"

definition readJsonBody :: "validators \<Rightarrow> bytes \<Rightarrow> ValidateUnit \<Rightarrow> jsval option" where
  "readJsonBody vd body validate = (case readJsonBounded (vd_decode vd body) (jsonLimitsOf validate) of
       Inl _ \<Rightarrow> None | Inr doc \<Rightarrow> Some (vd_value vd doc))"

definition json_issue :: ValidationOutcome where
  "json_issue = outcome_of ([(''/'', ''json'')], False)"

section \<open>Definitions: which schema\<close>

definition media_covers :: "string \<Rightarrow> string \<Rightarrow> bool" where
  "media_covers media declared \<longleftrightarrow>
     declared = ''*/*'' \<or> ends_with ''/*'' declared \<and> starts_with (butlast declared) media \<or>
     starts_with ''application/'' declared \<and> ends_with ''+json'' declared \<and> ends_with ''+json'' media"

definition contentRefFor :: "(string, string) jsmap option \<Rightarrow> string option \<Rightarrow> string option" where
  "contentRefFor byMedia contentType = (case byMedia of
       None \<Rightarrow> None
     | Some entries \<Rightarrow>
         (let media = mediaTypeOf contentType;
              exact = (if media = [] then None else (case map_of entries media of Some r \<Rightarrow> if r = [] then None else Some r | None \<Rightarrow> None))
          in case exact of
               Some r \<Rightarrow> Some r
             | None \<Rightarrow> (case find (\<lambda>(declared, _). media_covers media declared) entries of
                 Some (_, r) \<Rightarrow> Some r
               | None \<Rightarrow> (case entries of [(_, r)] \<Rightarrow> if media = [] then Some r else None | _ \<Rightarrow> None))))"

definition responseFor :: "OperationSchemas \<Rightarrow> nat \<Rightarrow> CompiledResponse option" where
  "responseFor op status = (case os_responses op of
       None \<Rightarrow> None
     | Some rs \<Rightarrow> (case List.map_filter (map_of rs)
           [show_nat status, show_nat (status div 100) @ ''XX'', show_nat (status div 100) @ ''xx'', ''default''] of
         [] \<Rightarrow> None | r # _ \<Rightarrow> Some r))"

datatype direction = RequestBody | ResponseBody nat

definition schema_ref :: "OperationSchemas \<Rightarrow> direction \<Rightarrow> string option \<Rightarrow> string option" where
  "schema_ref op dir contentType = (case dir of
       RequestBody \<Rightarrow> contentRefFor (os_request op) contentType
     | ResponseBody status \<Rightarrow> contentRefFor (Option.bind (responseFor op status) crs_content) contentType)"

text \<open>\<^verbatim>\<open>validateBody\<close> on JSON, and on the first child of a SOAP body.\<close>

definition validateJsonBody :: "validators \<Rightarrow> ValidationArtifact \<Rightarrow> string \<Rightarrow> direction \<Rightarrow> string option \<Rightarrow> jsval \<Rightarrow> ValidationOutcome" where
  "validateJsonBody vd artifact operationId dir contentType json = (case map_of (art_operations artifact) operationId of
       None \<Rightarrow> skipped_outcome
     | Some op \<Rightarrow>
         if os_state op \<noteq> SchemaOk then skipped_outcome
         else (case schema_ref op dir contentType of
             None \<Rightarrow> skipped_outcome
           | Some ref \<Rightarrow> if ref = [] then skipped_outcome
               else (case map_of (art_defs artifact) ref of
                 None \<Rightarrow> skipped_outcome
               | Some schema \<Rightarrow> outcome_of (validate_json (env_of vd artifact) 20 json schema))))"

definition validateXmlBody :: "validators \<Rightarrow> ValidationArtifact \<Rightarrow> string \<Rightarrow> direction \<Rightarrow> string \<Rightarrow> ValidationOutcome" where
  "validateXmlBody vd artifact operationId dir xml = (case map_of (art_operations artifact) operationId of
       None \<Rightarrow> skipped_outcome
     | Some op \<Rightarrow>
         if os_state op \<noteq> SchemaOk then skipped_outcome
         else (let element = (case dir of RequestBody \<Rightarrow> os_inputElement op | ResponseBody _ \<Rightarrow> os_outputElement op) in
           if or_else element [] = [] \<or> xml = [] \<or> \<not> art_hasXsd artifact then skipped_outcome
           else outcome_of (vd_xml vd artifact xml)))"

definition validate_message ::
  "validators \<Rightarrow> ValidationArtifact \<Rightarrow> string \<Rightarrow> direction \<Rightarrow> string option \<Rightarrow> bytes \<Rightarrow> ValidateUnit \<Rightarrow> ValidationOutcome" where
  "validate_message vd artifact operationId dir contentType body validate =
     (if art_kind artifact = XsdSetArtifact
      then (case soapBodyChild (vd_xmlLimits vd) (utf8_text body) of
          None \<Rightarrow> skipped_outcome
        | Some child \<Rightarrow> if child = [] then skipped_outcome else validateXmlBody vd artifact operationId dir child)
      else (case readJsonBody vd body validate of
          None \<Rightarrow> json_issue
        | Some json \<Rightarrow> validateJsonBody vd artifact operationId dir contentType json))"

definition validateRequestBody ::
  "validators \<Rightarrow> ValidationArtifact \<Rightarrow> string \<Rightarrow> bytes \<Rightarrow> string option \<Rightarrow> ValidateUnit \<Rightarrow> ValidationOutcome" where
  "validateRequestBody vd artifact operationId body contentType validate =
     validate_message vd artifact operationId RequestBody contentType body validate"

section \<open>Definitions: parameters and response headers\<close>

lemma sub_schema_smaller: "sub_schema s k = Some t \<Longrightarrow> size t < size s"
proof -
  have "map_of kvs k = Some t \<Longrightarrow> size t < Suc (size_list (size_prod (\<lambda>_. 0) size) kvs)" for kvs :: "(string \<times> jsval) list"
    by (induction kvs) (auto split: if_splits)
  moreover assume "sub_schema s k = Some t"
  ultimately show ?thesis by (cases s) (auto simp: sub_schema_def split: option.splits json.splits)
qed

function coerceParameter :: "string \<Rightarrow> jsval option \<Rightarrow> jsval" where
  "coerceParameter raw schema = (case schema of
       None \<Rightarrow> JStr raw
     | Some s \<Rightarrow>
         (let types = or_else (type_names s) [] in
          if types = [] \<or> ''string'' \<in> set types then JStr raw
          else if ''integer'' \<in> set types \<or> ''number'' \<in> set types
          then (if js_trim raw = [] then JStr raw else (case js_Number raw of None \<Rightarrow> JStr raw | Some n \<Rightarrow> JNum n))
          else if ''boolean'' \<in> set types
          then (if raw = ''true'' then JBool True else if raw = ''false'' then JBool False else JStr raw)
          else if ''array'' \<in> set types
          then (if raw = [] then JArr [] else JArr (map (\<lambda>part. coerceParameter part (sub_schema s ''items'')) (js_split CHR '','' raw)))
          else if ''null'' \<in> set types \<and> raw = [] then JNull
          else JStr raw))"
  by pat_completeness auto
termination
  by (relation "measure (\<lambda>(_, schema). case schema of None \<Rightarrow> 0 | Some s \<Rightarrow> Suc (size s))")
    (auto split: option.split dest: sub_schema_smaller)

declare coerceParameter.simps [simp del]

definition place_name :: "parameter_place \<Rightarrow> string" where
  "place_name p = (case p of PPath \<Rightarrow> ''path'' | PQuery \<Rightarrow> ''query'' | PHeader \<Rightarrow> ''header'' | PCookie \<Rightarrow> ''cookie'')"

text \<open>The issues of one value: its schema's, under the name of the parameter.\<close>

definition value_issues :: "validators \<Rightarrow> ValidationArtifact \<Rightarrow> nat \<Rightarrow> (string \<Rightarrow> string) \<Rightarrow> CompiledParameter \<Rightarrow> string option \<Rightarrow> string \<Rightarrow> issue list" where
  "value_issues vd artifact maxErrors relocate p raw loc = (case raw of
       None \<Rightarrow> if cpm_required p then [(loc, ''required'')] else []
     | Some text \<Rightarrow> (case Option.bind (cpm_ref p) (\<lambda>r. if r = [] then None else map_of (art_defs artifact) r) of
         None \<Rightarrow> []
       | Some schema \<Rightarrow> map (\<lambda>(path, rule). (relocate path, rule))
           (fst (validate_json (env_of vd artifact) maxErrors (coerceParameter text (Some schema)) schema))))"

fun parameter_issues :: "(CompiledParameter \<Rightarrow> nat \<Rightarrow> issue list) \<Rightarrow> nat \<Rightarrow> CompiledParameter list \<Rightarrow> issue list \<Rightarrow> issue list" where
  "parameter_issues issues_of maxErrors [] got = got"
| "parameter_issues issues_of maxErrors (p # ps) got =
     (if maxErrors \<le> length got then got
      else parameter_issues issues_of maxErrors ps (got @ issues_of p (maxErrors - length got)))"

record ParameterInput =
  pi_pathParams :: "(string, string) jsmap"
  pi_query :: "(string \<times> string) list"
  pi_headers :: http_headers

definition parameter_text :: "ParameterInput \<Rightarrow> CompiledParameter \<Rightarrow> string option" where
  "parameter_text input p = (case cpm_in p of
       PPath \<Rightarrow> map_of (pi_pathParams input) (cpm_name p)
     | PQuery \<Rightarrow> map_of (pi_query input) (cpm_name p)
     | PHeader \<Rightarrow> header (pi_headers input) (cpm_name p)
     | PCookie \<Rightarrow> None)"

definition parameter_loc :: "CompiledParameter \<Rightarrow> string" where
  "parameter_loc p = place_name (cpm_in p) @ ''/'' @ cpm_name p"

definition issues_of_parameter :: "validators \<Rightarrow> ValidationArtifact \<Rightarrow> ParameterInput \<Rightarrow> CompiledParameter \<Rightarrow> nat \<Rightarrow> issue list" where
  "issues_of_parameter vd artifact input p room =
     (if cpm_in p = PCookie then []
      else value_issues vd artifact room (\<lambda>path. if path = ''/'' then parameter_loc p else parameter_loc p @ path) p
        (parameter_text input p) (parameter_loc p))"

definition validateParameters :: "validators \<Rightarrow> ValidationArtifact \<Rightarrow> string \<Rightarrow> ParameterInput \<Rightarrow> ValidationOutcome" where
  "validateParameters vd artifact operationId input =
     (case Option.bind (map_of (art_operations artifact) operationId) os_parameters of
        None \<Rightarrow> outcome_ok
      | Some ps \<Rightarrow> if ps = [] then outcome_ok
          else (let issues = parameter_issues (issues_of_parameter vd artifact input) 20 ps []
                in \<lparr>vo_ok = (issues = []), vo_issues = issues, vo_truncated = (20 \<le> length issues), vo_skipped = False\<rparr>))"

definition validateResponseHeaders :: "validators \<Rightarrow> ValidationArtifact \<Rightarrow> string \<Rightarrow> nat \<Rightarrow> http_headers \<Rightarrow> ValidationOutcome" where
  "validateResponseHeaders vd artifact operationId status headers =
     (case Option.bind (Option.bind (map_of (art_operations artifact) operationId) (\<lambda>op. responseFor op status)) crs_headers of
        None \<Rightarrow> outcome_ok
      | Some hs \<Rightarrow>
          (let issues = concat (map (\<lambda>h. value_issues vd artifact 5 (\<lambda>_. ''header/'' @ cpm_name h) h (header headers (cpm_name h))
                 (''header/'' @ cpm_name h)) hs)
           in \<lparr>vo_ok = (issues = []), vo_issues = issues, vo_truncated = False, vo_skipped = False\<rparr>))"

definition validateResponse ::
  "validators \<Rightarrow> ValidationArtifact \<Rightarrow> string \<Rightarrow> nat \<Rightarrow> bytes \<Rightarrow> http_headers \<Rightarrow> ValidateUnit \<Rightarrow> ValidationOutcome" where
  "validateResponse vd artifact operationId status body headers validate =
     (let headerOutcome = validateResponseHeaders vd artifact operationId status headers;
          bodyOutcome = validate_message vd artifact operationId (ResponseBody status) (header headers ''content-type'') body validate
      in \<lparr>vo_ok = (vo_ok headerOutcome \<and> vo_ok bodyOutcome), vo_issues = vo_issues headerOutcome @ vo_issues bodyOutcome,
          vo_truncated = (vo_truncated headerOutcome \<or> vo_truncated bodyOutcome), vo_skipped = False\<rparr>)"

section \<open>What was not refused\<close>

text \<open>The schema that applies to a message, if the contract has one for its media type.\<close>

definition applicable_schema :: "ValidationArtifact \<Rightarrow> string \<Rightarrow> direction \<Rightarrow> string option \<Rightarrow> jsval option" where
  "applicable_schema artifact operationId dir contentType =
     Option.bind (map_of (art_operations artifact) operationId) (\<lambda>op.
       if os_state op \<noteq> SchemaOk then None
       else Option.bind (schema_ref op dir contentType) (\<lambda>r. if r = [] then None else map_of (art_defs artifact) r))"

lemma json_body_ok:
  "vo_ok (validateJsonBody vd artifact oid dir ct json) \<longleftrightarrow>
   (case applicable_schema artifact oid dir ct of None \<Rightarrow> True | Some schema \<Rightarrow> conforms (env_of vd artifact) (Suc MAX_DEPTH) json schema)"
  using check_at_decides [of 20 "([], False)" "env_of vd artifact" "Suc MAX_DEPTH" json _ "[]"]
  by (auto simp: validateJsonBody_def applicable_schema_def skipped_outcome_def outcome_ok_def outcome_of_def validate_json_def grew_def
      simp del: check_at.simps conforms.simps split: option.splits if_splits)

lemma message_ok:
  assumes "art_kind artifact = JsonSchemaArtifact"
  shows "vo_ok (validate_message vd artifact oid dir ct body validate) \<longleftrightarrow>
    (case readJsonBody vd body validate of None \<Rightarrow> False
     | Some json \<Rightarrow> (case applicable_schema artifact oid dir ct of
         None \<Rightarrow> True | Some schema \<Rightarrow> conforms (env_of vd artifact) (Suc MAX_DEPTH) json schema))"
  using assms by (auto simp: validate_message_def json_body_ok json_issue_def outcome_of_def split: option.splits)

lemma parameter_issues_prefix: "\<exists>xs. parameter_issues f m ps got = got @ xs"
proof (induction f m ps got rule: parameter_issues.induct)
  case (2 f m p ps got)
  then show ?case by auto
qed simp

lemma parameter_issues_none:
  assumes "0 < m"
  shows "parameter_issues f m ps [] = [] \<longleftrightarrow> list_all (\<lambda>p. f p m = []) ps"
proof (induction ps)
  case (Cons p ps)
  show ?case
  proof (cases "f p m = []")
    case False
    obtain xs where "parameter_issues f m ps (f p m) = f p m @ xs" using parameter_issues_prefix by blast
    with False assms show ?thesis by simp
  qed (use Cons assms in simp)
qed simp

text \<open>A body whose media type the contract does not name, and an envelope that is not read to its body, pass for valid.\<close>

lemma undeclared_media_passes:
  "art_kind artifact = JsonSchemaArtifact \<Longrightarrow> readJsonBody vd body validate = Some json \<Longrightarrow>
   applicable_schema artifact oid RequestBody ct = None \<Longrightarrow> vo_ok (validateRequestBody vd artifact oid body ct validate)"
  by (simp add: validateRequestBody_def message_ok)

lemma second_media_type_passes:
  "contentRefFor (Some [(''application/json'', ''s1'')]) (Some ''text/json'') = None"
  by code_simp

lemma unread_envelope_passes:
  "art_kind artifact = XsdSetArtifact \<Longrightarrow> soapBodyChild (vd_xmlLimits vd) (utf8_text body) = None \<Longrightarrow> vo_ok (validateRequestBody vd artifact oid body ct validate)"
  by (simp add: validateRequestBody_def validate_message_def skipped_outcome_def outcome_ok_def)

end
