(* ===== verification/Resolution.thy ===== *)
theory Resolution
  imports Admission Contract OpMatch
begin

text \<open>
  The request path from the operation to the validated body (\<^verbatim>\<open>handleRequest\<close> of \<^verbatim>\<open>data-plane/src/pipeline.ts\<close>, steps 11 and
  12), with what it reads of \<^verbatim>\<open>shared/soap.ts\<close>, \<^verbatim>\<open>shared/jsonrpc.ts\<close>, \<^verbatim>\<open>shared/mcp.ts\<close> and \<^verbatim>\<open>shared/a2a.ts\<close>: the operation a
  SOAP envelope, a JSON-RPC body or a path names, the units it overrides, its own limits, and the checks of parameters and body
  in the three states. The bundle of a digest and the sampler's fraction are arguments, as are the
  validators of the theory \<^verbatim>\<open>Contract\<close>; the bytes of an envelope are its text (a malformed sequence is not replaced). Reading a body waits, so the step before it and the steps after it are functions of
  their own, each of the state it finds.

  Shown here: the operation a request is served as is one the route declares; a body the contract must hold for, holds; what goes
  on is within the cap.
\<close>

declare map_of_eq_Some_iff [simp del] Some_eq_map_of_iff [simp del]

section \<open>Definitions: protocols\<close>

text \<open>The expression \<^verbatim>\<open>/;\s*action\s*=\s*("([^"]*)"|([^;]*))/i\<close>.\<close>

definition action_value :: "string \<Rightarrow> string option" where
  "action_value s = (let t = dropWhile js_space s in
     if toLowerCase (take 6 t) \<noteq> ''action'' then None
     else (case dropWhile js_space (drop 6 t) of
         [] \<Rightarrow> None
       | c # u \<Rightarrow>
           if c \<noteq> CHR ''='' then None
           else (let v = dropWhile js_space u; quoted = takeWhile (\<lambda>c. c \<noteq> CHR 0x22) (tl v) in
             if v \<noteq> [] \<and> hd v = CHR 0x22 \<and> length quoted < length (tl v) then Some quoted
             else Some (takeWhile (\<lambda>c. c \<noteq> CHR '';'') v))))"

fun find_action :: "string \<Rightarrow> string option" where
  "find_action [] = None"
| "find_action (c # s) = (case (if c = CHR '';'' then action_value s else None) of Some v \<Rightarrow> Some v | None \<Rightarrow> find_action s)"

definition declaredAction :: "bool \<Rightarrow> string option \<Rightarrow> string option \<Rightarrow> string option" where
  "declaredAction soap12 soapaction contentType =
     (if soap12 then map_option js_trim (find_action (or_else contentType []))
      else map_option (\<lambda>h. let t = js_trim h in
        if starts_with [CHR 0x22] t \<and> ends_with [CHR 0x22] t \<and> 2 \<le> length t then butlast (tl t) else t) soapaction)"

definition actionAgrees :: "string option \<Rightarrow> string \<Rightarrow> bool" where
  "actionAgrees declared bindingAction \<longleftrightarrow> or_else declared [] = bindingAction"

record ParsedRpc =
  prc_id :: jsval
  prc_method :: string
  prc_params :: "jsval option"

definition parseRpc :: "jsval \<Rightarrow> ParsedRpc option" where
  "parseRpc v = (case v of
       JObj _ \<Rightarrow>
         if member v ''jsonrpc'' \<noteq> Some (JStr ''2.0'') then None
         else (case member v ''method'' of
             Some (JStr m) \<Rightarrow> if m = [] then None
               else Some \<lparr>prc_id = (case member v ''id'' of Some (JStr s) \<Rightarrow> JStr s | Some (JNum n) \<Rightarrow> JNum n | _ \<Rightarrow> JNull),
                 prc_method = m, prc_params = member v ''params''\<rparr>
           | _ \<Rightarrow> None)
     | _ \<Rightarrow> None)"

definition toolSelector :: "string \<Rightarrow> string" where
  "toolSelector name = ''tools/call:'' @ name"

definition selectorFor :: "string \<Rightarrow> jsval option \<Rightarrow> string" where
  "selectorFor m params =
     (if m \<noteq> ''tools/call'' then m
      else (case Option.bind params (\<lambda>p. member p ''name'') of Some (JStr n) \<Rightarrow> toolSelector n | _ \<Rightarrow> ''tools/call''))"

record A2aMethodSpec =
  ams_method :: string
  ams_streaming :: bool
  ams_capability :: "string option"

definition A2A_METHODS :: "A2aMethodSpec list" where
  "A2A_METHODS = map (\<lambda>(m, s, c). \<lparr>ams_method = m, ams_streaming = s, ams_capability = c\<rparr>)
     [(''message/send'', False, None), (''message/stream'', True, Some ''streaming''), (''tasks/get'', False, None),
      (''tasks/cancel'', False, None), (''tasks/resubscribe'', True, Some ''streaming''),
      (''tasks/pushNotificationConfig/set'', False, Some ''pushNotifications''),
      (''tasks/pushNotificationConfig/get'', False, Some ''pushNotifications''), (''agent/getAuthenticatedExtendedCard'', False, None)]"

definition isStreamingMethod :: "string \<Rightarrow> bool" where
  "isStreamingMethod m \<longleftrightarrow> list_ex (\<lambda>spec. ams_method spec = m \<and> ams_streaming spec) A2A_METHODS"

section \<open>Definitions: step 11\<close>

record Platform =
  pf_validators :: validators
  pf_artifact :: "string \<Rightarrow> ValidationArtifact option"
  pf_fraction :: "string \<Rightarrow> rat"

record Resolved =
  rs_operation :: "ConfigOperation option"
  rs_pathParams :: "(string, string) jsmap"
  rs_rpcId :: jsval
  rs_upstream :: "body_stream option"
  rs_buffered :: "bytes option"
  rs_context :: TemplateContext

definition empty_validate :: ValidateUnit where
  "empty_validate = \<lparr>vu_request = None, vu_response = None, vu_downgradeReason = None, vu_headers = None, vu_body = None,
     vu_always = None, vu_sample = None, vu_maxConcurrent = None, vu_onSaturatedSkip = False, vu_includeBodyExcerptBytes = None\<rparr>"

definition validate_of :: "PolicyDocument \<Rightarrow> ValidateUnit" where
  "validate_of policy = or_else (pd_validate policy) empty_validate"

definition sse_on :: "PolicyDocument \<Rightarrow> bool" where
  "sse_on policy \<longleftrightarrow> (case pd_passthrough policy of Some p \<Rightarrow> pt_sse p | None \<Rightarrow> False)"

definition with_operation :: "ConfigOperation option \<Rightarrow> TemplateContext \<Rightarrow> TemplateContext" where
  "with_operation operation ctx = (case operation of
       None \<Rightarrow> ctx
     | Some op \<Rightarrow> mset_key ''operation.template'' (op_template op) (mset_key ''operation.method'' (op_method op)
         (mset_key ''operation.id'' (op_id op) ctx)))"

definition capped_body :: "HttpRequest \<Rightarrow> Received \<Rightarrow> body_stream option" where
  "capped_body req rcv = (if rcv_hasBody rcv then map_option (cappedBody (rcv_maxBody rcv)) (req_body req) else None)"

definition envelope_limits :: "Gateway \<Rightarrow> ConfigRoute \<Rightarrow> ScanLimits" where
  "envelope_limits gw route = (let xml = cl_xml (rt_limits (gw_table gw)) in
     \<lparr>sl_maxBytes = xl_maxBytes xml, sl_maxDepth = xl_maxDepth xml,
      sl_maxElements = or_else (Option.bind (always_of route) va_maxElements) (xl_maxElements xml)\<rparr>)"

definition resolve_soap :: "Gateway \<Rightarrow> Platform \<Rightarrow> HttpRequest \<Rightarrow> Admitted \<Rightarrow> bool \<Rightarrow> ConfigSoapOperation list \<Rightarrow> body_stream \<Rightarrow> Resolved phase" where
  "resolve_soap gw pf req adm soap12 soapOperations stream =
     (let rcv = adm_received adm; route = rcv_route rcv; xml = cl_xml (rt_limits (gw_table gw));
          refuse = (\<lambda>status outcome. Stop (deny gw req (Some route) status outcome [])) in
      case takePrefix stream (xl_maxPrefixBytes xml) of
        None \<Rightarrow> refuse 413 ''body-too-large''
      | Some (prefix, stream) \<Rightarrow>
          (case scanEnvelope (envelope_limits gw route) (utf8_text prefix) of
             None \<Rightarrow> refuse 400 ''soap-mismatch''
           | Some (_, bodyChild) \<Rightarrow>
               if or_else bodyChild [] = [] then refuse 400 ''soap-mismatch''
               else (case find (\<lambda>o'. so_element o' = or_else bodyChild []) soapOperations of
                   None \<Rightarrow> refuse 400 ''soap-mismatch''
                 | Some soapOperation \<Rightarrow>
                     if \<not> actionAgrees (declaredAction soap12 (header (req_headers req) ''soapaction'') (header (req_headers req) ''content-type''))
                          (so_soapAction soapOperation)
                     then refuse 400 ''soap-mismatch''
                     else (let operation = find (\<lambda>op. op_id op = so_operationId soapOperation) (cr_operations route) in
                       Go \<lparr>rs_operation = operation, rs_pathParams = [], rs_rpcId = JNull, rs_upstream = Some stream, rs_buffered = None,
                         rs_context = with_operation operation (adm_context adm)\<rparr>))))"

definition resolve_rpc :: "Gateway \<Rightarrow> Platform \<Rightarrow> HttpRequest \<Rightarrow> Admitted \<Rightarrow> Resolved phase" where
  "resolve_rpc gw pf req adm =
     (let rcv = adm_received adm; route = rcv_route rcv; policy = cr_policy route;
          refuse = (\<lambda>status outcome. Stop (deny gw req (Some route) status outcome []));
          denyRpc = (\<lambda>status outcome. Stop (deny gw req (Some route) status outcome (adm_rateHeaders adm))) in
      if req_method req \<noteq> ''POST'' then refuse 405 ''no-route''
      else (case readWholeBody (rcv_maxBody rcv) (capped_body req rcv) of
          None \<Rightarrow> refuse 413 ''body-too-large''
        | Some bytes \<Rightarrow> (case readJsonBody (pf_validators pf) bytes (validate_of policy) of
            None \<Rightarrow> refuse 400 ''validation-rejected''
          | Some json \<Rightarrow> (case parseRpc json of
              None \<Rightarrow> denyRpc 400 ''validation-rejected''
            | Some rpc \<Rightarrow>
                (let selector = (if cr_kind route = Mcp then selectorFor (prc_method rpc) (prc_params rpc) else prc_method rpc) in
                case find (\<lambda>op. cfo_selector op = Some selector) (cr_operations route) of
                  None \<Rightarrow> denyRpc 404 ''rpc-unknown-method''
                | Some operation \<Rightarrow>
                    if cr_kind route = A2a \<and> isStreamingMethod (prc_method rpc) \<and> \<not> sse_on policy then denyRpc 503 ''rpc-unknown-method''
                    else Go \<lparr>rs_operation = Some operation, rs_pathParams = [], rs_rpcId = prc_id rpc, rs_upstream = None,
                      rs_buffered = Some bytes, rs_context = with_operation (Some operation) (adm_context adm)\<rparr>)))))"

definition relative_path :: "HttpRequest \<Rightarrow> ConfigRoute \<Rightarrow> string" where
  "relative_path req route = stripBasePath (req_pathname req) (cr_basePath route)"

definition resolve_path :: "Gateway \<Rightarrow> HttpRequest \<Rightarrow> Admitted \<Rightarrow> Resolved phase" where
  "resolve_path gw req adm =
     (let rcv = adm_received adm; route = rcv_route rcv in
      case matchCompiled (operationsFor (gw_table gw) route) (req_method req) (relative_path req route) of
        None \<Rightarrow> Stop (deny gw req (Some route) 404 ''no-operation'' [])
      | Some (operation, pathParams) \<Rightarrow>
          Go \<lparr>rs_operation = Some operation, rs_pathParams = pathParams, rs_rpcId = JNull, rs_upstream = capped_body req rcv, rs_buffered = None,
            rs_context = with_operation (Some operation)
              (foldl (\<lambda>m (k, v). mset_key (''path.'' @ k) v m) (adm_context adm) pathParams)\<rparr>)"

definition resolve :: "Gateway \<Rightarrow> Platform \<Rightarrow> HttpRequest \<Rightarrow> Admitted \<Rightarrow> Resolved phase" where
  "resolve gw pf req adm =
     (let rcv = adm_received adm; route = rcv_route rcv; body = capped_body req rcv;
          unresolved = Go \<lparr>rs_operation = None, rs_pathParams = [], rs_rpcId = JNull, rs_upstream = body, rs_buffered = None,
            rs_context = adm_context adm\<rparr>
      in case (if cr_kind route = Soap then cr_soap route else None, body) of
           (Some (soap12, operations), Some stream) \<Rightarrow> resolve_soap gw pf req adm soap12 operations stream
         | _ \<Rightarrow>
             if (cr_kind route = Mcp \<or> cr_kind route = A2a) \<and>
                \<not> (cr_kind route = Mcp \<and> (req_method req = ''GET'' \<or> req_method req = ''DELETE''))
             then resolve_rpc gw pf req adm
             else if cr_kind route = Mcp
             then (if sse_on (cr_policy route) then unresolved
                   else Stop (deny gw req (Some route) 405 ''no-route'' (adm_rateHeaders adm)))
             else if cr_operations route \<noteq> [] then resolve_path gw req adm
             else unresolved)"

section \<open>Definitions: the operation's own units\<close>

definition no_units :: OperationUnits where
  "no_units = \<lparr>ou_validate = None, ou_rateLimit = None, ou_quota = None, ou_timeoutMs = None, ou_cache = None\<rparr>"

definition operationPolicy :: "PolicyDocument \<Rightarrow> string option \<Rightarrow> OperationUnits" where
  "operationPolicy policy operationId = (case operationId of
       None \<Rightarrow> no_units
     | Some i \<Rightarrow> if i = [] then no_units else or_else (map_of (pd_operations policy) i) no_units)"

text \<open>\<^verbatim>\<open>{ ...validate, ...opPolicy.validate }\<close>: a member the operation's unit has replaces the route's.\<close>

definition override :: "'a option \<Rightarrow> 'a option \<Rightarrow> 'a option" where
  "override own inherited = (case own of Some x \<Rightarrow> Some x | None \<Rightarrow> inherited)"

definition effective_validate :: "ValidateUnit \<Rightarrow> ValidateUnit option \<Rightarrow> ValidateUnit" where
  "effective_validate base own = (case own of
       None \<Rightarrow> base
     | Some o' \<Rightarrow> \<lparr>vu_request = override (vu_request o') (vu_request base), vu_response = override (vu_response o') (vu_response base),
         vu_downgradeReason = override (vu_downgradeReason o') (vu_downgradeReason base),
         vu_headers = override (vu_headers o') (vu_headers base), vu_body = override (vu_body o') (vu_body base),
         vu_always = override (vu_always o') (vu_always base), vu_sample = override (vu_sample o') (vu_sample base),
         vu_maxConcurrent = override (vu_maxConcurrent o') (vu_maxConcurrent base),
         vu_onSaturatedSkip = (vu_onSaturatedSkip o' \<or> vu_onSaturatedSkip base),
         vu_includeBodyExcerptBytes = override (vu_includeBodyExcerptBytes o') (vu_includeBodyExcerptBytes base)\<rparr>)"

definition operation_id :: "Resolved \<Rightarrow> string option" where
  "operation_id rs = map_option op_id (rs_operation rs)"

definition missing_scopes :: "PolicyDocument \<Rightarrow> Caller \<Rightarrow> Resolved \<Rightarrow> string \<Rightarrow> string list" where
  "missing_scopes policy caller rs m = (case (auth_jwt policy, cl_identity caller) of
       (Some u, Some i) \<Rightarrow> scopeMapMisses u i (operation_id rs) m (map_option op_template (rs_operation rs))
     | _ \<Rightarrow> [])"

definition operation_rate_key :: "ConfigRoute \<Rightarrow> ConfigSubscription \<Rightarrow> Resolved \<Rightarrow> string" where
  "operation_rate_key route sub rs = sub_id sub @ ''|'' @ cr_resourceId route @ ''|op:'' @ or_else (operation_id rs) []"

definition operation_quota_key :: "ConfigRoute \<Rightarrow> ConfigSubscription \<Rightarrow> QuotaUnit \<Rightarrow> string \<Rightarrow> int \<Rightarrow> QuotaKey" where
  "operation_quota_key route sub unit oid now =
     keyFor (sub_id sub) ''operation'' (cr_resourceId route @ '':'' @ oid) (nat (qu_periodSec unit)) now"

definition operation_rate ::
  "ConfigRoute \<Rightarrow> Caller \<Rightarrow> Resolved \<Rightarrow> RateLimitUnit option \<Rightarrow> int \<Rightarrow> RateLimiter \<Rightarrow> RateVerdict option \<times> RateLimiter" where
  "operation_rate route caller rs unit now limiter = (case (unit, cl_subscription caller) of
       (Some u, Some s) \<Rightarrow> (case rl_check limiter (operation_rate_key route s rs) (rlu_calls u) (rlu_periodSec u) now of (v, l) \<Rightarrow> (Some v, l))
     | _ \<Rightarrow> (None, limiter))"

definition meter_operation :: "Gateway \<Rightarrow> HttpRequest \<Rightarrow> Admitted \<Rightarrow> Resolved \<Rightarrow> int \<Rightarrow> 'task Instance \<Rightarrow> unit phase \<times> 'task Instance" where
  "meter_operation gw req adm rs now st =
     (let route = rcv_route (adm_received adm); policy = cr_policy route; caller = adm_caller adm;
          own = operationPolicy policy (operation_id rs); h = adm_rateHeaders adm in
      if missing_scopes policy caller rs (req_method req) \<noteq> [] then (Stop (deny gw req (Some route) 403 ''bad-credential'' []), st)
      else (case operation_rate route caller rs (ou_rateLimit own) now (ins_limiter st) of (v, limiter) \<Rightarrow>
        (let st = st\<lparr>ins_limiter := limiter\<rparr> in
          if (case v of Some x \<Rightarrow> \<not> rv_allowed x | None \<Rightarrow> False)
          then (Stop (deny gw req (Some route) 429 ''rate-limited''
            (mset_key ''retry-after'' (case v of Some x \<Rightarrow> show_int (rv_retryAfter x) | None \<Rightarrow> []) h)), st)
          else (case (ou_quota own, cl_subscription caller, rs_operation rs) of
              (Some u, Some s, Some op) \<Rightarrow>
                (case check (ins_quota st) (operation_quota_key route s u (op_id op) now) (int (qu_calls u)) now of (qv, quota) \<Rightarrow>
                  (if qv_allowed qv then Go () else Stop (deny gw req (Some route) 403 ''quota-exceeded'' h), st\<lparr>ins_quota := quota\<rparr>))
            | _ \<Rightarrow> (Go (), st)))))"


section \<open>Definitions: step 12\<close>

text \<open>A queued check, with what its closure holds.\<close>

record SampleTask =
  tk_key :: string
  tk_operationId :: string
  tk_artifact :: ValidationArtifact
  tk_body :: bytes
  tk_contentType :: "string option"
  tk_validate :: ValidateUnit

record Validated =
  vld_resolved :: Resolved
  vld_units :: OperationUnits
  vld_validate :: ValidateUnit
  vld_artifact :: "ValidationArtifact option"

definition artifactFor :: "Platform \<Rightarrow> ConfigRoute \<Rightarrow> ValidationArtifact option" where
  "artifactFor pf route = (case cr_artifacts route of [] \<Rightarrow> None | ref # _ \<Rightarrow> pf_artifact pf (ar_digest ref))"

definition count :: "counter_name \<Rightarrow> 'task Instance \<Rightarrow> 'task Instance" where
  "count c st = st\<lparr>ins_counters := counted c (ins_counters st)\<rparr>"

definition operation_ok :: "Resolved \<Rightarrow> bool" where
  "operation_ok rs \<longleftrightarrow> (case rs_operation rs of Some op \<Rightarrow> cfo_schemaState op = SchemaOk | None \<Rightarrow> False)"

definition request_state :: "ValidateUnit \<Rightarrow> ValidationState" where
  "request_state validate = or_else (vu_request validate) VBlocking"

definition check_parameters ::
  "Gateway \<Rightarrow> Platform \<Rightarrow> HttpRequest \<Rightarrow> Admitted \<Rightarrow> Resolved \<Rightarrow> ValidateUnit \<Rightarrow> 'task Instance \<Rightarrow> unit phase \<times> 'task Instance" where
  "check_parameters gw pf req adm rs validate st =
     (let route = rcv_route (adm_received adm); refuse = (\<lambda>status outcome. Stop (deny gw req (Some route) status outcome (adm_rateHeaders adm))) in
      case (artifactFor pf route, rs_operation rs) of
        (None, Some _) \<Rightarrow> if operation_ok rs then (refuse 503 ''validation-unavailable'', count CUnavailable st) else (Go (), st)
      | (Some artifact, Some op) \<Rightarrow>
          if vu_headers validate = Some False then (Go (), st)
          else (let result = validateParameters (pf_validators pf) artifact (op_id op)
                  \<lparr>pi_pathParams = rs_pathParams rs, pi_query = req_query req, pi_headers = req_headers req\<rparr> in
            if vo_ok result then (Go (), st)
            else (case request_state validate of
                VBlocking \<Rightarrow> (refuse 400 ''validation-rejected'', count CRejected st)
              | VWarning \<Rightarrow> (Go (), count CObserved st)
              | VDisabled \<Rightarrow> (Go (), st)))
      | _ \<Rightarrow> (Go (), st))"

definition wants_body_validation :: "Platform \<Rightarrow> ConfigRoute \<Rightarrow> Resolved \<Rightarrow> ValidateUnit \<Rightarrow> bool" where
  "wants_body_validation pf route rs validate \<longleftrightarrow>
     artifactFor pf route \<noteq> None \<and> operation_ok rs \<and> vu_body validate \<noteq> Some False \<and> request_state validate \<noteq> VDisabled"

definition has_request_body :: "Resolved \<Rightarrow> bool" where
  "has_request_body rs \<longleftrightarrow> rs_upstream rs \<noteq> None \<or> rs_buffered rs \<noteq> None"

definition json_request :: "HttpRequest \<Rightarrow> bool" where
  "json_request req \<longleftrightarrow> matchesMedia (mediaTypeOf (header (req_headers req) ''content-type'')) JSON_MEDIA"

definition needs_always_scan :: "HttpRequest \<Rightarrow> ConfigRoute \<Rightarrow> Resolved \<Rightarrow> bool" where
  "needs_always_scan req route rs \<longleftrightarrow> cr_kind route = Rest \<and> has_request_body rs \<and> json_request req"

definition kafka_needs_body :: "HttpRequest \<Rightarrow> ConfigRoute \<Rightarrow> bool" where
  "kafka_needs_body req route \<longleftrightarrow> pd_kafkaProduce (cr_policy route) \<noteq> None \<and> json_request req"

text \<open>The budget is held while the body is read and given back before the body is used.\<close>

definition buffer_body ::
  "Gateway \<Rightarrow> Platform \<Rightarrow> HttpRequest \<Rightarrow> Admitted \<Rightarrow> Resolved \<Rightarrow> ValidateUnit \<Rightarrow> 'task Instance \<Rightarrow> Resolved phase \<times> 'task Instance" where
  "buffer_body gw pf req adm rs validate st =
     (let rcv = adm_received adm; route = rcv_route rcv; h = adm_rateHeaders adm in
      if \<not> (has_request_body rs \<and> (needs_always_scan req route rs \<or> kafka_needs_body req route \<or>
             wants_body_validation pf route rs validate \<and> request_state validate = VBlocking)) \<or> rs_buffered rs \<noteq> None
      then (Go rs, st)
      else (case tryReserve (ins_budget st) (rcv_maxBody rcv) of
          (False, _) \<Rightarrow> (Stop (deny gw req (Some route) 503 ''validate-budget'' (mset_key ''retry-after'' ''1'' h)), count CBudgetShed st)
        | (True, budget) \<Rightarrow>
            (let st = st\<lparr>ins_budget := budget_release budget (rcv_maxBody rcv)\<rparr> in
             case readWholeBody (rcv_maxBody rcv) (rs_upstream rs) of
               None \<Rightarrow> (Stop (deny gw req (Some route) 413 ''body-too-large'' []), st)
             | Some bytes \<Rightarrow> (Go (rs\<lparr>rs_buffered := Some bytes, rs_upstream := None\<rparr>), st))))"

definition always_scan ::
  "Gateway \<Rightarrow> Platform \<Rightarrow> HttpRequest \<Rightarrow> Admitted \<Rightarrow> Resolved \<Rightarrow> ValidateUnit \<Rightarrow> 'task Instance \<Rightarrow> unit phase \<times> 'task Instance" where
  "always_scan gw pf req adm rs validate st =
     (let route = rcv_route (adm_received adm) in
      case rs_buffered rs of
        None \<Rightarrow> (Go (), st)
      | Some bytes \<Rightarrow>
          if needs_always_scan req route rs \<and> bytes \<noteq> [] \<and> readJsonBody (pf_validators pf) bytes validate = None
          then (Stop (deny gw req (Some route) 400 ''validation-rejected'' (adm_rateHeaders adm)), count CRejected st)
          else (Go (), st))"

definition options_of :: "ValidateSample option \<Rightarrow> sample_options" where
  "options_of sample = \<lparr>smo_rate = (case sample of Some s \<Rightarrow> vs_rate s | None \<Rightarrow> 1 / 10),
     smo_coldStart = or_else (Option.bind sample vs_coldStart) 20, smo_alwaysUnderBytes = or_else (Option.bind sample vs_alwaysUnderBytes) 65536\<rparr>"

text \<open>The sampler's decision, and the queueing of a copy.\<close>

definition sample_wanted ::
  "Gateway \<Rightarrow> Platform \<Rightarrow> Admitted \<Rightarrow> string \<Rightarrow> ValidateUnit \<Rightarrow> nat \<Rightarrow> int \<Rightarrow> 'task Instance \<Rightarrow> bool \<times> 'task Instance" where
  "sample_wanted gw pf adm oid validate bytes now st =
     (case decide (pf_fraction pf) now (ins_sampler st)
        (sampler_key (Some oid) (map_option sub_id (cl_subscription (adm_caller adm))) (vu_sample validate))
        (gw_requestId gw) (options_of (vu_sample validate)) bytes of (yes, sampler) \<Rightarrow> (yes, st\<lparr>ins_sampler := sampler\<rparr>))"

definition queue_sample :: "HttpRequest \<Rightarrow> Admitted \<Rightarrow> string \<Rightarrow> ValidationArtifact \<Rightarrow> ValidateUnit \<Rightarrow> bytes \<Rightarrow> SampleTask Instance \<Rightarrow> SampleTask Instance" where
  "queue_sample req adm oid artifact validate copy st =
     (case submit (ins_pool st)
        \<lparr>tk_key = sampler_key (Some oid) (map_option sub_id (cl_subscription (adm_caller adm))) (vu_sample validate),
         tk_operationId = oid, tk_artifact = artifact, tk_body = copy, tk_contentType = header (req_headers req) ''content-type'',
         tk_validate = validate\<rparr> of
       (accepted, pool) \<Rightarrow> (let st = st\<lparr>ins_pool := pool\<rparr> in if accepted then st else count CSampleDropped st))"

definition run_sample :: "Platform \<Rightarrow> SampleTask \<Rightarrow> int \<Rightarrow> SampleTask Instance \<Rightarrow> SampleTask Instance" where
  "run_sample pf task now st =
     (if vo_ok (validateRequestBody (pf_validators pf) (tk_artifact task) (tk_operationId task) (tk_body task) (tk_contentType task) (tk_validate task))
      then st
      else (let st = count CObserved st in st\<lparr>ins_sampler := escalate now (ins_sampler st) (tk_key task)
        (int (or_else (Option.bind (vu_sample (tk_validate task)) vs_onFailureEscalateSec) 300))\<rparr>))"

definition declared_bytes :: "HttpRequest \<Rightarrow> nat" where
  "declared_bytes req = (case declared_length req of Some n \<Rightarrow> nat \<lceil>n\<rceil> | None \<Rightarrow> 0)"

definition check_body ::
  "Gateway \<Rightarrow> Platform \<Rightarrow> HttpRequest \<Rightarrow> Admitted \<Rightarrow> Resolved \<Rightarrow> ValidateUnit \<Rightarrow> int \<Rightarrow> SampleTask Instance \<Rightarrow> Resolved phase \<times> SampleTask Instance" where
  "check_body gw pf req adm rs validate now st =
     (let rcv = adm_received adm; route = rcv_route rcv in
      case (artifactFor pf route, rs_operation rs) of
        (Some artifact, Some op) \<Rightarrow>
          if \<not> wants_body_validation pf route rs validate then (Go rs, st)
          else (case rs_buffered rs of
              Some bytes \<Rightarrow>
                if request_state validate = VBlocking
                then (if vo_ok (validateRequestBody (pf_validators pf) artifact (op_id op) bytes (header (req_headers req) ''content-type'') validate)
                      then (Go rs, st)
                      else (Stop (deny gw req (Some route) 400 ''validation-rejected'' (adm_rateHeaders adm)), count CRejected st))
                else (case sample_wanted gw pf adm (op_id op) validate (length bytes) now st of
                    (False, st) \<Rightarrow> (Go rs, st)
                  | (True, st) \<Rightarrow> (Go rs, queue_sample req adm (op_id op) artifact validate bytes st))
            | None \<Rightarrow>
                if rs_upstream rs = None \<or> request_state validate \<noteq> VWarning then (Go rs, st)
                else (case sample_wanted gw pf adm (op_id op) validate (declared_bytes req) now st of
                    (False, st) \<Rightarrow> (Go rs, st)
                  | (True, st) \<Rightarrow> (case teeBody (rs_upstream rs) None (rcv_maxBody rcv) of
                      (forward, copy) \<Rightarrow> (Go (rs\<lparr>rs_upstream := forward\<rparr>),
                        case copy of None \<Rightarrow> st | Some bytes \<Rightarrow> queue_sample req adm (op_id op) artifact validate bytes st))))
      | _ \<Rightarrow> (Go rs, st))"

text \<open>The capture window of an API: the front of a body that streams is read for the log.\<close>

definition capture_open :: "ConfigRoute \<Rightarrow> int \<Rightarrow> bool" where
  "capture_open route now \<longleftrightarrow> (case Option.bind (cr_logBodiesUntil route) Date_parse of Some t \<Rightarrow> now < t | None \<Rightarrow> False)"

definition capture_body :: "Gateway \<Rightarrow> HttpRequest \<Rightarrow> Admitted \<Rightarrow> bool \<Rightarrow> Resolved \<Rightarrow> Resolved phase" where
  "capture_body gw req adm capture rs = (case (rs_buffered rs, rs_upstream rs) of
       (None, Some s) \<Rightarrow>
         if \<not> capture then Go rs
         else (case takePrefix s (MAX_LOGGED_BODY_BYTES + 1) of
             None \<Rightarrow> Stop (deny gw req (Some (rcv_route (adm_received adm))) 413 ''body-too-large'' [])
           | Some (_, t) \<Rightarrow> Go (rs\<lparr>rs_upstream := Some t\<rparr>))
     | _ \<Rightarrow> Go rs)"

definition next_phase :: "'a phase \<times> 's \<Rightarrow> ('a \<Rightarrow> 's \<Rightarrow> 'b phase \<times> 's) \<Rightarrow> 'b phase \<times> 's" where
  "next_phase r f = (case r of (Go x, st) \<Rightarrow> f x st | (Stop p, st) \<Rightarrow> (Stop p, st) | (Crash, st) \<Rightarrow> (Crash, st))"

definition validate_request ::
  "Gateway \<Rightarrow> Platform \<Rightarrow> HttpRequest \<Rightarrow> Admitted \<Rightarrow> Resolved \<Rightarrow> bool \<Rightarrow> int \<Rightarrow> SampleTask Instance \<Rightarrow> Validated phase \<times> SampleTask Instance" where
  "validate_request gw pf req adm rs capture now st =
     (let route = rcv_route (adm_received adm); policy = cr_policy route; own = operationPolicy policy (operation_id rs);
          validate = effective_validate (validate_of policy) (ou_validate own) in
      next_phase (check_parameters gw pf req adm rs validate st) (\<lambda>_ st.
      next_phase (buffer_body gw pf req adm rs validate st) (\<lambda>rs st.
      next_phase (always_scan gw pf req adm rs validate st) (\<lambda>_ st.
      next_phase (check_body gw pf req adm rs validate now st) (\<lambda>rs st.
        (and_then (capture_body gw req adm capture rs)
          (\<lambda>rs. Go \<lparr>vld_resolved = rs, vld_units = own, vld_validate = validate, vld_artifact = artifactFor pf route\<rparr>), st))))))"

text \<open>Steps 1 to 12. While the body of an RPC or a SOAP call is read, other requests may have changed the instance.\<close>

definition request_side ::
  "Gateway \<Rightarrow> Platform \<Rightarrow> HttpRequest \<Rightarrow> rat \<Rightarrow> int \<Rightarrow> (SampleTask Instance \<Rightarrow> SampleTask Instance) \<Rightarrow> int \<Rightarrow> SampleTask Instance \<Rightarrow>
   (Admitted \<times> Validated) phase \<times> SampleTask Instance" where
  "request_side gw pf req nowAuth now meanwhile later st =
     next_phase (admit_caller gw req nowAuth now st) (\<lambda>adm st.
       next_phase (resolve gw pf req adm, meanwhile st) (\<lambda>rs st.
         next_phase (meter_operation gw req adm rs later st) (\<lambda>_ st.
           next_phase (validate_request gw pf req adm rs (capture_open (rcv_route (adm_received adm)) now) later st) (\<lambda>v st. (Go (adm, v), st)))))"


section \<open>The operation is one the route declares\<close>

lemma find_in: "find P xs = Some x \<Longrightarrow> x \<in> set xs \<and> P x"
  by (induction xs) (auto split: if_splits)

lemma first_best_in: "first_best m path ops op \<Longrightarrow> op \<in> set ops"
  by (auto simp: first_best_def)

lemma resolve_path_declared:
  "resolve_path gw req adm = Go rs \<Longrightarrow>
   (case rs_operation rs of None \<Rightarrow> False
    | Some op \<Rightarrow> first_best (req_method req) (relative_path req (rcv_route (adm_received adm))) (cr_operations (rcv_route (adm_received adm))) op)"
  using matchOperation_best [of "cr_operations (rcv_route (adm_received adm))" "req_method req"
      "relative_path req (rcv_route (adm_received adm))"]
    matchOperation_best [of "[] :: ConfigOperation list" "req_method req" "relative_path req (rcv_route (adm_received adm))"]
  by (auto simp: resolve_path_def operationsFor_def matchOperation_def Let_def split: option.splits if_splits dest: first_best_in)

lemma takePrefix_same: "takePrefix s n = Some (p, t) \<Longrightarrow> content t = content s \<and> st_breaks t = st_breaks s"
proof -
  assume t: "takePrefix s n = Some (p, t)"
  obtain prefix rest ended where c: "prefix_chunks n [] (st_chunks s) = (prefix, rest, ended)" by (cases "prefix_chunks n [] (st_chunks s)")
  from prefix_chunks_spec [OF c] t show ?thesis by (auto simp: takePrefix_def c content_def split: if_splits)
qed

lemma takePrefix_front: "takePrefix s n = Some (p, t) \<Longrightarrow> \<exists>q. content s = p @ q"
proof -
  assume t: "takePrefix s n = Some (p, t)"
  obtain prefix rest ended where c: "prefix_chunks n [] (st_chunks s) = (prefix, rest, ended)" by (cases "prefix_chunks n [] (st_chunks s)")
  from prefix_chunks_spec [OF c] t show ?thesis
    by (auto simp: takePrefix_def c content_def split: if_splits intro: exI [of _ "concat rest"])
qed

text \<open>The element of an envelope that names its operation, in the whole of what is sent on and not in the front alone.\<close>

definition envelope_names :: "Gateway \<Rightarrow> ConfigRoute \<Rightarrow> Resolved \<Rightarrow> string \<Rightarrow> bool" where
  "envelope_names gw route rs element \<longleftrightarrow> (case rs_upstream rs of
       None \<Rightarrow> False
     | Some s \<Rightarrow>
         if utf16_length (utf8_text (content s)) \<le> sl_maxBytes (envelope_limits gw route)
         then map_option snd (scanEnvelope (envelope_limits gw route) (utf8_text (content s))) = Some (Some element) else True)"

lemma resolve_soap_declared:
  assumes "resolve_soap gw pf req adm v12 ops stream = Go rs"
  shows "case rs_operation rs of None \<Rightarrow> True | Some op \<Rightarrow> op \<in> set (cr_operations (rcv_route (adm_received adm))) \<and>
     list_ex (\<lambda>o'. so_operationId o' = op_id op \<and> envelope_names gw (rcv_route (adm_received adm)) rs (so_element o') \<and>
       actionAgrees (declaredAction v12 (header (req_headers req) ''soapaction'') (header (req_headers req) ''content-type'')) (so_soapAction o')) ops"
proof -
  let ?route = "rcv_route (adm_received adm)"
  from assms obtain prefix s v child o' where front: "takePrefix stream (xl_maxPrefixBytes (cl_xml (rt_limits (gw_table gw)))) = Some (prefix, s)"
    and found: "scanEnvelope (envelope_limits gw ?route) (utf8_text prefix) = Some (v, child)" "or_else child [] \<noteq> []"
    and o': "find (\<lambda>o'. so_element o' = or_else child []) ops = Some o'"
    and agrees: "actionAgrees (declaredAction v12 (header (req_headers req) ''soapaction'') (header (req_headers req) ''content-type'')) (so_soapAction o')"
    and rs: "rs_upstream rs = Some s" "rs_operation rs = find (\<lambda>op. op_id op = so_operationId o') (cr_operations ?route)"
    by (auto simp: resolve_soap_def Let_def split: option.splits if_splits prod.splits)
  from found(2) obtain element where child: "child = Some element" by (cases child) (auto simp: or_else_def)
  from takePrefix_front [OF front] takePrefix_same [OF front] obtain q where "content s = prefix @ q" by auto
  then have "envelope_names gw ?route rs element"
    using found(1) scanEnvelope_append [of "envelope_limits gw ?route" "utf8_text prefix" v element "utf8_text q"]
    by (simp add: envelope_names_def rs child utf8_text_def)
  with find_in [OF o'] agrees rs(2) child show ?thesis by (auto simp: list_ex_iff split: option.split dest!: find_in simp: or_else_def)
qed

lemma resolve_rpc_declared:
  "resolve_rpc gw pf req adm = Go rs \<Longrightarrow>
   (case rs_operation rs of None \<Rightarrow> False | Some op \<Rightarrow> op \<in> set (cr_operations (rcv_route (adm_received adm))) \<and>
     list_ex (\<lambda>rpc. cfo_selector op = Some (if cr_kind (rcv_route (adm_received adm)) = Mcp then selectorFor (prc_method rpc) (prc_params rpc)
       else prc_method rpc))
       (case rs_buffered rs of None \<Rightarrow> [] | Some b \<Rightarrow>
         (case readJsonBody (pf_validators pf) b (validate_of (cr_policy (rcv_route (adm_received adm)))) of None \<Rightarrow> []
          | Some j \<Rightarrow> (case parseRpc j of None \<Rightarrow> [] | Some rpc \<Rightarrow> [rpc]))))"
  by (auto simp: resolve_rpc_def Let_def split: option.splits if_splits dest!: find_in)

text \<open>How a request may name its operation, by the kind of its route. Only a REST or SOAP route that declares no operation, a
  SOAP binding that names one the route does not have, and the two bodyless methods of MCP leave it open.\<close>

definition operation_named :: "Gateway \<Rightarrow> Platform \<Rightarrow> HttpRequest \<Rightarrow> ConfigRoute \<Rightarrow> Resolved \<Rightarrow> bool" where
  "operation_named gw pf req route rs \<longleftrightarrow> (case rs_operation rs of
       None \<Rightarrow> cr_operations route = [] \<or> cr_kind route = Soap \<or>
         cr_kind route = Mcp \<and> (req_method req = ''GET'' \<or> req_method req = ''DELETE'') \<and> sse_on (cr_policy route)
     | Some op \<Rightarrow> op \<in> set (cr_operations route) \<and>
         (case cr_kind route of
            Rest \<Rightarrow> first_best (req_method req) (relative_path req route) (cr_operations route) op
          | Soap \<Rightarrow> (case (cr_soap route, rs_upstream rs) of
              (Some (_, ops), Some _) \<Rightarrow> list_ex (\<lambda>o'. so_operationId o' = op_id op \<and> envelope_names gw route rs (so_element o')) ops
            | _ \<Rightarrow> True)
          | _ \<Rightarrow> req_method req = ''POST'' \<and>
              (case Option.bind (rs_buffered rs) (\<lambda>b. Option.bind (readJsonBody (pf_validators pf) b (validate_of (cr_policy route))) parseRpc) of
                 None \<Rightarrow> False
               | Some rpc \<Rightarrow> cfo_selector op = Some (if cr_kind route = Mcp then selectorFor (prc_method rpc) (prc_params rpc)
                   else prc_method rpc))))"

lemma resolve_rpc_post: "resolve_rpc gw pf req adm = Go rs \<Longrightarrow> req_method req = ''POST''"
  by (simp add: resolve_rpc_def Let_def split: if_splits)

lemma rpc_named:
  assumes "resolve_rpc gw pf req adm = Go rs" "cr_kind (rcv_route (adm_received adm)) = Mcp \<or> cr_kind (rcv_route (adm_received adm)) = A2a"
  shows "operation_named gw pf req (rcv_route (adm_received adm)) rs"
  using resolve_rpc_declared [OF assms(1)] resolve_rpc_post [OF assms(1)] assms(2)
  by (auto simp: operation_named_def split: option.splits ResourceKind.splits)

lemma path_upstream: "resolve_path gw req adm = Go rs \<Longrightarrow> rs_upstream rs = capped_body req (adm_received adm)"
  by (auto simp: resolve_path_def Let_def split: option.splits prod.splits)

lemma path_named:
  assumes "resolve_path gw req adm = Go rs"
    "cr_kind (rcv_route (adm_received adm)) = Rest \<or> cr_kind (rcv_route (adm_received adm)) = Soap \<and>
      (cr_soap (rcv_route (adm_received adm)) = None \<or> capped_body req (adm_received adm) = None)"
  shows "operation_named gw pf req (rcv_route (adm_received adm)) rs"
  using resolve_path_declared [OF assms(1)] assms(2) path_upstream [OF assms(1)]
  by (cases "cr_kind (rcv_route (adm_received adm))")
    (auto simp: operation_named_def dest: first_best_in split: option.splits)


section \<open>The body that goes on\<close>

text \<open>The bytes that go on, and whether they end in an error.\<close>

definition sent_body :: "Resolved \<Rightarrow> (bytes \<times> bool) option" where
  "sent_body rs = (case rs_buffered rs of
       Some b \<Rightarrow> Some (b, False) | None \<Rightarrow> map_option (\<lambda>s. (content s, st_breaks s)) (rs_upstream rs))"

text \<open>They are the capped body's; a body that breaks may also have been dropped. A body read as nothing is nothing.\<close>

definition carries :: "body_stream option \<Rightarrow> Resolved \<Rightarrow> bool" where
  "carries body rs \<longleftrightarrow> (case body of
       None \<Rightarrow> rs_upstream rs = None \<and> (rs_buffered rs = None \<or> rs_buffered rs = Some [])
     | Some s \<Rightarrow> (rs_buffered rs = None \<or> rs_upstream rs = None) \<and>
         (sent_body rs = Some (content s, st_breaks s) \<or> sent_body rs = None \<and> st_breaks s))"

lemma readWholeBody_Some: "readWholeBody cap (Some s) = Some b \<Longrightarrow> b = content s \<and> \<not> st_breaks s"
  by (simp add: readWholeBody_spec split: if_splits)

lemma resolve_carries:
  assumes "resolve gw pf req adm = Go rs"
  shows "carries (capped_body req (adm_received adm)) rs"
proof -
  have soap: "carries (Some s) rs" if "resolve_soap gw pf req adm v12 ops s = Go rs" for v12 ops s
    using that by (auto simp: resolve_soap_def Let_def carries_def sent_body_def split: option.splits if_splits dest!: takePrefix_same)
  have rpc: "carries (capped_body req (adm_received adm)) rs" if "resolve_rpc gw pf req adm = Go rs"
  proof (cases "capped_body req (adm_received adm)")
    case None
    with that show ?thesis
      by (auto simp: resolve_rpc_def Let_def carries_def readWholeBody_def split: option.splits if_splits)
  next
    case (Some s)
    with that show ?thesis
      by (auto simp: resolve_rpc_def Let_def carries_def sent_body_def split: option.splits if_splits dest!: readWholeBody_Some)
  qed
  have path: "carries (capped_body req (adm_received adm)) rs" if "resolve_path gw req adm = Go rs"
    using that by (auto simp: resolve_path_def Let_def carries_def sent_body_def split: option.splits)
  have open_operation: "carries body \<lparr>rs_operation = None, rs_pathParams = [], rs_rpcId = JNull, rs_upstream = body, rs_buffered = None,
      rs_context = adm_context adm\<rparr>" for body
    by (simp add: carries_def sent_body_def split: option.split)
  show ?thesis
  proof (cases "\<exists>v12 ops s. (if cr_kind (rcv_route (adm_received adm)) = Soap then cr_soap (rcv_route (adm_received adm)) else None) = Some (v12, ops) \<and>
      capped_body req (adm_received adm) = Some s")
    case True
    with assms soap show ?thesis by (auto simp: resolve_def Let_def split: if_splits)
  next
    case False
    then have "resolve_rpc gw pf req adm = Go rs \<or> resolve_path gw req adm = Go rs \<or>
        rs = \<lparr>rs_operation = None, rs_pathParams = [], rs_rpcId = JNull, rs_upstream = capped_body req (adm_received adm), rs_buffered = None,
          rs_context = adm_context adm\<rparr>"
      using assms by (auto simp: resolve_def Let_def split: option.splits if_splits)
    with rpc path open_operation show ?thesis by blast
  qed
qed

lemma buffer_carries:
  assumes "buffer_body gw pf req adm rs validate st = (Go rs', st')" "carries body rs"
  shows "carries body rs'" "rs_operation rs' = rs_operation rs"
proof -
  have "rs' = rs \<or> rs_buffered rs = None \<and>
      (\<exists>s b. rs_upstream rs = Some s \<and> readWholeBody (rcv_maxBody (adm_received adm)) (Some s) = Some b \<and>
        rs' = rs\<lparr>rs_buffered := Some b, rs_upstream := None\<rparr>)"
    using assms(1) by (auto simp: buffer_body_def has_request_body_def Let_def split: if_splits prod.splits bool.splits option.splits)
  then show "carries body rs'" "rs_operation rs' = rs_operation rs" using assms(2)
    by (auto simp: carries_def sent_body_def split: option.splits dest!: readWholeBody_Some)
qed

lemma always_scan_go: "always_scan gw pf req adm rs validate st = (Go u, st') \<Longrightarrow> st' = st"
  by (simp add: always_scan_def Let_def split: option.splits if_splits)

lemma check_body_cases:
  assumes "check_body gw pf req adm rs validate now st = (Go rs', st')"
  shows "rs' = rs \<or> (\<exists>s. rs_buffered rs = None \<and> rs_upstream rs = Some s \<and>
    rs' = rs\<lparr>rs_upstream := (if rcv_maxBody (adm_received adm) < length (content s) \<or> st_breaks s then None else Some (stream_of (content s)))\<rparr>)"
  using assms by (auto simp: check_body_def Let_def teeBody_def readWholeBody_spec split: option.splits if_splits prod.splits bool.splits)

lemma capped_body_bound: "capped_body req rcv = Some s \<Longrightarrow> length (content s) \<le> rcv_maxBody rcv"
  using capped_content [of "rcv_maxBody rcv"] by (auto simp: capped_body_def split: if_splits)

lemma content_stream_of: "content (stream_of b) = b" "\<not> st_breaks (stream_of b)"
  by (simp_all add: content_def stream_of_def)

lemma check_body_carries:
  assumes "check_body gw pf req adm rs validate now st = (Go rs', st')" "carries (capped_body req (adm_received adm)) rs"
  shows "carries (capped_body req (adm_received adm)) rs'"
proof (cases "capped_body req (adm_received adm)")
  case None
  with check_body_cases [OF assms(1)] assms(2) show ?thesis by (auto simp: carries_def)
next
  case (Some s)
  note bound = capped_body_bound [OF Some]
  from check_body_cases [OF assms(1)] show ?thesis
  proof (elim disjE exE conjE)
    fix t
    assume t: "rs_buffered rs = None" "rs_upstream rs = Some t"
      "rs' = rs\<lparr>rs_upstream := (if rcv_maxBody (adm_received adm) < length (content t) \<or> st_breaks t then None else Some (stream_of (content t)))\<rparr>"
    have same: "content t = content s" "st_breaks t = st_breaks s" using assms(2) Some t(1,2) by (auto simp: carries_def sent_body_def)
    show ?thesis
    proof (cases "st_breaks s")
      case True
      with Some t same show ?thesis by (simp add: carries_def sent_body_def)
    next
      case False
      with Some t same bound show ?thesis by (simp add: carries_def sent_body_def content_stream_of)
    qed
  qed (use assms(2) in simp)
qed

lemma capture_carries:
  assumes "capture_body gw req adm capture rs = Go rs'" "carries body rs"
  shows "carries body rs' \<and> rs_operation rs' = rs_operation rs \<and> rs_buffered rs' = rs_buffered rs \<and>
    (rs_upstream rs' = None \<longleftrightarrow> rs_upstream rs = None)"
  using assms
  by (auto simp: capture_body_def carries_def sent_body_def split: option.splits if_splits dest!: takePrefix_same)

lemma next_phase_go: "next_phase r f = (Go y, st') \<Longrightarrow> \<exists>x st. r = (Go x, st) \<and> f x st = (Go y, st')"
  by (auto simp: next_phase_def split: prod.splits phase.splits)

text \<open>A request that passes step 12 has passed its four checks.\<close>

lemma validate_request_go:
  assumes "validate_request gw pf req adm rs capture now st = (Go v, st')"
  obtains st1 rs2 st2 st3 rs4 st4 where
    "check_parameters gw pf req adm rs (vld_validate v) st = (Go (), st1)"
    "buffer_body gw pf req adm rs (vld_validate v) st1 = (Go rs2, st2)"
    "always_scan gw pf req adm rs2 (vld_validate v) st2 = (Go (), st3)"
    "check_body gw pf req adm rs2 (vld_validate v) now st3 = (Go rs4, st4)"
    "capture_body gw req adm capture rs4 = Go (vld_resolved v)"
    "vld_artifact v = artifactFor pf (rcv_route (adm_received adm))"
  using assms unfolding validate_request_def Let_def
  by (auto dest!: next_phase_go and_then_Go [THEN iffD1])

lemma request_side_go:
  assumes "fst (request_side gw pf req nowAuth now meanwhile later st) = Go (adm, v)"
  obtains rs capture st1 st2 where "resolve gw pf req adm = Go rs"
    "validate_request gw pf req adm rs capture later st1 = (Go v, st2)"
proof -
  obtain st' where "request_side gw pf req nowAuth now meanwhile later st = (Go (adm, v), st')" using assms by (metis prod.collapse)
  then show thesis unfolding request_side_def by (auto dest!: next_phase_go intro: that)
qed

lemma request_side_carries:
  assumes "fst (request_side gw pf req nowAuth now meanwhile later st) = Go (adm, v)"
  shows "carries (capped_body req (adm_received adm)) (vld_resolved v)"
proof -
  obtain rs capture st1 st2 where r: "resolve gw pf req adm = Go rs" "validate_request gw pf req adm rs capture later st1 = (Go v, st2)"
    by (rule request_side_go [OF assms])
  show ?thesis
    by (rule validate_request_go [OF r(2)])
      (metis resolve_carries [OF r(1)] buffer_carries(1) check_body_carries capture_carries)
qed


lemma check_parameters_artifact:
  assumes "check_parameters gw pf req adm rs validate st = (Go (), st')" "rs_operation rs = Some op"
    "artifactFor pf (rcv_route (adm_received adm)) = None"
  shows "cfo_schemaState op \<noteq> SchemaOk"
  using assms by (auto simp: check_parameters_def operation_ok_def Let_def split: if_splits)

text \<open>What step 12 leaves of a body that blocking validation is for.\<close>

lemma buffer_body_blocking:
  assumes "buffer_body gw pf req adm rs validate st = (Go rs', st')" "wants_body_validation pf (rcv_route (adm_received adm)) rs' validate"
    "request_state validate = VBlocking" "has_request_body rs'" "rs_operation rs' = rs_operation rs"
  shows "\<exists>b. rs_buffered rs' = Some b \<and> rs_upstream rs' = (if rs_buffered rs = None then None else rs_upstream rs)"
proof -
  have wants: "wants_body_validation pf (rcv_route (adm_received adm)) rs validate"
    using assms(2,5) by (simp add: wants_body_validation_def operation_ok_def)
  show ?thesis
    using assms(1,3,4) wants by (auto simp: buffer_body_def Let_def has_request_body_def split: if_splits prod.splits bool.splits option.splits)
qed

lemma check_body_blocking:
  assumes "check_body gw pf req adm rs validate now st = (Go rs', st')" "rs_buffered rs = Some b" "request_state validate = VBlocking"
    "artifactFor pf (rcv_route (adm_received adm)) = Some artifact" "rs_operation rs = Some op"
    "wants_body_validation pf (rcv_route (adm_received adm)) rs validate"
  shows "rs' = rs \<and> vo_ok (validateRequestBody (pf_validators pf) artifact (op_id op) b (header (req_headers req) ''content-type'') validate)"
  using assms by (auto simp: check_body_def Let_def split: if_splits)

lemma validated_body:
  assumes "fst (request_side gw pf req nowAuth now meanwhile later st) = Go (adm, v)" "rs_operation (vld_resolved v) = Some op"
  shows "case vld_artifact v of
      None \<Rightarrow> cfo_schemaState op \<noteq> SchemaOk
    | Some artifact \<Rightarrow>
        if cfo_schemaState op = SchemaOk \<and> vu_body (vld_validate v) \<noteq> Some False \<and>
           request_state (vld_validate v) = VBlocking \<and> has_request_body (vld_resolved v)
        then (case rs_buffered (vld_resolved v) of None \<Rightarrow> False
          | Some b \<Rightarrow> vo_ok (validateRequestBody (pf_validators pf) artifact (op_id op) b (header (req_headers req) ''content-type'') (vld_validate v)))
        else True"
proof -
  let ?body = "capped_body req (adm_received adm)" and ?route = "rcv_route (adm_received adm)"
  obtain rs capture st1 st2 where r: "resolve gw pf req adm = Go rs" "validate_request gw pf req adm rs capture later st1 = (Go v, st2)"
    by (rule request_side_go [OF assms(1)])
  obtain st3 rs2 st4 st5 rs4 st6 where g:
    "check_parameters gw pf req adm rs (vld_validate v) st1 = (Go (), st3)"
    "buffer_body gw pf req adm rs (vld_validate v) st3 = (Go rs2, st4)"
    "check_body gw pf req adm rs2 (vld_validate v) later st5 = (Go rs4, st6)"
    "capture_body gw req adm capture rs4 = Go (vld_resolved v)"
    "vld_artifact v = artifactFor pf ?route"
    by (rule validate_request_go [OF r(2)])
  note c2 = buffer_carries [OF g(2) resolve_carries [OF r(1)]]
  note c4 = capture_carries [OF g(4) check_body_carries [OF g(3) c2(1)]]
  have op4: "rs_operation rs4 = rs_operation rs2" using check_body_cases [OF g(3)] by auto
  have op: "rs_operation rs2 = Some op" "rs_operation rs = Some op" using c4 op4 c2(2) assms(2) by simp_all
  show ?thesis
  proof (cases "artifactFor pf ?route")
    case None
    with check_parameters_artifact [OF g(1) op(2)] g(5) show ?thesis by simp
  next
    case (Some artifact)
    have "\<exists>b. rs_buffered (vld_resolved v) = Some b \<and>
        vo_ok (validateRequestBody (pf_validators pf) artifact (op_id op) b (header (req_headers req) ''content-type'') (vld_validate v))"
      if blocking: "cfo_schemaState op = SchemaOk" "vu_body (vld_validate v) \<noteq> Some False" "request_state (vld_validate v) = VBlocking"
        "has_request_body (vld_resolved v)"
    proof -
      have wants: "wants_body_validation pf ?route rs2 (vld_validate v)"
        using Some op blocking by (simp add: wants_body_validation_def operation_ok_def)
      have "has_request_body rs2" using blocking(4) c4 check_body_cases [OF g(3)] by (auto simp: has_request_body_def)
      from buffer_body_blocking [OF g(2) wants blocking(3) this c2(2)] obtain b where b: "rs_buffered rs2 = Some b" by blast
      from check_body_blocking [OF g(3) b blocking(3) Some op(1) wants] c4 b show ?thesis by auto
    qed
    with Some g(5) show ?thesis by (auto split: option.split)
  qed
qed

text \<open>C5: Blocking validation blocks. When the route's contract is a JSON schema, the operation is compiled and its policy says
  blocking, a request with a body goes on only after the body was read whole, parsed within the document limits, and found to
  conform to the schema the contract has for it, if it has one; and an operation whose contract is missing goes nowhere.\<close>

theorem blocking_body_conforms:
  "case fst (request_side gw pf req nowAuth now meanwhile later st) of
     Go (adm, v) \<Rightarrow>
       (case rs_operation (vld_resolved v) of
          None \<Rightarrow> True
        | Some op \<Rightarrow>
            (case vld_artifact v of
               None \<Rightarrow> cfo_schemaState op \<noteq> SchemaOk
             | Some artifact \<Rightarrow>
                 if art_kind artifact = JsonSchemaArtifact \<and> cfo_schemaState op = SchemaOk \<and> vu_body (vld_validate v) \<noteq> Some False \<and>
                    request_state (vld_validate v) = VBlocking \<and> has_request_body (vld_resolved v)
                 then (case Option.bind (rs_buffered (vld_resolved v)) (\<lambda>b. readJsonBody (pf_validators pf) b (vld_validate v)) of
                         None \<Rightarrow> False
                       | Some json \<Rightarrow>
                           (case applicable_schema artifact (op_id op) RequestBody (header (req_headers req) ''content-type'') of
                              None \<Rightarrow> True
                            | Some schema \<Rightarrow> conforms (env_of (pf_validators pf) artifact) (Suc MAX_DEPTH) json schema))
                 else True))
   | _ \<Rightarrow> True"
proof (cases "fst (request_side gw pf req nowAuth now meanwhile later st)")
  case (Go r)
  obtain adm v where r: "r = (adm, v)" by (cases r)
  show ?thesis
    using validated_body [OF Go [unfolded r]]
    by (auto simp: Go r message_ok validateRequestBody_def simp del: conforms.simps split: option.splits)
qed simp_all

end
