(* ===== verification/Dispatch.thy ===== *)
theory Dispatch
  imports ConfigDoc PolicyChecks
begin

text \<open>
  How an admitted request reaches a backend (\<^verbatim>\<open>data-plane/src/pipeline.ts\<close>, steps 17 to 19): the order of backends, the slot of
  the bulkhead, and the loop of attempts with the circuit breaker, the credential of the backend, the deadline and the retries.
  The loop is split at its two \<^verbatim>\<open>await\<close>s, so calls interleave: a call is waiting for the backend credential or for the
  backend's answer, and both answers are arguments. The slot is given back wherever the \<^verbatim>\<open>finally\<close> runs, that is with every
  result of a call.

  Shown here: however calls interleave, the bulkhead counts exactly the calls between admission and result; a backend is sent
  no more requests than the retries allow, and none after the deadline; every call ends.
\<close>

declare map_of_eq_Some_iff [simp del] Some_eq_map_of_iff [simp del]

section \<open>Definitions\<close>

definition breakerOf :: "PolicyDocument \<Rightarrow> BreakerSettings option" where
  "breakerOf policy = map_option (\<lambda>u. \<lparr>bs_failures = cb_failures u, bs_windowSec = cb_windowSec u, bs_openSec = cb_openSec u,
     bs_halfOpenProbes = or_else (cb_halfOpenProbes u) 1\<rparr>) (pd_circuitBreaker policy)"

definition status_on :: "nat \<Rightarrow> retry_on option" where
  "status_on status = (if status = 502 then Some On502 else if status = 503 then Some On503 else if status = 504 then Some On504 else None)"

definition isRetryable :: "nat \<Rightarrow> RetriesUnit option \<Rightarrow> bool" where
  "isRetryable status retries = (case (retries, status_on status) of (Some u, Some x) \<Rightarrow> x \<in> set (ru_on u) | _ \<Rightarrow> False)"

text \<open>What a call carries through the loop: the fields it reads and never changes.\<close>

record Call =
  ca_resource :: string
  ca_order :: "BackendEntry list"
  ca_method :: string
  ca_streamed :: bool
  ca_retries :: "RetriesUnit option"
  ca_breaker :: "BreakerSettings option"
  ca_deadlineAt :: int

definition maxAttempts :: "Call \<Rightarrow> nat" where
  "maxAttempts d = (case ca_retries d of
       None \<Rightarrow> 1
     | Some u \<Rightarrow> if ru_idempotentOnly u \<noteq> Some False \<and> \<not> isIdempotent (ca_method d) then 1
         else if ca_streamed d then 1
         else min (ru_attempts u + 1) (length (ca_order d) + 1))"

definition entry_at :: "Call \<Rightarrow> nat \<Rightarrow> BackendEntry" where
  "entry_at d attempt = ca_order d ! min attempt (length (ca_order d) - 1)"

definition breakerKey :: "Call \<Rightarrow> BackendEntry \<Rightarrow> string" where
  "breakerKey d entry = ca_resource d @ ''|'' @ be_url entry"

record lastError =
  le_status :: nat
  le_outcome :: string
  le_backend :: string

datatype call_result =
    Delivered nat BackendEntry
  | Refused nat string
  | GaveUp lastError "int option"

text \<open>The locals of the loop: the attempt, the last error, the backend last used, and when each request was sent. \<open>Awaiting_auth\<close>
  and \<open>Awaiting_answer\<close> are the two suspension points.\<close>

datatype waiting = Awaiting_auth | Awaiting_answer

record Locals =
  lo_attempt :: nat
  lo_last :: "lastError option"
  lo_used :: "BackendEntry option"
  lo_sent :: "int list"
  lo_waiting :: waiting

function pick_backend :: "Call \<Rightarrow> int \<Rightarrow> nat \<Rightarrow> lastError option \<Rightarrow> CircuitBreaker \<Rightarrow> nat option \<times> lastError option \<times> CircuitBreaker" where
  "pick_backend d now attempt lastError cb =
     (if maxAttempts d \<le> attempt then (None, lastError, cb)
      else (let entry = entry_at d attempt in
        case br_tryAcquire cb (breakerKey d entry) (ca_breaker d) now of
          (True, cb) \<Rightarrow> (Some attempt, lastError, cb)
        | (False, cb) \<Rightarrow> pick_backend d now (attempt + 1) (Some \<lparr>le_status = 503, le_outcome = ''pool-open'', le_backend = be_url entry\<rparr>) cb))"
  by pat_completeness auto
termination by (relation "measure (\<lambda>(d, now, attempt, e, cb). maxAttempts d - attempt)") auto

declare pick_backend.simps [simp del]

text \<open>The answer when no backend delivered.\<close>

definition give_up :: "Call \<Rightarrow> int \<Rightarrow> lastError option \<Rightarrow> BackendEntry option \<Rightarrow> CircuitBreaker \<Rightarrow> call_result" where
  "give_up d now lastError used cb =
     (let reopens = (case used of None \<Rightarrow> 1 | Some e \<Rightarrow> ceil_div (reopensInMs cb (breakerKey d e) (ca_breaker d) now) 1000);
          failure = or_else lastError \<lparr>le_status = 503, le_outcome = ''pool-open'', le_backend = []\<rparr>
      in GaveUp failure (if le_outcome failure = ''pool-open'' then Some (max 1 reopens) else None))"

definition go_on :: "Call \<Rightarrow> int \<Rightarrow> nat \<Rightarrow> Locals \<Rightarrow> CircuitBreaker \<Rightarrow> (Locals + call_result) \<times> CircuitBreaker" where
  "go_on d now attempt l cb = (case pick_backend d now attempt (lo_last l) cb of
       (None, lastError, cb) \<Rightarrow> (Inr (give_up d now lastError (lo_used l) cb), cb)
     | (Some n, lastError, cb) \<Rightarrow>
         (Inl (l\<lparr>lo_attempt := n, lo_last := lastError, lo_used := Some (entry_at d n), lo_waiting := Awaiting_auth\<rparr>), cb))"

datatype auth_answer = AuthOk | AuthFailed nat

text \<open>\<^verbatim>\<open>break\<close> at a deadline that has passed leaves the loop without telling the breaker.\<close>

definition on_auth :: "Call \<Rightarrow> int \<Rightarrow> auth_answer \<Rightarrow> Locals \<Rightarrow> CircuitBreaker \<Rightarrow> (Locals + call_result) \<times> CircuitBreaker" where
  "on_auth d now answer l cb =
     (let entry = entry_at d (lo_attempt l); key = breakerKey d entry in
      case answer of
        AuthFailed status \<Rightarrow> (Inr (Refused status ''backend-unreachable''), br_onSuccess cb key (ca_breaker d))
      | AuthOk \<Rightarrow>
          if ca_deadlineAt d - now \<le> 0
          then (Inr (give_up d now (Some \<lparr>le_status = 504, le_outcome = ''backend-timeout'', le_backend = be_url entry\<rparr>) (lo_used l) cb), cb)
          else (Inl (l\<lparr>lo_sent := lo_sent l @ [now], lo_waiting := Awaiting_answer\<rparr>), cb))"

text \<open>How \<^verbatim>\<open>fetch\<close> ended: a status, or an exception, with what the handler asks of it: whether the request body ran over its
  cap, whether the caller has gone, and whether the time ran out.\<close>

datatype fetch_answer = Answered nat | Broke bool bool bool

definition on_answer :: "Call \<Rightarrow> int \<Rightarrow> fetch_answer \<Rightarrow> Locals \<Rightarrow> CircuitBreaker \<Rightarrow> (Locals + call_result) \<times> CircuitBreaker" where
  "on_answer d now answer l cb =
     (let attempt = lo_attempt l; entry = entry_at d attempt; key = breakerKey d entry; settings = ca_breaker d in
      case answer of
        Answered status \<Rightarrow>
          if isRetryable status (ca_retries d) \<and> attempt + 1 < maxAttempts d
          then go_on d now (attempt + 1) (l\<lparr>lo_last := Some \<lparr>le_status = status, le_outcome = ''upstream-error'', le_backend = be_url entry\<rparr>\<rparr>)
                 (br_onFailure cb key settings now)
          else (Inr (Delivered status entry),
                if 500 \<le> status \<and> isRetryable status (ca_retries d) then br_onFailure cb key settings now else br_onSuccess cb key settings)
      | Broke over_cap gone timed_out \<Rightarrow>
          if over_cap then (Inr (Refused 413 ''body-too-large''), cb)
          else if gone then (Inr (Refused 499 ''client-gone''), br_onSuccess cb key settings)
          else (let cb = br_onFailure cb key settings now;
                    lastError = Some \<lparr>le_status = (if timed_out then 504 else 502),
                      le_outcome = (if timed_out then ''backend-timeout'' else ''backend-unreachable''), le_backend = be_url entry\<rparr>;
                    canRetry = (attempt + 1 < maxAttempts d \<and>
                      (case ca_retries d of None \<Rightarrow> False | Some u \<Rightarrow> (if timed_out then OnTimeout else OnConnect) \<in> set (ru_on u)))
                in if canRetry then go_on d now (attempt + 1) (l\<lparr>lo_last := lastError\<rparr>) cb
                   else (Inr (give_up d now lastError (lo_used l) cb), cb)))"

section \<open>Definitions: the calls of an instance\<close>

text \<open>The calls under way, and the results with the number the call has and the times its requests were sent.\<close>

record Traffic =
  tf_gate :: ConcurrencyGate
  tf_breaker :: CircuitBreaker
  tf_calls :: "(nat, Call \<times> Locals) jsmap"
  tf_results :: "(Call \<times> int list \<times> call_result) list"

text \<open>What the request path knows when it selects a backend.\<close>

record Dispatching =
  dp_resource :: string
  dp_policy :: PolicyDocument
  dp_backend :: ConfigBackend
  dp_cursor :: nat
  dp_method :: string
  dp_streamed :: bool
  dp_timeoutMs :: nat

definition healthy :: "CircuitBreaker \<Rightarrow> string \<Rightarrow> BreakerSettings option \<Rightarrow> int \<Rightarrow> string \<Rightarrow> bool" where
  "healthy cb resource settings now url \<longleftrightarrow> fst (br_state cb (resource @ ''|'' @ url) settings now) \<noteq> BOpen"

text \<open>Asking for the state of an entry also moves it from open to half-open when its time has come.\<close>

definition observed :: "CircuitBreaker \<Rightarrow> string \<Rightarrow> BreakerSettings option \<Rightarrow> int \<Rightarrow> BackendEntry list \<Rightarrow> CircuitBreaker" where
  "observed cb resource settings now pool =
     foldl (\<lambda>cb e. snd (br_state cb (resource @ ''|'' @ be_url e) settings now)) cb pool"

definition begin_call :: "Dispatching \<Rightarrow> int \<Rightarrow> CircuitBreaker \<Rightarrow> Call \<times> CircuitBreaker" where
  "begin_call x now cb =
     (let settings = breakerOf (dp_policy x); pool = cbk_pool (dp_backend x) in
      (\<lparr>ca_resource = dp_resource x,
        ca_order = selectionOrder pool (cbk_rule (dp_backend x)) (dp_cursor x) (healthy cb (dp_resource x) settings now),
        ca_method = dp_method x, ca_streamed = dp_streamed x, ca_retries = pd_retries (dp_policy x), ca_breaker = settings,
        ca_deadlineAt = now + int (dp_timeoutMs x)\<rparr>,
       observed cb (dp_resource x) settings now pool))"

definition settle :: "nat \<Rightarrow> Call \<Rightarrow> (Locals + call_result) \<times> CircuitBreaker \<Rightarrow> int list \<Rightarrow> Traffic \<Rightarrow> Traffic" where
  "settle i d next sent t = (case next of
       (Inl l, cb) \<Rightarrow> t\<lparr>tf_breaker := cb, tf_calls := mset_key i (d, l) (tf_calls t)\<rparr>
     | (Inr r, cb) \<Rightarrow> t\<lparr>tf_breaker := cb, tf_calls := mdelete i (tf_calls t), tf_gate := gate_release (tf_gate t) (ca_resource d),
         tf_results := tf_results t @ [(d, sent, r)]\<rparr>)"

definition fresh_locals :: Locals where
  "fresh_locals = \<lparr>lo_attempt = 0, lo_last = None, lo_used = None, lo_sent = [], lo_waiting = Awaiting_auth\<rparr>"

text \<open>Steps 17 to 19 up to the first suspension point.\<close>

definition dispatch :: "nat \<Rightarrow> Dispatching \<Rightarrow> int \<Rightarrow> Traffic \<Rightarrow> Traffic" where
  "dispatch i x now t =
     (let (d, cb) = begin_call x now (tf_breaker t); t = t\<lparr>tf_breaker := cb\<rparr> in
      if ca_order d = [] then t\<lparr>tf_results := tf_results t @ [(d, [], Refused 503 ''backend-unreachable'')]\<rparr>
      else (case tryAcquire (tf_gate t) (dp_resource x) (map_option cn_maxInFlight (pd_concurrency (dp_policy x))) of
          (RouteSaturated, g) \<Rightarrow> t\<lparr>tf_gate := g, tf_results := tf_results t @ [(d, [], Refused 503 ''route-saturated'')]\<rparr>
        | (InstanceSaturated, g) \<Rightarrow> t\<lparr>tf_gate := g, tf_results := tf_results t @ [(d, [], Refused 503 ''instance-saturated'')]\<rparr>
        | (AdmOk, g) \<Rightarrow> settle i d (go_on d now 0 fresh_locals cb) [] (t\<lparr>tf_gate := g\<rparr>)))"

text \<open>The instance's events. A number that is in use is not given to another call, and an answer reaches the call that waits
  for it.\<close>

datatype traffic_event = Begin nat Dispatching int | Authed nat auth_answer int | Answer nat fetch_answer int

fun traffic_step :: "Traffic \<Rightarrow> traffic_event \<Rightarrow> Traffic" where
  "traffic_step t (Begin i x now) = (if map_of (tf_calls t) i = None then dispatch i x now t else t)"
| "traffic_step t (Authed i answer now) = (case map_of (tf_calls t) i of
       None \<Rightarrow> t
     | Some (d, l) \<Rightarrow> if lo_waiting l = Awaiting_auth then settle i d (on_auth d now answer l (tf_breaker t)) (lo_sent l) t else t)"
| "traffic_step t (Answer i answer now) = (case map_of (tf_calls t) i of
       None \<Rightarrow> t
     | Some (d, l) \<Rightarrow> if lo_waiting l = Awaiting_answer then settle i d (on_answer d now answer l (tf_breaker t)) (lo_sent l) t else t)"

section \<open>Attempts\<close>

lemma pick_backend_range: "pick_backend d now n e cb = (Some m, e', cb') \<Longrightarrow> n \<le> m \<and> m < maxAttempts d"
proof (induction d now n e cb rule: pick_backend.induct)
  case (1 d now n e cb)
  show ?case
  proof (cases "maxAttempts d \<le> n")
    case False
    obtain ok cb1 where b: "br_tryAcquire cb (breakerKey d (entry_at d n)) (ca_breaker d) now = (ok, cb1)" by fastforce
    show ?thesis
    proof (cases ok)
      case True
      with 1(2) b False show ?thesis by (simp add: pick_backend.simps [of d now n])
    next
      case nok: False
      then have "pick_backend d now (n + 1) (Some \<lparr>le_status = 503, le_outcome = ''pool-open'', le_backend = be_url (entry_at d n)\<rparr>) cb1
          = (Some m, e', cb')" using 1(2) b False by (simp add: pick_backend.simps [of d now n] Let_def)
      from 1(1) [OF False refl b [symmetric] _ this] nok show ?thesis by simp
    qed
  qed (use 1(2) in \<open>simp add: pick_backend.simps [of d now n]\<close>)
qed

definition call_ok :: "Call \<Rightarrow> Locals \<Rightarrow> bool" where
  "call_ok d l \<longleftrightarrow> lo_attempt l < maxAttempts d \<and>
     length (lo_sent l) \<le> lo_attempt l + (if lo_waiting l = Awaiting_answer then 1 else 0) \<and>
     list_all (\<lambda>sent. sent < ca_deadlineAt d) (lo_sent l)"

lemma go_on_ok:
  "go_on d now n l cb = (Inl l', cb') \<Longrightarrow> n \<le> lo_attempt l' \<and> lo_attempt l' < maxAttempts d \<and> lo_sent l' = lo_sent l \<and> lo_waiting l' = Awaiting_auth"
  by (auto simp: go_on_def dest!: pick_backend_range split: prod.splits option.splits)

lemma on_auth_ok: "call_ok d l \<Longrightarrow> lo_waiting l = Awaiting_auth \<Longrightarrow> on_auth d now a l cb = (Inl l', cb') \<Longrightarrow>
    call_ok d l' \<and> lo_attempt l' = lo_attempt l \<and> lo_waiting l' = Awaiting_answer"
  by (auto simp: on_auth_def call_ok_def Let_def split: auth_answer.splits if_splits)

lemma on_answer_ok: "call_ok d l \<Longrightarrow> on_answer d now a l cb = (Inl l', cb') \<Longrightarrow>
    call_ok d l' \<and> lo_attempt l < lo_attempt l' \<and> lo_waiting l' = Awaiting_auth"
  by (auto simp: on_answer_def call_ok_def Let_def split: fetch_answer.splits if_splits dest!: go_on_ok)

text \<open>One step of one call, and the measure it lowers: an attempt has two suspension points.\<close>

inductive call_step :: "Call \<Rightarrow> Locals \<Rightarrow> Locals \<Rightarrow> bool" for d where
  step_auth: "call_step d l l'" if "lo_waiting l = Awaiting_auth" "on_auth d now a l cb = (Inl l', cb')"
| step_answer: "call_step d l l'" if "lo_waiting l = Awaiting_answer" "on_answer d now a l cb = (Inl l', cb')"

definition steps_left :: "Call \<Rightarrow> Locals \<Rightarrow> nat" where
  "steps_left d l = 2 * (maxAttempts d - lo_attempt l) - (if lo_waiting l = Awaiting_answer then 1 else 0)"

lemma on_auth_next: "on_auth d now a l cb = (Inl l', cb') \<Longrightarrow> lo_attempt l' = lo_attempt l \<and> lo_waiting l' = Awaiting_answer"
  by (auto simp: on_auth_def Let_def split: auth_answer.splits if_splits)

lemma on_answer_next: "on_answer d now a l cb = (Inl l', cb') \<Longrightarrow>
    lo_attempt l < lo_attempt l' \<and> lo_attempt l' < maxAttempts d \<and> lo_waiting l' = Awaiting_auth"
  by (auto simp: on_answer_def Let_def split: fetch_answer.splits if_splits dest!: go_on_ok)

text \<open>C18: Every call ends. Whatever the credential fetches and the backends answer, the steps of a call that leave it waiting
  again cannot go on without end.\<close>

theorem attempts_terminate: "wfP (\<lambda>l' l. lo_attempt l < maxAttempts d \<and> call_step d l l')"
proof (rule wfp_if_convertible_to_nat [where f = "steps_left d"])
  fix l' l assume "lo_attempt l < maxAttempts d \<and> call_step d l l'"
  then show "steps_left d l' < steps_left d l"
    by (auto simp: steps_left_def elim!: call_step.cases dest!: on_auth_next on_answer_next)
qed

section \<open>The bulkhead counts the calls\<close>

definition calls_of :: "string \<Rightarrow> (nat, Call \<times> Locals) jsmap \<Rightarrow> nat" where
  "calls_of r calls = length (filter (\<lambda>(_, d, _). ca_resource d = r) calls)"

definition traffic_ok :: "Traffic \<Rightarrow> bool" where
  "traffic_ok t \<longleftrightarrow> gate_ok (tf_gate t) \<and> distinct (mkeys (tf_calls t)) \<and> gate_total (tf_gate t) = length (tf_calls t) \<and>
     (\<forall>r. route_in_flight (tf_gate t) r = calls_of r (tf_calls t)) \<and>
     list_all (\<lambda>(_, d, l). call_ok d l) (tf_calls t) \<and>
     list_all (\<lambda>(d, sent, _). length sent \<le> maxAttempts d \<and> list_all (\<lambda>x. x < ca_deadlineAt d) sent) (tf_results t)"

lemma acquired:
  "gate_ok g \<Longrightarrow> tryAcquire g r m = (AdmOk, g') \<Longrightarrow>
   gate_ok g' \<and> gate_total g' = Suc (gate_total g) \<and> route_in_flight g' r' = route_in_flight g r' + (if r' = r then 1 else 0)"
  using tryAcquire_ok [of g r m] by (auto simp: tryAcquire_def Let_def route_in_flight_def jsmap split: if_splits)

lemma not_acquired:
  "gate_ok g \<Longrightarrow> tryAcquire g r m = (a, g') \<Longrightarrow> a \<noteq> AdmOk \<Longrightarrow>
   gate_ok g' \<and> gate_total g' = gate_total g \<and> route_in_flight g' r' = route_in_flight g r'"
  by (auto simp: tryAcquire_def Let_def route_in_flight_def gate_ok_def split: if_splits)

lemma released:
  assumes "gate_ok g" "0 < route_in_flight g r"
  shows "gate_ok (gate_release g r) \<and> gate_total (gate_release g r) = gate_total g - 1 \<and>
    route_in_flight (gate_release g r) r' = route_in_flight g r' - (if r' = r then 1 else 0)"
proof -
  from assms(2) obtain n where n: "map_of (perRoute g) r = Some n" by (auto simp: route_in_flight_def split: option.splits)
  with assms(1) show ?thesis using gate_release_ok [OF assms(1), of r]
    by (auto simp: gate_release_def route_in_flight_def jsmap)
qed

lemma calls_set:
  assumes "distinct (mkeys m)" "map_of m i = Some (d, l)"
  shows "length (mset_key i (d, l') m) = length m \<and> calls_of r (mset_key i (d, l') m) = calls_of r m"
  using assms by (induction m) (auto simp: calls_of_def split: if_splits)

lemma calls_add:
  assumes "map_of m i = None"
  shows "length (mset_key i (d, l') m) = Suc (length m) \<and>
    calls_of r (mset_key i (d, l') m) = calls_of r m + (if r = ca_resource d then 1 else 0)"
  using assms by (induction m) (auto simp: calls_of_def split: if_splits)

lemma calls_delete:
  assumes "distinct (mkeys m)" "map_of m i = Some (d, l)"
  shows "length (mdelete i m) = length m - 1 \<and> calls_of r (mdelete i m) = calls_of r m - (if r = ca_resource d then 1 else 0) \<and>
    0 < calls_of (ca_resource d) m"
  using assms
proof (induction m)
  case (Cons p m)
  obtain j d' l' where p: "p = (j, d', l')" by (cases p) auto
  show ?case
  proof (cases "j = i")
    case True
    with Cons.prems p have "d' = d" "mdelete i m = m" by (auto simp: get_None_iff intro: delete_fresh)
    with True p show ?thesis by (auto simp: calls_of_def)
  next
    case False
    with Cons p have IH: "length (mdelete i m) = length m - 1" "calls_of r (mdelete i m) = calls_of r m - (if r = ca_resource d then 1 else 0)"
      "0 < calls_of (ca_resource d) m" by auto
    have "m \<noteq> []" using Cons.prems p False by auto
    then show ?thesis using IH False p by (auto simp: calls_of_def neq_Nil_conv)
  qed
qed simp


lemma maxAttempts_pos [simp]: "0 < maxAttempts d"
  by (auto simp: maxAttempts_def split: option.splits)

lemma call_ok_fresh [simp]: "call_ok d fresh_locals"
  by (simp add: call_ok_def fresh_locals_def)

lemma calls_get: "map_of m i = Some x \<Longrightarrow> list_all P m \<Longrightarrow> P (i, x)"
  by (auto simp: list_all_iff dest: map_of_SomeD)

lemma list_all_mset_key: "list_all P m \<Longrightarrow> P (k, v) \<Longrightarrow> list_all P (mset_key k v m)"
  by (induction m) auto

lemma list_all_mdelete: "list_all P m \<Longrightarrow> list_all P (mdelete k m)"
  by (induction m) auto

lemma settle_ok:
  assumes ok: "traffic_ok t" and i: "map_of (tf_calls t) i = Some (d, l)"
    and n: "\<And>l' cb. next = (Inl l', cb) \<Longrightarrow> call_ok d l'"
  shows "traffic_ok (settle i d next (lo_sent l) t)"
proof -
  obtain r cb where nx: "next = (r, cb)" by fastforce
  have d: "distinct (mkeys (tf_calls t))" and g: "gate_ok (tf_gate t)"
    and flight: "\<And>r. route_in_flight (tf_gate t) r = calls_of r (tf_calls t)"
    and calls: "list_all (\<lambda>(_, d, l). call_ok d l) (tf_calls t)"
    using ok by (auto simp: traffic_ok_def)
  show ?thesis
  proof (cases r)
    case (Inl l')
    with n nx have "call_ok d l'" by simp
    then show ?thesis using ok Inl nx calls_set [OF d i] d
      by (simp add: settle_def traffic_ok_def list_all_mset_key distinct_set)
  next
    case (Inr x)
    have "call_ok d l" using calls_get [OF i calls] by simp
    then have "length (lo_sent l) \<le> maxAttempts d \<and> list_all (\<lambda>x. x < ca_deadlineAt d) (lo_sent l)"
      by (auto simp: call_ok_def split: if_splits)
    moreover have "0 < route_in_flight (tf_gate t) (ca_resource d)" using calls_delete [OF d i] flight by simp
    from released [OF g this] have "gate_ok (gate_release (tf_gate t) (ca_resource d))"
      and "gate_total (gate_release (tf_gate t) (ca_resource d)) = gate_total (tf_gate t) - 1"
      and "\<And>r. route_in_flight (gate_release (tf_gate t) (ca_resource d)) r = route_in_flight (tf_gate t) r - (if r = ca_resource d then 1 else 0)"
      by blast+
    ultimately show ?thesis using ok Inr nx calls_delete [OF d i] d
      by (simp add: settle_def traffic_ok_def list_all_mdelete distinct_delete)
  qed
qed

text \<open>Admission is the call entering the map; what \<^const>\<open>settle\<close> then does is what it does to a call that is there.\<close>

lemma settle_entered:
  assumes "map_of (tf_calls t) i = None"
  shows "settle i d next sent (t\<lparr>tf_calls := mset_key i (d, l) (tf_calls t)\<rparr>) = settle i d next sent t"
proof -
  have "mset_key i x (mset_key i y m) = mset_key i x m" for x y and m :: "(nat, Call \<times> Locals) jsmap" by (induction m) auto
  moreover have "mdelete i (mset_key i y m) = mdelete i m" for y and m :: "(nat, Call \<times> Locals) jsmap" by (induction m) auto
  ultimately show ?thesis by (simp add: settle_def split: prod.split sum.split)
qed

lemma entered_ok:
  assumes ok: "traffic_ok t" and i: "map_of (tf_calls t) i = None"
    and a: "tryAcquire (tf_gate t) (ca_resource d) m = (AdmOk, g)"
  shows "traffic_ok (t\<lparr>tf_breaker := cb, tf_gate := g, tf_calls := mset_key i (d, fresh_locals) (tf_calls t)\<rparr>)"
proof -
  have "gate_ok (tf_gate t)" using ok by (simp add: traffic_ok_def)
  note acquired [OF this a]
  then show ?thesis using ok calls_add [OF i]
    by (auto simp: traffic_ok_def list_all_mset_key distinct_set)
qed

lemma dispatch_ok:
  assumes ok: "traffic_ok t" and i: "map_of (tf_calls t) i = None"
  shows "traffic_ok (dispatch i x now t)"
proof -
  obtain d cb where b: "begin_call x now (tf_breaker t) = (d, cb)" by fastforce
  then have r: "dp_resource x = ca_resource d" by (auto simp: begin_call_def Let_def)
  obtain a g where g: "tryAcquire (tf_gate t) (ca_resource d) (map_option cn_maxInFlight (pd_concurrency (dp_policy x))) = (a, g)" by fastforce
  have gate: "gate_ok (tf_gate t)" using ok by (simp add: traffic_ok_def)
  show ?thesis
  proof (cases "ca_order d = []")
    case True
    with ok b show ?thesis by (simp add: dispatch_def traffic_ok_def)
  next
    case False
    show ?thesis
    proof (cases "a = AdmOk")
      case True
      let ?t = "t\<lparr>tf_breaker := cb, tf_gate := g\<rparr>" and ?next = "go_on d now 0 fresh_locals cb"
      let ?e = "?t\<lparr>tf_calls := mset_key i (d, fresh_locals) (tf_calls ?t)\<rparr>"
      have e: "traffic_ok ?e" using entered_ok [OF ok i g [unfolded True], of cb] by simp
      have "map_of (tf_calls ?e) i = Some (d, fresh_locals)" by (simp add: jsmap)
      moreover have "call_ok d l'" if "?next = (Inl l', cb')" for l' cb'
        using go_on_ok [OF that] by (simp add: call_ok_def fresh_locals_def)
      ultimately have "traffic_ok (settle i d ?next (lo_sent fresh_locals) ?e)" by (rule settle_ok [OF e])
      then have "traffic_ok (settle i d ?next [] ?e)" by (simp add: fresh_locals_def)
      then have "traffic_ok (settle i d ?next [] ?t)" using settle_entered [of ?t i] i by simp
      then show ?thesis using b r g True False by (simp add: dispatch_def)
    next
      case no: False
      with ok not_acquired [OF gate g no] b r g False show ?thesis
        by (cases a) (auto simp: dispatch_def traffic_ok_def)
    qed
  qed
qed

lemma traffic_step_ok [inv_pres]:
  assumes ok: "traffic_ok t"
  shows "traffic_ok (traffic_step t e)"
proof -
  have get: "call_ok d l" if "map_of (tf_calls t) i = Some (d, l)" for i d l
    using calls_get [OF that] ok by (auto simp: traffic_ok_def)
  show ?thesis
  proof (cases e)
    case (Authed i a now)
    with ok show ?thesis by (auto intro!: settle_ok split: option.split) (meson get on_auth_ok)
  next
    case (Answer i a now)
    with ok show ?thesis by (auto intro!: settle_ok split: option.split) (meson get on_answer_ok)
  qed (use ok in \<open>auto intro: dispatch_ok\<close>)
qed

interpretation traffic: machine traffic_step traffic_ok
  by unfold_locales (rule traffic_step_ok)

definition idle_instance :: "nat \<Rightarrow> Traffic" where
  "idle_instance ceil = \<lparr>tf_gate = new_gate ceil, tf_breaker = [], tf_calls = [], tf_results = []\<rparr>"

lemma idle_ok: "traffic_ok (idle_instance n)"
  by (simp add: idle_instance_def traffic_ok_def new_gate_def gate_ok_def route_in_flight_def calls_of_def)

text \<open>C14: However calls interleave, and whatever their backends, their credentials and the clock do, the bulkhead counts
  exactly the calls that were admitted and have not been answered, in all and for each route.\<close>

theorem bulkhead_counts_calls:
  "case foldl traffic_step (idle_instance n) es of t \<Rightarrow>
     gate_total (tf_gate t) = length (tf_calls t) \<and> route_in_flight (tf_gate t) r = calls_of r (tf_calls t)"
  using traffic.run_good [OF idle_ok [of n], of es] by (simp add: traffic_ok_def)


section \<open>Lost probes\<close>

text \<open>An entry in the half-open state whose probes are all taken refuses every further one. A probe whose call leaves by the
  deadline after the credential, or by the cap on a streamed body, is never given back; from then on nothing a later call does
  reopens the entry.\<close>

definition probes_lost :: "BreakerSettings \<Rightarrow> string \<Rightarrow> CircuitBreaker \<Rightarrow> bool" where
  "probes_lost s k cb \<longleftrightarrow> bk_state (br_entry cb k) = BHalfOpen \<and> bs_halfOpenProbes s \<le> bk_probesInFlight (br_entry cb k)"

lemma on_auth_deadline_keeps_breaker: "ca_deadlineAt d \<le> now \<Longrightarrow> \<exists>r. on_auth d now AuthOk l cb = (Inr r, cb)"
  by (simp add: on_auth_def Let_def)

lemma over_cap_keeps_breaker: "\<exists>r. on_answer d now (Broke True gone timed_out) l cb = (Inr r, cb)"
  by (simp add: on_answer_def Let_def)

lemma lost_refused:
  "probes_lost s k cb \<Longrightarrow> br_tryAcquire cb k' (Some s) now = (ok, cb') \<Longrightarrow> probes_lost s k cb' \<and> (ok \<longrightarrow> k' \<noteq> k)"
  using br_tryAcquire_eq [of cb k' s now ok cb']
  by (cases "k' = k") (auto simp: probes_lost_def Let_def observe_def)

lemma pick_backend_lost:
  "pick_backend d now n e cb = (m, e', cb') \<Longrightarrow> ca_breaker d = Some s \<Longrightarrow> probes_lost s k cb \<Longrightarrow>
   probes_lost s k cb' \<and> (case m of None \<Rightarrow> True | Some a \<Rightarrow> breakerKey d (entry_at d a) \<noteq> k)"
proof (induction d now n e cb rule: pick_backend.induct)
  case (1 d now n e cb)
  show ?case
  proof (cases "maxAttempts d \<le> n")
    case False
    obtain ok cb1 where b: "br_tryAcquire cb (breakerKey d (entry_at d n)) (ca_breaker d) now = (ok, cb1)" by fastforce
    have l: "probes_lost s k cb1 \<and> (ok \<longrightarrow> breakerKey d (entry_at d n) \<noteq> k)"
      using lost_refused [OF 1(4)] b 1(3) by simp
    show ?thesis
    proof (cases ok)
      case True
      with 1(2) b l False show ?thesis by (auto simp: pick_backend.simps [of d now n])
    next
      case nok: False
      then have "pick_backend d now (n + 1) (Some \<lparr>le_status = 503, le_outcome = ''pool-open'', le_backend = be_url (entry_at d n)\<rparr>) cb1
          = (m, e', cb')" using 1(2) b False by (simp add: pick_backend.simps [of d now n] Let_def)
      from 1(1) [OF False refl b [symmetric] _ this 1(3)] nok l show ?thesis by simp
    qed
  qed (use 1 in \<open>auto simp: pick_backend.simps [of d now n]\<close>)
qed


text \<open>Over the whole instance: every call uses the settings, and none has the entry.\<close>

definition entry_lost :: "BreakerSettings \<Rightarrow> string \<Rightarrow> Traffic \<Rightarrow> bool" where
  "entry_lost s k t \<longleftrightarrow> probes_lost s k (tf_breaker t) \<and>
     list_all (\<lambda>(_, d, l). ca_breaker d = Some s \<and> breakerKey d (entry_at d (lo_attempt l)) \<noteq> k) (tf_calls t)"

definition configured :: "BreakerSettings \<Rightarrow> traffic_event \<Rightarrow> bool" where
  "configured s e = (case e of Begin i x now \<Rightarrow> breakerOf (dp_policy x) = Some s | _ \<Rightarrow> True)"

lemma lost_other:
  assumes "probes_lost s k cb" "k' \<noteq> k"
  shows "probes_lost s k (br_onSuccess cb k' b)" "probes_lost s k (br_onFailure cb k' b now)"
  using assms by (auto simp: probes_lost_def br_onSuccess_def br_onFailure_def Let_def split: option.splits)

definition kept :: "BreakerSettings \<Rightarrow> string \<Rightarrow> Call \<Rightarrow> (Locals + call_result) \<times> CircuitBreaker \<Rightarrow> bool" where
  "kept s k d next \<longleftrightarrow> probes_lost s k (snd next) \<and>
     (case fst next of Inl l \<Rightarrow> breakerKey d (entry_at d (lo_attempt l)) \<noteq> k | Inr _ \<Rightarrow> True)"

lemma go_on_lost: "ca_breaker d = Some s \<Longrightarrow> probes_lost s k cb \<Longrightarrow> kept s k d (go_on d now n l cb)"
  by (auto simp: go_on_def kept_def dest: pick_backend_lost split: prod.splits option.splits)

lemma on_auth_lost:
  "ca_breaker d = Some s \<Longrightarrow> probes_lost s k cb \<Longrightarrow> breakerKey d (entry_at d (lo_attempt l)) \<noteq> k \<Longrightarrow> kept s k d (on_auth d now a l cb)"
  by (auto simp: on_auth_def kept_def Let_def lost_other split: auth_answer.split)

lemma on_answer_lost:
  "ca_breaker d = Some s \<Longrightarrow> probes_lost s k cb \<Longrightarrow> breakerKey d (entry_at d (lo_attempt l)) \<noteq> k \<Longrightarrow> kept s k d (on_answer d now a l cb)"
  by (auto simp: on_answer_def Let_def lost_other go_on_lost split: fetch_answer.split) (auto simp: kept_def lost_other)

lemma settle_lost:
  assumes "kept s k d next" "ca_breaker d = Some s"
    and "list_all (\<lambda>(_, d, l). ca_breaker d = Some s \<and> breakerKey d (entry_at d (lo_attempt l)) \<noteq> k) (tf_calls t)"
  shows "entry_lost s k (settle i d next sent t)"
  using assms by (auto simp: settle_def entry_lost_def kept_def list_all_mset_key list_all_mdelete split: prod.split sum.split)

lemma observed_lost: "probes_lost s k cb \<Longrightarrow> probes_lost s k (observed cb r (Some s) now pool)"
proof (induction pool arbitrary: cb)
  case (Cons e pool)
  obtain st cb' where b: "br_state cb (r @ ''|'' @ be_url e) (Some s) now = (st, cb')" by fastforce
  have "probes_lost s k cb'"
    using br_state_entry [OF b] Cons.prems by (cases "r @ ''|'' @ be_url e = k") (auto simp: probes_lost_def observe_def)
  from Cons.IH [OF this] b show ?case by (simp add: observed_def)
qed (simp add: observed_def)

lemma traffic_step_lost:
  assumes l: "entry_lost s k t" and c: "configured s e"
  shows "entry_lost s k (traffic_step t e)"
proof -
  have calls: "list_all (\<lambda>(_, d, l). ca_breaker d = Some s \<and> breakerKey d (entry_at d (lo_attempt l)) \<noteq> k) (tf_calls t)"
    and p: "probes_lost s k (tf_breaker t)" using l by (auto simp: entry_lost_def)
  have get: "ca_breaker d = Some s \<and> breakerKey d (entry_at d (lo_attempt l)) \<noteq> k" if "map_of (tf_calls t) i = Some (d, l)" for i d l
    using calls_get [OF that calls] by simp
  show ?thesis
  proof (cases e)
    case (Begin i x now)
    obtain d cb where b: "begin_call x now (tf_breaker t) = (d, cb)" by fastforce
    with c Begin p have d: "ca_breaker d = Some s" and cb: "probes_lost s k cb"
      by (auto simp: configured_def begin_call_def Let_def observed_lost)
    obtain a g where g: "tryAcquire (tf_gate t) (dp_resource x) (map_option cn_maxInFlight (pd_concurrency (dp_policy x))) = (a, g)"
      by fastforce
    have "entry_lost s k (settle i d (go_on d now 0 fresh_locals cb) [] (t\<lparr>tf_breaker := cb, tf_gate := g\<rparr>))"
      by (rule settle_lost [OF go_on_lost [OF d cb] d]) (use calls in simp)
    then have "entry_lost s k (dispatch i x now t)" using b g cb calls
      by (cases a) (auto simp: dispatch_def entry_lost_def Let_def)
    with l Begin show ?thesis by simp
  next
    case (Authed i a now)
    with l calls p get show ?thesis by (auto intro!: settle_lost on_auth_lost split: option.split)
  next
    case (Answer i a now)
    with l calls p get show ?thesis by (auto intro!: settle_lost on_answer_lost split: option.split)
  qed
qed

lemma lost_for_ever:
  assumes "entry_lost s k t" "list_all (configured s) es"
  shows "entry_lost s k (foldl traffic_step t es)"
  using assms by (induction es arbitrary: t) (auto intro: traffic_step_lost)


definition probed_call :: Call where
  "probed_call = \<lparr>ca_resource = ''r'', ca_order = [\<lparr>be_url = ''u'', be_weight = None\<rparr>], ca_method = ''GET'', ca_streamed = False,
     ca_retries = None, ca_breaker = Some \<lparr>bs_failures = 1, bs_windowSec = 10, bs_openSec = 5, bs_halfOpenProbes = 1\<rparr>,
     ca_deadlineAt = 9000\<rparr>"

definition opened :: CircuitBreaker where
  "opened = [(''r|u'', \<lparr>bk_failures = [], bk_state = BOpen, bk_openedAtMs = 1000, bk_probesInFlight = 0\<rparr>)]"

text \<open>One probe of an entry that opened five seconds ago, whose credential came after its deadline, is enough.\<close>

lemma probe_leaks:
  "case go_on probed_call 6000 0 fresh_locals opened of (Inl l, cb) \<Rightarrow>
      (case on_auth probed_call 9000 AuthOk l cb of (Inr (GaveUp e _), cb) \<Rightarrow>
         le_outcome e = ''backend-timeout'' \<and> probes_lost \<lparr>bs_failures = 1, bs_windowSec = 10, bs_openSec = 5, bs_halfOpenProbes = 1\<rparr> ''r|u'' cb
       | _ \<Rightarrow> False)
    | _ \<Rightarrow> False"
  by (simp add: go_on_def pick_backend.simps entry_at_def breakerKey_def probed_call_def opened_def fresh_locals_def maxAttempts_def
      br_tryAcquire_def br_state_def observe_def br_entry_def on_auth_def give_up_def probes_lost_def or_else_def Let_def)

end
