(* ===== verification/Upstream.thy ===== *)
theory Upstream
  imports Resolution Routing Dispatch Template
begin

text \<open>
  What a validated request becomes (\<^verbatim>\<open>handleRequest\<close> of \<^verbatim>\<open>data-plane/src/pipeline.ts\<close>, steps 13 to 16, and
  \<^verbatim>\<open>data-plane/src/trace.ts\<close>): the method, path, query, headers and body the backend is sent, the record a Kafka route produces, the
  WebSocket a route hands over, and the cached answer a request may get instead. The runtime's serializer and parser of JSON, its parser
  of URLs, the random identifiers of a trace and what becomes of a SOAP answer with an element called \<^verbatim>\<open>__proto__\<close> are arguments.

  Shown here: what identifies the caller to the gateway stays at the gateway, and what the backend is told of the caller's address
  is what the gateway knows; an answer from the cache is one that was stored for the same key.
\<close>

declare map_of_eq_Some_iff [simp del] Some_eq_map_of_iff [simp del]

section \<open>Definitions: trace context\<close>

record TraceContext =
  tc_traceId :: string
  tc_spanId :: string
  tc_parentSpanId :: "string option"
  tc_flags :: string
  tc_header :: string
  tc_continued :: bool

definition traceparent_parts :: "string \<Rightarrow> (string \<times> string \<times> string \<times> string) option" where
  "traceparent_parts s = (case js_split CHR ''-'' s of
       [version, traceId, spanId, flags] \<Rightarrow>
         if hex_id 2 version \<and> hex_id 32 traceId \<and> hex_id 16 spanId \<and> hex_id 2 flags then Some (version, traceId, spanId, flags) else None
     | _ \<Rightarrow> None)"

definition traceContextFrom :: "string \<Rightarrow> string \<Rightarrow> string option \<Rightarrow> TraceContext" where
  "traceContextFrom freshSpan freshTrace traceparent =
     (case Option.bind traceparent (\<lambda>h. traceparent_parts (js_trim h)) of
        Some (version, traceId, parent, flags) \<Rightarrow>
          if version = ''00'' \<and> traceId \<noteq> replicate 32 CHR ''0'' \<and> parent \<noteq> replicate 16 CHR ''0''
          then \<lparr>tc_traceId = traceId, tc_spanId = freshSpan, tc_parentSpanId = Some parent, tc_flags = flags,
                tc_header = js_join ''-'' [''00'', traceId, freshSpan, flags], tc_continued = True\<rparr>
          else \<lparr>tc_traceId = freshTrace, tc_spanId = freshSpan, tc_parentSpanId = None, tc_flags = ''01'',
                tc_header = js_join ''-'' [''00'', freshTrace, freshSpan, ''01''], tc_continued = False\<rparr>
      | None \<Rightarrow> \<lparr>tc_traceId = freshTrace, tc_spanId = freshSpan, tc_parentSpanId = None, tc_flags = ''01'',
                tc_header = js_join ''-'' [''00'', freshTrace, freshSpan, ''01''], tc_continued = False\<rparr>)"

definition MAX_TRACESTATE_BYTES :: nat where "MAX_TRACESTATE_BYTES = 512"

definition traceStateFor :: "TraceContext \<Rightarrow> string option \<Rightarrow> string option" where
  "traceStateFor ctx tracestate =
     (if \<not> tc_continued ctx then None
      else (case tracestate of
          None \<Rightarrow> None
        | Some h \<Rightarrow> (let v = js_trim h in if v = [] \<or> MAX_TRACESTATE_BYTES < length v then None else Some v)))"

section \<open>Definitions: query parameters\<close>

text \<open>The runtime's \<^verbatim>\<open>URLSearchParams\<close>, a list of pairs, and its serializer.\<close>

definition params_delete :: "string \<Rightarrow> (string \<times> string) list \<Rightarrow> (string \<times> string) list" where
  "params_delete name ps = filter (\<lambda>(k, _). k \<noteq> name) ps"

fun params_set :: "string \<Rightarrow> string \<Rightarrow> (string \<times> string) list \<Rightarrow> (string \<times> string) list" where
  "params_set name v [] = [(name, v)]"
| "params_set name v ((k, u) # ps) = (if k = name then (k, v) # params_delete name ps else (k, u) # params_set name v ps)"

definition form_char :: "char \<Rightarrow> string" where
  "form_char c =
     (if char_in CHR ''A'' CHR ''Z'' c \<or> char_in CHR ''a'' CHR ''z'' c \<or> char_in CHR ''0'' CHR ''9'' c \<or> c \<in> set ''*-._'' then [c]
      else if c = CHR '' '' then ''+''
      else [CHR ''%'', hex_char (of_char c div 16), hex_char (of_char c mod 16)])"

definition form_encode :: "string \<Rightarrow> string" where
  "form_encode s = concat (map form_char s)"

definition params_string :: "(string \<times> string) list \<Rightarrow> string" where
  "params_string ps = js_join ''&'' (map (\<lambda>(k, v). form_encode k @ ''='' @ form_encode v) ps)"

definition query_string :: "(string \<times> string) list \<Rightarrow> string" where
  "query_string ps = (let s = params_string ps in if s = [] then [] else CHR ''?'' # s)"

section \<open>Definitions: the outgoing request\<close>

record Runtime =
  rn_stringify :: "jsval \<Rightarrow> bytes"
  rn_parse :: "bytes \<Rightarrow> jsval option"
  rn_reprototyped :: "bytes \<Rightarrow> bytes option option"
  rn_parseUrl :: "string \<Rightarrow> (string \<times> string) option"
  rn_spanId :: string
  rn_traceId :: string

record Outbound =
  ob_method :: string
  ob_path :: string
  ob_params :: "(string \<times> string) list"
  ob_headers :: http_headers
  ob_resolved :: Resolved
  ob_passCompressed :: bool
  ob_cacheUnit :: "CacheUnit option"

definition cache_unit :: "PolicyDocument \<Rightarrow> OperationUnits \<Rightarrow> CacheUnit option" where
  "cache_unit policy own = (case ou_cache own of Some u \<Rightarrow> Some u | None \<Rightarrow> pd_cache policy)"

definition response_state :: "ValidateUnit \<Rightarrow> ValidationState" where
  "response_state validate = or_else (vu_response validate) VDisabled"

definition soap_to_json :: "PolicyDocument \<Rightarrow> bool" where
  "soap_to_json policy \<longleftrightarrow> (case pd_transform policy of Some t \<Rightarrow> tr_soapToJson t | None \<Rightarrow> False)"

definition pass_compressed :: "HttpRequest \<Rightarrow> ConfigRoute \<Rightarrow> Validated \<Rightarrow> bool \<Rightarrow> bool" where
  "pass_compressed req route v capture \<longleftrightarrow>
     \<not> capture \<and> js_trim (or_else (header (req_headers req) ''accept-encoding'') []) \<noteq> [] \<and>
     response_state (vld_validate v) = VDisabled \<and> \<not> soap_to_json (cr_policy route) \<and> cr_kind route \<noteq> Mcp \<and> cr_kind route \<noteq> A2a \<and>
     \<not> (cache_unit (cr_policy route) (vld_units v) \<noteq> None \<and> isCacheable (req_method req)) \<and> \<not> sse_on (cr_policy route)"

definition rewrite_template :: "PolicyDocument \<Rightarrow> string option" where
  "rewrite_template policy = (case Option.bind (pd_rewrite policy) rw_path of Some t \<Rightarrow> if t = [] then None else Some t | None \<Rightarrow> None)"

definition rewrite_path :: "HttpRequest \<Rightarrow> ConfigRoute \<Rightarrow> (string, string) jsmap \<Rightarrow> string" where
  "rewrite_path req route pathParams =
     (let strip = or_else (Option.bind (pd_rewrite (cr_policy route)) rw_stripBasePath) True in
      case rewrite_template (cr_policy route) of
        None \<Rightarrow> if strip then relative_path req route else req_pathname req
      | Some template \<Rightarrow>
          (let rendered = renderPathTemplate template pathParams in
           if strip then rendered else (if cr_basePath route = ''/'' then [] else cr_basePath route) @ rendered))"

text \<open>\<^verbatim>\<open>kafkaProduce\<close>: the whole body becomes the value of one record.\<close>

definition kafka_body :: "Runtime \<Rightarrow> jsval \<Rightarrow> bytes" where
  "kafka_body rt v = rn_stringify rt (JObj [(''value'', JObj [(''type'', JStr ''JSON''), (''data'', v)])])"

definition kafka_path :: "KafkaProduceUnit \<Rightarrow> string \<Rightarrow> string" where
  "kafka_path unit topic =
     ''/v3/clusters/'' @ kp_clusterId unit @ ''/topics/'' @ encodeURIComponent topic @ ''/records''"

definition address ::
  "Gateway \<Rightarrow> Platform \<Rightarrow> Runtime \<Rightarrow> HttpRequest \<Rightarrow> Admitted \<Rightarrow> Validated \<Rightarrow> (string \<times> string \<times> Resolved) phase" where
  "address gw pf rt req adm v =
     (let route = rcv_route (adm_received adm); rs = vld_resolved v;
          refuse = (\<lambda>status outcome. Stop (deny gw req (Some route) status outcome (adm_rateHeaders adm))) in
      case pd_kafkaProduce (cr_policy route) of
        None \<Rightarrow> Go (req_method req, rewrite_path req route (rs_pathParams rs), rs)
      | Some unit \<Rightarrow>
          (case (if rs_operation rs = None then None else map_of (rs_pathParams rs) ''topic'') of
             None \<Rightarrow> refuse 500 ''route-misconfigured''
           | Some topic \<Rightarrow>
               if topic = [] then refuse 500 ''route-misconfigured''
               else if \<not> json_request req then refuse 415 ''content-type''
               else (case readJsonBody (pf_validators pf) (or_else (rs_buffered rs) []) (vld_validate v) of
                   None \<Rightarrow> refuse 400 ''validation-rejected''
                 | Some value \<Rightarrow> Go (''POST'', kafka_path unit topic, rs\<lparr>rs_buffered := Some (kafka_body rt value), rs_upstream := None\<rparr>))))"

definition rewrite_query :: "HttpRequest \<Rightarrow> ConfigRoute \<Rightarrow> TemplateContext \<Rightarrow> (string \<times> string) list" where
  "rewrite_query req route ctx =
     (let policy = cr_policy route; unit = pd_rewrite policy;
          ps = (if rewrite_template policy \<noteq> None \<and> Option.bind unit rw_copyUnmatchedParams = Some False then [] else req_query req);
          ps = (case auth_subscriptionKey policy of
                  Some k \<Rightarrow> if sk_in k = InQuery \<and> \<not> sk_forwardCredentials k then params_delete (sk_name k) ps else ps
                | None \<Rightarrow> ps);
          ps = foldl (\<lambda>ps name. params_delete name ps) ps (or_else (Option.bind unit rw_queryRemove) [])
      in foldl (\<lambda>ps (name, value). params_set name (render value ctx) ps) ps (or_else (Option.bind unit rw_querySet) []))"

text \<open>The rules of \<^verbatim>\<open>headers.request\<close> and \<^verbatim>\<open>headers.response\<close>.\<close>

definition header_rules :: "HeaderRulesUnit option \<Rightarrow> TemplateContext \<Rightarrow> http_headers \<Rightarrow> http_headers" where
  "header_rules unit ctx h =
     (let h = foldl (\<lambda>h name. header_delete name h) h (or_else (Option.bind unit hr_remove) []);
          h = foldl (\<lambda>h (name, value). header_set name (render value ctx) h) h (or_else (Option.bind unit hr_set) []);
          h = foldl (\<lambda>h (name, value). header_append name (render value ctx) h) h (or_else (Option.bind unit hr_append) [])
      in foldl (\<lambda>h (name, value). if header_has name h then h else header_set name (render value ctx) h) h
           (or_else (Option.bind unit hr_skip) []))"

definition owns_authorization :: "PolicyDocument \<Rightarrow> bool" where
  "owns_authorization policy \<longleftrightarrow>
     auth_subscriptionKey policy \<noteq> None \<or> auth_basic policy \<noteq> None \<or> auth_jwt policy \<noteq> None \<or> auth_introspection policy \<noteq> None"

definition forwards_credentials :: "PolicyDocument \<Rightarrow> bool" where
  "forwards_credentials policy \<longleftrightarrow>
     (case auth_subscriptionKey policy of Some u \<Rightarrow> sk_forwardCredentials u | None \<Rightarrow> False) \<or>
     (case auth_basic policy of Some u \<Rightarrow> ba_forwardCredentials u | None \<Rightarrow> False) \<or>
     (case auth_jwt policy of Some u \<Rightarrow> jw_forwardCredentials u | None \<Rightarrow> False) \<or>
     (case auth_introspection policy of Some u \<Rightarrow> in_forwardCredentials u | None \<Rightarrow> False)"

text \<open>Step 14 before the rules.\<close>

definition relayed_headers :: "HttpRequest \<Rightarrow> ConfigRoute \<Rightarrow> TraceContext \<Rightarrow> bool \<Rightarrow> http_headers" where
  "relayed_headers req route trace passCompressed =
     (let policy = cr_policy route;
          h = header_delete ''content-length'' (header_delete ''host'' (carry_over (req_headers req)));
          h = (if passCompressed then h else header_set ''accept-encoding'' ''identity'' h);
          h = header_set ''traceparent'' (tc_header trace) h;
          h = (case traceStateFor trace (header (req_headers req) ''tracestate'') of
                 Some s \<Rightarrow> header_set ''tracestate'' s h | None \<Rightarrow> header_delete ''tracestate'' h);
          h = (case auth_subscriptionKey policy of
                 Some k \<Rightarrow> if \<not> sk_forwardCredentials k \<and> sk_in k = InHeader then header_delete (sk_name k) h else h
               | None \<Rightarrow> h)
      in if owns_authorization policy \<and> \<not> forwards_credentials policy then header_delete ''authorization'' h else h)"

definition forwarded_for :: "Gateway \<Rightarrow> HttpRequest \<Rightarrow> string" where
  "forwarded_for gw req =
     (if \<not> gw_trustedPeer gw then gw_clientIp gw
      else (let peer = or_else (gw_peerIp gw) (gw_clientIp gw) in
        case header (req_headers req) ''x-forwarded-for'' of
          None \<Rightarrow> peer
        | Some inbound \<Rightarrow> if inbound = [] then peer else inbound @ '', '' @ peer))"

definition OWN_HEADERS :: "string list" where
  "OWN_HEADERS = [''x-forwarded-for'', ''x-forwarded-proto'', ''x-forwarded-host'', ''x-request-id'']"

definition out_headers :: "Gateway \<Rightarrow> HttpRequest \<Rightarrow> ConfigRoute \<Rightarrow> TemplateContext \<Rightarrow> TraceContext \<Rightarrow> bool \<Rightarrow> http_headers" where
  "out_headers gw req route ctx trace passCompressed =
     (let h = header_rules (headers_request (cr_policy route)) ctx (relayed_headers req route trace passCompressed);
          h = (if pd_kafkaProduce (cr_policy route) \<noteq> None then header_set ''content-type'' ''application/json'' h else h);
          h = header_set ''x-forwarded-for'' (forwarded_for gw req) h;
          h = header_set ''x-forwarded-proto'' (takeWhile (\<lambda>c. c \<noteq> CHR '':'') (req_protocol req)) h;
          h = header_set ''x-forwarded-host'' (or_else (header (req_headers req) ''host'') []) h
      in header_set ''x-request-id'' (gw_requestId gw) h)"

definition outbound ::
  "Gateway \<Rightarrow> Platform \<Rightarrow> Runtime \<Rightarrow> HttpRequest \<Rightarrow> Admitted \<Rightarrow> Validated \<Rightarrow> bool \<Rightarrow> Outbound phase" where
  "outbound gw pf rt req adm v capture =
     (let route = rcv_route (adm_received adm); ctx = rs_context (vld_resolved v); pass = pass_compressed req route v capture;
          trace = traceContextFrom (rn_spanId rt) (rn_traceId rt) (header (req_headers req) ''traceparent'') in
      and_then (address gw pf rt req adm v) (\<lambda>(method, path, rs).
        Go \<lparr>ob_method = method, ob_path = path, ob_params = rewrite_query req route ctx,
          ob_headers = out_headers gw req route ctx trace pass, ob_resolved = rs, ob_passCompressed = pass,
          ob_cacheUnit = cache_unit (cr_policy route) (vld_units v)\<rparr>))"

section \<open>Definitions: WebSockets and the cache\<close>

text \<open>What the instance keeps that these steps read and write.\<close>

record Edge =
  ed_streams :: StreamRegistry
  ed_cache :: ResponseCache
  ed_breaker :: CircuitBreaker

record Upgrade =
  ug_target :: string
  ug_headers :: http_headers
  ug_resourceId :: string
  ug_subscriptionId :: "string option"

definition firstBackend :: "ConfigRoute \<Rightarrow> nat \<Rightarrow> int \<Rightarrow> CircuitBreaker \<Rightarrow> BackendEntry option \<times> CircuitBreaker" where
  "firstBackend route cursor now cb =
     (let settings = breakerOf (cr_policy route); pool = cbk_pool (cr_backend route);
          order = selectionOrder pool (cbk_rule (cr_backend route)) cursor (healthy cb (cr_resourceId route) settings now)
      in (case order of [] \<Rightarrow> None | e # _ \<Rightarrow> Some e, observed cb (cr_resourceId route) settings now pool))"

definition wants_upgrade :: "HttpRequest \<Rightarrow> PolicyDocument \<Rightarrow> bool" where
  "wants_upgrade req policy \<longleftrightarrow> (case pd_passthrough policy of Some p \<Rightarrow> pt_websocket p | None \<Rightarrow> False) \<and>
     map_option toLowerCase (header (req_headers req) ''upgrade'') = Some ''websocket''"

definition stream_refused :: "Gateway \<Rightarrow> HttpRequest \<Rightarrow> ConfigRoute \<Rightarrow> stream_admission \<Rightarrow> (string, string) jsmap \<Rightarrow> Reply" where
  "stream_refused gw req route admission rateHeaders =
     deny gw req (Some route) 503 (if admission = RouteFull then ''upgrade-rejected'' else ''upgrade-saturated'')
       (mset_key ''retry-after'' ''5'' rateHeaders)"

definition to_websocket :: "string \<Rightarrow> string" where
  "to_websocket url = (if starts_with ''http'' url then ''ws'' @ drop 4 url else url)"

definition upgrade ::
  "Gateway \<Rightarrow> Runtime \<Rightarrow> HttpRequest \<Rightarrow> Admitted \<Rightarrow> Outbound \<Rightarrow> nat \<Rightarrow> int \<Rightarrow> Edge \<Rightarrow> Upgrade phase \<times> Edge" where
  "upgrade gw rt req adm ob cursor now ed =
     (let route = rcv_route (adm_received adm) in
      case admit (ed_streams ed) (cr_resourceId route) (pd_passthrough (cr_policy route)) of
        StreamOk \<Rightarrow>
          (case firstBackend route cursor now (ed_breaker ed) of
             (None, cb) \<Rightarrow> (Stop (deny gw req (Some route) 503 ''pool-open'' (adm_rateHeaders adm)), ed\<lparr>ed_breaker := cb\<rparr>)
           | (Some backend, cb) \<Rightarrow>
               (case joinBackend (rn_parseUrl rt) (be_url backend) (ob_path ob) (query_string (ob_params ob)) of
                  None \<Rightarrow> Crash
                | Some url \<Rightarrow> Go \<lparr>ug_target = to_websocket url,
                    ug_headers = filter (\<lambda>(name, _). name \<notin> {''sec-websocket-key'', ''sec-websocket-version'', ''upgrade''}) (ob_headers ob),
                    ug_resourceId = cr_resourceId route, ug_subscriptionId = map_option sub_id (cl_subscription (adm_caller adm))\<rparr>,
                ed\<lparr>ed_breaker := cb\<rparr>))
      | admission \<Rightarrow> (Stop (stream_refused gw req route admission (adm_rateHeaders adm)), ed))"

definition cache_key :: "Gateway \<Rightarrow> HttpRequest \<Rightarrow> Admitted \<Rightarrow> Outbound \<Rightarrow> string option" where
  "cache_key gw req adm ob = (case ob_cacheUnit ob of
       None \<Rightarrow> None
     | Some unit \<Rightarrow>
         if isCacheable (req_method req)
         then Some (cacheKeyFor \<lparr>ck_configDigest = rt_digest (gw_table gw), ck_routeId = cr_resourceId (rcv_route (adm_received adm)),
           ck_method = req_method req, ck_pathAndQuery = req_pathname req @ req_search req,
           ck_subscriptionId = map_option sub_id (cl_subscription (adm_caller adm)), ck_vary = cu_vary unit,
           ck_headers = header (req_headers req), ck_unit = unit\<rparr>)
         else None)"

definition hit_headers :: "(string, string) jsmap \<Rightarrow> int \<Rightarrow> CachedResponse \<Rightarrow> http_headers" where
  "hit_headers rateHeaders now hit =
     header_set ''x-cache'' ''hit'' (header_set ''age'' (show_int ((now - cr_storedAtMs hit) div 1000))
       (set_all rateHeaders (response_headers (cr_headers hit))))"

text \<open>Where a request goes after step 16.\<close>

datatype request_end =
    Upgraded Upgrade
  | FromCache Reply string
  | Proxied Outbound "string option"

definition upstream_side ::
  "Gateway \<Rightarrow> Platform \<Rightarrow> Runtime \<Rightarrow> HttpRequest \<Rightarrow> Admitted \<Rightarrow> Validated \<Rightarrow> bool \<Rightarrow> nat \<Rightarrow> int \<Rightarrow> Edge \<Rightarrow> request_end phase \<times> Edge" where
  "upstream_side gw pf rt req adm v capture cursor now ed =
     next_phase (outbound gw pf rt req adm v capture, ed) (\<lambda>ob ed.
       if wants_upgrade req (cr_policy (rcv_route (adm_received adm)))
       then next_phase (upgrade gw rt req adm ob cursor now ed) (\<lambda>u ed. (Go (Upgraded u), ed))
       else (case cache_key gw req adm ob of
           None \<Rightarrow> (Go (Proxied ob None), ed)
         | Some key \<Rightarrow> (case cache_get (ed_cache ed) key now of
               (None, cache) \<Rightarrow> (Go (Proxied ob (Some key)), ed\<lparr>ed_cache := cache\<rparr>)
             | (Some hit, cache) \<Rightarrow>
                 (Go (FromCache (finish gw req (Some (rcv_route (adm_received adm))) (cr_status hit)
                   (hit_headers (adm_rateHeaders adm) now hit) ''cache-hit'' None) (cr_body hit)), ed\<lparr>ed_cache := cache\<rparr>))))"

section \<open>Headers the rules do not touch\<close>

lemma foldl_keeps: "P h \<Longrightarrow> (\<And>h x. x \<in> set xs \<Longrightarrow> P h \<Longrightarrow> P (f h x)) \<Longrightarrow> P (foldl f h xs)"
  by (induction xs arbitrary: h) auto

definition rules_add :: "HeaderRulesUnit option \<Rightarrow> string \<Rightarrow> bool" where
  "rules_add unit n \<longleftrightarrow> list_ex (\<lambda>(k, _). toLowerCase k = n)
     (or_else (Option.bind unit hr_set) [] @ or_else (Option.bind unit hr_append) [] @ or_else (Option.bind unit hr_skip) [])"

lemma header_rules_absent:
  assumes rules: "\<not> rules_add unit (toLowerCase n)" and "header h n = None"
  shows "header (header_rules unit ctx h) n = None"
proof -
  let ?out = "\<lambda>h. header h n = None" and ?mine = "\<lambda>rs :: (string \<times> string) list. \<exists>(k, v) \<in> set rs. toLowerCase k = toLowerCase n"
  have removed: "?out h \<Longrightarrow> ?out (foldl (\<lambda>h name. header_delete name h) h names)" for h names
    by (rule foldl_keeps [of ?out]) simp_all
  have added: "?out h \<Longrightarrow> \<not> ?mine rs \<Longrightarrow> ?out (foldl (\<lambda>h (name, value). header_set name (render value ctx) h) h rs)" for h rs
    by (rule foldl_keeps [of ?out]) auto
  have appended: "?out h \<Longrightarrow> \<not> ?mine rs \<Longrightarrow> ?out (foldl (\<lambda>h (name, value). header_append name (render value ctx) h) h rs)" for h rs
    by (rule foldl_keeps [of ?out]) auto
  have skipped: "?out h \<Longrightarrow> \<not> ?mine rs \<Longrightarrow>
      ?out (foldl (\<lambda>h (name, value). if header_has name h then h else header_set name (render value ctx) h) h rs)" for h rs
    by (rule foldl_keeps [of ?out]) auto
  have "\<not> ?mine (or_else (Option.bind unit hr_set) [])" "\<not> ?mine (or_else (Option.bind unit hr_append) [])"
    "\<not> ?mine (or_else (Option.bind unit hr_skip) [])"
    using rules by (auto simp: rules_add_def list_ex_iff)
  then show ?thesis unfolding header_rules_def Let_def using assms(2) by (intro skipped appended added removed)
qed

text \<open>What is kept from the backend unless the route's rules put it there: the hop's own headers, the subscription key and the
  credential in \<^verbatim>\<open>Authorization\<close>.\<close>

definition withheld :: "PolicyDocument \<Rightarrow> string list" where
  "withheld policy = HOP_BY_HOP @ [''host'', ''content-length''] @
     (case auth_subscriptionKey policy of
        Some k \<Rightarrow> if sk_in k = InHeader \<and> \<not> sk_forwardCredentials k then [toLowerCase (sk_name k)] else [] | None \<Rightarrow> []) @
     (if owns_authorization policy \<and> \<not> forwards_credentials policy then [''authorization''] else [])"

lemma withheld_cases:
  assumes "n \<in> set (withheld policy)"
  obtains (hop) "n \<in> set HOP_BY_HOP" | (host) "n = ''host'' \<or> n = ''content-length''"
    | (key) k where "auth_subscriptionKey policy = Some k" "sk_in k = InHeader" "\<not> sk_forwardCredentials k" "n = toLowerCase (sk_name k)"
    | (auth) "n = ''authorization''" "owns_authorization policy" "\<not> forwards_credentials policy"
  using assms by (cases "auth_subscriptionKey policy") (auto simp: withheld_def split: if_splits)

lemma lower_names:
  "list_all (\<lambda>m. toLowerCase m = m \<and> m \<notin> {''accept-encoding'', ''traceparent'', ''tracestate''}) (''host'' # ''content-length'' # HOP_BY_HOP)"
  "toLowerCase ''authorization'' = ''authorization''" "toLowerCase ''accept-encoding'' = ''accept-encoding''"
  "toLowerCase ''traceparent'' = ''traceparent''" "toLowerCase ''tracestate'' = ''tracestate''"
  "toLowerCase ''host'' = ''host''" "toLowerCase ''content-length'' = ''content-length''"
  by code_simp+

lemma hop_lower:
  "n \<in> set HOP_BY_HOP \<or> n = ''host'' \<or> n = ''content-length'' \<Longrightarrow>
   toLowerCase n = n \<and> n \<notin> {''accept-encoding'', ''traceparent'', ''tracestate''}"
  using lower_names(1) unfolding list_all_iff by (metis list.set_intros)

lemma withheld_lower:
  assumes "n \<in> set (withheld policy)"
  shows "toLowerCase n = n"
  using assms
proof (cases rule: withheld_cases)
  case hop
  with hop_lower show ?thesis by blast
next
  case host
  with hop_lower show ?thesis by blast
qed (simp_all add: lower_names)

text \<open>Setting another header does not bring one back, and removing one does not either.\<close>

lemma absent_after:
  "header h n = None \<Longrightarrow> toLowerCase m \<noteq> toLowerCase n \<Longrightarrow> header (header_set m v h) n = None"
  "header h n = None \<Longrightarrow> header (header_delete m h) n = None"
  by simp_all

lemma relayed_absent:
  assumes "n \<in> set (withheld (cr_policy route))"
  shows "header (relayed_headers req route trace pass) n = None"
  using assms
proof (cases rule: withheld_cases)
  case key
  then show ?thesis by (simp add: relayed_headers_def Let_def)
next
  case auth
  then show ?thesis by (simp add: relayed_headers_def Let_def)
next
  case hop
  then have n: "toLowerCase n = n" "n \<notin> {''accept-encoding'', ''traceparent'', ''tracestate''}" using hop_lower by blast+
  with hop carry_over_hop_free [of n "req_headers req"] have "header (carry_over (req_headers req)) n = None" by simp
  with n show ?thesis unfolding relayed_headers_def Let_def
    by (auto simp: lower_names intro!: absent_after split: option.split)
next
  case host
  then have n: "toLowerCase n = n" "n \<notin> {''accept-encoding'', ''traceparent'', ''tracestate''}" using hop_lower by blast+
  from host have "header (header_delete ''content-length'' (header_delete ''host'' (carry_over (req_headers req)))) n = None"
    by (auto simp: lower_names)
  with n show ?thesis unfolding relayed_headers_def Let_def
    by (auto simp: lower_names intro!: absent_after split: option.split)
qed

lemma params_delete_names: "fst ` set (params_delete name ps) = fst ` set ps - {name}"
  by (auto simp: params_delete_def)

lemma params_set_names: "fst ` set (params_set name v ps) = insert name (fst ` set ps)"
  by (induction name v ps rule: params_set.induct) (auto simp: params_delete_names)

lemma rewrite_query_key:
  assumes "auth_subscriptionKey (cr_policy route) = Some k" "sk_in k = InQuery" "\<not> sk_forwardCredentials k"
    "sk_name k \<notin> fst ` set (or_else (Option.bind (pd_rewrite (cr_policy route)) rw_querySet) [])"
  shows "sk_name k \<notin> fst ` set (rewrite_query req route ctx)"
proof -
  let ?out = "\<lambda>ps :: (string \<times> string) list. sk_name k \<notin> fst ` set ps"
  have removed: "?out ps \<Longrightarrow> ?out (foldl (\<lambda>ps name. params_delete name ps) ps names)" for ps names
    by (rule foldl_keeps [of ?out]) (auto simp: params_delete_names)
  have added: "?out (foldl (\<lambda>ps (name, value). params_set name (render value ctx) ps) ps rules)"
    if "?out ps" "sk_name k \<notin> fst ` set rules" for ps :: "(string \<times> string) list" and rules
  proof (rule foldl_keeps [of ?out])
    fix h and x :: "string \<times> string"
    assume x: "x \<in> set rules" and h: "?out h"
    obtain a b where ab: "x = (a, b)" by (cases x)
    with x that(2) have "a \<noteq> sk_name k" by force
    with h have "?out (params_set a (render b ctx) h)" unfolding params_set_names by simp
    with ab show "?out (case x of (name, value) \<Rightarrow> params_set name (render value ctx) h)" by simp
  qed (use that in simp)
  have "?out (params_delete (sk_name k) ps)" for ps :: "(string \<times> string) list" by (simp add: params_delete_names)
  then show ?thesis unfolding rewrite_query_def Let_def
    by (intro added removed assms(4)) (simp add: assms(1-3))
qed

text \<open>C7: A caller's credentials stay at the gateway. Unless the route's own header or query rules write them, the backend is sent
  no hop-by-hop header, no host or length of the caller's, no subscription key and no \<^verbatim>\<open>Authorization\<close> the gateway owns and was
  not told to forward; and a caller that is not behind a trusted proxy cannot say where it calls from.\<close>

theorem credentials_stay_here:
  "(if n \<in> set (withheld (cr_policy route)) \<and> \<not> rules_add (headers_request (cr_policy route)) n \<and> n \<notin> set (''content-type'' # OWN_HEADERS)
    then header (out_headers gw req route ctx trace pass) n = None else True) \<and>
   (case auth_subscriptionKey (cr_policy route) of
      None \<Rightarrow> True
    | Some k \<Rightarrow>
        if sk_in k = InQuery \<and> \<not> sk_forwardCredentials k \<and>
           sk_name k \<notin> fst ` set (or_else (Option.bind (pd_rewrite (cr_policy route)) rw_querySet) [])
        then sk_name k \<notin> fst ` set (rewrite_query req route ctx) else True) \<and>
   header (out_headers gw req route ctx trace pass) ''x-forwarded-for'' =
     Some (if gw_trustedPeer gw then forwarded_for gw req else gw_clientIp gw)"
proof (intro conjI)
  show "if n \<in> set (withheld (cr_policy route)) \<and> \<not> rules_add (headers_request (cr_policy route)) n \<and> n \<notin> set (''content-type'' # OWN_HEADERS)
    then header (out_headers gw req route ctx trace pass) n = None else True"
  proof (split if_split, intro conjI impI)
    assume n: "n \<in> set (withheld (cr_policy route)) \<and> \<not> rules_add (headers_request (cr_policy route)) n \<and> n \<notin> set (''content-type'' # OWN_HEADERS)"
    then have lower: "toLowerCase n = n" using withheld_lower by blast
    have fixed: "toLowerCase ''content-type'' = ''content-type''" "toLowerCase ''x-forwarded-for'' = ''x-forwarded-for''"
      "toLowerCase ''x-forwarded-proto'' = ''x-forwarded-proto''" "toLowerCase ''x-forwarded-host'' = ''x-forwarded-host''"
      "toLowerCase ''x-request-id'' = ''x-request-id''" by code_simp+
    have "header (header_rules (headers_request (cr_policy route)) ctx (relayed_headers req route trace pass)) n = None"
      using n lower by (intro header_rules_absent relayed_absent) simp_all
    with n lower fixed show "header (out_headers gw req route ctx trace pass) n = None"
      by (auto simp: out_headers_def Let_def OWN_HEADERS_def)
  qed simp
  show "case auth_subscriptionKey (cr_policy route) of
      None \<Rightarrow> True
    | Some k \<Rightarrow>
        if sk_in k = InQuery \<and> \<not> sk_forwardCredentials k \<and>
           sk_name k \<notin> fst ` set (or_else (Option.bind (pd_rewrite (cr_policy route)) rw_querySet) [])
        then sk_name k \<notin> fst ` set (rewrite_query req route ctx) else True"
    using rewrite_query_key [of route] by (auto split: option.splits)
  have "toLowerCase ''x-forwarded-for'' \<noteq> toLowerCase ''x-forwarded-proto''" "toLowerCase ''x-forwarded-for'' \<noteq> toLowerCase ''x-forwarded-host''"
    "toLowerCase ''x-forwarded-for'' \<noteq> toLowerCase ''x-request-id''" by code_simp+
  then show "header (out_headers gw req route ctx trace pass) ''x-forwarded-for'' =
     Some (if gw_trustedPeer gw then forwarded_for gw req else gw_clientIp gw)"
    by (auto simp: out_headers_def Let_def forwarded_for_def)
qed

text \<open>Not so a token in a header of its own: only \<^verbatim>\<open>Authorization\<close> is taken out. And forwarding one credential forwards the other.\<close>

lemma token_header_forwarded:
  "toLowerCase n \<notin> set (withheld policy)" if
  "auth_jwt policy = Some \<lparr>jw_issuerRef = i, jw_headerName = Some n, jw_scheme = s, jw_audience = a, jw_requiredScopes = rs, jw_scopeMap = m,
     jw_clockSkewSec = c, jw_forwardCredentials = False\<rparr>" "toLowerCase n = ''x-token''" "auth_subscriptionKey policy = None"
  using that by (auto simp: withheld_def HOP_BY_HOP_def)

lemma key_forwarding_forwards_token:
  "auth_subscriptionKey policy = Some k \<Longrightarrow> sk_forwardCredentials k \<Longrightarrow> sk_in k = InHeader \<Longrightarrow> ''authorization'' \<notin> set (withheld policy)"
  by (auto simp: withheld_def HOP_BY_HOP_def forwards_credentials_def)

section \<open>Backends of a WebSocket, and cached answers\<close>

text \<open>A pool whose every backend is open still gives one: only an empty pool gives none.\<close>

lemma firstBackend_open: "fst (firstBackend route cursor now cb) = None \<longleftrightarrow> cbk_pool (cr_backend route) = []"
proof -
  let ?ok = "healthy cb (cr_resourceId route) (breakerOf (cr_policy route)) now"
  have "selectionOrder (cbk_pool (cr_backend route)) (cbk_rule (cr_backend route)) cursor ?ok = [] \<longleftrightarrow> cbk_pool (cr_backend route) = []"
    using selectionOrder_complete [of "cbk_pool (cr_backend route)" "cbk_rule (cr_backend route)" cursor ?ok]
    by (metis empty_is_image list.map_disc_iff set_empty)
  then show ?thesis by (auto simp: firstBackend_def Let_def split: list.split)
qed

lemma from_cache_stored:
  assumes "fst (upstream_side gw pf rt req adm v capture cursor now ed) = Go (FromCache reply body)"
  shows "\<exists>ob key hit. fst (next_phase (outbound gw pf rt req adm v capture, ed) (\<lambda>ob ed. (Go ob, ed))) = Go ob \<and>
    cache_key gw req adm ob = Some key \<and> map_of (rc_entries (ed_cache ed)) key = Some hit \<and> now < cr_expiresAtMs hit \<and>
    body = cr_body hit \<and> rp_status reply = cr_status hit"
  using assms
  by (auto simp: upstream_side_def next_phase_def cache_get_def finish_def split: phase.splits prod.splits option.splits if_splits)

end
