(* ===== verification/Response.thy ===== *)
theory Response
  imports Upstream
begin

text \<open>
  What becomes of a backend's answer (\<^verbatim>\<open>handleRequest\<close> of \<^verbatim>\<open>data-plane/src/pipeline.ts\<close>, steps 20 to 24): its headers, the event
  stream that is passed on, the answer that streams through, and the one that is read whole because it is validated, converted,
  cached or searched for a JSON-RPC error. Log lines, telemetry and timing headers are left out.

  Shown here: under blocking validation only an answer that conforms leaves the gateway; what leaves is what the backend sent, to
  the byte, unless a conversion was asked for; what the cache gains is a whole successful answer within its bound, under the key
  of the request it answers.
\<close>

declare map_of_eq_Some_iff [simp del] Some_eq_map_of_iff [simp del]

section \<open>Definitions: headers of the answer\<close>

record UpstreamResponse =
  ur_status :: nat
  ur_headers :: http_headers
  ur_body :: "body_stream option"

record Answer =
  an_status :: nat
  an_headers :: http_headers
  an_body :: "body_stream option"
  an_outcome :: string

definition vary_encoding :: "http_headers \<Rightarrow> http_headers" where
  "vary_encoding h =
     (if \<not> header_has ''content-encoding'' h then h
      else (let vary = or_else (header h ''vary'') [] in
        if list_ex (\<lambda>v. toLowerCase (js_trim v) = ''accept-encoding'') (js_split CHR '','' vary) then h
        else header_set ''vary'' (if vary = [] then ''Accept-Encoding'' else vary @ '', Accept-Encoding'') h))"

definition answer_headers :: "Gateway \<Rightarrow> HttpRequest \<Rightarrow> Admitted \<Rightarrow> Validated \<Rightarrow> Outbound \<Rightarrow> UpstreamResponse \<Rightarrow> http_headers" where
  "answer_headers gw req adm v ob up =
     (let route = rcv_route (adm_received adm); h = carry_over (ur_headers up);
          h = (if ob_passCompressed ob then vary_encoding h else header_delete ''content-length'' (header_delete ''content-encoding'' h));
          h = set_all (adm_rateHeaders adm) h;
          h = set_all (lifecycleHeaders (gw_utcString gw) route) h;
          h = set_all (corsHeaders route (header (req_headers req) ''origin'')) h;
          h = header_rules (headers_response (cr_policy route)) (rs_context (vld_resolved v)) h
      in header_set ''x-request-id'' (gw_requestId gw) h)"

definition isEventStream :: "http_headers \<Rightarrow> bool" where
  "isEventStream h \<longleftrightarrow> contains_str ''text/event-stream'' (toLowerCase (or_else (header h ''content-type'') []))"

section \<open>Definitions: the answer\<close>

definition rpc_route :: "ConfigRoute \<Rightarrow> bool" where
  "rpc_route route \<longleftrightarrow> cr_kind route = Mcp \<or> cr_kind route = A2a"

definition success :: "nat \<Rightarrow> bool" where
  "success status \<longleftrightarrow> 200 \<le> status \<and> status < 300"

definition checks_response :: "Validated \<Rightarrow> bool" where
  "checks_response v \<longleftrightarrow> response_state (vld_validate v) \<noteq> VDisabled \<and> vld_artifact v \<noteq> None \<and> operation_ok (vld_resolved v)"

definition wants_response_work :: "ConfigRoute \<Rightarrow> Validated \<Rightarrow> string option \<Rightarrow> nat \<Rightarrow> bool" where
  "wants_response_work route v cacheKey status \<longleftrightarrow>
     checks_response v \<or> soap_to_json (cr_policy route) \<or> rpc_route route \<or> cacheKey \<noteq> None \<and> success status"

definition plain_outcome :: "nat \<Rightarrow> string" where
  "plain_outcome status = (if 400 \<le> status then ''upstream-error'' else ''ok'')"

definition rpcErrorInBody :: "Runtime \<Rightarrow> bytes \<Rightarrow> http_headers \<Rightarrow> bool" where
  "rpcErrorInBody rt body h \<longleftrightarrow> body \<noteq> [] \<and> matchesMedia (mediaTypeOf (header h ''content-type'')) JSON_MEDIA \<and>
     (case rn_parse rt body of Some (JObj kvs) \<Rightarrow> map_of kvs ''error'' \<noteq> None | _ \<Rightarrow> False)"

definition response_cap :: "Gateway \<Rightarrow> Validated \<Rightarrow> nat" where
  "response_cap gw v = min (or_else (Option.bind (vu_always (vld_validate v)) va_maxBodyBytes) (gw_maxBodyBytes gw)) (gw_maxBodyBytes gw)"

text \<open>An event stream takes a place in the registry of streams.\<close>

definition sse_answer ::
  "Gateway \<Rightarrow> HttpRequest \<Rightarrow> Admitted \<Rightarrow> http_headers \<Rightarrow> UpstreamResponse \<Rightarrow> int \<Rightarrow> Edge \<Rightarrow> Answer phase \<times> Edge" where
  "sse_answer gw req adm h up now ed =
     (let route = rcv_route (adm_received adm) in
      case admit (ed_streams ed) (cr_resourceId route) (pd_passthrough (cr_policy route)) of
        StreamOk \<Rightarrow>
          (Go \<lparr>an_status = ur_status up, an_headers = h, an_body = ur_body up, an_outcome = ''ok''\<rparr>,
           if ur_body up = None then ed
           else ed\<lparr>ed_streams := snd (reg_open (ed_streams ed)
             \<lparr>sh_id = 0, sh_kind = SseStream, sh_resourceId = cr_resourceId route,
              sh_subscriptionId = map_option sub_id (cl_subscription (adm_caller adm)), sh_openedAtMs = now, sh_bytesIn = 0, sh_bytesOut = 0\<rparr>)\<rparr>)
      | admission \<Rightarrow> (Stop (stream_refused gw req route admission (adm_rateHeaders adm)), ed))"

definition streamed_answer :: "Gateway \<Rightarrow> HttpRequest \<Rightarrow> Admitted \<Rightarrow> http_headers \<Rightarrow> UpstreamResponse \<Rightarrow> bool \<Rightarrow> Answer phase" where
  "streamed_answer gw req adm h up capture =
     (let answer = (\<lambda>body. Go \<lparr>an_status = ur_status up, an_headers = h, an_body = body, an_outcome = plain_outcome (ur_status up)\<rparr>) in
      case ur_body up of
        None \<Rightarrow> answer None
      | Some s \<Rightarrow>
          if \<not> capture then answer (Some s)
          else (case takePrefix s (MAX_LOGGED_BODY_BYTES + 1) of
              None \<Rightarrow> Stop (deny gw req (Some (rcv_route (adm_received adm))) 502 ''upstream-error'' (adm_rateHeaders adm))
            | Some (_, t) \<Rightarrow> answer (Some t)))"

definition whole_stream :: "bytes \<Rightarrow> body_stream" where
  "whole_stream b = \<lparr>st_chunks = [b], st_breaks = False\<rparr>"

text \<open>Step 23, on the converted body.\<close>

definition cache_store ::
  "string option \<Rightarrow> CacheUnit option \<Rightarrow> nat \<Rightarrow> http_headers \<Rightarrow> bytes \<Rightarrow> int \<Rightarrow> ResponseCache \<Rightarrow> http_headers \<times> ResponseCache" where
  "cache_store cacheKey unit status h out now cache = (case (cacheKey, unit) of
       (Some key, Some u) \<Rightarrow>
         if success status \<and> length out \<le> or_else (cu_maxBodyBytes u) (1024 * 1024)
         then (let h = (case downstreamCacheControl u of Some c \<Rightarrow> header_set ''cache-control'' c h | None \<Rightarrow> h) in
           (header_set ''x-cache'' ''miss'' h,
            cache_set cache key \<lparr>cr_status = status, cr_headers = filter (\<lambda>(name, _). name \<noteq> ''age'' \<and> name \<noteq> ''x-cache'') h,
              cr_body = map char_of out, cr_storedAtMs = now, cr_expiresAtMs = now + int (cu_ttlSec u) * 1000\<rparr>))
         else (h, cache)
     | _ \<Rightarrow> (h, cache))"

text \<open>The JSON a SOAP answer is converted to, if it is; \<open>None\<close> when the conversion throws.\<close>

definition converted_body :: "Gateway \<Rightarrow> Runtime \<Rightarrow> ConfigRoute \<Rightarrow> bytes \<Rightarrow> bytes option option" where
  "converted_body gw rt route body =
     (let xml = cl_xml (rt_limits (gw_table gw)) in
      if \<not> soap_to_json (cr_policy route) then Some None
      else (case soapToJson \<lparr>sl_maxBytes = xl_maxBytes xml, sl_maxDepth = xl_maxDepth xml, sl_maxElements = xl_maxElements xml\<rparr> (utf8_text body) of
          Untransformed \<Rightarrow> Some None
        | Transformed v \<Rightarrow> Some (Some (rn_stringify rt v))
        | TransformThrows \<Rightarrow> None
        | TransformOpen \<Rightarrow> rn_reprototyped rt body))"

definition converted_answer ::
  "Gateway \<Rightarrow> Runtime \<Rightarrow> ConfigRoute \<Rightarrow> Outbound \<Rightarrow> string option \<Rightarrow> http_headers \<Rightarrow> nat \<Rightarrow> bytes \<Rightarrow> int \<Rightarrow> Edge \<Rightarrow> Answer phase \<times> Edge" where
  "converted_answer gw rt route ob cacheKey h status body now ed =
     (case converted_body gw rt route body of
        None \<Rightarrow> (Crash, ed)
      | Some json \<Rightarrow>
          (let out = or_else json body; h = (if json = None then h else header_set ''content-type'' ''application/json; charset=utf-8'' h);
               h = header_set ''content-length'' (show_nat (length out)) h;
               (h, cache) = cache_store cacheKey (ob_cacheUnit ob) status h out now (ed_cache ed)
           in (Go \<lparr>an_status = status, an_headers = h, an_body = Some (whole_stream out),
                an_outcome = (if 400 \<le> status then ''upstream-error''
                  else if rpc_route route \<and> rpcErrorInBody rt body h then ''rpc-error'' else ''ok'')\<rparr>,
               ed\<lparr>ed_cache := cache\<rparr>)))"

text \<open>The check of a body that was read whole: \<open>None\<close> when it must not be delivered.\<close>

definition check_response :: "Platform \<Rightarrow> Validated \<Rightarrow> http_headers \<Rightarrow> nat \<Rightarrow> bytes \<Rightarrow> 'task Instance \<Rightarrow> bool \<times> 'task Instance" where
  "check_response pf v h status body st = (case (vld_artifact v, rs_operation (vld_resolved v)) of
       (Some artifact, Some op) \<Rightarrow>
         if \<not> checks_response v then (True, st)
         else if vo_ok (validateResponse (pf_validators pf) artifact (op_id op) status body h (vld_validate v)) then (True, st)
         else if response_state (vld_validate v) = VBlocking then (False, count CRejected st)
         else (True, count CObserved st)
     | _ \<Rightarrow> (True, st))"

definition inspected_answer ::
  "Gateway \<Rightarrow> Platform \<Rightarrow> Runtime \<Rightarrow> HttpRequest \<Rightarrow> Admitted \<Rightarrow> Validated \<Rightarrow> Outbound \<Rightarrow> string option \<Rightarrow> http_headers \<Rightarrow> UpstreamResponse \<Rightarrow> int \<Rightarrow>
   'task Instance \<times> Edge \<Rightarrow> Answer phase \<times> 'task Instance \<times> Edge" where
  "inspected_answer gw pf rt req adm v ob cacheKey h up now se =
     (let (st, ed) = se; route = rcv_route (adm_received adm); cap = response_cap gw v; blocking = (response_state (vld_validate v) = VBlocking);
          refuse = (\<lambda>outcome. Stop (deny gw req (Some route) 502 outcome (adm_rateHeaders adm))) in
      case (if blocking then tryReserve (ins_budget st) cap else (True, ins_budget st)) of
        (False, _) \<Rightarrow> (refuse ''validate-budget'', count CBudgetShed st, ed)
      | (True, budget) \<Rightarrow>
          (let st = st\<lparr>ins_budget := (if blocking then budget_release budget cap else budget)\<rparr>;
               too_large = (\<lambda>rest. if blocking then (refuse ''validate-budget'', count CBudgetShed st, ed)
                 else (Go \<lparr>an_status = ur_status up, an_headers = h, an_body = rest, an_outcome = plain_outcome (ur_status up)\<rparr>,
                       count CSampleDropped st, ed)) in
           case readResumable (ur_body up) cap of
             Resume rest \<Rightarrow> too_large (Some rest)
           | Lost \<Rightarrow> too_large None
           | Whole body \<Rightarrow> (case check_response pf v h (ur_status up) body st of
               (False, st) \<Rightarrow> (refuse ''validation-rejected'', st, ed)
             | (True, st) \<Rightarrow> (case converted_answer gw rt route ob cacheKey h (ur_status up) body now ed of
                 (answer, ed) \<Rightarrow> (answer, st, ed)))))"

definition respond ::
  "Gateway \<Rightarrow> Platform \<Rightarrow> Runtime \<Rightarrow> HttpRequest \<Rightarrow> Admitted \<Rightarrow> Validated \<Rightarrow> Outbound \<Rightarrow> string option \<Rightarrow> bool \<Rightarrow> UpstreamResponse \<Rightarrow> int \<Rightarrow>
   'task Instance \<times> Edge \<Rightarrow> Answer phase \<times> 'task Instance \<times> Edge" where
  "respond gw pf rt req adm v ob cacheKey capture up now se =
     (let route = rcv_route (adm_received adm); h = answer_headers gw req adm v ob up in
      if sse_on (cr_policy route) \<and> isEventStream h
      then (case sse_answer gw req adm h up now (snd se) of (p, ed) \<Rightarrow> (p, fst se, ed))
      else if \<not> wants_response_work route v cacheKey (ur_status up)
      then (streamed_answer gw req adm h up capture, se)
      else inspected_answer gw pf rt req adm v ob cacheKey h up now se)"

section \<open>Only what conforms\<close>

definition acceptable :: "Platform \<Rightarrow> Validated \<Rightarrow> http_headers \<Rightarrow> nat \<Rightarrow> bytes \<Rightarrow> bool" where
  "acceptable pf v h status body \<longleftrightarrow> (case (vld_artifact v, rs_operation (vld_resolved v)) of
       (Some artifact, Some op) \<Rightarrow>
         if cfo_schemaState op = SchemaOk \<and> response_state (vld_validate v) = VBlocking
         then vo_ok (validateResponse (pf_validators pf) artifact (op_id op) status body h (vld_validate v)) else True
     | _ \<Rightarrow> True)"

lemma check_response_acceptable: "check_response pf v h status body st = (True, st') \<Longrightarrow> acceptable pf v h status body"
  by (auto simp: check_response_def acceptable_def checks_response_def operation_ok_def split: option.splits if_splits)

lemma inspected_answer_go:
  assumes "inspected_answer gw pf rt req adm v ob cacheKey h up now se = (Go an, se')"
  shows "(\<exists>body ed'. readResumable (ur_body up) (response_cap gw v) = Whole body \<and> acceptable pf v h (ur_status up) body \<and>
      converted_answer gw rt (rcv_route (adm_received adm)) ob cacheKey h (ur_status up) body now (snd se) = (Go an, ed') \<and> snd se' = ed') \<or>
    response_state (vld_validate v) \<noteq> VBlocking \<and> snd se' = snd se \<and>
    (\<exists>rest. ((\<exists>t. readResumable (ur_body up) (response_cap gw v) = Resume t \<and> rest = Some t) \<or>
        readResumable (ur_body up) (response_cap gw v) = Lost \<and> rest = None) \<and>
      an = \<lparr>an_status = ur_status up, an_headers = h, an_body = rest, an_outcome = plain_outcome (ur_status up)\<rparr>)"
  using assms
  by (auto simp: inspected_answer_def Let_def split: prod.splits bool.splits if_splits resumable.splits dest: check_response_acceptable)

lemma converted_answer_refused:
  "converted_answer gw rt route ob cacheKey h status body now ed = (Stop r, ed') \<Longrightarrow> False"
  "converted_answer gw rt route ob cacheKey h status body now ed = (Crash, ed') \<Longrightarrow> ed' = ed"
  by (auto simp: converted_answer_def Let_def split: option.splits prod.splits)

lemma inspected_answer_refused:
  "inspected_answer gw pf rt req adm v ob cacheKey h up now se = (Stop r, se') \<Longrightarrow> snd se' = snd se"
  "inspected_answer gw pf rt req adm v ob cacheKey h up now se = (Crash, se') \<Longrightarrow> snd se' = snd se"
  by (auto simp: inspected_answer_def Let_def split: prod.splits bool.splits if_splits resumable.splits dest: converted_answer_refused)

lemma whole_read: "readResumable b cap = Whole body \<Longrightarrow> readWholeBody cap b = Some body"
  by (cases b) (auto simp: readResumable_spec readWholeBody_spec readWholeBody_def [of _ None] readResumable_def [of None] split: if_splits)

lemma response_conforms:
  assumes "art_kind artifact = JsonSchemaArtifact"
  shows "vo_ok (validateResponse vd artifact oid status body h validate) \<longleftrightarrow>
    vo_ok (validateResponseHeaders vd artifact oid status h) \<and>
    (case readJsonBody vd body validate of None \<Rightarrow> False
     | Some json \<Rightarrow> (case applicable_schema artifact oid (ResponseBody status) (header h ''content-type'') of
         None \<Rightarrow> True | Some schema \<Rightarrow> conforms (env_of vd artifact) (Suc MAX_DEPTH) json schema))"
  using assms by (simp add: validateResponse_def Let_def message_ok)

text \<open>C10: Under blocking validation no answer that breaks the contract leaves the gateway. When the operation's contract is a JSON
  schema and the answer is not an event stream, the backend's body was read whole within the cap, its headers and its JSON were
  checked, and the JSON conforms to the schema the contract has for that status and media type, if it has one.\<close>

theorem blocking_answers_conform:
  "case respond gw pf rt req adm v ob cacheKey capture up now se of
     (Go an, _) \<Rightarrow>
       (case (vld_artifact v, rs_operation (vld_resolved v)) of
          (Some artifact, Some op) \<Rightarrow>
            if art_kind artifact = JsonSchemaArtifact \<and> cfo_schemaState op = SchemaOk \<and> response_state (vld_validate v) = VBlocking \<and>
               \<not> (sse_on (cr_policy (rcv_route (adm_received adm))) \<and> isEventStream (answer_headers gw req adm v ob up))
            then vo_ok (validateResponseHeaders (pf_validators pf) artifact (op_id op) (ur_status up) (answer_headers gw req adm v ob up)) \<and>
              (case Option.bind (readWholeBody (response_cap gw v) (ur_body up)) (\<lambda>b. readJsonBody (pf_validators pf) b (vld_validate v)) of
                 None \<Rightarrow> False
               | Some json \<Rightarrow>
                   (case applicable_schema artifact (op_id op) (ResponseBody (ur_status up))
                       (header (answer_headers gw req adm v ob up) ''content-type'') of
                      None \<Rightarrow> True
                    | Some schema \<Rightarrow> conforms (env_of (pf_validators pf) artifact) (Suc MAX_DEPTH) json schema))
            else True
        | _ \<Rightarrow> True)
   | _ \<Rightarrow> True"
proof -
  let ?h = "answer_headers gw req adm v ob up" and ?route = "rcv_route (adm_received adm)"
  let ?json = "Option.bind (readWholeBody (response_cap gw v) (ur_body up)) (\<lambda>b. readJsonBody (pf_validators pf) b (vld_validate v))"
  obtain answer se' where r: "respond gw pf rt req adm v ob cacheKey capture up now se = (answer, se')" by (rule prod.exhaust)
  have key: "vo_ok (validateResponseHeaders (pf_validators pf) artifact (op_id op) (ur_status up) ?h) \<and>
      (case ?json of None \<Rightarrow> False
       | Some json \<Rightarrow> (case applicable_schema artifact (op_id op) (ResponseBody (ur_status up)) (header ?h ''content-type'') of
           None \<Rightarrow> True | Some schema \<Rightarrow> conforms (env_of (pf_validators pf) artifact) (Suc MAX_DEPTH) json schema))"
    if go: "answer = Go an" and op: "vld_artifact v = Some artifact" "rs_operation (vld_resolved v) = Some op"
      "cfo_schemaState op = SchemaOk" "response_state (vld_validate v) = VBlocking" "\<not> (sse_on (cr_policy ?route) \<and> isEventStream ?h)"
      and kind: "art_kind artifact = JsonSchemaArtifact" for an artifact op
  proof -
    have "wants_response_work ?route v cacheKey (ur_status up)"
      using op by (simp add: wants_response_work_def checks_response_def operation_ok_def)
    with r go op(5) have "inspected_answer gw pf rt req adm v ob cacheKey ?h up now se = (Go an, se')"
      by (auto simp: respond_def Let_def split: if_splits)
    from inspected_answer_go [OF this] op(4) obtain body where
      "readResumable (ur_body up) (response_cap gw v) = Whole body" "acceptable pf v ?h (ur_status up) body" by blast
    with op kind show ?thesis by (simp add: acceptable_def response_conforms whole_read del: conforms.simps split: option.splits)
  qed
  show ?thesis
  proof (cases "\<exists>an artifact op. answer = Go an \<and> vld_artifact v = Some artifact \<and> rs_operation (vld_resolved v) = Some op")
    case True
    then obtain an artifact op where a: "answer = Go an" "vld_artifact v = Some artifact" "rs_operation (vld_resolved v) = Some op" by blast
    show ?thesis by (simp only: r a prod.case phase.case option.case) (use key [OF a] in presburger)
  next
    case False
    then show ?thesis by (auto simp: r split: phase.split option.split)
  qed
qed

section \<open>What is delivered\<close>

definition same_body :: "body_stream option \<Rightarrow> body_stream option \<Rightarrow> bool" where
  "same_body sent got \<longleftrightarrow> (case (sent, got) of
       (None, None) \<Rightarrow> True
     | (None, Some s) \<Rightarrow> st_breaks s
     | (Some t, None) \<Rightarrow> content t = [] \<and> \<not> st_breaks t
     | (Some t, Some s) \<Rightarrow> content t = content s \<and> st_breaks t = st_breaks s)"

lemma same_read:
  "readResumable b cap = Whole body \<Longrightarrow> same_body (Some (whole_stream body)) b"
  "readResumable b cap = Resume rest \<Longrightarrow> same_body (Some rest) b"
  "readResumable b cap = Lost \<Longrightarrow> same_body None b"
  by (cases b; auto simp: same_body_def readResumable_spec readResumable_def [of None] whole_stream_def content_def split: if_splits)+

lemma same_refl: "same_body b b"
  by (simp add: same_body_def split: option.split)

lemma streamed_answer_go:
  "streamed_answer gw req adm h up capture = Go an \<Longrightarrow> an_status an = ur_status up \<and> same_body (an_body an) (ur_body up)"
  by (auto simp: streamed_answer_def same_body_def Let_def split: option.splits if_splits dest!: takePrefix_same)

lemma sse_answer_go: "sse_answer gw req adm h up now ed = (Go an, ed') \<Longrightarrow> an_status an = ur_status up \<and> an_body an = ur_body up \<and> ed_cache ed' = ed_cache ed"
  by (auto simp: sse_answer_def Let_def split: stream_admission.splits)

lemma converted_answer_facts:
  assumes "converted_answer gw rt route ob cacheKey h status body now ed = (Go an, ed')"
  shows "an_status an = status \<and> (soap_to_json (cr_policy route) \<or> an_body an = Some (whole_stream body)) \<and>
    (\<exists>out h'. an_body an = Some (whole_stream out) \<and> ed_cache ed' = snd (cache_store cacheKey (ob_cacheUnit ob) status h' out now (ed_cache ed)))"
proof -
  from assms obtain json where c: "converted_body gw rt route body = Some json" by (auto simp: converted_answer_def split: option.splits)
  then have "soap_to_json (cr_policy route) \<or> or_else json body = body" by (auto simp: converted_body_def or_else_def Let_def split: if_splits)
  moreover define h' where "h' = header_set ''content-length'' (show_nat (length (or_else json body)))
    (if json = None then h else header_set ''content-type'' ''application/json; charset=utf-8'' h)"
  then have "an_status an = status" "an_body an = Some (whole_stream (or_else json body))"
    "ed_cache ed' = snd (cache_store cacheKey (ob_cacheUnit ob) status h' (or_else json body) now (ed_cache ed))"
    using assms by (auto simp: converted_answer_def c Let_def split: prod.splits)
  ultimately show ?thesis by auto
qed

text \<open>How an answer comes about.\<close>

lemma refused_keeps_cache:
  "respond gw pf rt req adm v ob cacheKey capture up now se = (Stop r, se') \<Longrightarrow> ed_cache (snd se') = ed_cache (snd se)"
  "respond gw pf rt req adm v ob cacheKey capture up now se = (Crash, se') \<Longrightarrow> ed_cache (snd se') = ed_cache (snd se)"
  by (auto simp: respond_def sse_answer_def Let_def dest: inspected_answer_refused split: prod.splits if_splits stream_admission.splits)

lemma respond_go:
  assumes "respond gw pf rt req adm v ob cacheKey capture up now se = (Go an, se')"
  obtains (sse) "sse_answer gw req adm (answer_headers gw req adm v ob up) up now (snd se) = (Go an, snd se')"
  | (streamed) "streamed_answer gw req adm (answer_headers gw req adm v ob up) up capture = Go an" "snd se' = snd se"
  | (inspected) "inspected_answer gw pf rt req adm v ob cacheKey (answer_headers gw req adm v ob up) up now se = (Go an, se')"
  using assms by (auto simp: respond_def Let_def split: if_splits prod.splits)


section \<open>What is cached\<close>

lemma cache_store_facts:
  "snd (cache_store cacheKey unit status h out now cache) = cache \<or>
   (\<exists>key u e. cacheKey = Some key \<and> unit = Some u \<and> snd (cache_store cacheKey unit status h out now cache) = cache_set cache key e \<and>
      success status \<and> cr_status e = status \<and> cr_body e = map char_of out \<and> length out \<le> or_else (cu_maxBodyBytes u) (1024 * 1024) \<and>
      cr_expiresAtMs e = now + int (cu_ttlSec u) * 1000)"
  by (auto simp: cache_store_def Let_def split: option.splits if_splits)

text \<open>C21: The cache gains nothing but the whole of a successful answer: the body the caller is sent, within the unit's bound, for the
  unit's time, under the key of the request; and when nothing is stored it is left as it was.\<close>

theorem cache_gains_whole_answers:
  "case respond gw pf rt req adm v ob cacheKey capture up now se of
     (answer, _, ed) \<Rightarrow>
       ed_cache ed = ed_cache (snd se) \<or>
       (case (answer, cacheKey, ob_cacheUnit ob) of
          (Go an, Some key, Some u) \<Rightarrow>
            \<exists>e out. ed_cache ed = cache_set (ed_cache (snd se)) key e \<and> an_body an = Some (whole_stream out) \<and> cr_body e = map char_of out \<and>
              cr_status e = an_status an \<and> success (an_status an) \<and> length out \<le> or_else (cu_maxBodyBytes u) (1024 * 1024) \<and>
              cr_expiresAtMs e = now + int (cu_ttlSec u) * 1000
        | _ \<Rightarrow> False)"
proof -
  obtain answer st ed where r: "respond gw pf rt req adm v ob cacheKey capture up now se = (answer, st, ed)"
    by (cases "respond gw pf rt req adm v ob cacheKey capture up now se") auto
  show ?thesis
  proof (cases answer)
    case (Go an)
    from r [unfolded Go] show ?thesis
    proof (cases rule: respond_go)
      case sse
      from sse_answer_go [OF this] show ?thesis by (simp add: r)
    next
      case streamed
      then show ?thesis by (simp add: r)
    next
      case inspected
      from inspected_answer_go [OF inspected] r Go show ?thesis
      proof (elim disjE exE conjE)
        fix body st st' ed'
        assume "converted_answer gw rt (rcv_route (adm_received adm)) ob cacheKey (answer_headers gw req adm v ob up) (ur_status up) body now (snd se) =
          (Go an, ed')" and e: "snd (st, ed) = ed'"
        from converted_answer_facts [OF this(1)] obtain out h' where "an_status an = ur_status up" "an_body an = Some (whole_stream out)"
          "ed_cache ed' = snd (cache_store cacheKey (ob_cacheUnit ob) (ur_status up) h' out now (ed_cache (snd se)))" by auto
        with cache_store_facts [of cacheKey "ob_cacheUnit ob" "ur_status up" h' out now "ed_cache (snd se)"] e r Go
        show ?thesis by auto
      qed auto
    qed
  qed (use r in \<open>auto dest: refused_keeps_cache\<close>)
qed

section \<open>Where the answer is not what it means to be\<close>

text \<open>A SOAP answer that repeats an element named as a member of every object ends the request: nothing catches the conversion's error.\<close>

lemma conversion_crashes:
  assumes "soap_to_json (cr_policy route)" "soapToJson \<lparr>sl_maxBytes = xl_maxBytes xml, sl_maxDepth = xl_maxDepth xml, sl_maxElements = xl_maxElements xml\<rparr>
      (utf8_text body) = TransformThrows" "xml = cl_xml (rt_limits (gw_table gw))"
  shows "converted_answer gw rt route ob cacheKey h status body now ed = (Crash, ed)"
  using assms by (simp add: converted_answer_def converted_body_def)

text \<open>A body that breaks while it is read for inspection is delivered as an empty one, under the backend's own status.\<close>

lemma broken_answer_served_empty:
  assumes "ur_body up = Some s" "st_breaks s" "length (content s) \<le> response_cap gw v" "response_state (vld_validate v) \<noteq> VBlocking"
    "\<not> sse_on (cr_policy (rcv_route (adm_received adm)))" "wants_response_work (rcv_route (adm_received adm)) v cacheKey (ur_status up)"
  shows "fst (respond gw pf rt req adm v ob cacheKey capture up now se) =
    Go \<lparr>an_status = ur_status up, an_headers = answer_headers gw req adm v ob up, an_body = None, an_outcome = plain_outcome (ur_status up)\<rparr>"
  using assms by (simp add: respond_def inspected_answer_def readResumable_spec Let_def split: prod.split)

text \<open>On a route with CORS the \<^verbatim>\<open>Vary\<close> of the cross-origin headers replaces the one that names the encoding.\<close>

lemma cors_replaces_vary:
  assumes "corsHeaders (rcv_route (adm_received adm)) (header (req_headers req) ''origin'') \<noteq> []"
    "headers_response (cr_policy (rcv_route (adm_received adm))) = None"
  shows "header (answer_headers gw req adm v ob up) ''vary'' = Some ''Origin''"
proof -
  let ?cors = "corsHeaders (rcv_route (adm_received adm)) (header (req_headers req) ''origin'')"
  obtain a rest where c: "?cors = a # (''vary'', ''Origin'') # rest" "list_all (\<lambda>(k, _). toLowerCase k \<noteq> ''vary'') rest"
  proof -
    have "toLowerCase ''access-control-allow-credentials'' \<noteq> ''vary''" "toLowerCase ''access-control-expose-headers'' \<noteq> ''vary''" by code_simp+
    then show thesis using assms(1) that by (auto simp: corsHeaders_def split: option.splits if_splits)
  qed
  have "header (set_all ((''vary'', ''Origin'') # rest) h) ''vary'' = Some ''Origin''" for h
  proof -
    have v: "toLowerCase ''vary'' = ''vary''" "toLowerCase ''x-request-id'' \<noteq> ''vary''" by code_simp+
    have "''vary'' \<notin> toLowerCase ` fst ` set rest" using c(2) by (auto simp: list_all_iff)
    then have "header (set_all rest (header_set ''vary'' ''Origin'' h)) ''vary'' = Some ''Origin''"
      using set_all_other [of "''vary''" rest] v by simp
    then show ?thesis by (simp add: set_all_def)
  qed
  then have "header (set_all ?cors h) ''vary'' = Some ''Origin''" for h unfolding c(1) by (simp add: set_all_def)
  moreover have "toLowerCase ''x-request-id'' \<noteq> toLowerCase ''vary''" by code_simp
  ultimately show ?thesis by (simp add: answer_headers_def Let_def assms(2) header_rules_def or_else_def)
qed

text \<open>The range a caller asks for is relayed, and no part of the key of what is stored: the part is stored for the whole.\<close>

lemma partial_answer_same_key:
  assumes "ob_cacheUnit ob = Some unit" "''range'' \<notin> toLowerCase ` set (cu_vary unit)"
  shows "cache_key gw (req\<lparr>req_headers := header_set ''range'' r (req_headers req)\<rparr>) adm ob = cache_key gw req adm ob \<and> success 206"
proof -
  have "toLowerCase ''range'' = ''range''" by code_simp
  with assms(2) have "map (\<lambda>name. toLowerCase name @ ''='' @ or_else (header (header_set ''range'' r (req_headers req)) name) []) (cu_vary unit) =
      map (\<lambda>name. toLowerCase name @ ''='' @ or_else (header (req_headers req) name) []) (cu_vary unit)" by auto
  then show ?thesis by (simp add: cache_key_def assms(1) cacheKeyFor_def cacheKeyParts_def success_def del: header_set map_eq_conv)
qed

end
