(* ===== verification/Spec2Isabelle.thy ===== *)
theory Spec2Isabelle
  imports OpMatch RateLimit Concurrency QuotaFleet ConfigClient JsonReader SpineChecks TokenCaches Response
begin

text \<open>
  A verification library of the API management platform: a control plane that stores APIs, policies and
  releases and compiles them into one configuration document per environment, and gateways (the data plane) that
  poll for that document and serve the traffic. Definitions are translations of the TypeScript under
  \<^verbatim>\<open>src/shared\<close>, \<^verbatim>\<open>src/data-plane/src\<close> and \<^verbatim>\<open>src/control-plane/src\<close>, in the order the code has them and under
  the code's names (a name that clashes with one of the library carries a prefix or a suffix). A property stands after a text
  block with its number; the other lemmas are the library the properties rest on.

  \<^bold>\<open>Shared ground.\<close>
  \<^item> \<^verbatim>\<open>Prelude\<close>: the language's \<^verbatim>\<open>Map\<close> as an association list in insertion order, strings (\<^verbatim>\<open>trim\<close>, \<^verbatim>\<open>split\<close>,
    case), decimal numerals, and the interfaces \<^verbatim>\<open>machine\<close>, \<^verbatim>\<open>transition_system\<close> and \<^verbatim>\<open>simulation\<close>.
  \<^item> \<^verbatim>\<open>Json\<close>, \<^verbatim>\<open>JsUri\<close>, \<^verbatim>\<open>IsoTime\<close>: JSON values, percent coding, and the \<^verbatim>\<open>toISOString\<close> and \<^verbatim>\<open>Date.parse\<close> of
    instants, with their round trips.
  \<^item> \<^verbatim>\<open>ConfigDoc\<close>: the records of \<^verbatim>\<open>shared/config-doc.ts\<close> and of the policy units of \<^verbatim>\<open>shared/policy.ts\<close>.

  \<^bold>\<open>The gateway.\<close>
  \<^item> \<^verbatim>\<open>Routing\<close>, \<^verbatim>\<open>OpMatch\<close>, \<^verbatim>\<open>RouteTable\<close>: host and path normalisation, operation templates and their compiled
    index, the table of one configuration. Matching through the index is the first best declaration; the route chosen is the
    longest base path of the request's host.
  \<^item> \<^verbatim>\<open>RateLimit\<close>, \<^verbatim>\<open>Concurrency\<close>, \<^verbatim>\<open>Cache\<close>, \<^verbatim>\<open>Streams\<close>, \<^verbatim>\<open>Backend\<close>: the limiter, the bulkhead, the response cache, the
    stream registry and the pool with its circuit breaker, each with the invariant of its runs.
  \<^item> \<^verbatim>\<open>Quota\<close>, \<^verbatim>\<open>QuotaFleet\<close>: an instance's counters and the fleet's service; a run interleaves instances, polls that are
    lost or repeated, flushes and restarts, and no call is refused before as many were really allowed.
  \<^item> \<^verbatim>\<open>Telemetry\<close>, \<^verbatim>\<open>Settings\<close>, \<^verbatim>\<open>Template\<close>, \<^verbatim>\<open>Net\<close>, \<^verbatim>\<open>JsonReader\<close>: what an instance counts, the operational settings it
    is handed, template rendering, addresses and ranges, and the bounded reader of request bodies. The reader's recursion is by
    fuel, twice the length of the text and one; \<^verbatim>\<open>readJsonBounded_total\<close> shows that this is enough.
  \<^item> \<^verbatim>\<open>ConfigClient\<close>: the poll. Its two suspension points are separate steps, so answers may arrive in any order; the
    properties say which document serves.

  \<^bold>\<open>The request path of a gateway\<close> (\<^verbatim>\<open>handleRequest\<close> of \<^verbatim>\<open>data-plane/src/pipeline.ts\<close>), in the order of its steps. A phase goes on
  with a value, stops with a reply, or throws; the state an instance keeps is passed along, and a step that waits is split there.
  \<^item> \<^verbatim>\<open>Http\<close>: headers, media types, and bodies as chunks that may end in an error, with the functions that cap, buffer, peek
    and replay them.
  \<^item> \<^verbatim>\<open>Identity\<close>, \<^verbatim>\<open>TokenCaches\<close>: what each identity unit accepts (\<^verbatim>\<open>identity.ts\<close>, \<^verbatim>\<open>jwt.ts\<close>), and the caches of keys, tokens
    and introspection answers, one fetch of a key at a time.
  \<^item> \<^verbatim>\<open>Admission\<close>: steps 1 to 10, from the route to the preconditions. What passes has passed every check, and what a refusal
    costs is said.
  \<^item> \<^verbatim>\<open>XmlScan\<close>, \<^verbatim>\<open>XmlTree\<close>: the restrictive XML scanner, the scan of an envelope's front, the parse into a tree, and a SOAP
    answer as JSON (\<^verbatim>\<open>shared/xml.ts\<close>, \<^verbatim>\<open>transform.ts\<close>). What the front of an envelope says, the whole says.
  \<^item> \<^verbatim>\<open>JsonSchema\<close>, \<^verbatim>\<open>Contract\<close>, \<^verbatim>\<open>Sampling\<close>: the schema validator against a plain reading of the schema, bodies and parameters
    against the compiled contract, and the sampler, pool and budget that bound that work. The validator's recursion argument is
    the depth it may still descend, as in the source.
  \<^item> \<^verbatim>\<open>Resolution\<close>: steps 11 and 12, the operation a path, an envelope or a JSON-RPC method names, its own units and the checks
    of parameters and body. What is served is declared, what blocks conforms, and the body goes on unchanged.
  \<^item> \<^verbatim>\<open>Upstream\<close>: steps 13 to 16, the request a backend is sent, and the cached answer or WebSocket it may get instead.
  \<^item> \<^verbatim>\<open>Dispatch\<close>: steps 17 to 19, the attempts with bulkhead, breaker, credential, deadline and retries, interleaved.
  \<^item> \<^verbatim>\<open>Response\<close>: steps 20 to 24, what becomes of the backend's answer and of the cache.

  \<^bold>\<open>The control plane.\<close>
  \<^item> \<^verbatim>\<open>Store\<close>: the tables, each a list of rows in \<^verbatim>\<open>rowid\<close> order, and the queries several services share.
  \<^item> \<^verbatim>\<open>GlobalPolicy\<close>, \<^verbatim>\<open>PolicyChecks\<close>, \<^verbatim>\<open>PolicyUnits\<close>, \<^verbatim>\<open>PolicyWrites\<close>: the two policy tiers, the validation of every unit and of
    the document, and the handlers that write units. An accepted write leaves a valid effective document, and nobody but an
    administrator changes what an API runs of a unit of the environment.
  \<^item> \<^verbatim>\<open>Egress\<close>, \<^verbatim>\<open>ConfigBuild\<close>, \<^verbatim>\<open>KeyExpiry\<close>: which backends are admitted, the document a gateway is sent, and the
    retirement of keys.
  \<^item> \<^verbatim>\<open>Promotion\<close>, \<^verbatim>\<open>Releases\<close>: promotion plans, the reconciler and the job runner.
  \<^item> \<^verbatim>\<open>Domains\<close>, \<^verbatim>\<open>Spine\<close>, \<^verbatim>\<open>SpineRequests\<close>, \<^verbatim>\<open>SpineChecks\<close>: the taxonomy of addresses, the durable operations that publish,
    configure and promote an API, and what they guarantee.
  \<^item> \<^verbatim>\<open>ReleaseSystem\<close>: both ways to a release on one table, as a step relation, and the specification it refines.

  \<^bold>\<open>Conventions.\<close> A \<^verbatim>\<open>throw\<close> or an early error return is the left of a sum; message texts are kept where a caller can
  tell them apart. Clocks, random identifiers, digests, encryption, the URL parser, regular expressions, name resolution and
  signature checks are arguments. A handler with \<^verbatim>\<open>await\<close> is split at it: the part before and the part after read
  different states, so everything another handler can do in between is covered. A SQL transaction is one definition. The
  only loop that may not end is the search for a product's name, a \<^verbatim>\<open>partial_function\<close>; \<^verbatim>\<open>product_name_found\<close> says when
  it does end.

  \<^bold>\<open>Not modelled.\<close> The user interface, sessions and OpenID Connect, the import of contracts (OpenAPI, WSDL, MCP, A2A),
  dashboards, log files, search, notifications and the other services that only read tables and render them, the
  Kafka administration client, the WebSocket bridge and the supervision of event streams, process start, migrations and tools:
  they are input and output, rendering or the runtime's cryptography. Of the request path, log records, traces and telemetry events, \<^verbatim>\<open>Server-Timing\<close> and the texts of error bodies are left out; the
  XSD validator, regular expressions and the formats of dates are arguments. Floating-point rounding is not
  modelled: measured durations are rationals.
\<close>

end
